(* ===== verification/Prelude.thy ===== *)
theory Prelude
  imports Main "HOL-Library.Word" "HOL-Library.Monad_Syntax"
begin

text \<open>
  Shared vocabulary of the development: C pointers, the integer widths the sources use, the error
  numbers they test, and the generic facts about option-valued computations, flag words and lists
  that the component theories use.

  A C function that may fail to return (it blocks on a lock that is never released, follows a
  pointer to memory that is not there, or walks a cyclic chain for ever) is a function into
  \<open>option\<close>; \<open>None\<close> is the outcome "does not return". A function that returns yields
  \<open>Some (r, s)\<close>: its result and the state it leaves.
\<close>

unbundle bit_operations_syntax

named_theorems sync_simps
  "the synchronisation primitives and the statistics calls in an environment without failures"
named_theorems flag_simps
  "the bits of entry flags and table options"
named_theorems world_simps
  "reading back what an update of the world wrote"

section \<open>Types\<close>

type_synonym u8 = "8 word"
type_synonym u16 = "16 word"
type_synonym u32 = "32 word"
type_synonym u64 = "64 word"

text \<open>A pointer to an object with address \<open>a\<close>, or the null pointer.\<close>

datatype 'a ptr = NULL | Ptr 'a

fun deref :: "'a ptr \<Rightarrow> 'a option" where
  "deref NULL = None"
| "deref (Ptr a) = Some a"

text \<open>The result and the new state of a call that returns, \<open>None\<close> for one that does not.\<close>

type_synonym ('r, 's) outcome = "('r \<times> 's) option"

definition runs :: "('r, 's) outcome \<Rightarrow> ('r \<Rightarrow> 's \<Rightarrow> bool) \<Rightarrow> bool" where
  "runs m Q \<longleftrightarrow> (\<exists>r s. m = Some (r, s) \<and> Q r s)"

section \<open>Error numbers of the platform\<close>

abbreviation (input) EPERM :: int where "EPERM \<equiv> 1"
abbreviation (input) ENOENT :: int where "ENOENT \<equiv> 2"
abbreviation (input) EINTR :: int where "EINTR \<equiv> 4"
abbreviation (input) ENOMEM :: int where "ENOMEM \<equiv> 12"
abbreviation (input) EEXIST :: int where "EEXIST \<equiv> 17"
abbreviation (input) EINVAL :: int where "EINVAL \<equiv> 22"

section \<open>Short-circuit disjunction of calls\<close>

text \<open>
  The C expression \<^verbatim>\<open>f1(...) || f2(...) || ...\<close> over calls that return 0 for success: the calls run
  in order up to and including the first that fails.
\<close>

fun first_failure :: "('s \<Rightarrow> (int, 's) outcome) list \<Rightarrow> 's \<Rightarrow> (int, 's) outcome" where
  "first_failure [] s = Some (0, s)"
| "first_failure (f # fs) s = do {
     (r, s) \<leftarrow> f s;
     if r \<noteq> 0 then Some (r, s) else first_failure fs s }"

section \<open>Generic lemmas\<close>

lemma runs_Some [simp]: "runs (Some (r, s)) Q \<longleftrightarrow> Q r s"
  by (simp add: runs_def)

lemma runs_None [simp]: "\<not> runs None Q"
  by (simp add: runs_def)

lemma runs_bind:
  "runs (m \<bind> (\<lambda>(r, s). f r s)) Q \<longleftrightarrow> runs m (\<lambda>r s. runs (f r s) Q)"
  by (cases m) (auto simp: runs_def)

lemma runs_mono: "runs m P \<Longrightarrow> (\<And>r s. P r s \<Longrightarrow> Q r s) \<Longrightarrow> runs m Q"
  by (auto simp: runs_def)

lemma runs_conj: "runs m P \<Longrightarrow> runs m Q \<Longrightarrow> runs m (\<lambda>r s. P r s \<and> Q r s)"
  by (auto simp: runs_def)

lemma not_NULL_eq: "p \<noteq> NULL \<longleftrightarrow> (\<exists>a. p = Ptr a)"
  by (cases p) auto

text \<open>Bits 0 and 1 are the only ones the flag and option words of the sources use.\<close>

lemma and_one_neq_0 [flag_simps]: "((w::'a::len word) AND 1 \<noteq> 0) = bit w 0"
  by (simp add: and_one_eq bit_0 odd_iff_mod_2_eq_one)

lemma and_two_eq: "(w::'a::len word) AND 2 = (if bit w 1 then 2 else 0)"
proof (rule bit_eqI)
  fix n
  show "bit (w AND 2) n = bit (if bit w 1 then 2 else 0 :: 'a word) n"
    using bit_2_iff [where 'a = "'a word"] by (auto simp: bit_and_iff)
qed

end
