(* ===== verification/Sync.thy ===== *)
theory Sync
  imports Prelude
begin

text \<open>
  The data of \<^verbatim>\<open>libhashtable.c\<close> (\<^verbatim>\<open>hashtable.h\<close>, \<^verbatim>\<open>hashtable_data.h\<close>) as a
  store, and the parts of the C library the file calls: \<^verbatim>\<open>malloc\<close>, \<^verbatim>\<open>free\<close>,
  \<^verbatim>\<open>bcmp\<close> and the Solaris read-write locks and mutexes.

  The store is split by structure and field: table heads, slab headers and table entries live in
  maps of their own, and the locks and statistics that the C structures embed are addressed by the
  structure they belong to (\<open>TableLock h\<close> is \<^verbatim>\<open>&ht->tablelock\<close>). A map without a binding
  at an address is memory that is not allocated.
\<close>

section \<open>Locks\<close>

text \<open>
  What a read-write lock or a mutex holds. A lock that was never initialised, or was destroyed or
  freed, is \<open>RW_Uninit\<close> or \<open>MX_Uninit\<close>; using it is undefined behaviour.
\<close>

datatype rwlock = RW_Uninit | RW_Free | RW_Read nat | RW_Write

datatype mutex = MX_Uninit | MX_Free | MX_Held

section \<open>hashtable.h and hashtable_data.h\<close>

definition hto_resize_implicit :: u32 where "hto_resize_implicit = 1"
definition hto_dups_allowed :: u32 where "hto_dups_allowed = 2"

definition htef_occupied :: u32 where "htef_occupied = 1"
definition htef_lock_initialized :: u32 where "htef_lock_initialized = 2"

text \<open>
  An entry is addressed by its slab and its index in the slab; table heads and slabs are addressed
  by numbers. Keys and data stay in storage of the caller, of which the table keeps addresses.
\<close>

type_synonym addr = nat
type_synonym eaddr = "addr \<times> nat"
type_synonym memory = "u64 \<Rightarrow> u8"

record hashtable_entry =
  hte_next :: "eaddr ptr"
  hte_key :: u64
  hte_data :: u64
  hte_flags :: u32

record hashtable_slab =
  sl_next :: "addr ptr"
  sl_entry :: "eaddr ptr"
  sl_entrycount :: u64

record hashtable_average =
  av_count :: u64
  av_sum :: u64
  av_current :: u64
  av_maximum :: u64

datatype ht_average = Depth | Freechain | Searches

datatype ht_counter = Deletes | Errors | Hits | Inserts | Probes | Resizes | Slabs

record hashtable =
  ht_keysize :: u32
  ht_options :: u32
  ht_old :: "addr ptr"
  ht_slabs :: "addr ptr"
  ht_table :: "addr ptr"
  ht_freechain :: "eaddr ptr"
  ht_hash_compute :: "memory \<Rightarrow> u64 \<Rightarrow> u64 \<Rightarrow> u64 \<Rightarrow> u64 option"
  ht_key_compare :: "memory \<Rightarrow> u64 \<Rightarrow> u64 \<Rightarrow> u64 \<Rightarrow> int"
  ht_threshold_evaluate :: "(u64 \<Rightarrow> u64 \<Rightarrow> u64 \<Rightarrow> u64 \<Rightarrow> u64 \<Rightarrow> int) ptr"

datatype lock_addr = TableLock addr | FreeLock addr | EntryLock eaddr

datatype mutex_addr = ResizeMutex addr | AverageMutex addr ht_average | CounterMutex addr ht_counter

record world =
  w_tick :: nat
  w_errno :: int
  w_mem :: memory
  w_brk :: addr
  w_tables :: "addr \<rightharpoonup> hashtable"
  w_slabs :: "addr \<rightharpoonup> hashtable_slab"
  w_ents :: "eaddr \<rightharpoonup> hashtable_entry"
  w_rw :: "lock_addr \<Rightarrow> rwlock"
  w_mx :: "mutex_addr \<Rightarrow> mutex"
  w_ctr :: "addr \<times> ht_counter \<Rightarrow> u64"
  w_avg :: "addr \<times> ht_average \<Rightarrow> hashtable_average"

text \<open>
  What the system decides: whether the synchronisation call made at a given tick reports an error
  (a non-zero number), whether an allocation succeeds, and what a fresh block of memory contains.
  Every such call advances the tick, so an environment can make any single call fail.
\<close>

record ht_env =
  sync_err :: "nat \<Rightarrow> int"
  malloc_ok :: "nat \<Rightarrow> bool"
  raw_table :: "nat \<Rightarrow> hashtable"
  raw_slab :: "nat \<Rightarrow> hashtable_slab"
  raw_entry :: "nat \<Rightarrow> nat \<Rightarrow> hashtable_entry"

text \<open>The environment in which nothing fails.\<close>

definition env_ok :: "ht_env \<Rightarrow> bool" where
  "env_ok env \<longleftrightarrow> (\<forall>t. sync_err env t = 0 \<and> malloc_ok env t)"

section \<open>The synchronisation library\<close>

text \<open>
  Each call either reports the environment's error and changes nothing, or acts. A lock that is
  held in a conflicting mode makes the caller wait; the model follows one thread while the others
  stand still, so waiting never ends and the outcome is \<open>None\<close>. (A library that detects the
  self-deadlock and returns an error instead is an environment that reports one.) Releasing a lock
  that nobody holds is reported as \<open>EPERM\<close>.
\<close>

abbreviation tick :: "world \<Rightarrow> world" where
  "tick s \<equiv> s\<lparr>w_tick := Suc (w_tick s)\<rparr>"

definition rw_set :: "lock_addr \<Rightarrow> rwlock \<Rightarrow> world \<Rightarrow> world" where
  "rw_set l v s = s\<lparr>w_rw := (w_rw s)(l := v)\<rparr>"

definition mx_set :: "mutex_addr \<Rightarrow> mutex \<Rightarrow> world \<Rightarrow> world" where
  "mx_set m v s = s\<lparr>w_mx := (w_mx s)(m := v)\<rparr>"

definition mutex_init :: "ht_env \<Rightarrow> mutex_addr \<Rightarrow> world \<Rightarrow> (int, world) outcome" where
  "mutex_init env m s =
     (let e = sync_err env (w_tick s) in
      if e \<noteq> 0 then Some (e, tick s) else Some (0, mx_set m MX_Free (tick s)))"

definition mutex_lock :: "ht_env \<Rightarrow> mutex_addr \<Rightarrow> world \<Rightarrow> (int, world) outcome" where
  "mutex_lock env m s =
     (let e = sync_err env (w_tick s) in
      if e \<noteq> 0 then Some (e, tick s)
      else (case w_mx s m of
              MX_Free \<Rightarrow> Some (0, mx_set m MX_Held (tick s))
            | MX_Held \<Rightarrow> None
            | MX_Uninit \<Rightarrow> None))"

definition mutex_unlock :: "ht_env \<Rightarrow> mutex_addr \<Rightarrow> world \<Rightarrow> (int, world) outcome" where
  "mutex_unlock env m s =
     (let e = sync_err env (w_tick s) in
      if e \<noteq> 0 then Some (e, tick s)
      else (case w_mx s m of
              MX_Held \<Rightarrow> Some (0, mx_set m MX_Free (tick s))
            | MX_Free \<Rightarrow> Some (EPERM, tick s)
            | MX_Uninit \<Rightarrow> None))"

definition mutex_destroy :: "ht_env \<Rightarrow> mutex_addr \<Rightarrow> world \<Rightarrow> (int, world) outcome" where
  "mutex_destroy env m s =
     (let e = sync_err env (w_tick s) in
      if e \<noteq> 0 then Some (e, tick s)
      else if w_mx s m = MX_Uninit then None
      else Some (0, mx_set m MX_Uninit (tick s)))"

definition rwlock_init :: "ht_env \<Rightarrow> lock_addr \<Rightarrow> world \<Rightarrow> (int, world) outcome" where
  "rwlock_init env l s =
     (let e = sync_err env (w_tick s) in
      if e \<noteq> 0 then Some (e, tick s) else Some (0, rw_set l RW_Free (tick s)))"

definition rwlock_destroy :: "ht_env \<Rightarrow> lock_addr \<Rightarrow> world \<Rightarrow> (int, world) outcome" where
  "rwlock_destroy env l s =
     (let e = sync_err env (w_tick s) in
      if e \<noteq> 0 then Some (e, tick s)
      else if w_rw s l = RW_Uninit then None
      else Some (0, rw_set l RW_Uninit (tick s)))"

definition rw_rdlock :: "ht_env \<Rightarrow> lock_addr \<Rightarrow> world \<Rightarrow> (int, world) outcome" where
  "rw_rdlock env l s =
     (let e = sync_err env (w_tick s) in
      if e \<noteq> 0 then Some (e, tick s)
      else (case w_rw s l of
              RW_Free \<Rightarrow> Some (0, rw_set l (RW_Read 1) (tick s))
            | RW_Read n \<Rightarrow> Some (0, rw_set l (RW_Read (Suc n)) (tick s))
            | RW_Write \<Rightarrow> None
            | RW_Uninit \<Rightarrow> None))"

definition rw_wrlock :: "ht_env \<Rightarrow> lock_addr \<Rightarrow> world \<Rightarrow> (int, world) outcome" where
  "rw_wrlock env l s =
     (let e = sync_err env (w_tick s) in
      if e \<noteq> 0 then Some (e, tick s)
      else (case w_rw s l of
              RW_Free \<Rightarrow> Some (0, rw_set l RW_Write (tick s))
            | RW_Read n \<Rightarrow> None
            | RW_Write \<Rightarrow> None
            | RW_Uninit \<Rightarrow> None))"

definition rw_unlock :: "ht_env \<Rightarrow> lock_addr \<Rightarrow> world \<Rightarrow> (int, world) outcome" where
  "rw_unlock env l s =
     (let e = sync_err env (w_tick s) in
      if e \<noteq> 0 then Some (e, tick s)
      else (case w_rw s l of
              RW_Write \<Rightarrow> Some (0, rw_set l RW_Free (tick s))
            | RW_Read n \<Rightarrow> Some (0, rw_set l (if n \<le> 1 then RW_Free else RW_Read (n - 1)) (tick s))
            | RW_Free \<Rightarrow> Some (EPERM, tick s)
            | RW_Uninit \<Rightarrow> None))"

section \<open>Memory\<close>

text \<open>
  \<^verbatim>\<open>malloc\<close> gives a block at a fresh address whose contents are arbitrary, or fails with
  \<open>ENOMEM\<close>. Freeing a structure ends the life of the locks in it.
\<close>

definition malloc_table :: "ht_env \<Rightarrow> world \<Rightarrow> addr ptr \<times> world" where
  "malloc_table env s =
     (if malloc_ok env (w_tick s)
      then (Ptr (w_brk s), (tick s)\<lparr>w_brk := Suc (w_brk s),
              w_tables := (w_tables s)(w_brk s \<mapsto> raw_table env (w_tick s))\<rparr>)
      else (NULL, (tick s)\<lparr>w_errno := ENOMEM\<rparr>))"

text \<open>
  The bytes of an entry: a lock of the thread library (64 bytes), three pointers of 8 bytes, the flags with their
  padding. The header of a slab is a union with an entry and as large as one.
\<close>

definition sizeof_entry :: u64 where
  "sizeof_entry = 64 + 3 * 8 + 8"

definition sizeof_slab :: u64 where
  "sizeof_slab = sizeof_entry"

text \<open>
  A block of \<open>sz\<close> bytes for a slab: the header and the entries that lie in the block exist; others are outside of it, and
  to write them is undefined.
\<close>

definition slab_room :: "u64 \<Rightarrow> nat" where
  "slab_room sz = (unat sz - unat sizeof_slab) div unat sizeof_entry"

definition malloc_slab :: "ht_env \<Rightarrow> u64 \<Rightarrow> world \<Rightarrow> addr ptr \<times> world" where
  "malloc_slab env sz s =
     (if malloc_ok env (w_tick s)
      then (Ptr (w_brk s), (tick s)\<lparr>w_brk := Suc (w_brk s),
              w_slabs := (w_slabs s)(w_brk s := (if sizeof_slab \<le> sz then Some (raw_slab env (w_tick s)) else None)),
              w_ents := (\<lambda>p. if fst p = w_brk s
                             then (if snd p < slab_room sz
                                   then Some (raw_entry env (w_tick s) (snd p)) else None)
                             else w_ents s p)\<rparr>)
      else (NULL, (tick s)\<lparr>w_errno := ENOMEM\<rparr>))"

fun lock_of_table :: "addr \<Rightarrow> lock_addr \<Rightarrow> bool" where
  "lock_of_table h (TableLock a) = (a = h)"
| "lock_of_table h (FreeLock a) = (a = h)"
| "lock_of_table h (EntryLock p) = False"

fun lock_of_slab :: "addr \<Rightarrow> lock_addr \<Rightarrow> bool" where
  "lock_of_slab a (EntryLock p) = (fst p = a)"
| "lock_of_slab a _ = False"

fun mutex_of_table :: "addr \<Rightarrow> mutex_addr \<Rightarrow> bool" where
  "mutex_of_table h (ResizeMutex a) = (a = h)"
| "mutex_of_table h (AverageMutex a _) = (a = h)"
| "mutex_of_table h (CounterMutex a _) = (a = h)"

definition free_table :: "addr \<Rightarrow> world \<Rightarrow> world" where
  "free_table h s = s\<lparr>w_tables := (w_tables s)(h := None),
     w_rw := (\<lambda>l. if lock_of_table h l then RW_Uninit else w_rw s l),
     w_mx := (\<lambda>m. if mutex_of_table h m then MX_Uninit else w_mx s m)\<rparr>"

definition free_slab :: "addr \<Rightarrow> world \<Rightarrow> world" where
  "free_slab a s = s\<lparr>w_slabs := (w_slabs s)(a := None),
     w_ents := (\<lambda>p. if fst p = a then None else w_ents s p),
     w_rw := (\<lambda>l. if lock_of_slab a l then RW_Uninit else w_rw s l)\<rparr>"

text \<open>The bytes of a key, and the comparison \<^verbatim>\<open>bcmp\<close> of two of them.\<close>

fun key_bytes :: "memory \<Rightarrow> u64 \<Rightarrow> nat \<Rightarrow> u8 list" where
  "key_bytes mem a 0 = []"
| "key_bytes mem a (Suc n) = mem a # key_bytes mem (a + 1) n"

definition bcmp :: "memory \<Rightarrow> u64 \<Rightarrow> u64 \<Rightarrow> u64 \<Rightarrow> int" where
  "bcmp mem a b n = (if key_bytes mem a (unat n) = key_bytes mem b (unat n) then 0 else 1)"

text \<open>Reading and writing a field through a pointer: \<open>None\<close> where nothing is allocated.\<close>

definition upd_ht :: "addr \<Rightarrow> (hashtable \<Rightarrow> hashtable) \<Rightarrow> world \<Rightarrow> world option" where
  "upd_ht h f s = (case w_tables s h of None \<Rightarrow> None
     | Some t \<Rightarrow> Some (s\<lparr>w_tables := (w_tables s)(h \<mapsto> f t)\<rparr>))"

definition upd_slab :: "addr \<Rightarrow> (hashtable_slab \<Rightarrow> hashtable_slab) \<Rightarrow> world \<Rightarrow> world option" where
  "upd_slab a f s = (case w_slabs s a of None \<Rightarrow> None
     | Some t \<Rightarrow> Some (s\<lparr>w_slabs := (w_slabs s)(a \<mapsto> f t)\<rparr>))"

definition upd_hte :: "eaddr \<Rightarrow> (hashtable_entry \<Rightarrow> hashtable_entry) \<Rightarrow> world \<Rightarrow> world option" where
  "upd_hte p f s = (case w_ents s p of None \<Rightarrow> None
     | Some e \<Rightarrow> Some (s\<lparr>w_ents := (w_ents s)(p \<mapsto> f e)\<rparr>))"

text \<open>The address \<^verbatim>\<open>&table->header.entry[i]\<close> of an element of an entry array.\<close>

definition elem :: "eaddr \<Rightarrow> nat \<Rightarrow> eaddr" where
  "elem p i = (fst p, snd p + i)"

section \<open>The primitives without failures\<close>

lemma env_okD [simp]: "env_ok env \<Longrightarrow> sync_err env t = 0" "env_ok env \<Longrightarrow> malloc_ok env t"
  by (auto simp: env_ok_def)

lemma mutex_init_ok [sync_simps]:
  "env_ok env \<Longrightarrow> mutex_init env m s = Some (0, mx_set m MX_Free (tick s))"
  by (simp add: mutex_init_def)

lemma mutex_lock_ok [sync_simps]:
  "env_ok env \<Longrightarrow> w_mx s m = MX_Free \<Longrightarrow> mutex_lock env m s = Some (0, mx_set m MX_Held (tick s))"
  by (simp add: mutex_lock_def)

lemma mutex_unlock_ok [sync_simps]:
  "env_ok env \<Longrightarrow> w_mx s m = MX_Held \<Longrightarrow> mutex_unlock env m s = Some (0, mx_set m MX_Free (tick s))"
  by (simp add: mutex_unlock_def)

lemma mutex_destroy_ok [sync_simps]:
  "env_ok env \<Longrightarrow> w_mx s m \<noteq> MX_Uninit
     \<Longrightarrow> mutex_destroy env m s = Some (0, mx_set m MX_Uninit (tick s))"
  by (simp add: mutex_destroy_def)

lemma rwlock_init_ok [sync_simps]:
  "env_ok env \<Longrightarrow> rwlock_init env l s = Some (0, rw_set l RW_Free (tick s))"
  by (simp add: rwlock_init_def)

lemma rwlock_destroy_ok [sync_simps]:
  "env_ok env \<Longrightarrow> w_rw s l \<noteq> RW_Uninit
     \<Longrightarrow> rwlock_destroy env l s = Some (0, rw_set l RW_Uninit (tick s))"
  by (simp add: rwlock_destroy_def)

lemma rw_rdlock_ok [sync_simps]:
  "env_ok env \<Longrightarrow> w_rw s l = RW_Free \<Longrightarrow> rw_rdlock env l s = Some (0, rw_set l (RW_Read 1) (tick s))"
  by (simp add: rw_rdlock_def)

lemma rw_wrlock_ok [sync_simps]:
  "env_ok env \<Longrightarrow> w_rw s l = RW_Free \<Longrightarrow> rw_wrlock env l s = Some (0, rw_set l RW_Write (tick s))"
  by (simp add: rw_wrlock_def)

lemma rw_unlock_write [sync_simps]:
  "env_ok env \<Longrightarrow> w_rw s l = RW_Write \<Longrightarrow> rw_unlock env l s = Some (0, rw_set l RW_Free (tick s))"
  by (simp add: rw_unlock_def)

lemma rw_unlock_read [sync_simps]:
  "env_ok env \<Longrightarrow> w_rw s l = RW_Read (Suc 0)
     \<Longrightarrow> rw_unlock env l s = Some (0, rw_set l RW_Free (tick s))"
  by (simp add: rw_unlock_def)

lemma rw_unlock_free [sync_simps]:
  "env_ok env \<Longrightarrow> w_rw s l = RW_Free \<Longrightarrow> rw_unlock env l s = Some (EPERM, tick s)"
  by (simp add: rw_unlock_def)

text \<open>A lock that is held for writing makes every further lock call wait.\<close>

lemma rw_locked_blocks:
  "env_ok env \<Longrightarrow> w_rw s l = RW_Write \<Longrightarrow> rw_wrlock env l s = None"
  "env_ok env \<Longrightarrow> w_rw s l = RW_Write \<Longrightarrow> rw_rdlock env l s = None"
  by (simp_all add: rw_wrlock_def rw_rdlock_def)

lemma length_key_bytes [simp]: "length (key_bytes mem a n) = n"
  by (induction n arbitrary: a) auto

lemma bcmp_eq_0 [simp]:
  "bcmp mem a b n = 0 \<longleftrightarrow> key_bytes mem a (unat n) = key_bytes mem b (unat n)"
  by (simp add: bcmp_def)

end
