(* ===== verification/HT_Ops.thy ===== *)
theory HT_Ops
  imports Sync
begin

text \<open>
  The functions of \<^verbatim>\<open>libhashtable.c\<close>, in the order of the file (the two mutually recursive
  ones, \<^verbatim>\<open>ht_insert_key\<close> and \<^verbatim>\<open>ht_resize\<close>, each over the other as an argument first). Every call
  that can fail in C is a call of the model with its error branch. An \<^verbatim>\<open>errno = f(...)\<close> of the
  source is an update of \<open>w_errno\<close>, also where it stores 0.
\<close>

abbreviation set_errno :: "int \<Rightarrow> world \<Rightarrow> world" where
  "set_errno e s \<equiv> s\<lparr>w_errno := e\<rparr>"

section \<open>Statistics\<close>

definition ht_counter_init :: "ht_env \<Rightarrow> addr \<Rightarrow> ht_counter \<Rightarrow> world \<Rightarrow> (int, world) outcome" where
  "ht_counter_init env h c s =
     mutex_init env (CounterMutex h c) (s\<lparr>w_ctr := (w_ctr s)((h, c) := 0)\<rparr>)"

definition ht_counter_add ::
    "ht_env \<Rightarrow> addr \<Rightarrow> ht_counter \<Rightarrow> u64 \<Rightarrow> world \<Rightarrow> (int, world) outcome" where
  "ht_counter_add env h c delta s = do {
     (r, s) \<leftarrow> mutex_lock env (CounterMutex h c) s;
     let s = set_errno r s;
     if r \<noteq> 0 then Some (-2, s)
     else do {
       let s = s\<lparr>w_ctr := (w_ctr s)((h, c) := w_ctr s (h, c) + delta)\<rparr>;
       (r, s) \<leftarrow> mutex_unlock env (CounterMutex h c) s;
       let s = set_errno r s;
       if r \<noteq> 0 then Some (-2, s) else Some (0, s) } }"

definition ht_average_init :: "ht_env \<Rightarrow> addr \<Rightarrow> ht_average \<Rightarrow> world \<Rightarrow> (int, world) outcome" where
  "ht_average_init env h a s =
     mutex_init env (AverageMutex h a)
       (s\<lparr>w_avg := (w_avg s)((h, a) :=
            \<lparr>av_count = 0, av_sum = 0, av_current = 0, av_maximum = 0\<rparr>)\<rparr>)"

definition average_update ::
    "u64 \<Rightarrow> u64 \<Rightarrow> u64 \<Rightarrow> u64 \<Rightarrow> hashtable_average \<Rightarrow> hashtable_average" where
  "average_update count addend current maximum a =
     (let a = a\<lparr>av_current := current, av_count := av_count a + count, av_sum := av_sum a + addend\<rparr>;
          a = (if maximum > av_maximum a then a\<lparr>av_maximum := maximum\<rparr> else a)
      in if current > av_maximum a then a\<lparr>av_maximum := current\<rparr> else a)"

definition ht_average_update ::
    "ht_env \<Rightarrow> addr \<Rightarrow> ht_average \<Rightarrow> u64 \<Rightarrow> u64 \<Rightarrow> u64 \<Rightarrow> u64 \<Rightarrow> world \<Rightarrow> (int, world) outcome" where
  "ht_average_update env h a count addend current maximum s = do {
     (r, s) \<leftarrow> mutex_lock env (AverageMutex h a) s;
     if r \<noteq> 0 then Some (-2, s)
     else do {
       let s = s\<lparr>w_avg := (w_avg s)((h, a) :=
                   average_update count addend current maximum (w_avg s (h, a)))\<rparr>;
       (r, s) \<leftarrow> mutex_unlock env (AverageMutex h a) s;
       if r \<noteq> 0 then Some (-2, s) else Some (0, s) } }"

definition average_increment :: "u64 \<Rightarrow> hashtable_average \<Rightarrow> hashtable_average" where
  "average_increment current a =
     (let a = a\<lparr>av_current := current, av_count := av_count a + 1, av_sum := av_sum a + current\<rparr>
      in if current > av_maximum a then a\<lparr>av_maximum := current\<rparr> else a)"

definition ht_average_increment ::
    "ht_env \<Rightarrow> addr \<Rightarrow> ht_average \<Rightarrow> u64 \<Rightarrow> world \<Rightarrow> (int, world) outcome" where
  "ht_average_increment env h a current s = do {
     (r, s) \<leftarrow> mutex_lock env (AverageMutex h a) s;
     if r \<noteq> 0 then Some (-2, s)
     else do {
       let s = s\<lparr>w_avg := (w_avg s)((h, a) := average_increment current (w_avg s (h, a)))\<rparr>;
       (r, s) \<leftarrow> mutex_unlock env (AverageMutex h a) s;
       if r \<noteq> 0 then Some (-2, s) else Some (0, s) } }"

definition ht_evaluate_threshold_default ::
    "u64 \<Rightarrow> u64 \<Rightarrow> u64 \<Rightarrow> u64 \<Rightarrow> u64 \<Rightarrow> int" where
  "ht_evaluate_threshold_default numents depthcount depthsum searchcount searchsum =
     (if numents \<noteq> 0 \<and> depthcount \<noteq> 0 \<and> depthsum \<noteq> 0 \<and> searchcount \<noteq> 0 \<and> searchsum \<noteq> 0
      then of_bool ((0::int) = 1) else of_bool ((1::int) = 0))"

section \<open>Slabs of entries\<close>

text \<open>
  The loops over an array of entries run \<open>numents\<close> times; \<open>result\<close> counts the entries whose lock
  call failed and \<open>ret\<close> is the last result of a lock call.
\<close>

fun ht_init_entries ::
    "ht_env \<Rightarrow> eaddr \<Rightarrow> nat \<Rightarrow> int \<Rightarrow> world \<Rightarrow> (int, world) outcome" where
  "ht_init_entries env hte 0 result s = Some (result, s)"
| "ht_init_entries env hte (Suc numents) result s = do {
     s \<leftarrow> upd_hte hte (\<lambda>e. e\<lparr>hte_next := NULL, hte_flags := 0, hte_key := 0, hte_data := 0\<rparr>) s;
     e \<leftarrow> w_ents s hte;
     if hte_flags e AND htef_lock_initialized = 0
     then do {
       (ret, s) \<leftarrow> rwlock_init env (EntryLock hte) s;
       if ret = 0
       then do {
         s \<leftarrow> upd_hte hte (\<lambda>e. e\<lparr>hte_flags := hte_flags e OR htef_lock_initialized\<rparr>) s;
         ht_init_entries env (elem hte 1) numents result s }
       else ht_init_entries env (elem hte 1) numents (result + 1) (set_errno ret s) }
     else ht_init_entries env (elem hte 1) numents result s }"

fun ht_destroy_entries ::
    "ht_env \<Rightarrow> eaddr \<Rightarrow> nat \<Rightarrow> int \<Rightarrow> int \<Rightarrow> world \<Rightarrow> (int, world) outcome" where
  "ht_destroy_entries env hte 0 ret result s = Some (result, s)"
| "ht_destroy_entries env hte (Suc numents) ret result s = do {
     s \<leftarrow> upd_hte hte (\<lambda>e. e\<lparr>hte_flags := hte_flags e AND NOT htef_occupied,
                             hte_next := NULL, hte_key := 0, hte_data := 0\<rparr>) s;
     e \<leftarrow> w_ents s hte;
     if hte_flags e AND htef_lock_initialized \<noteq> 0
     then do {
       (ret, s) \<leftarrow> rwlock_destroy env (EntryLock hte) s;
       if ret = 0
       then do {
         s \<leftarrow> upd_hte hte (\<lambda>e. e\<lparr>hte_flags := hte_flags e AND NOT htef_lock_initialized\<rparr>) s;
         ht_destroy_entries env (elem hte 1) numents ret result s }
       else ht_destroy_entries env (elem hte 1) numents ret (result + 1) (set_errno ret s) }
     else ht_destroy_entries env (elem hte 1) numents ret (result + 1) (set_errno ret s) }"

text \<open>The size of the block is computed with the width of \<^verbatim>\<open>size_t\<close> and wraps around.\<close>

definition ht_create_slab :: "ht_env \<Rightarrow> u64 \<Rightarrow> world \<Rightarrow> (addr ptr, world) outcome" where
  "ht_create_slab env numents s =
     (if numents = 0 then Some (NULL, set_errno EINVAL s)
      else (case malloc_slab env (sizeof_slab + numents * sizeof_entry) s of
              (NULL, s) \<Rightarrow> Some (NULL, s)
            | (Ptr slab, s) \<Rightarrow> do {
                s \<leftarrow> upd_slab slab (\<lambda>sl. sl\<lparr>sl_entry := Ptr (slab, 0), sl_entrycount := numents\<rparr>) s;
                (ret, s) \<leftarrow> ht_init_entries env (slab, 0) (unat numents) 0 s;
                if ret \<noteq> 0 then Some (NULL, free_slab slab s)
                else Some (Ptr slab, s) }))"

definition ht_destroy_slab :: "ht_env \<Rightarrow> addr \<Rightarrow> world \<Rightarrow> (int, world) outcome" where
  "ht_destroy_slab env slab s = do {
     sl \<leftarrow> w_slabs s slab;
     hte \<leftarrow> deref (sl_entry sl);
     (ret, s) \<leftarrow> ht_destroy_entries env hte (unat (sl_entrycount sl)) 0 0 s;
     if ret \<noteq> 0 then Some (ret, s)
     else do {
       s \<leftarrow> upd_slab slab (\<lambda>sl. sl\<lparr>sl_next := NULL, sl_entry := NULL, sl_entrycount := 0\<rparr>) s;
       Some (0, free_slab slab s) } }"

section \<open>The hash function\<close>

fun hash_loop :: "memory \<Rightarrow> u64 \<Rightarrow> nat \<Rightarrow> u64 \<Rightarrow> u64" where
  "hash_loop mem sample 0 hash_value = hash_value"
| "hash_loop mem sample (Suc keysize) hash_value =
     hash_loop mem (sample + 1) keysize (push_bit 1 hash_value XOR ucast (mem sample))"

text \<open>The remainder by a table of size 0 traps.\<close>

definition ht_hash_bytes :: "memory \<Rightarrow> u64 \<Rightarrow> u64 \<Rightarrow> u64 \<Rightarrow> u64 option" where
  "ht_hash_bytes mem key keysize table_size =
     (if table_size = 0 then None
      else Some (hash_loop mem key (unat keysize) 0 mod table_size))"

section \<open>Creating a table\<close>

definition ht_create ::
    "ht_env \<Rightarrow> u64 \<Rightarrow> u64 \<Rightarrow> u32 \<Rightarrow> world \<Rightarrow> (addr ptr, world) outcome" where
  "ht_create env numents keysize options s =
     (if numents = 0 then Some (NULL, set_errno EINVAL s)
      else (case malloc_table env s of
              (NULL, s) \<Rightarrow> Some (NULL, s)
            | (Ptr h, s) \<Rightarrow> do {
                s \<leftarrow> upd_ht h (\<lambda>t. t\<lparr>ht_keysize := ucast keysize, ht_options := options,
                       ht_threshold_evaluate := Ptr ht_evaluate_threshold_default,
                       ht_hash_compute := ht_hash_bytes, ht_key_compare := bcmp,
                       ht_freechain := NULL\<rparr>) s;
                (r, s) \<leftarrow> first_failure [ht_average_init env h Depth,
                            ht_average_init env h Freechain, ht_average_init env h Searches] s;
                if r \<noteq> 0 then Some (NULL, free_table h s) else do {
                (r, s) \<leftarrow> first_failure [ht_counter_init env h Deletes, ht_counter_init env h Errors,
                            ht_counter_init env h Hits, ht_counter_init env h Inserts,
                            ht_counter_init env h Probes, ht_counter_init env h Resizes,
                            ht_counter_init env h Slabs] s;
                if r \<noteq> 0 then Some (NULL, free_table h s) else do {
                (r, s) \<leftarrow> rwlock_init env (TableLock h) s;
                if r \<noteq> 0 then Some (NULL, free_table h s) else do {
                (r, s) \<leftarrow> rwlock_init env (FreeLock h) s;
                if r \<noteq> 0 then Some (NULL, free_table h s) else do {
                (r, s) \<leftarrow> mutex_init env (ResizeMutex h) s;
                if r \<noteq> 0 then Some (NULL, free_table h s) else do {
                (slab, s) \<leftarrow> ht_create_slab env numents s;
                s \<leftarrow> upd_ht h (\<lambda>t. t\<lparr>ht_slabs := slab, ht_table := slab\<rparr>) s;
                if slab \<noteq> NULL
                then do {
                  (_, s) \<leftarrow> ht_counter_add env h Slabs 1 s;
                  Some (Ptr h, s) }
                else Some (NULL, free_table h s) } } } } } }))"

section \<open>Sweeping and destroying a table\<close>

text \<open>
  The walk over one chain of a sweep. The result says whether the function returned early, and the
  value of \<open>ret\<close>. The flag tested and the lock released are those of the base entry \<open>hte\<close>, as
  in the source.
\<close>

partial_function (option) ht_sweep_chain ::
    "ht_env \<Rightarrow> addr \<Rightarrow> eaddr \<Rightarrow> eaddr \<Rightarrow> int \<Rightarrow> world \<Rightarrow> ((bool \<times> int) \<times> world) option" where
  "ht_sweep_chain env h hte chte ret s = do {
     ce \<leftarrow> w_ents s chte;
     case hte_next ce of
       NULL \<Rightarrow> Some ((False, ret), s)
     | Ptr chte \<Rightarrow> do {
         e \<leftarrow> w_ents s hte;
         (ret, s) \<leftarrow> (if hte_flags e AND htef_lock_initialized \<noteq> 0
                      then rw_wrlock env (EntryLock chte) s else Some (ret, s));
         if hte_flags e AND htef_lock_initialized \<noteq> 0 \<and> ret \<noteq> 0
         then do { (_, s) \<leftarrow> ht_counter_add env h Errors 1 s; Some ((True, ret), s) }
         else do {
           (ret, s) \<leftarrow> (if hte_flags e AND htef_lock_initialized \<noteq> 0
                        then rw_unlock env (EntryLock hte) s else Some (ret, s));
           if hte_flags e AND htef_lock_initialized \<noteq> 0 \<and> ret \<noteq> 0
           then do { (_, s) \<leftarrow> ht_counter_add env h Errors 1 s; Some ((True, ret), s) }
           else ht_sweep_chain env h hte chte ret s } } }"

fun ht_sweep_entries ::
    "ht_env \<Rightarrow> addr \<Rightarrow> eaddr \<Rightarrow> nat \<Rightarrow> int \<Rightarrow> world \<Rightarrow> (int, world) outcome" where
  "ht_sweep_entries env h hte 0 ret s = Some (ret, s)"
| "ht_sweep_entries env h hte (Suc n) ret s = do {
     e \<leftarrow> w_ents s hte;
     (ret, s) \<leftarrow> (if hte_flags e AND htef_lock_initialized \<noteq> 0
                  then rw_wrlock env (EntryLock hte) s else Some (ret, s));
     if hte_flags e AND htef_lock_initialized \<noteq> 0 \<and> ret \<noteq> 0
     then do { (_, s) \<leftarrow> ht_counter_add env h Errors 1 s; Some (ret, s) }
     else do {
       (ret, s) \<leftarrow> (if hte_flags e AND htef_lock_initialized \<noteq> 0
                    then rw_unlock env (EntryLock hte) s else Some (ret, s));
       if hte_flags e AND htef_lock_initialized \<noteq> 0 \<and> ret \<noteq> 0
       then do { (_, s) \<leftarrow> ht_counter_add env h Errors 1 s; Some (ret, s) }
       else do {
         ((early, ret), s) \<leftarrow> ht_sweep_chain env h hte hte ret s;
         if early then Some (ret, s)
         else ht_sweep_entries env h (elem hte 1) n ret s } } }"

definition ht_sweep :: "ht_env \<Rightarrow> addr \<Rightarrow> world \<Rightarrow> (int, world) outcome" where
  "ht_sweep env h s = do {
     (ret, s) \<leftarrow> rw_wrlock env (TableLock h) s;
     if ret \<noteq> 0 then do { (_, s) \<leftarrow> ht_counter_add env h Errors 1 s; Some (ret, s) } else do {
     (ret, s) \<leftarrow> rw_unlock env (TableLock h) s;
     if ret \<noteq> 0 then do { (_, s) \<leftarrow> ht_counter_add env h Errors 1 s; Some (ret, s) } else do {
     t \<leftarrow> w_tables s h;
     a \<leftarrow> deref (ht_table t);
     sl \<leftarrow> w_slabs s a;
     hte \<leftarrow> deref (sl_entry sl);
     ht_sweep_entries env h hte (unat (sl_entrycount sl)) ret s } } }"

text \<open>
  The loop of \<^verbatim>\<open>ht_destroy\<close> over the slabs: \<open>True\<close> with the result when it returned from the
  function. A slab that could not be destroyed goes back on the chain.
\<close>

partial_function (option) ht_destroy_slabs ::
    "ht_env \<Rightarrow> addr \<Rightarrow> world \<Rightarrow> ((bool \<times> int) \<times> world) option" where
  "ht_destroy_slabs env h s = do {
     t \<leftarrow> w_tables s h;
     case ht_slabs t of
       NULL \<Rightarrow> Some ((False, 0), s)
     | Ptr hts \<Rightarrow> do {
         sl \<leftarrow> w_slabs s hts;
         s \<leftarrow> upd_ht h (\<lambda>t. t\<lparr>ht_slabs := sl_next sl\<rparr>) s;
         (ret, s) \<leftarrow> ht_destroy_slab env hts s;
         if ret \<noteq> 0
         then do {
           t \<leftarrow> w_tables s h;
           s \<leftarrow> upd_slab hts (\<lambda>sl. sl\<lparr>sl_next := ht_slabs t\<rparr>) s;
           s \<leftarrow> upd_ht h (\<lambda>t. t\<lparr>ht_slabs := Ptr hts\<rparr>) s;
           (_, s) \<leftarrow> ht_counter_add env h Errors 1 s;
           (_, s) \<leftarrow> rw_unlock env (TableLock h) s;
           Some ((True, ret), s) }
         else do {
           s \<leftarrow> upd_ht h (\<lambda>t. if ht_table t = Ptr hts then t\<lparr>ht_table := NULL\<rparr> else t) s;
           ht_destroy_slabs env h s } } }"

fun destroy_mutexes :: "ht_env \<Rightarrow> addr \<Rightarrow> mutex_addr list \<Rightarrow> world \<Rightarrow> world option" where
  "destroy_mutexes env h [] s = Some s"
| "destroy_mutexes env h (m # ms) s = do {
     (ret, s) \<leftarrow> mutex_destroy env m s;
     if ret \<noteq> 0
     then do {
       let s = set_errno (if w_errno s \<noteq> 0 then w_errno s else ret) s;
       (_, s) \<leftarrow> ht_counter_add env h Errors 1 s;
       destroy_mutexes env h ms s }
     else destroy_mutexes env h ms s }"

text \<open>The locks that \<^verbatim>\<open>ht_destroy\<close> destroys before it gives the table lock back, in its order.\<close>

definition ht_stat_mutexes :: "addr \<Rightarrow> mutex_addr list" where
  "ht_stat_mutexes h =
     [CounterMutex h Probes, CounterMutex h Hits, AverageMutex h Searches, CounterMutex h Resizes,
      CounterMutex h Inserts, CounterMutex h Deletes, AverageMutex h Depth,
      AverageMutex h Freechain, CounterMutex h Slabs]"

partial_function (option) ht_destroy :: "ht_env \<Rightarrow> addr \<Rightarrow> world \<Rightarrow> (int \<times> world) option" where
  "ht_destroy env h s = do {
     (r, s) \<leftarrow> rw_wrlock env (TableLock h) s;
     let s = set_errno r s;
     if r \<noteq> 0 then do { (_, s) \<leftarrow> ht_counter_add env h Errors 1 s; Some (-2, s) } else do {
     t \<leftarrow> w_tables s h;
     (ret, s) \<leftarrow> (case ht_old t of NULL \<Rightarrow> Some (0, s) | Ptr old \<Rightarrow> ht_destroy env old s);
     if ret \<noteq> 0 then do { (_, s) \<leftarrow> rw_unlock env (TableLock h) s; Some (ret, s) } else do {
     s \<leftarrow> upd_ht h (\<lambda>t. t\<lparr>ht_old := NULL\<rparr>) s;
     ((early, ret), s) \<leftarrow> ht_destroy_slabs env h s;
     if early then Some (ret, s) else do {
     s \<leftarrow> destroy_mutexes env h (ht_stat_mutexes h) (set_errno 0 s);
     (ret, s) \<leftarrow> rw_unlock env (TableLock h) s;
     if ret \<noteq> 0
     then do {
       let s = set_errno (if w_errno s \<noteq> 0 then w_errno s else ret) s;
       (_, s) \<leftarrow> ht_counter_add env h Errors 1 s;
       Some (-2, s) }
     else do {
     (ret, s) \<leftarrow> rwlock_destroy env (TableLock h) s;
     if ret \<noteq> 0
     then do {
       let s = set_errno (if w_errno s \<noteq> 0 then w_errno s else ret) s;
       (_, s) \<leftarrow> ht_counter_add env h Errors 1 s;
       Some (-2, s) }
     else do {
     (ret, s) \<leftarrow> mutex_destroy env (CounterMutex h Errors) s;
     if ret \<noteq> 0
     then Some (-2, set_errno (if w_errno s \<noteq> 0 then w_errno s else ret) s)
     else Some (0, free_table h s) } } } } } }"

text \<open>The defining equations of the loops are their code equations.\<close>

declare ht_sweep_chain.simps [code] ht_destroy_slabs.simps [code] ht_destroy.simps [code]

end
