(* ===== verification/HT_Table.thy ===== *)
theory HT_Table
  imports HT_Ops
begin

text \<open>
  The operations on the keys of a table: \<^verbatim>\<open>ht_locate_entry_\<close>, \<^verbatim>\<open>ht_locate_entry\<close>,
  \<^verbatim>\<open>ht_locate_key\<close>, \<^verbatim>\<open>ht_insert_key\<close>, \<^verbatim>\<open>ht_resize\<close> and \<^verbatim>\<open>ht_delete_key\<close>.
\<close>

section \<open>Locating a key\<close>

text \<open>The lock function that the caller of \<^verbatim>\<open>ht_locate_entry_\<close> passes.\<close>

datatype lockfunc = Rdlock | Wrlock

fun lockfunc_call :: "ht_env \<Rightarrow> lockfunc \<Rightarrow> lock_addr \<Rightarrow> world \<Rightarrow> (int, world) outcome" where
  "lockfunc_call env Rdlock l s = rw_rdlock env l s"
| "lockfunc_call env Wrlock l s = rw_wrlock env l s"

definition unlock_ptr :: "ht_env \<Rightarrow> eaddr ptr \<Rightarrow> world \<Rightarrow> (int, world) outcome" where
  "unlock_ptr env p s = (case p of NULL \<Rightarrow> Some (0, s) | Ptr p \<Rightarrow> rw_unlock env (EntryLock p) s)"

text \<open>
  The search loop over the chain of a bucket. Its result is the matching entry, the one before it
  and the depth; a null entry when the function has returned from inside the loop. The locks go
  hand over hand: of the chain, \<open>phte\<close> and \<open>dhte\<close> are held between two rounds.
\<close>

partial_function (option) ht_locate_loop ::
    "ht_env \<Rightarrow> addr \<Rightarrow> u64 \<Rightarrow> lockfunc \<Rightarrow> eaddr \<Rightarrow> eaddr ptr \<Rightarrow> u32 \<Rightarrow> world
       \<Rightarrow> ((eaddr ptr \<times> eaddr ptr \<times> u32) \<times> world) option" where
  "ht_locate_loop env h key lockf dhte phte depth s = do {
     t \<leftarrow> w_tables s h;
     e \<leftarrow> w_ents s dhte;
     if ht_key_compare t (w_mem s) (hte_key e) key (scast (ht_keysize t)) = 0
     then Some ((Ptr dhte, phte, depth), s)
     else do {
       let depth = depth + 1;
       let pphte = phte;
       let phte = dhte;
       case hte_next e of
         NULL \<Rightarrow> do {
           let s = set_errno ENOENT s;
           (_, s) \<leftarrow> unlock_ptr env pphte s;
           (_, s) \<leftarrow> rw_unlock env (EntryLock phte) s;
           (_, s) \<leftarrow> ht_average_increment env h Searches (scast depth) s;
           Some ((NULL, NULL, depth), s) }
       | Ptr dhte \<Rightarrow> do {
           (r, s) \<leftarrow> lockfunc_call env lockf (EntryLock dhte) s;
           if r \<noteq> 0
           then do {
             (_, s) \<leftarrow> unlock_ptr env pphte s;
             (_, s) \<leftarrow> rw_unlock env (EntryLock phte) s;
             (_, s) \<leftarrow> ht_average_increment env h Searches (scast depth) s;
             (_, s) \<leftarrow> ht_counter_add env h Errors 1 s;
             Some ((NULL, NULL, depth), s) }
           else do {
             (ret, s) \<leftarrow> unlock_ptr env pphte s;
             if ret \<noteq> 0
             then do {
               (_, s) \<leftarrow> rw_unlock env (EntryLock phte) s;
               (_, s) \<leftarrow> rw_unlock env (EntryLock dhte) s;
               (_, s) \<leftarrow> ht_average_increment env h Searches (scast depth) s;
               (_, s) \<leftarrow> ht_counter_add env h Errors 1 s;
               Some ((NULL, NULL, depth), set_errno ret s) }
             else ht_locate_loop env h key lockf dhte (Ptr phte) depth s } } } }"

text \<open>The address of the slot of a key in the table proper.\<close>

definition ht_slot :: "addr \<Rightarrow> u64 \<Rightarrow> world \<Rightarrow> eaddr option" where
  "ht_slot h key s = do {
     t \<leftarrow> w_tables s h;
     a \<leftarrow> deref (ht_table t);
     sl \<leftarrow> w_slabs s a;
     hash_index \<leftarrow> ht_hash_compute t (w_mem s) key (scast (ht_keysize t)) (sl_entrycount sl);
     hte \<leftarrow> deref (sl_entry sl);
     Some (elem hte (unat hash_index)) }"

text \<open>
  The caller that passes a place for the previous entry (\<open>want_previous\<close>) keeps the lock on it.
\<close>

definition ht_locate_entry_int ::
    "ht_env \<Rightarrow> addr \<Rightarrow> u64 \<Rightarrow> lockfunc \<Rightarrow> bool \<Rightarrow> world
       \<Rightarrow> ((eaddr ptr \<times> eaddr ptr) \<times> world) option" where
  "ht_locate_entry_int env h key lockf want_previous s = do {
     (_, s) \<leftarrow> ht_counter_add env h Probes 1 s;
     dhte \<leftarrow> ht_slot h key s;
     (r, s) \<leftarrow> lockfunc_call env lockf (EntryLock dhte) s;
     if r \<noteq> 0
     then do { (_, s) \<leftarrow> ht_counter_add env h Errors 1 s; Some ((NULL, NULL), s) }
     else do {
       e \<leftarrow> w_ents s dhte;
       if hte_flags e AND htef_occupied = 0
       then do {
         let s = set_errno ENOENT s;
         (_, s) \<leftarrow> rw_unlock env (EntryLock dhte) s;
         Some ((NULL, NULL), s) }
       else do {
         ((found, phte, depth), s) \<leftarrow> ht_locate_loop env h key lockf dhte NULL 0 s;
         case found of
           NULL \<Rightarrow> Some ((NULL, NULL), s)
         | Ptr dhte \<Rightarrow> do {
             (_, s) \<leftarrow> ht_average_increment env h Searches (scast depth) s;
             (_, s) \<leftarrow> ht_counter_add env h Hits 1 s;
             if want_previous then Some ((Ptr dhte, phte), s)
             else do {
               (ret, s) \<leftarrow> unlock_ptr env phte s;
               if ret \<noteq> 0
               then do {
                 (_, s) \<leftarrow> rw_unlock env (EntryLock dhte) s;
                 (_, s) \<leftarrow> ht_counter_add env h Errors 1 s;
                 Some ((NULL, NULL), set_errno ret s) }
               else Some ((Ptr dhte, NULL), s) } } } } }"

definition ht_locate_entry :: "ht_env \<Rightarrow> addr \<Rightarrow> u64 \<Rightarrow> world \<Rightarrow> (eaddr ptr, world) outcome" where
  "ht_locate_entry env h key s = do {
     (r, s) \<leftarrow> rw_rdlock env (TableLock h) s;
     let s = set_errno r s;
     if r \<noteq> 0 then do { (_, s) \<leftarrow> ht_counter_add env h Errors 1 s; Some (NULL, s) }
     else do {
       ((hte, _), s) \<leftarrow> ht_locate_entry_int env h key Rdlock False s;
       (ret, s) \<leftarrow> rw_unlock env (TableLock h) s;
       if ret \<noteq> 0
       then do {
         (_, s) \<leftarrow> unlock_ptr env hte s;
         (_, s) \<leftarrow> ht_counter_add env h Errors 1 s;
         Some (NULL, set_errno ret s) }
       else Some (hte, s) } }"

text \<open>The result is the data address, 0 for a null pointer.\<close>

definition ht_locate_key :: "ht_env \<Rightarrow> addr \<Rightarrow> u64 \<Rightarrow> world \<Rightarrow> (u64, world) outcome" where
  "ht_locate_key env h key s = do {
     (hte, s) \<leftarrow> ht_locate_entry env h key s;
     case hte of
       NULL \<Rightarrow> Some (0, s)
     | Ptr p \<Rightarrow> do {
         e \<leftarrow> w_ents s p;
         let d = hte_data e;
         (ret, s) \<leftarrow> rw_unlock env (EntryLock p) s;
         if ret \<noteq> 0
         then do { (_, s) \<leftarrow> ht_counter_add env h Errors 1 s; Some (0, set_errno ret s) }
         else Some (d, s) } }"

section \<open>Inserting a key\<close>

text \<open>
  The search for a duplicate: whether one was found (only looked for when duplicates are not
  allowed), and the depth reached.
\<close>

partial_function (option) ht_dup_search ::
    "addr \<Rightarrow> u64 \<Rightarrow> eaddr ptr \<Rightarrow> u64 \<Rightarrow> world \<Rightarrow> (bool \<times> u64) option" where
  "ht_dup_search h key ohte depth s = (case ohte of
       NULL \<Rightarrow> Some (False, depth)
     | Ptr p \<Rightarrow> do {
         t \<leftarrow> w_tables s h;
         e \<leftarrow> w_ents s p;
         if ht_options t AND hto_dups_allowed = 0 \<and>
            ht_key_compare t (w_mem s) (hte_key e) key (scast (ht_keysize t)) = 0
         then Some (True, depth)
         else ht_dup_search h key (hte_next e) (depth + 1) s })"

text \<open>Hang the entries of a new slab on the free chain, from the last to the first.\<close>

fun ht_dangle :: "addr \<Rightarrow> eaddr \<Rightarrow> nat \<Rightarrow> world \<Rightarrow> world option" where
  "ht_dangle h hte 0 s = Some s"
| "ht_dangle h hte (Suc n) s = do {
     t \<leftarrow> w_tables s h;
     s \<leftarrow> upd_hte (elem hte n) (\<lambda>e. e\<lparr>hte_next := ht_freechain t\<rparr>) s;
     s \<leftarrow> upd_ht h (\<lambda>t. t\<lparr>ht_freechain := Ptr (elem hte n)\<rparr>) s;
     ht_dangle h hte n s }"

text \<open>
  The loop that makes sure the free chain has an entry: the head of the chain, or a null pointer
  when no slab could be made and the function has returned.
\<close>

partial_function (option) ht_refill ::
    "ht_env \<Rightarrow> addr \<Rightarrow> eaddr \<Rightarrow> world \<Rightarrow> (eaddr ptr \<times> world) option" where
  "ht_refill env h dhte s = do {
     t \<leftarrow> w_tables s h;
     case ht_freechain t of
       Ptr ohte \<Rightarrow> Some (Ptr ohte, s)
     | NULL \<Rightarrow> do {
         a \<leftarrow> deref (ht_table t);
         sl \<leftarrow> w_slabs s a;
         (slab, s) \<leftarrow> ht_create_slab env (sl_entrycount sl) s;
         case slab of
           NULL \<Rightarrow> do {
             (_, s) \<leftarrow> rw_unlock env (FreeLock h) s;
             (_, s) \<leftarrow> rw_unlock env (EntryLock dhte) s;
             (_, s) \<leftarrow> ht_counter_add env h Errors 1 s;
             Some (NULL, s) }
         | Ptr slab \<Rightarrow> do {
             (_, s) \<leftarrow> ht_counter_add env h Slabs 1 s;
             t \<leftarrow> w_tables s h;
             s \<leftarrow> upd_slab slab (\<lambda>sl. sl\<lparr>sl_next := ht_slabs t\<rparr>) s;
             s \<leftarrow> upd_ht h (\<lambda>t. t\<lparr>ht_slabs := Ptr slab\<rparr>) s;
             sl \<leftarrow> w_slabs s slab;
             hte \<leftarrow> deref (sl_entry sl);
             s \<leftarrow> ht_dangle h hte (unat (sl_entrycount sl)) s;
             (_, s) \<leftarrow> ht_average_update env h Freechain 1 (sl_entrycount sl)
                          (av_current (w_avg s (h, Freechain)) + sl_entrycount sl)
                          (av_current (w_avg s (h, Freechain)) + sl_entrycount sl) s;
             ht_refill env h dhte s } } }"

text \<open>The part of the function that puts the key into an empty slot of the table.\<close>

definition ht_fill_slot ::
    "ht_env \<Rightarrow> addr \<Rightarrow> eaddr \<Rightarrow> u64 \<Rightarrow> u64 \<Rightarrow> world \<Rightarrow> (int, world) outcome" where
  "ht_fill_slot env h dhte key data s = do {
     s \<leftarrow> upd_hte dhte (\<lambda>e. e\<lparr>hte_flags := hte_flags e OR htef_occupied,
                              hte_key := key, hte_data := data\<rparr>) s;
     (ret, s) \<leftarrow> rw_unlock env (EntryLock dhte) s;
     if ret \<noteq> 0
     then do { (_, s) \<leftarrow> ht_counter_add env h Errors 1 s; Some (-2, set_errno ret s) }
     else Some (0, s) }"

text \<open>The part that hangs an entry of the free chain behind the occupied slot.\<close>

definition ht_chain_entry ::
    "ht_env \<Rightarrow> addr \<Rightarrow> eaddr \<Rightarrow> u64 \<Rightarrow> u64 \<Rightarrow> u64 \<Rightarrow> world \<Rightarrow> (int, world) outcome" where
  "ht_chain_entry env h dhte key data depth s = do {
     (ret, s) \<leftarrow> rw_wrlock env (FreeLock h) s;
     if ret \<noteq> 0
     then do {
       (_, s) \<leftarrow> rw_unlock env (EntryLock dhte) s;
       (_, s) \<leftarrow> ht_counter_add env h Errors 1 s;
       Some (-2, set_errno (if w_errno s \<noteq> 0 then w_errno s else ret) s) }
     else do {
       (ohte, s) \<leftarrow> ht_refill env h dhte s;
       case ohte of
         NULL \<Rightarrow> Some (-1, s)
       | Ptr ohte \<Rightarrow> do {
           oe \<leftarrow> w_ents s ohte;
           s \<leftarrow> upd_ht h (\<lambda>t. t\<lparr>ht_freechain := hte_next oe\<rparr>) s;
           s \<leftarrow> upd_hte ohte (\<lambda>e. e\<lparr>hte_next := NULL\<rparr>) s;
           (_, s) \<leftarrow> ht_average_increment env h Freechain
                        (av_current (w_avg s (h, Freechain)) - 1) s;
           (ret, s) \<leftarrow> rw_unlock env (FreeLock h) s;
           s \<leftarrow> (if ret \<noteq> 0
                 then do {
                   (_, s) \<leftarrow> ht_counter_add env h Errors 1 s;
                   Some (set_errno (if w_errno s \<noteq> 0 then w_errno s else ret) s) }
                 else Some s);
           s \<leftarrow> upd_hte ohte (\<lambda>e. e\<lparr>hte_flags := hte_flags e OR htef_occupied,
                                    hte_key := key, hte_data := data\<rparr>) s;
           de \<leftarrow> w_ents s dhte;
           s \<leftarrow> upd_hte ohte (\<lambda>e. e\<lparr>hte_next := hte_next de\<rparr>) s;
           s \<leftarrow> upd_hte dhte (\<lambda>e. e\<lparr>hte_next := Ptr ohte\<rparr>) s;
           (_, s) \<leftarrow> ht_average_increment env h Depth depth s;
           (ret, s) \<leftarrow> rw_unlock env (EntryLock dhte) s;
           if ret \<noteq> 0
           then do {
             (_, s) \<leftarrow> ht_counter_add env h Errors 1 s;
             Some (-2, set_errno (if w_errno s \<noteq> 0 then w_errno s else ret) s) }
           else Some (0, s) } } }"

text \<open>The end of the function: the implicit resize, when the threshold function asks for one.\<close>

definition ht_implicit_resize ::
    "(addr \<Rightarrow> u64 \<Rightarrow> world \<Rightarrow> (int, world) outcome) \<Rightarrow> addr \<Rightarrow> world \<Rightarrow> (int, world) outcome" where
  "ht_implicit_resize resize h s = do {
     t \<leftarrow> w_tables s h;
     case ht_threshold_evaluate t of
       NULL \<Rightarrow> Some (0, s)
     | Ptr f \<Rightarrow>
         if ht_options t AND hto_resize_implicit \<noteq> 0
         then do {
           a \<leftarrow> deref (ht_table t);
           sl \<leftarrow> w_slabs s a;
           let ret = f (sl_entrycount sl) (av_count (w_avg s (h, Depth)))
                       (av_sum (w_avg s (h, Depth))) (av_count (w_avg s (h, Searches)))
                       (av_sum (w_avg s (h, Searches)));
           if ret \<noteq> 0 then resize h (sl_entrycount sl * 2) s else Some (0, s) }
         else Some (0, s) }"

definition ht_insert_key_with ::
    "(addr \<Rightarrow> u64 \<Rightarrow> world \<Rightarrow> (int, world) outcome) \<Rightarrow>
     ht_env \<Rightarrow> addr \<Rightarrow> u64 \<Rightarrow> u64 \<Rightarrow> world \<Rightarrow> (int, world) outcome" where
  "ht_insert_key_with resize env h key data s = do {
     (_, s) \<leftarrow> ht_counter_add env h Inserts 1 s;
     (r, s) \<leftarrow> rw_wrlock env (TableLock h) s;
     let s = set_errno r s;
     if r \<noteq> 0 then do { (_, s) \<leftarrow> ht_counter_add env h Errors 1 s; Some (-2, s) } else do {
     (_, s) \<leftarrow> ht_counter_add env h Probes 1 s;
     dhte \<leftarrow> ht_slot h key s;
     (ret, s) \<leftarrow> rw_wrlock env (EntryLock dhte) s;
     if ret \<noteq> 0
     then do {
       (_, s) \<leftarrow> rw_unlock env (TableLock h) s;
       (_, s) \<leftarrow> ht_counter_add env h Errors 1 s;
       Some (-2, set_errno ret s) }
     else do {
     (ret, s) \<leftarrow> rw_unlock env (TableLock h) s;
     if ret \<noteq> 0
     then do {
       (_, s) \<leftarrow> rw_unlock env (EntryLock dhte) s;
       (_, s) \<leftarrow> ht_counter_add env h Errors 1 s;
       Some (-2, set_errno ret s) }
     else do {
     e \<leftarrow> w_ents s dhte;
     if hte_flags e AND htef_occupied = 0 then ht_fill_slot env h dhte key data s
     else do {
     (dup, depth) \<leftarrow> ht_dup_search h key (Ptr dhte) 0 s;
     if dup
     then do {
       (_, s) \<leftarrow> ht_average_increment env h Searches depth s;
       (_, s) \<leftarrow> ht_counter_add env h Hits 1 s;
       let s = set_errno EEXIST s;
       (ret, s) \<leftarrow> rw_unlock env (EntryLock dhte) s;
       if ret \<noteq> 0
       then do { (_, s) \<leftarrow> ht_counter_add env h Errors 1 s; Some (-2, set_errno ret s) }
       else Some (-1, s) }
     else do {
     t \<leftarrow> w_tables s h;
     s \<leftarrow> (if ht_options t AND hto_dups_allowed = 0
           then do { (_, s) \<leftarrow> ht_average_increment env h Searches depth s; Some s }
           else Some s);
     (ret, s) \<leftarrow> ht_chain_entry env h dhte key data depth s;
     if ret \<noteq> 0 then Some (ret, s)
     else ht_implicit_resize resize h s } } } } } }"

text \<open>
  The same function on a table whose options exclude the implicit resize, where the recursive call
  is never made.
\<close>

definition ht_insert_key_plain ::
    "ht_env \<Rightarrow> addr \<Rightarrow> u64 \<Rightarrow> u64 \<Rightarrow> world \<Rightarrow> (int, world) outcome" where
  "ht_insert_key_plain = ht_insert_key_with (\<lambda>h numents s. None)"

section \<open>Resizing a table\<close>

text \<open>
  The failure branches after the new table was made. \<open>ret\<close> is what \<^verbatim>\<open>errno\<close> is set to, if anything.
\<close>

definition ht_resize_bail ::
    "ht_env \<Rightarrow> addr \<Rightarrow> addr \<Rightarrow> int option \<Rightarrow> int \<Rightarrow> world \<Rightarrow> (int, world) outcome" where
  "ht_resize_bail env h nht err result s = do {
     (_, s) \<leftarrow> ht_counter_add env h Errors 1 s;
     (ret, s) \<leftarrow> ht_destroy env nht s;
     s \<leftarrow> (if ret = 0 then upd_ht h (\<lambda>t. t\<lparr>ht_old := NULL\<rparr>) s else Some s);
     let s = (case err of None \<Rightarrow> s | Some e \<Rightarrow> set_errno e s);
     (_, s) \<leftarrow> rw_unlock env (TableLock h) s;
     (_, s) \<leftarrow> mutex_unlock env (ResizeMutex h) s;
     Some (result, s) }"

text \<open>
  The two loops that copy the entries into the new table: the chain of one slot, and the slots from
  the last to the first. \<open>True\<close> says that an insertion failed.
\<close>

partial_function (option) ht_resize_chain ::
    "ht_env \<Rightarrow> addr \<Rightarrow> eaddr \<Rightarrow> world \<Rightarrow> (bool \<times> world) option" where
  "ht_resize_chain env nht chte s = do {
     ce \<leftarrow> w_ents s chte;
     case hte_next ce of
       NULL \<Rightarrow> Some (False, s)
     | Ptr chte \<Rightarrow> do {
         e \<leftarrow> w_ents s chte;
         (ret, s) \<leftarrow> ht_insert_key_plain env nht (hte_key e) (hte_data e) s;
         if ret \<noteq> 0 then Some (True, s) else ht_resize_chain env nht chte s } }"

fun ht_resize_populate ::
    "ht_env \<Rightarrow> addr \<Rightarrow> eaddr \<Rightarrow> nat \<Rightarrow> world \<Rightarrow> (bool, world) outcome" where
  "ht_resize_populate env nht hte 0 s = Some (False, s)"
| "ht_resize_populate env nht hte (Suc n) s = do {
     e \<leftarrow> w_ents s (elem hte n);
     (ret, s) \<leftarrow> (if hte_flags e AND htef_occupied \<noteq> 0
                  then ht_insert_key_plain env nht (hte_key e) (hte_data e) s
                  else Some (0, s));
     if ret \<noteq> 0 then Some (True, s)
     else do {
       (failed, s) \<leftarrow> ht_resize_chain env nht (elem hte n) s;
       if failed then Some (True, s)
       else ht_resize_populate env nht hte n s } }"

text \<open>Exchange the slabs, the free chain and the table of the two heads.\<close>

definition ht_resize_swap :: "addr \<Rightarrow> addr \<Rightarrow> world \<Rightarrow> world option" where
  "ht_resize_swap h nht s = do {
     t \<leftarrow> w_tables s h;
     nt \<leftarrow> w_tables s nht;
     s \<leftarrow> upd_ht h (\<lambda>t. t\<lparr>ht_slabs := ht_slabs nt, ht_freechain := ht_freechain nt,
                          ht_table := ht_table nt\<rparr>) s;
     upd_ht nht (\<lambda>nt. nt\<lparr>ht_slabs := ht_slabs t, ht_freechain := ht_freechain t,
                          ht_table := ht_table t\<rparr>) s }"

fun ht_add_counters ::
    "ht_env \<Rightarrow> addr \<Rightarrow> addr \<Rightarrow> ht_counter list \<Rightarrow> world \<Rightarrow> world option" where
  "ht_add_counters env h nht [] s = Some s"
| "ht_add_counters env h nht (c # cs) s = do {
     (_, s) \<leftarrow> ht_counter_add env h c (w_ctr s (nht, c)) s;
     ht_add_counters env h nht cs s }"

fun ht_add_averages ::
    "ht_env \<Rightarrow> addr \<Rightarrow> addr \<Rightarrow> ht_average list \<Rightarrow> world \<Rightarrow> world option" where
  "ht_add_averages env h nht [] s = Some s"
| "ht_add_averages env h nht (a # as) s = do {
     let v = w_avg s (nht, a);
     (_, s) \<leftarrow> ht_average_update env h a (av_count v) (av_sum v) (av_current v) (av_maximum v) s;
     ht_add_averages env h nht as s }"

text \<open>The part after the population succeeded: swap, sweep, destroy the old table.\<close>

definition ht_resize_finish :: "ht_env \<Rightarrow> addr \<Rightarrow> addr \<Rightarrow> world \<Rightarrow> (int, world) outcome" where
  "ht_resize_finish env h nht s = do {
     s \<leftarrow> ht_resize_swap h nht s;
     s \<leftarrow> ht_add_counters env h nht [Probes, Hits, Errors, Resizes, Inserts, Deletes] s;
     s \<leftarrow> ht_add_averages env h nht [Searches, Depth, Freechain] s;
     (fret, s) \<leftarrow> rw_unlock env (FreeLock h) s;
     s \<leftarrow> (if fret \<noteq> 0 then do { (_, s) \<leftarrow> ht_counter_add env h Errors 1 s; Some s } else Some s);
     (tret, s) \<leftarrow> rw_unlock env (TableLock h) s;
     s \<leftarrow> (if tret \<noteq> 0 then do { (_, s) \<leftarrow> ht_counter_add env h Errors 1 s; Some s } else Some s);
     (sret, s) \<leftarrow> ht_sweep env nht s;
     s \<leftarrow> (if sret \<noteq> 0 then do { (_, s) \<leftarrow> ht_counter_add env h Errors 1 s; Some s } else Some s);
     (dret, s) \<leftarrow> (if tret = 0 \<and> sret = 0 then ht_destroy env nht s else Some (1, s));
     s \<leftarrow> (if dret = 0 then upd_ht h (\<lambda>t. t\<lparr>ht_old := NULL\<rparr>) s
           else do { (_, s) \<leftarrow> ht_counter_add env h Errors 1 s; Some s });
     (ret, s) \<leftarrow> mutex_unlock env (ResizeMutex h) s;
     s \<leftarrow> (if ret \<noteq> 0 then do { (_, s) \<leftarrow> ht_counter_add env h Errors 1 s; Some s } else Some s);
     let s = set_errno (if fret \<noteq> 0 then fret else if tret \<noteq> 0 then tret
                        else if sret \<noteq> 0 then sret else ret) s;
     Some (if fret \<noteq> 0 \<or> tret \<noteq> 0 \<or> ret \<noteq> 0 then -2 else if sret \<noteq> 0 then -1 else 0, s) }"

definition ht_resize :: "ht_env \<Rightarrow> addr \<Rightarrow> u64 \<Rightarrow> world \<Rightarrow> (int, world) outcome" where
  "ht_resize env h numents s = do {
     (r, s) \<leftarrow> mutex_lock env (ResizeMutex h) s;
     let s = set_errno r s;
     if r \<noteq> 0 then do { (_, s) \<leftarrow> ht_counter_add env h Errors 1 s; Some (-2, s) } else do {
     (r, s) \<leftarrow> rw_rdlock env (TableLock h) s;
     let s = set_errno r s;
     if r \<noteq> 0
     then do {
       (_, s) \<leftarrow> ht_counter_add env h Errors 1 s;
       (_, s) \<leftarrow> mutex_unlock env (ResizeMutex h) s;
       Some (-2, s) }
     else do {
     t \<leftarrow> w_tables s h;
     (nht, s) \<leftarrow> ht_create env numents (scast (ht_keysize t))
                   (ht_options t AND NOT hto_resize_implicit) s;
     case nht of
       NULL \<Rightarrow> do {
         (_, s) \<leftarrow> ht_counter_add env h Errors 1 s;
         (_, s) \<leftarrow> rw_unlock env (TableLock h) s;
         (_, s) \<leftarrow> mutex_unlock env (ResizeMutex h) s;
         Some (-1, s) }
     | Ptr nht \<Rightarrow> do {
         t \<leftarrow> w_tables s h;
         s \<leftarrow> upd_ht nht (\<lambda>nt. nt\<lparr>ht_old := ht_old t\<rparr>) s;
         s \<leftarrow> upd_ht h (\<lambda>t. t\<lparr>ht_old := Ptr nht\<rparr>) s;
         a \<leftarrow> deref (ht_table t);
         sl \<leftarrow> w_slabs s a;
         hte \<leftarrow> deref (sl_entry sl);
         (failed, s) \<leftarrow> ht_resize_populate env nht hte (unat (sl_entrycount sl)) s;
         if failed then ht_resize_bail env h nht None (-1) s
         else do {
           (ret, s) \<leftarrow> rw_wrlock env (FreeLock h) s;
           if ret \<noteq> 0 then ht_resize_bail env h nht (Some ret) (-2) s
           else ht_resize_finish env h nht s } } } } }"

definition ht_insert_key ::
    "ht_env \<Rightarrow> addr \<Rightarrow> u64 \<Rightarrow> u64 \<Rightarrow> world \<Rightarrow> (int, world) outcome" where
  "ht_insert_key env = ht_insert_key_with (ht_resize env) env"

section \<open>Deleting a key\<close>

text \<open>
  The part of the function after the entry to remove, \<open>dhte\<close>, and the entry before it, \<open>phte\<close>, are
  both locked. The result is the data address that \<open>dhte\<close> holds.
\<close>

definition ht_unchain_entry ::
    "ht_env \<Rightarrow> addr \<Rightarrow> eaddr \<Rightarrow> eaddr \<Rightarrow> world \<Rightarrow> (u64, world) outcome" where
  "ht_unchain_entry env h phte dhte s = do {
     s \<leftarrow> upd_hte dhte (\<lambda>e. e\<lparr>hte_flags := hte_flags e AND NOT htef_occupied\<rparr>) s;
     (ret, s) \<leftarrow> rw_wrlock env (FreeLock h) s;
     if ret \<noteq> 0
     then do {
       (_, s) \<leftarrow> rw_unlock env (EntryLock phte) s;
       (_, s) \<leftarrow> rw_unlock env (EntryLock dhte) s;
       (_, s) \<leftarrow> ht_counter_add env h Errors 1 s;
       Some (0, set_errno ret s) }
     else do {
       de \<leftarrow> w_ents s dhte;
       s \<leftarrow> upd_hte phte (\<lambda>e. e\<lparr>hte_next := hte_next de\<rparr>) s;
       t \<leftarrow> w_tables s h;
       s \<leftarrow> upd_hte dhte (\<lambda>e. e\<lparr>hte_next := ht_freechain t\<rparr>) s;
       s \<leftarrow> upd_ht h (\<lambda>t. t\<lparr>ht_freechain := Ptr dhte\<rparr>) s;
       (fret, s) \<leftarrow> rw_unlock env (FreeLock h) s;
       s \<leftarrow> (if fret \<noteq> 0 then do { (_, s) \<leftarrow> ht_counter_add env h Errors 1 s; Some s } else Some s);
       (pret, s) \<leftarrow> rw_unlock env (EntryLock phte) s;
       s \<leftarrow> (if pret \<noteq> 0 then do { (_, s) \<leftarrow> ht_counter_add env h Errors 1 s; Some s } else Some s);
       (r, s) \<leftarrow> rw_unlock env (EntryLock dhte) s;
       let s = set_errno r s;
       s \<leftarrow> (if r \<noteq> 0 then do { (_, s) \<leftarrow> ht_counter_add env h Errors 1 s; Some s } else Some s);
       let s = (if fret \<noteq> 0 \<or> pret \<noteq> 0 then set_errno (if fret \<noteq> 0 then fret else pret) s else s);
       e \<leftarrow> w_ents s dhte;
       Some (if w_errno s \<noteq> 0 then 0 else hte_data e, s) } }"

definition ht_delete_key :: "ht_env \<Rightarrow> addr \<Rightarrow> u64 \<Rightarrow> world \<Rightarrow> (u64, world) outcome" where
  "ht_delete_key env h key s = do {
     (_, s) \<leftarrow> ht_counter_add env h Deletes 1 s;
     (r, s) \<leftarrow> rw_wrlock env (TableLock h) s;
     let s = set_errno r s;
     if r \<noteq> 0 then do { (_, s) \<leftarrow> ht_counter_add env h Errors 1 s; Some (0, s) } else do {
     ((found, phte), s) \<leftarrow> ht_locate_entry_int env h key Wrlock True s;
     (ret, s) \<leftarrow> rw_unlock env (TableLock h) s;
     case found of
       NULL \<Rightarrow> Some (0, s)
     | Ptr dhte \<Rightarrow>
         if ret \<noteq> 0
         then do {
           (_, s) \<leftarrow> ht_counter_add env h Errors 1 s;
           (_, s) \<leftarrow> rw_unlock env (EntryLock dhte) s;
           Some (0, set_errno ret s) }
         else (case phte of
           Ptr phte \<Rightarrow> ht_unchain_entry env h phte dhte s
         | NULL \<Rightarrow> do {
             de \<leftarrow> w_ents s dhte;
             case hte_next de of
               NULL \<Rightarrow> do {
                 s \<leftarrow> upd_hte dhte (\<lambda>e. e\<lparr>hte_flags := hte_flags e AND NOT htef_occupied\<rparr>) s;
                 Some (hte_data de, s) }
             | Ptr nxt \<Rightarrow> do {
                 (ret, s) \<leftarrow> rw_wrlock env (EntryLock nxt) s;
                 if ret \<noteq> 0
                 then do {
                   (_, s) \<leftarrow> rw_unlock env (EntryLock dhte) s;
                   (_, s) \<leftarrow> ht_counter_add env h Errors 1 s;
                   Some (0, set_errno ret s) }
                 else do {
                   ne \<leftarrow> w_ents s nxt;
                   s \<leftarrow> upd_hte dhte (\<lambda>e. e\<lparr>hte_key := hte_key ne, hte_data := hte_data ne,
                                            hte_flags := hte_flags ne\<rparr>) s;
                   ht_unchain_entry env h dhte nxt s } } }) } }"

text \<open>The defining equations of the loops are their code equations.\<close>

declare ht_locate_loop.simps [code] ht_dup_search.simps [code] ht_refill.simps [code] ht_resize_chain.simps [code]

end
