(* ===== verification/HT_Inv.thy ===== *)
theory HT_Inv
  imports HT_Table
begin

text \<open>
  The invariant of a hash table and what a table stands for. \<open>entry_chain\<close> reads a linked chain
  of entries off the store; \<open>ht_pairs\<close> is the list of the (key bytes, data address) pairs in the
  table; \<open>ht_wf\<close> says that the chains of the buckets and the free chain are disjoint, lie in the
  slabs of the table and use them up, that keys sit in the bucket of their hash value, and that no
  lock is held. The lemmas of this theory say what each kind of pointer surgery does to the shape.
\<close>

section \<open>Chains\<close>

partial_function (option) entry_chain ::
    "(eaddr \<rightharpoonup> hashtable_entry) \<Rightarrow> eaddr ptr \<Rightarrow> eaddr list option" where
  "entry_chain E p = (case p of
       NULL \<Rightarrow> Some []
     | Ptr a \<Rightarrow> do { e \<leftarrow> E a; ps \<leftarrow> entry_chain E (hte_next e); Some (a # ps) })"

partial_function (option) slab_chain ::
    "(addr \<rightharpoonup> hashtable_slab) \<Rightarrow> addr ptr \<Rightarrow> addr list option" where
  "slab_chain S p = (case p of
       NULL \<Rightarrow> Some []
     | Ptr a \<Rightarrow> do { sl \<leftarrow> S a; as \<leftarrow> slab_chain S (sl_next sl); Some (a # as) })"

declare entry_chain.simps [code] slab_chain.simps [code]

lemma entry_chain_NULL [simp]: "entry_chain E NULL = Some []"
  by (subst entry_chain.simps) simp

lemma entry_chain_Ptr [simp]:
  "entry_chain E (Ptr a) =
     (case E a of None \<Rightarrow> None | Some e \<Rightarrow> map_option ((#) a) (entry_chain E (hte_next e)))"
  by (subst entry_chain.simps) (simp add: map_option_case split: option.split bind_split)

lemma entry_chain_Nil [simp]: "entry_chain E p = Some [] \<longleftrightarrow> p = NULL"
  by (cases p) (auto split: option.splits)

lemma entry_chain_Cons:
  "entry_chain E p = Some (a # ps) \<longleftrightarrow>
     p = Ptr a \<and> (\<exists>e. E a = Some e \<and> entry_chain E (hte_next e) = Some ps)"
  by (cases p) (auto split: option.splits)

lemma entry_chain_dom: "entry_chain E p = Some ps \<Longrightarrow> q \<in> set ps \<Longrightarrow> \<exists>e. E q = Some e"
  by (induction ps arbitrary: p) (auto simp: entry_chain_Cons)

lemma entry_chain_cong:
  assumes "entry_chain E p = Some ps"
    and "\<And>q. q \<in> set ps \<Longrightarrow> map_option hte_next (E' q) = map_option hte_next (E q)"
  shows "entry_chain E' p = Some ps"
  using assms
proof (induction ps arbitrary: p)
  case Nil
  then show ?case by simp
next
  case (Cons a ps)
  then obtain e where e: "p = Ptr a" "E a = Some e" "entry_chain E (hte_next e) = Some ps"
    by (auto simp: entry_chain_Cons)
  with Cons.prems(2) [of a] obtain e' where "E' a = Some e'" "hte_next e' = hte_next e"
    by auto
  with e Cons.IH [of "hte_next e"] Cons.prems(2) show ?case by auto
qed

lemma slab_chain_NULL [simp]: "slab_chain S NULL = Some []"
  by (subst slab_chain.simps) simp

lemma slab_chain_Ptr [simp]:
  "slab_chain S (Ptr a) =
     (case S a of None \<Rightarrow> None | Some e \<Rightarrow> map_option ((#) a) (slab_chain S (sl_next e)))"
  by (subst slab_chain.simps) (simp add: map_option_case split: option.split bind_split)

lemma slab_chain_Nil [simp]: "slab_chain S p = Some [] \<longleftrightarrow> p = NULL"
  by (cases p) (auto split: option.splits)

lemma slab_chain_Cons:
  "slab_chain S p = Some (a # as) \<longleftrightarrow>
     p = Ptr a \<and> (\<exists>e. S a = Some e \<and> slab_chain S (sl_next e) = Some as)"
  by (cases p) (auto split: option.splits)

lemma slab_chain_cong:
  assumes "slab_chain S p = Some as" and "\<And>a. a \<in> set as \<Longrightarrow> S' a = S a"
  shows "slab_chain S' p = Some as"
  using assms by (induction as arbitrary: p) (auto simp: slab_chain_Cons)

text \<open>
  The slabs from a pointer on. The pointer of the last one is left open: \<^verbatim>\<open>ht_create_slab\<close> never sets it, so that in the first
  slab of a table it is what \<^verbatim>\<open>malloc\<close> returned. Only \<^verbatim>\<open>ht_destroy\<close> follows it.
\<close>

fun slab_list :: "(addr \<rightharpoonup> hashtable_slab) \<Rightarrow> addr ptr \<Rightarrow> addr list \<Rightarrow> bool" where
  "slab_list S p [] \<longleftrightarrow> True"
| "slab_list S p (a # as) \<longleftrightarrow> p = Ptr a \<and> (\<exists>sl. S a = Some sl \<and> slab_list S (sl_next sl) as)"

lemma slab_list_cong:
  assumes "slab_list S p as" and "\<And>a. a \<in> set as \<Longrightarrow> S' a = S a"
  shows "slab_list S' p as"
  using assms by (induction as arbitrary: p) auto

lemma slab_chain_list: "slab_chain S p = Some as \<Longrightarrow> slab_list S p as"
  by (induction as arbitrary: p) (auto simp: slab_chain_Cons)

section \<open>What a table holds\<close>

definition occupied :: "hashtable_entry \<Rightarrow> bool" where
  "occupied e \<longleftrightarrow> hte_flags e AND htef_occupied \<noteq> 0"

definition lock_inited :: "hashtable_entry \<Rightarrow> bool" where
  "lock_inited e \<longleftrightarrow> hte_flags e AND htef_lock_initialized \<noteq> 0"

text \<open>The entries of the bucket whose slot in the table proper is \<open>p\<close>, in the order of a search.\<close>

definition bucket :: "(eaddr \<rightharpoonup> hashtable_entry) \<Rightarrow> eaddr \<Rightarrow> eaddr list" where
  "bucket E p = (case E p of None \<Rightarrow> []
     | Some e \<Rightarrow> if occupied e
                then p # (case entry_chain E (hte_next e) of None \<Rightarrow> [] | Some ps \<Rightarrow> ps)
                else [])"

definition ht_keylen :: "hashtable \<Rightarrow> nat" where
  "ht_keylen t = unat (scast (ht_keysize t) :: u64)"

definition entry_pair :: "memory \<Rightarrow> nat \<Rightarrow> (eaddr \<rightharpoonup> hashtable_entry) \<Rightarrow> eaddr \<Rightarrow> u8 list \<times> u64" where
  "entry_pair mem k E p = (case E p of None \<Rightarrow> ([], 0)
     | Some e \<Rightarrow> (key_bytes mem (hte_key e) k, hte_data e))"

text \<open>The number of slots of the table proper.\<close>

definition ht_size :: "addr \<Rightarrow> world \<Rightarrow> nat" where
  "ht_size h s = (case w_tables s h of None \<Rightarrow> 0
     | Some t \<Rightarrow> (case ht_table t of NULL \<Rightarrow> 0
       | Ptr a \<Rightarrow> (case w_slabs s a of None \<Rightarrow> 0 | Some sl \<Rightarrow> unat (sl_entrycount sl))))"

definition ht_pairs :: "addr \<Rightarrow> world \<Rightarrow> (u8 list \<times> u64) list" where
  "ht_pairs h s = (case w_tables s h of None \<Rightarrow> []
     | Some t \<Rightarrow> (case ht_table t of NULL \<Rightarrow> []
       | Ptr a \<Rightarrow> concat (map (\<lambda>i. map (entry_pair (w_mem s) (ht_keylen t) (w_ents s))
                                 (bucket (w_ents s) (a, i))) [0..<ht_size h s])))"

text \<open>The bytes of the key at an address, as long as the keys of the table are.\<close>

definition ht_key :: "addr \<Rightarrow> world \<Rightarrow> u64 \<Rightarrow> u8 list" where
  "ht_key h s key = (case w_tables s h of None \<Rightarrow> []
     | Some t \<Rightarrow> key_bytes (w_mem s) key (ht_keylen t))"

definition ht_map :: "addr \<Rightarrow> world \<Rightarrow> u8 list \<rightharpoonup> u64" where
  "ht_map h s = map_of (ht_pairs h s)"

section \<open>The invariant\<close>

definition ht_ptrs :: "addr \<Rightarrow> nat \<Rightarrow> (nat \<Rightarrow> eaddr list) \<Rightarrow> eaddr list \<Rightarrow> eaddr list" where
  "ht_ptrs T n C F = map (Pair T) [0..<n] @ concat (map C [0..<n]) @ F"

text \<open>
  The entries: \<open>T\<close> is the slab of the table proper with \<open>n\<close> slots, \<open>C i\<close> the chain behind
  slot \<open>i\<close>, \<open>F\<close> the free chain that starts at \<open>fc\<close>.
\<close>

definition ht_shape ::
    "(eaddr \<rightharpoonup> hashtable_entry) \<Rightarrow> eaddr ptr \<Rightarrow> addr \<Rightarrow> nat \<Rightarrow> (nat \<Rightarrow> eaddr list) \<Rightarrow> eaddr list \<Rightarrow> bool" where
  "ht_shape E fc T n C F \<longleftrightarrow>
     distinct (ht_ptrs T n C F) \<and>
     (\<forall>i<n. \<exists>e. E (T, i) = Some e \<and> entry_chain E (hte_next e) = Some (C i) \<and>
                 (\<not> occupied e \<longrightarrow> C i = [])) \<and>
     entry_chain E fc = Some F \<and>
     (\<forall>i<n. \<forall>p\<in>set (C i). \<forall>e. E p = Some e \<longrightarrow> occupied e) \<and>
     (\<forall>p\<in>set F. \<forall>e. E p = Some e \<longrightarrow> \<not> occupied e) \<and>
     (\<forall>p\<in>set (ht_ptrs T n C F). \<forall>e. E p = Some e \<longrightarrow> lock_inited e)"

text \<open>Keys sit in the bucket of their hash value, once each unless duplicates are allowed.\<close>

definition ht_keyed ::
    "memory \<Rightarrow> (eaddr \<rightharpoonup> hashtable_entry) \<Rightarrow> hashtable \<Rightarrow> addr \<Rightarrow> nat \<Rightarrow> bool" where
  "ht_keyed mem E t T n \<longleftrightarrow>
     (\<forall>i<n. \<forall>p\<in>set (bucket E (T, i)). \<forall>e. E p = Some e \<longrightarrow>
        ht_hash_bytes mem (hte_key e) (scast (ht_keysize t)) (of_nat n) = Some (of_nat i)) \<and>
     (ht_options t AND hto_dups_allowed = 0 \<longrightarrow>
        (\<forall>i<n. distinct (map (fst \<circ> entry_pair mem (ht_keylen t) E) (bucket E (T, i)))))"

text \<open>The slabs of the table hold exactly the entries of its chains.\<close>

definition ht_owned ::
    "(addr \<rightharpoonup> hashtable_slab) \<Rightarrow> addr ptr \<Rightarrow> addr list \<Rightarrow> eaddr list \<Rightarrow> bool" where
  "ht_owned S sp SS ps \<longleftrightarrow>
     slab_list S sp SS \<and> distinct SS \<and>
     (\<forall>a\<in>set SS. \<exists>sl. S a = Some sl \<and> sl_entry sl = Ptr (a, 0) \<and>
        (\<forall>i. (a, i) \<in> set ps \<longleftrightarrow> i < unat (sl_entrycount sl))) \<and>
     fst ` set ps \<subseteq> set SS"

text \<open>A slab of \<open>n\<close> entries is a block whose size \<^verbatim>\<open>size_t\<close> can hold.\<close>

definition slab_fits :: "nat \<Rightarrow> bool" where
  "slab_fits n \<longleftrightarrow> unat sizeof_slab + n * unat sizeof_entry < 2 ^ 64"

definition ht_unlocked :: "addr \<Rightarrow> world \<Rightarrow> eaddr list \<Rightarrow> bool" where
  "ht_unlocked h s ps \<longleftrightarrow>
     w_rw s (TableLock h) = RW_Free \<and> w_rw s (FreeLock h) = RW_Free \<and>
     (\<forall>p\<in>set ps. w_rw s (EntryLock p) = RW_Free) \<and>
     (\<forall>m. mutex_of_table h m \<longrightarrow> w_mx s m = MX_Free)"

text \<open>The data of a table, and the data together with all of its locks released.\<close>

definition ht_core ::
    "addr \<Rightarrow> world \<Rightarrow> hashtable \<Rightarrow> addr \<Rightarrow> nat \<Rightarrow> (nat \<Rightarrow> eaddr list) \<Rightarrow> eaddr list \<Rightarrow> addr list \<Rightarrow> bool" where
  "ht_core h s t T n C F SS \<longleftrightarrow>
     w_tables s h = Some t \<and> ht_table t = Ptr T \<and> T \<in> set SS \<and> 0 < n \<and> slab_fits n \<and>
     (\<exists>sl. w_slabs s T = Some sl \<and> sl_entrycount sl = of_nat n \<and> sl_entry sl = Ptr (T, 0)) \<and>
     ht_hash_compute t = ht_hash_bytes \<and> ht_key_compare t = bcmp \<and>
     ht_threshold_evaluate t = Ptr ht_evaluate_threshold_default \<and>
     ht_shape (w_ents s) (ht_freechain t) T n C F \<and>
     ht_keyed (w_mem s) (w_ents s) t T n \<and>
     ht_owned (w_slabs s) (ht_slabs t) SS (ht_ptrs T n C F) \<and>
     h < w_brk s \<and> (\<forall>a\<in>set SS. a < w_brk s)"

definition ht_inv ::
    "addr \<Rightarrow> world \<Rightarrow> hashtable \<Rightarrow> addr \<Rightarrow> nat \<Rightarrow> (nat \<Rightarrow> eaddr list) \<Rightarrow> eaddr list \<Rightarrow> addr list \<Rightarrow> bool" where
  "ht_inv h s t T n C F SS \<longleftrightarrow>
     ht_core h s t T n C F SS \<and> ht_unlocked h s (ht_ptrs T n C F)"

definition ht_wf :: "addr \<Rightarrow> world \<Rightarrow> bool" where
  "ht_wf h s \<longleftrightarrow> (\<exists>t T n C F SS. ht_inv h s t T n C F SS)"

text \<open>In addition the chain of the slabs ends with a null pointer, as \<^verbatim>\<open>ht_destroy\<close> needs it.\<close>

abbreviation slabs_end :: "world \<Rightarrow> hashtable \<Rightarrow> addr list \<Rightarrow> bool" where
  "slabs_end s t SS \<equiv> slab_chain (w_slabs s) (ht_slabs t) = Some SS"

definition ht_ended :: "addr \<Rightarrow> world \<Rightarrow> bool" where
  "ht_ended h s \<longleftrightarrow> (\<exists>t T n C F SS. ht_inv h s t T n C F SS \<and> slabs_end s t SS)"

section \<open>Sizes\<close>

lemma slab_fits_less: "slab_fits n \<Longrightarrow> n < 2 ^ 64"
  by (simp add: slab_fits_def sizeof_slab_def sizeof_entry_def)

lemma slab_fits_room:
  assumes "slab_fits (unat n)"
  shows "slab_room (sizeof_slab + n * sizeof_entry) = unat n" "sizeof_slab \<le> sizeof_slab + n * sizeof_entry"
proof -
  have "unat n * 96 < 2 ^ 64" "96 + unat n * 96 < 2 ^ 64" using assms by (simp_all add: slab_fits_def sizeof_slab_def sizeof_entry_def)
  then have u: "unat (n * 96) = unat n * 96" "unat (96 + n * 96) = 96 + unat n * 96"
    by (simp_all add: unat_word_ariths)
  show "slab_room (sizeof_slab + n * sizeof_entry) = unat n" using u by (simp add: slab_room_def sizeof_slab_def sizeof_entry_def)
  show "sizeof_slab \<le> sizeof_slab + n * sizeof_entry" using u by (simp add: sizeof_slab_def sizeof_entry_def word_le_nat_alt)
qed

text \<open>Where the size wraps around, the block has no room for the entries.\<close>

lemma slab_wraps_room:
  assumes "\<not> slab_fits (unat n)"
  shows "slab_room (sizeof_slab + n * sizeof_entry) < unat n"
proof -
  have "2 ^ 64 \<le> 96 + unat n * 96" using assms by (simp add: slab_fits_def sizeof_slab_def sizeof_entry_def)
  moreover have "unat (96 + n * 96) = (96 + unat n * 96) mod 2 ^ 64" by (simp add: unat_word_ariths mod_simps)
  ultimately have "unat (96 + n * 96) < 96 + unat n * 96"
    by (metis dual_order.strict_trans1 mod_less_divisor zero_less_numeral zero_less_power)
  moreover have "0 < unat n" using \<open>2 ^ 64 \<le> 96 + unat n * 96\<close> by simp
  ultimately have "(unat (96 + n * 96) - 96) div 96 < unat n" by (intro less_mult_imp_div_less) arith
  then show ?thesis by (simp add: slab_room_def sizeof_slab_def sizeof_entry_def)
qed

section \<open>Flags\<close>

lemma and_two_neq_0 [flag_simps]: "((w::'a::len word) AND 2 \<noteq> 0) = (bit w 1 \<and> (2::'a word) \<noteq> 0)"
  by (simp add: and_two_eq)

lemma occupied_bit: "occupied e \<longleftrightarrow> bit (hte_flags e) 0"
  by (simp add: occupied_def htef_occupied_def flag_simps)

lemma lock_inited_bit: "lock_inited e \<longleftrightarrow> bit (hte_flags e) 1"
  by (simp add: lock_inited_def htef_lock_initialized_def and_two_eq)

text \<open>What setting and clearing the two flags does to their bits.\<close>

lemma flag_bits [flag_simps]:
  "bit (f OR htef_occupied) 0"
  "\<not> bit (f AND NOT htef_occupied) 0"
  "bit (f OR htef_lock_initialized) (Suc 0)"
  "bit (f OR htef_occupied) (Suc 0) = bit f (Suc 0)"
  "bit (f AND NOT htef_occupied) (Suc 0) = bit f (Suc 0)"
  "bit (f OR htef_lock_initialized) 0 = bit f 0"
  by (simp_all add: htef_occupied_def htef_lock_initialized_def bit_or_iff bit_and_iff bit_not_iff
      bit_1_iff bit_2_iff)

lemmas entry_flags = occupied_bit lock_inited_bit flag_bits

lemma flags_occupied_eq_0: "hte_flags e AND htef_occupied = 0 \<longleftrightarrow> \<not> occupied e"
  by (simp add: occupied_def)

lemma flags_lock_eq_0: "hte_flags e AND htef_lock_initialized = 0 \<longleftrightarrow> \<not> lock_inited e"
  by (simp add: lock_inited_def)

end
