(* ===== verification/HT_Shape.thy ===== *)
theory HT_Shape
  imports HT_Inv "HOL-Library.Multiset"
begin

text \<open>
  Pointer surgery on the entries of a table: which changes of the entry store keep the shape of
  buckets and free chain, and what they do to it. No operation of the library is mentioned here;
  the proofs about insertion and deletion apply these lemmas to the stores the operations leave.
\<close>

section \<open>The entries of a table\<close>

lemma mset_concat_upd:
  "i < n \<Longrightarrow> mset (concat (map (C(i := xs)) [0..<n])) + mset (C i)
             = mset (concat (map C [0..<n])) + mset xs"
proof (induction n)
  case 0
  then show ?case by simp
next
  case (Suc n)
  show ?case
  proof (cases "i = n")
    case True
    then have "map (C(i := xs)) [0..<n] = map C [0..<n]" by simp
    with True show ?thesis by (simp del: fun_upd_apply add: fun_upd_same)
  next
    case False
    with Suc show ?thesis by simp
  qed
qed

lemma mset_ht_ptrs_upd:
  "i < n \<Longrightarrow> mset xs + mset F' = mset (C i) + mset F
     \<Longrightarrow> mset (ht_ptrs T n (C(i := xs)) F') = mset (ht_ptrs T n C F)"
proof -
  assume i: "i < n" and eq: "mset xs + mset F' = mset (C i) + mset F"
  have "mset (concat (map (C(i := xs)) [0..<n])) + mset F' + mset (C i) =
        mset (concat (map C [0..<n])) + mset F + mset (C i)"
    using mset_concat_upd [OF i, of C xs] eq
    by (metis (no_types, lifting) add.assoc add.commute)
  then show ?thesis by (simp add: ht_ptrs_def)
qed

lemma set_ht_ptrs: "set (ht_ptrs T n C F) = Pair T ` {0..<n} \<union> (\<Union>i<n. set (C i)) \<union> set F"
  by (auto simp: ht_ptrs_def)

lemma slot_in_ptrs [simp, intro]: "i < n \<Longrightarrow> (T, i) \<in> set (ht_ptrs T n C F)"
  by (auto simp: set_ht_ptrs)

lemma chain_in_ptrs [intro]: "i < n \<Longrightarrow> p \<in> set (C i) \<Longrightarrow> p \<in> set (ht_ptrs T n C F)"
  by (auto simp: set_ht_ptrs)

lemma free_in_ptrs [intro]: "p \<in> set F \<Longrightarrow> p \<in> set (ht_ptrs T n C F)"
  by (auto simp: set_ht_ptrs)

lemma distinct_concat_map_disjoint:
  "distinct (concat (map C [0..<n])) \<Longrightarrow> i < n \<Longrightarrow> j < n \<Longrightarrow> p \<in> set (C i) \<Longrightarrow> p \<in> set (C j) \<Longrightarrow> i = j"
proof (induction n)
  case 0
  then show ?case by simp
next
  case (Suc n)
  then show ?case by (cases "i = n"; cases "j = n") (fastforce simp: disjoint_iff)+
qed

lemma distinct_concat_mapD: "distinct (concat (map C [0..<n])) \<Longrightarrow> i < n \<Longrightarrow> distinct (C i)"
  by (induction n) (auto simp: less_Suc_eq)

text \<open>How distinctness is used: an entry has one place in the structure.\<close>

lemma ht_shapeD:
  assumes "ht_shape E fc T n C F"
  shows "distinct (ht_ptrs T n C F)" "entry_chain E fc = Some F"
    and "i < n \<Longrightarrow> \<exists>e. E (T, i) = Some e \<and> entry_chain E (hte_next e) = Some (C i) \<and> (\<not> occupied e \<longrightarrow> C i = [])"
    and "i < n \<Longrightarrow> (T, i) \<notin> set (C j) \<or> \<not> j < n"
    and "i < n \<Longrightarrow> (T, i) \<notin> set F"
    and "i < n \<Longrightarrow> p \<in> set (C i) \<Longrightarrow> p \<notin> set F"
    and "i < n \<Longrightarrow> p \<in> set (C i) \<Longrightarrow> j < n \<Longrightarrow> p \<in> set (C j) \<Longrightarrow> i = j"
    and "i < n \<Longrightarrow> distinct (C i)" "distinct F"
    and "p \<in> set (ht_ptrs T n C F) \<Longrightarrow> \<exists>e. E p = Some e \<and> lock_inited e"
    and "i < n \<Longrightarrow> p \<in> set (C i) \<Longrightarrow> \<exists>e. E p = Some e \<and> occupied e"
    and "p \<in> set F \<Longrightarrow> \<exists>e. E p = Some e \<and> \<not> occupied e"
proof -
  have d: "distinct (map (Pair T) [0..<n] @ concat (map C [0..<n]) @ F)"
    using assms by (simp add: ht_shape_def ht_ptrs_def)
  show 1: "distinct (ht_ptrs T n C F)" "entry_chain E fc = Some F"
    "i < n \<Longrightarrow> \<exists>e. E (T, i) = Some e \<and> entry_chain E (hte_next e) = Some (C i) \<and> (\<not> occupied e \<longrightarrow> C i = [])" for i
    using assms by (auto simp: ht_shape_def)
  have A: "(\<Union>a\<in>{0..<n}. set (C a)) \<inter> set F = {}" "distinct F"
    and B: "Pair T ` {0..<n} \<inter> ((\<Union>a\<in>{0..<n}. set (C a)) \<union> set F) = {}"
    using d by auto
  show "distinct F" by (rule A(2))
  show "i < n \<Longrightarrow> p \<in> set (C i) \<Longrightarrow> p \<notin> set F" using A(1) by force
  show "i < n \<Longrightarrow> (T, i) \<notin> set F" using B by force
  show "i < n \<Longrightarrow> (T, i) \<notin> set (C j) \<or> \<not> j < n" using B by force
  show "i < n \<Longrightarrow> p \<in> set (C i) \<Longrightarrow> j < n \<Longrightarrow> p \<in> set (C j) \<Longrightarrow> i = j" 
    using d distinct_concat_map_disjoint by (metis distinct_append)
  show "i < n \<Longrightarrow> distinct (C i)"
    using d distinct_concat_mapD by (metis distinct_append)
  have chain: "\<exists>e. E p = Some e" if "i < n" "p \<in> set (C i)" for i p
    using 1(3) [OF that(1)] entry_chain_dom that by blast
  moreover have occ: "\<forall>i<n. \<forall>p\<in>set (C i). \<forall>e. E p = Some e \<longrightarrow> occupied e"
    and free: "\<forall>p\<in>set F. \<forall>e. E p = Some e \<longrightarrow> \<not> occupied e"
    and ini: "\<forall>p\<in>set (ht_ptrs T n C F). \<forall>e. E p = Some e \<longrightarrow> lock_inited e"
    using assms by (simp_all add: ht_shape_def)
  ultimately show "i < n \<Longrightarrow> p \<in> set (C i) \<Longrightarrow> \<exists>e. E p = Some e \<and> occupied e"
    by blast
  show "p \<in> set F \<Longrightarrow> \<exists>e. E p = Some e \<and> \<not> occupied e"
    using 1(2) entry_chain_dom free by blast
  show "p \<in> set (ht_ptrs T n C F) \<Longrightarrow> \<exists>e. E p = Some e \<and> lock_inited e"
  proof -
    assume p: "p \<in> set (ht_ptrs T n C F)"
    then consider i where "i < n" "p = (T, i)" | i where "i < n" "p \<in> set (C i)" | "p \<in> set F"
      by (auto simp: set_ht_ptrs)
    then have "\<exists>e. E p = Some e"
      by cases (use 1(3) chain entry_chain_dom [OF 1(2)] in blast)+
    with p ini show ?thesis by blast
  qed
qed

lemma ht_shapeI:
  assumes "distinct (ht_ptrs T n C F)"
    and "\<And>i. i < n \<Longrightarrow> \<exists>e. E (T, i) = Some e \<and> entry_chain E (hte_next e) = Some (C i) \<and> (\<not> occupied e \<longrightarrow> C i = [])"
    and "entry_chain E fc = Some F"
    and "\<And>i p e. i < n \<Longrightarrow> p \<in> set (C i) \<Longrightarrow> E p = Some e \<Longrightarrow> occupied e"
    and "\<And>p e. p \<in> set F \<Longrightarrow> E p = Some e \<Longrightarrow> \<not> occupied e"
    and "\<And>p e. p \<in> set (ht_ptrs T n C F) \<Longrightarrow> E p = Some e \<Longrightarrow> lock_inited e"
  shows "ht_shape E fc T n C F"
  using assms unfolding ht_shape_def by blast

section \<open>Surgery\<close>

lemma entry_chain_upd_same_next:
  "entry_chain E p = Some ps \<Longrightarrow> E a = Some e \<Longrightarrow> hte_next e' = hte_next e
     \<Longrightarrow> entry_chain (E(a \<mapsto> e')) p = Some ps"
  by (erule entry_chain_cong) auto

lemma entry_chain_upd_other:
  "entry_chain E p = Some ps \<Longrightarrow> a \<notin> set ps \<Longrightarrow> entry_chain (E(a := x)) p = Some ps"
  by (erule entry_chain_cong) auto

lemma entry_chain_unlink:
  assumes "entry_chain E q = Some (xs @ p # d # ys)" and "distinct (xs @ p # d # ys)"
    and "E d = Some de" and "hte_next pe' = hte_next de"
  shows "entry_chain (E(p \<mapsto> pe', d \<mapsto> de')) q = Some (xs @ p # ys)"
  using assms
proof (induction xs arbitrary: q)
  case Nil
  then have "entry_chain E (hte_next de) = Some ys"
    by (auto simp: entry_chain_Cons)
  then have "entry_chain (E(p \<mapsto> pe', d \<mapsto> de')) (hte_next de) = Some ys"
    using Nil.prems(2) by (intro entry_chain_upd_other) auto
  moreover from Nil.prems have "q = Ptr p" "p \<noteq> d" by (auto simp: entry_chain_Cons)
  ultimately show ?case using Nil.prems(4)
    by (simp del: fun_upd_apply add: fun_upd_same fun_upd_other)
next
  case (Cons x xs)
  then obtain e where "q = Ptr x" "E x = Some e"
      "entry_chain E (hte_next e) = Some (xs @ p # d # ys)"
    by (auto simp: entry_chain_Cons)
  with Cons show ?case by (auto simp: entry_chain_Cons)
qed

text \<open>Rewriting a slot in place: filling an empty one, emptying one without a chain.\<close>

lemma ht_shape_slot:
  assumes sh: "ht_shape E fc T n C F" and i: "i < n" and e: "E (T, i) = Some e"
    and e': "hte_next e' = hte_next e" "\<not> occupied e' \<longrightarrow> C i = []" "lock_inited e'"
  shows "ht_shape (E((T, i) \<mapsto> e')) fc T n C F"
proof (rule ht_shapeI)
  note D = ht_shapeD [OF sh]
  show "distinct (ht_ptrs T n C F)" by (rule D(1))
  show "entry_chain (E((T, i) \<mapsto> e')) fc = Some F"
    using D(2) e e'(1) by (rule entry_chain_upd_same_next)
  show "\<exists>x. (E((T, i) \<mapsto> e')) (T, j) = Some x \<and>
          entry_chain (E((T, i) \<mapsto> e')) (hte_next x) = Some (C j) \<and> (\<not> occupied x \<longrightarrow> C j = [])"
    if "j < n" for j
    using D(3) [OF that] e e' by (cases "j = i") (auto intro: entry_chain_upd_same_next)
  show "occupied x" if "j < n" "p \<in> set (C j)" "(E((T, i) \<mapsto> e')) p = Some x" for j p x
    using D(4) [OF i, of j] D(11) [OF that(1,2)] that by (auto split: if_splits)
  show "\<not> occupied x" if "p \<in> set F" "(E((T, i) \<mapsto> e')) p = Some x" for p x
    using D(5) [OF i] D(12) [OF that(1)] that by (auto split: if_splits)
  show "lock_inited x" if "p \<in> set (ht_ptrs T n C F)" "(E((T, i) \<mapsto> e')) p = Some x" for p x
    using D(10) [OF that(1)] that(2) e'(3) by (auto split: if_splits)
qed

text \<open>Moving the head of the free chain to the front of the chain of an occupied slot.\<close>

lemma ht_shape_push:
  assumes sh: "ht_shape E fc T n C (a # F)" and i: "i < n"
    and e: "E (T, i) = Some e" "occupied e" and ae: "E a = Some ae"
    and a': "hte_next a' = hte_next e" "occupied a'" "lock_inited a'"
    and e': "hte_next e' = Ptr a" "occupied e'" "lock_inited e'"
  shows "ht_shape (E(a \<mapsto> a', (T, i) \<mapsto> e')) (hte_next ae) T n (C(i := a # C i)) F"
    (is "ht_shape ?E _ _ _ ?C _")
proof (rule ht_shapeI)
  note D = ht_shapeD [OF sh]
  have ms: "mset (ht_ptrs T n ?C F) = mset (ht_ptrs T n C (a # F))"
    using i by (intro mset_ht_ptrs_upd) auto
  show "distinct (ht_ptrs T n ?C F)"
    using D(1) mset_eq_imp_distinct_iff [OF ms] by simp
  have a: "a \<noteq> (T, i)" "\<And>j. j < n \<Longrightarrow> a \<notin> set (C j)" "a \<notin> set F" "\<And>j. j < n \<Longrightarrow> a \<noteq> (T, j)"
    using D(5) [OF i] D(5) D(6) [of _ a] D(9) by auto
  have F: "entry_chain E (hte_next ae) = Some F"
    using D(2) ae by (auto simp: entry_chain_Cons)
  show "entry_chain ?E (hte_next ae) = Some F"
    using F a(3) D(5) [OF i] by (intro entry_chain_upd_other) auto
  have C: "entry_chain ?E q = Some (C j)" if "entry_chain E q = Some (C j)" "j < n" for q j
    using that a(2) D(4) [OF i, of j] by (intro entry_chain_upd_other) auto
  show "\<exists>x. ?E (T, j) = Some x \<and> entry_chain ?E (hte_next x) = Some (?C j) \<and>
          (\<not> occupied x \<longrightarrow> ?C j = [])" if "j < n" for j
  proof (cases "j = i")
    case True
    have "entry_chain ?E (hte_next e) = Some (C i)" using C D(3) [OF i] e i by auto
    with True a e' a'(1) show ?thesis by simp
  next
    case False
    with D(3) [OF that] C that a(4) show ?thesis by auto
  qed
  show "occupied x" if "j < n" "p \<in> set (?C j)" "?E p = Some x" for j p x
    using that a'(2) e'(2) D(11) [OF that(1), of p] D(11) [OF i, of p]
    by (auto split: if_splits)
  show "\<not> occupied x" if "p \<in> set F" "?E p = Some x" for p x
    using that a(3) D(5) [OF i] D(12) [of p] by (auto split: if_splits)
  show "lock_inited x" if "p \<in> set (ht_ptrs T n ?C F)" "?E p = Some x" for p x
    using that D(10) [of p] mset_eq_setD [OF ms] a'(3) e'(3) by (auto split: if_splits)
qed

text \<open>Taking an entry out of a chain and putting it on the free chain.\<close>

lemma ht_shape_unlink:
  assumes sh: "ht_shape E fc T n C F" and i: "i < n"
    and split: "(T, i) # C i = xs @ p # d # ys"
    and de: "E d = Some de"
    and p': "hte_next p' = hte_next de" "occupied p'" "lock_inited p'"
    and d': "hte_next d' = fc" "\<not> occupied d'" "lock_inited d'"
  shows "ht_shape (E(p \<mapsto> p', d \<mapsto> d')) (Ptr d) T n (C(i := tl (xs @ p # ys))) (d # F)"
    (is "ht_shape ?E _ _ _ ?C _")
proof (rule ht_shapeI)
  note D = ht_shapeD [OF sh]
  have sub: "set (tl (xs @ p # ys)) \<subseteq> set (C i)" "d \<in> set (C i)"
    and ms0: "mset (tl (xs @ p # ys)) + mset (d # F) = mset (C i) + mset F"
    using split by (cases xs; auto)+
  have ms: "mset (ht_ptrs T n ?C (d # F)) = mset (ht_ptrs T n C F)"
    using i ms0 by (rule mset_ht_ptrs_upd)
  show "distinct (ht_ptrs T n ?C (d # F))"
    using D(1) mset_eq_imp_distinct_iff [OF ms] by simp
  have dist: "distinct (xs @ p # d # ys)"
    using D(8) [OF i] D(4) [OF i, of i] i by (simp flip: split)
  have pd: "p = (T, i) \<or> p \<in> set (C i)" using split by (cases xs) auto
  have fresh: "p \<notin> set F" "d \<notin> set F" "\<And>j. j < n \<Longrightarrow> j \<noteq> i \<Longrightarrow> p \<notin> set (C j) \<and> d \<notin> set (C j)"
    "\<And>j. j < n \<Longrightarrow> d \<noteq> (T, j)"  "\<And>j. j < n \<Longrightarrow> j \<noteq> i \<Longrightarrow> p \<noteq> (T, j)"
    using pd sub(2) D(5) [OF i] D(6) [OF i] D(7) [OF i] D(4) i by blast+
  have other: "entry_chain ?E q = Some ps"
    if "entry_chain E q = Some ps" "p \<notin> set ps" "d \<notin> set ps" for q ps
    using that by (intro entry_chain_upd_other) auto
  show "entry_chain ?E (Ptr d) = Some (d # F)"
    using d'(1) other [OF D(2)] fresh by simp
  show "\<exists>x. ?E (T, j) = Some x \<and> entry_chain ?E (hte_next x) = Some (?C j) \<and>
          (\<not> occupied x \<longrightarrow> ?C j = [])" if "j < n" for j
  proof (cases "j = i")
    case True
    obtain e where e: "E (T, i) = Some e" "entry_chain E (hte_next e) = Some (C i)"
        "\<not> occupied e \<longrightarrow> C i = []"
      using D(3) [OF i] by blast
    show ?thesis
    proof (cases xs)
      case Nil
      with split e de have "entry_chain E (hte_next de) = Some ys" "p = (T, i)"
        by (auto simp: entry_chain_Cons)
      moreover have "entry_chain ?E (hte_next de) = Some ys"
        using calculation dist by (intro other) auto
      ultimately show ?thesis using True Nil p' fresh(4) [OF i] by simp
    next
      case (Cons x xs')
      with split have c: "C i = xs' @ p # d # ys" and p: "p \<noteq> (T, i)"
        using dist by auto
      have "entry_chain ?E (hte_next e) = Some (xs' @ p # ys)"
        using e(2) de p'(1) dist unfolding c Cons by (intro entry_chain_unlink) auto
      with True Cons e p fresh(4) [OF i] c show ?thesis by auto
    qed
  next
    case False
    with D(3) [OF that] that fresh other show ?thesis by auto
  qed
  show "occupied x" if "j < n" "q \<in> set (?C j)" "?E q = Some x" for j q x
  proof -
    have "d \<notin> set (tl (xs @ p # ys))" using dist by (cases xs) auto
    with that fresh(3) have "q \<noteq> d" by (auto split: if_splits)
    with that sub(1) D(11) [OF that(1), of q] D(11) [OF i, of q] p'(2) show ?thesis
      by (auto split: if_splits)
  qed
  show "\<not> occupied x" if "q \<in> set (d # F)" "?E q = Some x" for q x
    using that fresh(1) D(12) [of q] d'(2) by (auto split: if_splits)
  show "lock_inited x" if "q \<in> set (ht_ptrs T n ?C (d # F))" "?E q = Some x" for q x
    using that D(10) [of q] mset_eq_setD [OF ms] p'(3) d'(3) by (auto split: if_splits)
qed

end
