(* ===== verification/HT_Effects.thy ===== *)
theory HT_Effects
  imports HT_Shape
begin

text \<open>
  What the locks, the statistics and the hash function do when no call fails: equations that turn a
  run of an operation into a chain of updates of the store.
\<close>

section \<open>Effects of the primitives without failures\<close>

text \<open>What a counter or an average update leaves behind when its lock works.\<close>

definition counter_bump :: "addr \<Rightarrow> ht_counter \<Rightarrow> u64 \<Rightarrow> world \<Rightarrow> world" where
  "counter_bump h c d s = s\<lparr>w_tick := Suc (Suc (w_tick s)), w_errno := 0,
     w_ctr := (w_ctr s)((h, c) := w_ctr s (h, c) + d)\<rparr>"

definition average_apply ::
    "addr \<Rightarrow> ht_average \<Rightarrow> (hashtable_average \<Rightarrow> hashtable_average) \<Rightarrow> world \<Rightarrow> world" where
  "average_apply h a f s = s\<lparr>w_tick := Suc (Suc (w_tick s)),
     w_avg := (w_avg s)((h, a) := f (w_avg s (h, a)))\<rparr>"

lemma counter_bump_simps [simp]:
  "w_errno (counter_bump h c d s) = 0" "w_mem (counter_bump h c d s) = w_mem s"
  "w_brk (counter_bump h c d s) = w_brk s" "w_tables (counter_bump h c d s) = w_tables s"
  "w_slabs (counter_bump h c d s) = w_slabs s" "w_ents (counter_bump h c d s) = w_ents s"
  "w_rw (counter_bump h c d s) = w_rw s" "w_mx (counter_bump h c d s) = w_mx s"
  "w_avg (counter_bump h c d s) = w_avg s"
  "w_ctr (counter_bump h c d s) = (w_ctr s)((h, c) := w_ctr s (h, c) + d)"
  by (simp_all add: counter_bump_def)

lemma average_apply_simps [simp]:
  "w_errno (average_apply h a f s) = w_errno s" "w_mem (average_apply h a f s) = w_mem s"
  "w_brk (average_apply h a f s) = w_brk s" "w_tables (average_apply h a f s) = w_tables s"
  "w_slabs (average_apply h a f s) = w_slabs s" "w_ents (average_apply h a f s) = w_ents s"
  "w_rw (average_apply h a f s) = w_rw s" "w_mx (average_apply h a f s) = w_mx s"
  "w_ctr (average_apply h a f s) = w_ctr s"
  "w_avg (average_apply h a f s) = (w_avg s)((h, a) := f (w_avg s (h, a)))"
  by (simp_all add: average_apply_def)

lemma rw_set_simps [simp]:
  "w_errno (rw_set l v s) = w_errno s" "w_mem (rw_set l v s) = w_mem s"
  "w_brk (rw_set l v s) = w_brk s" "w_tables (rw_set l v s) = w_tables s"
  "w_slabs (rw_set l v s) = w_slabs s" "w_ents (rw_set l v s) = w_ents s"
  "w_rw (rw_set l v s) = (w_rw s)(l := v)" "w_mx (rw_set l v s) = w_mx s"
  "w_ctr (rw_set l v s) = w_ctr s" "w_avg (rw_set l v s) = w_avg s"
  by (simp_all add: rw_set_def)

lemma mx_set_simps [simp]:
  "w_errno (mx_set l v s) = w_errno s" "w_mem (mx_set l v s) = w_mem s"
  "w_brk (mx_set l v s) = w_brk s" "w_tables (mx_set l v s) = w_tables s"
  "w_slabs (mx_set l v s) = w_slabs s" "w_ents (mx_set l v s) = w_ents s"
  "w_rw (mx_set l v s) = w_rw s" "w_mx (mx_set l v s) = (w_mx s)(l := v)"
  "w_ctr (mx_set l v s) = w_ctr s" "w_avg (mx_set l v s) = w_avg s"
  by (simp_all add: mx_set_def)

lemma ht_counter_add_ok [sync_simps]:
  assumes "env_ok env" and "w_mx s (CounterMutex h c) = MX_Free"
  shows "ht_counter_add env h c d s = Some (0, counter_bump h c d s)"
proof -
  have "(w_mx s)(CounterMutex h c := MX_Free) = w_mx s"
    using assms(2) by (intro fun_upd_idem)
  then show ?thesis using assms
    by (simp add: ht_counter_add_def mutex_lock_def mutex_unlock_def mx_set_def counter_bump_def)
qed

lemma ht_average_increment_ok [sync_simps]:
  assumes "env_ok env" and "w_mx s (AverageMutex h a) = MX_Free"
  shows "ht_average_increment env h a d s = Some (0, average_apply h a (average_increment d) s)"
proof -
  have "(w_mx s)(AverageMutex h a := MX_Free) = w_mx s"
    using assms(2) by (intro fun_upd_idem)
  then show ?thesis using assms
    by (simp add: ht_average_increment_def mutex_lock_def mutex_unlock_def mx_set_def average_apply_def)
qed

lemma ht_average_update_ok [sync_simps]:
  assumes "env_ok env" and "w_mx s (AverageMutex h a) = MX_Free"
  shows "ht_average_update env h a c d u m s = Some (0, average_apply h a (average_update c d u m) s)"
proof -
  have "(w_mx s)(AverageMutex h a := MX_Free) = w_mx s"
    using assms(2) by (intro fun_upd_idem)
  then show ?thesis using assms
    by (simp add: ht_average_update_def mutex_lock_def mutex_unlock_def mx_set_def average_apply_def)
qed

lemma upd_ok [sync_simps]:
  "w_ents s p = Some e \<Longrightarrow> upd_hte p f s = Some (s\<lparr>w_ents := (w_ents s)(p \<mapsto> f e)\<rparr>)"
  "w_tables s h = Some t \<Longrightarrow> upd_ht h g s = Some (s\<lparr>w_tables := (w_tables s)(h \<mapsto> g t)\<rparr>)"
  "w_slabs s a = Some sl \<Longrightarrow> upd_slab a k s = Some (s\<lparr>w_slabs := (w_slabs s)(a \<mapsto> k sl)\<rparr>)"
  by (simp_all add: upd_hte_def upd_ht_def upd_slab_def)

section \<open>Hashing\<close>

definition hash_index :: "memory \<Rightarrow> hashtable \<Rightarrow> nat \<Rightarrow> u64 \<Rightarrow> nat" where
  "hash_index mem t n key = unat (hash_loop mem key (ht_keylen t) 0 mod of_nat n)"

lemma unat_of_nat_u64: "n < 2 ^ 64 \<Longrightarrow> unat (of_nat n :: u64) = n"
  by (simp add: unsigned_of_nat take_bit_nat_eq_self)

lemma of_nat_neq_0: "0 < n \<Longrightarrow> n < 2 ^ 64 \<Longrightarrow> (of_nat n :: u64) \<noteq> 0"
  using unat_of_nat_u64 [of n] by auto

lemma hash_index_less: "0 < n \<Longrightarrow> n < 2 ^ 64 \<Longrightarrow> hash_index mem t n key < n"
  by (simp add: hash_index_def unat_mod unat_of_nat_u64)

lemma ht_hash_bytes_eq:
  "0 < n \<Longrightarrow> n < 2 ^ 64 \<Longrightarrow>
   ht_hash_bytes mem key (scast (ht_keysize t)) (of_nat n) = Some (of_nat (hash_index mem t n key))"
  using of_nat_neq_0 by (simp add: ht_hash_bytes_def hash_index_def ht_keylen_def)

lemma hash_loop_cong:
  "key_bytes mem a n = key_bytes mem' b n \<Longrightarrow> hash_loop mem a n v = hash_loop mem' b n v"
proof (induction n arbitrary: a b v)
  case 0
  then show ?case by simp
next
  case (Suc n)
  then have "mem a = mem' b" "key_bytes mem (a + 1) n = key_bytes mem' (b + 1) n"
    by simp_all
  with Suc.IH [of "a + 1" "b + 1"] show ?case by simp
qed

lemma hash_index_cong:
  "key_bytes mem a (ht_keylen t) = key_bytes mem b (ht_keylen t) \<Longrightarrow>
   hash_index mem t n a = hash_index mem t n b"
  unfolding hash_index_def by (simp add: hash_loop_cong [of mem a "ht_keylen t" mem b])

end
