(* ===== verification/HT_View.thy ===== *)
theory HT_View
  imports HT_Effects
begin

text \<open>
  How the operations are related to what a table stands for: stores that agree on the data of a
  table, the facts of the invariant one by one, and the map of a table read off the bucket that the
  hash value of a key selects.
\<close>

section \<open>Stores that agree on the data\<close>

definition same_data :: "world \<Rightarrow> world \<Rightarrow> bool" where
  "same_data s s' \<longleftrightarrow> w_mem s' = w_mem s \<and> w_brk s' = w_brk s \<and> w_tables s' = w_tables s \<and>
     w_slabs s' = w_slabs s \<and> w_ents s' = w_ents s \<and> w_mx s' = w_mx s"

lemma same_dataD:
  "same_data s s' \<Longrightarrow> w_mem s' = w_mem s" "same_data s s' \<Longrightarrow> w_brk s' = w_brk s"
  "same_data s s' \<Longrightarrow> w_tables s' = w_tables s" "same_data s s' \<Longrightarrow> w_slabs s' = w_slabs s"
  "same_data s s' \<Longrightarrow> w_ents s' = w_ents s" "same_data s s' \<Longrightarrow> w_mx s' = w_mx s"
  by (simp_all add: same_data_def)

lemma same_data_ht_inv:
  "same_data s s' \<Longrightarrow> w_rw s' = w_rw s \<Longrightarrow> ht_inv h s' t T n C F SS = ht_inv h s t T n C F SS"
  by (simp add: ht_inv_def ht_core_def ht_unlocked_def same_data_def)

lemma same_data_view:
  "same_data s s' \<Longrightarrow> ht_pairs h s' = ht_pairs h s"
  "same_data s s' \<Longrightarrow> ht_key h s' = ht_key h s"
  by (simp_all add: same_data_def ht_pairs_def ht_size_def ht_key_def ext
      cong: option.case_cong ptr.case_cong)

lemma ht_unlockedD:
  assumes "ht_unlocked h s ps"
  shows "w_rw s (TableLock h) = RW_Free" "w_rw s (FreeLock h) = RW_Free"
    "p \<in> set ps \<Longrightarrow> w_rw s (EntryLock p) = RW_Free" "w_mx s (ResizeMutex h) = MX_Free"
    "w_mx s (AverageMutex h a) = MX_Free" "w_mx s (CounterMutex h c) = MX_Free"
  using assms by (auto simp: ht_unlocked_def)

lemma same_data_refl [simp]: "same_data s s" and same_data_trans: "same_data s s' \<Longrightarrow> same_data s' s'' \<Longrightarrow> same_data s s''"
  by (auto simp: same_data_def)

lemma same_data_steps [simp]:
  "same_data s (counter_bump h c d s') = same_data s s'"
  "same_data s (average_apply h a f s') = same_data s s'"
  "same_data s (rw_set l v s') = same_data s s'"
  "same_data (counter_bump h c d s) s' = same_data s s'"
  "same_data (average_apply h a f s) s' = same_data s s'"
  "same_data (rw_set l v s) s' = same_data s s'"
  "same_data (s\<lparr>w_tick := x\<rparr>) s' = same_data s s'"
  "same_data (s\<lparr>w_errno := e\<rparr>) s' = same_data s s'"
  "same_data s (s'\<lparr>w_tick := x\<rparr>) = same_data s s'"
  "same_data s (s'\<lparr>w_errno := e\<rparr>) = same_data s s'"
  by (simp_all add: same_data_def)

lemma ht_core_cong:
  "same_data s s' \<Longrightarrow> ht_core h s' t T n C F SS = ht_core h s t T n C F SS"
  by (simp add: ht_core_def same_data_def)


section \<open>The bucket of a key\<close>

text \<open>The entry at \<open>q\<close> has the key.\<close>

definition key_at :: "memory \<Rightarrow> hashtable \<Rightarrow> (eaddr \<rightharpoonup> hashtable_entry) \<Rightarrow> u64 \<Rightarrow> eaddr \<Rightarrow> bool" where
  "key_at mem t E key q \<longleftrightarrow> (\<exists>e. E q = Some e \<and>
     key_bytes mem (hte_key e) (ht_keylen t) = key_bytes mem key (ht_keylen t))"

lemma ht_coreD:
  assumes "ht_core h s t T n C F SS"
  shows "w_tables s h = Some t" "ht_table t = Ptr T" "T \<in> set SS" "0 < n" "n < 2 ^ 64"
    "\<exists>sl. w_slabs s T = Some sl \<and> sl_entrycount sl = of_nat n \<and> sl_entry sl = Ptr (T, 0)"
    "ht_hash_compute t = ht_hash_bytes" "ht_key_compare t = bcmp"
    "ht_threshold_evaluate t = Ptr ht_evaluate_threshold_default"
    "ht_shape (w_ents s) (ht_freechain t) T n C F"
    "ht_keyed (w_mem s) (w_ents s) t T n"
    "ht_owned (w_slabs s) (ht_slabs t) SS (ht_ptrs T n C F)"
    "h < w_brk s" "\<forall>a\<in>set SS. a < w_brk s" "slab_fits n"
  using assms slab_fits_less [of n] by (simp_all add: ht_core_def)

lemma ht_slot_eq:
  assumes "ht_core h s t T n C F SS"
  shows "ht_slot h key s = Some (T, hash_index (w_mem s) t n key)"
proof -
  note D = ht_coreD [OF assms]
  have "hash_index (w_mem s) t n key < 2 ^ 64"
    using hash_index_less [OF D(4,5), of "w_mem s" t key] D(5) by linarith
  then show ?thesis
    using D ht_hash_bytes_eq [OF D(4,5), of "w_mem s" key t]
    by (auto simp: ht_slot_def elem_def unat_of_nat_u64)
qed

lemma bucket_eq:
  assumes "ht_shape E fc T n C F" "i < n" "E (T, i) = Some e"
  shows "bucket E (T, i) = (if occupied e then (T, i) # C i else [])"
  using ht_shapeD(3) [OF assms(1,2)] assms(3) by (auto simp: bucket_def)

lemma ht_size_eq: "ht_core h s t T n C F SS \<Longrightarrow> ht_size h s = n"
  using ht_coreD [of h s t T n C F SS] by (auto simp: ht_size_def unat_of_nat_u64)

lemma ht_pairs_eq:
  assumes "ht_core h s t T n C F SS"
  shows "ht_pairs h s = concat (map (\<lambda>i. map (entry_pair (w_mem s) (ht_keylen t) (w_ents s))
                                 (bucket (w_ents s) (T, i))) [0..<n])"
  using ht_coreD(1,2) [OF assms] ht_size_eq [OF assms] by (simp add: ht_pairs_def)

lemma bucket_hash:
  assumes core: "ht_core h s t T n C F SS" and i: "i < n" and p: "p \<in> set (bucket (w_ents s) (T, i))"
    and k: "fst (entry_pair (w_mem s) (ht_keylen t) (w_ents s) p) = key_bytes (w_mem s) key (ht_keylen t)"
    and e: "w_ents s p = Some e"
  shows "hash_index (w_mem s) t n key = i"
proof -
  note D = ht_coreD [OF core]
  have "hash_index (w_mem s) t n (hte_key e) = hash_index (w_mem s) t n key"
    using k e by (intro hash_index_cong) (simp add: entry_pair_def)
  moreover have "ht_hash_bytes (w_mem s) (hte_key e) (scast (ht_keysize t)) (of_nat n) = Some (of_nat i)"
    using D(11) i p e by (auto simp: ht_keyed_def)
  then have "(of_nat (hash_index (w_mem s) t n (hte_key e)) :: u64) = of_nat i"
    using ht_hash_bytes_eq [OF D(4,5)] by simp
  then have "hash_index (w_mem s) t n (hte_key e) = i"
    using unat_of_nat_u64 hash_index_less [OF D(4,5)] i D(5)
    by (metis less_trans)
  ultimately show ?thesis by simp
qed

lemma bucket_alloc:
  assumes "ht_shape E fc T n C F" "i < n" "p \<in> set (bucket E (T, i))"
  shows "\<exists>e. E p = Some e \<and> occupied e" "p \<in> set ((T, i) # C i)"
proof -
  obtain e where e: "E (T, i) = Some e" using ht_shapeD(3) [OF assms(1,2)] by blast
  have "occupied e \<and> p \<in> set ((T, i) # C i)"
    using assms(3) bucket_eq [OF assms(1,2) e] by (auto split: if_splits)
  then show "\<exists>e. E p = Some e \<and> occupied e" "p \<in> set ((T, i) # C i)"
    using e ht_shapeD(11) [OF assms(1,2), of p] by auto
qed

lemma map_of_concat_other:
  "i < n \<Longrightarrow> (\<And>j. j < n \<Longrightarrow> j \<noteq> i \<Longrightarrow> k \<notin> fst ` set (f j)) \<Longrightarrow>
   map_of (concat (map f [0..<n])) k = map_of (f i) k"
proof (induction n)
  case 0
  then show ?case by simp
next
  case (Suc n)
  have "map_of (concat (map f [0..<n])) k = None" if "i = n"
  proof -
    have "\<forall>j<n. k \<notin> fst ` set (f j)" using that Suc.prems(2) by auto
    then have "k \<notin> fst ` set (concat (map f [0..<n]))" by (simp add: image_UN)
    then show ?thesis by (simp only: map_of_eq_None_iff not_False_eq_True)
  qed
  moreover have "map_of (f n) k = None" if "i \<noteq> n"
    using that Suc.prems(2) [of n] by (auto simp: map_of_eq_None_iff)
  ultimately show ?case using Suc
    by (cases "i = n") (auto simp: map_add_def split: option.splits)
qed

text \<open>The map of the table at a key is decided by the bucket of the key.\<close>

lemma ht_map_bucket:
  fixes key :: u64
  assumes core: "ht_core h s t T n C F SS"
  defines "i \<equiv> hash_index (w_mem s) t n key"
  shows "ht_map h s (ht_key h s key) =
    map_of (map (entry_pair (w_mem s) (ht_keylen t) (w_ents s)) (bucket (w_ents s) (T, i))) (ht_key h s key)"
proof -
  note D = ht_coreD [OF core]
  have "i < n" unfolding i_def by (rule hash_index_less [OF D(4,5)])
  moreover have "ht_key h s key \<notin> fst ` set (map (entry_pair (w_mem s) (ht_keylen t) (w_ents s)) (bucket (w_ents s) (T, j)))"
    if "j < n" "j \<noteq> i" for j
  proof
    assume "ht_key h s key \<in> fst ` set (map (entry_pair (w_mem s) (ht_keylen t) (w_ents s)) (bucket (w_ents s) (T, j)))"
    then obtain p where p: "p \<in> set (bucket (w_ents s) (T, j))"
      "fst (entry_pair (w_mem s) (ht_keylen t) (w_ents s) p) = key_bytes (w_mem s) key (ht_keylen t)"
      using D(1) by (auto simp: ht_key_def)
    with bucket_alloc [OF D(10) that(1) p(1)] bucket_hash [OF core that(1) p] that(2)
    show False by (auto simp: i_def)
  qed
  ultimately show ?thesis
    unfolding ht_map_def ht_pairs_eq [OF core] by (rule map_of_concat_other)
qed

lemma key_at_entry_pair:
  "key_at mem t E key p \<longleftrightarrow>
     E p \<noteq> None \<and> fst (entry_pair mem (ht_keylen t) E p) = key_bytes mem key (ht_keylen t)"
  by (auto simp: key_at_def entry_pair_def)

lemma map_of_first:
  "(\<And>x. x \<in> set xs \<Longrightarrow> fst (f x) \<noteq> k) \<Longrightarrow> fst (f q) = k \<Longrightarrow> map_of (map f (xs @ q # ys)) k = Some (snd (f q))"
proof (induction xs)
  case Nil
  then show ?case by (cases "f q") auto
next
  case (Cons x xs)
  then have "fst (f x) \<noteq> k" by simp
  with Cons show ?case by (cases "f x") auto
qed

lemma map_of_none: "(\<And>x. x \<in> set xs \<Longrightarrow> fst (f x) \<noteq> k) \<Longrightarrow> map_of (map f xs) k = None"
  by (induction xs) auto

text \<open>A lookup by cases: the first entry with the key in its bucket, or none.\<close>

lemma ht_map_cases:
  fixes key :: u64
  assumes core: "ht_core h s t T n C F SS"
  defines "i \<equiv> hash_index (w_mem s) t n key"
  obtains (none) "ht_map h s (ht_key h s key) = None"
      "\<And>p. p \<in> set (bucket (w_ents s) (T, i)) \<Longrightarrow> \<not> key_at (w_mem s) t (w_ents s) key p"
    | (some) xs q ys e where "bucket (w_ents s) (T, i) = xs @ q # ys"
      "\<And>p. p \<in> set xs \<Longrightarrow> \<not> key_at (w_mem s) t (w_ents s) key p"
      "key_at (w_mem s) t (w_ents s) key q" "w_ents s q = Some e"
      "ht_map h s (ht_key h s key) = Some (hte_data e)"
proof -
  note D = ht_coreD [OF core]
  have i: "i < n" unfolding i_def by (rule hash_index_less [OF D(4,5)])
  have alloc: "w_ents s p \<noteq> None" if "p \<in> set (bucket (w_ents s) (T, i))" for p
    using bucket_alloc [OF D(10) i that] by auto
  have key: "ht_key h s key = key_bytes (w_mem s) key (ht_keylen t)"
    using D(1) by (simp add: ht_key_def)
  note view = ht_map_bucket [OF core, of key, folded i_def]
  show thesis
  proof (cases "\<exists>p\<in>set (bucket (w_ents s) (T, i)). key_at (w_mem s) t (w_ents s) key p")
    case True
    then obtain xs q ys where q: "bucket (w_ents s) (T, i) = xs @ q # ys"
        "key_at (w_mem s) t (w_ents s) key q" "\<forall>p\<in>set xs. \<not> key_at (w_mem s) t (w_ents s) key p"
      using split_list_first_prop by metis
    then obtain e where e: "w_ents s q = Some e" by (auto simp: key_at_def)
    have "ht_map h s (ht_key h s key) = Some (snd (entry_pair (w_mem s) (ht_keylen t) (w_ents s) q))"
      unfolding view q(1)
      using q(2,3) alloc by (intro map_of_first) (auto simp: key key_at_entry_pair q(1))
    then have "ht_map h s (ht_key h s key) = Some (hte_data e)" using e by (simp add: entry_pair_def)
    with q e some show thesis by blast
  next
    case False
    moreover have "ht_map h s (ht_key h s key) = None"
      unfolding view using False alloc by (intro map_of_none) (auto simp: key key_at_entry_pair)
    ultimately show thesis using none by blast
  qed
qed


end
