(* ===== verification/HT_Frame.thy ===== *)
theory HT_Frame
  imports HT_View
begin

text \<open>
  What an operation leaves alone. A table that lies outside the heads and slabs an operation works on
  keeps its invariant and its contents, so tables can be used side by side.
\<close>

section \<open>Frames\<close>

text \<open>
  What a call that works on the table heads \<open>H\<close> and the slabs \<open>A\<close> leaves alone: every other head and
  slab that existed before, with their entries and locks.
\<close>

definition ht_frame :: "addr set \<Rightarrow> addr set \<Rightarrow> world \<Rightarrow> world \<Rightarrow> bool" where
  "ht_frame H A s s' \<longleftrightarrow> w_mem s' = w_mem s \<and> w_brk s \<le> w_brk s' \<and>
     (\<forall>h<w_brk s. h \<notin> H \<longrightarrow> w_tables s' h = w_tables s h \<and>
        (\<forall>l. lock_of_table h l \<longrightarrow> w_rw s' l = w_rw s l) \<and>
        (\<forall>m. mutex_of_table h m \<longrightarrow> w_mx s' m = w_mx s m)) \<and>
     (\<forall>a<w_brk s. a \<notin> A \<longrightarrow> w_slabs s' a = w_slabs s a \<and>
        (\<forall>i. w_ents s' (a, i) = w_ents s (a, i) \<and> w_rw s' (EntryLock (a, i)) = w_rw s (EntryLock (a, i))))"

lemma ht_frameD:
  assumes "ht_frame H A s s'"
  shows "w_mem s' = w_mem s" "w_brk s \<le> w_brk s'"
    "\<And>h. h < w_brk s \<Longrightarrow> h \<notin> H \<Longrightarrow> w_tables s' h = w_tables s h"
    "\<And>h l. h < w_brk s \<Longrightarrow> h \<notin> H \<Longrightarrow> lock_of_table h l \<Longrightarrow> w_rw s' l = w_rw s l"
    "\<And>h m. h < w_brk s \<Longrightarrow> h \<notin> H \<Longrightarrow> mutex_of_table h m \<Longrightarrow> w_mx s' m = w_mx s m"
    "\<And>a. a < w_brk s \<Longrightarrow> a \<notin> A \<Longrightarrow> w_slabs s' a = w_slabs s a"
    "\<And>a i. a < w_brk s \<Longrightarrow> a \<notin> A \<Longrightarrow> w_ents s' (a, i) = w_ents s (a, i)"
    "\<And>a i. a < w_brk s \<Longrightarrow> a \<notin> A \<Longrightarrow> w_rw s' (EntryLock (a, i)) = w_rw s (EntryLock (a, i))"
  using assms unfolding ht_frame_def by blast+

lemma ht_frame_refl [simp]: "ht_frame H A s s"
  by (simp add: ht_frame_def)

lemma ht_frame_trans:
  assumes "ht_frame H A s s'" "ht_frame H' A' s' s''"
    and "\<And>h. h \<in> H' \<Longrightarrow> h < w_brk s \<Longrightarrow> h \<in> H" "\<And>a. a \<in> A' \<Longrightarrow> a < w_brk s \<Longrightarrow> a \<in> A"
  shows "ht_frame H A s s''"
proof -
  note F = ht_frameD [OF assms(1)] and G = ht_frameD [OF assms(2)]
  have lt: "x < w_brk s'" if "x < w_brk s" for x using F(2) that by simp
  have H: "h \<notin> H'" if "h < w_brk s" "h \<notin> H" for h using assms(3) that by blast
  have A: "a \<notin> A'" if "a < w_brk s" "a \<notin> A" for a using assms(4) that by blast
  show ?thesis unfolding ht_frame_def
  proof (intro conjI allI impI)
    show "w_mem s'' = w_mem s" "w_brk s \<le> w_brk s''" using F(1,2) G(1,2) by simp_all
  next
    fix h assume h: "h < w_brk s" "h \<notin> H"
    show "w_tables s'' h = w_tables s h" using F(3) [OF h] G(3) [OF lt H] h by simp
    show "w_rw s'' l = w_rw s l" if "lock_of_table h l" for l
      using F(4) [OF h that] G(4) [OF lt H that] h by simp
    show "w_mx s'' m = w_mx s m" if "mutex_of_table h m" for m
      using F(5) [OF h that] G(5) [OF lt H that] h by simp
  next
    fix a i assume a: "a < w_brk s" "a \<notin> A"
    show "w_slabs s'' a = w_slabs s a" using F(6) [OF a] G(6) [OF lt A] a by simp
    show "w_ents s'' (a, i) = w_ents s (a, i)" "w_rw s'' (EntryLock (a, i)) = w_rw s (EntryLock (a, i))"
      using F(7,8) [OF a] G(7,8) [OF lt A] a by simp_all
  qed
qed

lemma bucket_cong:
  assumes sh: "ht_shape E fc T n C F" and i: "i < n"
    and eq: "\<And>p. p \<in> set (ht_ptrs T n C F) \<Longrightarrow> E' p = E p"
  shows "bucket E' (T, i) = bucket E (T, i)"
proof -
  obtain e where e: "E (T, i) = Some e" "entry_chain E (hte_next e) = Some (C i)"
    using ht_shapeD(3) [OF sh i] by blast
  have "entry_chain E' (hte_next e) = Some (C i)"
    by (rule entry_chain_cong [OF e(2)]) (simp add: eq [OF chain_in_ptrs [OF i]])
  with e eq i show ?thesis by (simp add: bucket_def)
qed

lemma ht_shape_cong:
  assumes sh: "ht_shape E fc T n C F" and eq: "\<And>p. p \<in> set (ht_ptrs T n C F) \<Longrightarrow> E' p = E p"
  shows "ht_shape E' fc T n C F"
proof (rule ht_shapeI)
  note D = ht_shapeD [OF sh]
  show "distinct (ht_ptrs T n C F)" by (rule D(1))
  show "entry_chain E' fc = Some F"
    by (rule entry_chain_cong [OF D(2)]) (simp add: eq free_in_ptrs)
  show "\<exists>e. E' (T, i) = Some e \<and> entry_chain E' (hte_next e) = Some (C i) \<and> (\<not> occupied e \<longrightarrow> C i = [])"
    if i: "i < n" for i
  proof -
    obtain e where e: "E (T, i) = Some e" "entry_chain E (hte_next e) = Some (C i)" "\<not> occupied e \<longrightarrow> C i = []"
      using D(3) [OF i] by blast
    moreover have "entry_chain E' (hte_next e) = Some (C i)"
      by (rule entry_chain_cong [OF e(2)]) (simp add: eq [OF chain_in_ptrs [OF i]])
    ultimately show ?thesis using eq i by auto
  qed
qed (use ht_shapeD(10,11,12) [OF sh] eq chain_in_ptrs free_in_ptrs in \<open>metis option.inject\<close>)+

lemma ht_keyed_cong:
  assumes "ht_keyed mem E t T n" and "\<And>i. i < n \<Longrightarrow> bucket E' (T, i) = bucket E (T, i)"
    and "\<And>i p. i < n \<Longrightarrow> p \<in> set (bucket E (T, i)) \<Longrightarrow> E' p = E p"
  shows "ht_keyed mem E' t T n"
proof -
  have "map (fst \<circ> entry_pair mem (ht_keylen t) E') (bucket E' (T, i)) =
        map (fst \<circ> entry_pair mem (ht_keylen t) E) (bucket E (T, i))" if "i < n" for i
    unfolding assms(2) [OF that] using assms(3) [OF that] by (auto simp: entry_pair_def)
  note eq = this
  show ?thesis unfolding ht_keyed_def
  proof (intro conjI allI impI ballI)
    show "ht_hash_bytes mem (hte_key e) (scast (ht_keysize t)) (of_nat n) = Some (of_nat i)"
      if "i < n" "p \<in> set (bucket E' (T, i))" "E' p = Some e" for i p e
      using assms that by (simp add: ht_keyed_def)
    show "distinct (map (fst \<circ> entry_pair mem (ht_keylen t) E') (bucket E' (T, i)))"
      if "ht_options t AND hto_dups_allowed = 0" "i < n" for i
      unfolding eq [OF that(2)] using assms(1) that by (simp add: ht_keyed_def)
  qed
qed

lemma ht_ptrs_owned: "ht_owned S sp SS ps \<Longrightarrow> p \<in> set ps \<Longrightarrow> fst p \<in> set SS"
  by (auto simp: ht_owned_def)

lemma ht_owned_cong:
  assumes "ht_owned S sp SS ps" and "\<And>a. a \<in> set SS \<Longrightarrow> S' a = S a"
  shows "ht_owned S' sp SS ps"
  using assms slab_list_cong [of S sp SS S'] by (auto simp: ht_owned_def)

text \<open>The data of a table outside the frame of a call is as it was, and so are its entries' locks.\<close>

lemma ht_core_frame:
  assumes fr: "ht_frame H A s s'" and core: "ht_core h s t T n C F SS" and h: "h \<notin> H" "set SS \<inter> A = {}"
  shows "ht_core h s' t T n C F SS" "ht_pairs h s' = ht_pairs h s"
    "\<And>p. p \<in> set (ht_ptrs T n C F) \<Longrightarrow> w_ents s' p = w_ents s p \<and> w_rw s' (EntryLock p) = w_rw s (EntryLock p)"
proof -
  note D = ht_coreD [OF core]
  have slab: "w_slabs s' a = w_slabs s a" "w_ents s' (a, i) = w_ents s (a, i)"
      "w_rw s' (EntryLock (a, i)) = w_rw s (EntryLock (a, i))" if "a \<in> set SS" for a i
    using ht_frameD(6,7,8) [OF fr, of a] D(14) h(2) that by auto
  have ents: "w_ents s' p = w_ents s p" "w_rw s' (EntryLock p) = w_rw s (EntryLock p)"
    if "p \<in> set (ht_ptrs T n C F)" for p
    using slab(2,3) [OF ht_ptrs_owned [OF D(12) that], of "snd p"] by simp_all
  then show "\<And>p. p \<in> set (ht_ptrs T n C F) \<Longrightarrow> w_ents s' p = w_ents s p \<and> w_rw s' (EntryLock p) = w_rw s (EntryLock p)"
    by blast
  have bk: "bucket (w_ents s') (T, i) = bucket (w_ents s) (T, i)" if "i < n" for i
    by (rule bucket_cong [OF D(10) that ents(1)])
  have bp: "p \<in> set (ht_ptrs T n C F)" if "i < n" "p \<in> set (bucket (w_ents s) (T, i))" for i p
    using bucket_alloc(2) [OF D(10) that] that(1) by (auto intro: chain_in_ptrs)
  have tab: "w_tables s' h = Some t" "w_mem s' = w_mem s" "w_brk s \<le> w_brk s'"
    using fr h(1) D(1,13) by (auto simp: ht_frame_def)
  show core': "ht_core h s' t T n C F SS"
    unfolding ht_core_def tab
  proof (intro conjI)
    show "\<exists>sl. w_slabs s' T = Some sl \<and> sl_entrycount sl = of_nat n \<and> sl_entry sl = Ptr (T, 0)"
      using D(6) slab(1) [OF D(3)] by simp
    show "ht_shape (w_ents s') (ht_freechain t) T n C F" by (rule ht_shape_cong [OF D(10) ents(1)])
    show "ht_keyed (w_mem s) (w_ents s') t T n"
      by (rule ht_keyed_cong [OF D(11) bk]) (use bp ents in auto)
    show "ht_owned (w_slabs s') (ht_slabs t) SS (ht_ptrs T n C F)"
      by (rule ht_owned_cong [OF D(12) slab(1)])
  qed (use D tab in auto)
  have "map (entry_pair (w_mem s') (ht_keylen t) (w_ents s')) (bucket (w_ents s') (T, i)) =
        map (entry_pair (w_mem s) (ht_keylen t) (w_ents s)) (bucket (w_ents s) (T, i))" if "i < n" for i
    unfolding bk [OF that] tab using bp [OF that] ents(1) by (auto simp: entry_pair_def)
  then show "ht_pairs h s' = ht_pairs h s"
    unfolding ht_pairs_eq [OF core] ht_pairs_eq [OF core'] by (metis (mono_tags, lifting) atLeastLessThan_iff map_eq_conv set_upt)
qed

lemma slabs_end_frame:
  assumes fr: "ht_frame H A s s'" and core: "ht_core h s t T n C F SS" and A: "set SS \<inter> A = {}" and e: "slabs_end s t SS"
  shows "slabs_end s' t SS"
  by (rule slab_chain_cong [OF e]) (use ht_frameD(6) [OF fr] ht_coreD(14) [OF core] A in auto)

text \<open>A table outside the frame of a call is as it was.\<close>

lemma ht_inv_frame:
  assumes fr: "ht_frame H A s s'" and inv: "ht_inv h s t T n C F SS" and h: "h \<notin> H" "set SS \<inter> A = {}"
  shows "ht_inv h s' t T n C F SS" "ht_pairs h s' = ht_pairs h s"
proof -
  have core: "ht_core h s t T n C F SS" and ul: "ht_unlocked h s (ht_ptrs T n C F)"
    using inv by (simp_all add: ht_inv_def)
  note K = ht_core_frame [OF fr core h]
  have "\<And>l. lock_of_table h l \<Longrightarrow> w_rw s' l = w_rw s l" "\<And>m. mutex_of_table h m \<Longrightarrow> w_mx s' m = w_mx s m"
    using ht_frameD(4,5) [OF fr ht_coreD(13) [OF core] h(1)] by simp_all
  then have "ht_unlocked h s' (ht_ptrs T n C F)" using ul K(3) by (auto simp: ht_unlocked_def)
  with K(1) show "ht_inv h s' t T n C F SS" by (simp add: ht_inv_def)
  show "ht_pairs h s' = ht_pairs h s" by (rule K(2))
qed

end
