(* ===== verification/HT_Slab.thy ===== *)
theory HT_Slab
  imports HT_Frame
begin

text \<open>
  Slabs: initialising the entries of a new slab, hanging them on the free chain, and the loop of
  \<^verbatim>\<open>ht_insert_key\<close> that makes sure the free chain has an entry.
\<close>

section \<open>Fresh slabs\<close>

definition fresh_entry :: hashtable_entry where
  "fresh_entry = \<lparr>hte_next = NULL, hte_key = 0, hte_data = 0, hte_flags = htef_lock_initialized\<rparr>"

fun in_range :: "addr \<Rightarrow> nat \<Rightarrow> nat \<Rightarrow> lock_addr \<Rightarrow> bool" where
  "in_range a j n (EntryLock p) = (fst p = a \<and> j \<le> snd p \<and> snd p < j + n)"
| "in_range a j n _ = False"

definition init_range :: "addr \<Rightarrow> nat \<Rightarrow> nat \<Rightarrow> world \<Rightarrow> world" where
  "init_range a j n s = s\<lparr>w_tick := w_tick s + n,
     w_ents := (\<lambda>p. if in_range a j n (EntryLock p) then Some fresh_entry else w_ents s p),
     w_rw := (\<lambda>l. if in_range a j n l then RW_Free else w_rw s l)\<rparr>"

lemma fresh_entry_flags [simp]: "\<not> occupied fresh_entry" "lock_inited fresh_entry" "hte_next fresh_entry = NULL"
  by (simp_all add: fresh_entry_def occupied_def lock_inited_def htef_occupied_def htef_lock_initialized_def)

lemma in_range_Suc:
  "in_range a j (Suc n) l \<longleftrightarrow> l = EntryLock (a, j) \<or> in_range a (Suc j) n l"
proof (cases l)
  case (EntryLock p)
  then show ?thesis by (cases p) auto
qed auto

lemma init_range_Suc:
  "init_range a (Suc j) n (s\<lparr>w_tick := Suc (w_tick s), w_ents := (w_ents s)((a, j) \<mapsto> fresh_entry),
       w_rw := (w_rw s)(EntryLock (a, j) := RW_Free)\<rparr>) = init_range a j (Suc n) s"
  unfolding init_range_def in_range_Suc by (auto simp: fun_eq_iff)

lemma ht_init_entries_ok:
  assumes "env_ok env" and "\<And>i. i < n \<Longrightarrow> w_ents s (a, j + i) \<noteq> None"
  shows "ht_init_entries env (a, j) n r s = Some (r, init_range a j n s)"
  using assms(2)
proof (induction n arbitrary: j s)
  case 0
  have "in_range a j 0 l = False" for l by (cases l) auto
  then show ?case by (simp add: init_range_def del: in_range.simps)
next
  case (Suc n)
  from Suc.prems [of 0] obtain e where e: "w_ents s (a, j) = Some e" by auto
  let ?s = "s\<lparr>w_tick := Suc (w_tick s), w_ents := (w_ents s)((a, j) \<mapsto> fresh_entry),
              w_rw := (w_rw s)(EntryLock (a, j) := RW_Free)\<rparr>"
  have fr: "e\<lparr>hte_next := NULL, hte_key := 0, hte_data := 0, hte_flags := htef_lock_initialized\<rparr> = fresh_entry"
    by (cases e) (simp add: fresh_entry_def)
  have step: "ht_init_entries env (a, j) (Suc n) r s = ht_init_entries env (a, Suc j) n r ?s"
    using assms(1) e fr by (cases s) (simp add: sync_simps upd_hte_def elem_def rw_set_def)
  have "ht_init_entries env (a, Suc j) n r ?s = Some (r, init_range a (Suc j) n ?s)"
    by (rule Suc.IH) (use Suc.prems [of "Suc i" for i] in auto)
  then show ?case unfolding step init_range_Suc .
qed

lemma ht_create_slab_ok:
  assumes env: "env_ok env" and n: "numents \<noteq> 0" "slab_fits (unat numents)"
  obtains s' sl where "ht_create_slab env numents s = Some (Ptr (w_brk s), s')"
    "w_brk s' = Suc (w_brk s)" "w_tables s' = w_tables s" "w_mem s' = w_mem s" "w_mx s' = w_mx s"
    "w_ctr s' = w_ctr s" "w_avg s' = w_avg s" "w_errno s' = w_errno s"
    "w_slabs s' = (w_slabs s)(w_brk s \<mapsto> sl)" "sl_entry sl = Ptr (w_brk s, 0)" "sl_entrycount sl = numents"
    "sl_next sl = sl_next (raw_slab env (w_tick s))"
    "w_ents s' = (\<lambda>p. if fst p = w_brk s then if snd p < unat numents then Some fresh_entry else None
                      else w_ents s p)"
    "w_rw s' = (\<lambda>l. if in_range (w_brk s) 0 (unat numents) l then RW_Free else w_rw s l)"
proof -
  let ?b = "w_brk s"
  let ?sl = "(raw_slab env (w_tick s))\<lparr>sl_entry := Ptr (?b, 0), sl_entrycount := numents\<rparr>"
  let ?s1 = "(snd (malloc_slab env (sizeof_slab + numents * sizeof_entry) s))\<lparr>w_slabs := (w_slabs s)(?b \<mapsto> ?sl)\<rparr>"
  have "ht_init_entries env (?b, 0) (unat numents) 0 ?s1 = Some (0, init_range ?b 0 (unat numents) ?s1)"
    using env by (intro ht_init_entries_ok) (simp_all add: malloc_slab_def slab_fits_room [OF n(2)])
  then have run: "ht_create_slab env numents s = Some (Ptr ?b, init_range ?b 0 (unat numents) ?s1)"
    using env n by (simp add: ht_create_slab_def malloc_slab_def sync_simps slab_fits_room [OF n(2)])
  show thesis
    by (rule that [OF run, where sl = ?sl])
      (use env in \<open>auto simp: init_range_def malloc_slab_def fun_eq_iff slab_fits_room [OF n(2)]\<close>)
qed

text \<open>Where the size of the block wraps around, an entry is initialised that lies outside of it.\<close>

lemma ht_init_entries_outside:
  assumes "env_ok env"
  shows "i < n \<Longrightarrow> w_ents s (a, j + i) = None \<Longrightarrow> ht_init_entries env (a, j) n r s = None"
proof (induction n arbitrary: i j r s)
  case (Suc n)
  show ?case
  proof (cases "w_ents s (a, j)")
    case None
    then show ?thesis by (simp add: upd_hte_def)
  next
    case (Some e)
    with Suc.prems(2) obtain k where k: "i = Suc k" by (cases i) auto
    have "ht_init_entries env (a, Suc j) n r u = None" if "w_ents u (a, Suc (j + k)) = None" for u
      by (rule Suc.IH [of k]) (use Suc.prems(1) k that in simp_all)
    then show ?thesis using assms Some Suc.prems(2) k by (simp add: upd_hte_def sync_simps elem_def)
  qed
qed simp

lemma ht_create_slab_wraps:
  assumes env: "env_ok env" and n: "\<not> slab_fits (unat numents)"
  shows "ht_create_slab env numents s = None"
proof -
  let ?r = "slab_room (sizeof_slab + numents * sizeof_entry)"
  have r: "?r < unat numents" by (rule slab_wraps_room [OF n])
  then have n0: "numents \<noteq> 0" by auto
  have out: "ht_init_entries env (a, 0) (unat numents) 0 u = None" if "w_ents u (a, ?r) = None" for a u
    by (rule ht_init_entries_outside [OF env r]) (use that in simp)
  show ?thesis using env n0 out by (simp add: ht_create_slab_def malloc_slab_def upd_slab_def split: bind_split)
qed

lemma ht_create_slab_zero: "ht_create_slab env 0 s = Some (NULL, set_errno EINVAL s)"
  by (simp add: ht_create_slab_def)

section \<open>The free chain\<close>

lemma ht_dangle_ok:
  assumes "w_tables s h = Some t" and "entry_chain (w_ents s) (ht_freechain t) = Some F"
    and "\<And>p. p \<in> set F \<Longrightarrow> fst p = b \<Longrightarrow> n \<le> snd p" and "\<And>i. i < n \<Longrightarrow> w_ents s (b, i) \<noteq> None"
  obtains E' fc where "ht_dangle h (b, 0) n s =
      Some (s\<lparr>w_ents := E', w_tables := (w_tables s)(h \<mapsto> t\<lparr>ht_freechain := fc\<rparr>)\<rparr>)"
    "entry_chain E' fc = Some (map (Pair b) [0..<n] @ F)"
    "\<And>p. fst p \<noteq> b \<or> n \<le> snd p \<Longrightarrow> E' p = w_ents s p"
    "\<And>p. map_option (\<lambda>e. e\<lparr>hte_next := NULL\<rparr>) (E' p) = map_option (\<lambda>e. e\<lparr>hte_next := NULL\<rparr>) (w_ents s p)"
  using assms
proof (induction n arbitrary: s t F thesis)
  case 0
  have "(w_tables s)(h \<mapsto> t\<lparr>ht_freechain := ht_freechain t\<rparr>) = w_tables s"
    using 0 by (simp add: fun_upd_idem)
  then show ?case using 0 by (intro 0(1) [of "ht_freechain t" "w_ents s"]) auto
next
  case (Suc n)
  from Suc.prems(5) [of n] obtain e where e: "w_ents s (b, n) = Some e" by auto
  let ?E = "(w_ents s)((b, n) \<mapsto> e\<lparr>hte_next := ht_freechain t\<rparr>)"
  let ?t = "t\<lparr>ht_freechain := Ptr (b, n)\<rparr>"
  let ?s = "s\<lparr>w_ents := ?E, w_tables := (w_tables s)(h \<mapsto> ?t)\<rparr>"
  have step: "ht_dangle h (b, 0) (Suc n) s = ht_dangle h (b, 0) n ?s"
    using Suc.prems(2) e by (simp add: sync_simps elem_def)
  have "(b, n) \<notin> set F" using Suc.prems(4) [of "(b, n)"] by auto
  then have ch: "entry_chain ?E (Ptr (b, n)) = Some ((b, n) # F)"
    using entry_chain_upd_other [OF Suc.prems(3)] by simp
  show ?case
  proof (rule Suc.IH [where s = ?s and t = ?t and F = "(b, n) # F"])
    show "n \<le> snd p" if "p \<in> set ((b, n) # F)" "fst p = b" for p
    proof (cases "p = (b, n)")
      case False
      with that Suc.prems(4) [of p] show ?thesis by simp
    qed simp
    fix E' fc
    assume *: "ht_dangle h (b, 0) n ?s = Some (?s\<lparr>w_ents := E', w_tables := (w_tables ?s)(h \<mapsto> ?t\<lparr>ht_freechain := fc\<rparr>)\<rparr>)"
      "entry_chain E' fc = Some (map (Pair b) [0..<n] @ (b, n) # F)"
      "\<And>p. fst p \<noteq> b \<or> n \<le> snd p \<Longrightarrow> E' p = w_ents ?s p"
      "\<And>p. map_option (\<lambda>e. e\<lparr>hte_next := NULL\<rparr>) (E' p) = map_option (\<lambda>e. e\<lparr>hte_next := NULL\<rparr>) (w_ents ?s p)"
    show ?thesis
    proof (rule Suc.prems(1))
      show "ht_dangle h (b, 0) (Suc n) s = Some (s\<lparr>w_ents := E', w_tables := (w_tables s)(h \<mapsto> t\<lparr>ht_freechain := fc\<rparr>)\<rparr>)"
        unfolding step using *(1) by simp
      show "map_option (\<lambda>e. e\<lparr>hte_next := NULL\<rparr>) (E' p) = map_option (\<lambda>e. e\<lparr>hte_next := NULL\<rparr>) (w_ents s p)" for p
        using *(4) [of p] e by (auto split: if_splits)
    qed (use * in auto)
  next
    show "w_ents ?s (b, i) \<noteq> None" if "i < n" for i
      using Suc.prems(5) [of i] that by simp
  qed (use ch in \<open>simp_all add: fun_upd_def\<close>)
qed

section \<open>Growing the free chain\<close>

lemma ht_shape_grow:
  assumes sh: "ht_shape E fc T n C []" and eq: "\<And>p. p \<in> set (ht_ptrs T n C []) \<Longrightarrow> E' p = E p \<and> fst p \<noteq> b"
    and ch: "entry_chain E' fc' = Some (map (Pair b) [0..<m])"
    and fresh: "\<And>i. i < m \<Longrightarrow> \<exists>e. E' (b, i) = Some e \<and> \<not> occupied e \<and> lock_inited e"
  shows "ht_shape E' fc' T n C (map (Pair b) [0..<m])"
proof -
  let ?F = "map (Pair b) [0..<m]"
  have old: "ht_shape E' fc T n C []" by (rule ht_shape_cong [OF sh]) (use eq in blast)
  note D = ht_shapeD [OF old]
  have ptrs: "set (ht_ptrs T n C ?F) = set (ht_ptrs T n C []) \<union> set ?F" by (auto simp: set_ht_ptrs)
  show ?thesis
  proof (rule ht_shapeI)
    have "set (ht_ptrs T n C []) \<inter> set ?F = {}" using eq by fastforce
    moreover have "distinct ?F" by (simp add: distinct_map inj_on_def)
    ultimately show "distinct (ht_ptrs T n C ?F)" using D(1) by (auto simp: ht_ptrs_def)
    show "lock_inited e" if "p \<in> set (ht_ptrs T n C ?F)" "E' p = Some e" for p e
      using that fresh D(10) [of p] unfolding ptrs by fastforce
    show "\<not> occupied e" if "p \<in> set ?F" "E' p = Some e" for p e
      using that fresh by fastforce
    show "occupied e" if "i < n" "p \<in> set (C i)" "E' p = Some e" for i p e
      using D(11) [OF that(1,2)] that(3) by auto
  qed (use D ch in auto)
qed

lemma ht_owned_grow:
  assumes own: "ht_owned S sp SS ps" and b: "b \<notin> set SS" "S' b = Some sl" "sl_entry sl = Ptr (b, 0)" "sl_next sl = sp"
    "unat (sl_entrycount sl) = m" and eq: "\<And>a. a \<in> set SS \<Longrightarrow> S' a = S a"
    and ps': "set ps' = set ps \<union> Pair b ` {0..<m}"
  shows "ht_owned S' (Ptr b) (b # SS) ps'"
proof -
  have "slab_list S' sp SS"
    by (rule slab_list_cong [OF _ eq]) (use own in \<open>simp_all add: ht_owned_def\<close>)
  moreover have "fst ` set ps \<subseteq> set SS" using own by (simp add: ht_owned_def)
  moreover have "(a, i) \<in> set ps' \<longleftrightarrow> (a, i) \<in> set ps" if "a \<in> set SS" for a i
    using that b(1) ps' by auto
  moreover have "(b, i) \<in> set ps' \<longleftrightarrow> i < m" for i
    using ps' \<open>fst ` set ps \<subseteq> set SS\<close> b(1) by force
  moreover have "\<forall>a\<in>set SS. \<exists>sl. S' a = Some sl \<and> sl_entry sl = Ptr (a, 0) \<and>
        (\<forall>i. (a, i) \<in> set ps \<longleftrightarrow> i < unat (sl_entrycount sl))"
    using own eq by (simp add: ht_owned_def)
  moreover have "fst ` set ps' \<subseteq> set (b # SS)" using ps' \<open>fst ` set ps \<subseteq> set SS\<close> by auto
  ultimately show ?thesis using own b unfolding ht_owned_def by simp
qed

text \<open>
  With the free lock held, the loop ends with an entry at the head of the free chain: the one that
  is there, or the first entry of a new slab as large as the table.
\<close>

definition refilled ::
    "addr \<Rightarrow> world \<Rightarrow> hashtable \<Rightarrow> addr \<Rightarrow> nat \<Rightarrow> (nat \<Rightarrow> eaddr list) \<Rightarrow> eaddr list \<Rightarrow> addr list \<Rightarrow>
     eaddr \<Rightarrow> eaddr list \<Rightarrow> hashtable \<Rightarrow> addr list \<Rightarrow> world \<Rightarrow> bool" where
  "refilled h s t T n C F SS a F' t' SS' s' \<longleftrightarrow>
     ht_core h s' t' T n C (a # F') SS' \<and> (\<forall>x\<in>set SS'. x \<in> set SS \<or> w_brk s \<le> x) \<and>
     (\<exists>sp fc. t' = t\<lparr>ht_slabs := sp, ht_freechain := fc\<rparr>) \<and>
     w_mem s' = w_mem s \<and> w_mx s' = w_mx s \<and> w_brk s \<le> w_brk s' \<and>
     (\<forall>x. x \<noteq> h \<longrightarrow> w_tables s' x = w_tables s x) \<and>
     (\<forall>x<w_brk s. w_slabs s' x = w_slabs s x) \<and>
     (\<forall>p. fst p < w_brk s \<longrightarrow> w_ents s' p = w_ents s p \<and> w_rw s' (EntryLock p) = w_rw s (EntryLock p)) \<and>
     (\<forall>x. w_rw s' (TableLock x) = w_rw s (TableLock x) \<and> w_rw s' (FreeLock x) = w_rw s (FreeLock x)) \<and>
     (\<forall>p\<in>set (ht_ptrs T n C (a # F')). p \<in> set (ht_ptrs T n C F) \<or> w_rw s' (EntryLock p) = RW_Free) \<and>
     (slabs_end s t SS \<longrightarrow> slabs_end s' t' SS')"

lemma refilledD:
  assumes "refilled h s t T n C F SS a F' t' SS' s'"
  shows "ht_core h s' t' T n C (a # F') SS'" "\<exists>sp fc. t' = t\<lparr>ht_slabs := sp, ht_freechain := fc\<rparr>"
    "w_mem s' = w_mem s" "w_mx s' = w_mx s" "w_brk s \<le> w_brk s'"
    "\<And>x. x \<noteq> h \<Longrightarrow> w_tables s' x = w_tables s x" "\<And>x. x < w_brk s \<Longrightarrow> w_slabs s' x = w_slabs s x"
    "\<And>p. fst p < w_brk s \<Longrightarrow> w_ents s' p = w_ents s p"
    "\<And>p. fst p < w_brk s \<Longrightarrow> w_rw s' (EntryLock p) = w_rw s (EntryLock p)"
    "\<And>x. w_rw s' (TableLock x) = w_rw s (TableLock x)" "\<And>x. w_rw s' (FreeLock x) = w_rw s (FreeLock x)"
    "\<And>p. p \<in> set (ht_ptrs T n C (a # F')) \<Longrightarrow> p \<in> set (ht_ptrs T n C F) \<or> w_rw s' (EntryLock p) = RW_Free"
    "\<And>x. x \<in> set SS' \<Longrightarrow> x \<in> set SS \<or> w_brk s \<le> x" "slabs_end s t SS \<Longrightarrow> slabs_end s' t' SS'"
  using assms unfolding refilled_def by blast+


lemma ht_refill_full:
  assumes "ht_core h s t T n C (a # F) SS"
  shows "ht_refill env h dhte s = Some (Ptr a, s)"
proof -
  have "ht_freechain t = Ptr a"
    using ht_shapeD(2) [OF ht_coreD(10) [OF assms]] by (simp add: entry_chain_Cons)
  then show ?thesis using ht_coreD(1) [OF assms] by (subst ht_refill.simps) simp
qed

lemma ht_refill_empty:
  assumes env: "env_ok env" and core: "ht_core h s t T n C [] SS"
    and mx: "w_mx s (CounterMutex h Slabs) = MX_Free" "w_mx s (AverageMutex h Freechain) = MX_Free"
  obtains a F' t' SS' s' where "ht_refill env h dhte s = ht_refill env h dhte s'"
    "refilled h s t T n C [] SS a F' t' SS' s'"
proof -
  note D = ht_coreD [OF core]
  let ?b = "w_brk s" and ?n = "of_nat n :: u64"
  obtain sl0 where sl0: "w_slabs s T = Some sl0" "sl_entrycount sl0 = ?n" using D(6) by blast
  have n: "?n \<noteq> 0" "unat ?n = n" using of_nat_neq_0 unat_of_nat_u64 D(4,5) by simp_all
  have fc: "ht_freechain t = NULL" using ht_shapeD(2) [OF D(10)] by simp
  obtain s1 sl where run1: "ht_create_slab env ?n s = Some (Ptr ?b, s1)"
    and s1: "w_brk s1 = Suc ?b" "w_tables s1 = w_tables s" "w_mem s1 = w_mem s" "w_mx s1 = w_mx s"
      "w_slabs s1 = (w_slabs s)(?b \<mapsto> sl)"
      "w_ents s1 = (\<lambda>p. if fst p = ?b then if snd p < unat ?n then Some fresh_entry else None else w_ents s p)"
      "w_rw s1 = (\<lambda>l. if in_range ?b 0 (unat ?n) l then RW_Free else w_rw s l)"
    and sl: "sl_entry sl = Ptr (?b, 0)" "sl_entrycount sl = ?n"
    by (rule ht_create_slab_ok [OF env n(1), of s]) (simp add: n(2) D(15), rule that, assumption+)
  note s1 = s1 [unfolded n(2)]
  let ?t = "t\<lparr>ht_slabs := Ptr ?b\<rparr>" and ?sl = "sl\<lparr>sl_next := ht_slabs t\<rparr>"
  define s2 where "s2 = (counter_bump h Slabs 1 s1)\<lparr>w_slabs := (w_slabs s)(?b \<mapsto> ?sl),
     w_tables := (w_tables s)(h \<mapsto> ?t)\<rparr>"
  obtain E' fc' where run2: "ht_dangle h (?b, 0) n s2 =
      Some (s2\<lparr>w_ents := E', w_tables := (w_tables s2)(h \<mapsto> ?t\<lparr>ht_freechain := fc'\<rparr>)\<rparr>)"
    and E': "entry_chain E' fc' = Some (map (Pair ?b) [0..<n] @ [])"
      "\<And>p. fst p \<noteq> ?b \<or> n \<le> snd p \<Longrightarrow> E' p = w_ents s2 p"
      "\<And>p. map_option (\<lambda>e. e\<lparr>hte_next := NULL\<rparr>) (E' p) = map_option (\<lambda>e. e\<lparr>hte_next := NULL\<rparr>) (w_ents s2 p)"
    by (rule ht_dangle_ok [where s = s2 and t = ?t and F = "[]" and b = ?b and n = n and h = h])
      (use fc s1 in \<open>simp_all add: s2_def\<close>)
  let ?s3 = "s2\<lparr>w_ents := E', w_tables := (w_tables s2)(h \<mapsto> ?t\<lparr>ht_freechain := fc'\<rparr>)\<rparr>"
  let ?c = "av_current (w_avg ?s3 (h, Freechain)) + ?n"
  let ?s4 = "average_apply h Freechain (average_update 1 ?n ?c ?c) ?s3"
  have run: "ht_refill env h dhte s = ht_refill env h dhte ?s4"
    using D(1,2) sl0 fc run1 env mx s1 sl n(2) run2
    by (subst ht_refill.simps) (simp add: sync_simps s2_def)
  have fresh: "\<exists>e. E' (?b, i) = Some e \<and> \<not> occupied e \<and> lock_inited e" if "i < n" for i
  proof -
    have "w_ents s2 (?b, i) = Some fresh_entry" using that by (simp add: s2_def s1)
    with E'(3) [of "(?b, i)"] obtain e where "E' (?b, i) = Some e" "e\<lparr>hte_next := NULL\<rparr> = fresh_entry"
      by (auto simp: fresh_entry_def)
    then have "hte_flags e = hte_flags fresh_entry" by (metis hashtable_entry.select_convs(4) hashtable_entry.surjective hashtable_entry.update_convs(1))
    with \<open>E' (?b, i) = Some e\<close> show ?thesis
      using fresh_entry_flags by (simp add: occupied_def lock_inited_def)
  qed
  have lt: "fst p < ?b" if "p \<in> set (ht_ptrs T n C [])" for p
    using D(14) ht_ptrs_owned [OF D(12) that] by auto
  have old: "E' p = w_ents s p" if "fst p < ?b" for p
    using E'(2) [of p] that by (simp add: s2_def s1)
  have shape: "ht_shape E' fc' T n C (map (Pair ?b) [0..<n])"
    by (rule ht_shape_grow [OF D(10)]) (use lt old E'(1) fresh in fastforce)+
  obtain F' where F': "map (Pair ?b) [0..<n] = (?b, 0) # F'"
    using D(4) by (cases n) (auto simp: upt_conv_Cons simp del: upt_Suc)
  have ptrs: "set (ht_ptrs T n C (map (Pair ?b) [0..<n])) = set (ht_ptrs T n C []) \<union> Pair ?b ` {0..<n}"
    by (auto simp: set_ht_ptrs)
  have bSS: "?b \<notin> set SS" using D(14) by auto
  have own: "ht_owned (w_slabs ?s4) (Ptr ?b) (?b # SS) (ht_ptrs T n C (map (Pair ?b) [0..<n]))"
    by (rule ht_owned_grow [OF D(12) bSS, where sl = ?sl])
      (use ptrs sl n(2) bSS in \<open>auto simp: s2_def\<close>)
  have bk: "bucket E' (T, i) = bucket (w_ents s) (T, i)" if "i < n" for i
    by (rule bucket_cong [OF D(10) that]) (use lt old in blast)
  have keyed: "ht_keyed (w_mem s) E' t T n"
  proof (rule ht_keyed_cong [OF D(11) bk])
    show "E' p = w_ents s p" if "i < n" "p \<in> set (bucket (w_ents s) (T, i))" for i p
      using bucket_alloc(2) [OF D(10) that] that(1) by (auto intro!: old lt)
  qed auto
  have core': "ht_core h ?s4 (?t\<lparr>ht_freechain := fc'\<rparr>) T n C ((?b, 0) # F') (?b # SS)"
    unfolding ht_core_def F' [symmetric]
    using D shape own keyed s1 by (auto simp: s2_def ht_keyed_def ht_keylen_def)
  show thesis
  proof (rule that [OF run])
    show "refilled h s t T n C [] SS (?b, 0) F' (?t\<lparr>ht_freechain := fc'\<rparr>) (?b # SS) ?s4"
      unfolding refilled_def
    proof (intro conjI)
      show "\<forall>p\<in>set (ht_ptrs T n C ((?b, 0) # F')). p \<in> set (ht_ptrs T n C []) \<or> w_rw ?s4 (EntryLock p) = RW_Free"
        unfolding F' [symmetric] ptrs by (auto simp: s2_def s1)
      show "slabs_end s t SS \<longrightarrow> slabs_end ?s4 (?t\<lparr>ht_freechain := fc'\<rparr>) (?b # SS)"
      proof
        assume "slabs_end s t SS"
        then have "slab_chain (w_slabs ?s4) (ht_slabs t) = Some SS" by (rule slab_chain_cong) (use bSS in \<open>auto simp: s2_def\<close>)
        then show "slabs_end ?s4 (?t\<lparr>ht_freechain := fc'\<rparr>) (?b # SS)" by (simp add: s2_def)
      qed
    qed (use core' old in \<open>auto simp: s2_def s1\<close>)
  qed
qed

lemma ht_refill_ok:
  assumes env: "env_ok env" and core: "ht_core h s t T n C F SS"
    and mx: "w_mx s (CounterMutex h Slabs) = MX_Free" "w_mx s (AverageMutex h Freechain) = MX_Free"
  obtains a F' t' SS' s' where "ht_refill env h dhte s = Some (Ptr a, s')"
    "refilled h s t T n C F SS a F' t' SS' s'"
proof (cases F)
  case Nil
  show ?thesis
  proof (rule ht_refill_empty [OF env core [unfolded Nil] mx, of dhte])
    fix a F' t' SS' s'
    assume run: "ht_refill env h dhte s = ht_refill env h dhte s'"
      and r: "refilled h s t T n C [] SS a F' t' SS' s'"
    show thesis
      using run r Nil ht_refill_full [OF refilledD(1) [OF r]] by (intro that) auto
  qed
next
  case (Cons a F')
  have "\<exists>sp fc. t = t\<lparr>ht_slabs := sp, ht_freechain := fc\<rparr>"
    by (rule exI [of _ "ht_slabs t"], rule exI [of _ "ht_freechain t"]) simp
  with core Cons have "refilled h s t T n C F SS a F' t SS s" by (simp add: refilled_def)
  with core Cons that show ?thesis using ht_refill_full by blast
qed

end
