(* ===== verification/HT_Create.thy ===== *)
theory HT_Create
  imports HT_Slab
begin

text \<open>
  \<^verbatim>\<open>ht_create\<close>: a new table is well-formed and empty, and every other table is as it was.
\<close>

section \<open>Creating a table\<close>

definition ctr_init :: "addr \<Rightarrow> ht_counter \<Rightarrow> world \<Rightarrow> world" where
  "ctr_init h c s = s\<lparr>w_tick := Suc (w_tick s), w_ctr := (w_ctr s)((h, c) := 0),
     w_mx := (w_mx s)(CounterMutex h c := MX_Free)\<rparr>"

definition avg_init :: "addr \<Rightarrow> ht_average \<Rightarrow> world \<Rightarrow> world" where
  "avg_init h a s = s\<lparr>w_tick := Suc (w_tick s),
     w_avg := (w_avg s)((h, a) := \<lparr>av_count = 0, av_sum = 0, av_current = 0, av_maximum = 0\<rparr>),
     w_mx := (w_mx s)(AverageMutex h a := MX_Free)\<rparr>"

lemma ctr_init_simps [simp]:
  "w_mem (ctr_init h c s) = w_mem s"
  "w_brk (ctr_init h c s) = w_brk s" "w_tables (ctr_init h c s) = w_tables s"
  "w_slabs (ctr_init h c s) = w_slabs s" "w_ents (ctr_init h c s) = w_ents s"
  "w_rw (ctr_init h c s) = w_rw s" "w_mx (ctr_init h c s) = (w_mx s)(CounterMutex h c := MX_Free)"
  by (simp_all add: ctr_init_def)

lemma avg_init_simps [simp]:
  "w_mem (avg_init h a s) = w_mem s"
  "w_brk (avg_init h a s) = w_brk s" "w_tables (avg_init h a s) = w_tables s"
  "w_slabs (avg_init h a s) = w_slabs s" "w_ents (avg_init h a s) = w_ents s"
  "w_rw (avg_init h a s) = w_rw s" "w_mx (avg_init h a s) = (w_mx s)(AverageMutex h a := MX_Free)"
  by (simp_all add: avg_init_def)

lemma stat_init_ok [sync_simps]:
  "env_ok env \<Longrightarrow> ht_counter_init env h c s = Some (0, ctr_init h c s)"
  "env_ok env \<Longrightarrow> ht_average_init env h a s = Some (0, avg_init h a s)"
  by (cases s; simp add: ht_counter_init_def ht_average_init_def sync_simps mx_set_def ctr_init_def avg_init_def)+

lemma all_mutexes:
  assumes "\<And>c. f (CounterMutex h c) = MX_Free" "\<And>a. f (AverageMutex h a) = MX_Free" "f (ResizeMutex h) = MX_Free"
    "mutex_of_table h m"
  shows "f m = MX_Free"
  using assms by (cases m) auto

section \<open>A new table\<close>

lemma ht_create_spec:
  assumes env: "env_ok env" and n: "numents \<noteq> 0" "slab_fits (unat numents)"
  obtains s' t T where "ht_create env numents keysize options s = Some (Ptr (w_brk s), s')"
    "ht_inv (w_brk s) s' t T (unat numents) (\<lambda>_. []) [] [T]" "ht_pairs (w_brk s) s' = []"
    "ht_options t = options" "ht_keysize t = ucast keysize" "ht_old t = ht_old (raw_table env (w_tick s))" "T = Suc (w_brk s)"
    "ht_frame {} {} s s'"
proof -
  let ?h = "w_brk s"
  let ?t0 = "(raw_table env (w_tick s))\<lparr>ht_keysize := ucast keysize, ht_options := options,
                       ht_threshold_evaluate := Ptr ht_evaluate_threshold_default,
                       ht_hash_compute := ht_hash_bytes, ht_key_compare := bcmp,
                       ht_freechain := NULL\<rparr>"
  let ?s0 = "(snd (malloc_table env s))\<lparr>w_tables := (w_tables s)(?h \<mapsto> ?t0)\<rparr>"
  define s1 where "s1 = mx_set (ResizeMutex ?h) MX_Free (tick (rw_set (FreeLock ?h) RW_Free (tick
     (rw_set (TableLock ?h) RW_Free (tick (ctr_init ?h Slabs (ctr_init ?h Resizes
     (ctr_init ?h Probes (ctr_init ?h Inserts (ctr_init ?h Hits (ctr_init ?h Errors
     (ctr_init ?h Deletes (avg_init ?h Searches (avg_init ?h Freechain
     (avg_init ?h Depth ?s0)))))))))))))))"
  have s1: "w_brk s1 = Suc ?h" "w_tables s1 = (w_tables s)(?h \<mapsto> ?t0)" "w_mem s1 = w_mem s"
      "w_slabs s1 = w_slabs s" "w_ents s1 = w_ents s"
      "w_rw s1 = (w_rw s)(TableLock ?h := RW_Free, FreeLock ?h := RW_Free)"
    using env by (simp_all add: s1_def malloc_table_def)
  have mx1: "w_mx s1 m = MX_Free" if "mutex_of_table ?h m" for m
  proof (rule all_mutexes [OF _ _ _ that])
    show "w_mx s1 (CounterMutex ?h c) = MX_Free" for c by (cases c) (simp_all add: s1_def)
    show "w_mx s1 (AverageMutex ?h a) = MX_Free" for a by (cases a) (simp_all add: s1_def)
  qed (simp add: s1_def)
  have mx0: "w_mx s1 m = w_mx s m" if "mutex_of_table h' m" "h' < ?h" for h' m
    using that env by (cases m) (auto simp: s1_def malloc_table_def)
  obtain s2 sl where run2: "ht_create_slab env numents s1 = Some (Ptr (w_brk s1), s2)"
    and s2: "w_brk s2 = Suc (w_brk s1)" "w_tables s2 = w_tables s1" "w_mem s2 = w_mem s1" "w_mx s2 = w_mx s1"
    "w_slabs s2 = (w_slabs s1)(w_brk s1 \<mapsto> sl)"
    "w_ents s2 = (\<lambda>p. if fst p = w_brk s1 then if snd p < unat numents then Some fresh_entry else None
                      else w_ents s1 p)"
    "w_rw s2 = (\<lambda>l. if in_range (w_brk s1) 0 (unat numents) l then RW_Free else w_rw s1 l)"
    and sl: "sl_entry sl = Ptr (w_brk s1, 0)" "sl_entrycount sl = numents"
      "sl_next sl = sl_next (raw_slab env (w_tick s1))"
    by (rule ht_create_slab_ok [OF env n, of s1]) (rule that, assumption+)
  note s2 = s2 [unfolded s1] and sl = sl [unfolded s1]
  let ?t = "?t0\<lparr>ht_slabs := Ptr (Suc ?h), ht_table := Ptr (Suc ?h)\<rparr>"
  let ?s3 = "counter_bump ?h Slabs 1 (s2\<lparr>w_tables := (w_tables s2)(?h \<mapsto> ?t)\<rparr>)"
  have run: "ht_create env numents keysize options s = Some (Ptr ?h, ?s3)"
    using env n(1) run2 s1(1) s2(2) mx1 [of "CounterMutex ?h Slabs"] s2(4) unfolding s1_def
    by (simp add: ht_create_def malloc_table_def sync_simps)
  show thesis
  proof (rule that [OF run])
    have ents: "w_ents ?s3 (Suc ?h, i) = (if i < unat numents then Some fresh_entry else None)" for i
      using s2 by simp
    have n0: "0 < unat numents" using n by (simp add: unat_gt_0)
    have bk: "bucket (w_ents ?s3) (Suc ?h, i) = []" for i
      using ents [of i] by (simp add: bucket_def)
    have nil: "concat (map (\<lambda>_. []) xs) = []" for xs :: "nat list" by (induction xs) auto
    have shape: "ht_shape (w_ents ?s3) (ht_freechain ?t) (Suc ?h) (unat numents) (\<lambda>_. []) []"
      using ents by (intro ht_shapeI) (auto simp: ht_ptrs_def distinct_map inj_on_def nil split: if_splits)
    have own: "ht_owned (w_slabs ?s3) (ht_slabs ?t) [Suc ?h] (ht_ptrs (Suc ?h) (unat numents) (\<lambda>_. []) [])"
      using s2 sl by (auto simp: ht_owned_def ht_ptrs_def)
    have keyed: "ht_keyed (w_mem ?s3) (w_ents ?s3) ?t (Suc ?h) (unat numents)"
      unfolding ht_keyed_def bk by simp
    have core: "ht_core ?h ?s3 ?t (Suc ?h) (unat numents) (\<lambda>_. []) [] [Suc ?h]"
      unfolding ht_core_def using shape keyed own n0 s2(1,2,5) sl(1,2) n(2) by simp
    have "ht_unlocked ?h ?s3 (ht_ptrs (Suc ?h) (unat numents) (\<lambda>_. []) [])"
      unfolding ht_unlocked_def
    proof (intro conjI allI impI ballI)
      show "w_mx ?s3 m = MX_Free" if "mutex_of_table ?h m" for m
        using mx1 [OF that] s2(4) by simp
    qed (use s2 in \<open>auto simp: ht_ptrs_def\<close>)
    with core show "ht_inv ?h ?s3 ?t (Suc ?h) (unat numents) (\<lambda>_. []) [] [Suc ?h]" by (simp add: ht_inv_def)
    show "ht_pairs ?h ?s3 = []" unfolding ht_pairs_eq [OF core] bk by simp
    show "ht_frame {} {} s ?s3"
      unfolding ht_frame_def
    proof (intro conjI allI impI)
      fix h' l assume "h' < ?h" "lock_of_table h' l"
      then show "w_rw ?s3 l = w_rw s l" using s2 by (cases l) auto
    next
      fix h' m assume "h' < ?h" "mutex_of_table h' m"
      then show "w_mx ?s3 m = w_mx s m" using s2 mx0 by simp
    qed (use s2 in auto)
  qed simp_all
qed

text \<open>A number of entries whose block \<^verbatim>\<open>size_t\<close> cannot hold.\<close>

lemma ht_create_wraps:
  assumes env: "env_ok env" and n: "\<not> slab_fits (unat numents)"
  shows "ht_create env numents keysize options s = None"
proof -
  have "numents \<noteq> 0" using n by (auto simp: slab_fits_def sizeof_slab_def sizeof_entry_def)
  then show ?thesis using env ht_create_slab_wraps [OF env n] by (simp add: ht_create_def malloc_table_def sync_simps)
qed

lemma ht_create_zero: "ht_create env 0 keysize options s = Some (NULL, set_errno EINVAL s)"
  by (simp add: ht_create_def)

end
