(* ===== verification/HT_Locate.thy ===== *)
theory HT_Locate
  imports HT_View
begin

text \<open>
  The search of \<^verbatim>\<open>libhashtable.c\<close>: the hand-over-hand walk down a bucket, the three functions
  built on it, and the lemma that \<^verbatim>\<open>ht_locate_key\<close> returns what the map of the table says and
  leaves the data and all locks as they were.
\<close>

section \<open>Hand over hand\<close>

fun lockfunc_mode :: "lockfunc \<Rightarrow> rwlock" where
  "lockfunc_mode Rdlock = RW_Read 1"
| "lockfunc_mode Wrlock = RW_Write"

definition hold :: "rwlock \<Rightarrow> eaddr list \<Rightarrow> (lock_addr \<Rightarrow> rwlock) \<Rightarrow> lock_addr \<Rightarrow> rwlock" where
  "hold L ps R = (\<lambda>l. if l \<in> EntryLock ` set ps then L else R l)"

fun ptr_list :: "'a ptr \<Rightarrow> 'a list" where
  "ptr_list NULL = []"
| "ptr_list (Ptr a) = [a]"

lemma hold_Nil [simp]: "hold L [] R = R"
  by (simp add: hold_def)

lemma hold_apply: "hold L ps R (EntryLock p) = (if p \<in> set ps then L else R (EntryLock p))"
  by (auto simp: hold_def)

lemma hold_acquire: "(hold L ps R)(EntryLock p := L) = hold L (ps @ [p]) R"
  by (auto simp: hold_def fun_eq_iff)

lemma hold_release:
  "R (EntryLock p) = RW_Free \<Longrightarrow> p \<notin> set ps \<Longrightarrow> (hold L (p # ps) R)(EntryLock p := RW_Free) = hold L ps R"
  by (auto simp: hold_def fun_eq_iff)

lemma hold_TableLock [simp]: "hold L ps R (TableLock h) = R (TableLock h)"
  by (auto simp: hold_def)

lemma lockfunc_call_ok [sync_simps]:
  "env_ok env \<Longrightarrow> w_rw s l = RW_Free \<Longrightarrow>
     lockfunc_call env lf l s = Some (0, rw_set l (lockfunc_mode lf) (tick s))"
  by (cases lf) (simp_all add: sync_simps)

lemma rw_unlock_mode [sync_simps]:
  "env_ok env \<Longrightarrow> w_rw s l = lockfunc_mode lf \<Longrightarrow> rw_unlock env l s = Some (0, rw_set l RW_Free (tick s))"
  by (cases lf) (simp_all add: sync_simps)

lemma locate_loop_step:
  assumes "w_tables s h = Some t" "ht_key_compare t = bcmp" "w_ents s d = Some e"
  shows "ht_locate_loop env h key lf d p depth s =
    (if key_at (w_mem s) t (w_ents s) key d then Some ((Ptr d, p, depth), s)
     else (case hte_next e of
         NULL \<Rightarrow> do {
           (_, s) \<leftarrow> unlock_ptr env p (set_errno ENOENT s);
           (_, s) \<leftarrow> rw_unlock env (EntryLock d) s;
           (_, s) \<leftarrow> ht_average_increment env h Searches (scast (depth + 1)) s;
           Some ((NULL, NULL, depth + 1), s) }
       | Ptr d' \<Rightarrow> do {
           (r, s) \<leftarrow> lockfunc_call env lf (EntryLock d') s;
           if r \<noteq> 0
           then do {
             (_, s) \<leftarrow> unlock_ptr env p s;
             (_, s) \<leftarrow> rw_unlock env (EntryLock d) s;
             (_, s) \<leftarrow> ht_average_increment env h Searches (scast (depth + 1)) s;
             (_, s) \<leftarrow> ht_counter_add env h Errors 1 s;
             Some ((NULL, NULL, depth + 1), s) }
           else do {
             (ret, s) \<leftarrow> unlock_ptr env p s;
             if ret \<noteq> 0
             then do {
               (_, s) \<leftarrow> rw_unlock env (EntryLock d) s;
               (_, s) \<leftarrow> rw_unlock env (EntryLock d') s;
               (_, s) \<leftarrow> ht_average_increment env h Searches (scast (depth + 1)) s;
               (_, s) \<leftarrow> ht_counter_add env h Errors 1 s;
               Some ((NULL, NULL, depth + 1), set_errno ret s) }
             else ht_locate_loop env h key lf d' (Ptr d) (depth + 1) s } }))"
  using assms by (subst ht_locate_loop.simps) (simp add: key_at_def ht_keylen_def Let_def cong: if_cong ptr.case_cong)

lemma locate_loop_next:
  assumes env: "env_ok env" and t: "w_tables s h = Some t" "ht_key_compare t = bcmp"
    and e: "w_ents s d = Some e" "hte_next e = Ptr d'" "\<not> key_at (w_mem s) t (w_ents s) key d"
    and rw: "w_rw s = hold (lockfunc_mode lf) (ptr_list p @ [d]) R"
    and free: "\<forall>q \<in> set (ptr_list p @ [d, d']). R (EntryLock q) = RW_Free"
    and dist: "distinct (ptr_list p @ [d, d'])"
  obtains s' where "ht_locate_loop env h key lf d p depth s = ht_locate_loop env h key lf d' (Ptr d) (depth + 1) s'"
    "same_data s s'" "w_rw s' = hold (lockfunc_mode lf) [d, d'] R"
proof (cases p)
  case NULL
  let ?s = "rw_set (EntryLock d') (lockfunc_mode lf) (tick s)"
  show ?thesis
  proof (rule that)
    show "ht_locate_loop env h key lf d p depth s = ht_locate_loop env h key lf d' (Ptr d) (depth + 1) ?s"
      using assms NULL by (simp add: locate_loop_step [OF t e(1)] sync_simps hold_apply unlock_ptr_def)
  qed (use assms NULL in \<open>simp_all add: same_data_def hold_acquire\<close>)
next
  case (Ptr a)
  have locks: "w_rw s (EntryLock d') = RW_Free" "w_rw s (EntryLock a) = lockfunc_mode lf" "a \<noteq> d'"
    using rw free dist Ptr by (auto simp: hold_apply)
  let ?s = "rw_set (EntryLock a) RW_Free (tick (rw_set (EntryLock d') (lockfunc_mode lf) (tick s)))"
  show ?thesis
  proof (rule that)
    show "ht_locate_loop env h key lf d p depth s = ht_locate_loop env h key lf d' (Ptr d) (depth + 1) ?s"
      using env e Ptr locks by (simp add: locate_loop_step [OF t e(1)] sync_simps unlock_ptr_def)
    have "(hold (lockfunc_mode lf) (a # [d, d']) R)(EntryLock a := RW_Free) = hold (lockfunc_mode lf) [d, d'] R"
      using free dist Ptr by (intro hold_release) auto
    then show "w_rw ?s = hold (lockfunc_mode lf) [d, d'] R"
      using rw Ptr by (simp add: hold_acquire)
  qed (simp add: same_data_def)
qed

lemma locate_loop_end:
  assumes env: "env_ok env" and t: "w_tables s h = Some t" "ht_key_compare t = bcmp"
    and mx: "w_mx s (AverageMutex h Searches) = MX_Free"
    and e: "w_ents s d = Some e" "hte_next e = NULL" "\<not> key_at (w_mem s) t (w_ents s) key d"
    and rw: "w_rw s = hold (lockfunc_mode lf) (ptr_list p @ [d]) R"
    and free: "\<forall>q \<in> set (ptr_list p @ [d]). R (EntryLock q) = RW_Free"
    and dist: "distinct (ptr_list p @ [d])"
  shows "runs (ht_locate_loop env h key lf d p depth s)
    (\<lambda>(f, _) s'. f = NULL \<and> w_errno s' = ENOENT \<and> same_data s s' \<and> w_rw s' = R)"
proof (cases p)
  case NULL
  have "(hold (lockfunc_mode lf) [d] R)(EntryLock d := RW_Free) = R"
    using free by (simp add: hold_release)
  with assms NULL show ?thesis
    by (simp add: locate_loop_step [OF t e(1)] sync_simps hold_apply unlock_ptr_def same_data_def)
next
  case (Ptr a)
  have "(hold (lockfunc_mode lf) [a, d] R)(EntryLock a := RW_Free, EntryLock d := RW_Free) = R"
    using free dist Ptr by (simp add: hold_release)
  with assms Ptr show ?thesis
    by (simp add: locate_loop_step [OF t e(1)] sync_simps hold_apply unlock_ptr_def same_data_def)
qed

lemma locate_loop_miss:
  assumes env: "env_ok env" and t: "w_tables s h = Some t" "ht_key_compare t = bcmp"
    and mx: "w_mx s (AverageMutex h Searches) = MX_Free"
    and ch: "entry_chain (w_ents s) (Ptr d) = Some (d # ps)"
    and no: "\<forall>q \<in> set (d # ps). \<not> key_at (w_mem s) t (w_ents s) key q"
    and rw: "w_rw s = hold (lockfunc_mode lf) (ptr_list p @ [d]) R"
    and free: "\<forall>q \<in> set (ptr_list p @ d # ps). R (EntryLock q) = RW_Free"
    and dist: "distinct (ptr_list p @ d # ps)"
  shows "runs (ht_locate_loop env h key lf d p depth s)
    (\<lambda>(f, _) s'. f = NULL \<and> w_errno s' = ENOENT \<and> same_data s s' \<and> w_rw s' = R)"
  using t mx ch no rw free dist
proof (induction ps arbitrary: d p depth s)
  case Nil
  then obtain e where e: "w_ents s d = Some e" "hte_next e = NULL" by (auto simp: entry_chain_Cons simp del: entry_chain_Ptr)
  show ?case by (rule locate_loop_end [OF env Nil.prems(1,2,3) e]) (use Nil.prems in auto)
next
  case (Cons d' ps)
  then obtain e where e: "w_ents s d = Some e" "hte_next e = Ptr d'"
      and ch': "entry_chain (w_ents s) (Ptr d') = Some (d' # ps)"
    by (auto simp: entry_chain_Cons simp del: entry_chain_Ptr)
  obtain s' where s': "ht_locate_loop env h key lf d p depth s = ht_locate_loop env h key lf d' (Ptr d) (depth + 1) s'"
    "same_data s s'" "w_rw s' = hold (lockfunc_mode lf) [d, d'] R"
    by (rule locate_loop_next [OF env Cons.prems(1,2) e, where key = key and lf = lf and p = p and R = R and depth = depth])
      (use Cons.prems in auto)
  have "runs (ht_locate_loop env h key lf d' (Ptr d) (depth + 1) s')
    (\<lambda>(f, _) s''. f = NULL \<and> w_errno s'' = ENOENT \<and> same_data s' s'' \<and> w_rw s'' = R)"
    using Cons.prems ch' s'(2,3) by (intro Cons.IH) (auto simp: same_dataD simp del: entry_chain_Ptr)
  then show ?case unfolding s'(1) by (rule runs_mono) (use s'(2) in \<open>auto simp: same_data_def\<close>)
qed

lemma locate_loop_hit:
  assumes env: "env_ok env" and t: "w_tables s h = Some t" "ht_key_compare t = bcmp"
    and ch: "entry_chain (w_ents s) (Ptr d) = Some ps"
    and ps: "ps = xs @ q # ys"
    and no: "\<forall>x \<in> set xs. \<not> key_at (w_mem s) t (w_ents s) key x"
    and yes: "key_at (w_mem s) t (w_ents s) key q"
    and rw: "w_rw s = hold (lockfunc_mode lf) (ptr_list p @ [d]) R"
    and free: "\<forall>q \<in> set (ptr_list p @ ps). R (EntryLock q) = RW_Free"
    and dist: "distinct (ptr_list p @ ps)"
  shows "runs (ht_locate_loop env h key lf d p depth s)
    (\<lambda>(f, p', _) s'. f = Ptr q \<and> p' = (if xs = [] then p else Ptr (last xs)) \<and> same_data s s' \<and>
        w_rw s' = hold (lockfunc_mode lf) (ptr_list p' @ [q]) R)"
  using t ch ps no yes rw free dist
proof (induction xs arbitrary: d p depth s ps)
  case Nil
  then have "d = q" by (auto split: option.splits)
  then obtain e where "w_ents s q = Some e" using Nil.prems by (auto simp: key_at_def)
  with Nil.prems \<open>d = q\<close> show ?case
    by (simp add: locate_loop_step [OF Nil.prems(1,2)] same_data_def)
next
  case (Cons x xs)
  then obtain e where e: "w_ents s d = Some e" "d = x" 
      and ch': "entry_chain (w_ents s) (hte_next e) = Some (xs @ q # ys)"
    by (auto simp: entry_chain_Cons simp del: entry_chain_Ptr)
  then obtain d' where d': "hte_next e = Ptr d'" "d' \<in> set (xs @ q # ys)"
    by (cases "hte_next e"; cases xs) (auto split: option.splits)
  obtain s' where s': "ht_locate_loop env h key lf d p depth s = ht_locate_loop env h key lf d' (Ptr d) (depth + 1) s'"
    "same_data s s'" "w_rw s' = hold (lockfunc_mode lf) [d, d'] R"
    by (rule locate_loop_next [OF env Cons.prems(1,2) e(1) d'(1), where key = key and lf = lf and p = p and R = R and depth = depth])
      (use Cons.prems e d' in auto)
  have "runs (ht_locate_loop env h key lf d' (Ptr d) (depth + 1) s')
    (\<lambda>(f, p', _) s''. f = Ptr q \<and> p' = (if xs = [] then Ptr d else Ptr (last xs)) \<and> same_data s' s'' \<and>
        w_rw s'' = hold (lockfunc_mode lf) (ptr_list p' @ [q]) R)"
    using Cons.prems ch' s'(2,3) e d' by (intro Cons.IH [where ps = "xs @ q # ys"]) (auto simp: same_dataD simp del: entry_chain_Ptr)
  then show ?case unfolding s'(1) by (rule runs_mono) (use s'(2) e(2) in \<open>auto simp: same_data_def\<close>)
qed
section \<open>Locating\<close>

text \<open>
  The internal search, with the table lock held by the caller and the locks of the entries free.
\<close>

lemma locate_entry_int:
  fixes key :: u64
  assumes env: "env_ok env" and core: "ht_core h s t T n C F SS"
    and ents: "\<And>p. p \<in> set (ht_ptrs T n C F) \<Longrightarrow> w_rw s (EntryLock p) = RW_Free"
    and mx: "\<And>c. w_mx s (CounterMutex h c) = MX_Free" "\<And>a. w_mx s (AverageMutex h a) = MX_Free"
  defines "i \<equiv> hash_index (w_mem s) t n key"
  shows "(\<And>p. p \<in> set (bucket (w_ents s) (T, i)) \<Longrightarrow> \<not> key_at (w_mem s) t (w_ents s) key p) \<Longrightarrow>
      runs (ht_locate_entry_int env h key lf want s)
        (\<lambda>(f, p) s'. f = NULL \<and> w_errno s' = ENOENT \<and> same_data s s' \<and> w_rw s' = w_rw s)"
    and "bucket (w_ents s) (T, i) = xs @ q # ys \<Longrightarrow>
      (\<And>p. p \<in> set xs \<Longrightarrow> \<not> key_at (w_mem s) t (w_ents s) key p) \<Longrightarrow>
      key_at (w_mem s) t (w_ents s) key q \<Longrightarrow>
      runs (ht_locate_entry_int env h key lf want s)
        (\<lambda>(f, p) s'. f = Ptr q \<and> p = (if want \<and> xs \<noteq> [] then Ptr (last xs) else NULL) \<and>
           same_data s s' \<and> w_rw s' = hold (lockfunc_mode lf) (ptr_list p @ [q]) (w_rw s))"
proof -
  note D = ht_coreD [OF core]
  have i: "i < n" unfolding i_def by (rule hash_index_less [OF D(4,5)])
  obtain e where e: "w_ents s (T, i) = Some e" "entry_chain (w_ents s) (hte_next e) = Some (C i)"
    using ht_shapeD(3) [OF D(10) i] by blast
  let ?s1 = "rw_set (EntryLock (T, i)) (lockfunc_mode lf) (tick (counter_bump h Probes 1 s))"
  have slot: "ht_slot h key (counter_bump h Probes 1 s) = Some (T, i)"
    using ht_slot_eq [OF core, of key] unfolding ht_slot_def i_def by simp
  have free: "w_rw s (EntryLock (T, i)) = RW_Free" using ents i by blast
  have bk: "bucket (w_ents s) (T, i) = (if occupied e then (T, i) # C i else [])"
    by (rule bucket_eq [OF D(10) i e(1)])
  note start = ht_locate_entry_int_def slot sync_simps env mx free flags_occupied_eq_0 e(1)
  have rw1: "w_rw ?s1 = hold (lockfunc_mode lf) (ptr_list NULL @ [(T, i)]) (w_rw s)"
    using hold_acquire [of "lockfunc_mode lf" "[]"] by simp
  have ch: "entry_chain (w_ents ?s1) (Ptr (T, i)) = Some ((T, i) # C i)" using e by simp
  have dist: "distinct ((T, i) # C i)" using ht_shapeD(4,8) [OF D(10)] i by auto
  have locks: "\<forall>q\<in>set ((T, i) # C i). w_rw s (EntryLock q) = RW_Free"
    using ents i by (auto intro: chain_in_ptrs)
  { assume no: "\<And>p. p \<in> set (bucket (w_ents s) (T, i)) \<Longrightarrow> \<not> key_at (w_mem s) t (w_ents s) key p"
    show "runs (ht_locate_entry_int env h key lf want s)
        (\<lambda>(f, p) s'. f = NULL \<and> w_errno s' = ENOENT \<and> same_data s s' \<and> w_rw s' = w_rw s)"
    proof (cases "occupied e")
      case False
      have "(w_rw s)(EntryLock (T, i) := lockfunc_mode lf, EntryLock (T, i) := RW_Free) = w_rw s"
        using free by (simp add: fun_upd_idem)
      with False show ?thesis by (simp add: start)
    next
      case True
      have "runs (ht_locate_loop env h key lf (T, i) NULL 0 ?s1)
        (\<lambda>(f, _) s'. f = NULL \<and> w_errno s' = ENOENT \<and> same_data ?s1 s' \<and> w_rw s' = w_rw s)"
        using D(1,8) mx ch rw1 dist locks no bk True
        by (intro locate_loop_miss [OF env, where t = t and ps = "C i"]) auto
      with True show ?thesis by (auto simp add: start runs_def same_data_def)
    qed }
  assume q: "bucket (w_ents s) (T, i) = xs @ q # ys"
    "\<And>p. p \<in> set xs \<Longrightarrow> \<not> key_at (w_mem s) t (w_ents s) key p" "key_at (w_mem s) t (w_ents s) key q"
  then have occ: "occupied e" and qs: "(T, i) # C i = xs @ q # ys" using bk by (auto split: if_splits)
  have "runs (ht_locate_loop env h key lf (T, i) NULL 0 ?s1)
    (\<lambda>(f, p', _) s'. f = Ptr q \<and> p' = (if xs = [] then NULL else Ptr (last xs)) \<and> same_data ?s1 s' \<and>
        w_rw s' = hold (lockfunc_mode lf) (ptr_list p' @ [q]) (w_rw s))"
    using D(1,8) ch rw1 dist locks q(2,3) qs
    by (intro locate_loop_hit [OF env, where t = t and ps = "(T, i) # C i" and ys = ys]) auto
  then obtain s2 d where s2: "ht_locate_loop env h key lf (T, i) NULL 0 ?s1
        = Some ((Ptr q, if xs = [] then NULL else Ptr (last xs), d), s2)"
      "same_data s s2" "w_rw s2 = hold (lockfunc_mode lf) (ptr_list (if xs = [] then NULL else Ptr (last xs)) @ [q]) (w_rw s)"
    by (auto simp: runs_def)
  have mx2: "w_mx s2 (AverageMutex h a) = MX_Free" "w_mx s2 (CounterMutex h c) = MX_Free" for a c
    using mx s2(2) by (simp_all add: same_dataD)
  show "runs (ht_locate_entry_int env h key lf want s)
        (\<lambda>(f, p) s'. f = Ptr q \<and> p = (if want \<and> xs \<noteq> [] then Ptr (last xs) else NULL) \<and>
           same_data s s' \<and> w_rw s' = hold (lockfunc_mode lf) (ptr_list p @ [q]) (w_rw s))"
  proof (cases "want \<or> xs = []")
    case True
    then show ?thesis using occ s2 mx2 by (auto simp: start unlock_ptr_def)
  next
    case False
    then have "last xs \<in> set xs" by simp
    then have l: "w_rw s (EntryLock (last xs)) = RW_Free" "last xs \<noteq> q"
      using locks dist unfolding qs by auto
    have "(hold (lockfunc_mode lf) [last xs, q] (w_rw s))(EntryLock (last xs) := RW_Free)
        = hold (lockfunc_mode lf) [q] (w_rw s)"
      using l by (intro hold_release) auto
    then show ?thesis using False occ s2 mx2 by (simp add: start unlock_ptr_def hold_apply)
  qed
qed

lemma locate_entry:
  assumes env: "env_ok env" and inv: "ht_inv h s t T n C F SS"
  shows "runs (ht_locate_entry env h key s) (\<lambda>p s'. same_data s s' \<and>
    (case p of
       NULL \<Rightarrow> ht_map h s (ht_key h s key) = None \<and> w_errno s' = ENOENT \<and> w_rw s' = w_rw s
     | Ptr q \<Rightarrow> (\<exists>e. w_ents s q = Some e \<and> ht_map h s (ht_key h s key) = Some (hte_data e)) \<and>
         w_rw s (EntryLock q) = RW_Free \<and> w_rw s' = (w_rw s)(EntryLock q := RW_Read 1)))"
proof -
  have core: "ht_core h s t T n C F SS" and ul: "ht_unlocked h s (ht_ptrs T n C F)"
    using inv by (simp_all add: ht_inv_def)
  note D = ht_coreD [OF core] and U = ht_unlockedD [OF ul]
  let ?s1 = "set_errno 0 (rw_set (TableLock h) (RW_Read 1) (tick s))"
  have lock: "rw_rdlock env (TableLock h) s = Some (0, rw_set (TableLock h) (RW_Read 1) (tick s))"
    using env U by (simp add: sync_simps)
  have core1: "ht_core h ?s1 t T n C F SS" using core by (subst ht_core_cong [of s]) auto
  have tl: "(w_rw s)(TableLock h := RW_Read 1, TableLock h := RW_Free) = w_rw s"
    using U by (simp add: fun_upd_idem)
  note int = locate_entry_int [OF env core1]
  from core show ?thesis
  proof (cases rule: ht_map_cases [where key = key])
    case none
    then have "runs (ht_locate_entry_int env h key Rdlock False ?s1)
        (\<lambda>(f, p) s'. f = NULL \<and> w_errno s' = ENOENT \<and> same_data s s' \<and> w_rw s' = w_rw ?s1)"
      using int(1) [where lf = Rdlock and want = False and key = key] U by simp
    then obtain s2 p where s2: "ht_locate_entry_int env h key Rdlock False ?s1 = Some ((NULL, p), s2)"
      "w_errno s2 = ENOENT" "same_data s s2" "w_rw s2 = (w_rw s)(TableLock h := RW_Read 1)"
      by (auto simp: runs_def)
    with none(1) tl env show ?thesis
      by (simp add: ht_locate_entry_def lock sync_simps)
  next
    case (some xs q ys e)
    have q: "w_rw s (EntryLock q) = RW_Free"
    proof -
      have "q \<in> set ((T, hash_index (w_mem s) t n key) # C (hash_index (w_mem s) t n key))"
        using bucket_alloc(2) [OF D(10) hash_index_less [OF D(4,5)], of q "w_mem s" t key] some(1) by auto
      then show ?thesis using hash_index_less [OF D(4,5)] by (intro U(3)) (auto intro: chain_in_ptrs)
    qed
    have "runs (ht_locate_entry_int env h key Rdlock False ?s1)
        (\<lambda>(f, p) s'. f = Ptr q \<and> p = NULL \<and> same_data s s' \<and> w_rw s' = hold (RW_Read 1) [q] (w_rw ?s1))"
      using int(2) [where lf = Rdlock and want = False and key = key and xs = xs and q = q and ys = ys] some U 
      by (auto simp: runs_def)
    then obtain s2 where s2: "ht_locate_entry_int env h key Rdlock False ?s1 = Some ((Ptr q, NULL), s2)"
      "same_data s s2" "w_rw s2 = hold (RW_Read 1) [q] ((w_rw s)(TableLock h := RW_Read 1))"
      by (auto simp: runs_def)
    have "(hold (RW_Read 1) [q] ((w_rw s)(TableLock h := RW_Read 1)))(TableLock h := RW_Free)
        = (w_rw s)(EntryLock q := RW_Read 1)"
      using U(1) by (auto simp: hold_def fun_eq_iff)
    with s2 q some(4,5) env show ?thesis
      by (simp add: ht_locate_entry_def lock sync_simps)
  qed
qed

lemma ht_locate_key_spec:
  assumes "env_ok env" and "ht_inv h s t T n C F SS"
  shows "runs (ht_locate_key env h key s) (\<lambda>d s'. same_data s s' \<and> w_rw s' = w_rw s \<and>
    (case ht_map h s (ht_key h s key) of None \<Rightarrow> d = 0 \<and> w_errno s' = ENOENT | Some x \<Rightarrow> d = x))"
proof -
  obtain p s1 where run: "ht_locate_entry env h key s = Some (p, s1)" and s1: "same_data s s1"
    and res: "case p of
       NULL \<Rightarrow> ht_map h s (ht_key h s key) = None \<and> w_errno s1 = ENOENT \<and> w_rw s1 = w_rw s
     | Ptr q \<Rightarrow> (\<exists>e. w_ents s q = Some e \<and> ht_map h s (ht_key h s key) = Some (hte_data e)) \<and>
         w_rw s (EntryLock q) = RW_Free \<and> w_rw s1 = (w_rw s)(EntryLock q := RW_Read 1)"
    using locate_entry [OF assms, of key] by (auto simp: runs_def)
  show ?thesis
  proof (cases p)
    case NULL
    with run s1 res show ?thesis by (simp add: ht_locate_key_def)
  next
    case (Ptr q)
    with res obtain e where q: "w_ents s1 q = Some e" "ht_map h s (ht_key h s key) = Some (hte_data e)"
        "w_rw s1 = (w_rw s)(EntryLock q := RW_Read 1)" "w_rw s (EntryLock q) = RW_Free"
      using s1 by (auto simp: same_dataD)
    then have "(w_rw s)(EntryLock q := RW_Read 1, EntryLock q := RW_Free) = w_rw s"
      by (simp add: fun_upd_idem)
    with q run s1 Ptr assms(1) show ?thesis
      by (simp add: ht_locate_key_def sync_simps)
  qed
qed

end
