(* ===== verification/HT_Bucket.thy ===== *)
theory HT_Bucket
  imports HT_Create HT_Locate
begin

text \<open>
  One more entry in one bucket: what it means for the keys and the pairs of a table, and the two
  ways it comes about (an empty slot is filled, a free entry is hung behind a full one).
\<close>

section \<open>Adding an entry to a bucket\<close>

definition entry_kd :: "hashtable_entry \<Rightarrow> u64 \<times> u64" where
  "entry_kd e = (hte_key e, hte_data e)"

lemma entry_pair_kd:
  "map_option entry_kd (E' p) = map_option entry_kd (E p) \<Longrightarrow> entry_pair mem k E' p = entry_pair mem k E p"
  by (cases "E p"; cases "E' p") (auto simp: entry_pair_def entry_kd_def)

lemma concat_map_split:
  "i < n \<Longrightarrow> concat (map f [0..<n]) = concat (map f [0..<i]) @ f i @ concat (map f [Suc i..<n])"
proof -
  assume i: "i < n"
  then have "[0..<n] = [0..<i] @ i # [Suc i..<n]"
    by (metis upt_add_eq_append upt_conv_Cons le_add_diff_inverse less_imp_le zero_le)
  then show ?thesis by simp
qed

lemma distinct_map_insert:
  "distinct (map g (xs @ ys)) \<Longrightarrow> (\<And>p. p \<in> set (xs @ ys) \<Longrightarrow> g p \<noteq> g a) \<Longrightarrow> distinct (map g (xs @ a # ys))"
  by fastforce

definition bucket_insert ::
    "(eaddr \<rightharpoonup> hashtable_entry) \<Rightarrow> (eaddr \<rightharpoonup> hashtable_entry) \<Rightarrow> addr \<Rightarrow> nat \<Rightarrow> nat \<Rightarrow> u64 \<Rightarrow> u64 \<Rightarrow> bool" where
  "bucket_insert E E' T n i key data \<longleftrightarrow> i < n \<and>
     (\<forall>j<n. \<forall>p\<in>set (bucket E (T, j)). map_option entry_kd (E' p) = map_option entry_kd (E p)) \<and>
     (\<forall>j<n. j \<noteq> i \<longrightarrow> bucket E' (T, j) = bucket E (T, j)) \<and>
     (\<exists>xs a ys. bucket E (T, i) = xs @ ys \<and> bucket E' (T, i) = xs @ a # ys \<and>
        map_option entry_kd (E' a) = Some (key, data))"

lemma bucket_insertD:
  assumes "bucket_insert E E' T n i key data"
  shows "i < n"
    "\<exists>xs a ys. bucket E (T, i) = xs @ ys \<and> bucket E' (T, i) = xs @ a # ys \<and> map_option entry_kd (E' a) = Some (key, data)"
    "\<And>j p. j < n \<Longrightarrow> p \<in> set (bucket E (T, j)) \<Longrightarrow> map_option entry_kd (E' p) = map_option entry_kd (E p)"
    "\<And>j. j < n \<Longrightarrow> j \<noteq> i \<Longrightarrow> bucket E' (T, j) = bucket E (T, j)"
  using assms unfolding bucket_insert_def by blast+

text \<open>The addresses of the keys and data in the buckets of a table.\<close>

definition live_kds :: "(eaddr \<rightharpoonup> hashtable_entry) \<Rightarrow> addr \<Rightarrow> nat \<Rightarrow> (u64 \<times> u64) set" where
  "live_kds E T n = {kd. \<exists>j<n. \<exists>p\<in>set (bucket E (T, j)). map_option entry_kd (E p) = Some kd}"

lemma bucket_insert_live:
  assumes ins: "bucket_insert E E' T n i key data"
  shows "live_kds E' T n \<subseteq> insert (key, data) (live_kds E T n)"
proof
  fix kd
  assume "kd \<in> live_kds E' T n"
  then obtain j p where j: "j < n" "p \<in> set (bucket E' (T, j))" "map_option entry_kd (E' p) = Some kd"
    by (auto simp: live_kds_def)
  obtain xs a ys where b: "bucket E (T, i) = xs @ ys" "bucket E' (T, i) = xs @ a # ys"
      "map_option entry_kd (E' a) = Some (key, data)"
    using bucket_insertD(2) [OF ins] by blast
  show "kd \<in> insert (key, data) (live_kds E T n)"
  proof (cases "p \<in> set (bucket E (T, j))")
    case True
    then have "map_option entry_kd (E p) = Some kd" using bucket_insertD(3) [OF ins j(1)] j(3) by simp
    with True j(1) show ?thesis by (auto simp: live_kds_def)
  next
    case False
    then have "j = i" using bucket_insertD(4) [OF ins j(1)] j(2) by metis
    with False j(2) b(1,2) have "p = a" by auto
    then have "kd = (key, data)" using b(3) j(3) by (metis option.inject)
    then show ?thesis by simp
  qed
qed

lemma bucket_insert_keyed:
  assumes keyed: "ht_keyed mem E t T n" and ins: "bucket_insert E E' T n i key data"
    and hash: "ht_hash_bytes mem key (scast (ht_keysize t)) (of_nat n) = Some (of_nat i)"
    and new: "ht_options t AND hto_dups_allowed = 0 \<Longrightarrow>
      \<forall>p\<in>set (bucket E (T, i)). fst (entry_pair mem (ht_keylen t) E p) \<noteq> key_bytes mem key (ht_keylen t)"
  shows "ht_keyed mem E' t T n"
  unfolding ht_keyed_def
proof (intro conjI allI impI ballI)
  note i = bucket_insertD(1) [OF ins] and kd = bucket_insertD(3) [OF ins] and bo = bucket_insertD(4) [OF ins]
  obtain xs a ys where b: "bucket E (T, i) = xs @ ys" "bucket E' (T, i) = xs @ a # ys"
      "map_option entry_kd (E' a) = Some (key, data)"
    using bucket_insertD(2) [OF ins] by blast
  have ep: "entry_pair mem (ht_keylen t) E' p = entry_pair mem (ht_keylen t) E p"
    if "j < n" "p \<in> set (bucket E (T, j))" for j p
    using kd [OF that] by (rule entry_pair_kd)
  show "ht_hash_bytes mem (hte_key e) (scast (ht_keysize t)) (of_nat n) = Some (of_nat j)"
    if "j < n" "p \<in> set (bucket E' (T, j))" "E' p = Some e" for j p e
  proof (cases "p \<in> set (bucket E (T, j))")
    case True
    with kd [OF that(1)] that(3) obtain e0 where "E p = Some e0" "hte_key e0 = hte_key e"
      by (cases "E p") (fastforce simp: entry_kd_def)+
    with keyed True that(1) show ?thesis unfolding ht_keyed_def by metis
  next
    case False
    then have ji: "j = i" using bo [OF that(1)] that(2) by metis
    with False that(2) b(1,2) have "p = a" by auto
    with ji b(3) that(3) hash show ?thesis by (auto simp: entry_kd_def)
  qed
  show "distinct (map (fst \<circ> entry_pair mem (ht_keylen t) E') (bucket E' (T, j)))"
    if nd: "ht_options t AND hto_dups_allowed = 0" and j: "j < n" for j
  proof -
    have old: "distinct (map (fst \<circ> entry_pair mem (ht_keylen t) E) (bucket E (T, j)))"
      using keyed nd j by (simp add: ht_keyed_def)
    have eq: "map (fst \<circ> entry_pair mem (ht_keylen t) E') ps = map (fst \<circ> entry_pair mem (ht_keylen t) E) ps"
      if "set ps \<subseteq> set (bucket E (T, j))" for ps
      using ep [OF j] that by auto
    show ?thesis
    proof (cases "j = i")
      case False
      with bo [OF j] have "bucket E' (T, j) = bucket E (T, j)" by blast
      with eq [OF subset_refl] old show ?thesis by (simp only:)
    next
      case True
      have a: "entry_pair mem (ht_keylen t) E' a = (key_bytes mem key (ht_keylen t), data)"
        using b(3) by (cases "E' a") (auto simp: entry_pair_def entry_kd_def)
      have "fst (entry_pair mem (ht_keylen t) E' p) \<noteq> key_bytes mem key (ht_keylen t)" if "p \<in> set (xs @ ys)" for p
        using new [OF nd] that b(1) ep [OF i, of p] by auto
      moreover have "distinct (map (fst \<circ> entry_pair mem (ht_keylen t) E') (xs @ ys))"
        using old eq [OF subset_refl] unfolding True b(1) by (simp only:)
      ultimately show ?thesis unfolding True b(2)
        by (intro distinct_map_insert) (simp_all add: a)
    qed
  qed
qed

lemma bucket_insert_pairs:
  assumes ins: "bucket_insert E E' T n i key data"
  shows "\<exists>us vs. concat (map (\<lambda>i. map (entry_pair mem k E) (bucket E (T, i))) [0..<n]) = us @ vs \<and>
     concat (map (\<lambda>i. map (entry_pair mem k E') (bucket E' (T, i))) [0..<n])
       = us @ (key_bytes mem key k, data) # vs"
proof -
  note i = bucket_insertD(1) [OF ins] and kd = bucket_insertD(3) [OF ins] and bo = bucket_insertD(4) [OF ins]
  obtain xs a ys where b: "bucket E (T, i) = xs @ ys" "bucket E' (T, i) = xs @ a # ys"
      "map_option entry_kd (E' a) = Some (key, data)"
    using bucket_insertD(2) [OF ins] by blast
  let ?f = "\<lambda>i. map (entry_pair mem k E) (bucket E (T, i))"
  let ?f' = "\<lambda>i. map (entry_pair mem k E') (bucket E' (T, i))"
  have ep: "entry_pair mem k E' p = entry_pair mem k E p" if "j < n" "p \<in> set (bucket E (T, j))" for j p
    using kd [OF that] by (rule entry_pair_kd)
  have other: "?f' j = ?f j" if "j < n" "j \<noteq> i" for j
    unfolding bo [OF that] using ep [OF that(1)] by auto
  have a: "entry_pair mem k E' a = (key_bytes mem key k, data)"
    using b(3) by (cases "E' a") (auto simp: entry_pair_def entry_kd_def)
  have "map (entry_pair mem k E') (xs @ ys) = map (entry_pair mem k E) (xs @ ys)"
    using ep [OF i] b(1) by auto
  then have fi: "?f i = map (entry_pair mem k E) xs @ map (entry_pair mem k E) ys"
      "?f' i = map (entry_pair mem k E) xs @ (key_bytes mem key k, data) # map (entry_pair mem k E) ys"
    using b a by auto
  have lo: "map ?f' [0..<i] = map ?f [0..<i]"
  proof (rule list.map_cong0)
    show "?f' j = ?f j" if "j \<in> set [0..<i]" for j using other [of j] that i by simp
  qed
  have hi: "map ?f' [Suc i..<n] = map ?f [Suc i..<n]"
  proof (rule list.map_cong0)
    show "?f' j = ?f j" if "j \<in> set [Suc i..<n]" for j using other [of j] that by simp
  qed
  show ?thesis
  proof (intro exI conjI)
    show "concat (map ?f [0..<n]) =
      (concat (map ?f [0..<i]) @ map (entry_pair mem k E) xs) @ (map (entry_pair mem k E) ys @ concat (map ?f [Suc i..<n]))"
      unfolding concat_map_split [OF i, of ?f] fi by simp
    show "concat (map ?f' [0..<n]) =
      (concat (map ?f [0..<i]) @ map (entry_pair mem k E) xs) @ (key_bytes mem key k, data) # (map (entry_pair mem k E) ys @ concat (map ?f [Suc i..<n]))"
      unfolding concat_map_split [OF i, of ?f'] fi lo hi by simp
  qed
qed

text \<open>The two ways an entry comes into a bucket.\<close>

lemma bucket_insert_fill:
  assumes sh: "ht_shape E fc T n C F" and i: "i < n" and e: "E (T, i) = Some e" "\<not> occupied e"
    and e': "hte_next e' = hte_next e" "occupied e'" "lock_inited e'" "entry_kd e' = (key, data)"
  shows "bucket_insert E (E((T, i) \<mapsto> e')) T n i key data" "ht_shape (E((T, i) \<mapsto> e')) fc T n C F"
proof -
  note D = ht_shapeD [OF sh]
  let ?E = "E((T, i) \<mapsto> e')"
  show sh': "ht_shape ?E fc T n C F"
    by (rule ht_shape_slot [OF sh i e(1)]) (use e' in auto)
  have ci: "C i = []" using D(3) [OF i] e by auto
  have bi: "bucket E (T, i) = []" "bucket ?E (T, i) = [(T, i)]"
    using bucket_eq [OF sh i e(1)] bucket_eq [OF sh' i, of e'] e e' ci by simp_all
  have other: "bucket ?E (T, j) = bucket E (T, j)" if "j < n" "j \<noteq> i" for j
  proof -
    obtain x where x: "E (T, j) = Some x" using D(3) \<open>j < n\<close> by blast
    then show ?thesis
      using bucket_eq [OF sh that(1) x] bucket_eq [OF sh' that(1), of x] that(2) by simp
  qed
  have "map_option entry_kd (?E p) = map_option entry_kd (E p)" if "j < n" "p \<in> set (bucket E (T, j))" for j p
  proof -
    have "p \<noteq> (T, i)"
      using bucket_alloc(1) [OF sh that] e by auto
    then show ?thesis by simp
  qed
  with bi other i e' show "bucket_insert E ?E T n i key data"
    unfolding bucket_insert_def by (auto intro!: exI [of _ "[]"])
qed

lemma bucket_insert_push:
  assumes sh: "ht_shape E fc T n C (a # F)" and i: "i < n"
    and e: "E (T, i) = Some e" "occupied e" and ae: "E a = Some ae"
    and a': "hte_next a' = hte_next e" "occupied a'" "lock_inited a'" "entry_kd a' = (key, data)"
    and e': "hte_next e' = Ptr a" "occupied e'" "lock_inited e'" "entry_kd e' = entry_kd e"
  shows "bucket_insert E (E(a \<mapsto> a', (T, i) \<mapsto> e')) T n i key data"
    "ht_shape (E(a \<mapsto> a', (T, i) \<mapsto> e')) (hte_next ae) T n (C(i := a # C i)) F"
proof -
  note D = ht_shapeD [OF sh]
  let ?E = "E(a \<mapsto> a', (T, i) \<mapsto> e')" and ?C = "C(i := a # C i)"
  show sh': "ht_shape ?E (hte_next ae) T n ?C F"
    by (rule ht_shape_push [OF sh i e ae]) (use a' e' in auto)
  have a: "a \<noteq> (T, i)" "\<not> occupied ae" using D(5) [OF i] D(12) [of a] ae by auto
  have bi: "bucket E (T, i) = (T, i) # C i" "bucket ?E (T, i) = (T, i) # a # C i"
    using bucket_eq [OF sh i e(1)] bucket_eq [OF sh' i, of e'] e e' by simp_all
  have other: "bucket ?E (T, j) = bucket E (T, j)" if "j < n" "j \<noteq> i" for j
  proof -
    obtain x where x: "E (T, j) = Some x" using D(3) \<open>j < n\<close> by blast
    moreover have "a \<noteq> (T, j)" using D(5) [OF that(1)] by auto
    ultimately show ?thesis
      using bucket_eq [OF sh that(1) x] bucket_eq [OF sh' that(1), of x] that(2) by simp
  qed
  have "map_option entry_kd (?E p) = map_option entry_kd (E p)" if "j < n" "p \<in> set (bucket E (T, j))" for j p
  proof -
    have "p \<noteq> a" using bucket_alloc(1) [OF sh that] ae a by auto
    then show ?thesis using e e' by simp
  qed
  moreover have "\<exists>xs b ys. bucket E (T, i) = xs @ ys \<and> bucket ?E (T, i) = xs @ b # ys \<and>
      map_option entry_kd (?E b) = Some (key, data)"
    by (rule exI [of _ "[(T, i)]"], rule exI [of _ a], rule exI [of _ "C i"]) (use bi a a' in simp)
  ultimately show "bucket_insert E ?E T n i key data"
    unfolding bucket_insert_def using i other by blast
qed

end
