(* ===== verification/HT_Insert.thy ===== *)
theory HT_Insert
  imports HT_Bucket
begin

text \<open>
  \<^verbatim>\<open>ht_insert_key\<close>: without failures it always returns; a key that is there already is reported
  with \<open>EEXIST\<close> and nothing changes, any other key is added to the pairs of the table, which stays
  well-formed.
\<close>

section \<open>The parts of the function\<close>

lemma ht_core_insert:
  assumes core: "ht_core h s t T n C F SS" and ins: "bucket_insert (w_ents s) (w_ents s') T n i key data"
    and i: "i = hash_index (w_mem s) t n key"
    and sh: "ht_shape (w_ents s') fc' T n C' F'"
    and ptrs: "set (ht_ptrs T n C' F') = set (ht_ptrs T n C F)"
    and new: "ht_options t AND hto_dups_allowed = 0 \<Longrightarrow>
      \<forall>p\<in>set (bucket (w_ents s) (T, i)). \<not> key_at (w_mem s) t (w_ents s) key p"
    and s': "w_tables s' h = Some (t\<lparr>ht_freechain := fc'\<rparr>)" "w_slabs s' = w_slabs s" "w_mem s' = w_mem s"
      "w_brk s' = w_brk s"
  shows "ht_core h s' (t\<lparr>ht_freechain := fc'\<rparr>) T n C' F' SS"
    "\<exists>us vs. ht_pairs h s = us @ vs \<and> ht_pairs h s' = us @ (ht_key h s key, data) # vs"
proof -
  note D = ht_coreD [OF core]
  have i': "i < n" using i hash_index_less [OF D(4,5)] by simp
  have "ht_keyed (w_mem s) (w_ents s') t T n"
  proof (rule bucket_insert_keyed [OF D(11) ins])
    show "ht_hash_bytes (w_mem s) key (scast (ht_keysize t)) (of_nat n) = Some (of_nat i)"
      using ht_hash_bytes_eq [OF D(4,5)] i by simp
    show "\<forall>p\<in>set (bucket (w_ents s) (T, i)).
        fst (entry_pair (w_mem s) (ht_keylen t) (w_ents s) p) \<noteq> key_bytes (w_mem s) key (ht_keylen t)"
      if "ht_options t AND hto_dups_allowed = 0"
      using new [OF that] bucket_alloc(1) [OF D(10) i'] by (fastforce simp: key_at_entry_pair)
  qed
  moreover have "ht_owned (w_slabs s) (ht_slabs t) SS (ht_ptrs T n C' F')"
    using D(12) ptrs by (simp add: ht_owned_def)
  ultimately show core': "ht_core h s' (t\<lparr>ht_freechain := fc'\<rparr>) T n C' F' SS"
    unfolding ht_core_def using D sh s' by (simp add: ht_keyed_def ht_keylen_def)
  have k: "ht_keylen (t\<lparr>ht_freechain := fc'\<rparr>) = ht_keylen t" by (simp add: ht_keylen_def)
  show "\<exists>us vs. ht_pairs h s = us @ vs \<and> ht_pairs h s' = us @ (ht_key h s key, data) # vs"
    using bucket_insert_pairs [OF ins, of "w_mem s" "ht_keylen t"] D(1)
    unfolding ht_pairs_eq [OF core] ht_pairs_eq [OF core'] s'(3) k by (simp add: ht_key_def)
qed

lemma ht_dup_search_ok:
  assumes "w_tables s h = Some t" "ht_key_compare t = bcmp" "entry_chain (w_ents s) p = Some ps"
  shows "\<exists>dep. ht_dup_search h key p depth s =
    Some (ht_options t AND hto_dups_allowed = 0 \<and> (\<exists>q\<in>set ps. key_at (w_mem s) t (w_ents s) key q), dep)"
  using assms(3)
proof (induction ps arbitrary: p depth)
  case Nil
  then show ?case by (subst ht_dup_search.simps) simp
next
  case (Cons a ps)
  then obtain e where e: "p = Ptr a" "w_ents s a = Some e" "entry_chain (w_ents s) (hte_next e) = Some ps"
    by (auto simp: entry_chain_Cons)
  have "key_at (w_mem s) t (w_ents s) key a \<longleftrightarrow>
      ht_key_compare t (w_mem s) (hte_key e) key (scast (ht_keysize t)) = 0"
    using e assms(2) by (simp add: key_at_def ht_keylen_def)
  with e assms(1) Cons.IH [OF e(3), of "depth + 1"] show ?case
    by (subst ht_dup_search.simps) auto
qed

text \<open>The first part of the function: the slot of the key is locked, the table is not.\<close>

lemma insert_prefix:
  fixes key :: u64
  assumes env: "env_ok env" and inv: "ht_inv h s t T n C F SS"
  defines "d \<equiv> (T, hash_index (w_mem s) t n key)"
  obtains s1 e where "w_ents s d = Some e" "same_data s s1" "w_rw s1 = (w_rw s)(EntryLock d := RW_Write)"
    "ht_insert_key_with rz env h key data s =
     (if \<not> occupied e then ht_fill_slot env h d key data s1
      else do {
       (dup, depth) \<leftarrow> ht_dup_search h key (Ptr d) 0 s1;
       if dup
       then do {
         (_, s) \<leftarrow> ht_average_increment env h Searches depth s1;
         (_, s) \<leftarrow> ht_counter_add env h Hits 1 s;
         (ret, s) \<leftarrow> rw_unlock env (EntryLock d) (set_errno EEXIST s);
         if ret \<noteq> 0
         then do { (_, s) \<leftarrow> ht_counter_add env h Errors 1 s; Some (-2, set_errno ret s) }
         else Some (-1, s) }
       else do {
       s \<leftarrow> (if ht_options t AND hto_dups_allowed = 0
             then do { (_, s) \<leftarrow> ht_average_increment env h Searches depth s1; Some s }
             else Some s1);
       (ret, s) \<leftarrow> ht_chain_entry env h d key data depth s;
       if ret \<noteq> 0 then Some (ret, s)
       else ht_implicit_resize rz h s } })"
proof -
  have core: "ht_core h s t T n C F SS" and ul: "ht_unlocked h s (ht_ptrs T n C F)"
    using inv by (simp_all add: ht_inv_def)
  note D = ht_coreD [OF core] and U = ht_unlockedD [OF ul]
  have i: "hash_index (w_mem s) t n key < n" by (rule hash_index_less [OF D(4,5)])
  obtain e where e: "w_ents s d = Some e" using ht_shapeD(3) [OF D(10) i] unfolding d_def by blast
  define s0 where "s0 = counter_bump h Probes 1 (set_errno 0 (rw_set (TableLock h) RW_Write (tick (counter_bump h Inserts 1 s))))"
  let ?s1 = "rw_set (TableLock h) RW_Free (tick (rw_set (EntryLock d) RW_Write (tick s0)))"
  have same: "same_data s s0" "w_rw s0 = (w_rw s)(TableLock h := RW_Write)" by (simp_all add: s0_def)
  have slot: "ht_slot h key s0 = Some d"
    using ht_slot_eq [of h s0 t T n C F SS key] core same(1) by (simp add: ht_core_cong [OF same(1)] same_dataD d_def)
  have free: "w_rw s (EntryLock d) = RW_Free" using U(3) i unfolding d_def by blast
  have "(w_rw s)(TableLock h := RW_Write, EntryLock d := RW_Write, TableLock h := RW_Free) = (w_rw s)(EntryLock d := RW_Write)"
    using U(1) by (auto simp: fun_eq_iff)
  then have rw: "w_rw ?s1 = (w_rw s)(EntryLock d := RW_Write)" by (simp add: same(2))
  have "w_ents ?s1 d = Some e" "w_tables ?s1 h = Some t" using e D(1) same by (simp_all add: same_dataD)
  moreover have "ht_counter_add env h Probes 1 (set_errno 0 (rw_set (TableLock h) RW_Write (tick (counter_bump h Inserts 1 s)))) = Some (0, s0)"
    using env U by (simp add: sync_simps s0_def)
  ultimately show thesis
    using that [OF e _ rw] same env U free slot
    by (simp add: ht_insert_key_with_def sync_simps flags_occupied_eq_0 same_dataD cong: if_cong)
qed

text \<open>What a successful insertion leaves.\<close>

definition inserted ::
    "addr \<Rightarrow> world \<Rightarrow> hashtable \<Rightarrow> addr \<Rightarrow> nat \<Rightarrow> addr list \<Rightarrow> u64 \<Rightarrow> u64 \<Rightarrow> world \<Rightarrow> bool" where
  "inserted h s t T n SS key data s' \<longleftrightarrow>
     (\<exists>t' C' F' SS'. ht_inv h s' t' T n C' F' SS' \<and> (\<exists>sp fc. t' = t\<lparr>ht_slabs := sp, ht_freechain := fc\<rparr>) \<and>
        (\<forall>a\<in>set SS'. a \<in> set SS \<or> w_brk s \<le> a) \<and> (slabs_end s t SS \<longrightarrow> slabs_end s' t' SS')) \<and>
     (\<exists>us vs. ht_pairs h s = us @ vs \<and> ht_pairs h s' = us @ (ht_key h s key, data) # vs) \<and>
     live_kds (w_ents s') T n \<subseteq> insert (key, data) (live_kds (w_ents s) T n) \<and>
     ht_frame {h} (set SS) s s'"

lemma fill_slot_ok:
  fixes key :: u64
  assumes env: "env_ok env" and inv: "ht_inv h s t T n C F SS"
  defines "d \<equiv> (T, hash_index (w_mem s) t n key)"
  assumes e: "w_ents s d = Some e" "\<not> occupied e"
    and s1: "same_data s s1" "w_rw s1 = (w_rw s)(EntryLock d := RW_Write)"
  shows "runs (ht_fill_slot env h d key data s1) (\<lambda>r s'. r = 0 \<and> inserted h s t T n SS key data s')"
proof -
  have core: "ht_core h s t T n C F SS" and ul: "ht_unlocked h s (ht_ptrs T n C F)"
    using inv by (simp_all add: ht_inv_def)
  note D = ht_coreD [OF core] and U = ht_unlockedD [OF ul]
  have i: "hash_index (w_mem s) t n key < n" by (rule hash_index_less [OF D(4,5)])
  have free: "w_rw s (EntryLock d) = RW_Free" and dSS: "fst d \<in> set SS"
    using U(3) i D(3) unfolding d_def by auto
  have li: "lock_inited e" using ht_shapeD(10) [OF D(10), of d] e i unfolding d_def by auto
  let ?e = "e\<lparr>hte_flags := hte_flags e OR htef_occupied, hte_key := key, hte_data := data\<rparr>"
  let ?s = "rw_set (EntryLock d) RW_Free (tick (s1\<lparr>w_ents := (w_ents s)(d \<mapsto> ?e)\<rparr>))"
  note S = same_dataD [OF s1(1)]
  have run: "ht_fill_slot env h d key data s1 = Some (0, ?s)"
    using e env S s1(2) by (simp add: ht_fill_slot_def sync_simps)
  have ins: "bucket_insert (w_ents s) ((w_ents s)(d \<mapsto> ?e)) T n (hash_index (w_mem s) t n key) key data"
    and shape: "ht_shape ((w_ents s)(d \<mapsto> ?e)) (ht_freechain t) T n C F"
    using bucket_insert_fill [OF D(10) i, of e ?e key data] e li unfolding d_def
    by (simp_all add: entry_kd_def entry_flags)
  have t: "t\<lparr>ht_freechain := ht_freechain t\<rparr> = t" by simp
  have new: "\<forall>p\<in>set (bucket (w_ents s) (T, hash_index (w_mem s) t n key)). \<not> key_at (w_mem s) t (w_ents s) key p"
    using bucket_eq [OF D(10) i, of e] e unfolding d_def by simp
  note core' = ht_core_insert [OF core, of ?s _ key data "ht_freechain t" C F, OF _ refl]
  have rw: "w_rw ?s = w_rw s" using free s1(2) by (simp add: fun_upd_idem)
  have "ht_core h ?s t T n C F SS"
    using core'(1) ins shape new D(1) S t by simp
  moreover have "ht_unlocked h ?s (ht_ptrs T n C F)" using ul rw S(6) by (simp add: ht_unlocked_def)
  moreover have "\<exists>us vs. ht_pairs h s = us @ vs \<and> ht_pairs h ?s = us @ (ht_key h s key, data) # vs"
    using core'(2) ins shape new D(1) S t by simp
  moreover have "live_kds (w_ents ?s) T n \<subseteq> insert (key, data) (live_kds (w_ents s) T n)"
    using bucket_insert_live [OF ins] by simp
  moreover have "ht_frame {h} (set SS) s ?s"
    unfolding ht_frame_def using rw S dSS by auto
  moreover have "\<exists>sp fc. t = t\<lparr>ht_slabs := sp, ht_freechain := fc\<rparr>"
    by (rule exI [of _ "ht_slabs t"], rule exI [of _ "ht_freechain t"]) simp
  moreover have "slabs_end s t SS \<longrightarrow> slabs_end ?s t SS" using S by simp
  ultimately show ?thesis unfolding run runs_Some inserted_def ht_inv_def by blast
qed

text \<open>Hanging the new entry behind the slot, with a free entry at hand.\<close>

lemma chain_entry_run:
  fixes key data :: u64
  assumes env: "env_ok env" and free: "w_rw s0 (FreeLock h) = RW_Free"
    and refill: "ht_refill env h (T, i) (rw_set (FreeLock h) RW_Write (tick s0)) = Some (Ptr a, s)"
    and core: "ht_core h s t T n C (a # F) SS" and i: "i < n"
    and e: "w_ents s (T, i) = Some e" "occupied e" and ae: "w_ents s a = Some ae"
    and mx: "w_mx s (AverageMutex h Freechain) = MX_Free" "w_mx s (AverageMutex h Depth) = MX_Free"
    and rw: "w_rw s (FreeLock h) = RW_Write" "w_rw s (EntryLock (T, i)) = RW_Write"
  defines "a' \<equiv> ae\<lparr>hte_flags := hte_flags ae OR htef_occupied, hte_key := key, hte_data := data, hte_next := hte_next e\<rparr>"
    and "e' \<equiv> e\<lparr>hte_next := Ptr a\<rparr>"
  obtains s' where "ht_chain_entry env h (T, i) key data depth s0 = Some (0, s')"
    "w_ents s' = (w_ents s)(a \<mapsto> a', (T, i) \<mapsto> e')" "w_slabs s' = w_slabs s" "w_mem s' = w_mem s" "w_brk s' = w_brk s"
    "w_tables s' = (w_tables s)(h \<mapsto> t\<lparr>ht_freechain := hte_next ae\<rparr>)" "w_mx s' = w_mx s"
    "w_rw s' = (w_rw s)(FreeLock h := RW_Free, EntryLock (T, i) := RW_Free)"
proof -
  have a: "a \<noteq> (T, i)" using ht_shapeD(5) [OF ht_coreD(10) [OF core] i] by auto
  let ?s1 = "s\<lparr>w_tables := (w_tables s)(h \<mapsto> t\<lparr>ht_freechain := hte_next ae\<rparr>),
               w_ents := (w_ents s)(a \<mapsto> ae\<lparr>hte_next := NULL\<rparr>)\<rparr>"
  let ?s2 = "rw_set (FreeLock h) RW_Free (tick (average_apply h Freechain
                (average_increment (av_current (w_avg s (h, Freechain)) - 1)) ?s1))"
  let ?s3 = "?s2\<lparr>w_ents := (w_ents s)(a \<mapsto> a', (T, i) \<mapsto> e')\<rparr>"
  let ?s4 = "rw_set (EntryLock (T, i)) RW_Free (tick (average_apply h Depth (average_increment depth) ?s3))"
  have run: "ht_chain_entry env h (T, i) key data depth s0 = Some (0, ?s4)"
    using a env e ae mx rw free refill ht_coreD(1) [OF core]
    by (simp add: ht_chain_entry_def sync_simps a'_def e'_def)
  show thesis by (rule that [OF run]) simp_all
qed

section \<open>The whole function\<close>

lemma ht_pairs_cong:
  assumes core: "ht_core h s t T n C F SS" and core': "ht_core h s' t' T n C' F' SS'"
    and ents: "\<And>p. p \<in> set (ht_ptrs T n C F) \<Longrightarrow> w_ents s' p = w_ents s p"
    and mem: "w_mem s' = w_mem s" and k: "ht_keylen t' = ht_keylen t"
  shows "ht_pairs h s' = ht_pairs h s"
proof -
  note sh = ht_coreD(10) [OF core]
  have "map (entry_pair (w_mem s') (ht_keylen t') (w_ents s')) (bucket (w_ents s') (T, i)) =
        map (entry_pair (w_mem s) (ht_keylen t) (w_ents s)) (bucket (w_ents s) (T, i))" if i: "i < n" for i
  proof -
    have "p \<in> set (ht_ptrs T n C F)" if "p \<in> set (bucket (w_ents s) (T, i))" for p
      using bucket_alloc(2) [OF sh i that] i by (auto intro: chain_in_ptrs)
    moreover have bk: "bucket (w_ents s') (T, i) = bucket (w_ents s) (T, i)"
      by (rule bucket_cong [OF sh i ents])
    ultimately show ?thesis
      unfolding bk mem k using ents by (auto simp: entry_pair_def)
  qed
  then show ?thesis unfolding ht_pairs_eq [OF core] ht_pairs_eq [OF core']
    by (metis (mono_tags, lifting) atLeastLessThan_iff map_eq_conv set_upt)
qed

lemma live_kds_cong:
  assumes sh: "ht_shape E fc T n C F" and ents: "\<And>p. p \<in> set (ht_ptrs T n C F) \<Longrightarrow> E' p = E p"
  shows "live_kds E' T n = live_kds E T n"
proof -
  have "bucket E' (T, i) = bucket E (T, i)" if "i < n" for i by (rule bucket_cong [OF sh that ents])
  moreover have "E' p = E p" if "i < n" "p \<in> set (bucket E (T, i))" for i p
    using bucket_alloc(2) [OF sh that] that(1) by (intro ents) (auto intro: chain_in_ptrs)
  ultimately have "(\<exists>p\<in>set (bucket E' (T, i)). map_option entry_kd (E' p) = Some kd) \<longleftrightarrow>
      (\<exists>p\<in>set (bucket E (T, i)). map_option entry_kd (E p) = Some kd)" if "i < n" for i kd
    using that by metis
  then show ?thesis unfolding live_kds_def by blast
qed

lemma chain_entry_ok:
  fixes key :: u64
  assumes env: "env_ok env" and inv: "ht_inv h s t T n C F SS"
  defines "i \<equiv> hash_index (w_mem s) t n key"
  assumes e: "w_ents s (T, i) = Some e" "occupied e"
    and new: "ht_options t AND hto_dups_allowed = 0 \<Longrightarrow>
      \<forall>p\<in>set (bucket (w_ents s) (T, i)). \<not> key_at (w_mem s) t (w_ents s) key p"
    and s1: "same_data s s1" "w_rw s1 = (w_rw s)(EntryLock (T, i) := RW_Write)"
  shows "runs (ht_chain_entry env h (T, i) key data depth s1) (\<lambda>r s'. r = 0 \<and> inserted h s t T n SS key data s')"
proof -
  have core: "ht_core h s t T n C F SS" and ul: "ht_unlocked h s (ht_ptrs T n C F)"
    using inv by (simp_all add: ht_inv_def)
  note D = ht_coreD [OF core] and U = ht_unlockedD [OF ul] and S = same_dataD [OF s1(1)]
  have i: "i < n" unfolding i_def by (rule hash_index_less [OF D(4,5)])
  let ?s2 = "rw_set (FreeLock h) RW_Write (tick s1)"
  have same2: "same_data s ?s2" using s1(1) by simp
  have core2: "ht_core h ?s2 t T n C F SS" using core unfolding ht_core_cong [OF same2] .
  obtain a F' t' SS' s3 where run3: "ht_refill env h (T, i) ?s2 = Some (Ptr a, s3)"
    and r: "refilled h ?s2 t T n C F SS a F' t' SS' s3"
    by (rule ht_refill_ok [OF env core2, where dhte = "(T, i)"]) (use U S in \<open>simp_all\<close>)
  note R = refilledD [OF r]
  note D3 = ht_coreD [OF R(1)]
  have lt: "fst p < w_brk s" if "p \<in> set (ht_ptrs T n C F)" for p
    using D(14) ht_ptrs_owned [OF D(12) that] by auto
  have ents: "w_ents s3 p = w_ents s p" if "p \<in> set (ht_ptrs T n C F)" for p
    using R(8) [of p] lt [OF that] S by simp
  have e3: "w_ents s3 (T, i) = Some e" using ents [OF slot_in_ptrs [OF i]] e by simp
  obtain ae where ae: "w_ents s3 a = Some ae" "lock_inited ae"
    using ht_shapeD(10) [OF D3(10), of a] free_in_ptrs [of a "a # F'"] by auto
  have li: "lock_inited e" using ht_shapeD(10) [OF D(10) slot_in_ptrs [OF i]] e by auto
  obtain sp fc where t': "t' = t\<lparr>ht_slabs := sp, ht_freechain := fc\<rparr>" using R(2) by blast
  have rw3: "w_rw s3 (FreeLock h) = RW_Write" "w_rw s3 (EntryLock (T, i)) = RW_Write"
    using R(11) [of h] R(9) [of "(T, i)"] lt [OF slot_in_ptrs [OF i]] s1(2) S by simp_all
  have bk: "bucket (w_ents s3) (T, i) = bucket (w_ents s) (T, i)"
    by (rule bucket_cong [OF D(10) i ents])
  have bp: "p \<in> set (ht_ptrs T n C F)" if "p \<in> set (bucket (w_ents s) (T, i))" for p
    using bucket_alloc(2) [OF D(10) i that] i by (auto intro: chain_in_ptrs)
  let ?a = "ae\<lparr>hte_flags := hte_flags ae OR htef_occupied, hte_key := key, hte_data := data, hte_next := hte_next e\<rparr>"
  let ?e = "e\<lparr>hte_next := Ptr a\<rparr>"
  obtain s4 where run: "ht_chain_entry env h (T, i) key data depth s1 = Some (0, s4)"
    and s4: "w_ents s4 = (w_ents s3)(a \<mapsto> ?a, (T, i) \<mapsto> ?e)" "w_slabs s4 = w_slabs s3" "w_mem s4 = w_mem s3" "w_brk s4 = w_brk s3"
    "w_tables s4 = (w_tables s3)(h \<mapsto> t'\<lparr>ht_freechain := hte_next ae\<rparr>)" "w_mx s4 = w_mx s3"
    "w_rw s4 = (w_rw s3)(FreeLock h := RW_Free, EntryLock (T, i) := RW_Free)"
    by (rule chain_entry_run [OF env _ run3 R(1) i e3 e(2) ae(1) _ _ rw3, of key data depth])
      (use U S s1 R(4) in \<open>auto intro: that\<close>)
  have ins: "bucket_insert (w_ents s3) (w_ents s4) T n i key data"
    and shape: "ht_shape (w_ents s4) (hte_next ae) T n (C(i := a # C i)) F'"
    using bucket_insert_push [OF D3(10) i e3 e(2) ae(1), of ?a key data ?e] e(2) li ae(2) s4(1)
    by (simp_all add: entry_kd_def entry_flags)
  have ms: "mset (ht_ptrs T n (C(i := a # C i)) F') = mset (ht_ptrs T n C (a # F'))"
    using i by (intro mset_ht_ptrs_upd) auto
  note ptrs = mset_eq_setD [OF ms]
  have hash: "i = hash_index (w_mem s3) t' n key"
    using R(3) S t' by (simp add: i_def hash_index_def ht_keylen_def)
  have keyat: "key_at (w_mem s3) t' (w_ents s3) key p = key_at (w_mem s) t (w_ents s) key p"
    if "p \<in> set (bucket (w_ents s) (T, i))" for p
    using ents [OF bp [OF that]] R(3) S t' by (simp add: key_at_def ht_keylen_def)
  have new3: "\<forall>p\<in>set (bucket (w_ents s3) (T, i)). \<not> key_at (w_mem s3) t' (w_ents s3) key p"
    if "ht_options t' AND hto_dups_allowed = 0"
    using new that t' keyat unfolding bk by simp
  note ins' = ht_core_insert [OF R(1) ins hash shape ptrs new3]
  have core4: "ht_core h s4 (t'\<lparr>ht_freechain := hte_next ae\<rparr>) T n (C(i := a # C i)) F' SS'"
    using ins'(1) s4 by simp
  have k3: "ht_key h s3 key = ht_key h s key"
    using D(1) D3(1) R(3) S t' by (simp add: ht_key_def ht_keylen_def)
  have "ht_pairs h s3 = ht_pairs h s"
    by (rule ht_pairs_cong [OF core R(1) ents]) (use R(3) S t' in \<open>simp_all add: ht_keylen_def\<close>)
  then have pairs: "\<exists>us vs. ht_pairs h s = us @ vs \<and> ht_pairs h s4 = us @ (ht_key h s key, data) # vs"
    using ins'(2) s4 k3 by simp
  have unl: "ht_unlocked h s4 (ht_ptrs T n (C(i := a # C i)) F')"
    unfolding ht_unlocked_def ptrs
  proof (intro conjI ballI)
    fix p assume p: "p \<in> set (ht_ptrs T n C (a # F'))"
    have "w_rw s3 (EntryLock p) = RW_Free" if "p \<in> set (ht_ptrs T n C F)" "p \<noteq> (T, i)"
      using R(9) [of p] lt [OF that(1)] U(3) [OF that(1)] s1(2) S that(2) by simp
    with R(12) [OF p] s4(7) show "w_rw s4 (EntryLock p) = RW_Free" by auto
  qed (use U s4 R S s1 ul in \<open>auto simp: ht_unlocked_def\<close>)
  have frame: "ht_frame {h} (set SS) s s4"
    unfolding ht_frame_def
  proof (intro conjI allI impI)
    show "w_mem s4 = w_mem s" "w_brk s \<le> w_brk s4" using s4 R(3,5) S by simp_all
    show "w_tables s4 x = w_tables s x" if "x \<notin> {h}" for x
      using that s4(5) R(6) S by simp
    show "w_rw s4 l = w_rw s l" if "x \<notin> {h}" "lock_of_table x l" for x l
      using that s4(7) R(10,11) s1(2) by (cases l) auto
    show "w_mx s4 m = w_mx s m" for m using s4 R(4) S by simp
    fix x j assume x: "x < w_brk s" "x \<notin> set SS"
    have ax: "a \<noteq> (x, j)"
      using ht_ptrs_owned [OF D3(12), of a] R(13) [of "fst a"] x S free_in_ptrs [of a "a # F'"] by fastforce
    have Tx: "T \<noteq> x" using D(3) x by auto
    show "w_slabs s4 x = w_slabs s x" using s4 R(7) [of x] x S by simp
    show "w_ents s4 (x, j) = w_ents s (x, j)" using s4(1) ax Tx R(8) [of "(x, j)"] x S by auto
    show "w_rw s4 (EntryLock (x, j)) = w_rw s (EntryLock (x, j))"
      using s4(7) Tx R(9) [of "(x, j)"] x S s1(2) by auto
  qed
  have "live_kds (w_ents s3) T n = live_kds (w_ents s) T n" by (rule live_kds_cong [OF D(10) ents])
  then have live: "live_kds (w_ents s4) T n \<subseteq> insert (key, data) (live_kds (w_ents s) T n)"
    using bucket_insert_live [OF ins] by simp
  have "\<exists>sp fc. t'\<lparr>ht_freechain := hte_next ae\<rparr> = t\<lparr>ht_slabs := sp, ht_freechain := fc\<rparr>"
    unfolding t' by auto
  moreover have "\<forall>x\<in>set SS'. x \<in> set SS \<or> w_brk s \<le> x" using R(13) S by auto
  moreover have "slabs_end s t SS \<longrightarrow> slabs_end s4 (t'\<lparr>ht_freechain := hte_next ae\<rparr>) SS'" using R(14) S s4(2) by simp
  ultimately show ?thesis
    unfolding run runs_Some inserted_def ht_inv_def using core4 unl pairs live frame by blast
qed


lemma ht_implicit_resize_never:
  assumes "w_tables s h = Some t" "ht_threshold_evaluate t = Ptr ht_evaluate_threshold_default"
    "ht_table t = Ptr T" "w_slabs s T = Some sl"
  shows "ht_implicit_resize rz h s = Some (0, s)"
  using assms by (simp add: ht_implicit_resize_def ht_evaluate_threshold_default_def)

lemma inserted_core: "inserted h s t T n SS key data s' \<Longrightarrow> \<exists>t' C' F' SS'. ht_core h s' t' T n C' F' SS'"
  by (auto simp: inserted_def ht_inv_def)

lemma ht_map_bucket_key:
  assumes core: "ht_core h s t T n C F SS"
  shows "(\<exists>p\<in>set (bucket (w_ents s) (T, hash_index (w_mem s) t n key)). key_at (w_mem s) t (w_ents s) key p)
      \<longleftrightarrow> ht_map h s (ht_key h s key) \<noteq> None"
  using core by (cases rule: ht_map_cases [where key = key]) auto

text \<open>The whole function: a key that is there already is reported, any other key is added.\<close>

lemma ht_insert_key_with_spec:
  assumes env: "env_ok env" and inv: "ht_inv h s t T n C F SS"
  shows "runs (ht_insert_key_with rz env h key data s) (\<lambda>r s'.
    if ht_options t AND hto_dups_allowed = 0 \<and> ht_map h s (ht_key h s key) \<noteq> None
    then r = -1 \<and> w_errno s' = EEXIST \<and> same_data s s' \<and> w_rw s' = w_rw s
    else r = 0 \<and> inserted h s t T n SS key data s')"
proof -
  have core: "ht_core h s t T n C F SS" and ul: "ht_unlocked h s (ht_ptrs T n C F)"
    using inv by (simp_all add: ht_inv_def)
  note D = ht_coreD [OF core] and U = ht_unlockedD [OF ul]
  let ?i = "hash_index (w_mem s) t n key"
  have i: "?i < n" by (rule hash_index_less [OF D(4,5)])
  obtain s1 e where e: "w_ents s (T, ?i) = Some e" and s1: "same_data s s1" "w_rw s1 = (w_rw s)(EntryLock (T, ?i) := RW_Write)"
    and run: "ht_insert_key_with rz env h key data s =
     (if \<not> occupied e then ht_fill_slot env h (T, ?i) key data s1
      else do {
       (dup, depth) \<leftarrow> ht_dup_search h key (Ptr (T, ?i)) 0 s1;
       if dup
       then do {
         (_, s) \<leftarrow> ht_average_increment env h Searches depth s1;
         (_, s) \<leftarrow> ht_counter_add env h Hits 1 s;
         (ret, s) \<leftarrow> rw_unlock env (EntryLock (T, ?i)) (set_errno EEXIST s);
         if ret \<noteq> 0
         then do { (_, s) \<leftarrow> ht_counter_add env h Errors 1 s; Some (-2, set_errno ret s) }
         else Some (-1, s) }
       else do {
       s \<leftarrow> (if ht_options t AND hto_dups_allowed = 0
             then do { (_, s) \<leftarrow> ht_average_increment env h Searches depth s1; Some s }
             else Some s1);
       (ret, s) \<leftarrow> ht_chain_entry env h (T, ?i) key data depth s;
       if ret \<noteq> 0 then Some (ret, s)
       else ht_implicit_resize rz h s } })"
    by (rule insert_prefix [OF env inv])
  note S = same_dataD [OF s1(1)]
  have bk: "bucket (w_ents s) (T, ?i) = (if occupied e then (T, ?i) # C ?i else [])"
    by (rule bucket_eq [OF D(10) i e])
  have free: "w_rw s (EntryLock (T, ?i)) = RW_Free" using U(3) [OF slot_in_ptrs [OF i]] .
  have isdup: "(\<exists>p\<in>set (bucket (w_ents s) (T, ?i)). key_at (w_mem s) t (w_ents s) key p)
      \<longleftrightarrow> ht_map h s (ht_key h s key) \<noteq> None"
    by (rule ht_map_bucket_key [OF core])
  let ?dup = "ht_options t AND hto_dups_allowed = 0 \<and> ht_map h s (ht_key h s key) \<noteq> None"
  show ?thesis
  proof (cases "occupied e")
    case False
    then have nd: "?dup = False" using isdup bk by auto
    show ?thesis unfolding nd if_False run
      using False fill_slot_ok [OF env inv e False s1] by simp
  next
    case True
    have "entry_chain (w_ents s1) (Ptr (T, ?i)) = Some ((T, ?i) # C ?i)"
      using ht_shapeD(3) [OF D(10) i] e S by auto
    then obtain dep where dup: "ht_dup_search h key (Ptr (T, ?i)) 0 s1 = Some (?dup, dep)"
      using ht_dup_search_ok [of s1 h t "Ptr (T, ?i)" "(T, ?i) # C ?i" key 0] D(1,8) S isdup bk True by auto
    show ?thesis
    proof (cases ?dup)
      case True': True
      have "(w_rw s)(EntryLock (T, ?i) := RW_Write, EntryLock (T, ?i) := RW_Free) = w_rw s"
        using free by (simp add: fun_upd_idem)
      with True True' run dup env s1 S U show ?thesis by (simp add: sync_simps)
    next
      case False
      define s2 where "s2 = (if ht_options t AND hto_dups_allowed = 0
         then average_apply h Searches (average_increment dep) s1 else s1)"
      have s2: "same_data s s2" "w_rw s2 = (w_rw s)(EntryLock (T, ?i) := RW_Write)"
        using s1 by (simp_all add: s2_def)
      have new: "\<forall>p\<in>set (bucket (w_ents s) (T, ?i)). \<not> key_at (w_mem s) t (w_ents s) key p"
        if "ht_options t AND hto_dups_allowed = 0"
        using False isdup that by auto
      obtain s3 where s3: "ht_chain_entry env h (T, ?i) key data dep s2 = Some (0, s3)"
          "inserted h s t T n SS key data s3"
        using chain_entry_ok [OF env inv e True new s2] by (auto simp: runs_def)
      then obtain t' C' F' SS' where core3: "ht_core h s3 t' T n C' F' SS'"
        using inserted_core by blast
      have "ht_implicit_resize rz h s3 = Some (0, s3)"
        using ht_coreD(1,2,6,9) [OF core3] ht_implicit_resize_never by blast
      moreover have "(if ht_options t AND hto_dups_allowed = 0
             then do { (_, s) \<leftarrow> ht_average_increment env h Searches dep s1; Some s }
             else Some s1) = Some s2"
        using env U S by (simp add: s2_def sync_simps)
      moreover have nd: "?dup = False" using False by blast
      ultimately show ?thesis
        unfolding nd if_False run using True s3 dup [unfolded nd] by simp
    qed
  qed
qed

end
