(* ===== verification/HT_Delete.thy ===== *)
theory HT_Delete
  imports HT_Insert
begin

text \<open>
  \<^verbatim>\<open>ht_delete_key\<close> by the place of the key in its bucket: not there, behind the slot, in the slot
  with others behind it, in the slot alone. In every case the pair is gone afterwards. The data
  returned is that of the key only in the second and the last case, and in the last case the lock of
  the slot is still held when the function returns, so that no later operation on it does.
\<close>

section \<open>Contents of a bucket\<close>

definition bucket_kds :: "(eaddr \<rightharpoonup> hashtable_entry) \<Rightarrow> addr \<Rightarrow> nat \<Rightarrow> (u64 \<times> u64) option list" where
  "bucket_kds E T i = map (\<lambda>p. map_option entry_kd (E p)) (bucket E (T, i))"

definition kd_pair :: "memory \<Rightarrow> nat \<Rightarrow> (u64 \<times> u64) option \<Rightarrow> u8 list \<times> u64" where
  "kd_pair mem k x = (case x of None \<Rightarrow> ([], 0) | Some (a, d) \<Rightarrow> (key_bytes mem a k, d))"

lemma entry_pair_eq: "entry_pair mem k E p = kd_pair mem k (map_option entry_kd (E p))"
  by (cases "E p") (auto simp: entry_pair_def kd_pair_def entry_kd_def)

lemma ht_keyed_kds:
  "ht_keyed mem E t T n \<longleftrightarrow>
     (\<forall>i<n. \<forall>a d. Some (a, d) \<in> set (bucket_kds E T i) \<longrightarrow>
        ht_hash_bytes mem a (scast (ht_keysize t)) (of_nat n) = Some (of_nat i)) \<and>
     (ht_options t AND hto_dups_allowed = 0 \<longrightarrow>
        (\<forall>i<n. distinct (map (fst \<circ> kd_pair mem (ht_keylen t)) (bucket_kds E T i))))"
proof -
  have all: "(\<forall>p\<in>set (bucket E (T, i)). \<forall>e. E p = Some e \<longrightarrow> P (hte_key e)) \<longleftrightarrow>
        (\<forall>a d. Some (a, d) \<in> set (bucket_kds E T i) \<longrightarrow> P a)" for i P
  proof -
    have "Some (a, d) \<in> set (bucket_kds E T i) \<longleftrightarrow>
        (\<exists>p\<in>set (bucket E (T, i)). \<exists>e. E p = Some e \<and> hte_key e = a \<and> hte_data e = d)" for a d
    proof -
      have "Some (a, d) = map_option entry_kd x \<longleftrightarrow> (\<exists>e. x = Some e \<and> hte_key e = a \<and> hte_data e = d)" for x
        by (cases x) (auto simp: entry_kd_def)
      then show ?thesis by (simp add: bucket_kds_def image_iff)
    qed
    then show ?thesis by (simp only:) blast
  qed
  have "map (fst \<circ> kd_pair mem k) (bucket_kds E T i) = map (fst \<circ> entry_pair mem k E) (bucket E (T, i))" for i k
    by (simp add: bucket_kds_def entry_pair_eq)
  then show ?thesis unfolding ht_keyed_def
    using all [where P = "\<lambda>a. ht_hash_bytes mem a (scast (ht_keysize t)) (of_nat n) = Some (of_nat i)" for i]
    by (simp only:)
qed

lemma ht_pairs_kds:
  assumes "ht_core h s t T n C F SS"
  shows "ht_pairs h s = concat (map (\<lambda>i. map (kd_pair (w_mem s) (ht_keylen t)) (bucket_kds (w_ents s) T i)) [0..<n])"
proof -
  have "entry_pair mem k E = (\<lambda>p. kd_pair mem k (map_option entry_kd (E p)))" for mem k E
    by (rule ext) (rule entry_pair_eq)
  then show ?thesis unfolding ht_pairs_eq [OF assms] by (simp add: bucket_kds_def comp_def)
qed

text \<open>One entry less in one bucket.\<close>

lemma ht_core_delete:
  assumes core: "ht_core h s t T n C F SS" and i: "i < n"
    and kds: "bucket_kds (w_ents s) T i = xs @ x # ys" "bucket_kds (w_ents s') T i = xs @ ys"
      "\<And>j. j < n \<Longrightarrow> j \<noteq> i \<Longrightarrow> bucket_kds (w_ents s') T j = bucket_kds (w_ents s) T j"
    and sh: "ht_shape (w_ents s') fc' T n C' F'"
    and ptrs: "set (ht_ptrs T n C' F') = set (ht_ptrs T n C F)"
    and s': "w_tables s' h = Some (t\<lparr>ht_freechain := fc'\<rparr>)" "w_slabs s' = w_slabs s" "w_mem s' = w_mem s"
      "w_brk s' = w_brk s"
  shows "ht_core h s' (t\<lparr>ht_freechain := fc'\<rparr>) T n C' F' SS"
    "\<exists>us vs. ht_pairs h s = us @ kd_pair (w_mem s) (ht_keylen t) x # vs \<and> ht_pairs h s' = us @ vs"
proof -
  note D = ht_coreD [OF core]
  have sub: "set (bucket_kds (w_ents s') T j) \<subseteq> set (bucket_kds (w_ents s) T j)"
    "distinct (map f (bucket_kds (w_ents s) T j)) \<Longrightarrow> distinct (map f (bucket_kds (w_ents s') T j))" if "j < n" for j and f :: "_ \<Rightarrow> u8 list"
    by (cases "j = i"; use kds that in auto)+
  have "ht_keyed (w_mem s) (w_ents s') t T n"
    using D(11) sub unfolding ht_keyed_kds by blast
  moreover have "ht_owned (w_slabs s) (ht_slabs t) SS (ht_ptrs T n C' F')"
    using D(12) ptrs by (simp add: ht_owned_def)
  ultimately show core': "ht_core h s' (t\<lparr>ht_freechain := fc'\<rparr>) T n C' F' SS"
    unfolding ht_core_def using D sh s' by (simp add: ht_keyed_def ht_keylen_def)
  have k: "ht_keylen (t\<lparr>ht_freechain := fc'\<rparr>) = ht_keylen t" by (simp add: ht_keylen_def)
  let ?g = "kd_pair (w_mem s) (ht_keylen t)"
  let ?f = "\<lambda>j. map ?g (bucket_kds (w_ents s) T j)" and ?f' = "\<lambda>j. map ?g (bucket_kds (w_ents s') T j)"
  have lo: "map ?f' [0..<i] = map ?f [0..<i]"
  proof (rule list.map_cong0)
    show "?f' j = ?f j" if "j \<in> set [0..<i]" for j using kds(3) [of j] that i by simp
  qed
  have hi: "map ?f' [Suc i..<n] = map ?f [Suc i..<n]"
  proof (rule list.map_cong0)
    show "?f' j = ?f j" if "j \<in> set [Suc i..<n]" for j using kds(3) [of j] that by simp
  qed
  show "\<exists>us vs. ht_pairs h s = us @ ?g x # vs \<and> ht_pairs h s' = us @ vs"
    unfolding ht_pairs_kds [OF core] ht_pairs_kds [OF core'] s'(3) k
  proof (intro exI conjI)
    show "concat (map ?f [0..<n]) =
        (concat (map ?f [0..<i]) @ map ?g xs) @ ?g x # (map ?g ys @ concat (map ?f [Suc i..<n]))"
      unfolding concat_map_split [OF i, of ?f] kds by simp
    show "concat (map ?f' [0..<n]) =
        (concat (map ?f [0..<i]) @ map ?g xs) @ (map ?g ys @ concat (map ?f [Suc i..<n]))"
      unfolding concat_map_split [OF i, of ?f'] kds lo hi by simp
  qed
qed

lemma unchain_run:
  assumes env: "env_ok env" and t: "w_tables s h = Some t"
    and e: "w_ents s p = Some pe" "w_ents s q = Some qe" "p \<noteq> q"
    and rw: "w_rw s (FreeLock h) = RW_Free" "w_rw s (EntryLock p) = RW_Write" "w_rw s (EntryLock q) = RW_Write"
  obtains s' where "ht_unchain_entry env h p q s = Some (hte_data qe, s')"
    "w_ents s' = (w_ents s)(p \<mapsto> pe\<lparr>hte_next := hte_next qe\<rparr>,
        q \<mapsto> qe\<lparr>hte_flags := hte_flags qe AND NOT htef_occupied, hte_next := ht_freechain t\<rparr>)"
    "w_slabs s' = w_slabs s" "w_mem s' = w_mem s" "w_brk s' = w_brk s" "w_mx s' = w_mx s" "w_errno s' = 0"
    "w_tables s' = (w_tables s)(h \<mapsto> t\<lparr>ht_freechain := Ptr q\<rparr>)"
    "w_rw s' = (w_rw s)(EntryLock p := RW_Free, EntryLock q := RW_Free)"
proof -
  let ?q = "qe\<lparr>hte_flags := hte_flags qe AND NOT htef_occupied\<rparr>"
  let ?s1 = "rw_set (FreeLock h) RW_Write (tick (s\<lparr>w_ents := (w_ents s)(q \<mapsto> ?q)\<rparr>))"
  let ?s2 = "?s1\<lparr>w_ents := (w_ents s)(q \<mapsto> ?q, p \<mapsto> pe\<lparr>hte_next := hte_next qe\<rparr>, q \<mapsto> ?q\<lparr>hte_next := ht_freechain t\<rparr>),
     w_tables := (w_tables s)(h \<mapsto> t\<lparr>ht_freechain := Ptr q\<rparr>)\<rparr>"
  let ?s3 = "set_errno 0 (rw_set (EntryLock q) RW_Free (tick (rw_set (EntryLock p) RW_Free
     (tick (rw_set (FreeLock h) RW_Free (tick ?s2))))))"
  have run: "ht_unchain_entry env h p q s = Some (hte_data qe, ?s3)"
    using env t e rw by (simp add: ht_unchain_entry_def sync_simps)
  have "(w_rw s)(FreeLock h := RW_Write, FreeLock h := RW_Free) = w_rw s" using rw by (simp add: fun_upd_idem)
  then show thesis using e(3) by (intro that [OF run]) (simp_all add: fun_upd_twist)
qed

section \<open>The parts of the function\<close>

lemma delete_miss:
  assumes env: "env_ok env" and inv: "ht_inv h s t T n C F SS" and none: "ht_map h s (ht_key h s key) = None"
  shows "runs (ht_delete_key env h key s) (\<lambda>d s'. d = 0 \<and> w_errno s' = ENOENT \<and> same_data s s' \<and> w_rw s' = w_rw s)"
proof -
  have core: "ht_core h s t T n C F SS" and ul: "ht_unlocked h s (ht_ptrs T n C F)"
    using inv by (simp_all add: ht_inv_def)
  note D = ht_coreD [OF core] and U = ht_unlockedD [OF ul]
  let ?s1 = "set_errno 0 (rw_set (TableLock h) RW_Write (tick (counter_bump h Deletes 1 s)))"
  have core1: "ht_core h ?s1 t T n C F SS" using core by (subst ht_core_cong [of s]) auto
  have "\<forall>p\<in>set (bucket (w_ents s) (T, hash_index (w_mem s) t n key)). \<not> key_at (w_mem s) t (w_ents s) key p"
    using ht_map_bucket_key [OF core, of key] none by blast
  then have "runs (ht_locate_entry_int env h key Wrlock True ?s1)
        (\<lambda>(f, p) s'. f = NULL \<and> w_errno s' = ENOENT \<and> same_data s s' \<and> w_rw s' = w_rw ?s1)"
    using locate_entry_int(1) [OF env core1, where lf = Wrlock and want = True and key = key] U by simp
  then obtain s2 p where s2: "ht_locate_entry_int env h key Wrlock True ?s1 = Some ((NULL, p), s2)"
      "w_errno s2 = ENOENT" "same_data s s2" "w_rw s2 = (w_rw s)(TableLock h := RW_Write)"
    by (auto simp: runs_def)
  have "(w_rw s)(TableLock h := RW_Write, TableLock h := RW_Free) = w_rw s"
    using U by (simp add: fun_upd_idem)
  with s2 env U show ?thesis by (simp add: ht_delete_key_def sync_simps)
qed

lemma delete_prefix:
  assumes env: "env_ok env" and inv: "ht_inv h s t T n C F SS"
    and q: "bucket (w_ents s) (T, hash_index (w_mem s) t n key) = xs @ q # ys"
      "\<And>p. p \<in> set xs \<Longrightarrow> \<not> key_at (w_mem s) t (w_ents s) key p" "key_at (w_mem s) t (w_ents s) key q"
  obtains s2 where "same_data s s2"
    "w_rw s2 = hold RW_Write ((if xs = [] then [] else [last xs]) @ [q]) (w_rw s)"
    "ht_delete_key env h key s = (case (if xs = [] then NULL else Ptr (last xs)) of
           Ptr phte \<Rightarrow> ht_unchain_entry env h phte q s2
         | NULL \<Rightarrow> do {
             de \<leftarrow> w_ents s2 q;
             case hte_next de of
               NULL \<Rightarrow> do {
                 s \<leftarrow> upd_hte q (\<lambda>e. e\<lparr>hte_flags := hte_flags e AND NOT htef_occupied\<rparr>) s2;
                 Some (hte_data de, s) }
             | Ptr nxt \<Rightarrow> do {
                 (ret, s) \<leftarrow> rw_wrlock env (EntryLock nxt) s2;
                 if ret \<noteq> 0
                 then do {
                   (_, s) \<leftarrow> rw_unlock env (EntryLock q) s;
                   (_, s) \<leftarrow> ht_counter_add env h Errors 1 s;
                   Some (0, set_errno ret s) }
                 else do {
                   ne \<leftarrow> w_ents s nxt;
                   s \<leftarrow> upd_hte q (\<lambda>e. e\<lparr>hte_key := hte_key ne, hte_data := hte_data ne,
                                            hte_flags := hte_flags ne\<rparr>) s;
                   ht_unchain_entry env h q nxt s } } })"
proof -
  have core: "ht_core h s t T n C F SS" and ul: "ht_unlocked h s (ht_ptrs T n C F)"
    using inv by (simp_all add: ht_inv_def)
  note D = ht_coreD [OF core] and U = ht_unlockedD [OF ul]
  let ?s1 = "set_errno 0 (rw_set (TableLock h) RW_Write (tick (counter_bump h Deletes 1 s)))"
  let ?p = "if xs = [] then NULL else Ptr (last xs)"
  have core1: "ht_core h ?s1 t T n C F SS" using core by (subst ht_core_cong [of s]) auto
  have "runs (ht_locate_entry_int env h key Wrlock True ?s1)
        (\<lambda>(f, p) s'. f = Ptr q \<and> p = ?p \<and> same_data s s' \<and> w_rw s' = hold RW_Write (ptr_list p @ [q]) (w_rw ?s1))"
    using locate_entry_int(2) [OF env core1, where lf = Wrlock and want = True and key = key and xs = xs and q = q and ys = ys] U q
    by (auto simp: runs_def)
  then obtain s2 where s2: "ht_locate_entry_int env h key Wrlock True ?s1 = Some ((Ptr q, ?p), s2)"
      "same_data s s2" "w_rw s2 = hold RW_Write (ptr_list ?p @ [q]) ((w_rw s)(TableLock h := RW_Write))"
    by (auto simp: runs_def)
  let ?s3 = "rw_set (TableLock h) RW_Free (tick s2)"
  show thesis
  proof (rule that)
    show "same_data s ?s3" using s2 by simp
    have "(hold RW_Write ps ((w_rw s)(TableLock h := RW_Write)))(TableLock h := RW_Free) = hold RW_Write ps (w_rw s)" for ps
      using U(1) by (auto simp: hold_def fun_eq_iff)
    then show "w_rw ?s3 = hold RW_Write ((if xs = [] then [] else [last xs]) @ [q]) (w_rw s)"
      using s2(3) by simp
  qed (use s2 env U in \<open>simp add: ht_delete_key_def sync_simps cong: if_cong\<close>)
qed

text \<open>What a deletion leaves: the pair \<open>x\<close> is gone.\<close>

definition deleted ::
    "addr \<Rightarrow> world \<Rightarrow> hashtable \<Rightarrow> addr \<Rightarrow> nat \<Rightarrow> addr list \<Rightarrow> u8 list \<times> u64 \<Rightarrow> world \<Rightarrow> bool" where
  "deleted h s t T n SS x s' \<longleftrightarrow>
     (\<exists>C' F' fc. ht_inv h s' (t\<lparr>ht_freechain := fc\<rparr>) T n C' F' SS) \<and>
     (\<exists>us vs. ht_pairs h s = us @ x # vs \<and> ht_pairs h s' = us @ vs) \<and> w_errno s' = 0 \<and> w_slabs s' = w_slabs s"

lemma bucket_other:
  assumes sh: "ht_shape E fc T n C F" and sh': "ht_shape E' fc' T n (C(i := X)) F'" and j: "j < n" "j \<noteq> i"
    and eq: "\<And>p. p \<in> set ((T, j) # C j) \<Longrightarrow> E' p = E p"
  shows "bucket_kds E' T j = bucket_kds E T j"
proof -
  obtain x where x: "E (T, j) = Some x" using ht_shapeD(3) [OF sh j(1)] by blast
  then have x': "E' (T, j) = Some x" using eq by simp
  have b: "bucket E (T, j) = (if occupied x then (T, j) # C j else [])"
      "bucket E' (T, j) = (if occupied x then (T, j) # C j else [])"
    using bucket_eq [OF sh j(1) x] bucket_eq [OF sh' j(1) x'] j(2) by simp_all
  show ?thesis unfolding bucket_kds_def b using eq by auto
qed

lemma unlocked_after:
  assumes "ht_unlocked h s ps" "set ps' = set ps" "w_mx s' = w_mx s"
    "\<And>l. w_rw s' l = w_rw s l"
  shows "ht_unlocked h s' ps'"
  using assms by (simp add: ht_unlocked_def)

lemma unlink_deleted:
  assumes inv: "ht_inv h s t T n C F SS" and i: "i < n"
    and e: "w_ents s (T, i) = Some e" "occupied e"
    and split: "(T, i) # C i = zs @ p # q # ys"
    and pq: "w_ents s p = Some pe" "w_ents s q = Some qe"
    and p': "hte_next p' = hte_next qe" "occupied p'" "lock_inited p'"
    and q': "hte_next q' = ht_freechain t" "\<not> occupied q'" "lock_inited q'"
    and kd: "entry_kd p' = entry_kd pe \<and> x = entry_kd qe \<or> entry_kd p' = entry_kd qe \<and> x = entry_kd pe"
    and s': "w_ents s' = (w_ents s)(p \<mapsto> p', q \<mapsto> q')" "w_slabs s' = w_slabs s" "w_mem s' = w_mem s"
      "w_brk s' = w_brk s" "w_mx s' = w_mx s" "w_errno s' = 0"
      "w_tables s' = (w_tables s)(h \<mapsto> t\<lparr>ht_freechain := Ptr q\<rparr>)" "w_rw s' = w_rw s"
  shows "deleted h s t T n SS (kd_pair (w_mem s) (ht_keylen t) (Some x)) s'"
proof -
  have core: "ht_core h s t T n C F SS" and ul: "ht_unlocked h s (ht_ptrs T n C F)"
    using inv by (simp_all add: ht_inv_def)
  note D = ht_coreD [OF core]
  note S = ht_shapeD [OF D(10)]
  let ?E = "(w_ents s)(p \<mapsto> p', q \<mapsto> q')" and ?C = "C(i := tl (zs @ p # ys))"
  have shape: "ht_shape (w_ents s') (Ptr q) T n ?C (q # F)"
    unfolding s'(1) by (rule ht_shape_unlink [OF D(10) i split pq(2) p' q'])
  have dist: "distinct (zs @ p # q # ys)"
    using S(8) [OF i] S(4) [OF i, of i] i by (simp flip: split)
  have mem: "p \<in> set ((T, i) # C i)" "q \<in> set (C i)" using split by (cases zs; auto)+
  have ms: "mset (ht_ptrs T n ?C (q # F)) = mset (ht_ptrs T n C F)"
    using split by (intro mset_ht_ptrs_upd [OF i]) (cases zs; auto)
  have bk: "bucket (w_ents s) (T, i) = zs @ p # q # ys"
    using bucket_eq [OF D(10) i e(1)] e(2) split by simp
  obtain e1 where e1: "w_ents s' (T, i) = Some e1" "occupied e1"
  proof (cases "p = (T, i)")
    case True
    then show ?thesis using that [of p'] p' s'(1) dist by auto
  next
    case False
    moreover have "q \<noteq> (T, i)" using S(4) [OF i, of i] mem(2) i by auto
    ultimately show ?thesis using that [of e] e s'(1) by auto
  qed
  have bk': "bucket (w_ents s') (T, i) = zs @ p # ys"
    using bucket_eq [OF shape i e1(1)] e1(2) split by (cases zs) auto
  have other: "p \<notin> set ((T, j) # C j) \<and> q \<notin> set ((T, j) # C j)" if "j < n" "j \<noteq> i" for j
    using mem S(4) [OF i, of j] S(4) [OF that(1), of i] S(7) [OF i _ that(1), of p] S(7) [OF i _ that(1), of q] i that by auto
  have kds': "bucket_kds (w_ents s') T j = bucket_kds (w_ents s) T j" if "j < n" "j \<noteq> i" for j
  proof (rule bucket_other [OF D(10) shape that])
    show "w_ents s' r = w_ents s r" if "r \<in> set ((T, j) # C j)" for r
      using other [OF \<open>j < n\<close> \<open>j \<noteq> i\<close>] that s'(1) by auto
  qed
  let ?k = "\<lambda>p. map_option entry_kd (w_ents s p)" and ?k' = "\<lambda>p. map_option entry_kd (w_ents s' p)"
  have rest: "map ?k' zs = map ?k zs" "map ?k' ys = map ?k ys" using dist s'(1) by auto
  have ki: "bucket_kds (w_ents s) T i = map ?k zs @ Some (entry_kd pe) # Some (entry_kd qe) # map ?k ys"
      "bucket_kds (w_ents s') T i = map ?k zs @ Some (entry_kd p') # map ?k ys"
    using bk bk' rest pq s'(1) dist by (simp_all add: bucket_kds_def)
  note del = ht_core_delete [OF core i _ _ kds' shape mset_eq_setD [OF ms], where x = "Some x"]
  have tab: "w_tables s' h = Some (t\<lparr>ht_freechain := Ptr q\<rparr>)" using s'(7) by simp
  have "ht_core h s' (t\<lparr>ht_freechain := Ptr q\<rparr>) T n ?C (q # F) SS \<and>
    (\<exists>us vs. ht_pairs h s = us @ kd_pair (w_mem s) (ht_keylen t) (Some x) # vs \<and> ht_pairs h s' = us @ vs)"
    using kd
  proof
    assume "entry_kd p' = entry_kd pe \<and> x = entry_kd qe"
    then show ?thesis
      using del [where xs = "map ?k zs @ [Some (entry_kd pe)]" and ys = "map ?k ys"] ki tab s' by simp
  next
    assume "entry_kd p' = entry_kd qe \<and> x = entry_kd pe"
    then show ?thesis
      using del [where xs = "map ?k zs" and ys = "Some (entry_kd qe) # map ?k ys"] ki tab s' by simp
  qed
  moreover have "ht_unlocked h s' (ht_ptrs T n ?C (q # F))"
    using unlocked_after [OF ul mset_eq_setD [OF ms] s'(5)] s'(8) by simp
  ultimately show ?thesis unfolding deleted_def ht_inv_def using s' by blast
qed

lemma key_at_pair:
  "key_at (w_mem s) t (w_ents s) key q \<Longrightarrow> w_ents s q = Some e \<Longrightarrow> w_tables s h = Some t \<Longrightarrow>
   kd_pair (w_mem s) (ht_keylen t) (Some (entry_kd e)) = (ht_key h s key, hte_data e)"
  by (auto simp: key_at_def kd_pair_def entry_kd_def ht_key_def)

lemma hold_all_free:
  "(\<And>p. p \<in> set ps \<Longrightarrow> R (EntryLock p) = RW_Free) \<Longrightarrow> set ps = {a, b} \<Longrightarrow>
   (hold L ps R)(EntryLock a := RW_Free, EntryLock b := RW_Free) = R"
  by (auto simp: hold_def fun_eq_iff)

text \<open>A key behind the slot of its bucket is unlinked and its data returned.\<close>

lemma delete_behind:
  assumes env: "env_ok env" and inv: "ht_inv h s t T n C F SS"
    and q: "bucket (w_ents s) (T, hash_index (w_mem s) t n key) = xs @ q # ys" "xs \<noteq> []"
      "\<And>p. p \<in> set xs \<Longrightarrow> \<not> key_at (w_mem s) t (w_ents s) key p" "key_at (w_mem s) t (w_ents s) key q"
    and qe: "w_ents s q = Some qe"
  shows "runs (ht_delete_key env h key s) (\<lambda>d s'. d = hte_data qe \<and>
     deleted h s t T n SS (ht_key h s key, hte_data qe) s')"
proof -
  have core: "ht_core h s t T n C F SS" and ul: "ht_unlocked h s (ht_ptrs T n C F)"
    using inv by (simp_all add: ht_inv_def)
  note D = ht_coreD [OF core] and U = ht_unlockedD [OF ul]
  let ?i = "hash_index (w_mem s) t n key"
  have i: "?i < n" by (rule hash_index_less [OF D(4,5)])
  obtain zs p where xs: "xs = zs @ [p]" using q(2) by (metis rev_exhaust)
  obtain e where e: "w_ents s (T, ?i) = Some e" using ht_shapeD(3) [OF D(10) i] by blast
  have occ: "occupied e" and split: "(T, ?i) # C ?i = zs @ p # q # ys"
    using bucket_eq [OF D(10) i e] q(1) xs by (auto split: if_splits)
  have mem: "p \<in> set ((T, ?i) # C ?i)" "q \<in> set (C ?i)" "p \<noteq> q"
    using split ht_shapeD(8) [OF D(10) i] ht_shapeD(4) [OF D(10) i, of ?i] i by (cases zs; auto)+
  have ptr: "p \<in> set (ht_ptrs T n C F)" "q \<in> set (ht_ptrs T n C F)"
    using mem i by (auto intro: chain_in_ptrs)
  obtain pe where pe: "w_ents s p = Some pe" "lock_inited pe" "occupied pe"
    using ht_shapeD(10) [OF D(10) ptr(1)] ht_shapeD(11) [OF D(10) i, of p] mem(1) e occ by auto
  have li: "lock_inited qe" using ht_shapeD(10) [OF D(10) ptr(2)] qe by auto
  obtain s2 where s2: "same_data s s2" "w_rw s2 = hold RW_Write [p, q] (w_rw s)"
    and run: "ht_delete_key env h key s = ht_unchain_entry env h p q s2"
    by (rule delete_prefix [OF env inv q(1,3,4)]) (use xs in auto)
  note S = same_dataD [OF s2(1)]
  obtain s3 where run3: "ht_unchain_entry env h p q s2 = Some (hte_data qe, s3)"
    and s3: "w_ents s3 = (w_ents s2)(p \<mapsto> pe\<lparr>hte_next := hte_next qe\<rparr>,
        q \<mapsto> qe\<lparr>hte_flags := hte_flags qe AND NOT htef_occupied, hte_next := ht_freechain t\<rparr>)"
    "w_slabs s3 = w_slabs s2" "w_mem s3 = w_mem s2" "w_brk s3 = w_brk s2" "w_mx s3 = w_mx s2" "w_errno s3 = 0"
    "w_tables s3 = (w_tables s2)(h \<mapsto> t\<lparr>ht_freechain := Ptr q\<rparr>)"
    "w_rw s3 = (w_rw s2)(EntryLock p := RW_Free, EntryLock q := RW_Free)"
    by (rule unchain_run [OF env, of s2 h t p pe q qe]) (use pe qe D(1) S mem U s2 in \<open>auto simp: hold_apply hold_def intro: that\<close>)
  have rw: "w_rw s3 = w_rw s"
    unfolding s3(8) s2(2) using U(3) ptr by (intro hold_all_free) auto
  have "deleted h s t T n SS (kd_pair (w_mem s) (ht_keylen t) (Some (entry_kd qe))) s3"
    by (rule unlink_deleted [OF inv i e occ split pe(1) qe, where p' = "pe\<lparr>hte_next := hte_next qe\<rparr>" and
        q' = "qe\<lparr>hte_flags := hte_flags qe AND NOT htef_occupied, hte_next := ht_freechain t\<rparr>"])
      (use s3 S rw pe li in \<open>simp_all add: entry_flags entry_kd_def\<close>)
  then show ?thesis
    unfolding run run3 runs_Some key_at_pair [OF q(4) qe D(1)] by simp
qed

text \<open>
  A key in the slot of its bucket with others behind it: the second entry moves into the slot, the
  first key is gone, and the result is the data of the second key.
\<close>

lemma delete_head:
  assumes env: "env_ok env" and inv: "ht_inv h s t T n C F SS"
    and q: "bucket (w_ents s) (T, hash_index (w_mem s) t n key) = q # r # ys" "key_at (w_mem s) t (w_ents s) key q"
    and qe: "w_ents s q = Some qe" "w_ents s r = Some re"
  shows "runs (ht_delete_key env h key s) (\<lambda>d s'. d = hte_data re \<and>
     deleted h s t T n SS (ht_key h s key, hte_data qe) s')"
proof -
  have core: "ht_core h s t T n C F SS" and ul: "ht_unlocked h s (ht_ptrs T n C F)"
    using inv by (simp_all add: ht_inv_def)
  note D = ht_coreD [OF core] and U = ht_unlockedD [OF ul]
  let ?i = "hash_index (w_mem s) t n key"
  have i: "?i < n" by (rule hash_index_less [OF D(4,5)])
  obtain e where e: "w_ents s (T, ?i) = Some e" "entry_chain (w_ents s) (hte_next e) = Some (C ?i)"
    using ht_shapeD(3) [OF D(10) i] by blast
  have occ: "occupied e" and q': "q = (T, ?i)" and ci: "C ?i = r # ys"
    using bucket_eq [OF D(10) i e(1)] q(1) by (auto split: if_splits)
  have eq: "e = qe" using e qe q' by simp
  have nx: "hte_next qe = Ptr r" using e(2) ci eq by (simp add: entry_chain_Cons)
  have mem: "r \<in> set (C ?i)" "q \<noteq> r"
    using ci q' ht_shapeD(4) [OF D(10) i, of ?i] i by auto
  have ptr: "q \<in> set (ht_ptrs T n C F)" "r \<in> set (ht_ptrs T n C F)"
    using mem i q' by (auto intro: chain_in_ptrs)
  have li: "lock_inited re" "occupied re"
    using ht_shapeD(10) [OF D(10) ptr(2)] ht_shapeD(11) [OF D(10) i mem(1)] qe by auto
  obtain s2 where s2: "same_data s s2" "w_rw s2 = hold RW_Write [q] (w_rw s)"
    and run: "ht_delete_key env h key s = do {
             de \<leftarrow> w_ents s2 q;
             case hte_next de of
               NULL \<Rightarrow> do {
                 s \<leftarrow> upd_hte q (\<lambda>e. e\<lparr>hte_flags := hte_flags e AND NOT htef_occupied\<rparr>) s2;
                 Some (hte_data de, s) }
             | Ptr nxt \<Rightarrow> do {
                 (ret, s) \<leftarrow> rw_wrlock env (EntryLock nxt) s2;
                 if ret \<noteq> 0
                 then do {
                   (_, s) \<leftarrow> rw_unlock env (EntryLock q) s;
                   (_, s) \<leftarrow> ht_counter_add env h Errors 1 s;
                   Some (0, set_errno ret s) }
                 else do {
                   ne \<leftarrow> w_ents s nxt;
                   s \<leftarrow> upd_hte q (\<lambda>e. e\<lparr>hte_key := hte_key ne, hte_data := hte_data ne,
                                            hte_flags := hte_flags ne\<rparr>) s;
                   ht_unchain_entry env h q nxt s } } }"
    by (rule delete_prefix [OF env inv, of key "[]" q "r # ys"]) (use q in auto)
  note S = same_dataD [OF s2(1)]
  have free: "w_rw s2 (EntryLock r) = RW_Free" using s2(2) U(3) [OF ptr(2)] mem(2) by (simp add: hold_apply)
  let ?q = "qe\<lparr>hte_key := hte_key re, hte_data := hte_data re, hte_flags := hte_flags re\<rparr>"
  let ?s3 = "(rw_set (EntryLock r) RW_Write (tick s2))\<lparr>w_ents := (w_ents s)(q \<mapsto> ?q)\<rparr>"
  have run3: "ht_delete_key env h key s = ht_unchain_entry env h q r ?s3"
    unfolding run using env qe nx free S by (simp add: sync_simps)
  obtain s4 where run4: "ht_unchain_entry env h q r ?s3 = Some (hte_data re, s4)"
    and s4: "w_ents s4 = (w_ents ?s3)(q \<mapsto> ?q\<lparr>hte_next := hte_next re\<rparr>,
        r \<mapsto> re\<lparr>hte_flags := hte_flags re AND NOT htef_occupied, hte_next := ht_freechain t\<rparr>)"
    "w_slabs s4 = w_slabs ?s3" "w_mem s4 = w_mem ?s3" "w_brk s4 = w_brk ?s3" "w_mx s4 = w_mx ?s3" "w_errno s4 = 0"
    "w_tables s4 = (w_tables ?s3)(h \<mapsto> t\<lparr>ht_freechain := Ptr r\<rparr>)"
    "w_rw s4 = (w_rw ?s3)(EntryLock q := RW_Free, EntryLock r := RW_Free)"
    by (rule unchain_run [OF env, of ?s3 h t q ?q r re]) (use qe D(1) S mem U s2 in \<open>auto simp: hold_apply hold_def intro: that\<close>)
  have rw: "w_rw s4 = w_rw s"
    unfolding s4(8) using s2(2) U(3) [OF ptr(1)] U(3) [OF ptr(2)] by (auto simp: hold_def fun_eq_iff)
  have "deleted h s t T n SS (kd_pair (w_mem s) (ht_keylen t) (Some (entry_kd qe))) s4"
    by (rule unlink_deleted [OF inv i e(1) occ _ qe, where zs = "[]" and ys = ys and p' = "?q\<lparr>hte_next := hte_next re\<rparr>" and
        q' = "re\<lparr>hte_flags := hte_flags re AND NOT htef_occupied, hte_next := ht_freechain t\<rparr>"])
      (use s4 S rw li ci q' in \<open>simp_all add: entry_flags entry_kd_def\<close>)
  then show ?thesis
    unfolding run3 run4 runs_Some key_at_pair [OF q(2) qe(1) D(1)] by simp
qed

text \<open>A key alone in its bucket: it is gone, and the lock of the slot is still held.\<close>

lemma delete_alone:
  assumes env: "env_ok env" and inv: "ht_inv h s t T n C F SS"
    and q: "bucket (w_ents s) (T, hash_index (w_mem s) t n key) = [q]" "key_at (w_mem s) t (w_ents s) key q"
    and qe: "w_ents s q = Some qe"
  shows "runs (ht_delete_key env h key s) (\<lambda>d s'. d = hte_data qe \<and>
     ht_core h s' t T n C F SS \<and> w_mx s' = w_mx s \<and>
     q = (T, hash_index (w_mem s) t n key) \<and> w_mem s' = w_mem s \<and>
     (\<exists>us vs. ht_pairs h s = us @ (ht_key h s key, hte_data qe) # vs \<and> ht_pairs h s' = us @ vs) \<and>
     w_rw s' = (w_rw s)(EntryLock q := RW_Write))"
proof -
  have core: "ht_core h s t T n C F SS" and ul: "ht_unlocked h s (ht_ptrs T n C F)"
    using inv by (simp_all add: ht_inv_def)
  note D = ht_coreD [OF core] and U = ht_unlockedD [OF ul]
  let ?i = "hash_index (w_mem s) t n key"
  have i: "?i < n" by (rule hash_index_less [OF D(4,5)])
  obtain e where e: "w_ents s (T, ?i) = Some e" "entry_chain (w_ents s) (hte_next e) = Some (C ?i)"
    using ht_shapeD(3) [OF D(10) i] by blast
  have occ: "occupied e" and q': "q = (T, ?i)" and ci: "C ?i = []"
    using bucket_eq [OF D(10) i e(1)] q(1) by (auto split: if_splits)
  have eq: "e = qe" using e qe q' by simp
  have nx: "hte_next qe = NULL" using e(2) ci eq by simp
  have li: "lock_inited qe" using ht_shapeD(10) [OF D(10) slot_in_ptrs [OF i]] e(1) eq by auto
  obtain s2 where s2: "same_data s s2" "w_rw s2 = hold RW_Write [q] (w_rw s)"
    and run: "ht_delete_key env h key s = do {
             de \<leftarrow> w_ents s2 q;
             case hte_next de of
               NULL \<Rightarrow> do {
                 s \<leftarrow> upd_hte q (\<lambda>e. e\<lparr>hte_flags := hte_flags e AND NOT htef_occupied\<rparr>) s2;
                 Some (hte_data de, s) }
             | Ptr nxt \<Rightarrow> do {
                 (ret, s) \<leftarrow> rw_wrlock env (EntryLock nxt) s2;
                 if ret \<noteq> 0
                 then do {
                   (_, s) \<leftarrow> rw_unlock env (EntryLock q) s;
                   (_, s) \<leftarrow> ht_counter_add env h Errors 1 s;
                   Some (0, set_errno ret s) }
                 else do {
                   ne \<leftarrow> w_ents s nxt;
                   s \<leftarrow> upd_hte q (\<lambda>e. e\<lparr>hte_key := hte_key ne, hte_data := hte_data ne,
                                            hte_flags := hte_flags ne\<rparr>) s;
                   ht_unchain_entry env h q nxt s } } }"
    by (rule delete_prefix [OF env inv, of key "[]" q "[]"]) (use q in auto)
  note S = same_dataD [OF s2(1)]
  let ?q = "qe\<lparr>hte_flags := hte_flags qe AND NOT htef_occupied\<rparr>"
  let ?s3 = "s2\<lparr>w_ents := (w_ents s)(q \<mapsto> ?q)\<rparr>"
  have run3: "ht_delete_key env h key s = Some (hte_data qe, ?s3)"
    unfolding run using qe nx S by (simp add: sync_simps)
  have shape: "ht_shape (w_ents ?s3) (ht_freechain t) T n C F"
    using ht_shape_slot [OF D(10) i e(1), of ?q] eq ci li q' by (simp add: entry_flags)
  then have shape': "ht_shape (w_ents ?s3) (ht_freechain t) T n (C(?i := [])) F"
    using ci by (simp add: fun_upd_idem)
  have kds': "bucket_kds (w_ents ?s3) T j = bucket_kds (w_ents s) T j" if "j < n" "j \<noteq> ?i" for j
  proof (rule bucket_other [OF D(10) shape' that])
    show "w_ents ?s3 r = w_ents s r" if "r \<in> set ((T, j) # C j)" for r
      using ht_shapeD(4) [OF D(10) i, of j] \<open>j < n\<close> \<open>j \<noteq> ?i\<close> that q' by auto
  qed
  have "bucket (w_ents ?s3) (T, ?i) = []"
    using bucket_eq [OF shape i, of ?q] q' by (simp add: entry_flags)
  then have ki: "bucket_kds (w_ents s) T ?i = [] @ Some (entry_kd qe) # []" "bucket_kds (w_ents ?s3) T ?i = [] @ []"
    using q(1) qe by (simp_all add: bucket_kds_def)
  note del = ht_core_delete [OF core i ki kds' shape refl]
  have t: "t\<lparr>ht_freechain := ht_freechain t\<rparr> = t" by simp
  have rw: "w_rw ?s3 = (w_rw s)(EntryLock q := RW_Write)"
    using s2(2) by (auto simp: hold_def fun_eq_iff)
  show ?thesis
    unfolding run3 runs_Some
    using del D(1) S rw q' key_at_pair [OF q(2) qe D(1)] unfolding t by simp
qed

section \<open>A slot that stays locked\<close>

text \<open>No operation on a key of a slot whose lock is held for writing returns.\<close>

lemma slot_locked_blocks:
  assumes env: "env_ok env" and core: "ht_core h s t T n C F SS"
    and rw: "w_rw s (TableLock h) = RW_Free" "w_rw s (EntryLock (T, hash_index (w_mem s) t n key)) = RW_Write"
    and mx: "\<And>c. w_mx s (CounterMutex h c) = MX_Free"
  shows "ht_locate_key env h key s = None" "ht_insert_key_with rz env h key data s = None"
    "ht_delete_key env h key s = None"
proof -
  let ?d = "(T, hash_index (w_mem s) t n key)"
  have slot: "ht_slot h key s' = Some ?d" if "same_data s s'" for s'
    using ht_slot_eq [of h s' t T n C F SS key] core by (simp add: ht_core_cong [OF that] same_dataD [OF that])
  have int: "ht_locate_entry_int env h key lf want s' = None"
    if s': "same_data s s'" "w_rw s' (EntryLock ?d) = RW_Write" for s' lf want
  proof -
    let ?s = "counter_bump h Probes 1 s'"
    have "lockfunc_call env lf (EntryLock ?d) ?s = None"
      using env s'(2) by (cases lf) (simp_all add: rw_locked_blocks)
    moreover have "ht_slot h key ?s = Some ?d" using s'(1) by (intro slot) simp
    moreover have "w_mx s' (CounterMutex h Probes) = MX_Free" using mx same_dataD [OF s'(1)] by simp
    ultimately show ?thesis using env by (simp add: ht_locate_entry_int_def sync_simps)
  qed
  show "ht_locate_key env h key s = None"
    using env rw int by (simp add: ht_locate_key_def ht_locate_entry_def sync_simps)
  show "ht_delete_key env h key s = None"
    using env rw int mx by (simp add: ht_delete_key_def sync_simps)
  show "ht_insert_key_with rz env h key data s = None"
    using env rw slot mx by (simp add: ht_insert_key_with_def sync_simps rw_locked_blocks)
qed

end
