(* ===== verification/Dictionary.thy ===== *)
theory Dictionary
  imports Prelude
begin

text \<open>
  The interface through which the rest of the library uses a hash table: a table in a state that is
  well-formed stands for a finite map, a lookup reads the map, an insertion of a new key extends it
  and an insertion of a known key is refused. The clients' facts follow from these laws alone.
\<close>

locale lookup_table =
  fixes wf :: "'h \<Rightarrow> 's \<Rightarrow> bool"
    and view :: "'h \<Rightarrow> 's \<Rightarrow> 'k \<Rightarrow> 'v option"
    and keyof :: "'h \<Rightarrow> 's \<Rightarrow> 'a \<Rightarrow> 'k"
    and locate :: "'h \<Rightarrow> 'a \<Rightarrow> 's \<Rightarrow> ('v, 's) outcome"
    and null :: "'v"
  assumes locate_law:
    "wf h s \<Longrightarrow> runs (locate h a s) (\<lambda>v s'.
       v = (case view h s (keyof h s a) of None \<Rightarrow> null | Some x \<Rightarrow> x) \<and>
       wf h s' \<and> view h s' = view h s \<and> keyof h s' = keyof h s)"
begin

text \<open>A lookup can be repeated: the second one finds what the first one found.\<close>

lemma locate_twice:
  assumes "wf h s"
  shows "runs (locate h a s) (\<lambda>v s'. runs (locate h a s') (\<lambda>v' s''. v' = v \<and> wf h s'' \<and> view h s'' = view h s))"
proof (rule runs_mono [OF locate_law [OF assms, of a]])
  fix v s'
  assume v: "v = (case view h s (keyof h s a) of None \<Rightarrow> null | Some x \<Rightarrow> x) \<and>
       wf h s' \<and> view h s' = view h s \<and> keyof h s' = keyof h s"
  show "runs (locate h a s') (\<lambda>v' s''. v' = v \<and> wf h s'' \<and> view h s'' = view h s)"
    by (rule runs_mono [OF locate_law, of h s' a]) (use v in auto)
qed

end

locale dictionary = lookup_table wf view keyof locate null
  for wf :: "'h \<Rightarrow> 's \<Rightarrow> bool"
    and view :: "'h \<Rightarrow> 's \<Rightarrow> 'k \<Rightarrow> 'v option"
    and keyof :: "'h \<Rightarrow> 's \<Rightarrow> 'a \<Rightarrow> 'k"
    and locate :: "'h \<Rightarrow> 'a \<Rightarrow> 's \<Rightarrow> ('v, 's) outcome"
    and null :: "'v" +
  fixes insert :: "'h \<Rightarrow> 'a \<Rightarrow> 'v \<Rightarrow> 's \<Rightarrow> (int, 's) outcome"
  assumes insert_new:
    "wf h s \<Longrightarrow> view h s (keyof h s a) = None \<Longrightarrow> runs (insert h a v s) (\<lambda>r s'.
       r = 0 \<and> wf h s' \<and> view h s' = (view h s)(keyof h s a \<mapsto> v) \<and> keyof h s' = keyof h s)"
    and insert_known:
    "wf h s \<Longrightarrow> view h s (keyof h s a) \<noteq> None \<Longrightarrow> runs (insert h a v s) (\<lambda>r s'.
       r \<noteq> 0 \<and> wf h s' \<and> view h s' = view h s \<and> keyof h s' = keyof h s)"
begin

text \<open>An insertion returns in either case and keeps the table well-formed.\<close>

lemma insert_total:
  assumes "wf h s"
  shows "runs (insert h a v s) (\<lambda>r s'. wf h s' \<and> keyof h s' = keyof h s \<and>
    view h s' = (if r = 0 then (view h s)(keyof h s a \<mapsto> v) else view h s) \<and>
    (r = 0 \<longleftrightarrow> view h s (keyof h s a) = None))"
proof (cases "view h s (keyof h s a)")
  case None
  show ?thesis by (rule runs_mono [OF insert_new [OF assms None]]) (use None in auto)
next
  case (Some x)
  show ?thesis by (rule runs_mono [OF insert_known [OF assms]]) (use Some in auto)
qed

lemma insert_then_locate:
  assumes "wf h s" and "view h s (keyof h s a) = None"
  shows "runs (insert h a v s) (\<lambda>r s'. r = 0 \<and> runs (locate h b s') (\<lambda>w s''. wf h s'' \<and>
    w = (if keyof h s b = keyof h s a then v
         else case view h s (keyof h s b) of None \<Rightarrow> null | Some x \<Rightarrow> x)))"
proof (rule runs_mono [OF insert_new [OF assms]])
  fix r s'
  assume r: "r = 0 \<and> wf h s' \<and> view h s' = (view h s)(keyof h s a \<mapsto> v) \<and> keyof h s' = keyof h s"
  show "r = 0 \<and> runs (locate h b s') (\<lambda>w s''. wf h s'' \<and>
    w = (if keyof h s b = keyof h s a then v
         else case view h s (keyof h s b) of None \<Rightarrow> null | Some x \<Rightarrow> x))"
    by (rule conjI, use r in blast, rule runs_mono [OF locate_law, of h s' b]) (use r in auto)
qed

text \<open>The value first stored under a key stays: a second insertion is refused and changes nothing.\<close>

lemma insert_twice:
  assumes "wf h s" and "view h s (keyof h s a) = None"
  shows "runs (insert h a v s) (\<lambda>r s'. r = 0 \<and> runs (insert h a w s') (\<lambda>r' s''.
    r' \<noteq> 0 \<and> wf h s'' \<and> view h s'' = (view h s)(keyof h s a \<mapsto> v)))"
proof (rule runs_mono [OF insert_new [OF assms]])
  fix r s'
  assume r: "r = 0 \<and> wf h s' \<and> view h s' = (view h s)(keyof h s a \<mapsto> v) \<and> keyof h s' = keyof h s"
  show "r = 0 \<and> runs (insert h a w s') (\<lambda>r' s''.
    r' \<noteq> 0 \<and> wf h s'' \<and> view h s'' = (view h s)(keyof h s a \<mapsto> v))"
    by (rule conjI, use r in blast, rule runs_mono [OF insert_known, of h s' a]) (use r in auto)
qed

text \<open>
  The way a client keeps one object per key: look the key up, and store a new object when the
  lookup finds nothing.
\<close>

definition fetch :: "'h \<Rightarrow> 'a \<Rightarrow> 'v \<Rightarrow> 's \<Rightarrow> ('v, 's) outcome" where
  "fetch h a v s = do {
     (w, s) \<leftarrow> locate h a s;
     if w \<noteq> null then Some (w, s)
     else do { (r, s) \<leftarrow> insert h a v s; Some (if r = 0 then v else null, s) } }"

lemma fetch_spec:
  assumes wf: "wf h s" and real: "view h s (keyof h s a) \<noteq> Some null" and v: "v \<noteq> null"
  shows "runs (fetch h a v s) (\<lambda>w s'. wf h s' \<and> keyof h s' = keyof h s \<and>
    w = (case view h s (keyof h s a) of None \<Rightarrow> v | Some x \<Rightarrow> x) \<and>
    view h s' = (view h s)(keyof h s a \<mapsto> w))"
proof -
  obtain w s1 where run1: "locate h a s = Some (w, s1)"
    and s1: "w = (case view h s (keyof h s a) of None \<Rightarrow> null | Some x \<Rightarrow> x)"
      "wf h s1" "view h s1 = view h s" "keyof h s1 = keyof h s"
    using locate_law [OF wf, of a] by (auto simp: runs_def)
  show ?thesis
  proof (cases "view h s (keyof h s a)")
    case None
    then obtain s2 where "insert h a v s1 = Some (0, s2)" "wf h s2"
      "view h s2 = (view h s)(keyof h s a \<mapsto> v)" "keyof h s2 = keyof h s"
      using insert_new [of h s1 a v] s1 by (auto simp: runs_def)
    then show ?thesis using None run1 s1 by (simp add: fetch_def)
  next
    case (Some x)
    then have "(view h s)(keyof h s a \<mapsto> x) = view h s" by (simp add: fun_upd_idem)
    then show ?thesis using Some run1 s1 real by (simp add: fetch_def)
  qed
qed

text \<open>Fetching the same key again gives the same object, whatever is offered for storing.\<close>

lemma fetch_stable:
  assumes wf: "wf h s" and real: "view h s (keyof h s a) \<noteq> Some null" and v: "v \<noteq> null" "v' \<noteq> null"
  shows "runs (fetch h a v s) (\<lambda>w s'. runs (fetch h a v' s') (\<lambda>w' s''. w' = w \<and> wf h s'' \<and> view h s'' = view h s'))"
proof (rule runs_mono [OF fetch_spec [OF wf real v(1)]])
  fix w s'
  assume w: "wf h s' \<and> keyof h s' = keyof h s \<and> w = (case view h s (keyof h s a) of None \<Rightarrow> v | Some x \<Rightarrow> x) \<and>
    view h s' = (view h s)(keyof h s a \<mapsto> w)"
  then have real': "view h s' (keyof h s' a) = Some w" "w \<noteq> null" using real v by (auto split: option.splits)
  then have "(view h s')(keyof h s' a \<mapsto> w) = view h s'" by (simp add: fun_upd_idem)
  then show "runs (fetch h a v' s') (\<lambda>w' s''. w' = w \<and> wf h s'' \<and> view h s'' = view h s')"
    by (intro runs_mono [OF fetch_spec [of h s' a v']]) (use w real' v(2) in auto)
qed

end

end
