(* ===== verification/HT_Spec.thy ===== *)
theory HT_Spec
  imports HT_Delete Dictionary
begin

text \<open>
  The properties of \<^verbatim>\<open>libhashtable.c\<close> as a client sees them, the tables as instances of the
  dictionary interface, and the concrete tables at which the properties are tried.
\<close>

section \<open>What the operations promise of a table\<close>

text \<open>The table refuses a second insertion of a key.\<close>

definition ht_unique :: "addr \<Rightarrow> world \<Rightarrow> bool" where
  "ht_unique h s \<longleftrightarrow> (case w_tables s h of None \<Rightarrow> False
     | Some t \<Rightarrow> ht_options t AND hto_dups_allowed = 0)"

text \<open>The pairs of the bucket of a key, in the order of a search.\<close>

definition ht_bucket_pairs :: "addr \<Rightarrow> world \<Rightarrow> u64 \<Rightarrow> (u8 list \<times> u64) list" where
  "ht_bucket_pairs h s key = (case w_tables s h of None \<Rightarrow> []
     | Some t \<Rightarrow> (case ht_slot h key s of None \<Rightarrow> []
       | Some p \<Rightarrow> map (entry_pair (w_mem s) (ht_keylen t) (w_ents s)) (bucket (w_ents s) p)))"

lemma ht_wfE:
  assumes "ht_wf h s"
  obtains t T n C F SS where "ht_inv h s t T n C F SS"
  using assms unfolding ht_wf_def by blast

lemma ht_inv_table: "ht_inv h s t T n C F SS \<Longrightarrow> w_tables s h = Some t"
  by (simp add: ht_inv_def ht_core_def)

lemma ht_inv_wf: "ht_inv h s t T n C F SS \<Longrightarrow> ht_wf h s"
  unfolding ht_wf_def by blast

lemma ht_unique_eq: "ht_inv h s t T n C F SS \<Longrightarrow> ht_unique h s \<longleftrightarrow> ht_options t AND hto_dups_allowed = 0"
  by (simp add: ht_unique_def ht_inv_table)

lemma ht_endedE:
  assumes "ht_ended h s"
  obtains t T n C F SS where "ht_inv h s t T n C F SS" "slabs_end s t SS"
  using assms unfolding ht_ended_def by blast

lemma ht_endedI: "ht_inv h s t T n C F SS \<Longrightarrow> slabs_end s t SS \<Longrightarrow> ht_ended h s"
  unfolding ht_ended_def by blast

lemma ht_ended_wf: "ht_ended h s \<Longrightarrow> ht_wf h s"
  by (auto elim: ht_endedE intro: ht_inv_wf)

lemma ht_ended_frame:
  assumes "ht_frame {} {} s s'" "ht_ended h s"
  shows "ht_ended h s'"
proof -
  obtain t T n C F SS where i: "ht_inv h s t T n C F SS" "slabs_end s t SS" using assms(2) by (rule ht_endedE)
  then have "ht_core h s t T n C F SS" by (simp add: ht_inv_def)
  then show ?thesis using ht_inv_frame(1) [OF assms(1) i(1)] slabs_end_frame [OF assms(1) _ _ i(2)] by (auto intro: ht_endedI)
qed

lemma same_data_ended: "same_data s s' \<Longrightarrow> w_rw s' = w_rw s \<Longrightarrow> ht_ended h s' = ht_ended h s"
  by (simp add: ht_ended_def same_data_ht_inv same_dataD)

text \<open>What holds of every run that starts with a chain of slabs that ends is told apart from what holds of every run.\<close>

lemma runs_ended:
  assumes "runs m P" and "ht_ended h s \<Longrightarrow> runs m (\<lambda>r s'. ht_ended h s')"
  shows "runs m (\<lambda>r s'. P r s' \<and> (ht_ended h s \<longrightarrow> ht_ended h s'))"
  using assms by (cases "ht_ended h s") (auto intro: runs_conj runs_mono)

lemma locate_ended:
  assumes "env_ok env" "ht_ended h s"
  shows "runs (ht_locate_key env h key s) (\<lambda>r s'. ht_ended h s')"
proof -
  obtain t T n C F SS where i: "ht_inv h s t T n C F SS" using assms(2) by (rule ht_endedE)
  show ?thesis by (rule runs_mono [OF ht_locate_key_spec [OF assms(1) i]]) (use assms(2) in \<open>auto simp: same_data_ended\<close>)
qed

lemma insert_ended:
  assumes "env_ok env" "ht_ended h s"
  shows "runs (ht_insert_key env h key data s) (\<lambda>r s'. ht_ended h s')"
proof -
  obtain t T n C F SS where i: "ht_inv h s t T n C F SS" "slabs_end s t SS" using assms(2) by (rule ht_endedE)
  have ins: "ht_ended h s'" if "inserted h s t T n SS key data s'" for s'
    using that i(2) unfolding inserted_def by (auto intro: ht_endedI)
  show ?thesis unfolding ht_insert_key_def
    by (rule runs_mono [OF ht_insert_key_with_spec [OF assms(1) i(1)]]) (use assms(2) ins in \<open>auto simp: same_data_ended split: if_splits\<close>)
qed

lemma ht_wf_endedE:
  assumes "ht_wf h s"
  obtains t T n C F SS where "ht_inv h s t T n C F SS" "ht_ended h s \<longrightarrow> slabs_end s t SS"
  using assms by (cases "ht_ended h s") (auto elim: ht_endedE ht_wfE)

lemma locate_still_ended:
  assumes "env_ok env" "runs (ht_locate_key env h key s') P \<and> (E \<longrightarrow> ht_ended h s')"
  shows "runs (ht_locate_key env h key s') (\<lambda>r s''. P r s'' \<and> (E \<longrightarrow> ht_ended h s''))"
  using assms locate_ended [OF assms(1), of h s' key] by (cases E) (auto intro: runs_conj runs_mono)

lemma same_data_wf:
  assumes "same_data s s'" "w_rw s' = w_rw s"
  shows "ht_wf h s' = ht_wf h s" "ht_pairs h s' = ht_pairs h s" "ht_map h s' = ht_map h s"
    "ht_key h s' = ht_key h s" "ht_unique h s' = ht_unique h s"
  using assms same_data_view [OF assms(1)]
  by (simp_all add: ht_wf_def same_data_ht_inv ht_map_def ht_unique_def same_dataD)

lemma map_of_insert_new: "k \<notin> fst ` set (us @ vs) \<Longrightarrow> map_of (us @ (k, d) # vs) = (map_of (us @ vs))(k \<mapsto> d)"
  by (induction us) (auto simp: fun_upd_twist)

lemma inserted_view:
  assumes ins: "inserted h s t T n SS key data s'" and inv: "ht_inv h s t T n C F SS"
  shows "ht_wf h s'" "ht_key h s' = ht_key h s" "ht_unique h s' = ht_unique h s"
    "ht_map h s (ht_key h s key) = None \<Longrightarrow> ht_map h s' = (ht_map h s)(ht_key h s key \<mapsto> data)"
    "mset (ht_pairs h s') = add_mset (ht_key h s key, data) (mset (ht_pairs h s))"
proof -
  obtain t' C' F' SS' sp fc where inv': "ht_inv h s' t' T n C' F' SS'" "t' = t\<lparr>ht_slabs := sp, ht_freechain := fc\<rparr>"
    using ins unfolding inserted_def by blast
  obtain us vs where p: "ht_pairs h s = us @ vs" "ht_pairs h s' = us @ (ht_key h s key, data) # vs"
    using ins unfolding inserted_def by blast
  have mem: "w_mem s' = w_mem s" using ins by (simp add: inserted_def ht_frame_def)
  show "ht_wf h s'" using inv'(1) by (rule ht_inv_wf)
  show "ht_key h s' = ht_key h s"
    using inv'(2) mem ht_inv_table [OF inv] ht_inv_table [OF inv'(1)] by (auto simp: ht_key_def ht_keylen_def)
  show "ht_unique h s' = ht_unique h s"
    using inv'(2) ht_unique_eq [OF inv] ht_unique_eq [OF inv'(1)] by simp
  show "ht_map h s (ht_key h s key) = None \<Longrightarrow> ht_map h s' = (ht_map h s)(ht_key h s key \<mapsto> data)"
    unfolding ht_map_def p by (rule map_of_insert_new) (simp only: map_of_eq_None_iff not_False_eq_True)
  show "mset (ht_pairs h s') = add_mset (ht_key h s key, data) (mset (ht_pairs h s))"
    unfolding p by simp
qed

text \<open>Every other table is as it was after an operation with a frame.\<close>

lemma frame_other:
  assumes fr: "ht_frame {h} (set SS) s s'" and inv': "ht_inv h' s t' T' n' C' F' SS'"
    and "h' \<noteq> h" "set SS' \<inter> set SS = {}"
  shows "ht_wf h' s'" "ht_pairs h' s' = ht_pairs h' s"
  using ht_inv_frame [OF fr inv'] assms(3,4) ht_inv_wf by blast+


section \<open>The table as a dictionary\<close>

interpretation ht: dictionary
  "\<lambda>h s. env_ok env \<and> ht_wf h s \<and> ht_unique h s" ht_map ht_key "ht_locate_key env" 0 "ht_insert_key env"
  for env :: ht_env
proof unfold_locales
  fix h s a
  assume "env_ok env \<and> ht_wf h s \<and> ht_unique h s"
  then obtain t T n C F SS where wf: "env_ok env" "ht_wf h s" "ht_unique h s" and inv: "ht_inv h s t T n C F SS"
    by (auto elim: ht_wfE)
  show "runs (ht_locate_key env h a s) (\<lambda>v s'.
       v = (case ht_map h s (ht_key h s a) of None \<Rightarrow> 0 | Some x \<Rightarrow> x) \<and>
       (env_ok env \<and> ht_wf h s' \<and> ht_unique h s') \<and> ht_map h s' = ht_map h s \<and> ht_key h s' = ht_key h s)"
    by (rule runs_mono [OF ht_locate_key_spec [OF wf(1) inv]])
      (use wf in \<open>auto simp: same_data_wf split: option.splits\<close>)
next
  fix h s a v
  assume "env_ok env \<and> ht_wf h s \<and> ht_unique h s" and new: "ht_map h s (ht_key h s a) = None"
  then obtain t T n C F SS where wf: "env_ok env" "ht_wf h s" "ht_unique h s" and inv: "ht_inv h s t T n C F SS"
    by (auto elim: ht_wfE)
  show "runs (ht_insert_key env h a v s) (\<lambda>r s'.
       r = 0 \<and> (env_ok env \<and> ht_wf h s' \<and> ht_unique h s') \<and>
       ht_map h s' = (ht_map h s)(ht_key h s a \<mapsto> v) \<and> ht_key h s' = ht_key h s)"
    unfolding ht_insert_key_def
    by (rule runs_mono [OF ht_insert_key_with_spec [OF wf(1) inv]])
      (use wf new inserted_view [OF _ inv] in \<open>auto simp del: fun_upd_apply\<close>)
next
  fix h s a v
  assume "env_ok env \<and> ht_wf h s \<and> ht_unique h s" and known: "ht_map h s (ht_key h s a) \<noteq> None"
  then obtain t T n C F SS where wf: "env_ok env" "ht_wf h s" "ht_unique h s" and inv: "ht_inv h s t T n C F SS"
    by (auto elim: ht_wfE)
  show "runs (ht_insert_key env h a v s) (\<lambda>r s'.
       r \<noteq> 0 \<and> (env_ok env \<and> ht_wf h s' \<and> ht_unique h s') \<and> ht_map h s' = ht_map h s \<and> ht_key h s' = ht_key h s)"
    unfolding ht_insert_key_def
    by (rule runs_mono [OF ht_insert_key_with_spec [OF wf(1) inv]])
      (use wf known ht_unique_eq [OF inv] in \<open>auto simp: same_data_wf\<close>)
qed

section \<open>Concrete tables\<close>

text \<open>An environment without failures, whose fresh memory holds pointers to nothing, and the state before the first call.\<close>

definition calm_env :: ht_env where
  "calm_env = \<lparr>sync_err = (\<lambda>_. 0), malloc_ok = (\<lambda>_. True),
     raw_table = (\<lambda>_. \<lparr>ht_keysize = 0, ht_options = 0, ht_old = Ptr 1, ht_slabs = Ptr 1, ht_table = NULL,
        ht_freechain = NULL, ht_hash_compute = (\<lambda>_ _ _ _. None), ht_key_compare = (\<lambda>_ _ _ _. 0),
        ht_threshold_evaluate = NULL\<rparr>),
     raw_slab = (\<lambda>_. \<lparr>sl_next = Ptr 1, sl_entry = NULL, sl_entrycount = 0\<rparr>),
     raw_entry = (\<lambda>_ _. \<lparr>hte_next = NULL, hte_key = 0, hte_data = 0, hte_flags = 0\<rparr>)\<rparr>"

text \<open>The byte at an address is the address, modulo 256.\<close>

definition first_world :: world where
  "first_world = \<lparr>w_tick = 0, w_errno = 0, w_mem = ucast, w_brk = 7, w_tables = Map.empty,
     w_slabs = Map.empty, w_ents = Map.empty, w_rw = (\<lambda>_. RW_Uninit), w_mx = (\<lambda>_. MX_Uninit),
     w_ctr = (\<lambda>_. 0), w_avg = (\<lambda>_. \<lparr>av_count = 0, av_sum = 0, av_current = 0, av_maximum = 0\<rparr>)\<rparr>"

text \<open>A table with two slots and keys of one byte, and what is in it after some insertions.\<close>

definition after :: "(world \<Rightarrow> ('r, world) outcome) \<Rightarrow> world \<Rightarrow> world" where
  "after f s = (case f s of None \<Rightarrow> s | Some (r, s') \<Rightarrow> s')"

definition new_world :: world where
  "new_world = after (ht_create calm_env 2 1 0) first_world"

definition one_world :: world where
  "one_world = after (ht_insert_key calm_env 7 10 100) new_world"

definition two_world :: world where
  "two_world = after (ht_insert_key calm_env 7 12 120) one_world"

lemma calm_env [simp]: "env_ok calm_env"
  by (simp add: calm_env_def env_ok_def)

lemma two_fits [simp]: "slab_fits 2"
  by (simp add: slab_fits_def sizeof_slab_def sizeof_entry_def)

lemma new_world:
  "ht_create calm_env 2 1 0 first_world = Some (Ptr 7, new_world)" "ht_wf 7 new_world" "ht_unique 7 new_world"
  "ht_pairs 7 new_world = []" "w_mem new_world = ucast" "ht_key 7 new_world = (\<lambda>a. [ucast a])"
  "ht_size 7 new_world = 2"
proof -
  obtain s t T where s: "ht_create calm_env 2 1 0 first_world = Some (Ptr (w_brk first_world), s)"
    "ht_inv (w_brk first_world) s t T (unat (2::u64)) (\<lambda>_. []) [] [T]" "ht_pairs (w_brk first_world) s = []"
    "ht_options t = 0" "ht_keysize t = ucast (1::u64)" "ht_frame {} {} first_world s"
    by (rule ht_create_spec [OF calm_env, of 2 1 0 first_world]) auto
  have b: "w_brk first_world = 7" by (simp add: first_world_def)
  have n: "new_world = s" by (simp add: new_world_def after_def s(1))
  have core: "ht_core 7 s t T 2 (\<lambda>_. []) [] [T]" using s(2) b by (simp add: ht_inv_def)
  show "ht_create calm_env 2 1 0 first_world = Some (Ptr 7, new_world)" "ht_wf 7 new_world" "ht_pairs 7 new_world = []"
    using s b n ht_inv_wf [of 7 s t T 2 "\<lambda>_. []" "[]" "[T]"] by simp_all
  show mem: "w_mem new_world = ucast" using s(6) n by (simp add: ht_frame_def first_world_def)
  have t: "w_tables s 7 = Some t" using ht_coreD(1) [OF core] .
  have "ht_keylen t = 1" using s(5) by (simp add: ht_keylen_def)
  then show "ht_key 7 new_world = (\<lambda>a. [ucast a])" using t n mem by (auto simp: ht_key_def)
  show "ht_unique 7 new_world" using t n s(4) by (simp add: ht_unique_def)
  show "ht_size 7 new_world = 2" using ht_size_eq [OF core] n by simp
qed

lemma one_world:
  "ht_wf 7 one_world" "ht_unique 7 one_world" "ht_map 7 one_world = [[10] \<mapsto> 100]" "ht_key 7 one_world = (\<lambda>a. [ucast a])"
proof -
  have "runs (ht_insert_key calm_env 7 10 100 new_world) (\<lambda>r s'. r = 0 \<and> (env_ok calm_env \<and> ht_wf 7 s' \<and> ht_unique 7 s') \<and>
    ht_map 7 s' = (ht_map 7 new_world)(ht_key 7 new_world 10 \<mapsto> 100) \<and> ht_key 7 s' = ht_key 7 new_world)"
    by (rule ht.insert_new) (simp_all add: new_world ht_map_def)
  then show "ht_wf 7 one_world" "ht_unique 7 one_world" "ht_map 7 one_world = [[10] \<mapsto> 100]" "ht_key 7 one_world = (\<lambda>a. [ucast a])"
    unfolding one_world_def after_def by (auto simp: runs_def new_world ht_map_def simp del: fun_upd_apply)
qed

lemma two_world:
  "ht_wf 7 two_world" "ht_unique 7 two_world" "ht_map 7 two_world = [[10] \<mapsto> 100, [12] \<mapsto> 120]" "ht_key 7 two_world = (\<lambda>a. [ucast a])"
proof -
  have "runs (ht_insert_key calm_env 7 12 120 one_world) (\<lambda>r s'. r = 0 \<and> (env_ok calm_env \<and> ht_wf 7 s' \<and> ht_unique 7 s') \<and>
    ht_map 7 s' = (ht_map 7 one_world)(ht_key 7 one_world 12 \<mapsto> 120) \<and> ht_key 7 s' = ht_key 7 one_world)"
    by (rule ht.insert_new) (simp_all add: one_world)
  then show "ht_wf 7 two_world" "ht_unique 7 two_world" "ht_map 7 two_world = [[10] \<mapsto> 100, [12] \<mapsto> 120]" "ht_key 7 two_world = (\<lambda>a. [ucast a])"
    unfolding two_world_def after_def by (auto simp: runs_def one_world simp del: fun_upd_apply)
qed

text \<open>A table with two slots whose first bucket has the keys 10 and 12 in this order.\<close>

definition chain_table :: hashtable where
  "chain_table = \<lparr>ht_keysize = 1, ht_options = 0, ht_old = NULL, ht_slabs = Ptr 3, ht_table = Ptr 2,
     ht_freechain = Ptr (3, 1), ht_hash_compute = ht_hash_bytes, ht_key_compare = bcmp,
     ht_threshold_evaluate = Ptr ht_evaluate_threshold_default\<rparr>"

definition chain_entries :: "eaddr \<rightharpoonup> hashtable_entry" where
  "chain_entries = [
     (2, 0) \<mapsto> \<lparr>hte_next = Ptr (3, 0), hte_key = 10, hte_data = 100, hte_flags = 3\<rparr>,
     (2, 1) \<mapsto> \<lparr>hte_next = NULL, hte_key = 0, hte_data = 0, hte_flags = 2\<rparr>,
     (3, 0) \<mapsto> \<lparr>hte_next = NULL, hte_key = 12, hte_data = 120, hte_flags = 3\<rparr>,
     (3, 1) \<mapsto> \<lparr>hte_next = NULL, hte_key = 0, hte_data = 0, hte_flags = 2\<rparr>]"

definition chain_world :: world where
  "chain_world = first_world\<lparr>w_tables := [5 \<mapsto> chain_table],
     w_slabs := [2 \<mapsto> \<lparr>sl_next = NULL, sl_entry = Ptr (2, 0), sl_entrycount = 2\<rparr>,
                 3 \<mapsto> \<lparr>sl_next = Ptr 2, sl_entry = Ptr (3, 0), sl_entrycount = 2\<rparr>],
     w_ents := chain_entries, w_rw := (\<lambda>_. RW_Free), w_mx := (\<lambda>_. MX_Free)\<rparr>"

lemma chain_shape:
  "ht_shape chain_entries (Ptr (3, 1)) 2 2 (\<lambda>i. if i = 0 then [(3, 0)] else []) [(3, 1)]"
proof (rule ht_shapeI)
  let ?C = "\<lambda>i::nat. if i = 0 then [(3::nat, 0::nat)] else []"
  have p: "ht_ptrs 2 2 ?C [(3, 1)] = [(2, 0), (2, 1), (3, 0), (3, 1)]"
    by (simp add: ht_ptrs_def upt_rec numeral_2_eq_2)
  show "distinct (ht_ptrs 2 2 ?C [(3, 1)])" unfolding p by simp
  show "\<exists>e. chain_entries (2, i) = Some e \<and> entry_chain chain_entries (hte_next e) = Some (?C i) \<and>
      (\<not> occupied e \<longrightarrow> ?C i = [])" if i: "i < 2" for i
  proof -
    consider "i = 0" | "i = 1" using i by linarith
    then show ?thesis by cases (simp_all add: chain_entries_def occupied_def htef_occupied_def)
  qed
  show "lock_inited e" if "p \<in> set (ht_ptrs 2 2 ?C [(3, 1)])" "chain_entries p = Some e" for p e
    using that unfolding p by (auto simp: chain_entries_def lock_inited_def htef_lock_initialized_def)
qed (auto simp: chain_entries_def occupied_def htef_occupied_def split: if_splits)

lemma chain_buckets:
  "bucket chain_entries (2, 0) = [(2, 0), (3, 0)]" "bucket chain_entries (2, 1) = []"
  by (simp_all add: bucket_def chain_entries_def occupied_def htef_occupied_def)

lemma chain_world_inv:
  "ht_inv 5 chain_world chain_table 2 2 (\<lambda>i. if i = 0 then [(3, 0)] else []) [(3, 1)] [3, 2]"
proof -
  let ?C = "\<lambda>i::nat. if i = 0 then [(3::nat, 0::nat)] else []"
  have p: "ht_ptrs 2 2 ?C [(3, 1)] = [(2, 0), (2, 1), (3, 0), (3, 1)]"
    by (simp add: ht_ptrs_def upt_rec numeral_2_eq_2)
  have keyed: "ht_keyed ucast chain_entries chain_table 2 2"
    unfolding ht_keyed_def
  proof (intro conjI allI impI ballI)
    fix i p e assume i: "i < (2::nat)" and pp: "p \<in> set (bucket chain_entries (2, i))" "chain_entries p = Some e"
    consider "i = 0" | "i = 1" using i by linarith
    then show "ht_hash_bytes ucast (hte_key e) (scast (ht_keysize chain_table)) (of_nat 2) = Some (of_nat i)"
      by cases (use pp chain_buckets in \<open>auto simp: chain_entries_def chain_table_def ht_hash_bytes_def\<close>)
  next
    fix i assume "i < (2::nat)"
    then consider "i = 0" | "i = 1" by linarith
    then show "distinct (map (fst \<circ> entry_pair ucast (ht_keylen chain_table) chain_entries) (bucket chain_entries (2, i)))"
      by cases (use chain_buckets in \<open>auto simp: entry_pair_def chain_entries_def chain_table_def ht_keylen_def\<close>)
  qed
  have own: "ht_owned (w_slabs chain_world) (Ptr 3) [3, 2] [(2, 0), (2, 1), (3, 0), (3, 1)]"
    by (auto simp: ht_owned_def chain_world_def less_2_cases_iff)
  show ?thesis
    unfolding ht_inv_def ht_core_def ht_unlocked_def p
    using chain_shape keyed own by (simp add: chain_world_def chain_table_def first_world_def)
qed

lemma ht_bucket_pairs_eq:
  assumes "ht_core h s t T n C F SS"
  shows "ht_bucket_pairs h s key = map (entry_pair (w_mem s) (ht_keylen t) (w_ents s))
     (bucket (w_ents s) (T, hash_index (w_mem s) t n key))"
  using ht_slot_eq [OF assms] ht_coreD(1) [OF assms] by (simp add: ht_bucket_pairs_def)

text \<open>The pairs of a bucket and the entries they come from.\<close>

lemma bucket_pairs_split:
  assumes core: "ht_core h s t T n C F SS"
    and b: "ht_bucket_pairs h s key = xs @ (ht_key h s key, d) # ys" "ht_key h s key \<notin> fst ` set xs"
  obtains xs' q ys' qe where
    "bucket (w_ents s) (T, hash_index (w_mem s) t n key) = xs' @ q # ys'" "length xs' = length xs"
    "map (entry_pair (w_mem s) (ht_keylen t) (w_ents s)) ys' = ys"
    "\<And>p. p \<in> set xs' \<Longrightarrow> \<not> key_at (w_mem s) t (w_ents s) key p" "key_at (w_mem s) t (w_ents s) key q"
    "w_ents s q = Some qe" "hte_data qe = d"
proof -
  note D = ht_coreD [OF core]
  let ?i = "hash_index (w_mem s) t n key" and ?f = "entry_pair (w_mem s) (ht_keylen t) (w_ents s)"
  have i: "?i < n" by (rule hash_index_less [OF D(4,5)])
  have "map ?f (bucket (w_ents s) (T, ?i)) = xs @ (ht_key h s key, d) # ys"
    using b(1) ht_bucket_pairs_eq [OF core] by simp
  then obtain xs' q ys' where sp: "bucket (w_ents s) (T, ?i) = xs' @ q # ys'" "map ?f xs' = xs"
      "?f q = (ht_key h s key, d)" "map ?f ys' = ys"
    by (auto simp: map_eq_append_conv)
  have key: "ht_key h s key = key_bytes (w_mem s) key (ht_keylen t)" using D(1) by (simp add: ht_key_def)
  obtain qe where qe: "w_ents s q = Some qe" using bucket_alloc(1) [OF D(10) i, of q] sp(1) by auto
  have no: "\<not> key_at (w_mem s) t (w_ents s) key p" if "p \<in> set xs'" for p
  proof
    assume "key_at (w_mem s) t (w_ents s) key p"
    then have "ht_key h s key = fst (?f p)" by (simp add: key_at_entry_pair key)
    then show False using that b(2) unfolding sp(2) [symmetric] by simp
  qed
  have yes: "key_at (w_mem s) t (w_ents s) key q" "hte_data qe = d"
    using sp(3) qe key by (simp_all add: key_at_entry_pair, auto simp: entry_pair_def)
  show thesis using sp no yes qe by (intro that) auto
qed

lemma chain_world:
  "ht_wf 5 chain_world" "ht_key 5 chain_world = (\<lambda>a. [ucast a])"
  "ht_bucket_pairs 5 chain_world 10 = [([10], 100), ([12], 120)]"
  "ht_bucket_pairs 5 chain_world 12 = [([10], 100), ([12], 120)]"
proof -
  have core: "ht_core 5 chain_world chain_table 2 2 (\<lambda>i. if i = 0 then [(3, 0)] else []) [(3, 1)] [3, 2]"
    using chain_world_inv by (simp add: ht_inv_def)
  have mem: "w_mem chain_world = ucast" "w_ents chain_world = chain_entries" "w_tables chain_world 5 = Some chain_table"
    by (simp_all add: chain_world_def first_world_def)
  have len: "ht_keylen chain_table = 1" by (simp add: ht_keylen_def chain_table_def)
  have idx: "hash_index ucast chain_table 2 10 = 0" "hash_index ucast chain_table 2 12 = 0"
    by (simp_all add: hash_index_def len)
  show "ht_wf 5 chain_world" using chain_world_inv by (rule ht_inv_wf)
  show "ht_key 5 chain_world = (\<lambda>a. [ucast a])" by (rule ext) (simp add: ht_key_def mem len)
  show "ht_bucket_pairs 5 chain_world 10 = [([10], 100), ([12], 120)]"
      "ht_bucket_pairs 5 chain_world 12 = [([10], 100), ([12], 120)]"
    unfolding ht_bucket_pairs_eq [OF core] mem idx chain_buckets
    by (simp_all add: entry_pair_def chain_entries_def len)
qed

lemma chain_world_map: "ht_map 5 chain_world [13] = None"
proof -
  have core: "ht_core 5 chain_world chain_table 2 2 (\<lambda>i. if i = 0 then [(3, 0)] else []) [(3, 1)] [3, 2]"
    using chain_world_inv by (simp add: ht_inv_def)
  have len: "ht_keylen chain_table = 1" by (simp add: ht_keylen_def chain_table_def)
  have mem: "w_ents chain_world = chain_entries" "w_mem chain_world = ucast"
    by (simp_all add: chain_world_def first_world_def)
  have two: "[0..<2] = [0, 1]" by (simp add: upt_rec)
  have "ht_pairs 5 chain_world = [([10], 100), ([12], 120)]"
    unfolding ht_pairs_eq [OF core] mem len two list.map chain_buckets
    by (simp add: entry_pair_def chain_entries_def)
  then show ?thesis by (simp add: ht_map_def)
qed

section \<open>Round trip\<close>

text \<open>
  C1. After a new key was inserted into a table that refuses duplicates, looking it up gives the data inserted with it, and looking up any
  other key gives what it gave before (0 when it was not there). Keys are compared by their bytes.
\<close>

theorem ht_insert_then_locate:
  assumes "env_ok env" "ht_wf h s" "ht_unique h s" "ht_map h s (ht_key h s key) = None"
  shows "runs (ht_insert_key env h key data s) (\<lambda>r s'. r = 0 \<and>
    runs (ht_locate_key env h key' s') (\<lambda>d s''. ht_wf h s'' \<and> (ht_ended h s \<longrightarrow> ht_ended h s'') \<and>
      d = (if ht_key h s key' = ht_key h s key then data
           else case ht_map h s (ht_key h s key') of None \<Rightarrow> 0 | Some x \<Rightarrow> x)))"
proof -
  have "runs (ht_insert_key env h key data s) (\<lambda>r s'. (r = 0 \<and> runs (ht_locate_key env h key' s') (\<lambda>d s''. ht_wf h s'' \<and>
      d = (if ht_key h s key' = ht_key h s key then data
           else case ht_map h s (ht_key h s key') of None \<Rightarrow> 0 | Some x \<Rightarrow> x))) \<and> (ht_ended h s \<longrightarrow> ht_ended h s'))"
    by (intro runs_ended insert_ended runs_mono [OF ht.insert_then_locate [of env h s key data key']])
      (use assms in \<open>auto elim!: runs_mono\<close>)
  then show ?thesis
  proof (rule runs_mono, elim conjE, intro conjI)
    fix r s'
    assume "runs (ht_locate_key env h key' s') (\<lambda>d s''. ht_wf h s'' \<and>
      d = (if ht_key h s key' = ht_key h s key then data
           else case ht_map h s (ht_key h s key') of None \<Rightarrow> 0 | Some x \<Rightarrow> x))" "ht_ended h s \<longrightarrow> ht_ended h s'"
    from locate_still_ended [OF assms(1) conjI [OF this]] show "runs (ht_locate_key env h key' s')
      (\<lambda>d s''. ht_wf h s'' \<and> (ht_ended h s \<longrightarrow> ht_ended h s'') \<and>
        d = (if ht_key h s key' = ht_key h s key then data
             else case ht_map h s (ht_key h s key') of None \<Rightarrow> 0 | Some x \<Rightarrow> x))" by (rule runs_mono) blast
  qed
qed

theorem ht_insert_then_locate_witness:
  "env_ok calm_env \<and> ht_wf 7 one_world \<and> ht_unique 7 one_world \<and> ht_map 7 one_world (ht_key 7 one_world 12) = None \<and>
   runs (ht_insert_key calm_env 7 12 120 one_world) (\<lambda>r s'. r = 0 \<and>
     runs (ht_locate_key calm_env 7 10 s') (\<lambda>d s''. ht_wf 7 s'' \<and> d = 100))"
  using ht_insert_then_locate [of calm_env 7 one_world 12 120 10] by (auto simp: one_world elim!: runs_mono)

section \<open>Creating, finding and inserting\<close>

text \<open>
  C2. In an environment without failures an insertion always returns and leaves the table well-formed, with a chain of
  slabs that ends if it ended before.
  When the table refuses duplicates and has the key, the result is -1 with \<^verbatim>\<open>errno\<close> EEXIST and the
  pairs are as before; in every other case the result is 0 and the pair is one more in the table.
\<close>

theorem ht_insert_key_ok:
  assumes "env_ok env" "ht_wf h s"
  shows "runs (ht_insert_key env h key data s) (\<lambda>r s'. ht_wf h s' \<and> (ht_ended h s \<longrightarrow> ht_ended h s') \<and>
    (if ht_unique h s \<and> ht_map h s (ht_key h s key) \<noteq> None
     then r = -1 \<and> w_errno s' = EEXIST \<and> ht_pairs h s' = ht_pairs h s
     else r = 0 \<and> (\<exists>us vs. ht_pairs h s = us @ vs \<and> ht_pairs h s' = us @ (ht_key h s key, data) # vs)))"
proof -
  obtain t T n C F SS where inv: "ht_inv h s t T n C F SS" using assms(2) by (rule ht_wfE)
  have ins: "ht_wf h s' \<and> (\<exists>us vs. ht_pairs h s = us @ vs \<and> ht_pairs h s' = us @ (ht_key h s key, data) # vs)"
    if "inserted h s t T n SS key data s'" for s'
    using inserted_view(1) [OF that inv] that by (simp add: inserted_def)
  have "runs (ht_insert_key env h key data s) (\<lambda>r s'. ht_wf h s' \<and>
    (if ht_unique h s \<and> ht_map h s (ht_key h s key) \<noteq> None
     then r = -1 \<and> w_errno s' = EEXIST \<and> ht_pairs h s' = ht_pairs h s
     else r = 0 \<and> (\<exists>us vs. ht_pairs h s = us @ vs \<and> ht_pairs h s' = us @ (ht_key h s key, data) # vs)))"
    unfolding ht_insert_key_def ht_unique_eq [OF inv]
    by (rule runs_mono [OF ht_insert_key_with_spec [OF assms(1) inv]])
      (use assms ins in \<open>auto simp: same_data_wf split: if_splits\<close>)
  then show ?thesis by (rule runs_mono [OF runs_ended [OF _ insert_ended [OF assms(1)]]]) auto
qed

theorem ht_insert_key_witness:
  "env_ok calm_env \<and> ht_wf 7 one_world \<and> runs (ht_insert_key calm_env 7 10 5 one_world)
     (\<lambda>r s'. r = -1 \<and> w_errno s' = EEXIST \<and> ht_pairs 7 s' = ht_pairs 7 one_world)"
  using ht_insert_key_ok [of calm_env 7 one_world 10 5] by (auto simp: one_world runs_def)

text \<open>
  C3. A lookup always returns, leaves the table as it was, and gives the data the table's map has for
  the bytes of the key, or 0 with \<^verbatim>\<open>errno\<close> ENOENT when the key is not there.
\<close>

theorem ht_locate_key_ok:
  assumes "env_ok env" "ht_wf h s"
  shows "runs (ht_locate_key env h key s) (\<lambda>d s'. ht_wf h s' \<and> (ht_ended h s \<longrightarrow> ht_ended h s') \<and> ht_pairs h s' = ht_pairs h s \<and>
    (case ht_map h s (ht_key h s key) of None \<Rightarrow> d = 0 \<and> w_errno s' = ENOENT | Some x \<Rightarrow> d = x))"
proof -
  obtain t T n C F SS where inv: "ht_inv h s t T n C F SS" using assms(2) by (rule ht_wfE)
  show ?thesis
    by (rule runs_mono [OF ht_locate_key_spec [OF assms(1) inv]]) (use assms in \<open>auto simp: same_data_wf same_data_ended\<close>)
qed

theorem ht_locate_key_witness:
  "env_ok calm_env \<and> ht_wf 7 two_world \<and>
   runs (ht_locate_key calm_env 7 12 two_world) (\<lambda>d s'. ht_wf 7 s' \<and> d = 120)"
  using ht_locate_key_ok [of calm_env 7 two_world 12] by (auto simp: two_world runs_def)

text \<open>
  C4. \<^verbatim>\<open>ht_create\<close> where locks and allocations succeed: with the size 0 it gives a null pointer and EINVAL. With any other size
  for which the size of the block of entries can be computed without wrapping around, it gives a table that is
  well-formed, empty and of that size, and every other well-formed table keeps its contents; the pointer to an old
  table is the one that was in the memory \<^verbatim>\<open>malloc\<close> returned. With a larger size it writes behind the block: undefined.
\<close>

theorem ht_create_ok:
  assumes "env_ok env"
  shows "(numents = 0 \<longrightarrow> ht_create env numents keysize options s = Some (NULL, set_errno EINVAL s)) \<and>
   (numents \<noteq> 0 \<and> slab_fits (unat numents) \<longrightarrow>
     runs (ht_create env numents keysize options s) (\<lambda>p s'. \<exists>h t. p = Ptr h \<and> ht_wf h s' \<and>
       ht_pairs h s' = [] \<and> ht_size h s' = unat numents \<and> w_tables s' h = Some t \<and> ht_old t = ht_old (raw_table env (w_tick s)) \<and>
       (\<forall>h'. ht_wf h' s \<longrightarrow> ht_wf h' s' \<and> (ht_ended h' s \<longrightarrow> ht_ended h' s') \<and> ht_pairs h' s' = ht_pairs h' s))) \<and>
   (\<not> slab_fits (unat numents) \<longrightarrow> ht_create env numents keysize options s = None)"
proof (intro conjI impI)
  assume n: "numents \<noteq> 0 \<and> slab_fits (unat numents)"
  obtain s' t T where run: "ht_create env numents keysize options s = Some (Ptr (w_brk s), s')"
    and inv: "ht_inv (w_brk s) s' t T (unat numents) (\<lambda>_. []) [] [T]" and p: "ht_pairs (w_brk s) s' = []"
    and old: "ht_old t = ht_old (raw_table env (w_tick s))" and fr: "ht_frame {} {} s s'"
    by (rule ht_create_spec [OF assms, of numents keysize options s]) (use n in auto)
  have "ht_size (w_brk s) s' = unat numents" using inv ht_size_eq by (auto simp: ht_inv_def)
  moreover have "ht_wf h' s' \<and> (ht_ended h' s \<longrightarrow> ht_ended h' s') \<and> ht_pairs h' s' = ht_pairs h' s" if wf': "ht_wf h' s" for h'
  proof -
    obtain t' T' n' C' F' SS' where inv': "ht_inv h' s t' T' n' C' F' SS'" using wf' by (rule ht_wfE)
    show ?thesis using ht_inv_frame [OF fr inv'] ht_inv_wf ht_ended_frame [OF fr] by simp
  qed
  ultimately show "runs (ht_create env numents keysize options s) (\<lambda>p s'. \<exists>h t. p = Ptr h \<and> ht_wf h s' \<and>
       ht_pairs h s' = [] \<and> ht_size h s' = unat numents \<and> w_tables s' h = Some t \<and> ht_old t = ht_old (raw_table env (w_tick s)) \<and>
       (\<forall>h'. ht_wf h' s \<longrightarrow> ht_wf h' s' \<and> (ht_ended h' s \<longrightarrow> ht_ended h' s') \<and> ht_pairs h' s' = ht_pairs h' s))"
    using run inv p old ht_inv_wf ht_inv_table by (auto simp: runs_def)
qed (simp_all add: ht_create_zero ht_create_wraps [OF assms])

theorem ht_create_witness:
  "env_ok calm_env \<and> runs (ht_create calm_env 2 1 0 one_world)
     (\<lambda>p s'. \<exists>h. p = Ptr h \<and> ht_wf h s' \<and> ht_pairs h s' = [] \<and> ht_size h s' = 2 \<and> ht_wf 7 s') \<and>
   ht_create calm_env (- 1) 1 0 one_world = None"
proof -
  have "\<not> slab_fits (unat (- 1 :: u64))" by (simp add: slab_fits_def sizeof_slab_def sizeof_entry_def unsigned_minus_1_eq_mask mask_eq_exp_minus_1)
  then show ?thesis using ht_create_ok [of calm_env 2 1 0 one_world] ht_create_ok [of calm_env "- 1" 1 0 one_world] one_world(1)
    by (auto simp: runs_def)
qed

lemma locate_key_returns:
  assumes "env_ok env" "ht_wf h s"
  shows "\<exists>d s'. ht_locate_key env h key s = Some (d, s')"
proof -
  obtain t T n C F SS where inv: "ht_inv h s t T n C F SS" using assms(2) by (rule ht_wfE)
  show ?thesis using ht_locate_key_spec [OF assms(1) inv, of key] by (auto simp: runs_def)
qed

section \<open>Deleting\<close>

text \<open>
  C5. A key that is behind the first place of its bucket is deleted: the result is its data, its pair
  is gone, every other pair is still there, and the table is well-formed.
\<close>

theorem ht_delete_behind:
  assumes env: "env_ok env" "ht_wf h s"
    and b: "ht_bucket_pairs h s key = xs @ (ht_key h s key, d) # ys" "xs \<noteq> []" "ht_key h s key \<notin> fst ` set xs"
  shows "runs (ht_delete_key env h key s) (\<lambda>r s'. r = d \<and> w_errno s' = 0 \<and> ht_wf h s' \<and> (ht_ended h s \<longrightarrow> ht_ended h s') \<and>
    (\<exists>us vs. ht_pairs h s = us @ (ht_key h s key, d) # vs \<and> ht_pairs h s' = us @ vs))"
proof -
  obtain t T n C F SS where inv: "ht_inv h s t T n C F SS" and ended: "ht_ended h s \<longrightarrow> slabs_end s t SS"
    using env(2) by (rule ht_wf_endedE)
  then have core: "ht_core h s t T n C F SS" by (simp add: ht_inv_def)
  obtain xs' q ys' qe where sp:
    "bucket (w_ents s) (T, hash_index (w_mem s) t n key) = xs' @ q # ys'" "length xs' = length xs"
    "\<And>p. p \<in> set xs' \<Longrightarrow> \<not> key_at (w_mem s) t (w_ents s) key p" "key_at (w_mem s) t (w_ents s) key q"
    "w_ents s q = Some qe" "hte_data qe = d"
    by (rule bucket_pairs_split [OF core b(1,3)]) auto
  have ne: "xs' \<noteq> []" using sp(2) b(2) by auto
  show ?thesis
    by (rule runs_mono [OF delete_behind [OF env(1) inv sp(1) ne sp(3,4,5)]])
      (use sp(6) ht_inv_wf ended in \<open>auto simp: deleted_def intro: ht_endedI\<close>)
qed

theorem ht_delete_behind_witness:
  "env_ok calm_env \<and> ht_wf 5 chain_world \<and>
   runs (ht_delete_key calm_env 5 12 chain_world) (\<lambda>r s'. r = 120 \<and> ht_wf 5 s')"
  using ht_delete_behind [of calm_env 5 chain_world 12 "[([10], 100)]" 120 "[]"]
  by (auto simp: chain_world runs_def)

text \<open>Deleting a key that is not there gives 0 with \<^verbatim>\<open>errno\<close> ENOENT and changes nothing.\<close>

theorem ht_delete_missing:
  assumes "env_ok env" "ht_wf h s" "ht_map h s (ht_key h s key) = None"
  shows "runs (ht_delete_key env h key s) (\<lambda>r s'. r = 0 \<and> w_errno s' = ENOENT \<and> ht_wf h s' \<and> ht_pairs h s' = ht_pairs h s)"
proof -
  obtain t T n C F SS where inv: "ht_inv h s t T n C F SS" using assms(2) by (rule ht_wfE)
  show ?thesis by (rule runs_mono [OF delete_miss [OF assms(1) inv assms(3)]]) (use assms in \<open>auto simp: same_data_wf\<close>)
qed

theorem ht_delete_missing_witness:
  "env_ok calm_env \<and> ht_wf 5 chain_world \<and>
   runs (ht_delete_key calm_env 5 13 chain_world) (\<lambda>r s'. r = 0 \<and> w_errno s' = ENOENT)"
  using ht_delete_missing [of calm_env 5 chain_world 13] by (auto simp: chain_world chain_world_map runs_def)

text \<open>
  C7. A key in the first place of a bucket with others is deleted, but the result is the data of the
  key in the second place, not that of the key deleted: the second entry is copied into the first
  and the data is then read from the entry that was freed.
\<close>

theorem ht_delete_head:
  assumes env: "env_ok env" "ht_wf h s"
    and b: "ht_bucket_pairs h s key = (ht_key h s key, d) # (k2, d2) # ys"
  shows "runs (ht_delete_key env h key s) (\<lambda>r s'. r = d2 \<and> w_errno s' = 0 \<and> ht_wf h s' \<and> (ht_ended h s \<longrightarrow> ht_ended h s') \<and>
    (\<exists>us vs. ht_pairs h s = us @ (ht_key h s key, d) # vs \<and> ht_pairs h s' = us @ vs))"
proof -
  obtain t T n C F SS where inv: "ht_inv h s t T n C F SS" and ended: "ht_ended h s \<longrightarrow> slabs_end s t SS"
    using env(2) by (rule ht_wf_endedE)
  then have core: "ht_core h s t T n C F SS" by (simp add: ht_inv_def)
  note D = ht_coreD [OF core]
  let ?i = "hash_index (w_mem s) t n key"
  obtain xs' q ys' qe where sp: "bucket (w_ents s) (T, ?i) = xs' @ q # ys'" "length xs' = length ([] :: (u8 list \<times> u64) list)"
    "map (entry_pair (w_mem s) (ht_keylen t) (w_ents s)) ys' = (k2, d2) # ys" "key_at (w_mem s) t (w_ents s) key q"
    "w_ents s q = Some qe" "hte_data qe = d"
    by (rule bucket_pairs_split [OF core, of key "[]" d "(k2, d2) # ys"]) (use b in auto)
  then obtain r zs where r: "ys' = r # zs" "entry_pair (w_mem s) (ht_keylen t) (w_ents s) r = (k2, d2)" by auto
  have bk: "bucket (w_ents s) (T, ?i) = q # r # zs" using sp r by simp
  obtain re where re: "w_ents s r = Some re"
    using bucket_alloc(1) [OF D(10) hash_index_less [OF D(4,5)], of r "w_mem s" t key] bk by auto
  then have "hte_data re = d2" using r(2) by (simp add: entry_pair_def)
  then show ?thesis
    by (intro runs_mono [OF delete_head [OF env(1) inv bk sp(4,5) re]])
      (use sp(6) ht_inv_wf ended in \<open>auto simp: deleted_def intro: ht_endedI\<close>)
qed

theorem ht_delete_head_witness:
  "env_ok calm_env \<and> ht_wf 5 chain_world \<and>
   runs (ht_delete_key calm_env 5 10 chain_world) (\<lambda>r s'. r = 120 \<and> ht_wf 5 s')"
  using ht_delete_head [of calm_env 5 chain_world 10 100 "[12]" 120 "[]"]
  by (auto simp: chain_world runs_def)

text \<open>
  C6. A key alone in its bucket is deleted and its data returned, but the function returns with the
  lock of the slot held: no later lookup, insertion or deletion of that key returns.
\<close>

theorem ht_delete_alone:
  assumes env: "env_ok env" "ht_wf h s"
    and b: "ht_bucket_pairs h s key = [(ht_key h s key, d)]"
  shows "runs (ht_delete_key env h key s) (\<lambda>r s'. r = d \<and>
    (\<exists>us vs. ht_pairs h s = us @ (ht_key h s key, d) # vs \<and> ht_pairs h s' = us @ vs) \<and>
    \<not> ht_wf h s' \<and>
    ht_locate_key env h key s' = None \<and> ht_insert_key env h key d s' = None \<and> ht_delete_key env h key s' = None)"
proof -
  obtain t T n C F SS where inv: "ht_inv h s t T n C F SS" using env(2) by (rule ht_wfE)
  then have core: "ht_core h s t T n C F SS" and ul: "ht_unlocked h s (ht_ptrs T n C F)" by (simp_all add: ht_inv_def)
  note D = ht_coreD [OF core] and U = ht_unlockedD [OF ul]
  let ?i = "hash_index (w_mem s) t n key"
  obtain xs' q ys' qe where sp: "bucket (w_ents s) (T, ?i) = xs' @ q # ys'" "length xs' = length ([] :: (u8 list \<times> u64) list)"
    "map (entry_pair (w_mem s) (ht_keylen t) (w_ents s)) ys' = []" "key_at (w_mem s) t (w_ents s) key q"
    "w_ents s q = Some qe" "hte_data qe = d"
    by (rule bucket_pairs_split [OF core, of key "[]" d "[]"]) (use b in auto)
  then have bk: "bucket (w_ents s) (T, ?i) = [q]" by simp
  show ?thesis
  proof (rule runs_mono [OF delete_alone [OF env(1) inv bk sp(4,5)]])
    fix r s'
    assume A: "r = hte_data qe \<and> ht_core h s' t T n C F SS \<and> w_mx s' = w_mx s \<and> q = (T, ?i) \<and> w_mem s' = w_mem s \<and>
     (\<exists>us vs. ht_pairs h s = us @ (ht_key h s key, hte_data qe) # vs \<and> ht_pairs h s' = us @ vs) \<and>
     w_rw s' = (w_rw s)(EntryLock q := RW_Write)"
    then have core': "ht_core h s' t T n C F SS"
      and rw: "w_rw s' (TableLock h) = RW_Free" "w_rw s' (EntryLock (T, hash_index (w_mem s') t n key)) = RW_Write"
      and mx: "\<And>c. w_mx s' (CounterMutex h c) = MX_Free" using U by auto
    note blocked = slot_locked_blocks [OF env(1) core' rw mx]
    have "\<not> ht_wf h s'"
    proof
      assume "ht_wf h s'"
      then obtain s'' d' where "ht_locate_key env h key s' = Some (d', s'')"
        using locate_key_returns [OF env(1)] by blast
      with blocked(1) show False by simp
    qed
    with A blocked sp(6) show "r = d \<and>
      (\<exists>us vs. ht_pairs h s = us @ (ht_key h s key, d) # vs \<and> ht_pairs h s' = us @ vs) \<and> \<not> ht_wf h s' \<and>
      ht_locate_key env h key s' = None \<and> ht_insert_key env h key d s' = None \<and> ht_delete_key env h key s' = None"
      by (simp add: ht_insert_key_def)
  qed
qed

lemma one_world_bucket: "ht_bucket_pairs 7 one_world 10 = [([10], 100)]"
proof -
  obtain t T n C F SS where inv: "ht_inv 7 one_world t T n C F SS" using one_world(1) by (rule ht_wfE)
  then have core: "ht_core 7 one_world t T n C F SS" by (simp add: ht_inv_def)
  note D = ht_coreD [OF core]
  let ?f = "\<lambda>i. map (entry_pair (w_mem one_world) (ht_keylen t) (w_ents one_world)) (bucket (w_ents one_world) (T, i))"
  have i: "hash_index (w_mem one_world) t n 10 < n" by (rule hash_index_less [OF D(4,5)])
  have pairs: "ht_pairs 7 one_world = [([10], 100)]"
  proof -
    obtain t' T' n' C' F' SS' where inv': "ht_inv 7 new_world t' T' n' C' F' SS'" using new_world(2) by (rule ht_wfE)
    have "runs (ht_insert_key calm_env 7 10 100 new_world) (\<lambda>r s'. ht_pairs 7 s' = [([10], 100)])"
      unfolding ht_insert_key_def
      by (rule runs_mono [OF ht_insert_key_with_spec [OF calm_env(1) inv']])
        (auto simp: inserted_def new_world ht_map_def)
    then show ?thesis by (auto simp: one_world_def after_def runs_def)
  qed
  have "ht_map 7 one_world (ht_key 7 one_world 10) = Some 100" by (simp add: one_world)
  then have "?f (hash_index (w_mem one_world) t n 10) \<noteq> []"
    using ht_map_bucket [OF core, of 10] by auto
  moreover have "concat (map ?f [0..<n]) = [([10], 100)]"
    using ht_pairs_eq [OF core] pairs by simp
  ultimately have "?f (hash_index (w_mem one_world) t n 10) = [([10], 100)]"
    unfolding concat_map_split [OF i, of ?f] by (auto simp: append_eq_Cons_conv)
  then show ?thesis unfolding ht_bucket_pairs_eq [OF core] .
qed

theorem ht_delete_alone_witness:
  "env_ok calm_env \<and> ht_wf 7 one_world \<and>
   runs (ht_delete_key calm_env 7 10 one_world) (\<lambda>r s'. r = 100 \<and> ht_locate_key calm_env 7 10 s' = None)"
  using ht_delete_alone [of calm_env 7 one_world 10 100] by (auto simp: one_world one_world_bucket runs_def)

section \<open>Lock failures\<close>

text \<open>An environment in which the call at tick \<open>k\<close> reports an error and nothing else fails.\<close>

definition fails_at :: "ht_env \<Rightarrow> nat \<Rightarrow> bool" where
  "fails_at env k \<longleftrightarrow> (\<forall>t. (sync_err env t \<noteq> 0) = (t = k))"

lemma counter_add_after:
  assumes "fails_at env k" "k < w_tick s" "w_mx s (CounterMutex h c) = MX_Free"
  shows "ht_counter_add env h c d s = Some (0, counter_bump h c d s)"
proof -
  have ok: "sync_err env (w_tick s) = 0" "sync_err env (Suc (w_tick s)) = 0"
    using assms(1,2) by (metis fails_at_def less_irrefl, metis fails_at_def less_SucI less_irrefl)
  have "(w_mx s)(CounterMutex h c := MX_Free) = w_mx s"
    using assms(3) by (intro fun_upd_idem)
  then show ?thesis using assms(3) ok
    by (simp add: ht_counter_add_def mutex_lock_def mutex_unlock_def mx_set_def counter_bump_def)
qed

text \<open>
  When the lock of the table cannot be taken, a lookup gives a null pointer and counts an error,
  but \<^verbatim>\<open>errno\<close> is 0 afterwards: counting the error clears it.
\<close>

theorem ht_locate_key_lock_failure:
  assumes "fails_at env (w_tick s)" "w_mx s (CounterMutex h Errors) = MX_Free"
  shows "runs (ht_locate_key env h key s) (\<lambda>d s'. d = 0 \<and> w_errno s' = 0 \<and>
    w_ctr s' (h, Errors) = w_ctr s (h, Errors) + 1 \<and> ht_pairs h s' = ht_pairs h s)"
proof -
  have e: "sync_err env (w_tick s) \<noteq> 0" using assms(1) by (simp add: fails_at_def)
  have "ht_counter_add env h Errors 1 (set_errno (sync_err env (w_tick s)) (tick s)) =
      Some (0, counter_bump h Errors 1 (set_errno (sync_err env (w_tick s)) (tick s)))"
    using assms by (intro counter_add_after [of env "w_tick s"]) auto
  moreover have "ht_pairs h (counter_bump h Errors 1 (set_errno x (tick s))) = ht_pairs h s" for x
    by (rule same_data_view) simp
  ultimately show ?thesis using e
    by (simp add: ht_locate_key_def ht_locate_entry_def rw_rdlock_def)
qed

definition sour_env :: ht_env where
  "sour_env = calm_env\<lparr>sync_err := (\<lambda>t. if t = w_tick one_world then 11 else 0)\<rparr>"

lemma one_world_mutex: "w_mx one_world (CounterMutex 7 c) = MX_Free"
  using one_world(1) by (auto simp: ht_wf_def ht_inv_def ht_unlocked_def)

theorem ht_locate_key_lock_failure_witness:
  "fails_at sour_env (w_tick one_world) \<and>
   runs (ht_locate_key sour_env 7 10 one_world) (\<lambda>d s'. d = 0 \<and> w_errno s' = 0)"
proof -
  have f: "fails_at sour_env (w_tick one_world)" by (simp add: fails_at_def sour_env_def calm_env_def)
  show ?thesis using f ht_locate_key_lock_failure [OF f one_world_mutex, of 10]
    by (auto simp: runs_def)
qed

section \<open>Hashing and statistics\<close>

text \<open>
  The hash of a key in a table that has slots is the number of a slot, and depends on the bytes
  of the key only; for a table without slots there is none.
\<close>

theorem ht_hash_in_table:
  "(case ht_hash_bytes mem key keysize n of
      None \<Rightarrow> n = 0
    | Some i \<Rightarrow> unat i < unat n \<and>
        (\<forall>key'. key_bytes mem key' (unat keysize) = key_bytes mem key (unat keysize) \<longrightarrow>
                ht_hash_bytes mem key' keysize n = Some i))"
proof (cases "n = 0")
  case False
  then have "0 < unat n" by (simp add: unat_gt_0)
  with False show ?thesis
    by (auto simp: ht_hash_bytes_def unat_mod intro!: arg_cong [where f = "\<lambda>x. x mod n"] hash_loop_cong)
qed (simp add: ht_hash_bytes_def)

theorem ht_hash_in_table_witness:
  "ht_hash_bytes ucast 13 1 4 = Some 1 \<and> ht_hash_bytes ucast (13 + 256) 1 4 = Some 1"
  using ht_hash_in_table [where mem = ucast and key = 13 and keysize = 1 and n = 4] by (simp add: ht_hash_bytes_def)

text \<open>
  Adding to a counter adds modulo 2 to the 64, gives 0, sets \<^verbatim>\<open>errno\<close> to 0 and leaves every
  other counter, every table and every lock as it was.
\<close>

theorem ht_counter_add_wraps:
  assumes "env_ok env" "w_mx s (CounterMutex h c) = MX_Free"
  shows "runs (ht_counter_add env h c delta s) (\<lambda>r s'. r = 0 \<and> w_errno s' = 0 \<and>
    unat (w_ctr s' (h, c)) = (unat (w_ctr s (h, c)) + unat delta) mod 2 ^ 64 \<and>
    (\<forall>x. x \<noteq> (h, c) \<longrightarrow> w_ctr s' x = w_ctr s x) \<and> same_data s s' \<and> w_rw s' = w_rw s)"
  using assms by (simp add: ht_counter_add_ok unat_word_ariths)

theorem ht_counter_add_wraps_witness:
  "env_ok calm_env \<and> runs (ht_counter_add calm_env 7 Hits 18446744073709551615 one_world) (\<lambda>r s'. r = 0 \<and>
     unat (w_ctr s' (7, Hits)) = (unat (w_ctr one_world (7, Hits)) + (2 ^ 64 - 1)) mod 2 ^ 64)"
  using ht_counter_add_wraps [of calm_env one_world 7 Hits 18446744073709551615] one_world_mutex
  by (auto simp: runs_def)

text \<open>
  The maximum of an average is the largest value recorded: a record of one value makes it the
  maximum of the two, and adding one average to another gives the larger maximum (the current value
  of the one added counts as recorded).
\<close>

theorem ht_average_maximum:
  "av_maximum (average_increment current a) = max current (av_maximum a) \<and>
   av_maximum (average_update cnt addend current maximum a) = max current (max maximum (av_maximum a)) \<and>
   (current \<le> maximum \<longrightarrow> av_current a \<le> av_maximum a \<longrightarrow>
      av_current (average_update cnt addend current maximum a) \<le>
      av_maximum (average_update cnt addend current maximum a))"
  by (auto simp: average_increment_def average_update_def Let_def max_def not_less)

theorem ht_average_maximum_witness:
  "(5::u64) \<le> 9 \<and> av_maximum (average_update 2 8 5 9 \<lparr>av_count = 1, av_sum = 3, av_current = 3, av_maximum = 3\<rparr>) = 9"
  using ht_average_maximum [of 5 "\<lparr>av_count = 1, av_sum = 3, av_current = 3, av_maximum = 3\<rparr>" 2 8 9]
  by (simp add: max_def)

end
