(* ===== verification/HT_Live.thy ===== *)
theory HT_Live
  imports HT_Spec
begin

text \<open>
  The keys of a table stay in memory of the callers. What matters of that memory are the bytes at the
  addresses of the keys that are in the table: a write elsewhere leaves the table well-formed and
  what it stands for unchanged.
\<close>

definition ht_live :: "addr \<Rightarrow> world \<Rightarrow> (u64 \<times> u64) set" where
  "ht_live h s = (case w_tables s h of None \<Rightarrow> {}
     | Some t \<Rightarrow> (case ht_table t of NULL \<Rightarrow> {} | Ptr T \<Rightarrow> live_kds (w_ents s) T (ht_size h s)))"

definition ht_keysize_of :: "addr \<Rightarrow> world \<Rightarrow> nat" where
  "ht_keysize_of h s = (case w_tables s h of None \<Rightarrow> 0 | Some t \<Rightarrow> ht_keylen t)"

lemma ht_live_core: "ht_core h s t T n C F SS \<Longrightarrow> ht_live h s = live_kds (w_ents s) T n"
  using ht_size_eq [of h s t T n C F SS] by (simp add: ht_live_def ht_coreD(1,2))

lemma ht_inv_mem:
  assumes inv: "ht_inv h s t T n C F SS"
    and keep: "\<And>k d. (k, d) \<in> live_kds (w_ents s) T n \<Longrightarrow> key_bytes m k (ht_keylen t) = key_bytes (w_mem s) k (ht_keylen t)"
  shows "ht_inv h (s\<lparr>w_mem := m\<rparr>) t T n C F SS" "ht_pairs h (s\<lparr>w_mem := m\<rparr>) = ht_pairs h s"
proof -
  have core: "ht_core h s t T n C F SS" using inv by (simp add: ht_inv_def)
  note D = ht_coreD [OF core]
  have bytes: "key_bytes m (hte_key e) (ht_keylen t) = key_bytes (w_mem s) (hte_key e) (ht_keylen t)"
    if "i < n" "p \<in> set (bucket (w_ents s) (T, i))" "w_ents s p = Some e" for i p e
    using that by (intro keep [of _ "hte_data e"]) (force simp: live_kds_def entry_kd_def)
  have ep: "entry_pair m (ht_keylen t) (w_ents s) p = entry_pair (w_mem s) (ht_keylen t) (w_ents s) p"
    if "i < n" "p \<in> set (bucket (w_ents s) (T, i))" for i p
    using bytes [OF that] by (auto simp: entry_pair_def split: option.splits)
  have "ht_hash_bytes m (hte_key e) (scast (ht_keysize t)) (of_nat n) = ht_hash_bytes (w_mem s) (hte_key e) (scast (ht_keysize t)) (of_nat n)"
    if "i < n" "p \<in> set (bucket (w_ents s) (T, i))" "w_ents s p = Some e" for i p e
    using bytes [OF that] by (auto simp: ht_hash_bytes_def ht_keylen_def intro!: arg_cong [where f = "\<lambda>x. x mod _"] hash_loop_cong)
  moreover have "map (fst \<circ> entry_pair m (ht_keylen t) (w_ents s)) (bucket (w_ents s) (T, i)) =
      map (fst \<circ> entry_pair (w_mem s) (ht_keylen t) (w_ents s)) (bucket (w_ents s) (T, i))" if "i < n" for i
    using ep [OF that] by auto
  ultimately have keyed: "ht_keyed m (w_ents s) t T n" using D(11) unfolding ht_keyed_def by metis
  then have core': "ht_core h (s\<lparr>w_mem := m\<rparr>) t T n C F SS" using core by (simp add: ht_core_def)
  show "ht_inv h (s\<lparr>w_mem := m\<rparr>) t T n C F SS" using inv core' by (simp add: ht_inv_def ht_unlocked_def)
  have "map (entry_pair m (ht_keylen t) (w_ents s)) (bucket (w_ents s) (T, i)) =
      map (entry_pair (w_mem s) (ht_keylen t) (w_ents s)) (bucket (w_ents s) (T, i))" if "i < n" for i
    using ep [OF that] by auto
  then show "ht_pairs h (s\<lparr>w_mem := m\<rparr>) = ht_pairs h s"
    unfolding ht_pairs_eq [OF core] ht_pairs_eq [OF core'] by (auto intro!: arg_cong [where f = concat])
qed

lemma ht_wf_mem:
  assumes wf: "ht_wf h s"
    and keep: "\<And>k d. (k, d) \<in> ht_live h s \<Longrightarrow> key_bytes m k (ht_keysize_of h s) = key_bytes (w_mem s) k (ht_keysize_of h s)"
  shows "ht_wf h (s\<lparr>w_mem := m\<rparr>)" "ht_map h (s\<lparr>w_mem := m\<rparr>) = ht_map h s" "ht_live h (s\<lparr>w_mem := m\<rparr>) = ht_live h s"
proof -
  obtain t T n C F SS where inv: "ht_inv h s t T n C F SS" using wf by (rule ht_wfE)
  then have core: "ht_core h s t T n C F SS" by (simp add: ht_inv_def)
  have k: "ht_keysize_of h s = ht_keylen t" using ht_coreD(1) [OF core] by (simp add: ht_keysize_of_def)
  have keep': "key_bytes m a (ht_keylen t) = key_bytes (w_mem s) a (ht_keylen t)" if "(a, d) \<in> live_kds (w_ents s) T n" for a d
    using keep [of a d] that unfolding ht_live_core [OF core] k .
  have M: "ht_inv h (s\<lparr>w_mem := m\<rparr>) t T n C F SS" "ht_pairs h (s\<lparr>w_mem := m\<rparr>) = ht_pairs h s"
    by (rule ht_inv_mem [OF inv], erule keep')+
  show "ht_wf h (s\<lparr>w_mem := m\<rparr>)" using M(1) by (rule ht_inv_wf)
  show "ht_map h (s\<lparr>w_mem := m\<rparr>) = ht_map h s" using M(2) by (simp add: ht_map_def)
  show "ht_live h (s\<lparr>w_mem := m\<rparr>) = ht_live h s"
    by (auto simp: ht_live_def ht_size_def split: option.splits ptr.splits)
qed

text \<open>The operations and the addresses of live keys.\<close>

lemma same_data_live:
  "same_data s s' \<Longrightarrow> ht_live h s' = ht_live h s" "same_data s s' \<Longrightarrow> ht_keysize_of h s' = ht_keysize_of h s"
  by (auto simp: same_data_def ht_live_def ht_size_def ht_keysize_of_def split: option.splits ptr.splits)

lemma ht_locate_live:
  assumes "env_ok env" "ht_wf h s"
  shows "runs (ht_locate_key env h key s) (\<lambda>d s'. ht_wf h s' \<and> same_data s s' \<and> ht_unique h s' = ht_unique h s \<and>
    (case ht_map h s (ht_key h s key) of None \<Rightarrow> d = 0 \<and> w_errno s' = ENOENT | Some x \<Rightarrow> d = x))"
proof -
  obtain t T n C F SS where inv: "ht_inv h s t T n C F SS" using assms(2) by (rule ht_wfE)
  show ?thesis
  proof (rule runs_mono [OF ht_locate_key_spec [OF assms(1) inv]])
    fix d s'
    assume A: "same_data s s' \<and> w_rw s' = w_rw s \<and>
      (case ht_map h s (ht_key h s key) of None \<Rightarrow> d = 0 \<and> w_errno s' = ENOENT | Some x \<Rightarrow> d = x)"
    then show "ht_wf h s' \<and> same_data s s' \<and> ht_unique h s' = ht_unique h s \<and>
      (case ht_map h s (ht_key h s key) of None \<Rightarrow> d = 0 \<and> w_errno s' = ENOENT | Some x \<Rightarrow> d = x)"
      using same_data_wf [of s s' h] assms(2) by blast
  qed
qed

lemma ht_insert_live:
  assumes "env_ok env" "ht_wf h s" "ht_unique h s" "ht_map h s (ht_key h s key) = None"
  shows "runs (ht_insert_key env h key data s) (\<lambda>r s'. r = 0 \<and> ht_wf h s' \<and> ht_unique h s' \<and> w_mem s' = w_mem s \<and>
    ht_keysize_of h s' = ht_keysize_of h s \<and> ht_live h s' \<subseteq> insert (key, data) (ht_live h s) \<and>
    ht_map h s' = (ht_map h s)(ht_key h s key \<mapsto> data))"
proof -
  obtain t T n C F SS where inv: "ht_inv h s t T n C F SS" using assms(2) by (rule ht_wfE)
  then have core: "ht_core h s t T n C F SS" by (simp add: ht_inv_def)
  show ?thesis unfolding ht_insert_key_def
  proof (rule runs_mono [OF ht_insert_key_with_spec [OF assms(1) inv]])
    fix r s'
    assume "if ht_options t AND hto_dups_allowed = 0 \<and> ht_map h s (ht_key h s key) \<noteq> None
      then r = -1 \<and> w_errno s' = EEXIST \<and> same_data s s' \<and> w_rw s' = w_rw s
      else r = 0 \<and> inserted h s t T n SS key data s'"
    then have r: "r = 0" and ins: "inserted h s t T n SS key data s'" using assms(4) by simp_all
    obtain t' C' F' SS' sp fc where inv': "ht_inv h s' t' T n C' F' SS'" "t' = t\<lparr>ht_slabs := sp, ht_freechain := fc\<rparr>"
      using ins unfolding inserted_def by blast
    then have core': "ht_core h s' t' T n C' F' SS'" by (simp add: ht_inv_def)
    have "w_mem s' = w_mem s" "live_kds (w_ents s') T n \<subseteq> insert (key, data) (live_kds (w_ents s) T n)"
      using ins by (simp_all add: inserted_def ht_frame_def)
    moreover have "ht_keysize_of h s' = ht_keysize_of h s"
      using ht_coreD(1) [OF core] ht_coreD(1) [OF core'] inv'(2) by (simp add: ht_keysize_of_def ht_keylen_def)
    ultimately show "r = 0 \<and> ht_wf h s' \<and> ht_unique h s' \<and> w_mem s' = w_mem s \<and>
      ht_keysize_of h s' = ht_keysize_of h s \<and> ht_live h s' \<subseteq> insert (key, data) (ht_live h s) \<and>
      ht_map h s' = (ht_map h s)(ht_key h s key \<mapsto> data)"
      using r inserted_view [OF ins inv] assms(3,4) unfolding ht_live_core [OF core] ht_live_core [OF core'] by blast
  qed
qed

end
