(* ===== verification/HT_Destroy.thy ===== *)
theory HT_Destroy
  imports HT_Create
begin

text \<open>
  Destroying a table: the entries of a slab, the slabs of a table, the locks of its statistics, and the head. What is
  left is the store without the table.
\<close>

section \<open>Slabs\<close>

text \<open>A call that touches only the entries of one slab and their locks.\<close>

definition within_slab :: "addr \<Rightarrow> world \<Rightarrow> world \<Rightarrow> bool" where
  "within_slab a s s' \<longleftrightarrow> w_mem s' = w_mem s \<and> w_brk s' = w_brk s \<and> w_mx s' = w_mx s \<and> w_tables s' = w_tables s \<and> w_slabs s' = w_slabs s \<and>
     (\<forall>p. fst p \<noteq> a \<longrightarrow> w_ents s' p = w_ents s p) \<and> (\<forall>l. \<not> lock_of_slab a l \<longrightarrow> w_rw s' l = w_rw s l)"

lemma within_slab_trans: "within_slab a s s' \<Longrightarrow> within_slab a s' s'' \<Longrightarrow> within_slab a s s''"
  by (auto simp: within_slab_def)

lemma ht_destroy_entries_ok:
  assumes "env_ok env" and "\<And>i. i < n \<Longrightarrow> \<exists>e. w_ents s (a, j + i) = Some e \<and> lock_inited e"
    and "\<And>i. i < n \<Longrightarrow> w_rw s (EntryLock (a, j + i)) \<noteq> RW_Uninit"
  shows "\<exists>s'. ht_destroy_entries env (a, j) n ret result s = Some (result, s') \<and> within_slab a s s'"
  using assms(2,3)
proof (induction n arbitrary: j s ret)
  case 0
  then show ?case by (simp add: within_slab_def)
next
  case (Suc n)
  from Suc.prems(1) [of 0] obtain e where e: "w_ents s (a, j) = Some e" "lock_inited e" by auto
  let ?e1 = "e\<lparr>hte_flags := hte_flags e AND NOT htef_occupied, hte_next := NULL, hte_key := 0, hte_data := 0\<rparr>"
  let ?e2 = "?e1\<lparr>hte_flags := hte_flags ?e1 AND NOT htef_lock_initialized\<rparr>"
  let ?s = "s\<lparr>w_tick := Suc (w_tick s), w_ents := (w_ents s)((a, j) \<mapsto> ?e2), w_rw := (w_rw s)(EntryLock (a, j) := RW_Uninit)\<rparr>"
  have "lock_inited ?e1" using e(2) by (simp add: entry_flags)
  then have fl: "hte_flags ?e1 AND htef_lock_initialized \<noteq> 0" by (simp add: lock_inited_def)
  have rw: "w_rw s (EntryLock (a, j)) \<noteq> RW_Uninit" using Suc.prems(2) [of 0] by simp
  have step: "ht_destroy_entries env (a, j) (Suc n) ret result s = ht_destroy_entries env (a, Suc j) n 0 result ?s"
    using assms(1) e(1) fl rw by (cases s) (simp add: upd_hte_def sync_simps elem_def rw_set_def)
  have w: "within_slab a s ?s" by (auto simp: within_slab_def)
  have "\<exists>s'. ht_destroy_entries env (a, Suc j) n 0 result ?s = Some (result, s') \<and> within_slab a ?s s'"
    using Suc.prems [of "Suc i" for i] by (intro Suc.IH) auto
  then show ?case unfolding step using within_slab_trans [OF w] by blast
qed

text \<open>Slabs that are gone, with their entries and locks.\<close>

definition slabs_gone :: "addr set \<Rightarrow> world \<Rightarrow> world \<Rightarrow> bool" where
  "slabs_gone A s s' \<longleftrightarrow> w_mem s' = w_mem s \<and> w_brk s' = w_brk s \<and> w_mx s' = w_mx s \<and>
     w_slabs s' = (\<lambda>a. if a \<in> A then None else w_slabs s a) \<and>
     w_ents s' = (\<lambda>p. if fst p \<in> A then None else w_ents s p) \<and>
     w_rw s' = (\<lambda>l. if \<exists>a \<in> A. lock_of_slab a l then RW_Uninit else w_rw s l)"

lemma slabs_gone_trans: "slabs_gone A s s' \<Longrightarrow> slabs_gone B s' s'' \<Longrightarrow> slabs_gone (A \<union> B) s s''"
  by (auto simp: slabs_gone_def fun_eq_iff)

text \<open>A slab whose entries have locks.\<close>

definition slab_ok :: "addr \<Rightarrow> world \<Rightarrow> bool" where
  "slab_ok a s \<longleftrightarrow> (\<exists>sl. w_slabs s a = Some sl \<and> sl_entry sl = Ptr (a, 0) \<and> (\<forall>i < unat (sl_entrycount sl).
     (\<exists>e. w_ents s (a, i) = Some e \<and> lock_inited e) \<and> w_rw s (EntryLock (a, i)) \<noteq> RW_Uninit))"

lemma slab_ok_other: "slab_ok b s \<Longrightarrow> slabs_gone A s s' \<Longrightarrow> b \<notin> A \<Longrightarrow> slab_ok b s'"
  by (auto simp: slab_ok_def slabs_gone_def)

lemma ht_destroy_slab_ok:
  assumes "env_ok env" "slab_ok a s"
  shows "\<exists>s'. ht_destroy_slab env a s = Some (0, s') \<and> slabs_gone {a} s s' \<and> w_tables s' = w_tables s"
proof -
  obtain sl where sl: "w_slabs s a = Some sl" "sl_entry sl = Ptr (a, 0)"
    "\<And>i. i < unat (sl_entrycount sl) \<Longrightarrow> (\<exists>e. w_ents s (a, i) = Some e \<and> lock_inited e) \<and> w_rw s (EntryLock (a, i)) \<noteq> RW_Uninit"
    using assms(2) by (auto simp: slab_ok_def)
  obtain s1 where s1: "ht_destroy_entries env (a, 0) (unat (sl_entrycount sl)) 0 0 s = Some (0, s1)" "within_slab a s s1"
    using ht_destroy_entries_ok [OF assms(1), of "unat (sl_entrycount sl)" s a 0 0 0] sl(3) by auto
  have "ht_destroy_slab env a s = Some (0, free_slab a (s1\<lparr>w_slabs := (w_slabs s1)(a \<mapsto> sl\<lparr>sl_next := NULL, sl_entry := NULL, sl_entrycount := 0\<rparr>)\<rparr>))"
    using sl(1,2) s1 by (simp add: ht_destroy_slab_def upd_slab_def within_slab_def)
  moreover have "slabs_gone {a} s (free_slab a (s1\<lparr>w_slabs := (w_slabs s1)(a \<mapsto> sl\<lparr>sl_next := NULL, sl_entry := NULL, sl_entrycount := 0\<rparr>)\<rparr>))"
    using s1(2) by (auto simp: slabs_gone_def within_slab_def free_slab_def fun_eq_iff)
  ultimately show ?thesis using s1(2) by (simp add: free_slab_def within_slab_def)
qed

lemma ht_destroy_slabs_step:
  assumes env: "env_ok env" and t: "w_tables s h = Some t" and sl: "ht_slabs t = Ptr a" "w_slabs s a = Some sl" and ok: "slab_ok a s"
  obtains s3 t3 where "ht_destroy_slabs env h s = ht_destroy_slabs env h s3" "slabs_gone {a} s s3"
    "w_tables s3 = (w_tables s)(h \<mapsto> t3)" "ht_slabs t3 = sl_next sl"
proof -
  let ?s1 = "s\<lparr>w_tables := (w_tables s)(h \<mapsto> t\<lparr>ht_slabs := sl_next sl\<rparr>)\<rparr>"
  have "slab_ok a ?s1" using ok by (simp add: slab_ok_def)
  then obtain s2 where s2: "ht_destroy_slab env a ?s1 = Some (0, s2)" "slabs_gone {a} ?s1 s2" "w_tables s2 = w_tables ?s1"
    using ht_destroy_slab_ok [OF env] by blast
  let ?f = "\<lambda>t. if ht_table t = Ptr a then t\<lparr>ht_table := NULL\<rparr> else t"
  let ?t = "?f (t\<lparr>ht_slabs := sl_next sl\<rparr>)" and ?s3 = "s2\<lparr>w_tables := (w_tables s2)(h \<mapsto> ?f (t\<lparr>ht_slabs := sl_next sl\<rparr>))\<rparr>"
  have step: "ht_destroy_slabs env h s = ht_destroy_slabs env h ?s3"
    by (subst ht_destroy_slabs.simps) (simp add: t sl s2 upd_ht_def)
  have g: "slabs_gone {a} s ?s3" using s2(2) by (auto simp: slabs_gone_def fun_eq_iff)
  show thesis by (rule that [OF step g, of ?t]) (use s2(3) in auto)
qed

lemma ht_destroy_slabs_ok:
  assumes "env_ok env"
  shows "w_tables s h = Some t \<Longrightarrow> slab_chain (w_slabs s) (ht_slabs t) = Some SS \<Longrightarrow> distinct SS \<Longrightarrow> (\<And>a. a \<in> set SS \<Longrightarrow> slab_ok a s) \<Longrightarrow>
    \<exists>s' t'. ht_destroy_slabs env h s = Some ((False, 0), s') \<and> slabs_gone (set SS) s s' \<and> w_tables s' = (w_tables s)(h \<mapsto> t')"
proof (induction SS arbitrary: s t)
  case Nil
  then show ?case by (subst ht_destroy_slabs.simps) (auto simp: slabs_gone_def fun_upd_idem intro!: exI [of _ t])
next
  case (Cons a SS)
  from Cons.prems(2) obtain sl where sl: "ht_slabs t = Ptr a" "w_slabs s a = Some sl" "slab_chain (w_slabs s) (sl_next sl) = Some SS"
    by (auto simp: slab_chain_Cons)
  obtain s3 t3 where step: "ht_destroy_slabs env h s = ht_destroy_slabs env h s3" and g: "slabs_gone {a} s s3"
    and t3: "w_tables s3 = (w_tables s)(h \<mapsto> t3)" "ht_slabs t3 = sl_next sl"
    by (rule ht_destroy_slabs_step [OF assms Cons.prems(1) sl(1,2) Cons.prems(4)]) auto
  have a: "a \<notin> set SS" "distinct SS" using Cons.prems(3) by auto
  have "\<exists>s' t'. ht_destroy_slabs env h s3 = Some ((False, 0), s') \<and> slabs_gone (set SS) s3 s' \<and> w_tables s' = (w_tables s3)(h \<mapsto> t')"
  proof (rule Cons.IH)
    show "w_tables s3 h = Some t3" by (simp add: t3)
    have "w_slabs s3 b = w_slabs s b" if "b \<in> set SS" for b using g a(1) that by (auto simp: slabs_gone_def)
    then show "slab_chain (w_slabs s3) (ht_slabs t3) = Some SS" using slab_chain_cong [OF sl(3), of "w_slabs s3"] t3 by simp
    show "slab_ok b s3" if "b \<in> set SS" for b
      by (rule slab_ok_other [OF Cons.prems(4) g]) (use that a(1) in auto)
  qed (rule a)
  then obtain s' t' where s': "ht_destroy_slabs env h s3 = Some ((False, 0), s')" "slabs_gone (set SS) s3 s'" "w_tables s' = (w_tables s3)(h \<mapsto> t')"
    by blast
  have "slabs_gone (set (a # SS)) s s'" using slabs_gone_trans [OF g s'(2)] by simp
  moreover have "w_tables s' = (w_tables s)(h \<mapsto> t')" using s'(3) t3(1) by simp
  ultimately show ?case unfolding step using s'(1) by blast
qed

text \<open>The pointer behind the slabs of a table.\<close>

fun slabs_next :: "(addr \<rightharpoonup> hashtable_slab) \<Rightarrow> addr ptr \<Rightarrow> addr list \<Rightarrow> addr ptr" where
  "slabs_next S p [] = p"
| "slabs_next S p (a # as) = slabs_next S (case S a of None \<Rightarrow> NULL | Some sl \<Rightarrow> sl_next sl) as"

lemma slabs_next_cong: "(\<And>a. a \<in> set as \<Longrightarrow> S' a = S a) \<Longrightarrow> slabs_next S' p as = slabs_next S p as"
  by (induction as arbitrary: p) auto

text \<open>Where that pointer leads nowhere, freeing the slabs ends in a read of memory that is not there.\<close>

lemma ht_destroy_slabs_dangling:
  assumes "env_ok env"
  shows "w_tables s h = Some t \<Longrightarrow> slab_list (w_slabs s) (ht_slabs t) SS \<Longrightarrow> distinct SS \<Longrightarrow> (\<And>a. a \<in> set SS \<Longrightarrow> slab_ok a s) \<Longrightarrow>
    slabs_next (w_slabs s) (ht_slabs t) SS = Ptr b \<Longrightarrow> w_slabs s b = None \<Longrightarrow> ht_destroy_slabs env h s = None"
proof (induction SS arbitrary: s t)
  case Nil
  then show ?case by (subst ht_destroy_slabs.simps) simp
next
  case (Cons a SS)
  from Cons.prems(2) obtain sl where sl: "ht_slabs t = Ptr a" "w_slabs s a = Some sl" "slab_list (w_slabs s) (sl_next sl) SS" by auto
  obtain s3 t3 where step: "ht_destroy_slabs env h s = ht_destroy_slabs env h s3" and g: "slabs_gone {a} s s3"
    and t3: "w_tables s3 = (w_tables s)(h \<mapsto> t3)" "ht_slabs t3 = sl_next sl"
    by (rule ht_destroy_slabs_step [OF assms Cons.prems(1) sl(1,2) Cons.prems(4)]) auto
  have a: "a \<notin> set SS" "distinct SS" using Cons.prems(3) by auto
  have eq: "w_slabs s3 c = w_slabs s c" if "c \<in> set SS" for c using g a(1) that by (auto simp: slabs_gone_def)
  show ?case unfolding step
  proof (rule Cons.IH)
    show "w_tables s3 h = Some t3" by (simp add: t3)
    show "slab_list (w_slabs s3) (ht_slabs t3) SS" using slab_list_cong [OF sl(3), of "w_slabs s3"] eq t3 by simp
    show "slab_ok c s3" if "c \<in> set SS" for c
      by (rule slab_ok_other [OF Cons.prems(4) g]) (use that a(1) in auto)
    show "slabs_next (w_slabs s3) (ht_slabs t3) SS = Ptr b"
      using Cons.prems(5) slabs_next_cong [of SS "w_slabs s3" "w_slabs s"] eq sl(2) t3 by simp
    show "w_slabs s3 b = None" using g Cons.prems(6) by (simp add: slabs_gone_def)
  qed (rule a)
qed

section \<open>Locks and head\<close>

lemma destroy_mutexes_ok:
  assumes "env_ok env"
  shows "distinct ms \<Longrightarrow> (\<And>m. m \<in> set ms \<Longrightarrow> w_mx s m \<noteq> MX_Uninit) \<Longrightarrow>
    \<exists>k. destroy_mutexes env h ms s = Some (s\<lparr>w_tick := k, w_mx := (\<lambda>m. if m \<in> set ms then MX_Uninit else w_mx s m)\<rparr>)"
proof (induction ms arbitrary: s)
  case Nil
  then show ?case by (simp add: exI [of _ "w_tick s"])
next
  case (Cons m ms)
  let ?s = "mx_set m MX_Uninit (tick s)"
  have "\<exists>k. destroy_mutexes env h ms ?s = Some (?s\<lparr>w_tick := k, w_mx := (\<lambda>m. if m \<in> set ms then MX_Uninit else w_mx ?s m)\<rparr>)"
    using Cons.prems by (intro Cons.IH) auto
  moreover have "destroy_mutexes env h (m # ms) s = destroy_mutexes env h ms ?s"
    using Cons.prems(2) [of m] assms by (simp add: sync_simps)
  moreover have "(\<lambda>x. if x \<in> set ms then MX_Uninit else w_mx ?s x) = (\<lambda>x. if x \<in> set (m # ms) then MX_Uninit else w_mx s x)"
    by auto
  ultimately show ?case by (auto simp: mx_set_def)
qed

lemma stat_mutexes: "distinct (ht_stat_mutexes h)" "m \<in> set (ht_stat_mutexes h) \<Longrightarrow> mutex_of_table h m" "CounterMutex h Errors \<notin> set (ht_stat_mutexes h)"
  by (auto simp: ht_stat_mutexes_def)

text \<open>The store without the table.\<close>

definition table_gone :: "addr \<Rightarrow> addr set \<Rightarrow> world \<Rightarrow> world \<Rightarrow> bool" where
  "table_gone h A s s' \<longleftrightarrow> w_mem s' = w_mem s \<and> w_brk s' = w_brk s \<and> w_tables s' = (w_tables s)(h := None) \<and>
     w_slabs s' = (\<lambda>a. if a \<in> A then None else w_slabs s a) \<and>
     w_ents s' = (\<lambda>p. if fst p \<in> A then None else w_ents s p) \<and>
     w_rw s' = (\<lambda>l. if lock_of_table h l \<or> (\<exists>a \<in> A. lock_of_slab a l) then RW_Uninit else w_rw s l) \<and>
     w_mx s' = (\<lambda>m. if mutex_of_table h m then MX_Uninit else w_mx s m)"

lemma table_gone_frame: "table_gone h A s s' \<Longrightarrow> ht_frame {h} A s s'"
proof -
  have "lock_of_table h' l \<Longrightarrow> h' \<noteq> h \<Longrightarrow> \<not> lock_of_table h l \<and> \<not> lock_of_slab a l" for h' l a by (cases l) auto
  moreover have "mutex_of_table h' m \<Longrightarrow> h' \<noteq> h \<Longrightarrow> \<not> mutex_of_table h m" for h' m by (cases m) auto
  ultimately show "table_gone h A s s' \<Longrightarrow> ht_frame {h} A s s'" unfolding table_gone_def ht_frame_def by auto
qed

lemma ht_owned_slabs_ok:
  assumes "ht_inv h s t T n C F SS" "a \<in> set SS"
  shows "slab_ok a s"
proof -
  have core: "ht_core h s t T n C F SS" and ul: "ht_unlocked h s (ht_ptrs T n C F)" using assms(1) by (simp_all add: ht_inv_def)
  note D = ht_coreD [OF core]
  obtain sl where sl: "w_slabs s a = Some sl" "sl_entry sl = Ptr (a, 0)" "\<And>i. (a, i) \<in> set (ht_ptrs T n C F) \<longleftrightarrow> i < unat (sl_entrycount sl)"
    using D(12) assms(2) by (auto simp: ht_owned_def)
  have "(\<exists>e. w_ents s p = Some e \<and> lock_inited e) \<and> w_rw s (EntryLock p) \<noteq> RW_Uninit" if p: "p \<in> set (ht_ptrs T n C F)" for p
    using p ht_shapeD(10) [OF D(10)] ht_unlockedD(3) [OF ul] by simp
  then show ?thesis using sl unfolding slab_ok_def by blast
qed

lemma ht_destroy_spec:
  assumes env: "env_ok env" and inv: "ht_inv h s t T n C F SS" and ended: "slabs_end s t SS" and old: "ht_old t = NULL"
  shows "\<exists>s'. ht_destroy env h s = Some (0, s') \<and> table_gone h (set SS) s s' \<and> w_errno s' = 0"
proof -
  have core: "ht_core h s t T n C F SS" and ul: "ht_unlocked h s (ht_ptrs T n C F)" using inv by (simp_all add: ht_inv_def)
  note D = ht_coreD [OF core] and U = ht_unlockedD [OF ul]
  let ?s1 = "(set_errno 0 (rw_set (TableLock h) RW_Write (tick s)))\<lparr>w_tables := (w_tables s)(h \<mapsto> t)\<rparr>"
  have "slab_ok a ?s1" if "a \<in> set SS" for a
    using ht_owned_slabs_ok [OF inv that] by (simp add: slab_ok_def rw_set_def)
  moreover have "slab_chain (w_slabs ?s1) (ht_slabs t) = Some SS" "distinct SS" using D(12) ended by (simp_all add: ht_owned_def rw_set_def)
  ultimately obtain s2 t2 where s2: "ht_destroy_slabs env h ?s1 = Some ((False, 0), s2)" "slabs_gone (set SS) ?s1 s2"
      "w_tables s2 = (w_tables ?s1)(h \<mapsto> t2)"
    using ht_destroy_slabs_ok [OF env, of ?s1 h t SS] by auto
  have mx: "w_mx s2 = w_mx s" using s2(2) by (simp add: slabs_gone_def rw_set_def)
  obtain k where k: "destroy_mutexes env h (ht_stat_mutexes h) (set_errno 0 s2) =
      Some ((set_errno 0 s2)\<lparr>w_tick := k, w_mx := (\<lambda>m. if m \<in> set (ht_stat_mutexes h) then MX_Uninit else w_mx (set_errno 0 s2) m)\<rparr>)"
    using destroy_mutexes_ok [OF env stat_mutexes(1), of h "set_errno 0 s2" h] ul stat_mutexes(2) [of _ h]
    by (auto simp: mx ht_unlocked_def)
  have rw2: "w_rw s2 (TableLock h) = RW_Write" using s2(2) by (simp add: slabs_gone_def rw_set_def)
  let ?s3 = "(set_errno 0 s2)\<lparr>w_tick := k, w_mx := (\<lambda>m. if m \<in> set (ht_stat_mutexes h) then MX_Uninit else w_mx (set_errno 0 s2) m)\<rparr>"
  let ?s4 = "free_table h (mx_set (CounterMutex h Errors) MX_Uninit (tick (rw_set (TableLock h) RW_Uninit (tick (rw_set (TableLock h) RW_Free (tick ?s3))))))"
  have "ht_destroy env h s = Some (0, ?s4)"
    using env D(1) old U s2(1) k rw2 mx stat_mutexes(3) [of h]
    by (subst ht_destroy.simps) (simp add: sync_simps fun_upd_idem)
  moreover have "table_gone h (set SS) s ?s4"
  proof -
    have "lock_of_table h l \<or> l \<noteq> TableLock h" for l by (cases l) auto
    moreover have "mutex_of_table h m \<or> m \<notin> set (ht_stat_mutexes h) \<and> m \<noteq> CounterMutex h Errors" for m using stat_mutexes(2) [of m h] by auto
    ultimately show ?thesis using s2(2,3) by (auto simp: table_gone_def slabs_gone_def free_table_def fun_eq_iff)
  qed
  ultimately show ?thesis by (auto simp: free_table_def)
qed

lemma ht_destroy_dangling:
  assumes env: "env_ok env" and inv: "ht_inv h s t T n C F SS" and old: "ht_old t = NULL"
    and b: "slabs_next (w_slabs s) (ht_slabs t) SS = Ptr b" "w_slabs s b = None"
  shows "ht_destroy env h s = None"
proof -
  have core: "ht_core h s t T n C F SS" and ul: "ht_unlocked h s (ht_ptrs T n C F)" using inv by (simp_all add: ht_inv_def)
  note D = ht_coreD [OF core] and U = ht_unlockedD [OF ul]
  let ?s1 = "(set_errno 0 (rw_set (TableLock h) RW_Write (tick s)))\<lparr>w_tables := (w_tables s)(h \<mapsto> t)\<rparr>"
  have "slab_ok a ?s1" if "a \<in> set SS" for a
    using ht_owned_slabs_ok [OF inv that] by (simp add: slab_ok_def rw_set_def)
  moreover have "slab_list (w_slabs ?s1) (ht_slabs t) SS" "distinct SS" using D(12) by (simp_all add: ht_owned_def rw_set_def)
  ultimately have "ht_destroy_slabs env h ?s1 = None"
    using b by (intro ht_destroy_slabs_dangling [OF env, of ?s1 h t SS b]) (auto simp: rw_set_def)
  then show ?thesis using env D(1) old U(1) by (subst ht_destroy.simps) (simp add: sync_simps fun_upd_idem)
qed

end
