(* ===== verification/HT_Life.thy ===== *)
theory HT_Life
  imports HT_Destroy HT_Spec
begin

text \<open>
  The end of a table: \<^verbatim>\<open>ht_destroy\<close> gives back what the table used and nothing else; \<^verbatim>\<open>ht_sweep\<close>, which is to wait until
  nobody uses a table any more, fails on every table with a chain.
\<close>

section \<open>ht_sweep\<close>

lemma sweep_slot_empty:
  assumes "env_ok env" "w_ents s (T, j) = Some e" "lock_inited e" "hte_next e = NULL" "w_rw s (EntryLock (T, j)) = RW_Free"
  shows "ht_sweep_entries env h (T, j) (Suc n) ret s = ht_sweep_entries env h (T, Suc j) n 0 (s\<lparr>w_tick := Suc (Suc (w_tick s))\<rparr>)"
proof -
  have fl: "hte_flags e AND htef_lock_initialized \<noteq> 0" using assms(3) by (simp add: lock_inited_def)
  have idem: "(w_rw s)(EntryLock (T, j) := RW_Free) = w_rw s" using assms(5) by (simp add: fun_upd_idem)
  have chain: "ht_sweep_chain env h (T, j) (T, j) 0 (s\<lparr>w_tick := k\<rparr>) = Some ((False, 0), s\<lparr>w_tick := k\<rparr>)" for k
    using assms(2,4) by (subst ht_sweep_chain.simps) simp
  show ?thesis using assms(1,2,5) fl idem chain by (cases s) (simp add: sync_simps elem_def rw_set_def)
qed

lemma sweep_slot_chain:
  assumes "env_ok env" "w_ents s (T, j) = Some e" "lock_inited e" "hte_next e = Ptr c" "c \<noteq> (T, j)" "w_rw s (EntryLock (T, j)) = RW_Free"
    and "w_rw s (EntryLock c) = RW_Free" "w_mx s (CounterMutex h Errors) = MX_Free"
  shows "\<exists>s'. ht_sweep_entries env h (T, j) (Suc n) ret s = Some (EPERM, s') \<and> same_data s s' \<and> w_rw s' = (w_rw s)(EntryLock c := RW_Write)"
proof -
  have fl: "hte_flags e AND htef_lock_initialized \<noteq> 0" using assms(3) by (simp add: lock_inited_def)
  have idem: "(w_rw s)(EntryLock (T, j) := RW_Free) = w_rw s" using assms(6) by (simp add: fun_upd_idem)
  have "\<exists>s'. ht_sweep_chain env h (T, j) (T, j) 0 (s\<lparr>w_tick := k\<rparr>) = Some ((True, EPERM), s') \<and> same_data s s' \<and> w_rw s' = (w_rw s)(EntryLock c := RW_Write)" for k
    using assms(1,2,4-8) fl by (subst ht_sweep_chain.simps) (simp add: sync_simps rw_set_def same_data_def)
  then obtain s' where "ht_sweep_chain env h (T, j) (T, j) 0 (s\<lparr>w_tick := Suc (Suc (w_tick s))\<rparr>) = Some ((True, EPERM), s')"
      "same_data s s'" "w_rw s' = (w_rw s)(EntryLock c := RW_Write)" by blast
  then show ?thesis using assms(1,2,6) fl idem by (cases s) (simp add: sync_simps elem_def rw_set_def)
qed

text \<open>The slots from one on: all without a chain, or the first that has one.\<close>

definition swept :: "nat \<Rightarrow> nat \<Rightarrow> (nat \<Rightarrow> eaddr list) \<Rightarrow> world \<Rightarrow> int \<Rightarrow> world \<Rightarrow> bool" where
  "swept j n C s r s' \<longleftrightarrow> same_data s s' \<and>
     (if \<forall>i \<in> {j..<n}. C i = [] then r = 0 \<and> w_rw s' = w_rw s
      else \<exists>i \<in> {j..<n}. C i \<noteq> [] \<and> (\<forall>k \<in> {j..<i}. C k = []) \<and> r = EPERM \<and> w_rw s' = (w_rw s)(EntryLock (hd (C i)) := RW_Write))"

lemma ball_from_Suc: "j < n \<Longrightarrow> P j \<Longrightarrow> (\<forall>i \<in> {j..<n}. P i) = (\<forall>i \<in> {Suc j..<n}. P i)"
  by (metis Suc_le_eq atLeastLessThan_iff le_neq_implies_less nat_less_le)

lemma swept_next:
  assumes "C j = []" "j < n" "swept (Suc j) n C s r s'"
  shows "swept j n C s r s'"
proof (cases "\<forall>i \<in> {Suc j..<n}. C i = []")
  case True
  then show ?thesis using assms ball_from_Suc [of j n "\<lambda>i. C i = []"] by (simp add: swept_def)
next
  case False
  then obtain i where i: "i \<in> {Suc j..<n}" "C i \<noteq> []" "\<forall>k \<in> {Suc j..<i}. C k = []" "r = EPERM"
      "w_rw s' = (w_rw s)(EntryLock (hd (C i)) := RW_Write)" using conjunct2 [OF assms(3) [unfolded swept_def if_not_P [OF False]]] by blast
  have "\<forall>k \<in> {j..<i}. C k = []" using i(1,3) assms(1) ball_from_Suc [of j i "\<lambda>k. C k = []"] by simp
  moreover have "i \<in> {j..<n}" using i(1) by simp
  ultimately show ?thesis unfolding swept_def using i(2,4,5) assms(3) [unfolded swept_def] by (metis (no_types, lifting))
qed

lemma ht_sweep_entries_ok:
  assumes env: "env_ok env" and sh: "ht_shape (w_ents s) fc T n C F" and ul: "ht_unlocked h s (ht_ptrs T n C F)"
  shows "j + k = n \<Longrightarrow> \<exists>r s'. ht_sweep_entries env h (T, j) k 0 (s\<lparr>w_tick := q\<rparr>) = Some (r, s') \<and> swept j n C s r s'"
proof (induction k arbitrary: j q)
  case 0
  then show ?case by (simp add: swept_def)
next
  case (Suc k)
  let ?s = "s\<lparr>w_tick := q\<rparr>"
  have j: "j < n" using Suc.prems by simp
  note U = ht_unlockedD [OF ul]
  obtain e where e: "w_ents s (T, j) = Some e" "entry_chain (w_ents s) (hte_next e) = Some (C j)" "lock_inited e"
    using ht_shapeD(3) [OF sh j] ht_shapeD(10) [OF sh, of "(T, j)"] j by (auto simp: set_ht_ptrs)
  have rw: "w_rw ?s (EntryLock (T, j)) = RW_Free" using U(3) [of "(T, j)"] j by (simp add: set_ht_ptrs)
  show ?case
  proof (cases "C j")
    case Nil
    then have "hte_next e = NULL" using e(2) by simp
    then have "ht_sweep_entries env h (T, j) (Suc k) 0 ?s = ht_sweep_entries env h (T, Suc j) k 0 (s\<lparr>w_tick := Suc (Suc q)\<rparr>)"
      using sweep_slot_empty [OF env _ e(3) _ rw, of h k 0] e(1) by simp
    then show ?thesis using Suc.IH [of "Suc j" "Suc (Suc q)"] Suc.prems swept_next [of C j n s] Nil by auto
  next
    case (Cons c cs)
    then have c: "hte_next e = Ptr c" "c \<in> set (C j)" using e(2) by (auto simp: entry_chain_Cons)
    have "c \<noteq> (T, j)" using ht_shapeD(4) [OF sh j, of j] c(2) j by auto
    moreover have "w_rw ?s (EntryLock c) = RW_Free" using U(3) [of c] c(2) j by (auto simp: set_ht_ptrs)
    ultimately obtain s' where "ht_sweep_entries env h (T, j) (Suc k) 0 ?s = Some (EPERM, s')" "same_data s s'" "w_rw s' = (w_rw s)(EntryLock c := RW_Write)"
      using sweep_slot_chain [OF env _ e(3) c(1) _ rw, of h k 0] e(1) U(6) by auto
    then show ?thesis using Cons j by (auto simp: swept_def intro!: bexI [of _ j])
  qed
qed

lemma ht_sweep_spec:
  assumes "env_ok env" "ht_inv h s t T n C F SS"
  shows "\<exists>r s'. ht_sweep env h s = Some (r, s') \<and> swept 0 n C s r s'"
proof -
  have core: "ht_core h s t T n C F SS" and ul: "ht_unlocked h s (ht_ptrs T n C F)" using assms(2) by (simp_all add: ht_inv_def)
  note D = ht_coreD [OF core] and U = ht_unlockedD [OF ul]
  obtain sl where sl: "w_slabs s T = Some sl" "sl_entry sl = Ptr (T, 0)" "unat (sl_entrycount sl) = n"
    using D(5,6) by (auto simp: unat_of_nat_u64)
  have "(w_rw s)(TableLock h := RW_Free) = w_rw s" using U(1) by (simp add: fun_upd_idem)
  then have "ht_sweep env h s = ht_sweep_entries env h (T, 0) n 0 (s\<lparr>w_tick := Suc (Suc (w_tick s))\<rparr>)"
    using assms(1) U(1) D(1,2) sl by (cases s) (simp add: ht_sweep_def sync_simps rw_set_def)
  then show ?thesis using ht_sweep_entries_ok [OF assms(1) D(10) ul add_0 [of n], of "Suc (Suc (w_tick s))"] by simp
qed

text \<open>
  C9. \<^verbatim>\<open>ht_sweep\<close> of a well-formed table that nobody uses changes no data; it gives 0 and leaves all locks as they were if no bucket has
  a second key. Otherwise it fails at the first bucket that has one: it locks the chained entry but releases the lock of
  the slot, which is not held, and returns EPERM with the chained entry locked.
\<close>

theorem ht_sweep_chains:
  assumes "env_ok env" "ht_inv h s t T n C F SS"
  shows "runs (ht_sweep env h s) (\<lambda>r s'. same_data s s' \<and>
    (if \<forall>i<n. C i = [] then r = 0 \<and> w_rw s' = w_rw s
     else \<exists>i<n. C i \<noteq> [] \<and> (\<forall>k<i. C k = []) \<and> r = EPERM \<and> w_rw s' = (w_rw s)(EntryLock (hd (C i)) := RW_Write)))"
  using ht_sweep_spec [OF assms] unfolding swept_def atLeast0LessThan Ball_def Bex_def lessThan_iff by (auto simp: runs_def simp del: split_paired_Ex)

theorem ht_sweep_chains_witness:
  "runs (ht_sweep calm_env 5 chain_world) (\<lambda>r s'. r = EPERM \<and> w_rw s' (EntryLock (3, 0)) = RW_Write)"
proof -
  note H = ht_sweep_chains [OF calm_env(1) chain_world_inv]
  show ?thesis using H by (auto simp: runs_def split: if_splits)
qed

section \<open>ht_destroy\<close>

text \<open>
  C8. \<^verbatim>\<open>ht_destroy\<close> of a well-formed table without an old table whose chain of slabs ends with a null pointer gives 0; the
  head and all slabs of the table are freed, with their entries, and every other well-formed table keeps its contents. But
  the pointer to the old table, and the one behind the first slab, are those that \<^verbatim>\<open>malloc\<close> returned: if one of them is not
  null and there is no table, or no slab, at it, destroying the table is undefined.
\<close>

theorem ht_destroy_frees:
  assumes "env_ok env" "ht_inv h s t T n C F SS"
  shows "(ht_old t = NULL \<and> slabs_end s t SS \<longrightarrow> runs (ht_destroy env h s) (\<lambda>r s'. r = 0 \<and> w_tables s' = (w_tables s)(h := None) \<and>
      (\<forall>a. w_slabs s' a = (if a \<in> set SS then None else w_slabs s a)) \<and> (\<forall>p. w_ents s' p = (if fst p \<in> set SS then None else w_ents s p)) \<and>
      (\<forall>h' t' T' n' C' F' SS'. h' \<noteq> h \<and> ht_inv h' s t' T' n' C' F' SS' \<and> set SS \<inter> set SS' = {} \<longrightarrow>
        ht_wf h' s' \<and> (slabs_end s t' SS' \<longrightarrow> ht_ended h' s') \<and> ht_pairs h' s' = ht_pairs h' s))) \<and>
    (\<forall>b. ht_old t = NULL \<and> slabs_next (w_slabs s) (ht_slabs t) SS = Ptr b \<and> w_slabs s b = None \<longrightarrow> ht_destroy env h s = None) \<and>
    (\<forall>old. ht_old t = Ptr old \<and> old \<noteq> h \<and> w_rw s (TableLock old) = RW_Uninit \<longrightarrow> ht_destroy env h s = None)"
proof (intro conjI impI allI)
  assume "ht_old t = NULL \<and> slabs_end s t SS"
  then obtain s' where s': "ht_destroy env h s = Some (0, s')" "table_gone h (set SS) s s'" using ht_destroy_spec [OF assms] by blast
  have "ht_wf h' s' \<and> (slabs_end s t' SS' \<longrightarrow> ht_ended h' s') \<and> ht_pairs h' s' = ht_pairs h' s"
    if "h' \<noteq> h" "ht_inv h' s t' T' n' C' F' SS'" "set SS \<inter> set SS' = {}" for h' t' T' n' C' F' SS'
  proof -
    note fr = table_gone_frame [OF s'(2)]
    have "ht_core h' s t' T' n' C' F' SS'" using that(2) by (simp add: ht_inv_def)
    from slabs_end_frame [OF fr this] ht_inv_frame [OF fr that(2)] show ?thesis
      using that(1,3) ht_inv_wf ht_endedI by (simp add: Int_commute)
  qed
  then show "runs (ht_destroy env h s) (\<lambda>r s'. r = 0 \<and> w_tables s' = (w_tables s)(h := None) \<and>
      (\<forall>a. w_slabs s' a = (if a \<in> set SS then None else w_slabs s a)) \<and> (\<forall>p. w_ents s' p = (if fst p \<in> set SS then None else w_ents s p)) \<and>
      (\<forall>h' t' T' n' C' F' SS'. h' \<noteq> h \<and> ht_inv h' s t' T' n' C' F' SS' \<and> set SS \<inter> set SS' = {} \<longrightarrow>
        ht_wf h' s' \<and> (slabs_end s t' SS' \<longrightarrow> ht_ended h' s') \<and> ht_pairs h' s' = ht_pairs h' s))"
    using s' by (auto simp: runs_def table_gone_def)
next
  fix b
  assume "ht_old t = NULL \<and> slabs_next (w_slabs s) (ht_slabs t) SS = Ptr b \<and> w_slabs s b = None"
  then show "ht_destroy env h s = None" using ht_destroy_dangling [OF assms] by blast
next
  fix old
  assume o: "ht_old t = Ptr old \<and> old \<noteq> h \<and> w_rw s (TableLock old) = RW_Uninit"
  have core: "ht_core h s t T n C F SS" and ul: "ht_unlocked h s (ht_ptrs T n C F)" using assms(2) by (simp_all add: ht_inv_def)
  have "rw_wrlock env (TableLock old) u = None" if "w_rw u (TableLock old) = RW_Uninit" for u
    using assms(1) that by (simp add: rw_wrlock_def)
  then have "ht_destroy env old u = None" if "w_rw u (TableLock old) = RW_Uninit" for u
    using that by (subst ht_destroy.simps) simp
  then show "ht_destroy env h s = None" using o assms(1) ht_coreD(1) [OF core] ht_unlockedD(1) [OF ul]
    by (subst ht_destroy.simps) (simp add: sync_simps)
qed

theorem ht_destroy_frees_witness:
  "runs (ht_destroy calm_env 5 chain_world) (\<lambda>r s'. r = 0 \<and> w_tables s' = Map.empty \<and> w_slabs s' = Map.empty)"
proof -
  have "ht_old chain_table = NULL" "slabs_end chain_world chain_table [3, 2]"
    by (simp_all add: chain_table_def chain_world_def slab_chain_Cons)
  then obtain s' where s': "ht_destroy calm_env 5 chain_world = Some (0, s')" "w_tables s' = (w_tables chain_world)(5 := None)"
      "\<forall>a. w_slabs s' a = (if a \<in> set [3, 2] then None else w_slabs chain_world a)"
    using ht_destroy_frees [OF calm_env(1) chain_world_inv] by (auto simp: runs_def)
  have "w_tables s' = Map.empty" using s'(2) by (simp add: chain_world_def)
  moreover have "w_slabs s' = Map.empty" using s'(3) by (auto simp: chain_world_def fun_eq_iff)
  ultimately show ?thesis using s'(1) by (simp add: runs_def)
qed

end
