(* ===== verification/HT_Resize.thy ===== *)
theory HT_Resize
  imports HT_Life
begin

text \<open>
  \<^verbatim>\<open>ht_resize\<close>: the entries of a table are inserted into a new one, the two heads exchange what they own, and the old
  entries are swept and destroyed under the head of the new table.
\<close>

section \<open>Heads that exchange what they own\<close>

lemma dups_bit: "(x AND NOT hto_resize_implicit) AND hto_dups_allowed = x AND hto_dups_allowed"
  by (rule bit_eqI) (auto simp: hto_resize_implicit_def hto_dups_allowed_def bit_and_iff bit_not_iff bit_1_iff bit_2_iff)

lemma keysize_cast: "ucast (scast (k :: u32) :: u64) = k"
proof (rule bit_word_eqI)
  fix i
  assume "i < LENGTH(32)"
  then have "min (31 :: nat) i = i" by simp
  then show "bit (ucast (scast k :: u64) :: u32) i = bit k i" using \<open>i < LENGTH(32)\<close> by (simp add: bit_unsigned_iff bit_signed_iff)
qed

text \<open>Two heads that describe the same kind of table.\<close>

definition same_kind :: "hashtable \<Rightarrow> hashtable \<Rightarrow> bool" where
  "same_kind t t' \<longleftrightarrow> ht_keysize t' = ht_keysize t \<and> ht_options t' AND hto_dups_allowed = ht_options t AND hto_dups_allowed \<and>
     ht_hash_compute t' = ht_hash_compute t \<and> ht_key_compare t' = ht_key_compare t \<and> ht_threshold_evaluate t' = ht_threshold_evaluate t"

text \<open>A head that takes over table, slabs and free chain from another one stands for the same pairs.\<close>

lemma ht_core_handover:
  assumes core: "ht_core a s ta T n C F SS" and tb: "w_tables s' b = Some tb" "same_kind ta tb" "b < w_brk s'"
    and fields: "ht_table tb = ht_table ta" "ht_slabs tb = ht_slabs ta" "ht_freechain tb = ht_freechain ta"
    and same: "w_mem s' = w_mem s" "w_brk s' = w_brk s" "w_slabs s' = w_slabs s" "w_ents s' = w_ents s"
  shows "ht_core b s' tb T n C F SS" "ht_pairs b s' = ht_pairs a s"
proof -
  have len: "ht_keylen tb = ht_keylen ta" using tb(2) by (simp add: ht_keylen_def same_kind_def)
  show core': "ht_core b s' tb T n C F SS"
    using core tb unfolding ht_core_def fields same by (simp add: same_kind_def ht_keyed_def len)
  show "ht_pairs b s' = ht_pairs a s" unfolding ht_pairs_eq [OF core] ht_pairs_eq [OF core'] same len ..
qed

section \<open>The keys of a table\<close>

lemma distinct_concat_upt:
  "(\<And>i. i < n \<Longrightarrow> distinct (g i)) \<Longrightarrow> (\<And>i j. i < n \<Longrightarrow> j < n \<Longrightarrow> i \<noteq> j \<Longrightarrow> set (g i) \<inter> set (g j) = {}) \<Longrightarrow>
   distinct (concat (map g [0..<n]))"
proof (induction n)
  case (Suc n)
  have "distinct (concat (map g [0..<n]))" using Suc.prems by (intro Suc.IH) auto
  moreover have "x \<notin> set (g n)" if "i < n" "x \<in> set (g i)" for i x using Suc.prems(2) [of i n] that by auto
  ultimately show ?case using Suc.prems(1) [of n] by auto
qed simp

lemma ht_pairs_distinct:
  assumes core: "ht_core h s t T n C F SS" and nd: "ht_options t AND hto_dups_allowed = 0"
  shows "distinct (map fst (ht_pairs h s))"
proof -
  note D = ht_coreD [OF core]
  let ?p = "entry_pair (w_mem s) (ht_keylen t) (w_ents s)" and ?b = "\<lambda>i. bucket (w_ents s) (T, i)"
  have "i = j" if ij: "i < n" "j < n" "p \<in> set (?b i)" "q \<in> set (?b j)" "fst (?p p) = fst (?p q)" for i j p q
  proof -
    obtain e e' where e: "w_ents s p = Some e" "w_ents s q = Some e'"
      using bucket_alloc(1) [OF D(10) ij(1,3)] bucket_alloc(1) [OF D(10) ij(2,4)] by blast
    have "fst (?p q) = key_bytes (w_mem s) (hte_key e') (ht_keylen t)" using e by (simp add: entry_pair_def)
    then show ?thesis
      using bucket_hash [OF core ij(1,3) _ e(1), of "hte_key e'"] bucket_hash [OF core ij(2,4) _ e(2), of "hte_key e'"] ij(5) by simp
  qed
  then have "set (map (fst \<circ> ?p) (?b i)) \<inter> set (map (fst \<circ> ?p) (?b j)) = {}" if "i < n" "j < n" "i \<noteq> j" for i j
    using that by auto
  moreover have "distinct (map (fst \<circ> ?p) (?b i))" if "i < n" for i using D(11) nd that by (simp add: ht_keyed_def)
  ultimately have "distinct (concat (map (\<lambda>i. map (fst \<circ> ?p) (?b i)) [0..<n]))" by (intro distinct_concat_upt) auto
  then show ?thesis unfolding ht_pairs_eq [OF core] by (simp add: map_concat comp_def)
qed

section \<open>Filling the new table\<close>

text \<open>
  The new table \<open>nht\<close> holds the pairs \<open>xs\<close> in slabs from \<open>B\<close> on, and nothing else has changed since \<open>s0\<close>.
\<close>

definition filling :: "addr \<Rightarrow> hashtable \<Rightarrow> addr \<Rightarrow> nat \<Rightarrow> addr \<Rightarrow> world \<Rightarrow> world \<Rightarrow> (u8 list \<times> u64) list \<Rightarrow> bool" where
  "filling nht nt T n B s0 s xs \<longleftrightarrow>
     (\<exists>sp fc C F SS. ht_inv nht s (nt\<lparr>ht_slabs := sp, ht_freechain := fc\<rparr>) T n C F SS \<and> (\<forall>a\<in>set SS. B \<le> a)) \<and>
     mset (ht_pairs nht s) = mset xs \<and> ht_frame {nht} {a. B \<le> a} s0 s"

lemma filling_insert:
  assumes env: "env_ok env" and fill: "filling nht nt T n B s0 s xs" and B: "B \<le> w_brk s0"
    and new: "ht_options nt AND hto_dups_allowed = 0 \<Longrightarrow> key_bytes (w_mem s0) key (ht_keylen nt) \<notin> fst ` set xs"
  shows "\<exists>s'. ht_insert_key_plain env nht key data s = Some (0, s') \<and>
    filling nht nt T n B s0 s' (xs @ [(key_bytes (w_mem s0) key (ht_keylen nt), data)])"
proof -
  obtain sp fc C F SS where inv: "ht_inv nht s (nt\<lparr>ht_slabs := sp, ht_freechain := fc\<rparr>) T n C F SS" and SS: "\<forall>a\<in>set SS. B \<le> a"
    and xs: "mset (ht_pairs nht s) = mset xs" and fr: "ht_frame {nht} {a. B \<le> a} s0 s"
    using fill by (auto simp: filling_def)
  let ?t = "nt\<lparr>ht_slabs := sp, ht_freechain := fc\<rparr>"
  have core: "ht_core nht s ?t T n C F SS" using inv by (simp add: ht_inv_def)
  have key: "ht_key nht s key = key_bytes (w_mem s0) key (ht_keylen nt)"
    using ht_coreD(1) [OF core] ht_frameD(1) [OF fr] by (simp add: ht_key_def ht_keylen_def)
  have "set (ht_pairs nht s) = set xs" using xs by (metis set_mset_mset)
  then have nd: "\<not> (ht_options ?t AND hto_dups_allowed = 0 \<and> ht_map nht s (ht_key nht s key) \<noteq> None)"
    using new by (auto simp: ht_map_def key map_of_eq_None_iff dest: map_of_SomeD)
  obtain s' where s': "ht_insert_key_plain env nht key data s = Some (0, s')" "inserted nht s ?t T n SS key data s'"
    using ht_insert_key_with_spec [OF env inv, of "\<lambda>h numents s. None" key data] unfolding if_not_P [OF nd]
    by (auto simp: runs_def ht_insert_key_plain_def)
  have fr': "ht_frame {nht} {a. B \<le> a} s0 s'"
    by (rule ht_frame_trans [OF fr]) (use s'(2) SS in \<open>auto simp: inserted_def\<close>)
  obtain t' C' F' SS' where n: "ht_inv nht s' t' T n C' F' SS'" "\<exists>sp fc. t' = ?t\<lparr>ht_slabs := sp, ht_freechain := fc\<rparr>"
      "\<forall>a\<in>set SS'. a \<in> set SS \<or> w_brk s \<le> a"
    using s'(2) unfolding inserted_def by blast
  have "\<forall>a\<in>set SS'. B \<le> a" using n(3) SS B ht_frameD(2) [OF fr] by auto
  moreover have "\<exists>sp fc. t' = nt\<lparr>ht_slabs := sp, ht_freechain := fc\<rparr>" using n(2) by auto
  moreover have "mset (ht_pairs nht s') = mset (xs @ [(key_bytes (w_mem s0) key (ht_keylen nt), data)])"
    using s'(2) xs unfolding inserted_def key by auto
  ultimately show ?thesis using s'(1) n(1) fr' unfolding filling_def by blast
qed

text \<open>The loops of the function over a chain and over the slots, on the entries as they were at the start.\<close>

lemma ht_resize_chain_ok:
  assumes env: "env_ok env" and B: "B \<le> w_brk s0"
  shows "filling nht nt T n B s0 s xs \<Longrightarrow> w_ents s0 c = Some ce \<Longrightarrow> entry_chain (w_ents s0) (hte_next ce) = Some ps \<Longrightarrow>
    (\<And>p. p \<in> set (c # ps) \<Longrightarrow> fst p < B) \<Longrightarrow>
    (ht_options nt AND hto_dups_allowed = 0 \<Longrightarrow> distinct (map fst (xs @ map (entry_pair (w_mem s0) (ht_keylen nt) (w_ents s0)) ps))) \<Longrightarrow>
    \<exists>s'. ht_resize_chain env nht c s = Some (False, s') \<and>
      filling nht nt T n B s0 s' (xs @ map (entry_pair (w_mem s0) (ht_keylen nt) (w_ents s0)) ps)"
proof (induction ps arbitrary: c ce s xs)
  case Nil
  have "w_ents s c = Some ce"
    using ht_frameD(7) [of "{nht}" "{a. B \<le> a}" s0 s "fst c" "snd c"] Nil.prems(1,2,4) B by (simp add: filling_def)
  then show ?case using Nil.prems(1,3) by (subst ht_resize_chain.simps) simp
next
  case (Cons q ps)
  let ?p = "entry_pair (w_mem s0) (ht_keylen nt) (w_ents s0)"
  have fr: "ht_frame {nht} {a. B \<le> a} s0 s" using Cons.prems(1) by (simp add: filling_def)
  obtain e where e: "hte_next ce = Ptr q" "w_ents s0 q = Some e" "entry_chain (w_ents s0) (hte_next e) = Some ps"
    using Cons.prems(3) by (auto simp: entry_chain_Cons)
  have now: "w_ents s p = w_ents s0 p" if "p \<in> set (c # q # ps)" for p
    using ht_frameD(7) [OF fr, of "fst p" "snd p"] Cons.prems(4) [OF that] B by simp
  have pq: "?p q = (key_bytes (w_mem s0) (hte_key e) (ht_keylen nt), hte_data e)" using e(2) by (simp add: entry_pair_def)
  have "key_bytes (w_mem s0) (hte_key e) (ht_keylen nt) \<notin> fst ` set xs" if "ht_options nt AND hto_dups_allowed = 0"
    using Cons.prems(5) [OF that] pq by auto
  then obtain s1 where s1: "ht_insert_key_plain env nht (hte_key e) (hte_data e) s = Some (0, s1)" "filling nht nt T n B s0 s1 (xs @ [?p q])"
    using filling_insert [OF env Cons.prems(1) B, of "hte_key e" "hte_data e"] pq by auto
  have "\<exists>s'. ht_resize_chain env nht q s1 = Some (False, s') \<and> filling nht nt T n B s0 s' ((xs @ [?p q]) @ map ?p ps)"
    using Cons.prems(4,5) by (intro Cons.IH [OF s1(2) e(2,3)]) auto
  moreover have "ht_resize_chain env nht c s = ht_resize_chain env nht q s1"
    using now [of c] now [of q] Cons.prems(2) e(1,2) s1(1) by (subst ht_resize_chain.simps) simp
  ultimately show ?case by simp
qed

lemma ht_resize_populate_ok:
  fixes nt :: hashtable
  assumes env: "env_ok env" and B: "B \<le> w_brk s0" and core: "ht_core h s0 t T0 n0 C0 F0 SS0" and SS0: "\<And>a. a \<in> set SS0 \<Longrightarrow> a < B"
  defines "row \<equiv> \<lambda>i. map (entry_pair (w_mem s0) (ht_keylen nt) (w_ents s0)) (bucket (w_ents s0) (T0, i))"
  shows "k \<le> n0 \<Longrightarrow> filling nht nt T n B s0 s xs \<Longrightarrow>
    (ht_options nt AND hto_dups_allowed = 0 \<Longrightarrow> distinct (map fst (xs @ concat (map row (rev [0..<k]))))) \<Longrightarrow>
    \<exists>s'. ht_resize_populate env nht (T0, 0) k s = Some (False, s') \<and> filling nht nt T n B s0 s' (xs @ concat (map row (rev [0..<k])))"
proof (induction k arbitrary: s xs)
  case (Suc k)
  note D = ht_coreD [OF core]
  let ?p = "entry_pair (w_mem s0) (ht_keylen nt) (w_ents s0)"
  have k: "k < n0" using Suc.prems(1) by simp
  obtain e where e: "w_ents s0 (T0, k) = Some e" "entry_chain (w_ents s0) (hte_next e) = Some (C0 k)" "\<not> occupied e \<Longrightarrow> C0 k = []"
    using ht_shapeD(3) [OF D(10) k] by blast
  have low: "fst p < B" if "p \<in> set ((T0, k) # C0 k)" for p
    using SS0 ht_ptrs_owned [OF D(12), of p] that k by (auto intro: chain_in_ptrs)
  have fr: "ht_frame {nht} {a. B \<le> a} s0 s" using Suc.prems(2) by (simp add: filling_def)
  have now: "w_ents s (T0, k) = Some e" using ht_frameD(7) [OF fr, of T0 k] low [of "(T0, k)"] B e(1) by simp
  have row: "row k = (if occupied e then ?p (T0, k) # map ?p (C0 k) else [])" using bucket_eq [OF D(10) k e(1)] by (simp add: row_def)
  have pk: "?p (T0, k) = (key_bytes (w_mem s0) (hte_key e) (ht_keylen nt), hte_data e)" using e(1) by (simp add: entry_pair_def)
  have dist: "distinct (map fst ((xs @ row k) @ concat (map row (rev [0..<k]))))" if "ht_options nt AND hto_dups_allowed = 0"
    using Suc.prems(3) [OF that] by simp
  have d2: "distinct (map fst (xs @ row k))" if "ht_options nt AND hto_dups_allowed = 0"
    using dist [OF that] by (simp only: map_append distinct_append)
  define ys where "ys = xs @ (if occupied e then [?p (T0, k)] else [])"
  have ys: "ys @ map ?p (C0 k) = xs @ row k" using row e(3) by (auto simp: ys_def)
  obtain s1 where s1: "(if hte_flags e AND htef_occupied \<noteq> 0 then ht_insert_key_plain env nht (hte_key e) (hte_data e) s else Some (0, s)) = Some (0, s1)"
      "filling nht nt T n B s0 s1 ys"
  proof (cases "occupied e")
    case True
    have "key_bytes (w_mem s0) (hte_key e) (ht_keylen nt) \<notin> fst ` set xs" if "ht_options nt AND hto_dups_allowed = 0"
      using dist [OF that] row True pk by auto
    then show ?thesis using filling_insert [OF env Suc.prems(2) B, of "hte_key e" "hte_data e"] True pk that
      by (auto simp: occupied_def ys_def)
  qed (use Suc.prems(2) that in \<open>auto simp: occupied_def ys_def\<close>)
  obtain s2 where s2: "ht_resize_chain env nht (T0, k) s1 = Some (False, s2)" "filling nht nt T n B s0 s2 (xs @ row k)"
    using ht_resize_chain_ok [OF env B s1(2) e(1,2) low, unfolded ys] d2 by blast
  obtain s3 where "ht_resize_populate env nht (T0, 0) k s2 = Some (False, s3)"
      "filling nht nt T n B s0 s3 ((xs @ row k) @ concat (map row (rev [0..<k])))"
    using Suc.IH [OF _ s2(2)] dist k by auto
  then show ?case using now s1(1) s2(1) by (simp add: elem_def)
qed simp

section \<open>Before the exchange\<close>

text \<open>The two tables when the new one is filled: the old one is locked for the exchange, the new one is not in use.\<close>

definition ready :: "addr \<Rightarrow> addr \<Rightarrow> world \<Rightarrow> hashtable \<Rightarrow> addr \<Rightarrow> nat \<Rightarrow> (nat \<Rightarrow> eaddr list) \<Rightarrow> eaddr list \<Rightarrow> addr list \<Rightarrow>
    hashtable \<Rightarrow> addr \<Rightarrow> nat \<Rightarrow> (nat \<Rightarrow> eaddr list) \<Rightarrow> eaddr list \<Rightarrow> addr list \<Rightarrow> bool" where
  "ready h g s t T n C F SS t' T' n' C' F' SS' \<longleftrightarrow>
     ht_core h s t T n C F SS \<and> ht_core g s t' T' n' C' F' SS' \<and> h \<noteq> g \<and> set SS \<inter> set SS' = {} \<and> same_kind t t' \<and> ht_old t' = NULL \<and>
     w_rw s (TableLock h) = RW_Read 1 \<and> w_rw s (FreeLock h) = RW_Write \<and> w_rw s (TableLock g) = RW_Free \<and> w_rw s (FreeLock g) = RW_Free \<and>
     (\<forall>p \<in> set (ht_ptrs T n C F) \<union> set (ht_ptrs T' n' C' F'). w_rw s (EntryLock p) = RW_Free) \<and>
     w_mx s (ResizeMutex h) = MX_Held \<and> (\<forall>m. mutex_of_table h m \<and> m \<noteq> ResizeMutex h \<longrightarrow> w_mx s m = MX_Free) \<and>
     (\<forall>m. mutex_of_table g m \<longrightarrow> w_mx s m = MX_Free)"

lemma mset_concat_rev: "mset (concat (map f (rev xs))) = mset (concat (map f xs))"
  by (induction xs) simp_all

text \<open>The new table and the place it has in the store, with the old head pointing to it.\<close>

lemma ht_resize_created:
  assumes env: "env_ok env" "numents \<noteq> 0" "slab_fits (unat numents)" and core: "ht_core h s1 t T n C F SS" and old: "ht_old t = NULL"
  obtains s2 s3 rt nt T' where
    "ht_create env numents (scast (ht_keysize t)) (ht_options t AND NOT hto_resize_implicit) s1 = Some (Ptr (w_brk s1), s2)"
    "w_tables s2 h = Some t" "w_tables s2 (w_brk s1) = Some rt" "rt\<lparr>ht_old := NULL\<rparr> = nt"
    "s3 = s2\<lparr>w_tables := (w_tables s2)(w_brk s1 \<mapsto> nt, h \<mapsto> t\<lparr>ht_old := Ptr (w_brk s1)\<rparr>)\<rparr>"
    "ht_core h s3 (t\<lparr>ht_old := Ptr (w_brk s1)\<rparr>) T n C F SS" "ht_pairs h s3 = ht_pairs h s1"
    "filling (w_brk s1) nt T' (unat numents) (w_brk s1) s3 s3 []" "same_kind t nt" "ht_old nt = NULL"
    "ht_frame {h} {} s1 s3" "w_rw s3 = w_rw s2" "w_mx s3 = w_mx s2" "ht_frame {} {} s1 s2"
proof -
  note D = ht_coreD [OF core]
  let ?B = "w_brk s1"
  obtain s2 rt T' where run: "ht_create env numents (scast (ht_keysize t)) (ht_options t AND NOT hto_resize_implicit) s1 = Some (Ptr ?B, s2)"
    and inv: "ht_inv ?B s2 rt T' (unat numents) (\<lambda>_. []) [] [T']" and pairs: "ht_pairs ?B s2 = []"
    and rt: "ht_options rt = ht_options t AND NOT hto_resize_implicit" "ht_keysize rt = ucast (scast (ht_keysize t) :: u64)"
    and T': "T' = Suc ?B" and fr: "ht_frame {} {} s1 s2"
    using ht_create_spec [OF env, of "scast (ht_keysize t)" "ht_options t AND NOT hto_resize_implicit" s1] by blast
  define nt where "nt = rt\<lparr>ht_old := NULL\<rparr>"
  have ncore: "ht_core ?B s2 rt T' (unat numents) (\<lambda>_. []) [] [T']" using inv by (simp add: ht_inv_def)
  note N = ht_coreD [OF ncore]
  have kind: "same_kind t nt" using rt D N by (simp add: same_kind_def keysize_cast dups_bit nt_def)
  have hB: "h \<noteq> ?B" "h < w_brk s2" using D(13) ht_frameD(2) [OF fr] by auto
  note core2 = ht_core_frame [OF fr core]
  let ?t1 = "t\<lparr>ht_old := Ptr ?B\<rparr>"
  define s3 where "s3 = s2\<lparr>w_tables := (w_tables s2)(?B \<mapsto> nt, h \<mapsto> ?t1)\<rparr>"
  have c3: "ht_core h s3 ?t1 T n C F SS" "ht_pairs h s3 = ht_pairs h s2"
    using ht_core_handover [OF core2(1), of s3 h ?t1] hB by (simp_all add: s3_def same_kind_def)
  have n3: "ht_core ?B s3 nt T' (unat numents) (\<lambda>_. []) [] [T']" "ht_pairs ?B s3 = ht_pairs ?B s2"
    using ht_core_handover [OF ncore, of s3 ?B nt] hB N by (simp_all add: s3_def same_kind_def nt_def)
  have i3: "ht_inv ?B s3 (nt\<lparr>ht_slabs := ht_slabs nt, ht_freechain := ht_freechain nt\<rparr>) T' (unat numents) (\<lambda>_. []) [] [T']"
    using inv n3(1) by (simp add: ht_inv_def ht_unlocked_def s3_def)
  have "\<exists>sp fc C F SS. ht_inv ?B s3 (nt\<lparr>ht_slabs := sp, ht_freechain := fc\<rparr>) T' (unat numents) C F SS \<and> (\<forall>a\<in>set SS. ?B \<le> a)"
    by (intro exI conjI, rule i3) (simp add: T')
  then have fill: "filling ?B nt T' (unat numents) ?B s3 s3 []" using n3(2) pairs by (simp add: filling_def)
  show thesis
  proof (rule that [OF run _ N(1) nt_def [symmetric] s3_def c3(1) _ fill kind])
  qed (use fr core2 c3(2) in \<open>auto simp: s3_def nt_def ht_coreD(1) [OF core2(1)] ht_frame_def\<close>)
qed

text \<open>The function up to the end of the loops that fill the new table.\<close>

lemma ht_resize_filled:
  assumes env: "env_ok env" "numents \<noteq> 0" "slab_fits (unat numents)" and core: "ht_core h s1 t T n C F SS" and old: "ht_old t = NULL"
  obtains s2 s3 s4 rt nt t' T' C' F' SS' where
    "ht_create env numents (scast (ht_keysize t)) (ht_options t AND NOT hto_resize_implicit) s1 = Some (Ptr (w_brk s1), s2)"
    "w_tables s2 h = Some t" "w_tables s2 (w_brk s1) = Some rt" "rt\<lparr>ht_old := NULL\<rparr> = nt"
    "s3 = s2\<lparr>w_tables := (w_tables s2)(w_brk s1 \<mapsto> nt, h \<mapsto> t\<lparr>ht_old := Ptr (w_brk s1)\<rparr>)\<rparr>"
    "ht_resize_populate env (w_brk s1) (T, 0) n s3 = Some (False, s4)"
    "ht_core h s4 (t\<lparr>ht_old := Ptr (w_brk s1)\<rparr>) T n C F SS" "ht_inv (w_brk s1) s4 t' T' (unat numents) C' F' SS'"
    "same_kind t t'" "ht_old t' = NULL" "set SS \<inter> set SS' = {}" "mset (ht_pairs (w_brk s1) s4) = mset (ht_pairs h s1)"
    "\<And>l. lock_of_table h l \<Longrightarrow> w_rw s4 l = w_rw s1 l" "\<And>m. mutex_of_table h m \<Longrightarrow> w_mx s4 m = w_mx s1 m"
    "\<And>p. p \<in> set (ht_ptrs T n C F) \<Longrightarrow> w_rw s4 (EntryLock p) = w_rw s1 (EntryLock p)"
    "\<And>a. a \<in> set SS \<Longrightarrow> w_slabs s3 a = w_slabs s1 a \<and> w_slabs s4 a = w_slabs s1 a"
proof -
  note D = ht_coreD [OF core]
  let ?B = "w_brk s1" and ?t1 = "t\<lparr>ht_old := Ptr (w_brk s1)\<rparr>"
  obtain s2 s3 rt nt T' where c: "ht_create env numents (scast (ht_keysize t)) (ht_options t AND NOT hto_resize_implicit) s1 = Some (Ptr ?B, s2)"
      "w_tables s2 h = Some t" "w_tables s2 ?B = Some rt" "rt\<lparr>ht_old := NULL\<rparr> = nt" "s3 = s2\<lparr>w_tables := (w_tables s2)(?B \<mapsto> nt, h \<mapsto> ?t1)\<rparr>"
      "ht_core h s3 ?t1 T n C F SS" "ht_pairs h s3 = ht_pairs h s1" "filling ?B nt T' (unat numents) ?B s3 s3 []" "same_kind t nt" "ht_old nt = NULL"
      "ht_frame {h} {} s1 s3" "w_rw s3 = w_rw s2" "w_mx s3 = w_mx s2" "ht_frame {} {} s1 s2"
    by (rule ht_resize_created [OF env core old])
  let ?row = "\<lambda>i. map (entry_pair (w_mem s3) (ht_keylen nt) (w_ents s3)) (bucket (w_ents s3) (T, i))"
  let ?rows = "concat (map ?row (rev [0..<n]))"
  have B: "?B \<le> w_brk s3" "h < ?B" "\<And>a. a \<in> set SS \<Longrightarrow> a < ?B" using ht_frameD(2) [OF c(11)] D(13,14) by auto
  have "ht_keylen nt = ht_keylen ?t1" using c(9) by (simp add: ht_keylen_def same_kind_def)
  then have rows: "mset ?rows = mset (ht_pairs h s1)" using ht_pairs_eq [OF c(6)] c(7) mset_concat_rev [of ?row "[0..<n]"] by simp
  have dist: "distinct (map fst ([] @ ?rows))" if "ht_options nt AND hto_dups_allowed = 0"
    using ht_pairs_distinct [OF core] c(9) that rows mset_eq_imp_distinct_iff [of "map fst ?rows" "map fst (ht_pairs h s1)"]
    by (simp add: same_kind_def)
  obtain s4 where s4: "ht_resize_populate env ?B (T, 0) n s3 = Some (False, s4)" "filling ?B nt T' (unat numents) ?B s3 s4 ([] @ ?rows)"
    using ht_resize_populate_ok [OF env(1) B(1) c(6) B(3) le_refl c(8) dist] by blast
  obtain sp fc C' F' SS' where inv4: "ht_inv ?B s4 (nt\<lparr>ht_slabs := sp, ht_freechain := fc\<rparr>) T' (unat numents) C' F' SS'"
    and SS': "\<forall>a\<in>set SS'. ?B \<le> a" and pairs4: "mset (ht_pairs ?B s4) = mset (ht_pairs h s1)" and fr4: "ht_frame {?B} {a. ?B \<le> a} s3 s4"
    using s4(2) rows by (auto simp: filling_def)
  have hB: "h \<notin> {?B}" "set SS \<inter> {a. ?B \<le> a} = {}" using B(2,3) by fastforce+
  have disj: "set SS \<inter> set SS' = {}" using hB(2) SS' by auto
  note core4 = ht_core_frame [OF fr4 c(6) hB] and core2 = ht_core_frame [OF c(14) core]
  show thesis
  proof (rule that [OF c(1-5) s4(1) core4(1) inv4])
    show "w_rw s4 l = w_rw s1 l" if "lock_of_table h l" for l
      using ht_frameD(4) [OF fr4 _ hB(1) that] ht_frameD(4) [OF c(14) B(2) _ that] c(12) B by simp
    show "w_mx s4 m = w_mx s1 m" if "mutex_of_table h m" for m
      using ht_frameD(5) [OF fr4 _ hB(1) that] ht_frameD(5) [OF c(14) B(2) _ that] c(13) B by simp
    show "w_rw s4 (EntryLock p) = w_rw s1 (EntryLock p)" if "p \<in> set (ht_ptrs T n C F)" for p
      using core4(3) [OF that] core2(3) [OF _ _ that] c(12) by simp
    show "w_slabs s3 a = w_slabs s1 a \<and> w_slabs s4 a = w_slabs s1 a" if "a \<in> set SS" for a
      using ht_frameD(6) [OF fr4, of a] ht_frameD(6) [OF c(11), of a] B(1) B(3) [OF that] by simp
  qed (use c(9,10) pairs4 disj in \<open>auto simp: same_kind_def\<close>)
qed

text \<open>The function up to the exchange.\<close>

lemma ht_resize_wraps:
  assumes env: "env_ok env" and inv: "ht_inv h s t T n C F SS" and n: "\<not> slab_fits (unat numents)"
  shows "ht_resize env h numents s = None"
proof -
  have core: "ht_core h s t T n C F SS" and ul: "ht_unlocked h s (ht_ptrs T n C F)" using inv by (simp_all add: ht_inv_def)
  show ?thesis using env ht_coreD(1) [OF core] ht_unlockedD(1,4) [OF ul] ht_create_wraps [OF env n]
    by (simp add: ht_resize_def sync_simps)
qed

lemma ht_resize_ready:
  assumes env: "env_ok env" "numents \<noteq> 0" "slab_fits (unat numents)" and inv: "ht_inv h s t T n C F SS" and old: "ht_old t = NULL"
  obtains s5 t' T' C' F' SS' where "ht_resize env h numents s = ht_resize_finish env h (w_brk s) s5"
    "ready h (w_brk s) s5 (t\<lparr>ht_old := Ptr (w_brk s)\<rparr>) T n C F SS t' T' (unat numents) C' F' SS'"
    "mset (ht_pairs (w_brk s) s5) = mset (ht_pairs h s)" "\<And>a. a \<in> set SS \<Longrightarrow> w_slabs s5 a = w_slabs s a"
proof -
  have core: "ht_core h s t T n C F SS" and ul: "ht_unlocked h s (ht_ptrs T n C F)" using inv by (simp_all add: ht_inv_def)
  note D = ht_coreD [OF core] and U = ht_unlockedD [OF ul]
  let ?B = "w_brk s" and ?t1 = "t\<lparr>ht_old := Ptr (w_brk s)\<rparr>"
  define s1 where "s1 = set_errno 0 (rw_set (TableLock h) (RW_Read 1) (tick (set_errno 0 (mx_set (ResizeMutex h) MX_Held (tick s)))))"
  have s1: "w_brk s1 = ?B" "w_slabs s1 = w_slabs s" "w_rw s1 = (w_rw s)(TableLock h := RW_Read 1)"
      "w_mx s1 = (w_mx s)(ResizeMutex h := MX_Held)" by (simp_all add: s1_def)
  have core1: "ht_core h s1 t T n C F SS" "ht_pairs h s1 = ht_pairs h s"
    using ht_core_handover [OF core, of s1 h t] D by (simp_all add: s1_def same_kind_def)
  obtain s2 s3 s4 rt nt t' T' C' F' SS' where c: "ht_create env numents (scast (ht_keysize t)) (ht_options t AND NOT hto_resize_implicit) s1 = Some (Ptr ?B, s2)"
      "w_tables s2 h = Some t" "w_tables s2 ?B = Some rt" "rt\<lparr>ht_old := NULL\<rparr> = nt" "s3 = s2\<lparr>w_tables := (w_tables s2)(?B \<mapsto> nt, h \<mapsto> ?t1)\<rparr>"
      "ht_resize_populate env ?B (T, 0) n s3 = Some (False, s4)" "ht_core h s4 ?t1 T n C F SS" "ht_inv ?B s4 t' T' (unat numents) C' F' SS'"
    and t': "same_kind t t'" "ht_old t' = NULL" "set SS \<inter> set SS' = {}" "mset (ht_pairs ?B s4) = mset (ht_pairs h s1)"
    and l: "\<And>l. lock_of_table h l \<Longrightarrow> w_rw s4 l = w_rw s1 l" "\<And>m. mutex_of_table h m \<Longrightarrow> w_mx s4 m = w_mx s1 m"
      "\<And>p. p \<in> set (ht_ptrs T n C F) \<Longrightarrow> w_rw s4 (EntryLock p) = w_rw s1 (EntryLock p)"
      "\<And>a. a \<in> set SS \<Longrightarrow> w_slabs s3 a = w_slabs s1 a \<and> w_slabs s4 a = w_slabs s1 a"
    by (rule ht_resize_filled [OF env core1(1) old, unfolded s1(1)]) blast
  define s5 where "s5 = rw_set (FreeLock h) RW_Write (tick s4)"
  have nB: "ht_core ?B s4 t' T' (unat numents) C' F' SS'" "ht_unlocked ?B s4 (ht_ptrs T' (unat numents) C' F')"
    using c(8) by (simp_all add: ht_inv_def)
  have core5: "ht_core h s5 ?t1 T n C F SS" using ht_core_handover [OF c(7), of s5 h ?t1] ht_coreD [OF c(7)] by (simp add: s5_def same_kind_def)
  have new5: "ht_core ?B s5 t' T' (unat numents) C' F' SS'" "ht_pairs ?B s5 = ht_pairs ?B s4"
    using ht_core_handover [OF nB(1), of s5 ?B t'] ht_coreD [OF nB(1)] by (simp_all add: s5_def same_kind_def)
  obtain sl where sl: "w_slabs s T = Some sl" "sl_entry sl = Ptr (T, 0)" "unat (sl_entrycount sl) = n" using D(5,6) by (auto simp: unat_of_nat_u64)
  have fl: "w_rw s4 (FreeLock h) = RW_Free" using l(1) [of "FreeLock h"] s1(3) U(2) by simp
  have run: "ht_resize env h numents s = ht_resize_finish env h ?B s5"
    using env(1) D(1,2,13) U(1,4) c(1-6) old sl l(4) [OF D(3)] s1(2) fl unfolding s1_def s5_def
    by (simp add: ht_resize_def sync_simps)
  have "ready h ?B s5 ?t1 T n C F SS t' T' (unat numents) C' F' SS'"
    unfolding ready_def using core5 new5(1) t'(1-3) l(1-3) s1(3,4) ul nB(2) D(13)
    by (auto simp: s5_def same_kind_def ht_unlocked_def)
  then show thesis using that [OF run] new5(2) t'(4) core1(2) l(4) s1(2) by (simp add: s5_def)
qed

section \<open>The exchange\<close>

lemma ht_add_counters_ok:
  assumes "env_ok env"
  shows "(\<And>c. w_mx s (CounterMutex h c) = MX_Free) \<Longrightarrow> \<exists>s'. ht_add_counters env h g cs s = Some s' \<and> same_data s s' \<and> w_rw s' = w_rw s"
proof (induction cs arbitrary: s)
  case (Cons c cs)
  let ?s = "counter_bump h c (w_ctr s (g, c)) s"
  obtain s' where "ht_add_counters env h g cs ?s = Some s'" "same_data ?s s'" "w_rw s' = w_rw ?s" using Cons.IH [of ?s] Cons.prems by auto
  then show ?case using assms Cons.prems by (simp add: sync_simps)
qed simp

lemma ht_add_averages_ok:
  assumes "env_ok env"
  shows "(\<And>a. w_mx s (AverageMutex h a) = MX_Free) \<Longrightarrow> \<exists>s'. ht_add_averages env h g as s = Some s' \<and> same_data s s' \<and> w_rw s' = w_rw s"
proof (induction as arbitrary: s)
  case (Cons a as)
  let ?v = "w_avg s (g, a)"
  let ?s = "average_apply h a (average_update (av_count ?v) (av_sum ?v) (av_current ?v) (av_maximum ?v)) s"
  obtain s' where "ht_add_averages env h g as ?s = Some s'" "same_data ?s s'" "w_rw s' = w_rw ?s" using Cons.IH [of ?s] Cons.prems by auto
  then show ?case using assms Cons.prems by (simp add: sync_simps)
qed simp

text \<open>After the exchange and the release of its locks the table \<open>h\<close> has the new entries, and \<open>g\<close> is well-formed with the old ones.\<close>

lemma ht_resize_exchanged:
  assumes env: "env_ok env" and rd: "ready h g s t T n C F SS t' T' n' C' F' SS'"
  obtains s6 s7 s8 u u' where "ht_resize_swap h g s = Some s6" "ht_add_counters env h g cs s6 = Some s7" "ht_add_averages env h g as s7 = Some s8"
    "same_data s6 s8" "w_rw s8 = w_rw s" "w_mx s8 = w_mx s" "w_slabs s8 = w_slabs s"
    "ht_core h s8 u T' n' C' F' SS'" "ht_pairs h s8 = ht_pairs g s" "ht_core g s8 u' T n C F SS" "ht_old u' = NULL" "ht_slabs u' = ht_slabs t" "u = t\<lparr>ht_slabs := ht_slabs t', ht_freechain := ht_freechain t', ht_table := ht_table t'\<rparr>"
proof -
  note R = rd [unfolded ready_def]
  have core: "ht_core h s t T n C F SS" "ht_core g s t' T' n' C' F' SS'" and hg: "h \<noteq> g" and kind: "same_kind t t'" using R by simp_all
  note D = ht_coreD [OF core(1)] and G = ht_coreD [OF core(2)]
  define u where "u = t\<lparr>ht_slabs := ht_slabs t', ht_freechain := ht_freechain t', ht_table := ht_table t'\<rparr>"
  define u' where "u' = t'\<lparr>ht_slabs := ht_slabs t, ht_freechain := ht_freechain t, ht_table := ht_table t\<rparr>"
  define s6 where "s6 = s\<lparr>w_tables := (w_tables s)(h \<mapsto> u, g \<mapsto> u')\<rparr>"
  have swap: "ht_resize_swap h g s = Some s6" using D(1) G(1) hg by (simp add: ht_resize_swap_def sync_simps s6_def u_def u'_def)
  have mx: "w_mx s6 (CounterMutex h c) = MX_Free" "w_mx s6 (AverageMutex h a) = MX_Free" for c a using R by (auto simp: s6_def)
  obtain s7 where s7: "ht_add_counters env h g cs s6 = Some s7" "same_data s6 s7" "w_rw s7 = w_rw s6" using ht_add_counters_ok [OF env mx(1)] by blast
  have "w_mx s7 (AverageMutex h a) = MX_Free" for a using mx(2) same_dataD(6) [OF s7(2)] by simp
  then obtain s8 where s8: "ht_add_averages env h g as s7 = Some s8" "same_data s7 s8" "w_rw s8 = w_rw s7" using ht_add_averages_ok [OF env] by blast
  have same: "same_data s6 s8" using same_data_trans s7(2) s8(2) by blast
  note S = same_dataD [OF same]
  have "ht_core h s8 u T' n' C' F' SS'" "ht_pairs h s8 = ht_pairs g s"
    using ht_core_handover [OF core(2), of s8 h u] S D(13) hg kind by (simp_all add: s6_def u_def same_kind_def)
  moreover have "ht_core g s8 u' T n C F SS"
    using ht_core_handover(1) [OF core(1), of s8 g u'] S G(13) hg kind by (simp add: s6_def u'_def same_kind_def)
  ultimately show thesis using that [OF swap s7(1) s8(1) same] S s7(3) s8(3) R by (simp add: s6_def u_def u'_def)
qed

section \<open>The end of the function\<close>

lemma swept_frame:
  assumes sw: "swept 0 n C s r s'" and core: "ht_core g s t T n C F SS"
  shows "ht_frame {g} (set SS) s s'"
proof -
  have "fst (hd (C i)) \<in> set SS" if "i < n" "C i \<noteq> []" for i
    using ht_ptrs_owned [OF ht_coreD(12) [OF core], of "hd (C i)"] chain_in_ptrs [OF that(1), of "hd (C i)" C T F] that(2) by simp
  note low = this
  have "w_rw s' l = w_rw s l" if l: "\<And>p. l = EntryLock p \<Longrightarrow> fst p \<notin> set SS" for l
  proof (cases "\<forall>i \<in> {0..<n}. C i = []")
    case True
    then show ?thesis using sw by (simp add: swept_def)
  next
    case False
    then obtain i where "i < n" "C i \<noteq> []" "w_rw s' = (w_rw s)(EntryLock (hd (C i)) := RW_Write)"
      using conjunct2 [OF sw [unfolded swept_def if_not_P [OF False]]] by auto
    then show ?thesis using low [of i] l [of "hd (C i)"] by auto
  qed
  note rw = this
  have sd: "same_data s s'" using sw by (simp add: swept_def)
  have "w_rw s' l = w_rw s l" if "lock_of_table k l" for k l using that by (intro rw) auto
  moreover have "w_rw s' (EntryLock (a, i)) = w_rw s (EntryLock (a, i))" if "a \<notin> set SS" for a i using that by (intro rw) auto
  ultimately show ?thesis using sd by (auto simp: same_data_def ht_frame_def)
qed

text \<open>A table whose only lock in use is the mutex of the resize.\<close>

definition resizing :: "addr \<Rightarrow> world \<Rightarrow> hashtable \<Rightarrow> addr \<Rightarrow> nat \<Rightarrow> (nat \<Rightarrow> eaddr list) \<Rightarrow> eaddr list \<Rightarrow> addr list \<Rightarrow> bool" where
  "resizing h s u T n C F SS \<longleftrightarrow> ht_core h s u T n C F SS \<and> w_rw s (TableLock h) = RW_Free \<and> w_rw s (FreeLock h) = RW_Free \<and>
     (\<forall>p \<in> set (ht_ptrs T n C F). w_rw s (EntryLock p) = RW_Free) \<and> w_mx s (ResizeMutex h) = MX_Held \<and>
     (\<forall>m. mutex_of_table h m \<and> m \<noteq> ResizeMutex h \<longrightarrow> w_mx s m = MX_Free)"

lemma resizing_frame:
  assumes fr: "ht_frame H A s s'" and rz: "resizing h s u T n C F SS" and h: "h \<notin> H" "set SS \<inter> A = {}"
  shows "resizing h s' u T n C F SS" "ht_pairs h s' = ht_pairs h s"
proof -
  have core: "ht_core h s u T n C F SS" using rz by (simp add: resizing_def)
  note K = ht_core_frame [OF fr core h] and L = ht_frameD(4,5) [OF fr ht_coreD(13) [OF core] h(1)]
  show "resizing h s' u T n C F SS" using rz K(1,3) L by (simp add: resizing_def)
  show "ht_pairs h s' = ht_pairs h s" by (rule K(2))
qed

text \<open>The end of the function on such a table: the pointer to the old table is set and the mutex released.\<close>

lemma resizing_released:
  assumes rz: "resizing h s u T n C F SS" and u: "w_tables s' h = Some (u\<lparr>ht_old := old\<rparr>)"
    and same: "w_mem s' = w_mem s" "w_brk s' = w_brk s" "w_slabs s' = w_slabs s" "w_ents s' = w_ents s" "w_rw s' = w_rw s"
      "w_mx s' = (w_mx s)(ResizeMutex h := MX_Free)"
  shows "ht_wf h s' \<and> ht_size h s' = n \<and> ht_pairs h s' = ht_pairs h s"
proof -
  have core: "ht_core h s u T n C F SS" using rz by (simp add: resizing_def)
  have core': "ht_core h s' (u\<lparr>ht_old := old\<rparr>) T n C F SS" "ht_pairs h s' = ht_pairs h s"
    using ht_core_handover [OF core u] ht_coreD(13) [OF core] same by (simp_all add: same_kind_def)
  then have "ht_inv h s' (u\<lparr>ht_old := old\<rparr>) T n C F SS" using same rz by (auto simp: ht_inv_def ht_unlocked_def resizing_def)
  then show ?thesis using ht_size_eq [OF core'(1)] core'(2) ht_inv_wf by blast
qed

text \<open>The function from the sweep on.\<close>

lemma ht_resize_swap_done:
  assumes env: "env_ok env" and rd: "ready h g s t T n C F SS t' T' n' C' F' SS'"
  obtains s9 u u' where "ht_inv g s9 u' T n C F SS" "ht_old u' = NULL" "ht_slabs u' = ht_slabs t" "resizing h s9 u T' n' C' F' SS'" "ht_pairs h s9 = ht_pairs g s" "w_slabs s9 = w_slabs s"
    "ht_resize_finish env h g s = do {
     (sret, s) \<leftarrow> ht_sweep env g s9;
     s \<leftarrow> (if sret \<noteq> 0 then do { (_, s) \<leftarrow> ht_counter_add env h Errors 1 s; Some s } else Some s);
     (dret, s) \<leftarrow> (if sret = 0 then ht_destroy env g s else Some (1, s));
     s \<leftarrow> (if dret = 0 then upd_ht h (\<lambda>t. t\<lparr>ht_old := NULL\<rparr>) s
           else do { (_, s) \<leftarrow> ht_counter_add env h Errors 1 s; Some s });
     (ret, s) \<leftarrow> mutex_unlock env (ResizeMutex h) s;
     s \<leftarrow> (if ret \<noteq> 0 then do { (_, s) \<leftarrow> ht_counter_add env h Errors 1 s; Some s } else Some s);
     Some (if ret \<noteq> 0 then -2 else if sret \<noteq> 0 then -1 else 0, set_errno (if sret \<noteq> 0 then sret else ret) s) }"
proof -
  note R = rd [unfolded ready_def]
  obtain s6 s7 s8 u u' where x: "ht_resize_swap h g s = Some s6" "ht_add_counters env h g [Probes, Hits, Errors, Resizes, Inserts, Deletes] s6 = Some s7"
      "ht_add_averages env h g [Searches, Depth, Freechain] s7 = Some s8" "w_rw s8 = w_rw s" "w_mx s8 = w_mx s" "w_slabs s8 = w_slabs s"
      "ht_core h s8 u T' n' C' F' SS'" "ht_pairs h s8 = ht_pairs g s" "ht_core g s8 u' T n C F SS" "ht_old u' = NULL" "ht_slabs u' = ht_slabs t"
    by (rule ht_resize_exchanged [OF env rd])
  define s9 where "s9 = rw_set (TableLock h) RW_Free (tick (rw_set (FreeLock h) RW_Free (tick s8)))"
  have s9: "same_data s8 s9" "w_rw s9 = (w_rw s)(FreeLock h := RW_Free, TableLock h := RW_Free)" using x(4) by (simp_all add: s9_def)
  have unlock: "rw_unlock env (FreeLock h) s8 = Some (0, rw_set (FreeLock h) RW_Free (tick s8))"
      "rw_unlock env (TableLock h) (rw_set (FreeLock h) RW_Free (tick s8)) = Some (0, s9)"
    using env R x(4) by (simp_all add: sync_simps s9_def)
  show thesis
  proof (rule that)
    show "ht_inv g s9 u' T n C F SS"
      using x(5,9) s9 R by (auto simp: ht_inv_def ht_core_cong [OF s9(1)] ht_unlocked_def same_data_def)
    show "resizing h s9 u T' n' C' F' SS'" using x(5,7) s9 R by (simp add: resizing_def ht_core_cong [OF s9(1)] same_data_def)
    show "ht_old u' = NULL" "ht_slabs u' = ht_slabs t" by (rule x(10), rule x(11))
    show "ht_pairs h s9 = ht_pairs g s" "w_slabs s9 = w_slabs s" using x(6,8) same_data_view(1) [OF s9(1)] same_dataD(4) [OF s9(1)] by simp_all
  qed (simp only: ht_resize_finish_def x(1-3) unlock bind.bind_lunit prod.case Let_def simp_thms if_False if_True)
qed

lemma ht_resize_finish_ok:
  assumes env: "env_ok env" and rd: "ready h g s t T n C F SS t' T' n' C' F' SS'"
    and ended: "(\<forall>i<n. C i = []) \<longrightarrow> slabs_end s t SS"
  shows "\<exists>r s'. ht_resize_finish env h g s = Some (r, s') \<and> ht_wf h s' \<and> ht_size h s' = n' \<and> ht_pairs h s' = ht_pairs g s \<and>
    (if \<forall>i<n. C i = [] then r = 0 \<and> w_tables s' g = None \<and> (\<forall>a\<in>set SS. w_slabs s' a = None)
     else r = -1 \<and> w_errno s' = EPERM \<and> w_tables s' g \<noteq> None \<and> (\<forall>a\<in>set SS. w_slabs s' a = w_slabs s a))"
proof -
  obtain s9 u u' where g9: "ht_inv g s9 u' T n C F SS" and old: "ht_old u' = NULL" "ht_slabs u' = ht_slabs t" and h9: "resizing h s9 u T' n' C' F' SS'" "ht_pairs h s9 = ht_pairs g s"
      "w_slabs s9 = w_slabs s"
    and run: "ht_resize_finish env h g s = do {
     (sret, s) \<leftarrow> ht_sweep env g s9;
     s \<leftarrow> (if sret \<noteq> 0 then do { (_, s) \<leftarrow> ht_counter_add env h Errors 1 s; Some s } else Some s);
     (dret, s) \<leftarrow> (if sret = 0 then ht_destroy env g s else Some (1, s));
     s \<leftarrow> (if dret = 0 then upd_ht h (\<lambda>t. t\<lparr>ht_old := NULL\<rparr>) s
           else do { (_, s) \<leftarrow> ht_counter_add env h Errors 1 s; Some s });
     (ret, s) \<leftarrow> mutex_unlock env (ResizeMutex h) s;
     s \<leftarrow> (if ret \<noteq> 0 then do { (_, s) \<leftarrow> ht_counter_add env h Errors 1 s; Some s } else Some s);
     Some (if ret \<noteq> 0 then -2 else if sret \<noteq> 0 then -1 else 0, set_errno (if sret \<noteq> 0 then sret else ret) s) }"
    by (rule ht_resize_swap_done [OF env rd])
  have hg: "h \<notin> {g}" "set SS' \<inter> set SS = {}" using rd by (auto simp: ready_def)
  obtain sret s10 where sw: "ht_sweep env g s9 = Some (sret, s10)" "swept 0 n C s9 sret s10" using ht_sweep_spec [OF env g9] by blast
  have gcore: "ht_core g s9 u' T n C F SS" using g9 by (simp add: ht_inv_def)
  note h10 = resizing_frame [OF swept_frame [OF sw(2) gcore] h9(1) hg] and S = same_dataD [OF conjunct1 [OF sw(2) [unfolded swept_def]]]
  show ?thesis
  proof (cases "\<forall>i<n. C i = []")
    case True
    then have "\<forall>i\<in>{0..<n}. C i = []" by simp
    then have sret: "sret = 0" "same_data s9 s10" "w_rw s10 = w_rw s9" using sw(2) by (simp_all add: swept_def)
    have "ht_inv g s10 u' T n C F SS" using g9 same_data_ht_inv [OF sret(2,3)] by simp
    moreover have "slabs_end s10 u' SS" using True ended old(2) S h9(3) by simp
    ultimately obtain s11 where d: "ht_destroy env g s10 = Some (0, s11)" "table_gone g (set SS) s10 s11" using ht_destroy_spec [OF env _ _ old(1)] by blast
    note h11 = resizing_frame [OF table_gone_frame [OF d(2)] h10(1) hg]
    have t11: "w_tables s11 h = Some u" "w_mx s11 (ResizeMutex h) = MX_Held" using h11(1) by (simp_all add: resizing_def ht_core_def)
    let ?s = "set_errno 0 (mx_set (ResizeMutex h) MX_Free (tick (s11\<lparr>w_tables := (w_tables s11)(h \<mapsto> u\<lparr>ht_old := NULL\<rparr>)\<rparr>)))"
    have "ht_resize_finish env h g s = Some (0, ?s)" unfolding run using sw(1) sret(1) d(1) t11 env by (simp add: sync_simps)
    moreover have "ht_wf h ?s \<and> ht_size h ?s = n' \<and> ht_pairs h ?s = ht_pairs h s11" by (rule resizing_released [OF h11(1)]) simp_all
    ultimately show ?thesis using True d(2) h9(2) h10(2) h11(2) hg(1) by (auto simp: table_gone_def)
  next
    case False
    then have "\<not> (\<forall>i\<in>{0..<n}. C i = [])" by auto
    then have sret: "sret = EPERM" using conjunct2 [OF sw(2) [unfolded swept_def]] by (auto split: if_splits)
    have t10: "w_tables s10 h = Some u" "w_mx s10 (ResizeMutex h) = MX_Held" "w_mx s10 (CounterMutex h Errors) = MX_Free"
      using h10(1) by (simp_all add: resizing_def ht_core_def)
    let ?s = "set_errno EPERM (mx_set (ResizeMutex h) MX_Free (tick (counter_bump h Errors 1 (counter_bump h Errors 1 s10))))"
    have "ht_resize_finish env h g s = Some (-1, ?s)" unfolding run using sw(1) sret t10 env by (simp add: sync_simps)
    moreover have "ht_wf h ?s \<and> ht_size h ?s = n' \<and> ht_pairs h ?s = ht_pairs h s10"
      by (rule resizing_released [OF h10(1), where old = "ht_old u"]) (simp_all add: t10)
    ultimately show ?thesis using False h9(2,3) h10(2) S ht_coreD(1) [OF gcore] by auto
  qed
qed

text \<open>
  C10. \<^verbatim>\<open>ht_resize\<close> of a well-formed table that nobody uses, without an old table, to a size that is not 0, where locks and
  allocation succeed. If the size of the block of entries wraps around, the call writes behind the block: undefined.
  Otherwise it returns, provided that the chain of the old slabs ends with a null pointer (which is used only when no
  bucket has a second key): the table is well-formed, has the size asked for and holds exactly the pairs it held
  before. If no bucket had a second key the result is 0 and the old slabs and the head used for the exchange are freed. Otherwise
  the sweep of the old entries fails: the result is -1 with EPERM, although the table has been resized, and the old slabs are
  never freed. Nothing is assumed of what new memory holds.
\<close>

theorem ht_resize_keeps_pairs:
  assumes "env_ok env" "ht_inv h s t T n C F SS" "ht_old t = NULL" "numents \<noteq> 0" "(\<forall>i<n. C i = []) \<longrightarrow> slabs_end s t SS"
  shows "(\<not> slab_fits (unat numents) \<longrightarrow> ht_resize env h numents s = None) \<and>
   (slab_fits (unat numents) \<longrightarrow> runs (ht_resize env h numents s) (\<lambda>r s'.
    ht_wf h s' \<and> ht_size h s' = unat numents \<and> mset (ht_pairs h s') = mset (ht_pairs h s) \<and>
    (if \<forall>i<n. C i = [] then r = 0 \<and> w_tables s' (w_brk s) = None \<and> (\<forall>a\<in>set SS. w_slabs s' a = None)
     else r = -1 \<and> w_errno s' = EPERM \<and> w_tables s' (w_brk s) \<noteq> None \<and> (\<forall>a\<in>set SS. w_slabs s' a = w_slabs s a))))"
proof (intro conjI impI)
  assume "\<not> slab_fits (unat numents)"
  then show "ht_resize env h numents s = None" by (rule ht_resize_wraps [OF assms(1,2)])
next
  assume fits: "slab_fits (unat numents)"
  show "runs (ht_resize env h numents s) (\<lambda>r s'.
    ht_wf h s' \<and> ht_size h s' = unat numents \<and> mset (ht_pairs h s') = mset (ht_pairs h s) \<and>
    (if \<forall>i<n. C i = [] then r = 0 \<and> w_tables s' (w_brk s) = None \<and> (\<forall>a\<in>set SS. w_slabs s' a = None)
     else r = -1 \<and> w_errno s' = EPERM \<and> w_tables s' (w_brk s) \<noteq> None \<and> (\<forall>a\<in>set SS. w_slabs s' a = w_slabs s a)))"
  proof (rule ht_resize_ready [OF assms(1,4) fits assms(2,3)])
  fix s5 t' T' C' F' SS'
  assume rz: "ht_resize env h numents s = ht_resize_finish env h (w_brk s) s5"
    and rd: "ready h (w_brk s) s5 (t\<lparr>ht_old := Ptr (w_brk s)\<rparr>) T n C F SS t' T' (unat numents) C' F' SS'"
    and p: "mset (ht_pairs (w_brk s) s5) = mset (ht_pairs h s)" "\<And>a. a \<in> set SS \<Longrightarrow> w_slabs s5 a = w_slabs s a"
  have "slabs_end s5 (t\<lparr>ht_old := Ptr (w_brk s)\<rparr>) SS" if "slabs_end s t SS" using slab_chain_cong [OF that, of "w_slabs s5"] p(2) by simp
  then have "(\<forall>i<n. C i = []) \<longrightarrow> slabs_end s5 (t\<lparr>ht_old := Ptr (w_brk s)\<rparr>) SS" using assms(5) by blast
  from ht_resize_finish_ok [OF assms(1) rd this] show ?thesis using rz p by (elim exE conjE) (simp add: runs_def)
  qed
qed

theorem ht_resize_keeps_pairs_witness:
  "runs (ht_resize calm_env 5 7 chain_world) (\<lambda>r s'. ht_wf 5 s' \<and> ht_size 5 s' = 7 \<and> mset (ht_pairs 5 s') = mset (ht_pairs 5 chain_world) \<and> r = -1)"
proof -
  have old: "ht_old chain_table = NULL" by (simp add: chain_table_def)
  have "slab_fits (unat (7 :: u64))" by (simp add: slab_fits_def sizeof_slab_def sizeof_entry_def)
  moreover have "slabs_end chain_world chain_table [3, 2]" by (simp add: chain_table_def chain_world_def slab_chain_Cons)
  moreover note H = ht_resize_keeps_pairs [OF calm_env(1) chain_world_inv old, of 7]
  ultimately show ?thesis by (auto simp: runs_def split: if_splits)
qed

end
