(* ===== verification/CLib.thy ===== *)
theory CLib
  imports Prelude
begin

text \<open>
  The C library the journal code calls: formatted output, the comparison of strings without regard
  to case, and the ranges of \<^verbatim>\<open>int\<close>. A C string is the list of its characters without
  the terminating null character; what a call writes into a buffer of \<open>n\<close> bytes is at most
  \<open>n - 1\<close> characters.
\<close>

section \<open>Integers and characters\<close>

definition INT_MIN :: int where "INT_MIN = -(2 ^ 31)"
definition INT_MAX :: int where "INT_MAX = 2 ^ 31 - 1"

abbreviation (input) NL :: char where "NL \<equiv> CHR 0x0A"

definition digit :: "nat \<Rightarrow> char" where
  "digit n = char_of (if n < 10 then 48 + n else 87 + n)"

lemma digit_values [simp]:
  "digit 0 = CHR ''0''" "digit (Suc 0) = CHR ''1''" "digit 1 = CHR ''1''" "digit 2 = CHR ''2''" "digit 3 = CHR ''3''"
  "digit 4 = CHR ''4''" "digit 5 = CHR ''5''" "digit 6 = CHR ''6''" "digit 7 = CHR ''7''" "digit 8 = CHR ''8''"
  "digit 9 = CHR ''9''"
  by (simp_all add: digit_def char_of_def bit_0)

definition is_digit :: "char \<Rightarrow> bool" where
  "is_digit c \<longleftrightarrow> (48::nat) \<le> of_char c \<and> of_char c \<le> (57::nat)"

text \<open>A number written in base \<open>b\<close>, most significant digit first.\<close>

function numeral_in :: "nat \<Rightarrow> nat \<Rightarrow> string" where
  "numeral_in b n = (if b < 2 \<or> n < b then [digit n] else numeral_in b (n div b) @ [digit (n mod b)])"
  by auto
termination by (relation "measure snd") auto

declare numeral_in.simps [simp del]

definition dec :: "int \<Rightarrow> string" where
  "dec i = (if i < 0 then CHR ''-'' # numeral_in 10 (nat (- i)) else numeral_in 10 (nat i))"

fun number_of :: "nat \<Rightarrow> string \<Rightarrow> nat" where
  "number_of acc [] = acc"
| "number_of acc (c # cs) = number_of (10 * acc + (of_char c - 48)) cs"

section \<open>Formatted output\<close>

text \<open>
  What the formats of the sources are given: strings, integers (pointers among them), and a number
  of tenths for the only floating-point directive, the library version.
\<close>

datatype arg = AStr string | AInt int | ATenths int

text \<open>A directive after its percent sign: flags, width, precision, conversion, and what follows it.\<close>

record directive =
  dr_flags :: string
  dr_width :: nat
  dr_prec :: "nat option"
  dr_conv :: char

fun read_precision :: "string \<Rightarrow> nat option \<times> string" where
  "read_precision [] = (None, [])"
| "read_precision (c # cs) =
     (if c = CHR ''.'' then (Some (number_of 0 (takeWhile is_digit cs)), dropWhile is_digit cs)
      else (None, c # cs))"

definition read_directive :: "string \<Rightarrow> (directive \<times> string) option" where
  "read_directive fs =
     (let flag = (\<lambda>c. c = CHR ''-'' \<or> c = CHR ''0'');
          r = dropWhile flag fs;
          (prec, r2) = read_precision (dropWhile is_digit r)
      in case dropWhile (\<lambda>c. c = CHR ''l'' \<or> c = CHR ''h'') r2 of
           [] \<Rightarrow> None
         | c # rest \<Rightarrow> Some (\<lparr>dr_flags = takeWhile flag fs, dr_width = number_of 0 (takeWhile is_digit r),
                              dr_prec = prec, dr_conv = c\<rparr>, rest))"

definition padded :: "directive \<Rightarrow> bool \<Rightarrow> string \<Rightarrow> string" where
  "padded d num body =
     (let k = dr_width d - length body in
      if CHR ''-'' \<in> set (dr_flags d) then body @ replicate k CHR '' ''
      else if num \<and> CHR ''0'' \<in> set (dr_flags d)
      then (case body of c # cs \<Rightarrow> if c = CHR ''-'' then c # replicate k CHR ''0'' @ cs
                                  else replicate k CHR ''0'' @ body
                       | [] \<Rightarrow> replicate k CHR ''0'')
      else replicate k CHR '' '' @ body)"

text \<open>
  The precision of an integer is the least number of its digits; 0 with the precision 0 has no digit. With a
  precision the flag 0 has no effect.
\<close>

definition digits_of :: "nat option \<Rightarrow> int \<Rightarrow> string" where
  "digits_of prec i =
     (case prec of
        None \<Rightarrow> dec i
      | Some k \<Rightarrow>
          if k = 0 \<and> i = 0 then []
          else let ds = numeral_in 10 (nat \<bar>i\<bar>) in (if i < 0 then ''-'' else []) @ replicate (k - length ds) CHR ''0'' @ ds)"

lemma digits_of_None [simp]: "digits_of None = dec"
  by (simp add: fun_eq_iff digits_of_def)

fun convert :: "directive \<Rightarrow> arg \<Rightarrow> string option" where
  "convert d (AStr s) =
     (if dr_conv d = CHR ''s''
      then Some (padded d False (case dr_prec d of None \<Rightarrow> s | Some k \<Rightarrow> take k s)) else None)"
| "convert d (AInt i) =
     (if dr_conv d = CHR ''d'' \<or> dr_conv d = CHR ''i'' then Some (padded d (dr_prec d = None) (digits_of (dr_prec d) i))
      else if dr_conv d = CHR ''u'' \<and> 0 \<le> i then Some (padded d (dr_prec d = None) (digits_of (dr_prec d) i))
      else if (dr_conv d = CHR ''x'' \<or> dr_conv d = CHR ''p'') \<and> 0 \<le> i
      then Some (padded d True (numeral_in 16 (nat i)))
      else if dr_conv d = CHR ''c'' \<and> 0 \<le> i \<and> i < 256 then Some (padded d False [char_of (nat i)])
      else None)"
| "convert d (ATenths n) =
     (if dr_conv d = CHR ''f'' \<and> dr_prec d = Some 1 \<and> 0 \<le> n
      then Some (padded d True (dec (n div 10) @ [CHR ''.''] @ dec (n mod 10))) else None)"

lemma length_dropWhile_le [termination_simp]: "length (dropWhile P xs) \<le> length xs"
  by (induction xs) auto

lemma length_read_precision: "length (snd (read_precision xs)) \<le> length xs"
  by (cases xs) (auto intro: le_SucI length_dropWhile_le)

lemma read_directive_shorter:
  assumes "read_directive fs = Some (d, rest)"
  shows "length rest < length fs"
proof -
  let ?r = "dropWhile is_digit (dropWhile (\<lambda>c. c = CHR ''-'' \<or> c = CHR ''0'') fs)"
  have "length (dropWhile P (snd (read_precision ?r))) \<le> length fs" for P
    by (meson length_dropWhile_le length_read_precision order_trans)
  then show ?thesis using assms
    by (auto simp: read_directive_def Let_def Suc_le_eq split: list.splits prod.splits) (metis length_Cons Suc_le_eq snd_conv)
qed

text \<open>
  The text a format makes of its arguments. \<open>None\<close> stands for undefined behaviour: a
  directive without an argument or with one of the wrong kind, or one the sources do not use.
\<close>

function (sequential) format :: "string \<Rightarrow> arg list \<Rightarrow> string option" where
  "format [] args = Some []"
| "format (c # fs) args =
     (if c \<noteq> CHR ''%'' then map_option ((#) c) (format fs args)
      else case read_directive fs of
             None \<Rightarrow> None
           | Some (d, rest) \<Rightarrow>
               if dr_conv d = CHR ''%'' then map_option ((#) CHR ''%'') (format rest args)
               else (case args of
                       [] \<Rightarrow> None
                     | a # as \<Rightarrow> (case convert d a of
                                   None \<Rightarrow> None
                                 | Some t \<Rightarrow> map_option ((@) t) (format rest as))))"
  by pat_completeness auto
termination
  by (relation "measure (length \<circ> fst)") (auto dest: read_directive_shorter)

text \<open>
  \<^verbatim>\<open>snprintf\<close> into a buffer of \<open>n > 0\<close> bytes: the value returned, negative when the
  text is longer than an \<^verbatim>\<open>int\<close> can say, and the string left in the buffer.
\<close>

definition snprintf :: "nat \<Rightarrow> string \<Rightarrow> arg list \<Rightarrow> (int \<times> string) option" where
  "snprintf n fmt args =
     (case format fmt args of
        None \<Rightarrow> None
      | Some t \<Rightarrow> Some (if int (length t) > INT_MAX then -1 else int (length t), take (n - 1) t))"

section \<open>Evaluating formats\<close>

named_theorems fmt "the text of a format that is written out"

lemma read_directive_plain [fmt]:
  "read_directive (CHR ''s'' # fs) = Some (\<lparr>dr_flags = [], dr_width = 0, dr_prec = None, dr_conv = CHR ''s''\<rparr>, fs)"
  "read_directive (CHR ''d'' # fs) = Some (\<lparr>dr_flags = [], dr_width = 0, dr_prec = None, dr_conv = CHR ''d''\<rparr>, fs)"
  "read_directive (CHR ''l'' # CHR ''d'' # fs) =
     Some (\<lparr>dr_flags = [], dr_width = 0, dr_prec = None, dr_conv = CHR ''d''\<rparr>, fs)"
  "read_directive (CHR ''l'' # CHR ''l'' # CHR ''u'' # fs) =
     Some (\<lparr>dr_flags = [], dr_width = 0, dr_prec = None, dr_conv = CHR ''u''\<rparr>, fs)"
  by (simp_all add: read_directive_def is_digit_def)

lemma read_directive_padded [fmt]:
  "read_directive (CHR ''0'' # CHR ''2'' # CHR ''d'' # fs) =
     Some (\<lparr>dr_flags = ''0'', dr_width = 2, dr_prec = None, dr_conv = CHR ''d''\<rparr>, fs)"
  "read_directive (CHR ''0'' # CHR ''4'' # CHR ''d'' # fs) =
     Some (\<lparr>dr_flags = ''0'', dr_width = 4, dr_prec = None, dr_conv = CHR ''d''\<rparr>, fs)"
  "read_directive (CHR ''1'' # CHR ''.'' # CHR ''1'' # CHR ''f'' # fs) =
     Some (\<lparr>dr_flags = [], dr_width = 1, dr_prec = Some 1, dr_conv = CHR ''f''\<rparr>, fs)"
  by (simp_all add: read_directive_def is_digit_def)

lemma padded_none [fmt]: "dr_flags d = [] \<Longrightarrow> dr_width d = 0 \<Longrightarrow> padded d n t = t"
  by (simp add: padded_def)

lemma format_literal [fmt]: "c \<noteq> CHR ''%'' \<Longrightarrow> format (c # fs) args = map_option ((#) c) (format fs args)"
  by simp

lemma format_directive [fmt]:
  "read_directive fs = Some (d, rest) \<Longrightarrow> dr_conv d \<noteq> CHR ''%'' \<Longrightarrow> convert d a = Some t \<Longrightarrow>
   format (CHR ''%'' # fs) (a # as) = map_option ((@) t) (format rest as)"
  by simp

text \<open>Text without a percent sign in front of a format stands as it is.\<close>

lemma format_plain: "CHR ''%'' \<notin> set t \<Longrightarrow> format (t @ fs) args = map_option ((@) t) (format fs args)"
proof (induction t)
  case Nil
  show ?case by (cases "format fs args") simp_all
next
  case (Cons c t)
  then show ?case by (cases "format fs args") auto
qed

declare format.simps(2) [simp del]

text \<open>The lengths of numbers.\<close>

lemma length_numeral_in: "0 < k \<Longrightarrow> n < 10 ^ k \<Longrightarrow> length (numeral_in 10 n) \<le> k"
proof (induction k arbitrary: n)
  case (Suc k)
  show ?case
  proof (cases "n < 10")
    case True
    then show ?thesis by (subst numeral_in.simps) simp
  next
    case False
    with Suc.prems have "k \<noteq> 0" by (cases k) auto
    moreover have "n div 10 < 10 ^ k" using Suc.prems(2) by (simp add: less_mult_imp_div_less mult.commute)
    ultimately show ?thesis using Suc.IH [of "n div 10"] False by (subst numeral_in.simps) simp
  qed
qed simp

lemma length_dec: "0 < k \<Longrightarrow> \<bar>i\<bar> < 10 ^ k \<Longrightarrow> length (dec i) \<le> (if i < 0 then Suc k else k)"
  using length_numeral_in [of k "nat \<bar>i\<bar>"] by (auto simp: dec_def nat_less_iff)

lemma length_dec_int: "INT_MIN \<le> i \<Longrightarrow> i \<le> INT_MAX \<Longrightarrow> length (dec i) \<le> 11"
proof -
  assume "INT_MIN \<le> i" "i \<le> INT_MAX"
  then have "\<bar>i\<bar> < 10 ^ 10" by (simp add: INT_MIN_def INT_MAX_def)
  then show ?thesis using length_dec [of 10 i] by (cases "i < 0") simp_all
qed

lemma snprintf_Some: "format fmt args = Some t \<Longrightarrow> snprintf n fmt args =
   Some (if int (length t) > INT_MAX then -1 else int (length t), take (n - 1) t)"
  by (simp add: snprintf_def)

end
