(* ===== verification/Jnl_Detail.thy ===== *)
theory Jnl_Detail
  imports CLib
begin

text \<open>
  The detail levels of the message library (\<^verbatim>\<open>jnl_detail.h\<close>, the tables of
  \<^verbatim>\<open>jnl_private.h\<close>) and the two searches of \<^verbatim>\<open>libjnl.c\<close> over them: for the
  description of a level, and for the level that a word names.
\<close>

section \<open>jnl_detail.h\<close>

definition jnlDL_ASSERTION :: int where "jnlDL_ASSERTION = INT_MIN"
definition jnlDL_RESULT :: int where "jnlDL_RESULT = jnlDL_ASSERTION + 1"
definition jnlDL_DIAGNOSTIC :: int where "jnlDL_DIAGNOSTIC = jnlDL_RESULT + 1"
definition jnlDL_PROGRESS :: int where "jnlDL_PROGRESS = 0"
definition jnlDL_ENCYCLOPEDIC :: int where "jnlDL_ENCYCLOPEDIC = INT_MAX"
definition jnlDL_STACK :: int where "jnlDL_STACK = jnlDL_ENCYCLOPEDIC div 2"
definition jnlDL_VERBOSE :: int where "jnlDL_VERBOSE = jnlDL_STACK div 2"

lemmas jnlDL_defs = INT_MIN_def INT_MAX_def jnlDL_ASSERTION_def jnlDL_RESULT_def jnlDL_DIAGNOSTIC_def
  jnlDL_PROGRESS_def jnlDL_ENCYCLOPEDIC_def jnlDL_STACK_def jnlDL_VERBOSE_def

record jnlDL_Description =
  dl_level :: int
  dl_description :: string

section \<open>The tables of jnl_private.h\<close>

definition jnlDL_Level_Descriptions :: "jnlDL_Description list" where
  "jnlDL_Level_Descriptions = [
     \<lparr>dl_level = jnlDL_ASSERTION, dl_description = ''Assertion''\<rparr>,
     \<lparr>dl_level = jnlDL_RESULT, dl_description = ''Result''\<rparr>,
     \<lparr>dl_level = jnlDL_DIAGNOSTIC, dl_description = ''Diagnostic''\<rparr>,
     \<lparr>dl_level = jnlDL_PROGRESS, dl_description = ''Progress''\<rparr>,
     \<lparr>dl_level = jnlDL_VERBOSE, dl_description = ''Verbose''\<rparr>,
     \<lparr>dl_level = jnlDL_STACK, dl_description = ''Stack''\<rparr>,
     \<lparr>dl_level = jnlDL_ENCYCLOPEDIC, dl_description = ''Encyclopedic''\<rparr>]"

definition jnlDL_Description_Levels :: "jnlDL_Description list" where
  "jnlDL_Description_Levels = [
     \<lparr>dl_level = jnlDL_ASSERTION, dl_description = ''Assertion''\<rparr>,
     \<lparr>dl_level = jnlDL_DIAGNOSTIC, dl_description = ''Diagnostic''\<rparr>,
     \<lparr>dl_level = jnlDL_ENCYCLOPEDIC, dl_description = ''Encyclopedic''\<rparr>,
     \<lparr>dl_level = jnlDL_PROGRESS, dl_description = ''Progress''\<rparr>,
     \<lparr>dl_level = jnlDL_RESULT, dl_description = ''Result''\<rparr>,
     \<lparr>dl_level = jnlDL_STACK, dl_description = ''Stack''\<rparr>,
     \<lparr>dl_level = jnlDL_VERBOSE, dl_description = ''Verbose''\<rparr>]"

section \<open>Searching the tables\<close>

text \<open>Keep a position within a table of \<open>n\<close> items, as the source does after each move.\<close>

definition keep_within :: "nat \<Rightarrow> int \<Rightarrow> int" where
  "keep_within n i = (if i > int n - 1 then int n - 1 else if i < 0 then 0 else i)"

text \<open>
  The loop of \<^verbatim>\<open>jnl_dl_description_fetch\<close>: \<open>jnlDL\<close> is a position in the table, \<open>distance\<close> the last
  step made.
\<close>

partial_function (option) description_probe :: "int \<Rightarrow> int \<Rightarrow> int \<Rightarrow> jnlDL_Description option" where
  "description_probe level distance jnlDL =
     (let tab = jnlDL_Level_Descriptions; d = tab ! nat jnlDL in
      if dl_level d = level then Some d
      else
        let prev = jnlDL;
            distance = (distance + 1) div 2;
            jnlDL = keep_within (length tab) (jnlDL + (if dl_level d > level then - distance else distance));
            e = tab ! nat jnlDL
        in if jnlDL = prev then Some e
           else if distance = 1 \<and> dl_level e < level \<and> level < dl_level d then Some d
           else description_probe level distance jnlDL)"

definition jnl_dl_description_fetch :: "int \<Rightarrow> jnlDL_Description option" where
  "jnl_dl_description_fetch level =
     (let distance = int (length jnlDL_Level_Descriptions) div 2
      in description_probe level distance (distance - 1))"

text \<open>\<^verbatim>\<open>strcasecmp\<close>: the difference of the first two characters that differ, upper case read as lower.\<close>

definition lower_code :: "char \<Rightarrow> int" where
  "lower_code c = (let n = (of_char c :: nat) in int (if 65 \<le> n \<and> n \<le> 90 then n + 32 else n))"

fun strcasecmp :: "string \<Rightarrow> string \<Rightarrow> int" where
  "strcasecmp [] [] = 0"
| "strcasecmp [] (y # ys) = - lower_code y"
| "strcasecmp (x # xs) [] = lower_code x"
| "strcasecmp (x # xs) (y # ys) =
     (if lower_code x = lower_code y then strcasecmp xs ys else lower_code x - lower_code y)"

partial_function (option) level_probe :: "string \<Rightarrow> int \<Rightarrow> int \<Rightarrow> jnlDL_Description option" where
  "level_probe description distance jnlDL =
     (let tab = jnlDL_Description_Levels; d = tab ! nat jnlDL;
          direction = strcasecmp description (dl_description d) in
      if direction = 0 then Some d
      else
        let prev = jnlDL;
            distance = (distance + 1) div 2;
            jnlDL = keep_within (length tab) (jnlDL + (if direction < 0 then - distance else distance));
            e = tab ! nat jnlDL
        in if jnlDL = prev then Some e
           else if distance = 1 \<and> strcasecmp description (dl_description e) < 0 \<and>
                   strcasecmp description (dl_description d) > 0 then Some d
           else level_probe description distance jnlDL)"

definition jnl_dl_level_fetch :: "string \<Rightarrow> jnlDL_Description option" where
  "jnl_dl_level_fetch description =
     (let distance = int (length jnlDL_Description_Levels) div 2
      in level_probe description distance (distance - 1))"

declare description_probe.simps [code] level_probe.simps [code]

section \<open>The first search\<close>

lemma table_lengths [simp]: "length jnlDL_Level_Descriptions = 7" "length jnlDL_Description_Levels = 7"
  by (simp_all add: jnlDL_Level_Descriptions_def jnlDL_Description_Levels_def)

text \<open>One round of the loop, at a position whose level is known.\<close>

lemma description_probe_hit:
  "dl_level (jnlDL_Level_Descriptions ! nat i) = level \<Longrightarrow>
   description_probe level dist i = Some (jnlDL_Level_Descriptions ! nat i)"
  by (subst description_probe.simps) (simp add: Let_def)

lemma description_probe_move:
  assumes "dl_level (jnlDL_Level_Descriptions ! nat i) \<noteq> level"
    and "j = keep_within 7 (i + (if dl_level (jnlDL_Level_Descriptions ! nat i) > level
               then - ((dist + 1) div 2) else (dist + 1) div 2))" and "j \<noteq> i"
    and "\<not> ((dist + 1) div 2 = 1 \<and> dl_level (jnlDL_Level_Descriptions ! nat j) < level \<and>
             level < dl_level (jnlDL_Level_Descriptions ! nat i))"
  shows "description_probe level dist i = description_probe level ((dist + 1) div 2) j"
  using assms by (subst description_probe.simps) (simp only: Let_def table_lengths if_False simp_thms)

lemma description_probe_between:
  assumes "dl_level (jnlDL_Level_Descriptions ! nat i) \<noteq> level"
    and "j = keep_within 7 (i + (if dl_level (jnlDL_Level_Descriptions ! nat i) > level
               then - ((dist + 1) div 2) else (dist + 1) div 2))" and "j \<noteq> i"
    and "(dist + 1) div 2 = 1" "dl_level (jnlDL_Level_Descriptions ! nat j) < level"
             "level < dl_level (jnlDL_Level_Descriptions ! nat i)"
  shows "description_probe level dist i = Some (jnlDL_Level_Descriptions ! nat i)"
  using assms by (subst description_probe.simps) (simp only: Let_def table_lengths if_False simp_thms if_True)

lemma level_values:
  "dl_level (jnlDL_Level_Descriptions ! 0) = -2147483648" "dl_level (jnlDL_Level_Descriptions ! 1) = -2147483647"
  "dl_level (jnlDL_Level_Descriptions ! 2) = -2147483646" "dl_level (jnlDL_Level_Descriptions ! 3) = 0"
  "dl_level (jnlDL_Level_Descriptions ! 4) = 536870911" "dl_level (jnlDL_Level_Descriptions ! 5) = 1073741823"
  "dl_level (jnlDL_Level_Descriptions ! 6) = 2147483647" "dl_level (jnlDL_Level_Descriptions ! Suc 0) = -2147483647"
  by (simp_all add: jnlDL_Level_Descriptions_def jnlDL_defs)

text \<open>The positions the search visits, by the place of the level among those of the table.\<close>

lemma probe_up:
  "level > -2147483646 \<Longrightarrow> description_probe level 3 2 = description_probe level 2 4"
  by (subst description_probe_move [where j = 4]) (simp_all add: level_values keep_within_def)

lemma probe_down:
  "level < -2147483646 \<Longrightarrow> description_probe level 3 2 = description_probe level 2 0"
  by (subst description_probe_move [where j = 0]) (simp_all add: level_values keep_within_def)

lemma probe_4_up: "level > 536870911 \<Longrightarrow> description_probe level 2 4 = description_probe level 1 5"
  by (subst description_probe_move [where j = 5]) (simp_all add: level_values keep_within_def)

lemma probe_5_up: "level > 1073741823 \<Longrightarrow> description_probe level 1 5 = description_probe level 1 6"
  by (subst description_probe_move [where j = 6]) (simp_all add: level_values keep_within_def)

lemma jnl_dl_description_fetch_bound:
  assumes "INT_MIN \<le> level" "level \<le> INT_MAX"
  obtains i where "i < 7" "jnl_dl_description_fetch level = Some (jnlDL_Level_Descriptions ! i)"
    "level \<le> dl_level (jnlDL_Level_Descriptions ! i)"
    "\<And>j. j < i \<Longrightarrow> dl_level (jnlDL_Level_Descriptions ! j) < level"
proof -
  note hit = description_probe_hit and mv = description_probe_move and bt = description_probe_between
  have st: "jnl_dl_description_fetch level = description_probe level 3 2"
    by (simp add: jnl_dl_description_fetch_def)
  have low: "\<And>j::nat. j < 1 \<Longrightarrow> j = 0" "\<And>j::nat. j < 2 \<Longrightarrow> j = 0 \<or> j = 1" "\<And>j::nat. j < 3 \<Longrightarrow> j = 0 \<or> j = 1 \<or> j = 2"
    "\<And>j::nat. j < 4 \<Longrightarrow> j = 0 \<or> j = 1 \<or> j = 2 \<or> j = 3" "\<And>j::nat. j < 5 \<Longrightarrow> j = 0 \<or> j = 1 \<or> j = 2 \<or> j = 3 \<or> j = 4"
    "\<And>j::nat. j < 6 \<Longrightarrow> j = 0 \<or> j = 1 \<or> j = 2 \<or> j = 3 \<or> j = 4 \<or> j = 5" by linarith+
  consider "level = -2147483648" | "level = -2147483647" | "level = -2147483646" | "-2147483646 < level" "level < 0"
    | "level = 0" | "0 < level" "level < 536870911" | "level = 536870911" | "536870911 < level" "level < 1073741823"
    | "level = 1073741823" | "1073741823 < level" "level < 2147483647" | "level = 2147483647"
    using assms by (fastforce simp: INT_MIN_def INT_MAX_def)
  then show thesis
  proof cases
    case 1
    then show thesis using st probe_down hit [of 0] by (intro that [of 0]) (simp_all add: level_values)
  next
    case 2
    have "description_probe level 2 0 = description_probe level 1 1"
      using 2 by (subst mv [where j = 1]) (simp_all add: level_values keep_within_def)
    then show thesis using 2 st probe_down hit [of 1] by (intro that [of 1]) (auto simp: level_values dest: low)
  next
    case 3
    then show thesis using st hit [of 2] by (intro that [of 2]) (auto simp: level_values dest: low)
  next
    case 4
    have "description_probe level 2 4 = description_probe level 1 3"
      using 4 by (subst mv [where j = 3]) (simp_all add: level_values keep_within_def)
    moreover have "description_probe level 1 3 = Some (jnlDL_Level_Descriptions ! nat 3)"
      using 4 by (intro bt [where j = 2]) (simp_all add: level_values keep_within_def)
    ultimately show thesis using 4 st probe_up by (intro that [of 3]) (auto simp: level_values dest: low)
  next
    case 5
    have "description_probe level 2 4 = description_probe level 1 3"
      using 5 by (subst mv [where j = 3]) (simp_all add: level_values keep_within_def)
    then show thesis using 5 st probe_up hit [of 3] by (intro that [of 3]) (auto simp: level_values dest: low)
  next
    case 6
    have "description_probe level 2 4 = Some (jnlDL_Level_Descriptions ! nat 4)"
      using 6 by (intro bt [where j = 3]) (simp_all add: level_values keep_within_def)
    then show thesis using 6 st probe_up by (intro that [of 4]) (auto simp: level_values dest: low)
  next
    case 7
    then show thesis using st probe_up hit [of 4] by (intro that [of 4]) (auto simp: level_values dest: low)
  next
    case 8
    have "description_probe level 1 5 = Some (jnlDL_Level_Descriptions ! nat 5)"
      using 8 by (intro bt [where j = 4]) (simp_all add: level_values keep_within_def)
    then show thesis using 8 st probe_up probe_4_up by (intro that [of 5]) (auto simp: level_values dest: low)
  next
    case 9
    then show thesis using st probe_up probe_4_up hit [of 5] by (intro that [of 5]) (auto simp: level_values dest: low)
  next
    case 10
    have "description_probe level 1 6 = Some (jnlDL_Level_Descriptions ! nat 6)"
      using 10 by (intro bt [where j = 5]) (simp_all add: level_values keep_within_def)
    then show thesis using 10 st probe_up probe_4_up probe_5_up by (intro that [of 6]) (auto simp: level_values dest: low)
  next
    case 11
    then show thesis using st probe_up probe_4_up probe_5_up hit [of 6] by (intro that [of 6]) (auto simp: level_values dest: low)
  qed
qed

section \<open>The second search\<close>

lemma lower_code_nonneg [simp]: "0 \<le> lower_code c"
  by (simp add: lower_code_def Let_def)

lemma lower_code_pos: "c \<noteq> CHR 0x00 \<Longrightarrow> 0 < lower_code c"
proof -
  assume "c \<noteq> CHR 0x00"
  then have "(of_char c :: nat) \<noteq> of_char (CHR 0x00)" unfolding of_char_eq_iff .
  then have "(of_char c :: nat) \<noteq> 0" by simp
  then show ?thesis by (simp add: lower_code_def Let_def)
qed

lemma strcasecmp_minus: "strcasecmp t s = - strcasecmp s t"
  by (induction s t rule: strcasecmp.induct) auto

lemma strcasecmp_trans:
  assumes "CHR 0x00 \<notin> set s \<union> set t \<union> set u" "strcasecmp s t \<le> 0" "strcasecmp t u < 0"
  shows "strcasecmp s u < 0"
  using assms
proof (induction s t arbitrary: u rule: strcasecmp.induct)
  case 1
  then show ?case by simp
next
  case (2 y ys)
  show ?case
  proof (cases u)
    case Nil
    then show ?thesis using 2 lower_code_pos [of y] by auto
  next
    case (Cons z zs)
    then show ?thesis using 2 lower_code_pos [of z] by auto
  qed
next
  case (3 x xs)
  then show ?case using lower_code_pos [of x] by auto
next
  case (4 x xs y ys)
  show ?case
  proof (cases u)
    case Nil
    then show ?thesis using 4 lower_code_pos [of y] by auto
  next
    case (Cons z zs)
    then show ?thesis using 4 by (auto split: if_splits)
  qed
qed

text \<open>The order of the second table.\<close>

definition word_at :: "nat \<Rightarrow> string" where
  "word_at i = dl_description (jnlDL_Description_Levels ! i)"

lemma words_sorted: "i < 6 \<Longrightarrow> strcasecmp (word_at i) (word_at (Suc i)) < 0 \<and> CHR 0x00 \<notin> set (word_at i)"
  "CHR 0x00 \<notin> set (word_at 6)"
proof -
  assume "i < 6"
  then consider "i = 0" | "i = 1" | "i = 2" | "i = 3" | "i = 4" | "i = 5" by linarith
  then show "strcasecmp (word_at i) (word_at (Suc i)) < 0 \<and> CHR 0x00 \<notin> set (word_at i)"
    by cases (simp_all add: word_at_def jnlDL_Description_Levels_def lower_code_def Let_def)
next
  show "CHR 0x00 \<notin> set (word_at 6)" by (simp add: word_at_def jnlDL_Description_Levels_def)
qed

lemma word_no_nul: "i < 7 \<Longrightarrow> CHR 0x00 \<notin> set (word_at i)"
  using words_sorted(1) [of i] words_sorted(2) by (cases "i = 6") auto

lemma words_below:
  assumes "CHR 0x00 \<notin> set w" "strcasecmp w (word_at i) \<le> 0" "i < j" "j < 7"
  shows "strcasecmp w (word_at j) < 0"
  using assms(3,4)
proof (induction j)
  case 0
  then show ?case by simp
next
  case (Suc j)
  have "strcasecmp w (word_at j) \<le> 0" using Suc assms(2) by (cases "i = j") auto
  then show ?case
    using words_sorted(1) [of j] Suc.prems assms(1) word_no_nul [of "Suc j"] by (intro strcasecmp_trans [of w "word_at j"]) auto
qed

text \<open>A word has a place in the table: the words before it are smaller, those after it larger.\<close>

lemma word_place:
  assumes "CHR 0x00 \<notin> set w"
  obtains p where "p \<le> 7" "\<And>j. j < p \<Longrightarrow> strcasecmp w (word_at j) > 0"
    "p < 7 \<Longrightarrow> strcasecmp w (word_at p) \<le> 0" "\<And>j. p < j \<Longrightarrow> j < 7 \<Longrightarrow> strcasecmp w (word_at j) < 0"
proof -
  define p where "p = (LEAST p. p = 7 \<or> strcasecmp w (word_at p) \<le> 0)"
  have p: "p = 7 \<or> strcasecmp w (word_at p) \<le> 0" unfolding p_def by (rule LeastI [of _ 7]) simp
  have le: "p \<le> 7" unfolding p_def by (rule Least_le) simp
  have less: "strcasecmp w (word_at j) > 0" if "j < p" for j
    using not_less_Least [OF that [unfolded p_def]] by simp
  show thesis using p le less words_below [OF assms] by (intro that [of p]) auto
qed

lemma level_probe_hit:
  "strcasecmp w (word_at (nat i)) = 0 \<Longrightarrow> level_probe w dist i = Some (jnlDL_Description_Levels ! nat i)"
  by (subst level_probe.simps) (simp add: Let_def word_at_def)

lemma level_probe_step:
  assumes "strcasecmp w (word_at (nat i)) \<noteq> 0"
    and "j = keep_within 7 (i + (if strcasecmp w (word_at (nat i)) < 0 then - ((dist + 1) div 2) else (dist + 1) div 2))"
  shows "level_probe w dist i =
    (if j = i then Some (jnlDL_Description_Levels ! nat j)
     else if (dist + 1) div 2 = 1 \<and> strcasecmp w (word_at (nat j)) < 0 \<and> strcasecmp w (word_at (nat i)) > 0
     then Some (jnlDL_Description_Levels ! nat i)
     else level_probe w ((dist + 1) div 2) j)"
  using assms unfolding word_at_def
  by (subst level_probe.simps) (simp only: Let_def table_lengths if_False simp_thms)

lemma jnl_dl_level_fetch_total:
  assumes w: "CHR 0x00 \<notin> set w"
  obtains i where "i < 7" "jnl_dl_level_fetch w = Some (jnlDL_Description_Levels ! i)"
    "\<And>j. j < 7 \<Longrightarrow> strcasecmp w (word_at j) = 0 \<Longrightarrow> i = j"
proof -
  have st: "jnl_dl_level_fetch w = level_probe w 3 2"
    by (simp add: jnl_dl_level_fetch_def)
  obtain p where p: "p \<le> 7" "\<And>j. j < p \<Longrightarrow> strcasecmp w (word_at j) > 0"
    "p < 7 \<Longrightarrow> strcasecmp w (word_at p) \<le> 0" "\<And>j. p < j \<Longrightarrow> j < 7 \<Longrightarrow> strcasecmp w (word_at j) < 0"
    using word_place [OF w] by metis
  let ?c = "\<lambda>i. strcasecmp w (word_at i)"
  note step = level_probe_step [of w] and hit = level_probe_hit [of w]
  have only: "\<And>j. j < 7 \<Longrightarrow> ?c j = 0 \<Longrightarrow> p = j" using p by (metis less_irrefl nat_neq_iff)
  have up: "level_probe w 3 2 = level_probe w 2 4" if "2 < p"
    using step [of 2 4 3] p(2) [of 2] that by (simp add: keep_within_def)
  have down: "level_probe w 3 2 = level_probe w 2 0" if "?c 2 < 0"
    using step [of 2 0 3] that by (simp add: keep_within_def)
  have up4: "level_probe w 2 4 = (if ?c 5 < 0 then Some (jnlDL_Description_Levels ! 4) else level_probe w 1 5)" if "4 < p"
    using step [of 4 5 2] p(2) [of 4] that by (simp add: keep_within_def)
  have dn4: "level_probe w 2 4 = level_probe w 1 3" if "?c 4 < 0"
    using step [of 4 3 2] that by (simp add: keep_within_def)
  have u0: "level_probe w 2 0 = (if ?c 1 < 0 then Some (jnlDL_Description_Levels ! 0) else level_probe w 1 1)" if "0 < p"
    using step [of 0 1 2] p(2) [of 0] that by (simp add: keep_within_def)
  consider "p = 0" | "p = 1" | "p = 2" | "p = 3" | "p = 4" | "p = 5" | "p = 6" | "p = 7" using p(1) by linarith
  then have "\<exists>i<7. level_probe w 3 2 = Some (jnlDL_Description_Levels ! i) \<and> (p < 7 \<longrightarrow> ?c p = 0 \<longrightarrow> i = p)"
  proof cases
    case 1
    have d: "level_probe w 3 2 = level_probe w 2 0" using down p(4) [of 2] 1 by simp
    show ?thesis
    proof (cases "?c 0 = 0")
      case True
      then show ?thesis using d hit [of 0 2] 1 by (intro exI [of _ 0]) simp
    next
      case False
      then have "level_probe w 2 0 = Some (jnlDL_Description_Levels ! 0)"
        using step [of 0 0 2] p(3) 1 by (simp add: keep_within_def)
      then show ?thesis using d 1 by (intro exI [of _ 0]) simp
    qed
  next
    case 2
    have d: "level_probe w 3 2 = level_probe w 2 0" using down p(4) [of 2] 2 by simp
    show ?thesis
    proof (cases "?c 1 = 0")
      case True
      then show ?thesis using d u0 hit [of 1 1] 2 by (intro exI [of _ 1]) simp
    next
      case False
      then show ?thesis using d u0 p(3) 2 by (intro exI [of _ 0]) simp
    qed
  next
    case 3
    show ?thesis
    proof (cases "?c 2 = 0")
      case True
      then show ?thesis using hit [of 2 3] 3 by (intro exI [of _ 2]) simp
    next
      case False
      then have c2: "?c 2 < 0" using p(3) 3 by simp
      have c1: "?c 1 > 0" using p(2) [of 1] 3 by simp
      have "level_probe w 1 1 = Some (jnlDL_Description_Levels ! 1)"
        using step [of 1 2 1] c1 c2 by (simp add: keep_within_def)
      then show ?thesis using down [OF c2] u0 c1 False 3 by (intro exI [of _ 1]) simp
    qed
  next
    case 4
    have d: "level_probe w 3 2 = level_probe w 1 3" using up dn4 p(4) [of 4] 4 by simp
    show ?thesis
    proof (cases "?c 3 = 0")
      case True
      then show ?thesis using d hit [of 3 1] 4 by (intro exI [of _ 3]) simp
    next
      case False
      then have c3: "?c 3 < 0" using p(3) 4 by simp
      have c2: "?c 2 > 0" using p(2) [of 2] 4 by simp
      have "level_probe w 1 3 = level_probe w 1 2" "level_probe w 1 2 = Some (jnlDL_Description_Levels ! 2)"
        using step [of 3 2 1] step [of 2 3 1] c2 c3 by (simp_all add: keep_within_def)
      then show ?thesis using d False 4 by (intro exI [of _ 2]) simp
    qed
  next
    case 5
    show ?thesis
    proof (cases "?c 4 = 0")
      case True
      then show ?thesis using up hit [of 4 2] 5 by (intro exI [of _ 4]) simp
    next
      case False
      then have c4: "?c 4 < 0" using p(3) 5 by simp
      have c3: "?c 3 > 0" using p(2) [of 3] 5 by simp
      have "level_probe w 1 3 = Some (jnlDL_Description_Levels ! 3)"
        using step [of 3 4 1] c3 c4 by (simp add: keep_within_def)
      then show ?thesis using up dn4 [OF c4] False 5 by (intro exI [of _ 3]) simp
    qed
  next
    case 6
    show ?thesis
    proof (cases "?c 5 = 0")
      case True
      then show ?thesis using up up4 hit [of 5 1] 6 by (intro exI [of _ 5]) simp
    next
      case False
      then show ?thesis using up up4 p(3) 6 by (intro exI [of _ 4]) simp
    qed
  next
    case 7
    have c5: "?c 5 > 0" using p(2) [of 5] 7 by simp
    show ?thesis
    proof (cases "?c 6 = 0")
      case True
      have "level_probe w 1 5 = level_probe w 1 6" using step [of 5 6 1] c5 True by (simp add: keep_within_def)
      then show ?thesis using up up4 c5 hit [of 6 1] True 7 by (intro exI [of _ 6]) simp
    next
      case False
      have "level_probe w 1 5 = Some (jnlDL_Description_Levels ! 5)"
        using step [of 5 6 1] c5 False p(3) 7 by (simp add: keep_within_def)
      then show ?thesis using up up4 c5 False 7 by (intro exI [of _ 5]) simp
    qed
  next
    case 8
    have c: "?c 5 > 0" "?c 6 > 0" using p(2) [of 5] p(2) [of 6] 8 by simp_all
    have "level_probe w 1 5 = level_probe w 1 6" "level_probe w 1 6 = Some (jnlDL_Description_Levels ! 6)"
      using step [of 5 6 1] step [of 6 6 1] c by (simp_all add: keep_within_def)
    then show ?thesis using up up4 c 8 by (intro exI [of _ 6]) simp
  qed
  then show thesis using st only that by metis
qed

end
