(* ===== verification/Stf_Sys.thy ===== *)
theory Stf_Sys
  imports CLib Sync
begin

text \<open>
  A process as the journal library \<^verbatim>\<open>libstf.c\<close> sees it: its environment variables, open
  files, standard output, the clock, and the variable file that the processes of a test run share
  (\<^verbatim>\<open>struct jvars\<close> of \<^verbatim>\<open>stf_impl.h\<close>, mapped into memory).

  A file is a directory entry that names an inode, so that a mapping or a descriptor stays valid
  after the name was removed. A call of the library returns, exits the process, or is stuck: it
  waits for a mutex that is not released, or its behaviour is undefined.
\<close>

section \<open>Outcomes\<close>

datatype ('r, 's) run = Ret 'r 's | Exit int 's | Stuck

fun seq :: "('a, 's) run \<Rightarrow> ('a \<Rightarrow> 's \<Rightarrow> ('b, 's) run) \<Rightarrow> ('b, 's) run" where
  "seq (Ret r s) f = f r s"
| "seq (Exit c s) f = Exit c s"
| "seq Stuck f = Stuck"

lemma seq_assoc: "seq (seq m f) g = seq m (\<lambda>r s. seq (f r s) g)"
  by (cases m) simp_all

lemma seq_eq:
  "seq m f = Ret r t \<longleftrightarrow> (\<exists>x u. m = Ret x u \<and> f x u = Ret r t)"
  "seq m f = Exit c t \<longleftrightarrow> m = Exit c t \<or> (\<exists>x u. m = Ret x u \<and> f x u = Exit c t)"
  by (cases m; simp)+

text \<open>The call returns and result and state satisfy \<open>Q\<close>.\<close>

definition returns :: "('r, 's) run \<Rightarrow> ('r \<Rightarrow> 's \<Rightarrow> bool) \<Rightarrow> bool" where
  "returns m Q \<longleftrightarrow> (\<exists>r s. m = Ret r s \<and> Q r s)"

lemma returns_Ret [simp]: "returns (Ret r s) Q \<longleftrightarrow> Q r s"
  by (simp add: returns_def)

lemma returns_seq: "returns (seq m f) Q \<longleftrightarrow> returns m (\<lambda>r s. returns (f r s) Q)"
  by (cases m) (auto simp: returns_def)

lemma returns_mono: "returns m P \<Longrightarrow> (\<And>r s. P r s \<Longrightarrow> Q r s) \<Longrightarrow> returns m Q"
  by (auto simp: returns_def)

section \<open>stf_impl.h\<close>

definition MAXCHAR :: nat where "MAXCHAR = 8192"

definition JNL_START :: string where "JNL_START = ''Start''"
definition JNL_END :: string where "JNL_END = ''End''"
definition JNL_ENV :: string where "JNL_ENV = ''STF_ENV''"
definition JNL_TESTCASE_START :: string where "JNL_TESTCASE_START = ''Test_Case_Start''"
definition JNL_TESTCASE_END :: string where "JNL_TESTCASE_END = ''Test_Case_End''"
definition JNL_ASSERT_START :: string where "JNL_ASSERT_START = ''Assertion_Start''"
definition JNL_ASSERT_END :: string where "JNL_ASSERT_END = ''Assertion_End''"
definition JNL_MSG :: string where "JNL_MSG = ''Msg''"
definition JNL_TOTALS :: string where "JNL_TOTALS = ''Totals''"

definition VARFNAME :: string where "VARFNAME = ''/tmp/stf_varfile.''"
definition VARFILE :: string where "VARFILE = ''VARFILE''"
definition JNLNAME :: string where "JNLNAME = ''STF_JOURNAL''"

text \<open>
  The variable file. The character arrays have 256 bytes each and are kept as the strings they
  hold.
\<close>

record jvars =
  jvar_mlock :: mutex
  jasrt :: string
  jsubid :: string
  jargid :: string
  jseq :: u16
  jblk :: u16
  jact :: u16
  jsubcnt :: u16

section \<open>The process\<close>

datatype inode = Bytes string | Vars jvars

datatype fdesc = Stdout | Inode nat

text \<open>The static pointer of \<^verbatim>\<open>vfile_mmap\<close>: null, \<^verbatim>\<open>(void *)-1\<close>, or a mapped file.\<close>

datatype jvptr = JV_NULL | JV_FAILED | JV nat

record process =
  p_tick :: nat
  p_pid :: int
  p_env :: "string \<rightharpoonup> string"
  p_dir :: "string \<rightharpoonup> nat"
  p_inodes :: "nat \<rightharpoonup> inode"
  p_next :: nat
  p_fds :: "(nat \<times> fdesc) list"
  p_stdout :: string
  p_errs :: "string list"
  p_jv :: jvptr
  p_umask :: u16

record tm =
  tm_year :: int
  tm_mon :: int
  tm_mday :: int
  tm_hour :: int
  tm_min :: int
  tm_sec :: int

record utsname =
  sysname :: string
  nodename :: string
  release :: string
  version :: string
  machine :: string

text \<open>
  What the system decides at each call: whether a file can be opened or mapped, how much of a write
  is accepted (\<open>-1\<close> for an error), what the mutex calls report, the time, and who runs the
  process. \<open>io_signaled\<close> is the macro \<^verbatim>\<open>WIFSIGNALED\<close>, whose reading of a wait status
  is the system's.
\<close>

record io_env =
  io_open :: "nat \<Rightarrow> bool"
  io_write :: "nat \<Rightarrow> nat \<Rightarrow> int"
  io_mutex :: "nat \<Rightarrow> int"
  io_mmap :: "nat \<Rightarrow> bool"
  io_unlink :: "nat \<Rightarrow> bool"
  io_time :: "nat \<Rightarrow> tm option"
  io_hrtime :: "nat \<Rightarrow> u64"
  io_uname :: "utsname option"
  io_uid :: u32
  io_login :: "string option"
  io_pwname :: "string option"
  io_cwd :: "string option"
  io_signaled :: "u32 \<Rightarrow> bool"

abbreviation ptick :: "process \<Rightarrow> process" where
  "ptick s \<equiv> s\<lparr>p_tick := Suc (p_tick s)\<rparr>"

definition perror :: "string \<Rightarrow> process \<Rightarrow> process" where
  "perror msg s = s\<lparr>p_errs := p_errs s @ [msg]\<rparr>"

text \<open>Formatting into a buffer of \<open>n\<close> bytes, where the value returned is ignored.\<close>

definition sprint :: "nat \<Rightarrow> string \<Rightarrow> arg list \<Rightarrow> process \<Rightarrow> (string, process) run" where
  "sprint n fmt args s = (case snprintf n fmt args of None \<Rightarrow> Stuck | Some (r, b) \<Rightarrow> Ret b s)"

text \<open>The lowest descriptor that is not in use.\<close>

fun lowest_free :: "nat list \<Rightarrow> nat \<Rightarrow> nat \<Rightarrow> nat" where
  "lowest_free used 0 k = k"
| "lowest_free used (Suc n) k = (if k \<in> set used then lowest_free used n (Suc k) else k)"

definition fresh_fd :: "process \<Rightarrow> nat" where
  "fresh_fd s = lowest_free (map fst (p_fds s)) (length (p_fds s)) 0"

text \<open>\<^verbatim>\<open>open\<close>, which may create an empty file; the descriptor or \<open>-1\<close>.\<close>

definition open_file :: "io_env \<Rightarrow> bool \<Rightarrow> string \<Rightarrow> process \<Rightarrow> int \<times> process" where
  "open_file env creat path s =
     (if \<not> io_open env (p_tick s) \<or> \<not> creat \<and> p_dir s path = None then (-1, ptick s)
      else
        let fd = fresh_fd s;
            (i, s') = (case p_dir s path of
                Some i \<Rightarrow> (i, ptick s)
              | None \<Rightarrow> (p_next s, (ptick s)\<lparr>p_dir := (p_dir s)(path \<mapsto> p_next s),
                  p_inodes := (p_inodes s)(p_next s \<mapsto> Bytes []), p_next := Suc (p_next s)\<rparr>))
        in (int fd, s'\<lparr>p_fds := (fd, Inode i) # p_fds s\<rparr>))"

definition close_fd :: "int \<Rightarrow> process \<Rightarrow> int \<times> process" where
  "close_fd fd s =
     (if 0 \<le> fd \<and> nat fd \<in> fst ` set (p_fds s)
      then (0, s\<lparr>p_fds := filter (\<lambda>x. fst x \<noteq> nat fd) (p_fds s)\<rparr>) else (-1, s))"

text \<open>
  \<^verbatim>\<open>write\<close> at the end of a file (the journal is opened with \<^verbatim>\<open>O_APPEND\<close>), or to standard
  output.
\<close>

definition write_fd :: "io_env \<Rightarrow> int \<Rightarrow> string \<Rightarrow> process \<Rightarrow> (int, process) run" where
  "write_fd env fd t s =
     (let r = io_write env (p_tick s) (length t); done = take (nat r) t in
      if fd < 0 then Ret (-1) (ptick s)
      else case map_of (p_fds s) (nat fd) of
          None \<Rightarrow> Ret (-1) (ptick s)
        | Some Stdout \<Rightarrow> Ret r ((ptick s)\<lparr>p_stdout := p_stdout s @ done\<rparr>)
        | Some (Inode i) \<Rightarrow>
            (case p_inodes s i of
               Some (Bytes b) \<Rightarrow> Ret r ((ptick s)\<lparr>p_inodes := (p_inodes s)(i \<mapsto> Bytes (b @ done))\<rparr>)
             | Some (Vars v) \<Rightarrow> Stuck
             | None \<Rightarrow> Stuck))"

text \<open>Writing the variable file's structure at its beginning.\<close>

definition write_vars :: "io_env \<Rightarrow> int \<Rightarrow> jvars \<Rightarrow> process \<Rightarrow> int \<times> process" where
  "write_vars env fd v s =
     (case map_of (p_fds s) (nat fd) of
        Some (Inode i) \<Rightarrow>
          if io_write env (p_tick s) 0 < 0 then (-1, ptick s)
          else (0, (ptick s)\<lparr>p_inodes := (p_inodes s)(i \<mapsto> Vars v)\<rparr>)
      | _ \<Rightarrow> (-1, ptick s))"

definition mmap_fd :: "io_env \<Rightarrow> int \<Rightarrow> process \<Rightarrow> jvptr \<times> process" where
  "mmap_fd env fd s =
     (case map_of (p_fds s) (nat fd) of
        Some (Inode i) \<Rightarrow> (if io_mmap env (p_tick s) then JV i else JV_FAILED, ptick s)
      | _ \<Rightarrow> (JV_FAILED, ptick s))"

definition umask :: "u16 \<Rightarrow> process \<Rightarrow> u16 \<times> process" where
  "umask m s = (p_umask s, s\<lparr>p_umask := m\<rparr>)"

definition getenv :: "string \<Rightarrow> process \<Rightarrow> string option" where
  "getenv name s = p_env s name"

definition putenv :: "string \<Rightarrow> process \<Rightarrow> process" where
  "putenv t s =
     (let name = takeWhile (\<lambda>c. c \<noteq> CHR ''='') t; val = tl (dropWhile (\<lambda>c. c \<noteq> CHR ''='') t)
      in s\<lparr>p_env := (p_env s)(name \<mapsto> val)\<rparr>)"

definition unlink :: "io_env \<Rightarrow> string \<Rightarrow> process \<Rightarrow> int \<times> process" where
  "unlink env path s =
     (if io_unlink env (p_tick s) \<and> p_dir s path \<noteq> None
      then (0, (ptick s)\<lparr>p_dir := (p_dir s)(path := None)\<rparr>) else (-1, ptick s))"

section \<open>The mapped variable file\<close>

text \<open>Reading and writing through a mapping of a file that does not hold the structure is undefined.\<close>

definition vars_at :: "nat \<Rightarrow> process \<Rightarrow> jvars option" where
  "vars_at i s = (case p_inodes s i of Some (Vars v) \<Rightarrow> Some v | _ \<Rightarrow> None)"

definition vars_read :: "nat \<Rightarrow> process \<Rightarrow> (jvars, process) run" where
  "vars_read i s = (case vars_at i s of Some v \<Rightarrow> Ret v s | None \<Rightarrow> Stuck)"

definition vars_put :: "nat \<Rightarrow> jvars \<Rightarrow> process \<Rightarrow> process" where
  "vars_put i v s = s\<lparr>p_inodes := (p_inodes s)(i \<mapsto> Vars v)\<rparr>"

text \<open>\<^verbatim>\<open>strcpy\<close> into an array of \<open>n\<close> bytes: a string that does not fit is written past its end.\<close>

definition strcpy :: "nat \<Rightarrow> string \<Rightarrow> process \<Rightarrow> (string, process) run" where
  "strcpy n t s = (if length t < n then Ret t s else Stuck)"

definition vars_lock :: "io_env \<Rightarrow> nat \<Rightarrow> process \<Rightarrow> (int, process) run" where
  "vars_lock env i s =
     (let e = io_mutex env (p_tick s) in
      if e \<noteq> 0 then Ret e (ptick s)
      else seq (vars_read i s) (\<lambda>v s.
        if jvar_mlock v = MX_Free then Ret 0 (vars_put i (v\<lparr>jvar_mlock := MX_Held\<rparr>) (ptick s)) else Stuck))"

definition vars_unlock :: "io_env \<Rightarrow> nat \<Rightarrow> process \<Rightarrow> (int, process) run" where
  "vars_unlock env i s =
     (let e = io_mutex env (p_tick s) in
      if e \<noteq> 0 then Ret e (ptick s)
      else seq (vars_read i s) (\<lambda>v s. case jvar_mlock v of
          MX_Held \<Rightarrow> Ret 0 (vars_put i (v\<lparr>jvar_mlock := MX_Free\<rparr>) (ptick s))
        | MX_Free \<Rightarrow> Ret EPERM (ptick s)
        | MX_Uninit \<Rightarrow> Stuck))"

end
