(* ===== verification/Stf_Journal.thy ===== *)
theory Stf_Journal
  imports Stf_Sys
begin

text \<open>
  The journal library \<^verbatim>\<open>libstf.c\<close>: every call opens the journal (a file named by the environment
  or standard output), formats one entry, writes it and closes the journal; the calls for test cases
  and assertions also read or update the shared variable file.
\<close>

section \<open>stf.h\<close>

definition STF_PASS :: int where "STF_PASS = 0"
definition STF_NORESULT :: int where "STF_NORESULT = 7"
definition STF_TIMED_OUT :: int where "STF_TIMED_OUT = 9"
definition STF_OTHER :: int where "STF_OTHER = 10"
definition STF_MAX_RESULTS :: int where "STF_MAX_RESULTS = 11"
definition NORESULT_INDEX :: nat where "NORESULT_INDEX = 7"
definition OTHER_INDEX :: nat where "OTHER_INDEX = 10"

lemmas stf_codes = STF_PASS_def STF_NORESULT_def STF_TIMED_OUT_def STF_OTHER_def STF_MAX_RESULTS_def
  NORESULT_INDEX_def OTHER_INDEX_def

definition result_tbl :: "string list" where
  "result_tbl = [''PASS'', ''FAIL'', ''UNRESOLVED'', ''NOTINUSE'', ''UNSUPPORTED'', ''UNTESTED'',
     ''UNINITIATED'', ''NORESULT'', ''WARNING'', ''TIMED_OUT'', ''OTHER'']"

section \<open>Opening, printing, closing\<close>

definition stf_jnl_open :: "io_env \<Rightarrow> process \<Rightarrow> (int, process) run" where
  "stf_jnl_open env s =
     (case getenv JNLNAME s of
        None \<Rightarrow> Ret 1 s
      | Some jnl_file \<Rightarrow>
          let (jnl_fd, s) = open_file env True jnl_file s in
          if jnl_fd = -1 then Exit 1 (perror ''stf_jnl_open: jnlfile open'' s) else Ret jnl_fd s)"

definition stf_jnl_close :: "int \<Rightarrow> process \<Rightarrow> int \<times> process" where
  "stf_jnl_close fd s = (if fd = 1 then (0, s) else close_fd fd s)"

definition print_entry :: "io_env \<Rightarrow> string \<Rightarrow> int \<Rightarrow> process \<Rightarrow> (unit, process) run" where
  "print_entry env jnl_ptr fd s = seq (write_fd env fd jnl_ptr s) (\<lambda>r s. Ret () s)"

definition get_status_name :: "int \<Rightarrow> string" where
  "get_status_name exit_no =
     (if exit_no < 0 \<or> exit_no > STF_MAX_RESULTS - 1 then result_tbl ! OTHER_INDEX
      else result_tbl ! nat exit_no)"

definition get_dt :: "io_env \<Rightarrow> process \<Rightarrow> (string, process) run" where
  "get_dt env s =
     (case io_time env (p_tick s) of
        None \<Rightarrow> Exit 1 (perror ''error in localtime'' s)
      | Some tp \<Rightarrow> sprint 20 ''%04d%02d%02d''
          [AInt (tm_year tp + 1900), AInt (tm_mon tp + 1), AInt (tm_mday tp)] (ptick s))"

definition get_time :: "io_env \<Rightarrow> process \<Rightarrow> (string, process) run" where
  "get_time env s =
     (case io_time env (p_tick s) of
        None \<Rightarrow> Exit 1 (perror ''error in localtime'' s)
      | Some tp \<Rightarrow> sprint 32 ''%02d:%02d:%02d %llu''
          [AInt (tm_hour tp), AInt (tm_min tp), AInt (tm_sec tp), AInt (uint (io_hrtime env (p_tick s)))] (ptick s))"

text \<open>
  The printed identification of an assertion, in a static buffer of \<^verbatim>\<open>MAXCHAR\<close> bytes;
  \<open>None\<close> is a null pointer. A string that does not fit overruns the buffer.
\<close>

definition id_text :: "string \<Rightarrow> string option \<Rightarrow> string" where
  "id_text sub_id arg_id =
     (if sub_id \<noteq> [] then '':'' @ sub_id else []) @
     (case arg_id of None \<Rightarrow> [] | Some a \<Rightarrow> if a \<noteq> [] then ''('' @ a @ '')'' else [])"

definition build_id :: "string \<Rightarrow> string option \<Rightarrow> process \<Rightarrow> (string, process) run" where
  "build_id sub_id arg_id s = strcpy MAXCHAR (id_text sub_id arg_id) s"

definition vfile_mmap :: "io_env \<Rightarrow> process \<Rightarrow> jvptr \<times> process" where
  "vfile_mmap env s =
     (if p_jv s \<noteq> JV_NULL then (p_jv s, s)
      else case getenv VARFILE s of
          None \<Rightarrow> (JV_FAILED, s)
        | Some vfile \<Rightarrow>
            let (old_umask, s) = umask 0 s;
                (var_fd, s) = open_file env False vfile s
            in if var_fd = -1 then (JV_FAILED, snd (umask old_umask (perror ''vfile_mmap : open'' s)))
               else
                 let s = snd (umask old_umask s);
                     (jv, s) = mmap_fd env var_fd s;
                     s = s\<lparr>p_jv := jv\<rparr>
                 in if jv = JV_FAILED then (JV_FAILED, perror ''vfile_mmap : mmap'' s)
                    else (jv, snd (close_fd var_fd s)))"

section \<open>Start and end of a journal\<close>

definition pid_error :: "io_env \<Rightarrow> process \<Rightarrow> ('r, process) run" where
  "pid_error env s =
     seq (stf_jnl_open env s) (\<lambda>jnl_fd s.
     seq (write_fd env jnl_fd ''STF implementation does not handle getpid() > INT_MAX '' s) (\<lambda>r s.
     Exit 1 s))"

text \<open>The entry points that take the process id from the system pass it on, or give up.\<close>

definition with_pid :: "io_env \<Rightarrow> (int \<Rightarrow> process \<Rightarrow> ('r, process) run) \<Rightarrow> process \<Rightarrow> ('r, process) run" where
  "with_pid env f s = (if p_pid s \<le> INT_MAX then f (p_pid s) s else pid_error env s)"

text \<open>An error of \<^verbatim>\<open>stf_jnl_start_pid\<close>: a message for the user and a line in the journal.\<close>

definition start_failure :: "io_env \<Rightarrow> int \<Rightarrow> string \<Rightarrow> string \<Rightarrow> process \<Rightarrow> ('r, process) run" where
  "start_failure env jnl_fd tag msg s =
     seq (sprint (MAXCHAR + 2) (''%s'' @ msg @ ''\<newline>'') [AStr tag] s) (\<lambda>buffer s.
     seq (write_fd env jnl_fd buffer s) (\<lambda>r s. Exit 1 s))"

definition stdtag :: string where "stdtag = ''stderr| ''"

definition vf_init :: jvars where
  "vf_init = \<lparr>jvar_mlock = MX_Free, jasrt = ''?'', jsubid = [], jargid = [], jseq = 0, jblk = 0, jact = 0, jsubcnt = 0\<rparr>"

text \<open>The name of the variable file, chosen and put into the environment where there is none.\<close>

definition start_varfile :: "process \<Rightarrow> (string, process) run" where
  "start_varfile s =
     (case getenv VARFILE s of
        Some vfile \<Rightarrow> Ret vfile s
      | None \<Rightarrow>
          seq (sprint 40 ''%s%ld'' [AStr VARFNAME, AInt (p_pid s)] s) (\<lambda>vf_string s.
          seq (sprint 40 ''VARFILE=%s'' [AStr vf_string] s) (\<lambda>var_envname s.
          Ret vf_string (putenv var_envname s))))"

text \<open>Creating, initialising and mapping the variable file.\<close>

definition start_vars :: "io_env \<Rightarrow> int \<Rightarrow> string \<Rightarrow> process \<Rightarrow> (jvptr, process) run" where
  "start_vars env jnl_fd vfile s =
     (let (old_umask, s) = umask 0 s;
          (var_fd, s) = open_file env True vfile s
      in if var_fd = -1
         then start_failure env jnl_fd stdtag ''jnl_start: vfile_mmap error'' (perror ''jnl_start: vfile_mmap : open'' s)
         else
           let s = snd (umask old_umask s); e = io_mutex env (p_tick s); s = ptick s in
           if e \<noteq> 0
           then start_failure env jnl_fd stdtag ''jnl_start: mutex_init error'' (perror ''jnl_start: mutex_init '' s)
           else
             let (r, s) = write_vars env var_fd vf_init s in
             if r = -1
             then start_failure env jnl_fd [] ''jnl_start: write error'' (perror ''jnl_start: write '' s)
             else
               let (vfptr, s) = mmap_fd env var_fd s in
               if vfptr = JV_FAILED
               then start_failure env jnl_fd stdtag ''jnl_start: VARFILE mmap error'' (perror ''jnl_start: vfile_mmap : mmap'' s)
               else Ret vfptr (snd (close_fd var_fd s)))"

definition user_name :: "io_env \<Rightarrow> string" where
  "user_name env =
     (case io_login env of
        Some username \<Rightarrow> username
      | None \<Rightarrow> (case io_pwname env of None \<Rightarrow> ''unknown'' | Some pw_name \<Rightarrow> pw_name))"

definition stf_jnl_start_pid :: "io_env \<Rightarrow> int \<Rightarrow> process \<Rightarrow> (unit, process) run" where
  "stf_jnl_start_pid env pid s =
     seq (stf_jnl_open env s) (\<lambda>jnl_fd s.
     seq (start_varfile s) (\<lambda>vfile s.
     seq (start_vars env jnl_fd vfile s) (\<lambda>vfptr s.
     case io_uname env of
       None \<Rightarrow> start_failure env jnl_fd stdtag ''jnl_start: uname error'' s
     | Some unames \<Rightarrow>
         seq (get_dt env s) (\<lambda>dt s.
         seq (get_time env s) (\<lambda>time s.
         seq (case vfptr of JV i \<Rightarrow> vars_read i s | _ \<Rightarrow> Stuck) (\<lambda>v s.
         seq (sprint (MAXCHAR + 2) ''%s| %s %s (%ld) | tpi %1.1f | %s %d |\<newline>''
                [AStr JNL_START, AStr dt, AStr (user_name env), AInt (uint (io_uid env)), ATenths 14,
                 AStr time, AInt (uint (jact v))] s) (\<lambda>buffer s.
         seq (write_fd env jnl_fd buffer s) (\<lambda>r s.
         seq (sprint (MAXCHAR + 2) ''%s| %d %s %s %s %s %s |\<newline>''
                [AStr JNL_START, AInt pid, AStr (sysname unames), AStr (release unames), AStr (version unames),
                 AStr (machine unames), AStr (nodename unames)] s) (\<lambda>buffer s.
         seq (write_fd env jnl_fd buffer s) (\<lambda>r s. Ret () s))))))))))"

definition stf_jnl_start :: "io_env \<Rightarrow> process \<Rightarrow> (unit, process) run" where
  "stf_jnl_start env = with_pid env (stf_jnl_start_pid env)"

text \<open>One environment variable, if it is set.\<close>

definition env_entry :: "io_env \<Rightarrow> int \<Rightarrow> string \<Rightarrow> string option \<Rightarrow> process \<Rightarrow> (unit, process) run" where
  "env_entry env jnl_fd name value s =
     (case value of
        None \<Rightarrow> Ret () s
      | Some env_string \<Rightarrow>
          seq (sprint (MAXCHAR + 2) (''%s| '' @ name @ '' = %s |\<newline>'') [AStr JNL_ENV, AStr env_string] s)
            (\<lambda>buffer s. print_entry env buffer jnl_fd s))"

definition stf_jnl_env :: "io_env \<Rightarrow> process \<Rightarrow> (unit, process) run" where
  "stf_jnl_env env s =
     seq (stf_jnl_open env s) (\<lambda>jnl_fd s.
     seq (env_entry env jnl_fd ''STC_NAME'' (getenv ''STC_NAME'' s) s) (\<lambda>_ s.
     seq (env_entry env jnl_fd ''STC_VERSION'' (getenv ''STC_VERSION'' s) s) (\<lambda>_ s.
     seq (env_entry env jnl_fd ''STC_OS_VERSION'' (getenv ''STC_OS_VERSION'' s) s) (\<lambda>_ s.
     seq (env_entry env jnl_fd ''STF_EXECUTE_MODE'' (getenv ''STF_EXECUTE_MODE'' s) s) (\<lambda>_ s.
     seq (env_entry env jnl_fd ''cwd'' (io_cwd env) s) (\<lambda>_ s.
     Ret () (snd (stf_jnl_close jnl_fd s))))))))"

definition stf_jnl_end_pid :: "io_env \<Rightarrow> int \<Rightarrow> process \<Rightarrow> (unit, process) run" where
  "stf_jnl_end_pid env pid s =
     seq (stf_jnl_open env s) (\<lambda>jnl_fd s.
     seq (get_time env s) (\<lambda>time s.
     seq (sprint (MAXCHAR + 2) ''%s| %d %s |\<newline>'' [AStr JNL_END, AInt pid, AStr time] s) (\<lambda>buffer s.
     seq (write_fd env jnl_fd buffer s) (\<lambda>r s.
     let s = (case getenv VARFILE s of
                None \<Rightarrow> s
              | Some vfile \<Rightarrow>
                  let (r, s) = unlink env vfile s in
                  if r \<noteq> 0 then perror ''vfile unlink:'' s else s)
     in Ret () (snd (stf_jnl_close jnl_fd s))))))"

definition stf_jnl_end :: "io_env \<Rightarrow> process \<Rightarrow> (unit, process) run" where
  "stf_jnl_end env = with_pid env (stf_jnl_end_pid env)"

section \<open>Messages\<close>

definition stf_jnl_msg_pid :: "io_env \<Rightarrow> int \<Rightarrow> string \<Rightarrow> process \<Rightarrow> (unit, process) run" where
  "stf_jnl_msg_pid env pid msg s =
     seq (stf_jnl_open env s) (\<lambda>jnl_fd s.
     let msg = (if msg = [] then ''?'' else msg) in
     seq (sprint (MAXCHAR + 2) ''%s| %d | %s\<newline>'' [AStr JNL_MSG, AInt pid, AStr msg] s) (\<lambda>buffer s.
     seq (print_entry env buffer jnl_fd s) (\<lambda>_ s.
     Ret () (snd (stf_jnl_close jnl_fd s)))))"

definition stf_jnl_msg :: "io_env \<Rightarrow> string \<Rightarrow> process \<Rightarrow> (unit, process) run" where
  "stf_jnl_msg env msg = with_pid env (\<lambda>pid. stf_jnl_msg_pid env pid msg)"

definition harness_error :: "io_env \<Rightarrow> string \<Rightarrow> process \<Rightarrow> (unit, process) run" where
  "harness_error env errorbuf s =
     seq (stf_jnl_open env s) (\<lambda>jfd s.
     seq (sprint MAXCHAR ''XXX| STF harness error: %s\<newline>'' [AStr errorbuf] s) (\<lambda>printbuf s.
     seq (write_fd env jfd printbuf s) (\<lambda>r s.
     Ret () (snd (stf_jnl_close jfd s)))))"

section \<open>Test cases\<close>

text \<open>A change of the variable file between locking and unlocking its mutex; failures exit.\<close>

definition vars_locked ::
  "io_env \<Rightarrow> string \<Rightarrow> nat \<Rightarrow> (jvars \<Rightarrow> process \<Rightarrow> (jvars, process) run) \<Rightarrow> process \<Rightarrow> (unit, process) run" where
  "vars_locked env who i f s =
     seq (vars_lock env i s) (\<lambda>e s.
     if e \<noteq> 0 then Exit 1 (perror (who @ '': mutex_lock '') s)
     else
       seq (vars_read i s) (\<lambda>v s.
       seq (f v s) (\<lambda>v s.
       seq (vars_unlock env i (vars_put i v s)) (\<lambda>e s.
       if e \<noteq> 0 then Exit 1 (perror (who @ '': mutex_unlock '') s) else Ret () s))))"

text \<open>
  The assertion name is the line up to its first blank. A line without one is searched past its end.
\<close>

definition stf_jnl_testcase_start_pid :: "io_env \<Rightarrow> int \<Rightarrow> string \<Rightarrow> process \<Rightarrow> (unit, process) run" where
  "stf_jnl_testcase_start_pid env pid jnl_asrt_line s =
     seq (stf_jnl_open env s) (\<lambda>jnl_fd s.
     seq (strcpy MAXCHAR jnl_asrt_line s) (\<lambda>line s.
     if CHR '' '' \<notin> set line then Stuck
     else
       let jnl_asrt_name = takeWhile (\<lambda>c. c \<noteq> CHR '' '') line; (vfptr, s) = vfile_mmap env s in
       seq (case vfptr of
              JV i \<Rightarrow>
                seq (vars_read i s) (\<lambda>v s.
                seq (vars_locked env ''stf_jnl_testcase_start'' i
                       (\<lambda>v s. seq (strcpy 256 jnl_asrt_name s) (\<lambda>t s.
                               Ret (v\<lparr>jasrt := t, jseq := jseq v + 1\<rparr>) s)) s) (\<lambda>_ s.
                Ret (sint (jact v)) s))
            | _ \<Rightarrow> Ret (-1) s) (\<lambda>activity s.
       seq (get_time env s) (\<lambda>time s.
       seq (sprint (MAXCHAR + 2) ''%s| %d %s | %s %d |\<newline>''
              [AStr JNL_TESTCASE_START, AInt pid, AStr jnl_asrt_line, AStr time, AInt activity] s) (\<lambda>buffer s.
       seq (print_entry env buffer jnl_fd s) (\<lambda>_ s.
       Ret () (snd (stf_jnl_close jnl_fd s))))))))"

definition stf_jnl_testcase_start :: "io_env \<Rightarrow> string \<Rightarrow> process \<Rightarrow> (unit, process) run" where
  "stf_jnl_testcase_start env line = with_pid env (\<lambda>pid. stf_jnl_testcase_start_pid env pid line)"

definition WEXITSTATUS :: "u32 \<Rightarrow> int" where
  "WEXITSTATUS status = uint (drop_bit 8 status AND 0xFF)"

definition WTERMSIG :: "u32 \<Rightarrow> int" where
  "WTERMSIG status = uint (status AND 0x7F)"

text \<open>The result field of the entry that ends a test case, and the format it is printed with.\<close>

definition testcase_result :: "io_env \<Rightarrow> u32 \<Rightarrow> string \<times> arg list" where
  "testcase_result env status =
     (let charptr = get_status_name (WEXITSTATUS status); exitstatus = WEXITSTATUS status in
      if \<not> io_signaled env status
      then if exitstatus < STF_OTHER then (''%s'', [AStr charptr]) else (''%s_%d'', [AStr charptr, AInt exitstatus])
      else if exitstatus = STF_TIMED_OUT then (''%s %d'', [AStr charptr, AInt (WTERMSIG status)])
      else if exitstatus < STF_OTHER
      then (''%s %d'', [AStr (result_tbl ! NORESULT_INDEX), AInt (WTERMSIG status)])
      else (''%s_%d %d'', [AStr charptr, AInt exitstatus, AInt (WTERMSIG status)]))"

definition stf_jnl_testcase_end :: "io_env \<Rightarrow> string \<Rightarrow> int \<Rightarrow> u32 \<Rightarrow> process \<Rightarrow> (unit, process) run" where
  "stf_jnl_testcase_end env jnl_asrt_name child_pid status s =
     seq (stf_jnl_open env s) (\<lambda>jnl_fd s.
     let (vfptr, s) = vfile_mmap env s in
     seq (case vfptr of
            JV i \<Rightarrow>
              seq (vars_read i s) (\<lambda>v s.
              seq (vars_locked env ''stf_jnl_testcase_end'' i (\<lambda>v s. Ret (v\<lparr>jseq := jseq v + 1\<rparr>) s) s) (\<lambda>_ s.
              Ret (uint (jact v)) s))
          | _ \<Rightarrow> Ret (-1) s) (\<lambda>activity s.
     seq (get_time env s) (\<lambda>time s.
     let charptr = get_status_name (WEXITSTATUS status); (fmt, res) = testcase_result env status in
     seq (sprint (MAXCHAR + 2) (''%s| %d %s | '' @ fmt @ '' | %s %d |\<newline>'')
            ([AStr JNL_TESTCASE_END, AInt child_pid, AStr jnl_asrt_name] @ res @ [AStr time, AInt activity]) s) (\<lambda>buffer s.
     seq (print_entry env buffer jnl_fd s) (\<lambda>_ s.
     let s = snd (stf_jnl_close jnl_fd s) in
     Ret () (s\<lparr>p_stdout := p_stdout s @ charptr @ ''\<newline>''\<rparr>))))))"

section \<open>Assertions\<close>

definition stf_jnl_assert_start_pid :: "io_env \<Rightarrow> int \<Rightarrow> string \<Rightarrow> process \<Rightarrow> (unit, process) run" where
  "stf_jnl_assert_start_pid env pid subid s =
     seq (stf_jnl_open env s) (\<lambda>jnl_fd s.
     let (vfptr, s) = vfile_mmap env s in
     seq (case vfptr of
            JV i \<Rightarrow>
              seq (vars_locked env ''stf_jnl_assert_start'' i
                     (\<lambda>v s. seq (strcpy 256 subid s) (\<lambda>t s. Ret (v\<lparr>jsubid := t, jblk := 0, jseq := 0\<rparr>) s)) s) (\<lambda>_ s.
              seq (vars_read i s) (\<lambda>v s. Ret (sint (jact v), jasrt v, jargid v) s))
          | _ \<Rightarrow> Ret (-1, [], []) s) (\<lambda>(activity, asrt, argid) s.
     seq (build_id subid (Some argid) s) (\<lambda>id s.
     seq (get_time env s) (\<lambda>time s.
     seq (sprint (MAXCHAR + 2) ''%s| %d %s%s | %s %d |\<newline>''
            [AStr JNL_ASSERT_START, AInt pid, AStr asrt, AStr id, AStr time, AInt activity] s) (\<lambda>buffer s.
     seq (print_entry env buffer jnl_fd s) (\<lambda>_ s.
     Ret () (snd (stf_jnl_close jnl_fd s))))))))"

definition stf_jnl_assert_start :: "io_env \<Rightarrow> string \<Rightarrow> process \<Rightarrow> (unit, process) run" where
  "stf_jnl_assert_start env subid = with_pid env (\<lambda>pid. stf_jnl_assert_start_pid env pid subid)"

definition stf_jnl_assert_end_pid :: "io_env \<Rightarrow> int \<Rightarrow> int \<Rightarrow> process \<Rightarrow> (unit, process) run" where
  "stf_jnl_assert_end_pid env pid result s =
     seq (stf_jnl_open env s) (\<lambda>jnl_fd s.
     let (vfptr, s) = vfile_mmap env s in
     seq (case vfptr of
            JV i \<Rightarrow> seq (vars_read i s) (\<lambda>v s. Ret (sint (jact v), jasrt v, jsubid v, jargid v) s)
          | _ \<Rightarrow> Ret (-1, [], [], []) s) (\<lambda>(activity, asrt, sub_id, argid) s.
     seq (build_id sub_id (Some argid) s) (\<lambda>id s.
     seq (get_time env s) (\<lambda>time s.
     seq (sprint (MAXCHAR + 2) ''%s| %d %s%s | %s | %s %d |\<newline>''
            [AStr JNL_ASSERT_END, AInt pid, AStr asrt, AStr id, AStr (get_status_name result), AStr time, AInt activity] s) (\<lambda>buffer s.
     seq (print_entry env buffer jnl_fd s) (\<lambda>_ s.
     Ret () (snd (stf_jnl_close jnl_fd s))))))))"

definition stf_jnl_assert_end :: "io_env \<Rightarrow> int \<Rightarrow> process \<Rightarrow> (unit, process) run" where
  "stf_jnl_assert_end env result = with_pid env (\<lambda>pid. stf_jnl_assert_end_pid env pid result)"

section \<open>Totals\<close>

text \<open>
  The counts that are not zero, each with its name in a buffer of 20 bytes, appended to a string in
  an array of \<^verbatim>\<open>MAXCHAR\<close> bytes.
\<close>

fun totals_loop :: "nat \<Rightarrow> (nat \<Rightarrow> int) \<Rightarrow> string \<Rightarrow> process \<Rightarrow> (string, process) run" where
  "totals_loop 0 result_cts acc s = Ret acc s"
| "totals_loop (Suc k) result_cts acc s =
     (let i = nat STF_MAX_RESULTS - Suc k in
      if result_cts i = 0 then totals_loop k result_cts acc s
      else
        seq (sprint 20 '' %s:%d'' [AStr (result_tbl ! i), AInt (result_cts i)] s) (\<lambda>one_result s.
        seq (strcpy MAXCHAR (acc @ one_result) s) (\<lambda>acc s.
        totals_loop k result_cts acc s)))"

definition stf_jnl_totals_pid :: "io_env \<Rightarrow> int \<Rightarrow> string \<Rightarrow> (nat \<Rightarrow> int) \<Rightarrow> process \<Rightarrow> (unit, process) run" where
  "stf_jnl_totals_pid env pid id_name result_cts s =
     seq (stf_jnl_open env s) (\<lambda>jnl_fd s.
     let (vfptr, s) = vfile_mmap env s in
     seq (case vfptr of JV i \<Rightarrow> seq (vars_read i s) (\<lambda>v s. Ret (jasrt v) s) | _ \<Rightarrow> Ret [] s) (\<lambda>asrt s.
     seq (totals_loop (nat STF_MAX_RESULTS) result_cts [] s) (\<lambda>results s.
     seq (build_id id_name None s) (\<lambda>id s.
     seq (sprint (MAXCHAR + 2) ''%s| %d %s%s |%s\<newline>''
            [AStr JNL_TOTALS, AInt pid, AStr asrt, AStr id, AStr results] s) (\<lambda>buffer s.
     seq (print_entry env buffer jnl_fd s) (\<lambda>_ s.
     Ret () (snd (stf_jnl_close jnl_fd s))))))))"

definition stf_jnl_totals :: "io_env \<Rightarrow> string \<Rightarrow> (nat \<Rightarrow> int) \<Rightarrow> process \<Rightarrow> (unit, process) run" where
  "stf_jnl_totals env id_name result_cts = with_pid env (\<lambda>pid. stf_jnl_totals_pid env pid id_name result_cts)"

end
