(* ===== verification/Jnl_Model.thy ===== *)
theory Jnl_Model
  imports Jnl_Detail Stf_Journal HT_Table
begin

text \<open>
  The message library \<^verbatim>\<open>libjnl.c\<close>, as it is compiled with variadic macros
  (\<^verbatim>\<open>_STF_JNL_VARIADIC_MACROS\<close> is 1 in \<^verbatim>\<open>jnl_feature_test.h\<close>). It formats messages, cuts them
  into lines and hands them to \<^verbatim>\<open>stf_jnl_msg\<close> of \<^verbatim>\<open>libstf.c\<close>; every thread has four text
  buffers, which a hash table of \<^verbatim>\<open>libhashtable.c\<close> finds by the thread's number.
\<close>

section \<open>jnl_private.h and jnl_proto.h\<close>

definition jnl_message_title :: "string list" where
  "jnl_message_title = [''Operation'', ''Expected'', ''Error'', ''Action'']"

definition jnlBS_TOC :: nat where "jnlBS_TOC = 1024"
definition jnlBS_LOG :: nat where "jnlBS_LOG = 4096"
definition jnlBS_format :: nat where "jnlBS_format = 1024"
definition jnlBS_OPERATION :: nat where "jnlBS_OPERATION = 1024"
definition jnlBS_EXPECTED :: nat where "jnlBS_EXPECTED = 1024"
definition jnlBS_ERROR :: nat where "jnlBS_ERROR = 1024"
definition jnlBS_ACTION :: nat where "jnlBS_ACTION = 1024"

lemmas jnlBS_defs = jnlBS_TOC_def jnlBS_LOG_def jnlBS_format_def jnlBS_OPERATION_def jnlBS_EXPECTED_def
  jnlBS_ERROR_def jnlBS_ACTION_def

definition jnl_message_buffer_size :: "nat list" where
  "jnl_message_buffer_size = [jnlBS_OPERATION, jnlBS_EXPECTED, jnlBS_ERROR, jnlBS_ACTION]"

definition jnlDL_ENV_NAME :: string where "jnlDL_ENV_NAME = ''TJNL_DETAIL''"

definition jnlBI_MIN :: int where "jnlBI_MIN = 0"
definition jnlBI_OPERATION :: int where "jnlBI_OPERATION = 0"
definition jnlBI_EXPECTED :: int where "jnlBI_EXPECTED = 1"
definition jnlBI_ERROR :: int where "jnlBI_ERROR = 2"
definition jnlBI_ACTION :: int where "jnlBI_ACTION = 3"
definition jnlBI_MAX :: int where "jnlBI_MAX = 4"

lemmas jnlBI_defs = jnlBI_MIN_def jnlBI_OPERATION_def jnlBI_EXPECTED_def jnlBI_ERROR_def jnlBI_ACTION_def jnlBI_MAX_def

text \<open>The buffers of a thread; the pointers are addresses, 0 is the null pointer.\<close>

record jnl_buffer =
  jb_thread_id :: u32
  jb_buffer :: "u64 list"

section \<open>The state of the library\<close>

text \<open>
  The process the library runs in, the store of the hash table and the memory its keys live in, the
  two static variables \<^verbatim>\<open>jnl_toc\<close> and \<^verbatim>\<open>_jnlDL_\<close>, and the heap: the structures and
  text buffers that are allocated, and the first address that is free.
\<close>

record jnl_state =
  j_proc :: process
  j_ht :: world
  j_toc :: "addr ptr"
  j_dl :: int
  j_tick :: nat
  j_brk :: nat
  j_bufs :: "u64 \<rightharpoonup> jnl_buffer"
  j_text :: "u64 \<rightharpoonup> string"

text \<open>
  The surroundings: the system, the environment of the hash table, whether an allocation
  succeeds, where the heap ends,
  the name the compiler gives the source file, the error number \<^verbatim>\<open>atoi\<close> leaves, the thread that
  runs, the addresses of the parameter \<^verbatim>\<open>thread_id\<close> and of the local buffers on its stack, and the
  texts of the error numbers.
\<close>

record jnl_env =
  je_io :: io_env
  je_ht :: ht_env
  je_malloc :: "nat \<Rightarrow> bool"
  je_heap_end :: nat
  je_file :: string
  je_atoi_errno :: int
  je_self :: u32
  je_sp :: u64
  je_locals :: "u64 \<times> u64"
  je_strerror :: "int \<Rightarrow> string"

definition in_proc :: "(process \<Rightarrow> ('r, process) run) \<Rightarrow> jnl_state \<Rightarrow> ('r, jnl_state) run" where
  "in_proc f st =
     (case f (j_proc st) of
        Ret r p \<Rightarrow> Ret r (st\<lparr>j_proc := p\<rparr>)
      | Exit c p \<Rightarrow> Exit c (st\<lparr>j_proc := p\<rparr>)
      | Stuck \<Rightarrow> Stuck)"

definition in_ht :: "(world \<Rightarrow> ('r, world) outcome) \<Rightarrow> jnl_state \<Rightarrow> ('r, jnl_state) run" where
  "in_ht f st = (case f (j_ht st) of Some (r, w) \<Rightarrow> Ret r (st\<lparr>j_ht := w\<rparr>) | None \<Rightarrow> Stuck)"

definition jmsg :: "jnl_env \<Rightarrow> string \<Rightarrow> jnl_state \<Rightarrow> (unit, jnl_state) run" where
  "jmsg env msg = in_proc (stf_jnl_msg (je_io env) msg)"

definition jmalloc :: "jnl_env \<Rightarrow> nat \<Rightarrow> jnl_state \<Rightarrow> u64 \<times> jnl_state" where
  "jmalloc env n st =
     (let st' = st\<lparr>j_tick := Suc (j_tick st)\<rparr> in
      if je_malloc env (j_tick st) \<and> j_brk st + n \<le> je_heap_end env
      then (of_nat (j_brk st), st'\<lparr>j_brk := j_brk st + n\<rparr>) else (0, st'))"

text \<open>Storing a 32-bit integer, lowest byte first.\<close>

definition put_u32 :: "u64 \<Rightarrow> u32 \<Rightarrow> memory \<Rightarrow> memory" where
  "put_u32 a v mem = mem(a := ucast v, a + 1 := ucast (drop_bit 8 v), a + 2 := ucast (drop_bit 16 v),
     a + 3 := ucast (drop_bit 24 v))"

definition poke_u32 :: "u64 \<Rightarrow> u32 \<Rightarrow> jnl_state \<Rightarrow> jnl_state" where
  "poke_u32 a v st = st\<lparr>j_ht := (j_ht st)\<lparr>w_mem := put_u32 a v (w_mem (j_ht st))\<rparr>\<rparr>"

section \<open>Errors of the library itself\<close>

definition jnl_internal_error :: "jnl_env \<Rightarrow> int \<Rightarrow> string \<Rightarrow> arg list \<Rightarrow> jnl_state \<Rightarrow> (unit, jnl_state) run" where
  "jnl_internal_error env line format_string parms st =
     (case snprintf jnlBS_ERROR ''**** Error: (File %s, Line %d)\<newline>%s''
             [AStr (je_file env), AInt line, AStr format_string] of
        None \<Rightarrow> Stuck
      | Some (ret, fmt) \<Rightarrow>
          if ret < 0
          then jmsg env (''**** Error: jnl_internal_error():\<newline>'' @ ''snprintf() failed!\<newline>'' @
                 ''Could not format internal error message format string.'') st
          else case snprintf jnlBS_ERROR fmt parms of
                 None \<Rightarrow> Stuck
               | Some (ret, message) \<Rightarrow>
                   if ret < 0
                   then jmsg env (''**** Error: jnl_internal_error():\<newline>'' @ ''vsnprintf() failed!\<newline>'' @
                          ''Could not format internal error message.'') st
                   else jmsg env message st)"

section \<open>Detail levels\<close>

definition jnl_dl_fetch :: "jnl_state \<Rightarrow> int" where
  "jnl_dl_fetch st = j_dl st"

definition jnl_dl_check :: "int \<Rightarrow> jnl_state \<Rightarrow> bool" where
  "jnl_dl_check level st \<longleftrightarrow> level \<le> jnl_dl_fetch st"

text \<open>The digits at the front of a string; a number that is no \<^verbatim>\<open>int\<close> is undefined behaviour.\<close>

definition atoi :: "string \<Rightarrow> int option" where
  "atoi t = (let n = int (number_of 0 (takeWhile is_digit t)) in if n \<le> INT_MAX then Some n else None)"

definition init_detail :: "jnl_env \<Rightarrow> jnl_state \<Rightarrow> (unit, jnl_state) run" where
  "init_detail env st =
     (case getenv jnlDL_ENV_NAME (j_proc st) of
        None \<Rightarrow> Ret () st
      | Some detail_level_env \<Rightarrow>
          if detail_level_env \<noteq> [] \<and> is_digit (hd detail_level_env)
          then (case atoi detail_level_env of
                  None \<Rightarrow> Stuck
                | Some n \<Rightarrow>
                    let st = st\<lparr>j_dl := n\<rparr> in
                    if je_atoi_errno env \<noteq> 0
                    then seq (jnl_internal_error env 198 (''_jnl_DL_init_():\<newline>'' @ '' - atoi(%s) failed with error %d'')
                                [AStr detail_level_env, AInt (je_atoi_errno env)] st) (\<lambda>_ st. Exit 1 st)
                    else Ret () st)
          else (case jnl_dl_level_fetch detail_level_env of
                  None \<Rightarrow> Stuck
                | Some jnlDL \<Rightarrow>
                    if strcasecmp (dl_description jnlDL) detail_level_env = 0
                    then Ret () (st\<lparr>j_dl := dl_level jnlDL\<rparr>) else Ret () st))"

text \<open>The error message has four directives and three arguments.\<close>

definition jnl_init :: "jnl_env \<Rightarrow> jnl_state \<Rightarrow> (unit, jnl_state) run" where
  "jnl_init env st =
     seq (init_detail env st) (\<lambda>_ st.
     seq (in_ht (ht_create (je_ht env) (of_nat jnlBS_TOC) 4 0) st) (\<lambda>toc st.
     let st = st\<lparr>j_toc := toc\<rparr> in
     if toc = NULL
     then seq (jnl_internal_error env 224 (''_jnl_DL_init_():\<newline>'' @ '' - ht_create(%d, %d, %d) failed with error %d'')
                 [AInt (int jnlBS_TOC), AInt 4, AInt 0] st) (\<lambda>_ st. Exit 1 st)
     else Ret () st))"

section \<open>The buffers of a thread\<close>

text \<open>Giving back the structure at \<open>jnl\<close> and its text buffers.\<close>

definition free_buffers :: "u64 \<Rightarrow> u64 list \<Rightarrow> jnl_state \<Rightarrow> jnl_state" where
  "free_buffers jnl bs st =
     st\<lparr>j_text := (\<lambda>a. if a \<in> set bs then None else j_text st a), j_bufs := (j_bufs st)(jnl := None)\<rparr>"

text \<open>A text buffer; what a fresh one holds is not looked at.\<close>

definition malloc_text :: "jnl_env \<Rightarrow> nat \<Rightarrow> jnl_state \<Rightarrow> u64 \<times> jnl_state" where
  "malloc_text env n st =
     (let (a, st) = jmalloc env n st in (a, if a = 0 then st else st\<lparr>j_text := (j_text st)(a \<mapsto> [])\<rparr>))"

definition new_buffers :: "jnl_env \<Rightarrow> u32 \<Rightarrow> int \<Rightarrow> addr \<Rightarrow> jnl_state \<Rightarrow> (u64, jnl_state) run" where
  "new_buffers env thread_id index toc st =
     (let (jnl, st) = jmalloc env 40 st in
      if jnl = 0
      then seq (jnl_internal_error env 321 (''_jnl_buffer_fetch(%d, %d)\<newline>'' @ ''Failed to allocate message buffer toc.'')
                  [AInt (uint thread_id), AInt index] st) (\<lambda>_ st. Ret 0 st)
      else
        let (b0, st) = malloc_text env jnlBS_OPERATION st;
            (b1, st) = malloc_text env jnlBS_EXPECTED st;
            (b2, st) = malloc_text env jnlBS_ERROR st;
            (b3, st) = malloc_text env jnlBS_ACTION st;
            bs = [b0, b1, b2, b3];
            missing = filter (\<lambda>i. bs ! i = 0) [0..<4]
        in if missing \<noteq> []
           then seq (jnl_internal_error env 363 (''jnl_buffer_fetch(%d, %d)\<newline>'' @ ''Failed to allocate message buffer(%d).'')
                       [AInt (uint thread_id), AInt index, AInt (int (hd missing))] (free_buffers jnl bs st))
                  (\<lambda>_ st. Ret 0 st)
           else
             let st = poke_u32 jnl thread_id (st\<lparr>j_bufs := (j_bufs st)(jnl \<mapsto> \<lparr>jb_thread_id = thread_id, jb_buffer = bs\<rparr>)\<rparr>) in
             seq (in_ht (ht_insert_key (je_ht env) toc jnl jnl) st) (\<lambda>ret st.
             if ret \<noteq> 0
             then seq (jnl_internal_error env 395 (''_jnl_buffer_fetch(%d, %d)\<newline>'' @
                          ''ht_insert_key(%p, %p, %p) returned %d.\<newline>'' @ ''Could not insert new journal buffer group.'')
                         [AInt (uint thread_id), AInt index, AInt (int toc), AInt (uint jnl), AInt (uint jnl), AInt ret]
                         (free_buffers jnl bs st)) (\<lambda>_ st. Ret 0 st)
             else Ret jnl st))"

definition jnl_buffer_fetch :: "jnl_env \<Rightarrow> u32 \<Rightarrow> int \<Rightarrow> jnl_state \<Rightarrow> (u64, jnl_state) run" where
  "jnl_buffer_fetch env thread_id index st =
     (if index < jnlBI_MIN \<or> index \<ge> jnlBI_MAX
      then seq (jnl_internal_error env 272 (''_jnl_buffer_fetch(%d, %d)\<newline>'' @ ''Invalid buffer index passed.'')
                  [AInt (uint thread_id), AInt index] st) (\<lambda>_ st. Ret 0 st)
      else
        let st = poke_u32 (je_sp env) thread_id st in
        case j_toc st of
          NULL \<Rightarrow> Stuck
        | Ptr toc \<Rightarrow>
            seq (in_ht (ht_locate_key (je_ht env) toc (je_sp env)) st) (\<lambda>jnl st.
            seq (if jnl \<noteq> 0 then Ret jnl st
                 else if w_errno (j_ht st) \<noteq> ENOENT
                 then seq (jnl_internal_error env 297 (''_jnl_buffer_fetch(%d, %d)\<newline>'' @
                             ''ht_locate_key(%p, %p) failed.\<newline>'' @ ''errno = %d, %s'')
                             [AInt (uint thread_id), AInt index, AInt (int toc), AInt (uint (je_sp env)),
                              AInt (w_errno (j_ht st)), AStr (je_strerror env (w_errno (j_ht st)))] st) (\<lambda>_ st. Ret 0 st)
                 else new_buffers env thread_id index toc st) (\<lambda>jnl st.
            if jnl = 0 then Ret 0 st
            else case j_bufs st jnl of None \<Rightarrow> Stuck | Some b \<Rightarrow> Ret (jb_buffer b ! nat index) st)))"

section \<open>Logging\<close>

text \<open>
  The character at a position of a string in memory: its terminating null character counts, what is
  behind it is undefined.
\<close>

definition char_at :: "string \<Rightarrow> nat \<Rightarrow> char option" where
  "char_at t i = (if i < length t then Some (t ! i) else if i = length t then Some (CHR 0x00) else None)"

text \<open>The loop that hands the lines of the buffer to \<open>put\<close>, one message for each.\<close>

function split_loop :: "(string \<Rightarrow> 's \<Rightarrow> (unit, 's) run) \<Rightarrow> string \<Rightarrow> nat \<Rightarrow> nat \<Rightarrow> 's \<Rightarrow> (unit, 's) run" where
  "split_loop put buf p i st =
     (case char_at buf p of
        None \<Rightarrow> Stuck
      | Some c \<Rightarrow>
          if c = CHR 0x00 then Ret () st
          else case char_at buf i of
                 None \<Rightarrow> Stuck
               | Some d \<Rightarrow>
                   if d = NL \<or> d = CHR 0x00
                   then seq (if i = p then put '' '' st else put (take (i - p) (drop p buf)) st)
                          (\<lambda>_ st. split_loop put buf (i + (if d = CHR 0x00 then 0 else 1)) (Suc i) st)
                   else split_loop put buf p (Suc i) st)"
  by auto
termination
  by (relation "measure (\<lambda>(put, buf, p, i, st). Suc (length buf) - i)") (auto simp: char_at_def split: if_splits)

definition jnl_vlog :: "jnl_env \<Rightarrow> string \<Rightarrow> int \<Rightarrow> int \<Rightarrow> string \<Rightarrow> arg list \<Rightarrow> jnl_state \<Rightarrow> (int, jnl_state) run" where
  "jnl_vlog env file line level format_string args st =
     (if \<not> jnl_dl_check level st then Ret 0 st
      else case jnl_dl_description_fetch level of
             None \<Rightarrow> Stuck
           | Some jnlDL_desc \<Rightarrow>
               let fmt = (if dl_level jnlDL_desc = level then ''[ - %s (file: %s, line: %d) - ]\<newline>%s''
                          else ''[ - ~%s (file: %s, line: %d) - ]\<newline>%s'')
               in case snprintf jnlBS_format fmt
                         [AStr (dl_description jnlDL_desc), AStr file, AInt line, AStr format_string] of
                    None \<Rightarrow> Stuck
                  | Some (ret, format_buffer) \<Rightarrow>
                      (case snprintf jnlBS_LOG format_buffer args of
                         None \<Rightarrow> Stuck
                       | Some (ret, buf) \<Rightarrow>
                           if ret < 0
                           then seq (jnl_internal_error env 845 (''jnl_log_():\<newline>'' @
                                       ''vsnprintf(%p, %d, %p, ...) returned %d.\<newline>'' @ ''Could not format journal message.'')
                                       [AInt (uint (fst (je_locals env))), AInt (int jnlBS_LOG), AInt (uint (snd (je_locals env))), AInt ret] st) (\<lambda>_ st. Ret (-1) st)
                           else
                             seq (split_loop (jmsg env) buf 0 0 st) (\<lambda>_ st.
                             seq (jmsg env '' '' st) (\<lambda>_ st. Ret 0 st))))"

definition jnl_log :: "jnl_env \<Rightarrow> string \<Rightarrow> int \<Rightarrow> int \<Rightarrow> string \<Rightarrow> arg list \<Rightarrow> jnl_state \<Rightarrow> (int, jnl_state) run" where
  "jnl_log env file line level format_string args st = jnl_vlog env file line level format_string args st"

section \<open>Formatting into the buffers\<close>

definition jnl_vformat_message :: "jnl_env \<Rightarrow> int \<Rightarrow> string \<Rightarrow> arg list \<Rightarrow> jnl_state \<Rightarrow> (u64, jnl_state) run" where
  "jnl_vformat_message env index format_string args st =
     seq (jnl_buffer_fetch env (je_self env) index st) (\<lambda>message st.
     if message = 0
     then (if 0 \<le> index \<and> nat index < length jnl_message_title
           then seq (jnl_internal_error env 1201 (''jnl_format_message_():\<newline>'' @
                       ''_jnl_buffer_fetch(%d, %d) failed for %s buffer.'')
                       [AInt (uint (je_self env)), AInt index, AStr (jnl_message_title ! nat index)] st) (\<lambda>_ st. Ret 0 st)
           else Stuck)
     else
       case snprintf jnlBS_format ''%s:\<newline>- %s'' [AStr (jnl_message_title ! nat index), AStr format_string] of
         None \<Rightarrow> Stuck
       | Some (ret, format_buffer) \<Rightarrow>
           if ret < 0
           then seq (jnl_internal_error env 1225 (''jnl_format_message_():\<newline>'' @ ''snprintf() failed and returned %d.'')
                       [AInt ret] st) (\<lambda>_ st. Ret 0 st)
           else
             case snprintf (jnl_message_buffer_size ! nat index) format_buffer args of
               None \<Rightarrow> Stuck
             | Some (ret, text) \<Rightarrow>
                 let st = st\<lparr>j_text := (j_text st)(message \<mapsto> text)\<rparr> in
                 if ret < 0
                 then seq (jnl_internal_error env 1246 (''jnl_format_message_()\<newline>'' @
                             ''vsnprintf(%p, %d, %p, ...) returned %d.\<newline>'' @ ''Could not format message %d.'')
                             [AInt (uint message), AInt (int (jnl_message_buffer_size ! nat index)), AInt (uint (snd (je_locals env))), AInt ret, AInt index] st)
                        (\<lambda>_ st. Ret 0 st)
                 else Ret message st)"

definition jnl_format_message :: "jnl_env \<Rightarrow> int \<Rightarrow> string \<Rightarrow> arg list \<Rightarrow> jnl_state \<Rightarrow> (u64, jnl_state) run" where
  "jnl_format_message env index format_string args st = jnl_vformat_message env index format_string args st"

text \<open>A string argument from a buffer; a null pointer or one to memory that was freed is undefined.\<close>

definition text_arg :: "u64 \<Rightarrow> jnl_state \<Rightarrow> (arg, jnl_state) run" where
  "text_arg a st = (case j_text st a of Some t \<Rightarrow> Ret (AStr t) st | None \<Rightarrow> Stuck)"

text \<open>
  The macros of \<^verbatim>\<open>jnl_proto.h\<close>. A message on a level that is not admitted never looks at its
  arguments.
\<close>

definition jnl_DIAGNOSTIC :: "jnl_env \<Rightarrow> string \<Rightarrow> int \<Rightarrow> u64 \<Rightarrow> u64 \<Rightarrow> u64 \<Rightarrow> u64 \<Rightarrow> jnl_state \<Rightarrow> (int, jnl_state) run" where
  "jnl_DIAGNOSTIC env file line op ex err act st =
     (if \<not> jnl_dl_check jnlDL_DIAGNOSTIC st then jnl_log env file line jnlDL_DIAGNOSTIC ''%s\<newline>%s\<newline>%s\<newline>%s'' [] st
      else
        seq (text_arg op st) (\<lambda>a st.
        seq (text_arg ex st) (\<lambda>b st.
        seq (text_arg err st) (\<lambda>c st.
        seq (text_arg act st) (\<lambda>d st.
        jnl_log env file line jnlDL_DIAGNOSTIC ''%s\<newline>%s\<newline>%s\<newline>%s'' [a, b, c, d] st)))))"

definition jnl_ASSERTION :: "jnl_env \<Rightarrow> string \<Rightarrow> int \<Rightarrow> string \<Rightarrow> string \<Rightarrow> jnl_state \<Rightarrow> (int, jnl_state) run" where
  "jnl_ASSERTION env file line as inn st =
     jnl_log env file line jnlDL_ASSERTION
       (''ASSERTION:\<newline>'' @ ''- %s\<newline>'' @ ''DESCRIPTION:\<newline>'' @ ''- %s\<newline>'' @ ''INTERFACES:\<newline>'' @ ''- %s'')
       [AStr file, AStr as, AStr inn] st"

definition jnl_ASSERT :: "jnl_env \<Rightarrow> string \<Rightarrow> int \<Rightarrow> string \<Rightarrow> string \<Rightarrow> jnl_state \<Rightarrow> (int, jnl_state) run" where
  "jnl_ASSERT env file line aid as st =
     jnl_log env file line jnlDL_ASSERTION
       (''ASSERTION ID:\<newline>'' @ ''- %s\<newline>'' @ ''DESCRIPTION:\<newline>'' @ ''- %s'') [AStr aid, AStr as] st"

definition jnl_PROGRESS :: "jnl_env \<Rightarrow> string \<Rightarrow> int \<Rightarrow> string \<Rightarrow> arg list \<Rightarrow> jnl_state \<Rightarrow> (int, jnl_state) run" where
  "jnl_PROGRESS env file line fmt args st = jnl_log env file line jnlDL_PROGRESS fmt args st"

definition jnl_VERBOSE :: "jnl_env \<Rightarrow> string \<Rightarrow> int \<Rightarrow> string \<Rightarrow> arg list \<Rightarrow> jnl_state \<Rightarrow> (int, jnl_state) run" where
  "jnl_VERBOSE env file line fmt args st = jnl_log env file line jnlDL_VERBOSE fmt args st"

section \<open>Results\<close>

text \<open>
  A code above the table counts as \<^verbatim>\<open>OTHER\<close>; for one below it the library reports an error and the
  result \<^verbatim>\<open>NORESULT\<close>. The last error message has two directives and one argument. The order in which
  the four arguments of \<^verbatim>\<open>jnl_DIAGNOSTIC\<close> are evaluated is up to the compiler; here it is from left to
  right.
\<close>

definition result_named :: "jnl_env \<Rightarrow> string \<Rightarrow> int \<Rightarrow> int \<Rightarrow> jnl_state \<Rightarrow> (int, jnl_state) run" where
  "result_named env file line resultcode st =
     jnl_log env file line jnlDL_RESULT ''RESULT: %s'' [AStr (result_tbl ! nat resultcode)] st"

definition jnl_result :: "jnl_env \<Rightarrow> string \<Rightarrow> int \<Rightarrow> int \<Rightarrow> jnl_state \<Rightarrow> (int, jnl_state) run" where
  "jnl_result env file line resultcode st =
     (let resultcode = (if resultcode \<ge> STF_MAX_RESULTS then STF_OTHER else resultcode) in
      if resultcode < STF_PASS
      then
        seq (jnl_format_message env jnlBI_OPERATION ''jnl_RESULT(%d)'' [AInt resultcode] st) (\<lambda>op st.
        seq (jnl_format_message env jnlBI_EXPECTED ''%d <= result code <= %d.'' [AInt STF_PASS, AInt STF_OTHER] st) (\<lambda>ex st.
        seq (jnl_format_message env jnlBI_ERROR ''Result code out of range.'' [] st) (\<lambda>err st.
        seq (jnl_format_message env jnlBI_ACTION ''Report result of NORESULT.'' [] st) (\<lambda>act st.
        seq (jnl_DIAGNOSTIC env (je_file env) 1004 op ex err act st) (\<lambda>ret st.
        seq (if ret \<noteq> 0
             then jnl_internal_error env 1013 (''jnl_result_(... %d)\<newline>'' @ ''jnl_DIAGNOSTIC() returned %d'')
                    [AInt resultcode, AInt ret] st
             else Ret () st) (\<lambda>_ st.
        seq (result_named env file line STF_NORESULT st) (\<lambda>ret st.
        seq (if ret \<noteq> 0
             then jnl_internal_error env 1023 (''jnl_result_(..., %d)\<newline>'' @ ''jnl_result_(..., NORESULT) returned %d'')
                    [AInt ret] st
             else Ret () st) (\<lambda>_ st. Ret (-1) st))))))))
      else result_named env file line resultcode st)"

end
