(* ===== verification/Stf_Frame.thy ===== *)
theory Stf_Frame
  imports Stf_Journal
begin

text \<open>
  What the calls of \<^verbatim>\<open>libstf.c\<close> have in common: they open the journal, work on the process without
  touching it (\<open>still\<close>), write one entry and close it. The relations here describe these three
  parts, and \<open>logged\<close> what a whole call leaves.
\<close>

section \<open>The journal and a well-formed process\<close>

definition journal :: "process \<Rightarrow> string" where
  "journal s =
     (case getenv JNLNAME s of
        None \<Rightarrow> p_stdout s
      | Some p \<Rightarrow> (case p_dir s p of
                    None \<Rightarrow> []
                  | Some i \<Rightarrow> (case p_inodes s i of Some (Bytes b) \<Rightarrow> b | _ \<Rightarrow> [])))"

text \<open>
  Descriptor 1 is standard output, every name in the directory has an inode, no inode has a number
  that is still to be given out, and the journal, where it exists, is a file of bytes.
\<close>

definition proc_wf :: "process \<Rightarrow> bool" where
  "proc_wf s \<longleftrightarrow>
     map_of (p_fds s) 1 = Some Stdout \<and>
     (\<forall>i. p_next s \<le> i \<longrightarrow> p_inodes s i = None) \<and>
     (\<forall>p i. p_dir s p = Some i \<longrightarrow> p_inodes s i \<noteq> None) \<and>
     (\<forall>p i. getenv JNLNAME s = Some p \<longrightarrow> p_dir s p = Some i \<longrightarrow> (\<exists>b. p_inodes s i = Some (Bytes b)))"

text \<open>A system in which no call fails.\<close>

definition io_calm :: "io_env \<Rightarrow> bool" where
  "io_calm env \<longleftrightarrow>
     (\<forall>t. io_open env t \<and> io_mutex env t = 0 \<and> io_mmap env t \<and> io_unlink env t \<and> io_time env t \<noteq> None) \<and>
     (\<forall>t n. io_write env t n = int n) \<and> io_uname env \<noteq> None"

lemma io_calmD:
  assumes "io_calm env"
  shows "io_open env t" "io_mutex env t = 0" "io_mmap env t" "io_unlink env t" "io_time env t \<noteq> None"
    "io_write env t n = int n" "io_uname env \<noteq> None"
  using assms by (auto simp: io_calm_def)

lemma journal_updates [simp]:
  "journal (s\<lparr>p_fds := ds\<rparr>) = journal s" "journal (s\<lparr>p_tick := n\<rparr>) = journal s" "journal (s\<lparr>p_jv := j\<rparr>) = journal s"
  "getenv x (s\<lparr>p_fds := ds\<rparr>) = getenv x s" "getenv x (s\<lparr>p_tick := n\<rparr>) = getenv x s" "getenv x (s\<lparr>p_jv := j\<rparr>) = getenv x s"
  by (simp_all add: journal_def getenv_def split: option.splits)

section \<open>The journal is open\<close>

definition jnl_on :: "int \<Rightarrow> process \<Rightarrow> bool" where
  "jnl_on fd s \<longleftrightarrow>
     map_of (p_fds s) 1 = Some Stdout \<and>
     (case getenv JNLNAME s of
        None \<Rightarrow> fd = 1
      | Some p \<Rightarrow> 0 \<le> fd \<and> fd \<noteq> 1 \<and>
          (\<exists>i b. p_dir s p = Some i \<and> map_of (p_fds s) (nat fd) = Some (Inode i) \<and> p_inodes s i = Some (Bytes b)))"

text \<open>The descriptors that remain when the journal is closed.\<close>

definition fds_without :: "int \<Rightarrow> process \<Rightarrow> (nat \<times> fdesc) list" where
  "fds_without fd s = (if fd = 1 then p_fds s else filter (\<lambda>x. fst x \<noteq> nat fd) (p_fds s))"

text \<open>\<open>s1\<close> is \<open>s\<close> with the journal opened.\<close>

definition opened :: "process \<Rightarrow> int \<Rightarrow> process \<Rightarrow> bool" where
  "opened s fd s1 \<longleftrightarrow>
     jnl_on fd s1 \<and> proc_wf s1 \<and> journal s1 = journal s \<and> fds_without fd s1 = p_fds s \<and>
     p_env s1 = p_env s \<and> p_pid s1 = p_pid s \<and> p_stdout s1 = p_stdout s \<and> p_jv s1 = p_jv s \<and>
     p_umask s1 = p_umask s \<and> p_errs s1 = p_errs s \<and>
     (\<forall>i. vars_at i s1 = vars_at i s) \<and> (\<forall>p. p_dir s p \<noteq> None \<longrightarrow> p_dir s1 p = p_dir s p) \<and>
     (\<forall>p. getenv JNLNAME s \<noteq> Some p \<longrightarrow> p_dir s1 p = p_dir s p)"

text \<open>\<open>s'\<close> differs from \<open>s\<close> in the clock and in the variable files at most.\<close>

definition still :: "process \<Rightarrow> process \<Rightarrow> bool" where
  "still s s' \<longleftrightarrow>
     p_fds s' = p_fds s \<and> p_env s' = p_env s \<and> p_pid s' = p_pid s \<and> p_dir s' = p_dir s \<and> p_next s' = p_next s \<and>
     p_stdout s' = p_stdout s \<and> p_umask s' = p_umask s \<and> p_errs s' = p_errs s \<and>
     (\<forall>i b. p_inodes s i = Some (Bytes b) \<longrightarrow> p_inodes s' i = Some (Bytes b)) \<and>
     (\<forall>i. (p_inodes s' i = None) = (p_inodes s i = None))"

text \<open>\<open>s'\<close> is \<open>s\<close> with \<open>t\<close> written to the journal on \<open>fd\<close>, and the journal closed.\<close>

definition wrote :: "string \<Rightarrow> int \<Rightarrow> process \<Rightarrow> process \<Rightarrow> bool" where
  "wrote t fd s s' \<longleftrightarrow>
     journal s' = journal s @ t \<and> p_fds s' = fds_without fd s \<and> proc_wf s' \<and>
     p_env s' = p_env s \<and> p_pid s' = p_pid s \<and> p_dir s' = p_dir s \<and> p_jv s' = p_jv s \<and>
     p_umask s' = p_umask s \<and> p_errs s' = p_errs s \<and>
     (getenv JNLNAME s \<noteq> None \<longrightarrow> p_stdout s' = p_stdout s) \<and> (\<forall>i. vars_at i s' = vars_at i s)"

text \<open>A whole call: the journal has grown by \<open>t\<close>, everything but the variable files is as before.\<close>

definition logged :: "string \<Rightarrow> process \<Rightarrow> process \<Rightarrow> bool" where
  "logged t s s' \<longleftrightarrow>
     journal s' = journal s @ t \<and> p_fds s' = p_fds s \<and> proc_wf s' \<and>
     p_env s' = p_env s \<and> p_pid s' = p_pid s \<and> p_umask s' = p_umask s \<and> p_errs s' = p_errs s \<and>
     (getenv JNLNAME s \<noteq> None \<longrightarrow> p_stdout s' = p_stdout s) \<and>
     (\<forall>p. p_dir s p \<noteq> None \<longrightarrow> p_dir s' p = p_dir s p)"

lemma still_refl [simp]: "still s s"
  by (simp add: still_def)

lemma still_trans: "still s s' \<Longrightarrow> still s' s'' \<Longrightarrow> still s s''"
  by (simp add: still_def)

lemma still_tick [simp]: "still s (s\<lparr>p_tick := n\<rparr>)" "still s (s\<lparr>p_jv := j\<rparr>)"
  "still s (s\<lparr>p_tick := n, p_jv := j\<rparr>)"
  by (simp_all add: still_def)

lemma still_vars_put: "vars_at i s = Some v \<Longrightarrow> still s (vars_put i w s)"
  by (auto simp: still_def vars_put_def vars_at_def split: option.splits inode.splits)

lemma vars_at_put [simp]: "vars_at j (vars_put i w s) = (if j = i then Some w else vars_at j s)"
  by (simp add: vars_at_def vars_put_def)

lemma vars_at_tick [simp]: "vars_at i (s\<lparr>p_tick := n\<rparr>) = vars_at i s" "vars_at i (s\<lparr>p_jv := j\<rparr>) = vars_at i s"
  "vars_at i (s\<lparr>p_stdout := t\<rparr>) = vars_at i s"
  by (simp_all add: vars_at_def)

lemma still_journal:
  assumes "still s s'" "proc_wf s"
  shows "journal s' = journal s"
proof (cases "getenv JNLNAME s")
  case None
  then show ?thesis using assms by (simp add: journal_def still_def getenv_def)
next
  case (Some p)
  then show ?thesis using assms
  proof (cases "p_dir s p")
    case (Some i)
    then obtain b where "p_inodes s i = Some (Bytes b)" using assms(2) \<open>getenv JNLNAME s = Some p\<close> by (auto simp: proc_wf_def)
    then show ?thesis using assms(1) Some \<open>getenv JNLNAME s = Some p\<close> by (simp add: journal_def still_def getenv_def)
  qed (simp add: journal_def still_def getenv_def)
qed

lemma still_wf: "still s s' \<Longrightarrow> proc_wf s \<Longrightarrow> proc_wf s'"
  unfolding still_def proc_wf_def getenv_def by metis

lemma still_jnl_on: "still s s' \<Longrightarrow> jnl_on fd s \<Longrightarrow> jnl_on fd s'"
  unfolding still_def jnl_on_def getenv_def by (auto split: option.splits)

text \<open>The three parts of a call make the whole.\<close>

lemma logged_parts:
  assumes "opened s fd s1" "still s1 s2" "wrote t fd s2 s'"
  shows "logged t s s'" "\<And>i. vars_at i s' = vars_at i s2" "\<And>i. vars_at i s1 = vars_at i s" "p_jv s' = p_jv s2" "p_jv s1 = p_jv s"
proof -
  have "fds_without fd s2 = fds_without fd s1" using assms(2) by (simp add: still_def fds_without_def)
  moreover have "journal s2 = journal s" using still_journal [OF assms(2)] assms(1) by (simp add: opened_def)
  ultimately show "logged t s s'" using assms
    by (auto simp: logged_def opened_def still_def wrote_def getenv_def)
qed (use assms in \<open>auto simp: opened_def wrote_def\<close>)

section \<open>Opening\<close>

lemma lowest_free_notin:
  "card {x \<in> set used. k \<le> x} \<le> n \<Longrightarrow> lowest_free used n k \<notin> set used"
proof (induction n arbitrary: k)
  case 0
  then have "{x \<in> set used. k \<le> x} = {}" by simp
  then show ?case by auto
next
  case (Suc n)
  show ?case
  proof (cases "k \<in> set used")
    case True
    have "{x \<in> set used. k \<le> x} = insert k {x \<in> set used. Suc k \<le> x}" using True by (auto simp: Suc_le_eq order_le_less)
    then have "card {x \<in> set used. Suc k \<le> x} \<le> n" using Suc.prems by simp
    then show ?thesis using Suc.IH True by simp
  qed simp
qed

lemma fresh_fd_new: "fresh_fd s \<notin> fst ` set (p_fds s)"
proof -
  have "card {x \<in> set (map fst (p_fds s)). 0 \<le> x} \<le> length (map fst (p_fds s))"
    using card_length [of "map fst (p_fds s)"] by simp
  then show ?thesis using lowest_free_notin [of "map fst (p_fds s)" 0] by (simp add: fresh_fd_def)
qed

lemma filter_fresh: "filter (\<lambda>x. fst x \<noteq> fresh_fd s) (p_fds s) = p_fds s"
  using fresh_fd_new [of s] by (force simp: filter_id_conv)

lemma fresh_fd_not_1: "map_of (p_fds s) 1 = Some Stdout \<Longrightarrow> fresh_fd s \<noteq> 1"
  using fresh_fd_new [of s] by (metis map_of_SomeD image_eqI fst_conv)

lemma stf_jnl_open_ok:
  assumes "io_calm env" "proc_wf s"
  shows "returns (stf_jnl_open env s) (opened s)"
proof (cases "getenv JNLNAME s")
  case None
  then show ?thesis using assms
    by (simp add: stf_jnl_open_def opened_def jnl_on_def fds_without_def proc_wf_def)
next
  case (Some p)
  have op: "io_open env t" for t using assms(1) by (rule io_calmD)
  have n1: "fresh_fd s \<noteq> 1" using assms(2) by (intro fresh_fd_not_1) (simp add: proc_wf_def)
  have new: "p_inodes s (p_next s) = None" using assms(2) by (simp add: proc_wf_def)
  show ?thesis
  proof (cases "p_dir s p")
    case None
    show ?thesis using Some None op n1 new assms(2) filter_fresh [of s]
      by (auto simp: stf_jnl_open_def open_file_def opened_def jnl_on_def fds_without_def proc_wf_def
          journal_def getenv_def vars_at_def Let_def)
  next
    case (Some i)
    then obtain b where "p_inodes s i = Some (Bytes b)" using assms(2) \<open>getenv JNLNAME s = Some p\<close> by (auto simp: proc_wf_def)
    then show ?thesis using Some \<open>getenv JNLNAME s = Some p\<close> op n1 assms(2) filter_fresh [of s]
      by (auto simp: stf_jnl_open_def open_file_def opened_def jnl_on_def fds_without_def proc_wf_def
          journal_def getenv_def vars_at_def Let_def)
  qed
qed

section \<open>Writing\<close>

lemma write_fd_journal:
  assumes "io_calm env" "jnl_on fd s" "proc_wf s"
  shows "returns (write_fd env fd t s) (\<lambda>r s'. jnl_on fd s' \<and> fds_without fd s' = fds_without fd s \<and>
    journal s' = journal s @ t \<and> proc_wf s' \<and> p_env s' = p_env s \<and> p_pid s' = p_pid s \<and> p_dir s' = p_dir s \<and>
    p_jv s' = p_jv s \<and> p_umask s' = p_umask s \<and> p_errs s' = p_errs s \<and> p_fds s' = p_fds s \<and>
    (getenv JNLNAME s \<noteq> None \<longrightarrow> p_stdout s' = p_stdout s) \<and> (\<forall>i. vars_at i s' = vars_at i s))"
proof -
  note wr = io_calmD(6) [OF assms(1)]
  show ?thesis
  proof (cases "getenv JNLNAME s")
    case None
    then show ?thesis using assms(2,3) wr
      by (auto simp: write_fd_def jnl_on_def Let_def fds_without_def journal_def getenv_def proc_wf_def vars_at_def)
  next
    case (Some p)
    then obtain i b where "0 \<le> fd" "fd \<noteq> 1" "p_dir s p = Some i" "map_of (p_fds s) (nat fd) = Some (Inode i)"
      "p_inodes s i = Some (Bytes b)" "map_of (p_fds s) 1 = Some Stdout"
      using assms(2) by (auto simp: jnl_on_def)
    then show ?thesis using assms(3) Some wr
      by (auto simp: write_fd_def jnl_on_def Let_def fds_without_def journal_def getenv_def proc_wf_def vars_at_def)
  qed
qed

lemma close_journal:
  assumes "jnl_on fd s" "proc_wf s"
  shows "p_fds (snd (stf_jnl_close fd s)) = fds_without fd s" "journal (snd (stf_jnl_close fd s)) = journal s"
    "proc_wf (snd (stf_jnl_close fd s))"
    "\<exists>ds. snd (stf_jnl_close fd s) = s\<lparr>p_fds := ds\<rparr>"
proof -
  have "map_of (p_fds s) (nat fd) \<noteq> None" if "fd \<noteq> 1"
    using assms(1) that by (auto simp: jnl_on_def split: option.splits)
  then have "nat fd \<in> fst ` set (p_fds s)" if "fd \<noteq> 1" using that by (simp add: map_of_eq_None_iff)
  moreover have "0 \<le> fd" using assms(1) by (auto simp: jnl_on_def split: option.splits)
  ultimately have eq: "snd (stf_jnl_close fd s) = s\<lparr>p_fds := fds_without fd s\<rparr>"
    by (auto simp: stf_jnl_close_def close_fd_def fds_without_def)
  have one: "map_of (fds_without fd s) 1 = Some Stdout"
  proof (cases "fd = 1")
    case False
    have "map_of (filter (\<lambda>x. fst x \<noteq> nat fd) xs) 1 = map_of xs 1" for xs :: "(nat \<times> fdesc) list"
      using False \<open>0 \<le> fd\<close> by (induction xs) auto
    then show ?thesis using assms(1) False by (simp add: fds_without_def jnl_on_def)
  qed (use assms(1) in \<open>simp add: fds_without_def jnl_on_def\<close>)
  show "p_fds (snd (stf_jnl_close fd s)) = fds_without fd s" "journal (snd (stf_jnl_close fd s)) = journal s"
    "\<exists>ds. snd (stf_jnl_close fd s) = s\<lparr>p_fds := ds\<rparr>"
    using eq by auto
  show "proc_wf (snd (stf_jnl_close fd s))" using assms(2) one by (simp add: eq proc_wf_def getenv_def)
qed

lemma wrote_ok:
  assumes "io_calm env" "jnl_on fd s" "proc_wf s"
  shows "returns (seq (write_fd env fd t s) (\<lambda>r s. Ret () (snd (stf_jnl_close fd s)))) (\<lambda>_. wrote t fd s)"
proof -
  show ?thesis unfolding returns_seq
  proof (rule returns_mono [OF write_fd_journal [OF assms, of t]])
    fix r s'
    assume A: "jnl_on fd s' \<and> fds_without fd s' = fds_without fd s \<and>
      journal s' = journal s @ t \<and> proc_wf s' \<and> p_env s' = p_env s \<and> p_pid s' = p_pid s \<and> p_dir s' = p_dir s \<and>
      p_jv s' = p_jv s \<and> p_umask s' = p_umask s \<and> p_errs s' = p_errs s \<and> p_fds s' = p_fds s \<and>
      (getenv JNLNAME s \<noteq> None \<longrightarrow> p_stdout s' = p_stdout s) \<and> (\<forall>i. vars_at i s' = vars_at i s)"
    then obtain ds where ds: "snd (stf_jnl_close fd s') = s'\<lparr>p_fds := ds\<rparr>" using close_journal(4) by blast
    show "returns (Ret () (snd (stf_jnl_close fd s'))) (\<lambda>_. wrote t fd s)"
      using A close_journal(1-3) [of fd s'] by (simp add: wrote_def) (simp add: ds vars_at_def)
  qed
qed

lemma entry_ok:
  assumes "io_calm env" "jnl_on fd s" "proc_wf s"
  shows "returns (seq (print_entry env t fd s) (\<lambda>_ s. Ret () (snd (stf_jnl_close fd s)))) (\<lambda>_. wrote t fd s)"
  using wrote_ok [OF assms] by (simp add: print_entry_def returns_seq)

section \<open>The parts in between\<close>

definition time_text :: "io_env \<Rightarrow> nat \<Rightarrow> string" where
  "time_text env t =
     (case io_time env t of
        None \<Rightarrow> []
      | Some tp \<Rightarrow>
          (case snprintf 32 ''%02d:%02d:%02d %llu''
             [AInt (tm_hour tp), AInt (tm_min tp), AInt (tm_sec tp), AInt (uint (io_hrtime env t))] of
             None \<Rightarrow> [] | Some (r, b) \<Rightarrow> b))"

lemma get_time_ok:
  assumes "io_calm env"
  shows "get_time env s = Ret (time_text env (p_tick s)) (ptick s)"
  using io_calmD(5) [OF assms, of "p_tick s"]
  by (auto simp: get_time_def time_text_def sprint_def snprintf_def fmt)

lemma sprint_ok: "format fmt args = Some t \<Longrightarrow> sprint n fmt args s = Ret (take (n - 1) t) s"
  by (simp add: sprint_def snprintf_def)

text \<open>The variable file of the process: mapped already, or named by the environment.\<close>

definition vars_ready :: "nat \<Rightarrow> process \<Rightarrow> bool" where
  "vars_ready i s \<longleftrightarrow>
     (p_jv s = JV i \<or> p_jv s = JV_NULL \<and> (\<exists>p. getenv VARFILE s = Some p \<and> p_dir s p = Some i)) \<and>
     (\<exists>v. vars_at i s = Some v \<and> jvar_mlock v = MX_Free)"

lemma vfile_mmap_ok:
  assumes "io_calm env" "vars_ready i s"
  shows "\<exists>n. vfile_mmap env s = (JV i, s\<lparr>p_tick := n, p_jv := JV i\<rparr>)"
proof (cases "p_jv s = JV i")
  case True
  then have "vfile_mmap env s = (JV i, s\<lparr>p_tick := p_tick s, p_jv := JV i\<rparr>)" by (simp add: vfile_mmap_def)
  then show ?thesis ..
next
  case False
  then obtain p where "p_jv s = JV_NULL" "getenv VARFILE s = Some p" "p_dir s p = Some i"
    using assms(2) by (auto simp: vars_ready_def)
  moreover have "io_open env t" "io_mmap env t" for t using assms(1) by (auto dest: io_calmD)
  moreover have "filter (\<lambda>x. fst x \<noteq> fresh_fd s) (p_fds s) = p_fds s" by (rule filter_fresh)
  moreover have "fresh_fd (s\<lparr>p_umask := 0\<rparr>) = fresh_fd s" by (simp add: fresh_fd_def)
  ultimately have "vfile_mmap env s = (JV i, s\<lparr>p_tick := Suc (Suc (p_tick s)), p_jv := JV i\<rparr>)"
    by (simp add: vfile_mmap_def getenv_def umask_def open_file_def mmap_fd_def close_fd_def Let_def)
  then show ?thesis ..
qed

text \<open>No variable file is known: nothing is mapped, and the values default.\<close>

definition vars_absent :: "process \<Rightarrow> bool" where
  "vars_absent s \<longleftrightarrow> p_jv s = JV_FAILED \<or> p_jv s = JV_NULL \<and> getenv VARFILE s = None"

lemma vfile_mmap_absent: "vars_absent s \<Longrightarrow> vfile_mmap env s = (JV_FAILED, s)"
  by (auto simp: vars_absent_def vfile_mmap_def)

text \<open>A change of the variables under their lock, which is free afterwards.\<close>

lemma vars_locked_ok:
  assumes "io_calm env" "vars_at i s = Some v" "jvar_mlock v = MX_Free"
    and f: "\<And>s. f (v\<lparr>jvar_mlock := MX_Held\<rparr>) s = Ret (w\<lparr>jvar_mlock := MX_Held\<rparr>) s" and w: "jvar_mlock w = MX_Free"
  shows "returns (vars_locked env who i f s) (\<lambda>_ s'. still s s' \<and> p_jv s' = p_jv s \<and>
    (\<forall>j. vars_at j s' = (if j = i then Some w else vars_at j s)))"
proof -
  have "w\<lparr>jvar_mlock := MX_Free\<rparr> = w" using w by (cases w) simp
  moreover have "still s (vars_put i w (vars_put i w' (vars_put i w'' s)))" for w' w''
    by (meson assms(2) still_trans still_vars_put vars_at_put)
  ultimately show ?thesis using assms(2,3) f io_calmD(2) [OF assms(1)]
    by (auto simp: vars_locked_def vars_lock_def vars_unlock_def vars_read_def Let_def vars_put_def vars_at_def still_def)
qed

end
