(* ===== verification/Lines.thy ===== *)
theory Lines
  imports CLib
begin

text \<open>
  Text as lines. \<open>jlines\<close> cuts a text at its newlines; a last line without one counts. The
  journal's readers see the journal this way, and \<^verbatim>\<open>jnl_vlog_\<close> cuts its messages the same way.
\<close>

function jlines :: "string \<Rightarrow> string list" where
  "jlines t = (if t = [] then [] else takeWhile (\<lambda>c. c \<noteq> NL) t # jlines (tl (dropWhile (\<lambda>c. c \<noteq> NL) t)))"
  by auto
termination
proof (relation "measure length")
  fix t :: string
  assume "t \<noteq> []"
  then have "length (dropWhile (\<lambda>c. c \<noteq> NL) t) - 1 < length t"
    using length_dropWhile_le [of "\<lambda>c. c \<noteq> NL" t] by (cases t) auto
  then show "(tl (dropWhile (\<lambda>c. c \<noteq> NL) t), t) \<in> measure length" by simp
qed simp

declare jlines.simps [simp del]

lemma jlines_Nil [simp]: "jlines [] = []"
  by (subst jlines.simps) simp

lemma jlines_line [simp]: "NL \<notin> set l \<Longrightarrow> jlines (l @ NL # t) = l # jlines t"
  by (subst jlines.simps) (simp add: takeWhile_append dropWhile_append)

lemma jlines_last: "NL \<notin> set l \<Longrightarrow> l \<noteq> [] \<Longrightarrow> jlines l = [l]"
proof -
  assume l: "NL \<notin> set l" "l \<noteq> []"
  then have eqs: "takeWhile (\<lambda>c. c \<noteq> NL) l = l" "dropWhile (\<lambda>c. c \<noteq> NL) l = []"
    by (auto simp: takeWhile_eq_all_conv dropWhile_eq_Nil_conv)
  show ?thesis by (subst jlines.simps) (simp only: eqs list.sel jlines_Nil l if_False)
qed

lemma jlines_no_newline: "l \<in> set (jlines t) \<Longrightarrow> NL \<notin> set l"
proof (induction t rule: jlines.induct)
  case (1 t)
  then show ?case
    by (subst (asm) (2) jlines.simps) (auto split: if_splits dest: set_takeWhileD)
qed

text \<open>A text is whole when its last line is terminated.\<close>

definition whole :: "string \<Rightarrow> bool" where
  "whole t \<longleftrightarrow> t = [] \<or> last t = NL"

lemma whole_Nil [simp]: "whole []"
  by (simp add: whole_def)

lemma whole_append: "whole u \<Longrightarrow> whole t \<Longrightarrow> whole (t @ u)"
  by (cases "u = []") (simp_all add: whole_def)

lemma split_newline: "NL \<in> set t \<Longrightarrow> t = takeWhile (\<lambda>c. c \<noteq> NL) t @ NL # tl (dropWhile (\<lambda>c. c \<noteq> NL) t)"
  by (induction t) auto

lemma jlines_append: "whole t \<Longrightarrow> jlines (t @ u) = jlines t @ jlines u"
proof (induction t rule: jlines.induct)
  case (1 t)
  show ?case
  proof (cases "t = []")
    case False
    then have "NL \<in> set t" using 1(2) last_in_set [of t] by (simp add: whole_def)
    then obtain l r where t: "t = l @ NL # r" "NL \<notin> set l" "r = tl (dropWhile (\<lambda>c. c \<noteq> NL) t)"
      using split_newline [of t] by (metis (mono_tags, lifting) set_takeWhileD)
    have "whole r" using 1(2) t(1) by (cases "r = []") (simp_all add: whole_def)
    then have "jlines (r @ u) = jlines r @ jlines u" using 1(1) [OF False] unfolding t(3) by blast
    then show ?thesis using t(2) by (simp add: t(1))
  qed simp
qed

lemma jlines_concat:
  "(\<And>x. x \<in> set xs \<Longrightarrow> whole x) \<Longrightarrow> whole t \<Longrightarrow> jlines (t @ concat xs) = jlines t @ concat (map jlines xs)"
  by (induction xs arbitrary: t) (auto simp: jlines_append whole_append simp flip: append_assoc)

lemma whole_concat: "(\<And>x. x \<in> set xs \<Longrightarrow> whole x) \<Longrightarrow> whole t \<Longrightarrow> whole (t @ concat xs)"
  by (induction xs arbitrary: t) (auto simp: whole_append simp flip: append_assoc)

end
