(* ===== verification/Sink.thy ===== *)
theory Sink
  imports Lines Stf_Sys
begin

text \<open>
  The interface between the library that formats messages (\<^verbatim>\<open>libjnl\<close>) and the one that records
  them (\<^verbatim>\<open>libstf\<close>): a call records one message as one entry behind what was recorded before.
\<close>

text \<open>Recording several messages one after the other.\<close>

fun put_all :: "(string \<Rightarrow> 's \<Rightarrow> (unit, 's) run) \<Rightarrow> string list \<Rightarrow> 's \<Rightarrow> (unit, 's) run" where
  "put_all put [] s = Ret () s"
| "put_all put (m # ms) s = seq (put m s) (\<lambda>_ s. put_all put ms s)"

lemma put_all_append: "put_all put (ms @ ns) s = seq (put_all put ms s) (\<lambda>_ s. put_all put ns s)"
proof (induction ms arbitrary: s)
  case (Cons m ms)
  then show ?case by (cases "put m s") simp_all
qed simp

locale sink =
  fixes put :: "string \<Rightarrow> 's \<Rightarrow> (unit, 's) run"
    and recorded :: "'s \<Rightarrow> string"
    and entry :: "'s \<Rightarrow> string \<Rightarrow> string"
    and good :: "'s \<Rightarrow> bool"
    and same :: "'s \<Rightarrow> 's \<Rightarrow> bool"
  assumes put_ok: "good s \<Longrightarrow> returns (put m s) (\<lambda>_ s'. recorded s' = recorded s @ entry s m \<and> good s' \<and> same s s')"
    and same_entry: "same s s' \<Longrightarrow> entry s' m = entry s m"
    and same_refl: "same s s"
    and same_trans: "same s s' \<Longrightarrow> same s' s'' \<Longrightarrow> same s s''"
begin

lemma put_all_ok:
  "good s \<Longrightarrow> returns (put_all put ms s) (\<lambda>_ s'. recorded s' = recorded s @ concat (map (entry s) ms) \<and> good s' \<and> same s s')"
proof (induction ms arbitrary: s)
  case Nil
  then show ?case by (simp add: same_refl)
next
  case (Cons m ms)
  show ?case unfolding put_all.simps returns_seq
  proof (rule returns_mono [OF put_ok [OF Cons.prems, of m]])
    fix r s'
    assume A: "recorded s' = recorded s @ entry s m \<and> good s' \<and> same s s'"
    then have eq: "entry s' = entry s" using same_entry by blast
    show "returns (put_all put ms s')
        (\<lambda>_ s''. recorded s'' = recorded s @ concat (map (entry s) (m # ms)) \<and> good s'' \<and> same s s'')"
      using A by (intro returns_mono [OF Cons.IH [of s']]) (auto simp: eq intro: same_trans)
  qed
qed

text \<open>Entries that are one line each can be read back line by line.\<close>

lemma put_all_lines:
  assumes "good s" "whole (recorded s)" "\<And>m. m \<in> set ms \<Longrightarrow> entry s m = line m @ [NL] \<and> NL \<notin> set (line m)"
  shows "returns (put_all put ms s) (\<lambda>_ s'. jlines (recorded s') = jlines (recorded s) @ map line ms \<and>
           whole (recorded s') \<and> good s' \<and> same s s')"
proof (rule returns_mono [OF put_all_ok [OF assms(1), of ms]])
  fix r s'
  assume A: "recorded s' = recorded s @ concat (map (entry s) ms) \<and> good s' \<and> same s s'"
  have w: "whole x" if "x \<in> set (map (entry s) ms)" for x using that assms(3) by (auto simp: whole_def)
  have "map jlines (map (entry s) ms) = map (\<lambda>m. [line m]) ms" using assms(3) by simp
  then have "concat (map jlines (map (entry s) ms)) = map line ms"
    by (metis concat_map_singleton)
  moreover have "jlines (recorded s @ concat (map (entry s) ms)) =
      jlines (recorded s) @ concat (map jlines (map (entry s) ms))" using w assms(2) by (rule jlines_concat)
  moreover have "whole (recorded s @ concat (map (entry s) ms))" using w assms(2) by (rule whole_concat)
  ultimately show "jlines (recorded s') = jlines (recorded s) @ map line ms \<and> whole (recorded s') \<and> good s' \<and> same s s'"
    using A by simp
qed

end

end
