(* ===== verification/Stf_Calls.thy ===== *)
theory Stf_Calls
  imports Stf_Frame Sink
begin

text \<open>
  What each call of \<^verbatim>\<open>libstf.c\<close> does in a system without failures: the entry it writes, and the
  variables it changes. The entries are given as the texts the formats make; the buffer cuts them at
  \<^verbatim>\<open>MAXCHAR + 1\<close> characters.
\<close>

abbreviation cut :: "string \<Rightarrow> string" where
  "cut t \<equiv> take (MAXCHAR + 1) t"

lemma openedD:
  assumes "opened s fd s1"
  shows "jnl_on fd s1" "proc_wf s1" "p_pid s1 = p_pid s" "p_jv s1 = p_jv s" "p_env s1 = p_env s" "vars_at i s1 = vars_at i s"
    "p_stdout s1 = p_stdout s"
  using assms by (auto simp: opened_def)

lemma opened_vars_ready:
  assumes "opened s fd s1" "vars_ready i s"
  shows "vars_ready i s1"
  using assms by (auto simp: vars_ready_def opened_def getenv_def)

lemma opened_vars_absent: "opened s fd s1 \<Longrightarrow> vars_absent s \<Longrightarrow> vars_absent s1"
  by (auto simp: vars_absent_def opened_def getenv_def)

text \<open>The end of a call, from a state that the work before left.\<close>

lemma finish_call:
  assumes "io_calm env" "opened s fd s1" "still s1 s2"
  shows "returns (seq (print_entry env t fd s2) (\<lambda>_ s. Ret () (snd (stf_jnl_close fd s))))
    (\<lambda>_ s'. logged t s s' \<and> (\<forall>i. vars_at i s' = vars_at i s2) \<and> p_jv s' = p_jv s2)"
proof -
  have on: "jnl_on fd s2" "proc_wf s2"
    using openedD [OF assms(2)] still_jnl_on [OF assms(3)] still_wf [OF assms(3)] by auto
  show ?thesis using logged_parts [OF assms(2,3)]
    by (auto intro: returns_mono [OF entry_ok [OF assms(1) on]])
qed

section \<open>Messages\<close>

definition msg_line :: "int \<Rightarrow> string \<Rightarrow> string" where
  "msg_line pid msg = ''Msg| '' @ dec pid @ '' | '' @ (if msg = [] then ''?'' else msg)"

lemma stf_jnl_msg_pid_ok:
  assumes "io_calm env" "proc_wf s"
  shows "returns (stf_jnl_msg_pid env pid msg s)
    (\<lambda>_ s'. logged (cut (msg_line pid msg @ [NL])) s s' \<and> (\<forall>i. vars_at i s' = vars_at i s) \<and> p_jv s' = p_jv s)"
  unfolding stf_jnl_msg_pid_def
proof (subst returns_seq, rule returns_mono [OF stf_jnl_open_ok [OF assms]])
  fix fd s1
  assume o: "opened s fd s1"
  let ?m = "if msg = [] then ''?'' else msg"
  have "format ''%s| %d | %s\<newline>'' [AStr JNL_MSG, AInt pid, AStr ?m] = Some (msg_line pid msg @ [NL])"
    by (simp add: fmt msg_line_def JNL_MSG_def)
  from sprint_ok [OF this, of "MAXCHAR + 2" s1]
  show "returns (let msg = ?m in
      seq (sprint (MAXCHAR + 2) ''%s| %d | %s\<newline>'' [AStr JNL_MSG, AInt pid, AStr msg] s1) (\<lambda>buffer s.
      seq (print_entry env buffer fd s) (\<lambda>_ s. Ret () (snd (stf_jnl_close fd s)))))
    (\<lambda>_ s'. logged (cut (msg_line pid msg @ [NL])) s s' \<and> (\<forall>i. vars_at i s' = vars_at i s) \<and> p_jv s' = p_jv s)"
    using openedD [OF o] by (auto simp: Let_def intro: returns_mono [OF finish_call [OF assms(1) o still_refl]])
qed

lemma with_pid_small: "p_pid s \<le> INT_MAX \<Longrightarrow> with_pid env f s = f (p_pid s) s"
  by (simp add: with_pid_def)

text \<open>A process in which messages can be recorded, and what recording leaves as it was.\<close>

definition jnl_good :: "io_env \<Rightarrow> process \<Rightarrow> bool" where
  "jnl_good env s \<longleftrightarrow> io_calm env \<and> proc_wf s \<and> p_pid s \<le> INT_MAX"

definition jnl_same :: "process \<Rightarrow> process \<Rightarrow> bool" where
  "jnl_same s s' \<longleftrightarrow> p_fds s' = p_fds s \<and> p_env s' = p_env s \<and> p_pid s' = p_pid s \<and> p_umask s' = p_umask s \<and>
     p_errs s' = p_errs s \<and> (getenv JNLNAME s \<noteq> None \<longrightarrow> p_stdout s' = p_stdout s) \<and>
     (\<forall>i. vars_at i s' = vars_at i s) \<and> p_jv s' = p_jv s"

definition msg_entry :: "process \<Rightarrow> string \<Rightarrow> string" where
  "msg_entry s msg = cut (msg_line (p_pid s) msg @ [NL])"

interpretation stf: sink "stf_jnl_msg env" journal msg_entry "jnl_good env" jnl_same
  for env
proof
  fix s m
  assume "jnl_good env s"
  then show "returns (stf_jnl_msg env m s) (\<lambda>_ s'. journal s' = journal s @ msg_entry s m \<and> jnl_good env s' \<and> jnl_same s s')"
    by (auto simp: stf_jnl_msg_def with_pid_small jnl_good_def jnl_same_def logged_def msg_entry_def
        intro!: returns_mono [OF stf_jnl_msg_pid_ok [of env s "p_pid s" m]])
qed (auto simp: jnl_same_def msg_entry_def getenv_def)

lemma msg_entry_short:
  assumes "length (msg_line (p_pid s) m) \<le> MAXCHAR"
  shows "msg_entry s m = msg_line (p_pid s) m @ [NL]"
  using assms by (simp add: msg_entry_def)

lemma numeral_in_digits: "c \<in> set (numeral_in 10 n) \<Longrightarrow> is_digit c"
proof (induction n rule: less_induct)
  case (less n)
  have d: "is_digit (digit k)" if "k < 10" for k
    using that by (simp add: is_digit_def digit_def)
  show ?case
  proof (cases "n < 10")
    case True
    then show ?thesis using less.prems d by (subst (asm) numeral_in.simps) simp
  next
    case False
    then have "c \<in> set (numeral_in 10 (n div 10)) \<or> c = digit (n mod 10)"
      using less.prems by (subst (asm) numeral_in.simps) auto
    then show ?thesis using less.IH [of "n div 10"] d False by auto
  qed
qed

lemma dec_chars: "c \<in> set (dec i) \<Longrightarrow> is_digit c \<or> c = CHR ''-''"
  by (auto simp: dec_def dest: numeral_in_digits split: if_splits)

lemma dec_no_newline: "NL \<notin> set (dec i)"
  using dec_chars [of NL i] by (auto simp: is_digit_def)

lemma msg_line_no_newline: "NL \<notin> set m \<Longrightarrow> NL \<notin> set (msg_line pid m)"
  using dec_no_newline by (auto simp: msg_line_def)

section \<open>Steps of the other calls\<close>

lemma sprint_cut: "format fmt args = Some t \<Longrightarrow> sprint (MAXCHAR + 2) fmt args s = Ret (cut t) s"
  by (simp add: sprint_ok)

lemma journal_openE:
  assumes "io_calm env" "proc_wf s"
  obtains fd s1 where "stf_jnl_open env s = Ret fd s1" "opened s fd s1"
  using stf_jnl_open_ok [OF assms] by (auto simp: returns_def)

lemma vars_mappedE:
  assumes "io_calm env" "opened s fd s1" "vars_ready i s"
  obtains n where "vfile_mmap env s1 = (JV i, s1\<lparr>p_tick := n, p_jv := JV i\<rparr>)"
  using vfile_mmap_ok [OF assms(1) opened_vars_ready [OF assms(2,3)]] by blast

lemma vars_lockedE:
  assumes "io_calm env" "vars_at i s = Some v" "jvar_mlock v = MX_Free"
    and "\<And>s. f (v\<lparr>jvar_mlock := MX_Held\<rparr>) s = Ret (w\<lparr>jvar_mlock := MX_Held\<rparr>) s" "jvar_mlock w = MX_Free"
  obtains s' where "vars_locked env who i f s = Ret () s'" "still s s'" "p_jv s' = p_jv s"
    "\<And>j. vars_at j s' = (if j = i then Some w else vars_at j s)"
proof -
  from vars_locked_ok [of env i s v f w who, OF assms] obtain r s' where "vars_locked env who i f s = Ret r s'"
    "still s s'" "p_jv s' = p_jv s" "\<forall>j. vars_at j s' = (if j = i then Some w else vars_at j s)"
    unfolding returns_def by blast
  then show thesis using that [of s'] by simp
qed

lemma strcpy_ok: "length t < n \<Longrightarrow> strcpy n t s = Ret t s"
  by (simp add: strcpy_def)

lemma vars_read_ok: "vars_at i s = Some v \<Longrightarrow> vars_read i s = Ret v s"
  by (simp add: vars_read_def)

text \<open>The variables of a process, changed at \<open>i\<close> only.\<close>

definition vars_set :: "nat \<Rightarrow> jvars \<Rightarrow> process \<Rightarrow> process \<Rightarrow> bool" where
  "vars_set i w s s' \<longleftrightarrow> (\<forall>j. vars_at j s' = (if j = i then Some w else vars_at j s)) \<and> p_jv s' = JV i"

end
