(* ===== verification/Jnl_Log.thy ===== *)
theory Jnl_Log
  imports Jnl_Model Stf_Calls
begin

text \<open>
  Logging: the loop of \<^verbatim>\<open>jnl_vlog_\<close> over its buffer sends exactly the lines of the text, and what a
  call leaves in the journal are the message lines of \<^verbatim>\<open>libstf\<close> for them.
\<close>

section \<open>Cutting a message into lines\<close>

text \<open>The specification: every line of the text is a message, an empty line is sent as a blank.\<close>

definition message_lines :: "string \<Rightarrow> string list" where
  "message_lines t = map (\<lambda>l. if l = [] then '' '' else l) (jlines t)"

lemma message_lines_Nil [simp]: "message_lines [] = []"
  by (simp add: message_lines_def)

lemma message_lines_line [simp]:
  "NL \<notin> set l \<Longrightarrow> message_lines (l @ NL # t) = (if l = [] then '' '' else l) # message_lines t"
  by (simp add: message_lines_def)

lemma message_lines_last: "NL \<notin> set l \<Longrightarrow> l \<noteq> [] \<Longrightarrow> message_lines l = [l]"
  by (simp add: message_lines_def jlines_last)

lemma message_lines_no_newline: "l \<in> set (message_lines t) \<Longrightarrow> NL \<notin> set l"
  by (auto simp: message_lines_def dest: jlines_no_newline split: if_splits)

lemma length_jlines: "l \<in> set (jlines t) \<Longrightarrow> length l \<le> length t"
proof (induction t rule: jlines.induct)
  case (1 t)
  have "length (tl (dropWhile (\<lambda>c. c \<noteq> NL) t)) \<le> length t"
    using length_dropWhile_le [of "\<lambda>c. c \<noteq> NL" t] by simp
  moreover have "t \<noteq> []" using 1(2) by auto
  moreover have "l = takeWhile (\<lambda>c. c \<noteq> NL) t \<or> l \<in> set (jlines (tl (dropWhile (\<lambda>c. c \<noteq> NL) t)))"
    using 1(2) by (subst (asm) jlines.simps) (auto split: if_splits)
  ultimately show ?case using 1(1) length_takeWhile_le [of "\<lambda>c. c \<noteq> NL" t] by (meson order_trans)
qed

lemma length_message_lines: "l \<in> set (message_lines t) \<Longrightarrow> length l \<le> Suc (length t)"
  by (auto simp: message_lines_def dest!: length_jlines split: if_splits)

declare split_loop.simps [simp del]

text \<open>The loop from any of its positions.\<close>

lemma split_loop_from:
  assumes "CHR 0x00 \<notin> set buf" "p \<le> i" "i \<le> length buf \<or> p = length buf" "NL \<notin> set (take (i - p) (drop p buf))" "p \<le> length buf"
  shows "split_loop put buf p i st = put_all put (message_lines (drop p buf)) st"
  using assms(2-5)
proof (induction "Suc (length buf) - i" arbitrary: p i st rule: less_induct)
  case less
  show ?case
  proof (cases "p = length buf")
    case True
    then show ?thesis by (subst split_loop.simps) (simp add: char_at_def)
  next
    case False
    then have p: "p < length buf" "i \<le> length buf" using less.prems by auto
    have c: "char_at buf p = Some (buf ! p)" "buf ! p \<noteq> CHR 0x00"
      using p assms(1) by (auto simp: char_at_def in_set_conv_nth)
    let ?l = "take (i - p) (drop p buf)"
    show ?thesis
    proof (cases "i = length buf")
      case True
      then have l: "?l = drop p buf" "?l \<noteq> []" "i \<noteq> p" using p by auto
      have "split_loop put buf p i st = seq (put ?l st) (\<lambda>_ st. split_loop put buf i (Suc i) st)"
        using c l True by (subst split_loop.simps) (simp add: char_at_def)
      moreover have "split_loop put buf i (Suc i) st' = put_all put [] st'" for st'
        using True by (subst split_loop.simps) (simp add: char_at_def)
      ultimately show ?thesis using message_lines_last [of "drop p buf"] less.prems(3) l by (cases "put (drop p buf) st") simp_all
    next
      case False
      then have i: "i < length buf" using p by simp
      have d: "char_at buf i = Some (buf ! i)" "buf ! i \<noteq> CHR 0x00"
        using i assms(1) by (auto simp: char_at_def in_set_conv_nth)
      have dp: "drop p buf = ?l @ buf ! i # drop (Suc i) buf"
        using i less.prems(1) by (metis Cons_nth_drop_Suc append_take_drop_id drop_drop le_add_diff_inverse2)
      show ?thesis
      proof (cases "buf ! i = NL")
        case True
        have "i = p \<longleftrightarrow> ?l = []" using less.prems(1) i by auto
        then have "split_loop put buf p i st =
            seq (put (if ?l = [] then '' '' else ?l) st) (\<lambda>_ st. split_loop put buf (Suc i) (Suc i) st)"
          using c d True by (subst split_loop.simps) auto
        moreover have "split_loop put buf (Suc i) (Suc i) st' = put_all put (message_lines (drop (Suc i) buf)) st'" for st'
          using i by (intro less.hyps) auto
        moreover have "message_lines (drop p buf) = (if ?l = [] then '' '' else ?l) # message_lines (drop (Suc i) buf)"
        proof -
          have "message_lines (drop p buf) = message_lines (?l @ NL # drop (Suc i) buf)" using dp unfolding True by (rule arg_cong)
          also have "\<dots> = (if ?l = [] then '' '' else ?l) # message_lines (drop (Suc i) buf)"
            by (rule message_lines_line [OF less.prems(3)])
          finally show ?thesis .
        qed
        ultimately show ?thesis by (simp only: put_all.simps)
      next
        case False
        have "take (Suc i - p) (drop p buf) = ?l @ [buf ! i]"
          using less.prems(1) i by (simp add: Suc_diff_le take_Suc_conv_app_nth)
        moreover have "split_loop put buf p i st = split_loop put buf p (Suc i) st"
          using c d False by (subst split_loop.simps) simp
        ultimately show ?thesis using less.hyps [of "Suc i" p st] less.prems i False by auto
      qed
    qed
  qed
qed

lemma split_loop_lines:
  "CHR 0x00 \<notin> set buf \<Longrightarrow> split_loop put buf 0 0 st = put_all put (message_lines buf) st"
  by (simp add: split_loop_from)

section \<open>Messages through libstf\<close>

definition jsame :: "jnl_state \<Rightarrow> jnl_state \<Rightarrow> bool" where
  "jsame st st' \<longleftrightarrow> jnl_same (j_proc st) (j_proc st') \<and> st' = st\<lparr>j_proc := j_proc st'\<rparr>"

definition jgood :: "jnl_env \<Rightarrow> jnl_state \<Rightarrow> bool" where
  "jgood env st \<longleftrightarrow> jnl_good (je_io env) (j_proc st) \<and> 0 \<le> p_pid (j_proc st)"

lemma jnl_same_trans: "jnl_same s s' \<Longrightarrow> jnl_same s' s'' \<Longrightarrow> jnl_same s s''"
  by (auto simp: jnl_same_def getenv_def)

interpretation jnl: sink "jmsg env" "\<lambda>st. journal (j_proc st)" "\<lambda>st. msg_entry (j_proc st)" "jgood env" jsame
  for env
proof
  fix st m
  assume A: "jgood env st"
  then have "returns (stf_jnl_msg (je_io env) m (j_proc st))
      (\<lambda>_ s'. journal s' = journal (j_proc st) @ msg_entry (j_proc st) m \<and> jnl_good (je_io env) s' \<and> jnl_same (j_proc st) s')"
    by (intro stf.put_ok) (simp add: jgood_def)
  then obtain r s' where "stf_jnl_msg (je_io env) m (j_proc st) = Ret r s'" "journal s' = journal (j_proc st) @ msg_entry (j_proc st) m"
    "jnl_good (je_io env) s'" "jnl_same (j_proc st) s'" by (auto simp: returns_def)
  moreover have "p_pid s' = p_pid (j_proc st)" using \<open>jnl_same (j_proc st) s'\<close> by (simp add: jnl_same_def)
  ultimately show "returns (jmsg env m st) (\<lambda>_ st'. journal (j_proc st') = journal (j_proc st) @ msg_entry (j_proc st) m \<and>
      jgood env st' \<and> jsame st st')"
    using A by (simp add: jmsg_def in_proc_def jgood_def jsame_def)
next
  fix st st' st'' :: jnl_state
  assume "jsame st st'" "jsame st' st''"
  then show "jsame st st''" unfolding jsame_def
    by (metis (no_types, lifting) jnl_same_trans jnl_state.surjective jnl_state.update_convs(1))
qed (auto simp: jsame_def jnl_same_def msg_entry_def)

lemma jmsg_lines:
  assumes "jgood env st" "whole (journal (j_proc st))"
    and "\<And>m. m \<in> set ms \<Longrightarrow> NL \<notin> set m \<and> length (msg_line (p_pid (j_proc st)) m) \<le> MAXCHAR"
  shows "returns (put_all (jmsg env) ms st) (\<lambda>_ st'.
    jlines (journal (j_proc st')) = jlines (journal (j_proc st)) @ map (msg_line (p_pid (j_proc st))) ms \<and>
    whole (journal (j_proc st')) \<and> jgood env st' \<and> jsame st st')"
proof (rule jnl.put_all_lines [OF assms(1,2)])
  fix m
  assume "m \<in> set ms"
  then show "msg_entry (j_proc st) m = msg_line (p_pid (j_proc st)) m @ [NL] \<and> NL \<notin> set (msg_line (p_pid (j_proc st)) m)"
    using assms(3) by (simp add: msg_entry_short msg_line_no_newline)
qed

section \<open>The log\<close>

definition log_header :: "int \<Rightarrow> string \<Rightarrow> int \<Rightarrow> string" where
  "log_header level file line =
     (case jnl_dl_description_fetch level of
        None \<Rightarrow> []
      | Some d \<Rightarrow> ''[ - '' @ (if dl_level d = level then [] else ''~'') @ dl_description d @ '' (file: '' @ file @ '', line: '' @
                  dec line @ '') - ]\<newline>'')"

text \<open>The text of a message: its heading and the caller's format, cut to the first buffer, with the
  arguments filled in and cut to the second.\<close>

definition log_text :: "int \<Rightarrow> string \<Rightarrow> int \<Rightarrow> string \<Rightarrow> arg list \<Rightarrow> string option" where
  "log_text level file line fmt args = format (take 1023 (log_header level file line @ fmt)) args"

lemma short_message:
  assumes "0 \<le> pid" "pid \<le> INT_MAX" "length m \<le> 4096"
  shows "length (msg_line pid m) \<le> MAXCHAR"
proof -
  have "length (dec pid) \<le> 11" using assms(1,2) by (intro length_dec_int) (simp_all add: INT_MIN_def)
  then show ?thesis using assms(3) by (simp add: msg_line_def MAXCHAR_def)
qed

lemma jnl_vlog_step:
  assumes lv: "INT_MIN \<le> level" "level \<le> INT_MAX" and chk: "jnl_dl_check level st"
    and tx: "log_text level file line fmt args = Some t" "int (length t) \<le> INT_MAX"
  shows "jnl_vlog env file line level fmt args st =
    seq (split_loop (jmsg env) (take 4095 t) 0 0 st) (\<lambda>_ st. seq (jmsg env '' '' st) (\<lambda>_ st. Ret 0 st))"
proof -
  obtain d where d: "jnl_dl_description_fetch level = Some d" using jnl_dl_description_fetch_bound [OF lv] by metis
  let ?f = "if dl_level d = level then ''[ - %s (file: %s, line: %d) - ]\<newline>%s'' else ''[ - ~%s (file: %s, line: %d) - ]\<newline>%s''"
  have "format ?f [AStr (dl_description d), AStr file, AInt line, AStr fmt] = Some (log_header level file line @ fmt)"
    using d by (simp add: log_header_def fmt)
  then have s1: "\<exists>r. snprintf jnlBS_format ?f [AStr (dl_description d), AStr file, AInt line, AStr fmt] =
      Some (r, take 1023 (log_header level file line @ fmt))" by (simp add: snprintf_def jnlBS_format_def)
  have s2: "snprintf jnlBS_LOG (take 1023 (log_header level file line @ fmt)) args = Some (int (length t), take 4095 t)"
    using tx by (simp add: snprintf_def log_text_def jnlBS_LOG_def)
  from s1 obtain r where r: "snprintf jnlBS_format ?f [AStr (dl_description d), AStr file, AInt line, AStr fmt] =
      Some (r, take 1023 (log_header level file line @ fmt))" by blast
  show ?thesis unfolding jnl_vlog_def Let_def
    by (simp only: chk d r s2 not_True_eq_False if_False option.case prod.case) simp
qed

lemma jnl_vlog_ok:
  assumes "jgood env st" "whole (journal (j_proc st))" and lv: "INT_MIN \<le> level" "level \<le> INT_MAX"
    and chk: "jnl_dl_check level st"
    and tx: "log_text level file line fmt args = Some t" "int (length t) \<le> INT_MAX" "CHR 0x00 \<notin> set t"
  shows "returns (jnl_vlog env file line level fmt args st) (\<lambda>r st'. r = 0 \<and> jgood env st' \<and> jsame st st' \<and> whole (journal (j_proc st')) \<and>
    jlines (journal (j_proc st')) = jlines (journal (j_proc st)) @
      map (msg_line (p_pid (j_proc st))) (message_lines (take 4095 t) @ ['' '']))"
proof -
  let ?ms = "message_lines (take 4095 t) @ ['' '']"
  have nul: "CHR 0x00 \<notin> set (take 4095 t)" using tx(3) by (auto dest: in_set_takeD)
  have eq: "jnl_vlog env file line level fmt args st = seq (put_all (jmsg env) ?ms st) (\<lambda>_ st. Ret 0 st)"
    unfolding jnl_vlog_step [OF lv chk tx(1,2)] split_loop_lines [OF nul]
    by (simp only: put_all_append seq_assoc put_all.simps seq.simps)
  have len: "NL \<notin> set m \<and> length (msg_line (p_pid (j_proc st)) m) \<le> MAXCHAR" if "m \<in> set ?ms" for m
  proof -
    have "length m \<le> 4096" using that length_message_lines [of m "take 4095 t"] by auto
    then show ?thesis using that assms(1) message_lines_no_newline
      by (auto simp: jgood_def jnl_good_def intro: short_message)
  qed
  show ?thesis unfolding eq returns_seq
    by (rule returns_mono [OF jmsg_lines [OF assms(1,2) len]]) auto
qed

end
