(* ===== verification/Jnl_Buffer.thy ===== *)
theory Jnl_Buffer
  imports Jnl_Log HT_Live
begin

text \<open>
  The text buffers of the threads. The table of contents maps the bytes of a thread's number to the
  structure that holds its buffers; the key of an entry is the number inside that structure, so the
  table relies on memory the library itself allocates. The invariant says so, and that no two
  structures share a buffer.
\<close>

section \<open>Thread numbers in memory\<close>

definition u32_bytes :: "u32 \<Rightarrow> u8 list" where
  "u32_bytes v = [ucast v, ucast (drop_bit 8 v), ucast (drop_bit 16 v), ucast (drop_bit 24 v)]"

lemma u32_bytes_inject [simp]: "u32_bytes v = u32_bytes w \<longleftrightarrow> v = w"
proof
  assume eq: "u32_bytes v = u32_bytes w"
  show "v = w"
  proof (rule bit_word_eqI)
    fix n
    assume n: "n < LENGTH(32)"
    have b: "bit (ucast (drop_bit k v) :: u8) m = bit (ucast (drop_bit k w) :: u8) m" if "k \<in> {0, 8, 16, 24}" for k m
      using eq that by (auto simp: u32_bytes_def)
    define k where "k = 8 * (n div 8)"
    have "k \<in> {0, 8, 16, 24}" using n unfolding k_def by (simp, presburger)
    moreover have "n = k + n mod 8" "n mod 8 < 8" unfolding k_def by simp_all
    ultimately show "bit v n = bit w n"
      using b [of k "n mod 8"] by (simp add: bit_ucast_iff bit_drop_bit_eq)
  qed
qed simp

lemma u64_offsets: "(a::u64) + 1 \<noteq> a" "a + 2 \<noteq> a" "a + 3 \<noteq> a" "a + 2 \<noteq> a + 1" "a + 3 \<noteq> a + 1" "a + 3 \<noteq> a + 2"
  by simp_all

lemma key_bytes_4: "key_bytes mem a 4 = [mem a, mem (a + 1), mem (a + 2), mem (a + 3)]"
proof -
  have "(4::nat) = Suc (Suc (Suc (Suc 0)))" by simp
  then show ?thesis by (simp only: key_bytes.simps) (simp add: add.assoc)
qed

lemma key_bytes_put_same: "key_bytes (put_u32 a v mem) a 4 = u32_bytes v"
  by (simp add: key_bytes_4 put_u32_def u32_bytes_def u64_offsets)

definition apart :: "u64 \<Rightarrow> u64 \<Rightarrow> bool" where
  "apart a b \<longleftrightarrow> unat a + 4 \<le> unat b \<and> unat b + 4 \<le> 2 ^ 64 \<or> unat b + 4 \<le> unat a \<and> unat a + 4 \<le> 2 ^ 64"

lemma apart_offsets:
  assumes "apart a b" "i < 4" "j < 4"
  shows "a + of_nat i \<noteq> b + of_nat j"
proof -
  have "unat (a + of_nat i) = unat a + i" "unat (b + of_nat j) = unat b + j"
    using assms by (auto simp: apart_def unat_word_ariths unat_of_nat_u64)
  then show ?thesis using assms by (auto simp: apart_def)
qed

lemma key_bytes_put_other:
  assumes "apart a b"
  shows "key_bytes (put_u32 a v mem) b 4 = key_bytes mem b 4"
proof -
  have "put_u32 a v mem (b + of_nat j) = mem (b + of_nat j)" if "j < 4" for j
    using apart_offsets [OF assms _ that, of 0] apart_offsets [OF assms _ that, of 1] apart_offsets [OF assms _ that, of 2]
      apart_offsets [OF assms _ that, of 3] by (simp add: put_u32_def)
  from this [of 0] this [of 1] this [of 2] this [of 3] show ?thesis
    by (simp add: key_bytes_4)
qed

section \<open>The invariant\<close>

text \<open>
  The heap of the library: every structure and every buffer lies below the first free address, and
  two buffers are the same only if they are the same buffer of the same structure.
\<close>

definition heap_ok :: "nat \<Rightarrow> nat \<Rightarrow> (u64 \<rightharpoonup> jnl_buffer) \<Rightarrow> bool" where
  "heap_ok hend brk bufs \<longleftrightarrow> 0 < brk \<and> brk \<le> hend \<and> hend < 2 ^ 64 \<and>
     (\<forall>a b. bufs a = Some b \<longrightarrow> a \<noteq> 0 \<and> unat a + 40 \<le> brk \<and> length (jb_buffer b) = 4 \<and>
        (\<forall>i<4. jb_buffer b ! i \<noteq> 0 \<and> unat (jb_buffer b ! i) < brk)) \<and>
     (\<forall>a b a' b' i j. bufs a = Some b \<longrightarrow> bufs a' = Some b' \<longrightarrow> i < 4 \<longrightarrow> j < 4 \<longrightarrow>
        jb_buffer b ! i = jb_buffer b' ! j \<longrightarrow> a = a' \<and> i = j)"

text \<open>
  The table of contents: an entry's key is the number in the structure the entry leads to.
\<close>

definition toc_ok :: "addr \<Rightarrow> world \<Rightarrow> (u64 \<rightharpoonup> jnl_buffer) \<Rightarrow> bool" where
  "toc_ok toc w bufs \<longleftrightarrow> ht_wf toc w \<and> ht_unique toc w \<and> ht_keysize_of toc w = 4 \<and>
     (\<forall>k d. (k, d) \<in> ht_live toc w \<longrightarrow> k = d \<and> bufs d \<noteq> None) \<and>
     (\<forall>bs d. ht_map toc w bs = Some d \<longrightarrow> (\<exists>b. bufs d = Some b \<and> bs = u32_bytes (jb_thread_id b)))"

definition stack_ok :: "jnl_env \<Rightarrow> bool" where
  "stack_ok env \<longleftrightarrow> env_ok (je_ht env) \<and> je_heap_end env \<le> unat (je_sp env) \<and> unat (je_sp env) + 4 \<le> 2 ^ 64"

definition jnl_inv :: "jnl_env \<Rightarrow> addr \<Rightarrow> jnl_state \<Rightarrow> bool" where
  "jnl_inv env toc st \<longleftrightarrow> j_toc st = Ptr toc \<and> stack_ok env \<and>
     heap_ok (je_heap_end env) (j_brk st) (j_bufs st) \<and> toc_ok toc (j_ht st) (j_bufs st)"

text \<open>What the library stands for: the buffers that each thread has.\<close>

definition thread_buffers :: "addr \<Rightarrow> jnl_state \<Rightarrow> u32 \<rightharpoonup> u64 list" where
  "thread_buffers toc st tid =
     (case ht_map toc (j_ht st) (u32_bytes tid) of
        None \<Rightarrow> None
      | Some d \<Rightarrow> map_option jb_buffer (j_bufs st d))"

lemma ht_key_bytes: "ht_key h s k = key_bytes (w_mem s) k (ht_keysize_of h s)"
  by (simp add: ht_key_def ht_keysize_of_def split: option.splits)

lemma toc_okD:
  assumes "toc_ok toc w bufs"
  shows "ht_wf toc w" "ht_unique toc w" "ht_keysize_of toc w = 4"
    "(k, d) \<in> ht_live toc w \<Longrightarrow> k = d \<and> bufs d \<noteq> None"
    "ht_map toc w bs = Some d \<Longrightarrow> \<exists>b. bufs d = Some b \<and> bs = u32_bytes (jb_thread_id b)"
  using assms by (simp_all add: toc_ok_def)

lemma returns_in_ht: "returns (in_ht f st) Q \<longleftrightarrow> runs (f (j_ht st)) (\<lambda>r w. Q r (st\<lparr>j_ht := w\<rparr>))"
  by (auto simp: in_ht_def returns_def runs_def split: option.splits)

lemma toc_ok_poke:
  assumes "toc_ok toc w bufs" and "\<And>d. bufs d \<noteq> None \<Longrightarrow> apart a d"
  shows "toc_ok toc (w\<lparr>w_mem := put_u32 a v (w_mem w)\<rparr>) bufs"
    "ht_map toc (w\<lparr>w_mem := put_u32 a v (w_mem w)\<rparr>) = ht_map toc w"
proof -
  have wf: "ht_wf toc w" and ks: "ht_keysize_of toc w = 4" using assms(1) by (simp_all add: toc_ok_def)
  have keep: "key_bytes (put_u32 a v (w_mem w)) k (ht_keysize_of toc w) = key_bytes (w_mem w) k (ht_keysize_of toc w)"
    if "(k, d) \<in> ht_live toc w" for k d
  proof -
    have "k = d" "bufs d \<noteq> None" using that assms(1) by (simp_all add: toc_ok_def)
    then have "apart a k" using assms(2) by simp
    then show ?thesis unfolding ks by (rule key_bytes_put_other)
  qed
  note M = ht_wf_mem [OF wf, of "put_u32 a v (w_mem w)", OF keep]
  show "ht_map toc (w\<lparr>w_mem := put_u32 a v (w_mem w)\<rparr>) = ht_map toc w" by (rule M(2))
  moreover have "ht_keysize_of toc (w\<lparr>w_mem := put_u32 a v (w_mem w)\<rparr>) = ht_keysize_of toc w"
    "ht_unique toc (w\<lparr>w_mem := put_u32 a v (w_mem w)\<rparr>) = ht_unique toc w"
    by (simp_all add: ht_keysize_of_def ht_unique_def)
  ultimately show "toc_ok toc (w\<lparr>w_mem := put_u32 a v (w_mem w)\<rparr>) bufs"
    using assms(1) M unfolding toc_ok_def by simp
qed

lemma toc_ok_locate:
  assumes "toc_ok toc w bufs" "same_data w w'" "ht_wf toc w'" "ht_unique toc w' = ht_unique toc w"
  shows "toc_ok toc w' bufs" "ht_map toc w' = ht_map toc w"
proof -
  show "ht_map toc w' = ht_map toc w" using assms(2) by (simp add: ht_map_def same_data_view)
  then show "toc_ok toc w' bufs" using assms same_data_live [OF assms(2)] by (simp add: toc_ok_def)
qed

lemma heap_okI:
  assumes "0 < brk" "brk \<le> hend" "hend < 2 ^ 64"
    and "\<And>a b. bufs a = Some b \<Longrightarrow> a \<noteq> 0 \<and> unat a + 40 \<le> brk \<and> length (jb_buffer b) = 4 \<and>
        (\<forall>i<4. jb_buffer b ! i \<noteq> 0 \<and> unat (jb_buffer b ! i) < brk)"
    and "\<And>a b a' b' i j. bufs a = Some b \<Longrightarrow> bufs a' = Some b' \<Longrightarrow> i < 4 \<Longrightarrow> j < 4 \<Longrightarrow>
        jb_buffer b ! i = jb_buffer b' ! j \<Longrightarrow> a = a' \<and> i = j"
  shows "heap_ok hend brk bufs"
proof -
  have "\<forall>a b. bufs a = Some b \<longrightarrow> a \<noteq> 0 \<and> unat a + 40 \<le> brk \<and> length (jb_buffer b) = 4 \<and>
      (\<forall>i<4. jb_buffer b ! i \<noteq> 0 \<and> unat (jb_buffer b ! i) < brk)" using assms(4) by blast
  moreover have "\<forall>a b a' b' i j. bufs a = Some b \<longrightarrow> bufs a' = Some b' \<longrightarrow> i < 4 \<longrightarrow> j < 4 \<longrightarrow>
      jb_buffer b ! i = jb_buffer b' ! j \<longrightarrow> a = a' \<and> i = j" using assms(5) by blast
  ultimately show ?thesis using assms(1-3) unfolding heap_ok_def by (intro conjI)
qed

lemma heap_ok_below: "heap_ok hend brk bufs \<Longrightarrow> bufs d \<noteq> None \<Longrightarrow> d \<noteq> 0 \<and> unat d + 40 \<le> brk \<and> brk \<le> hend"
  by (auto simp: heap_ok_def)

lemma stack_apart:
  assumes "stack_ok env" "heap_ok (je_heap_end env) brk bufs" "bufs d \<noteq> None"
  shows "apart (je_sp env) d"
  using heap_ok_below [OF assms(2,3)] assms(1) by (simp add: stack_ok_def apart_def)

section \<open>Allocation\<close>

definition new_space :: nat where "new_space = 4136"

definition new_texts :: "nat \<Rightarrow> u64 list" where
  "new_texts brk = map (\<lambda>n. of_nat (brk + n)) [40, 1064, 2088, 3112]"

lemma unat_small: "n < 2 ^ 64 \<Longrightarrow> unat (of_nat n :: u64) = n"
  by (simp add: unat_of_nat_u64)

lemma of_nat_small: "m < 2 ^ 64 \<Longrightarrow> n < 2 ^ 64 \<Longrightarrow> (of_nat m :: u64) = of_nat n \<longleftrightarrow> m = n"
  by (metis unat_small)

lemma less_4: "(i::nat) < 4 \<longleftrightarrow> i = 0 \<or> i = 1 \<or> i = 2 \<or> i = 3"
  by auto

lemma new_texts_nth:
  assumes "i < 4"
  shows "\<exists>n. 40 \<le> n \<and> n < new_space \<and> n = 40 + 1024 * i \<and> new_texts brk ! i = of_nat (brk + n)"
  using assms unfolding less_4 by (auto simp: new_texts_def new_space_def)

lemma heap_ok_add:
  assumes ok: "heap_ok hend brk bufs" and room: "brk + new_space \<le> hend"
  shows "heap_ok hend (brk + new_space) (bufs(of_nat brk \<mapsto> \<lparr>jb_thread_id = tid, jb_buffer = new_texts brk\<rparr>))"
proof -
  let ?new = "of_nat brk :: u64"
  have lim: "0 < brk" "brk + new_space < 2 ^ 64" using ok room by (simp_all add: heap_ok_def)
  have un: "unat ?new = brk" "?new \<noteq> 0" using lim unat_small [of brk] by (simp_all, metis unat_0 less_irrefl)
  have tx: "unat (new_texts brk ! i) = brk + (40 + 1024 * i) \<and> 40 + 1024 * i < new_space" if "i < 4" for i
  proof -
    from new_texts_nth [OF \<open>i < 4\<close>, of brk]
    obtain n where n: "n < new_space" "n = 40 + 1024 * i" "new_texts brk ! i = of_nat (brk + n)" by blast
    then have "unat (new_texts brk ! i) = brk + n" using lim(2) unat_small [of "brk + n"] unfolding n(3) by linarith
    then show ?thesis using n by simp
  qed
  have old: "unat (jb_buffer b ! i) < brk" if "bufs a = Some b" "i < 4" for a b i using ok that by (simp add: heap_ok_def)
  have fresh: "new_texts brk ! i \<noteq> jb_buffer b ! j" if "i < 4" "bufs a = Some b" "j < 4" for i j a b
    using tx [OF that(1)] old [OF that(2,3)] by auto
  have same: "i = j" if "i < 4" "j < 4" "new_texts brk ! i = new_texts brk ! j" for i j
    using tx [OF that(1)] tx [OF that(2)] arg_cong [OF that(3), of unat] by linarith
  have one: "a \<noteq> 0 \<and> unat a + 40 \<le> brk + new_space \<and> length (jb_buffer b) = 4 \<and>
      (\<forall>i<4. jb_buffer b ! i \<noteq> 0 \<and> unat (jb_buffer b ! i) < brk + new_space)"
    if "(bufs(?new \<mapsto> \<lparr>jb_thread_id = tid, jb_buffer = new_texts brk\<rparr>)) a = Some b" for a b
  proof (cases "a = ?new")
    case True
    have "new_texts brk ! i \<noteq> 0 \<and> unat (new_texts brk ! i) < brk + new_space" if "i < 4" for i
    proof -
      have t: "unat (new_texts brk ! i) = brk + (40 + 1024 * i)" "40 + 1024 * i < new_space" using tx [OF that] by simp_all
      moreover have "unat (0::u64) = 0" by simp
      ultimately have "new_texts brk ! i \<noteq> 0" by auto
      then show ?thesis using t by simp
    qed
    moreover have "length (new_texts brk) = 4" by (simp add: new_texts_def)
    moreover have "jb_buffer b = new_texts brk" using that True by auto
    ultimately show ?thesis using True un by (simp add: new_space_def)
  next
    case False
    then have "bufs a = Some b" using that by simp
    then have "a \<noteq> 0 \<and> unat a + 40 \<le> brk \<and> length (jb_buffer b) = 4 \<and> (\<forall>i<4. jb_buffer b ! i \<noteq> 0 \<and> unat (jb_buffer b ! i) < brk)"
      using ok by (simp add: heap_ok_def)
    then show ?thesis by (simp add: trans_le_add1 trans_less_add1)
  qed
  have two: "a = a' \<and> i = j"
    if "(bufs(?new \<mapsto> \<lparr>jb_thread_id = tid, jb_buffer = new_texts brk\<rparr>)) a = Some b"
      "(bufs(?new \<mapsto> \<lparr>jb_thread_id = tid, jb_buffer = new_texts brk\<rparr>)) a' = Some b'"
      "i < 4" "j < 4" "jb_buffer b ! i = jb_buffer b' ! j" for a b a' b' i j
  proof -
    have old: "bufs a = Some b \<Longrightarrow> bufs a' = Some b' \<Longrightarrow> a = a' \<and> i = j" using ok that unfolding heap_ok_def by blast
    have is_new: "a = ?new \<Longrightarrow> jb_buffer b = new_texts brk" "a' = ?new \<Longrightarrow> jb_buffer b' = new_texts brk" using that(1,2) by auto
    have is_old: "a \<noteq> ?new \<Longrightarrow> bufs a = Some b" "a' \<noteq> ?new \<Longrightarrow> bufs a' = Some b'" using that(1,2) by simp_all
    have "a = ?new \<longleftrightarrow> a' = ?new" using that(3-5) fresh is_new is_old by metis
    then show ?thesis using that(3-5) same is_new is_old old by metis
  qed
  have "0 < brk + new_space" "brk + new_space \<le> hend" "hend < 2 ^ 64" using lim room ok by (simp_all add: heap_ok_def)
  then show ?thesis by (rule heap_okI [OF _ _ _ one two])
qed

lemma jmalloc_room:
  assumes "je_malloc env (j_tick st)" "j_brk st + n \<le> je_heap_end env"
  shows "jmalloc env n st = (of_nat (j_brk st), st\<lparr>j_tick := Suc (j_tick st), j_brk := j_brk st + n\<rparr>)"
  using assms by (simp add: jmalloc_def)

lemma malloc_text_room:
  assumes "je_malloc env (j_tick st)" "j_brk st + n \<le> je_heap_end env" "0 < j_brk st" "je_heap_end env < 2 ^ 64"
  shows "malloc_text env n st = (of_nat (j_brk st), st\<lparr>j_tick := Suc (j_tick st), j_brk := j_brk st + n,
    j_text := (j_text st)(of_nat (j_brk st) \<mapsto> [])\<rparr>)"
proof -
  have "(of_nat (j_brk st) :: u64) \<noteq> 0" using assms(2-4) of_nat_small [of "j_brk st" 0] by simp
  then show ?thesis by (simp add: malloc_text_def jmalloc_room [OF assms(1,2)])
qed

text \<open>There is room for the buffers of one more thread.\<close>

definition jnl_room :: "jnl_env \<Rightarrow> jnl_state \<Rightarrow> bool" where
  "jnl_room env st \<longleftrightarrow> (\<forall>k<5. je_malloc env (j_tick st + k)) \<and> j_brk st + new_space \<le> je_heap_end env"

lemma jnl_roomD:
  assumes "jnl_room env st"
  shows "je_malloc env (j_tick st)" "je_malloc env (Suc (j_tick st))" "je_malloc env (Suc (Suc (j_tick st)))"
    "je_malloc env (Suc (Suc (Suc (j_tick st))))" "je_malloc env (Suc (Suc (Suc (Suc (j_tick st)))))"
    "j_brk st + 4136 \<le> je_heap_end env"
proof -
  have m: "k < 5 \<Longrightarrow> je_malloc env (j_tick st + k)" for k using assms by (simp add: jnl_room_def)
  show "je_malloc env (j_tick st)" "je_malloc env (Suc (j_tick st))" "je_malloc env (Suc (Suc (j_tick st)))"
    "je_malloc env (Suc (Suc (Suc (j_tick st))))" "je_malloc env (Suc (Suc (Suc (Suc (j_tick st)))))"
    using m [of 0] m [of 1] m [of 2] m [of 3] m [of 4] by (simp_all add: eval_nat_numeral)
  show "j_brk st + 4136 \<le> je_heap_end env" using assms by (simp add: jnl_room_def new_space_def)
qed

definition with_buffers :: "u32 \<Rightarrow> jnl_state \<Rightarrow> jnl_state" where
  "with_buffers tid st = st\<lparr>j_tick := j_tick st + 5, j_brk := j_brk st + new_space,
     j_bufs := (j_bufs st)(of_nat (j_brk st) \<mapsto> \<lparr>jb_thread_id = tid, jb_buffer = new_texts (j_brk st)\<rparr>),
     j_text := (\<lambda>a. if a \<in> set (new_texts (j_brk st)) then Some [] else j_text st a)\<rparr>"

text \<open>The allocations of a call with room.\<close>

lemma new_buffers_room:
  assumes room: "jnl_room env st" and ok: "heap_ok (je_heap_end env) (j_brk st) (j_bufs st)"
    and ins: "returns (in_ht (ht_insert_key (je_ht env) toc (of_nat (j_brk st)) (of_nat (j_brk st)))
      (poke_u32 (of_nat (j_brk st)) tid (with_buffers tid st))) (\<lambda>r st'. r = 0 \<and> Q (of_nat (j_brk st)) st')"
  shows "returns (new_buffers env tid index toc st) Q"
proof -
  note R = jnl_roomD [OF room]
  have H: "0 < j_brk st" "je_heap_end env < 2 ^ 64" using ok by (simp_all add: heap_ok_def)
  define a where "a = j_brk st"
  define s1 where "s1 = st\<lparr>j_tick := Suc (j_tick st), j_brk := a + 40\<rparr>"
  have m1: "jmalloc env 40 st = (of_nat a, s1)" using R by (simp add: jmalloc_room a_def s1_def)
  define s2 where "s2 = s1\<lparr>j_tick := Suc (j_tick s1), j_brk := j_brk s1 + 1024, j_text := (j_text s1)(of_nat (j_brk s1) \<mapsto> [])\<rparr>"
  have m2: "malloc_text env 1024 s1 = (of_nat (a + 40), s2)"
    using malloc_text_room [of env s1 1024] R H by (auto simp: s2_def s1_def a_def)
  define s3 where "s3 = s2\<lparr>j_tick := Suc (j_tick s2), j_brk := j_brk s2 + 1024, j_text := (j_text s2)(of_nat (j_brk s2) \<mapsto> [])\<rparr>"
  have m3: "malloc_text env 1024 s2 = (of_nat (a + 1064), s3)"
    using malloc_text_room [of env s2 1024] R H by (auto simp: s3_def s2_def s1_def a_def)
  define s4 where "s4 = s3\<lparr>j_tick := Suc (j_tick s3), j_brk := j_brk s3 + 1024, j_text := (j_text s3)(of_nat (j_brk s3) \<mapsto> [])\<rparr>"
  have m4: "malloc_text env 1024 s3 = (of_nat (a + 2088), s4)"
    using malloc_text_room [of env s3 1024] R H by (auto simp: s4_def s3_def s2_def s1_def a_def)
  define s5 where "s5 = s4\<lparr>j_tick := Suc (j_tick s4), j_brk := j_brk s4 + 1024, j_text := (j_text s4)(of_nat (j_brk s4) \<mapsto> [])\<rparr>"
  have m5: "malloc_text env 1024 s4 = (of_nat (a + 3112), s5)"
    using malloc_text_room [of env s4 1024] R H by (auto simp: s5_def s4_def s3_def s2_def s1_def a_def)
  have nz: "(of_nat (a + n) :: u64) \<noteq> 0" if "n < 4136" for n
    using of_nat_small [of "a + n" 0] H R(6) that by (simp add: a_def)
  have nz0: "(of_nat a :: u64) \<noteq> 0" using nz [of 0] by simp
  have bs: "new_texts a = [of_nat (a + 40), of_nat (a + 1064), of_nat (a + 2088), of_nat (a + 3112)]"
    by (simp add: new_texts_def)
  have miss: "filter (\<lambda>i. new_texts a ! i = 0) [0..<4] = []"
    using nz [of 40] nz [of 1064] nz [of 2088] nz [of 3112] unfolding bs filter_empty_conv by (auto simp: less_4)
  have tx: "j_text s5 = (\<lambda>x. if x \<in> set (new_texts a) then Some [] else j_text st x)"
    by (rule ext) (auto simp: s5_def s4_def s3_def s2_def s1_def bs)
  have fin: "s5\<lparr>j_bufs := (j_bufs s5)(of_nat a \<mapsto> \<lparr>jb_thread_id = tid, jb_buffer = new_texts a\<rparr>)\<rparr> = with_buffers tid st"
    unfolding with_buffers_def a_def [symmetric] tx [symmetric]
    by (simp add: s5_def s4_def s3_def s2_def s1_def a_def [symmetric] new_space_def)
  from ins show ?thesis unfolding new_buffers_def jnlBS_defs a_def [symmetric]
    by (simp only: m1 m2 m3 m4 m5 prod.case Let_def nz0 if_False bs [symmetric] miss simp_thms fin returns_seq)
      (erule returns_mono, simp)
qed

section \<open>Fetching a buffer\<close>

text \<open>The buffers of the threads are apart.\<close>

lemma thread_buffersE:
  assumes "jnl_inv env toc st" "thread_buffers toc st tid = Some bs"
  obtains d b where "j_bufs st d = Some b" "jb_buffer b = bs" "jb_thread_id b = tid"
proof -
  obtain d b where m: "ht_map toc (j_ht st) (u32_bytes tid) = Some d" "j_bufs st d = Some b" "jb_buffer b = bs"
    using assms(2) by (auto simp: thread_buffers_def split: option.splits)
  have "toc_ok toc (j_ht st) (j_bufs st)" using assms(1) by (simp add: jnl_inv_def)
  from toc_okD(5) [OF this m(1)] m(2) have "jb_thread_id b = tid" by auto
  with m(2,3) show thesis by (rule that)
qed

lemma thread_buffers_text:
  assumes "jnl_inv env toc st" "thread_buffers toc st tid = Some bs"
  shows "length bs = 4" "i < 4 \<Longrightarrow> bs ! i \<noteq> 0"
proof -
  obtain d b where b: "j_bufs st d = Some b" "jb_buffer b = bs" using thread_buffersE [OF assms] by metis
  have "heap_ok (je_heap_end env) (j_brk st) (j_bufs st)" using assms(1) by (simp add: jnl_inv_def)
  then have "length (jb_buffer b) = 4 \<and> (\<forall>i<4. jb_buffer b ! i \<noteq> 0)" using b(1) by (simp add: heap_ok_def)
  then show "length bs = 4" "i < 4 \<Longrightarrow> bs ! i \<noteq> 0" using b(2) by simp_all
qed

lemma thread_buffers_apart:
  assumes inv: "jnl_inv env toc st" and bs: "thread_buffers toc st tid = Some bs" "thread_buffers toc st tid' = Some bs'"
    and eq: "bs ! i = bs' ! j" "i < 4" "j < 4"
  shows "tid = tid' \<and> i = j"
proof -
  obtain d b where b: "j_bufs st d = Some b" "jb_buffer b = bs" "jb_thread_id b = tid" using thread_buffersE [OF inv bs(1)] by metis
  obtain d' b' where b': "j_bufs st d' = Some b'" "jb_buffer b' = bs'" "jb_thread_id b' = tid'"
    using thread_buffersE [OF inv bs(2)] by metis
  have "heap_ok (je_heap_end env) (j_brk st) (j_bufs st)" using inv by (simp add: jnl_inv_def)
  then have "d = d' \<and> i = j" using b(1,2) b'(1,2) eq unfolding heap_ok_def by blast
  then show ?thesis using b b' by auto
qed

lemma toc_ok_insert:
  assumes ok: "toc_ok toc w bufs" and new: "bufs a = None" and live: "ht_live toc w' \<subseteq> insert (a, a) (ht_live toc w)"
    and w': "ht_wf toc w'" "ht_unique toc w'" "ht_keysize_of toc w' = ht_keysize_of toc w"
      "ht_map toc w' = (ht_map toc w)(u32_bytes tid \<mapsto> a)"
  shows "toc_ok toc w' (bufs(a \<mapsto> \<lparr>jb_thread_id = tid, jb_buffer = bs\<rparr>))"
proof -
  let ?bufs = "bufs(a \<mapsto> \<lparr>jb_thread_id = tid, jb_buffer = bs\<rparr>)"
  have "k = d \<and> ?bufs d \<noteq> None" if "(k, d) \<in> ht_live toc w'" for k d
    using that live ok by (auto simp: toc_ok_def)
  moreover have "\<exists>b. ?bufs d = Some b \<and> x = u32_bytes (jb_thread_id b)" if "ht_map toc w' x = Some d" for x d
  proof (cases "x = u32_bytes tid")
    case True
    then show ?thesis using that by (simp add: w'(4))
  next
    case False
    then have "ht_map toc w x = Some d" using that by (simp add: w'(4))
    from toc_okD(5) [OF ok this] obtain b where "bufs d = Some b" "x = u32_bytes (jb_thread_id b)" by blast
    then show ?thesis using new by auto
  qed
  ultimately show ?thesis using ok w'(1-3) unfolding toc_ok_def by auto
qed

text \<open>What a fetch keeps: the buffers of the other threads with their texts, and the process.\<close>

definition fetched :: "jnl_env \<Rightarrow> addr \<Rightarrow> u32 \<Rightarrow> jnl_state \<Rightarrow> jnl_state \<Rightarrow> u64 list \<Rightarrow> bool" where
  "fetched env toc tid st st' bs \<longleftrightarrow> jnl_inv env toc st' \<and> thread_buffers toc st' = (thread_buffers toc st)(tid \<mapsto> bs) \<and>
     j_proc st' = j_proc st \<and> j_dl st' = j_dl st \<and> j_brk st' \<le> j_brk st + new_space \<and>
     (\<forall>a. a \<notin> set bs \<or> thread_buffers toc st tid \<noteq> None \<longrightarrow> j_text st' a = j_text st a)"

lemma thread_buffers_found:
  assumes inv: "jnl_inv env toc st" and m: "ht_map toc (j_ht st) (u32_bytes tid) = Some d"
  obtains b where "j_bufs st d = Some b" "jb_thread_id b = tid" "d \<noteq> 0" "thread_buffers toc st tid = Some (jb_buffer b)"
proof -
  have "toc_ok toc (j_ht st) (j_bufs st)" using inv by (simp add: jnl_inv_def)
  from toc_okD(5) [OF this m] obtain b where "j_bufs st d = Some b" "u32_bytes tid = u32_bytes (jb_thread_id b)" by blast
  moreover from this have "d \<noteq> 0" using inv by (auto simp: jnl_inv_def heap_ok_def)
  ultimately show thesis using m by (intro that [of b]) (auto simp: thread_buffers_def)
qed

lemma jnl_inv_locate:
  assumes inv: "jnl_inv env toc st"
  shows "runs (ht_locate_key (je_ht env) toc (je_sp env) (j_ht (poke_u32 (je_sp env) tid st))) (\<lambda>d w.
    jnl_inv env toc (st\<lparr>j_ht := w\<rparr>) \<and> ht_map toc w = ht_map toc (j_ht st) \<and>
    (case ht_map toc (j_ht st) (u32_bytes tid) of None \<Rightarrow> d = 0 \<and> w_errno w = ENOENT | Some x \<Rightarrow> d = x))"
proof -
  let ?w = "j_ht (poke_u32 (je_sp env) tid st)"
  have I: "stack_ok env" "heap_ok (je_heap_end env) (j_brk st) (j_bufs st)" "toc_ok toc (j_ht st) (j_bufs st)"
    using inv by (simp_all add: jnl_inv_def)
  have w: "toc_ok toc ?w (j_bufs st)" "ht_map toc ?w = ht_map toc (j_ht st)"
    using toc_ok_poke [OF I(3), of "je_sp env" tid] stack_apart [OF I(1,2)] by (simp_all add: poke_u32_def)
  have env: "env_ok (je_ht env)" using I(1) by (simp add: stack_ok_def)
  have wf: "ht_wf toc ?w" "ht_keysize_of toc ?w = 4" using w(1) by (simp_all add: toc_ok_def)
  have key: "ht_key toc ?w (je_sp env) = u32_bytes tid"
    by (simp add: ht_key_bytes wf(2)) (simp add: poke_u32_def key_bytes_put_same)
  show ?thesis
  proof (rule runs_mono [OF ht_locate_live [OF env wf(1)]])
    fix d w'
    assume A: "ht_wf toc w' \<and> same_data ?w w' \<and> ht_unique toc w' = ht_unique toc ?w \<and>
      (case ht_map toc ?w (ht_key toc ?w (je_sp env)) of None \<Rightarrow> d = 0 \<and> w_errno w' = ENOENT | Some x \<Rightarrow> d = x)"
    then have "toc_ok toc w' (j_bufs st)" "ht_map toc w' = ht_map toc ?w" using toc_ok_locate [OF w(1)] by blast+
    then show "jnl_inv env toc (st\<lparr>j_ht := w'\<rparr>) \<and> ht_map toc w' = ht_map toc (j_ht st) \<and>
      (case ht_map toc (j_ht st) (u32_bytes tid) of None \<Rightarrow> d = 0 \<and> w_errno w' = ENOENT | Some x \<Rightarrow> d = x)"
      using A inv w(2) unfolding key by (simp add: jnl_inv_def)
  qed
qed

lemma new_buffers_ok:
  assumes inv: "jnl_inv env toc st" and room: "jnl_room env st" and new: "ht_map toc (j_ht st) (u32_bytes tid) = None"
  shows "returns (new_buffers env tid index toc st) (\<lambda>a st'. fetched env toc tid st st' (new_texts (j_brk st)) \<and>
    ht_map toc (j_ht st') (u32_bytes tid) = Some a)"
proof -
  let ?a = "of_nat (j_brk st) :: u64"
  have I: "stack_ok env" "heap_ok (je_heap_end env) (j_brk st) (j_bufs st)" "toc_ok toc (j_ht st) (j_bufs st)" "j_toc st = Ptr toc"
    using inv by (simp_all add: jnl_inv_def)
  have env: "env_ok (je_ht env)" using I(1) by (simp add: stack_ok_def)
  have "j_brk st < 2 ^ 64" "j_brk st + 4136 < 2 ^ 64" using I(2) jnl_roomD(6) [OF room] by (simp_all add: heap_ok_def)
  then have un: "unat ?a = j_brk st" by (simp add: unat_small)
  then have ap: "apart ?a d" if "j_bufs st d \<noteq> None" for d
    using heap_ok_below [OF I(2) that] \<open>j_brk st + 4136 < 2 ^ 64\<close> by (simp add: apart_def)
  have fresh: "j_bufs st ?a = None" using heap_ok_below [OF I(2), of ?a] un by fastforce
  have tb: "thread_buffers toc (with_buffers tid (st\<lparr>j_ht := w\<rparr>)) = (thread_buffers toc st)(tid \<mapsto> new_texts (j_brk st))"
    if m: "ht_map toc w = (ht_map toc (j_ht st))(u32_bytes tid \<mapsto> ?a)" for w
  proof
    fix t
    show "thread_buffers toc (with_buffers tid (st\<lparr>j_ht := w\<rparr>)) t = ((thread_buffers toc st)(tid \<mapsto> new_texts (j_brk st))) t"
    proof (cases "t = tid")
      case True
      then show ?thesis by (simp add: thread_buffers_def with_buffers_def m)
    next
      case False
      have "ht_map toc (j_ht st) (u32_bytes t) \<noteq> Some ?a" using toc_okD(5) [OF I(3)] fresh by fastforce
      then show ?thesis using False by (auto simp: thread_buffers_def with_buffers_def m split: option.splits)
    qed
  qed
  have no_tb: "thread_buffers toc st tid = None" using new by (simp add: thread_buffers_def)
  show ?thesis
  proof (rule new_buffers_room [OF room I(2)], unfold returns_in_ht)
    let ?w = "(j_ht st)\<lparr>w_mem := put_u32 ?a tid (w_mem (j_ht st))\<rparr>"
    let ?st = "poke_u32 ?a tid (with_buffers tid st)"
    have w: "toc_ok toc ?w (j_bufs st)" "ht_map toc ?w = ht_map toc (j_ht st)" using toc_ok_poke [OF I(3) ap] by blast+
    have key: "ht_key toc ?w ?a = u32_bytes tid" by (simp add: ht_key_bytes toc_okD(3) [OF w(1)] key_bytes_put_same)
    have st: "j_ht ?st = ?w" by (simp add: poke_u32_def with_buffers_def)
    have none: "ht_map toc ?w (ht_key toc ?w ?a) = None" unfolding key w(2) by (rule new)
    show "runs (ht_insert_key (je_ht env) toc ?a ?a (j_ht ?st)) (\<lambda>r w'. r = 0 \<and>
        fetched env toc tid st (?st\<lparr>j_ht := w'\<rparr>) (new_texts (j_brk st)) \<and> ht_map toc (j_ht (?st\<lparr>j_ht := w'\<rparr>)) (u32_bytes tid) = Some ?a)"
      unfolding st
    proof (rule runs_mono [OF ht_insert_live [OF env toc_okD(1,2) [OF w(1)] none]])
      fix r w'
      assume A: "r = 0 \<and> ht_wf toc w' \<and> ht_unique toc w' \<and> w_mem w' = w_mem ?w \<and>
        ht_keysize_of toc w' = ht_keysize_of toc ?w \<and> ht_live toc w' \<subseteq> insert (?a, ?a) (ht_live toc ?w) \<and>
        ht_map toc w' = (ht_map toc ?w)(ht_key toc ?w ?a \<mapsto> ?a)"
      have "toc_ok toc w' ((j_bufs st)(?a \<mapsto> \<lparr>jb_thread_id = tid, jb_buffer = new_texts (j_brk st)\<rparr>))"
        using A by (intro toc_ok_insert [OF w(1) fresh]) (simp_all add: key)
      then have "jnl_inv env toc (?st\<lparr>j_ht := w'\<rparr>)"
        using I heap_ok_add [OF I(2), of tid] room by (simp add: jnl_inv_def poke_u32_def with_buffers_def jnl_room_def)
      moreover have m: "ht_map toc w' = (ht_map toc (j_ht st))(u32_bytes tid \<mapsto> ?a)" using A by (simp add: key w(2))
      moreover have "thread_buffers toc (?st\<lparr>j_ht := w'\<rparr>) = thread_buffers toc (with_buffers tid (st\<lparr>j_ht := w'\<rparr>))"
        by (rule ext) (simp add: thread_buffers_def poke_u32_def with_buffers_def split: option.splits)
      ultimately show "r = 0 \<and> fetched env toc tid st (?st\<lparr>j_ht := w'\<rparr>) (new_texts (j_brk st)) \<and>
          ht_map toc (j_ht (?st\<lparr>j_ht := w'\<rparr>)) (u32_bytes tid) = Some ?a"
        using A tb [OF m] by (simp add: fetched_def poke_u32_def with_buffers_def no_tb)
    qed
  qed
qed

lemma jnl_buffer_fetch_returns:
  assumes toc: "j_toc st = Ptr toc" and i: "0 \<le> i" "i < 4"
    and loc: "runs (ht_locate_key (je_ht env) toc (je_sp env) (j_ht (poke_u32 (je_sp env) tid st))) (\<lambda>d w.
      if d \<noteq> 0 then returns (case j_bufs st d of None \<Rightarrow> Stuck | Some b \<Rightarrow> Ret (jb_buffer b ! nat i) (st\<lparr>j_ht := w\<rparr>)) Q
      else w_errno w = ENOENT \<and> returns (new_buffers env tid i toc (st\<lparr>j_ht := w\<rparr>)) (\<lambda>a st'. a \<noteq> 0 \<and>
        returns (case j_bufs st' a of None \<Rightarrow> Stuck | Some b \<Rightarrow> Ret (jb_buffer b ! nat i) st') Q))"
  shows "returns (jnl_buffer_fetch env tid i st) Q"
proof -
  let ?st = "poke_u32 (je_sp env) tid st"
  have "j_toc ?st = Ptr toc" "\<And>w. ?st\<lparr>j_ht := w\<rparr> = st\<lparr>j_ht := w\<rparr>" "\<not> (i < jnlBI_MIN \<or> i \<ge> jnlBI_MAX)"
    using toc i by (simp_all add: poke_u32_def jnlBI_MIN_def jnlBI_MAX_def)
  note eqs = this
  obtain d w where run: "ht_locate_key (je_ht env) toc (je_sp env) (j_ht ?st) = Some (d, w)"
    and L: "if d \<noteq> 0 then returns (case j_bufs st d of None \<Rightarrow> Stuck | Some b \<Rightarrow> Ret (jb_buffer b ! nat i) (st\<lparr>j_ht := w\<rparr>)) Q
      else w_errno w = ENOENT \<and> returns (new_buffers env tid i toc (st\<lparr>j_ht := w\<rparr>)) (\<lambda>a st'. a \<noteq> 0 \<and>
        returns (case j_bufs st' a of None \<Rightarrow> Stuck | Some b \<Rightarrow> Ret (jb_buffer b ! nat i) st') Q)"
    using loc unfolding runs_def by blast
  have in_ht: "in_ht (ht_locate_key (je_ht env) toc (je_sp env)) ?st = Ret d (st\<lparr>j_ht := w\<rparr>)"
    by (simp add: in_ht_def run eqs(2))
  show ?thesis
  proof (cases "d = 0")
    case True
    have e: "\<not> w_errno (j_ht (st\<lparr>j_ht := w\<rparr>)) \<noteq> ENOENT" using L True by simp
    have "returns (new_buffers env tid i toc (st\<lparr>j_ht := w\<rparr>)) (\<lambda>a st'. a \<noteq> 0 \<and>
        returns (case j_bufs st' a of None \<Rightarrow> Stuck | Some b \<Rightarrow> Ret (jb_buffer b ! nat i) st') Q)" using L True by simp
    then show ?thesis using True unfolding jnl_buffer_fetch_def
      by (simp only: eqs(1,3) if_False Let_def ptr.case in_ht seq.simps returns_seq e simp_thms) (auto elim!: returns_mono)
  next
    case False
    then show ?thesis using L unfolding jnl_buffer_fetch_def
      by (simp only: eqs(1,3) if_False Let_def ptr.case in_ht seq.simps returns_seq simp_thms if_True returns_Ret) simp
  qed
qed

lemma jnl_buffer_fetch_ok:
  assumes inv: "jnl_inv env toc st" and i: "0 \<le> i" "i < 4"
    and room: "thread_buffers toc st tid \<noteq> None \<or> jnl_room env st"
  shows "returns (jnl_buffer_fetch env tid i st) (\<lambda>a st'. \<exists>bs. fetched env toc tid st st' bs \<and> a = bs ! nat i \<and>
    (thread_buffers toc st tid = None \<and> bs = new_texts (j_brk st) \<or> thread_buffers toc st tid = Some bs))"
proof -
  have toc: "j_toc st = Ptr toc" using inv by (simp add: jnl_inv_def)
  let ?Q = "\<lambda>a st'. \<exists>bs. fetched env toc tid st st' bs \<and> a = bs ! nat i \<and>
    (thread_buffers toc st tid = None \<and> bs = new_texts (j_brk st) \<or> thread_buffers toc st tid = Some bs)"
  have get: "returns (case j_bufs st' d of None \<Rightarrow> Stuck | Some b \<Rightarrow> Ret (jb_buffer b ! nat i) st') ?Q"
    if f: "fetched env toc tid st st' bs" and m: "ht_map toc (j_ht st') (u32_bytes tid) = Some d"
      and bs: "thread_buffers toc st tid = None \<and> bs = new_texts (j_brk st) \<or> thread_buffers toc st tid = Some bs" for st' d bs
  proof -
    have "jnl_inv env toc st'" using f by (simp add: fetched_def)
    from thread_buffers_found [OF this m] obtain b where "j_bufs st' d = Some b" "thread_buffers toc st' tid = Some (jb_buffer b)"
      by metis
    then show ?thesis using f bs by (auto simp: fetched_def)
  qed
  show ?thesis
  proof (rule jnl_buffer_fetch_returns [OF toc i], rule runs_mono [OF jnl_inv_locate [OF inv, of tid]])
    fix d w
    assume A: "jnl_inv env toc (st\<lparr>j_ht := w\<rparr>) \<and> ht_map toc w = ht_map toc (j_ht st) \<and>
      (case ht_map toc (j_ht st) (u32_bytes tid) of None \<Rightarrow> d = 0 \<and> w_errno w = ENOENT | Some x \<Rightarrow> d = x)"
    have tb: "thread_buffers toc (st\<lparr>j_ht := w\<rparr>) = thread_buffers toc st" using A by (intro ext) (simp add: thread_buffers_def split: option.splits)
    show "if d \<noteq> 0 then returns (case j_bufs st d of None \<Rightarrow> Stuck | Some b \<Rightarrow> Ret (jb_buffer b ! nat i) (st\<lparr>j_ht := w\<rparr>)) ?Q
      else w_errno w = ENOENT \<and> returns (new_buffers env tid i toc (st\<lparr>j_ht := w\<rparr>)) (\<lambda>a st'. a \<noteq> 0 \<and>
        returns (case j_bufs st' a of None \<Rightarrow> Stuck | Some b \<Rightarrow> Ret (jb_buffer b ! nat i) st') ?Q)"
    proof (cases "ht_map toc (j_ht st) (u32_bytes tid)")
      case None
      have R: "jnl_room env (st\<lparr>j_ht := w\<rparr>)" using None room by (simp add: thread_buffers_def jnl_room_def)
      have n: "ht_map toc (j_ht (st\<lparr>j_ht := w\<rparr>)) (u32_bytes tid) = None" using A None by simp
      have new: "returns (new_buffers env tid i toc (st\<lparr>j_ht := w\<rparr>)) (\<lambda>a st'. fetched env toc tid st st' (new_texts (j_brk st)) \<and>
          ht_map toc (j_ht st') (u32_bytes tid) = Some a)"
        using new_buffers_ok [OF conjunct1 [OF A] R n] by (simp add: fetched_def tb)
      have "returns (new_buffers env tid i toc (st\<lparr>j_ht := w\<rparr>)) (\<lambda>a st'. a \<noteq> 0 \<and>
          returns (case j_bufs st' a of None \<Rightarrow> Stuck | Some b \<Rightarrow> Ret (jb_buffer b ! nat i) st') ?Q)"
      proof (rule returns_mono [OF new], rule conjI)
        fix a st'
        assume B: "fetched env toc tid st st' (new_texts (j_brk st)) \<and> ht_map toc (j_ht st') (u32_bytes tid) = Some a"
        then have "jnl_inv env toc st'" by (simp add: fetched_def)
        then show "a \<noteq> 0" using B thread_buffers_found by metis
        show "returns (case j_bufs st' a of None \<Rightarrow> Stuck | Some b \<Rightarrow> Ret (jb_buffer b ! nat i) st') ?Q"
          using B None by (intro get [of st' "new_texts (j_brk st)" a]) (simp_all add: thread_buffers_def)
      qed
      then show ?thesis using A None by simp
    next
      case (Some x)
      obtain b where b: "j_bufs st x = Some b" "x \<noteq> 0" "thread_buffers toc st tid = Some (jb_buffer b)"
        using thread_buffers_found [OF inv Some] by metis
      have "fetched env toc tid st (st\<lparr>j_ht := w\<rparr>) (jb_buffer b)" using A b(3) by (simp add: fetched_def tb fun_upd_idem)
      then show ?thesis using A Some b get [of "st\<lparr>j_ht := w\<rparr>" "jb_buffer b" x] by simp
    qed
  qed
qed

end
