(* ===== verification/Stf_Cases.thy ===== *)
theory Stf_Cases
  imports Stf_Calls
begin

text \<open>
  The calls of \<^verbatim>\<open>libstf.c\<close> that mark test cases and assertions and count results, in a
  system without failures and with a variable file.
\<close>

section \<open>Test cases\<close>

definition name_of :: "string \<Rightarrow> string" where
  "name_of line = takeWhile (\<lambda>c. c \<noteq> CHR '' '') line"

definition tc_start_line :: "int \<Rightarrow> string \<Rightarrow> string \<Rightarrow> int \<Rightarrow> string" where
  "tc_start_line pid line time act = ''Test_Case_Start| '' @ dec pid @ '' '' @ line @ '' | '' @ time @ '' '' @ dec act @ '' |''"

lemma stf_jnl_testcase_start_pid_ok:
  assumes "io_calm env" "proc_wf s" "vars_ready i s" and v: "vars_at i s = Some v"
    and "CHR '' '' \<in> set line" "length line < MAXCHAR" "length (name_of line) < 256"
  shows "returns (stf_jnl_testcase_start_pid env pid line s) (\<lambda>_ s'.
    (\<exists>t. logged (cut (tc_start_line pid line (time_text env t) (sint (jact v)) @ [NL])) s s') \<and>
    vars_set i (v\<lparr>jasrt := name_of line, jseq := jseq v + 1\<rparr>) s s')"
proof -
  obtain fd s1 where op: "stf_jnl_open env s = Ret fd s1" and o: "opened s fd s1"
    using assms(1,2) by (rule journal_openE)
  obtain n where vm: "vfile_mmap env s1 = (JV i, s1\<lparr>p_tick := n, p_jv := JV i\<rparr>)"
    using assms(1) o assms(3) by (rule vars_mappedE)
  let ?s2 = "s1\<lparr>p_tick := n, p_jv := JV i\<rparr>"
  let ?w = "v\<lparr>jasrt := name_of line, jseq := jseq v + 1\<rparr>"
  let ?f = "\<lambda>v s. seq (strcpy 256 (name_of line) s) (\<lambda>t s. Ret (v\<lparr>jasrt := t, jseq := jseq v + 1\<rparr>) s)"
  have v2: "vars_at i ?s2 = Some v" using v openedD(6) [OF o] by (simp add: vars_at_def)
  have lk: "jvar_mlock v = MX_Free" using assms(3) v by (simp add: vars_ready_def)
  obtain s3 where s3: "vars_locked env ''stf_jnl_testcase_start'' i ?f ?s2 = Ret () s3" "still ?s2 s3" "p_jv s3 = p_jv ?s2"
    "\<And>j. vars_at j s3 = (if j = i then Some ?w else vars_at j ?s2)"
    by (rule vars_lockedE [OF assms(1) v2 lk, of ?f ?w "''stf_jnl_testcase_start''"])
      (use assms(7) lk in \<open>auto simp: strcpy_def\<close>)
  let ?t = "tc_start_line pid line (time_text env (p_tick s3)) (sint (jact v)) @ [NL]"
  have "format ''%s| %d %s | %s %d |\<newline>''
      [AStr JNL_TESTCASE_START, AInt pid, AStr line, AStr (time_text env (p_tick s3)), AInt (sint (jact v))] = Some ?t"
    by (simp add: fmt tc_start_line_def JNL_TESTCASE_START_def)
  note sp = sprint_cut [OF this]
  have st: "still s1 (ptick s3)" by (rule still_trans [OF still_tick(3) still_trans [OF s3(2) still_tick(1)]])
  have eq: "stf_jnl_testcase_start_pid env pid line s =
      seq (print_entry env (cut ?t) fd (ptick s3)) (\<lambda>_ s. Ret () (snd (stf_jnl_close fd s)))"
    using assms(5)
    by (simp only: stf_jnl_testcase_start_pid_def op seq.simps strcpy_ok [OF assms(6)] not_True_eq_False if_False
        Let_def vm prod.case jvptr.case vars_read_ok [OF v2] name_of_def [symmetric] s3(1) get_time_ok [OF assms(1)] sp)
  show ?thesis unfolding eq
  proof (rule returns_mono [OF finish_call [OF assms(1) o st]])
    fix r s'
    assume A: "logged (cut ?t) s s' \<and> (\<forall>i. vars_at i s' = vars_at i (ptick s3)) \<and> p_jv s' = p_jv (ptick s3)"
    then show "(\<exists>t. logged (cut (tc_start_line pid line (time_text env t) (sint (jact v)) @ [NL])) s s') \<and> vars_set i ?w s s'"
      using s3(3,4) openedD(6) [OF o] by (auto simp: vars_set_def vars_at_def)
  qed
qed

definition result_text :: "io_env \<Rightarrow> u32 \<Rightarrow> string" where
  "result_text env status =
     (let name = get_status_name (WEXITSTATUS status); ex = WEXITSTATUS status; sig = dec (WTERMSIG status) in
      if \<not> io_signaled env status
      then if ex < STF_OTHER then name else name @ ''_'' @ dec ex
      else if ex = STF_TIMED_OUT then name @ '' '' @ sig
      else if ex < STF_OTHER then ''NORESULT '' @ sig
      else name @ ''_'' @ dec ex @ '' '' @ sig)"

definition tc_end_line :: "int \<Rightarrow> string \<Rightarrow> string \<Rightarrow> string \<Rightarrow> int \<Rightarrow> string" where
  "tc_end_line pid name res time act =
     ''Test_Case_End| '' @ dec pid @ '' '' @ name @ '' | '' @ res @ '' | '' @ time @ '' '' @ dec act @ '' |''"

lemma tc_end_format:
  assumes "testcase_result env status = (f, res)"
  shows "format (''%s| %d %s | '' @ f @ '' | %s %d |\<newline>'')
    ([AStr JNL_TESTCASE_END, AInt pid, AStr name] @ res @ [AStr time, AInt act]) =
    Some (tc_end_line pid name (result_text env status) time act @ [NL])"
  using assms
  by (auto simp: testcase_result_def result_text_def Let_def fmt tc_end_line_def JNL_TESTCASE_END_def stf_codes
      result_tbl_def split: if_splits)

lemma stf_jnl_testcase_end_ok:
  assumes "io_calm env" "proc_wf s" "vars_ready i s" and v: "vars_at i s = Some v"
  shows "returns (stf_jnl_testcase_end env name child_pid status s) (\<lambda>_ s'.
    (\<exists>t s''. logged (cut (tc_end_line child_pid name (result_text env status) (time_text env t) (uint (jact v)) @ [NL])) s s'' \<and>
       s' = s''\<lparr>p_stdout := p_stdout s'' @ get_status_name (WEXITSTATUS status) @ [NL]\<rparr>) \<and>
    vars_set i (v\<lparr>jseq := jseq v + 1\<rparr>) s s')"
proof -
  obtain fd s1 where op: "stf_jnl_open env s = Ret fd s1" and o: "opened s fd s1"
    using assms(1,2) by (rule journal_openE)
  obtain n where vm: "vfile_mmap env s1 = (JV i, s1\<lparr>p_tick := n, p_jv := JV i\<rparr>)"
    using assms(1) o assms(3) by (rule vars_mappedE)
  let ?s2 = "s1\<lparr>p_tick := n, p_jv := JV i\<rparr>"
  let ?w = "v\<lparr>jseq := jseq v + 1\<rparr>"
  let ?f = "\<lambda>v s. Ret (v\<lparr>jseq := jseq v + 1\<rparr>) s"
  have v2: "vars_at i ?s2 = Some v" using v openedD(6) [OF o] by (simp add: vars_at_def)
  have lk: "jvar_mlock v = MX_Free" using assms(3) v by (simp add: vars_ready_def)
  obtain s3 where s3: "vars_locked env ''stf_jnl_testcase_end'' i ?f ?s2 = Ret () s3" "still ?s2 s3" "p_jv s3 = p_jv ?s2"
    "\<And>j. vars_at j s3 = (if j = i then Some ?w else vars_at j ?s2)"
    by (rule vars_lockedE [OF assms(1) v2 lk, of ?f ?w "''stf_jnl_testcase_end''"]) (use lk in auto)
  obtain f res where tr: "testcase_result env status = (f, res)" by (cases "testcase_result env status")
  let ?t = "tc_end_line child_pid name (result_text env status) (time_text env (p_tick s3)) (uint (jact v)) @ [NL]"
  note sp = sprint_cut [OF tc_end_format [OF tr]]
  have st: "still s1 (ptick s3)" by (rule still_trans [OF still_tick(3) still_trans [OF s3(2) still_tick(1)]])
  obtain s4 where s4: "seq (print_entry env (cut ?t) fd (ptick s3)) (\<lambda>_ s. Ret () (snd (stf_jnl_close fd s))) = Ret () s4"
    "logged (cut ?t) s s4" "\<And>j. vars_at j s4 = vars_at j (ptick s3)" "p_jv s4 = p_jv (ptick s3)"
    using finish_call [OF assms(1) o st, of "cut ?t"] by (auto simp: returns_def)
  obtain s5 where s5: "print_entry env (cut ?t) fd (ptick s3) = Ret () s5" "snd (stf_jnl_close fd s5) = s4"
    using s4(1) by (cases "print_entry env (cut ?t) fd (ptick s3)") auto
  have eq: "stf_jnl_testcase_end env name child_pid status s =
      Ret () (s4\<lparr>p_stdout := p_stdout s4 @ get_status_name (WEXITSTATUS status) @ [NL]\<rparr>)"
    by (simp only: stf_jnl_testcase_end_def op seq.simps Let_def vm prod.case jvptr.case vars_read_ok [OF v2] s3(1)
        get_time_ok [OF assms(1)] tr sp s5)
  show ?thesis unfolding eq using s4(2-4) s3(3,4) openedD(6) [OF o]
    by (fastforce simp: vars_set_def vars_at_def)
qed

section \<open>Assertions\<close>

definition assert_start_line :: "int \<Rightarrow> string \<Rightarrow> string \<Rightarrow> int \<Rightarrow> string" where
  "assert_start_line pid ident time act = ''Assertion_Start| '' @ dec pid @ '' '' @ ident @ '' | '' @ time @ '' '' @ dec act @ '' |''"

definition assert_end_line :: "int \<Rightarrow> string \<Rightarrow> string \<Rightarrow> string \<Rightarrow> int \<Rightarrow> string" where
  "assert_end_line pid ident res time act =
     ''Assertion_End| '' @ dec pid @ '' '' @ ident @ '' | '' @ res @ '' | '' @ time @ '' '' @ dec act @ '' |''"

lemma stf_jnl_assert_start_pid_ok:
  assumes "io_calm env" "proc_wf s" "vars_ready i s" and v: "vars_at i s = Some v"
    and "length subid < 256" "length (jargid v) < 256"
  shows "returns (stf_jnl_assert_start_pid env pid subid s) (\<lambda>_ s'.
    (\<exists>t. logged (cut (assert_start_line pid (jasrt v @ id_text subid (Some (jargid v))) (time_text env t) (sint (jact v)) @ [NL])) s s') \<and>
    vars_set i (v\<lparr>jsubid := subid, jblk := 0, jseq := 0\<rparr>) s s')"
proof -
  obtain fd s1 where op: "stf_jnl_open env s = Ret fd s1" and o: "opened s fd s1"
    using assms(1,2) by (rule journal_openE)
  obtain n where vm: "vfile_mmap env s1 = (JV i, s1\<lparr>p_tick := n, p_jv := JV i\<rparr>)"
    using assms(1) o assms(3) by (rule vars_mappedE)
  let ?s2 = "s1\<lparr>p_tick := n, p_jv := JV i\<rparr>"
  let ?w = "v\<lparr>jsubid := subid, jblk := 0, jseq := 0\<rparr>"
  let ?f = "\<lambda>v s. seq (strcpy 256 subid s) (\<lambda>t s. Ret (v\<lparr>jsubid := t, jblk := 0, jseq := 0\<rparr>) s)"
  have v2: "vars_at i ?s2 = Some v" using v openedD(6) [OF o] by (simp add: vars_at_def)
  have lk: "jvar_mlock v = MX_Free" using assms(3) v by (simp add: vars_ready_def)
  obtain s3 where s3: "vars_locked env ''stf_jnl_assert_start'' i ?f ?s2 = Ret () s3" "still ?s2 s3" "p_jv s3 = p_jv ?s2"
    "\<And>j. vars_at j s3 = (if j = i then Some ?w else vars_at j ?s2)"
    by (rule vars_lockedE [OF assms(1) v2 lk, of ?f ?w "''stf_jnl_assert_start''"]) (use assms(5) lk in \<open>auto simp: strcpy_def\<close>)
  have v3: "vars_at i s3 = Some ?w" using s3(4) by simp
  let ?id = "id_text subid (Some (jargid v))"
  have bid: "build_id subid (Some (jargid v)) s3 = Ret ?id s3"
    using assms(5,6) by (auto simp: build_id_def id_text_def MAXCHAR_def intro!: strcpy_ok)
  let ?t = "assert_start_line pid (jasrt v @ ?id) (time_text env (p_tick s3)) (sint (jact v)) @ [NL]"
  have "format ''%s| %d %s%s | %s %d |\<newline>''
      [AStr JNL_ASSERT_START, AInt pid, AStr (jasrt v), AStr ?id, AStr (time_text env (p_tick s3)), AInt (sint (jact v))] = Some ?t"
    by (simp add: fmt assert_start_line_def JNL_ASSERT_START_def)
  note sp = sprint_cut [OF this]
  have sel: "jact ?w = jact v" "jasrt ?w = jasrt v" "jargid ?w = jargid v" by simp_all
  have st: "still s1 (ptick s3)" by (rule still_trans [OF still_tick(3) still_trans [OF s3(2) still_tick(1)]])
  have eq: "stf_jnl_assert_start_pid env pid subid s =
      seq (print_entry env (cut ?t) fd (ptick s3)) (\<lambda>_ s. Ret () (snd (stf_jnl_close fd s)))"
    by (simp only: stf_jnl_assert_start_pid_def op seq.simps Let_def vm prod.case jvptr.case vars_read_ok [OF v3] sel bid s3(1)
        get_time_ok [OF assms(1)] sp)
  show ?thesis unfolding eq
  proof (rule returns_mono [OF finish_call [OF assms(1) o st]])
    fix r s'
    assume A: "logged (cut ?t) s s' \<and> (\<forall>i. vars_at i s' = vars_at i (ptick s3)) \<and> p_jv s' = p_jv (ptick s3)"
    then show "(\<exists>t. logged (cut (assert_start_line pid (jasrt v @ ?id) (time_text env t) (sint (jact v)) @ [NL])) s s') \<and> vars_set i ?w s s'"
      using s3(3,4) openedD(6) [OF o] by (auto simp: vars_set_def vars_at_def)
  qed
qed

lemma stf_jnl_assert_end_pid_ok:
  assumes "io_calm env" "proc_wf s" "vars_ready i s" and v: "vars_at i s = Some v"
    and "length (jsubid v) < 256" "length (jargid v) < 256"
  shows "returns (stf_jnl_assert_end_pid env pid result s) (\<lambda>_ s'.
    (\<exists>t. logged (cut (assert_end_line pid (jasrt v @ id_text (jsubid v) (Some (jargid v))) (get_status_name result)
             (time_text env t) (sint (jact v)) @ [NL])) s s') \<and>
    vars_set i v s s')"
proof -
  obtain fd s1 where op: "stf_jnl_open env s = Ret fd s1" and o: "opened s fd s1"
    using assms(1,2) by (rule journal_openE)
  obtain n where vm: "vfile_mmap env s1 = (JV i, s1\<lparr>p_tick := n, p_jv := JV i\<rparr>)"
    using assms(1) o assms(3) by (rule vars_mappedE)
  let ?s2 = "s1\<lparr>p_tick := n, p_jv := JV i\<rparr>"
  have v2: "vars_at i ?s2 = Some v" using v openedD(6) [OF o] by (simp add: vars_at_def)
  let ?id = "id_text (jsubid v) (Some (jargid v))"
  have bid: "build_id (jsubid v) (Some (jargid v)) ?s2 = Ret ?id ?s2"
    using assms(5,6) by (auto simp: build_id_def id_text_def MAXCHAR_def intro!: strcpy_ok)
  let ?t = "assert_end_line pid (jasrt v @ ?id) (get_status_name result) (time_text env (p_tick ?s2)) (sint (jact v)) @ [NL]"
  have "format ''%s| %d %s%s | %s | %s %d |\<newline>''
      [AStr JNL_ASSERT_END, AInt pid, AStr (jasrt v), AStr ?id, AStr (get_status_name result),
       AStr (time_text env (p_tick ?s2)), AInt (sint (jact v))] = Some ?t"
    by (simp add: fmt assert_end_line_def JNL_ASSERT_END_def)
  note sp = sprint_cut [OF this]
  have st: "still s1 (ptick ?s2)" by (rule still_trans [OF still_tick(3) still_tick(1)])
  have eq: "stf_jnl_assert_end_pid env pid result s =
      seq (print_entry env (cut ?t) fd (ptick ?s2)) (\<lambda>_ s. Ret () (snd (stf_jnl_close fd s)))"
    by (simp only: stf_jnl_assert_end_pid_def op seq.simps Let_def vm prod.case jvptr.case vars_read_ok [OF v2] bid
        get_time_ok [OF assms(1)] sp)
  show ?thesis unfolding eq
  proof (rule returns_mono [OF finish_call [OF assms(1) o st]])
    fix r s'
    assume A: "logged (cut ?t) s s' \<and> (\<forall>i. vars_at i s' = vars_at i (ptick ?s2)) \<and> p_jv s' = p_jv (ptick ?s2)"
    then have "vars_set i v s s'" using v openedD(6) [OF o] by (auto simp: vars_set_def vars_at_def)
    with A show "(\<exists>t. logged (cut (assert_end_line pid (jasrt v @ ?id) (get_status_name result) (time_text env t)
        (sint (jact v)) @ [NL])) s s') \<and> vars_set i v s s'" by blast
  qed
qed

section \<open>Totals\<close>

definition one_total :: "(nat \<Rightarrow> int) \<Rightarrow> nat \<Rightarrow> string" where
  "one_total cts i = (if cts i = 0 then [] else take 19 ('' '' @ result_tbl ! i @ '':'' @ dec (cts i)))"

definition totals_line :: "int \<Rightarrow> string \<Rightarrow> (nat \<Rightarrow> int) \<Rightarrow> string" where
  "totals_line pid ident cts = ''Totals| '' @ dec pid @ '' '' @ ident @ '' |'' @ concat (map (one_total cts) [0..<11])"

lemma totals_loop_ok:
  "k \<le> 11 \<Longrightarrow> length acc + 19 * k < MAXCHAR \<Longrightarrow>
   totals_loop k cts acc s = Ret (acc @ concat (map (one_total cts) [11 - k..<11])) s"
proof (induction k arbitrary: acc)
  case (Suc k)
  let ?i = "11 - Suc k"
  have up: "[?i..<11] = ?i # [11 - k..<11]" 
    using upt_conv_Cons [of ?i 11] Suc.prems(1) by (simp only: Suc_diff_Suc [of k 11] Suc_le_eq)
  have "format '' %s:%d'' [AStr (result_tbl ! ?i), AInt (cts ?i)] = Some ('' '' @ result_tbl ! ?i @ '':'' @ dec (cts ?i))"
    by (simp add: fmt)
  then have sp: "sprint 20 '' %s:%d'' [AStr (result_tbl ! ?i), AInt (cts ?i)] s =
      Ret (take 19 ('' '' @ result_tbl ! ?i @ '':'' @ dec (cts ?i))) s" by (simp add: sprint_ok)
  show ?case
  proof (cases "cts ?i = 0")
    case True
    then show ?thesis using Suc up by (simp add: STF_MAX_RESULTS_def Let_def one_total_def)
  next
    case False
    let ?one = "take 19 ('' '' @ result_tbl ! ?i @ '':'' @ dec (cts ?i))"
    have len: "length (acc @ ?one) + 19 * k < MAXCHAR"
    proof -
      have "length ?one \<le> 19" by simp
      moreover have "a + 19 * Suc k < m \<Longrightarrow> l \<le> 19 \<Longrightarrow> a + l + 19 * k < m" for a l m :: nat by simp
      ultimately show ?thesis using Suc.prems(2) unfolding length_append by blast
    qed
    then have "totals_loop (Suc k) cts acc s = totals_loop k cts (acc @ ?one) s"
      using False sp by (simp add: STF_MAX_RESULTS_def Let_def strcpy_ok del: append_Cons)
    also have "\<dots> = Ret ((acc @ ?one) @ concat (map (one_total cts) [11 - k..<11])) s"
      using Suc.prems(1) len by (intro Suc.IH) auto
    finally show ?thesis
      by (simp only: up list.map concat.simps append_assoc one_total_def [of cts ?i] False if_False)
  qed
qed simp

lemma stf_jnl_totals_pid_ok:
  assumes "io_calm env" "proc_wf s" "vars_ready i s" and v: "vars_at i s = Some v" and "length id_name < 8000"
  shows "returns (stf_jnl_totals_pid env pid id_name cts s) (\<lambda>_ s'.
    logged (cut (totals_line pid (jasrt v @ id_text id_name None) cts @ [NL])) s s' \<and> vars_set i v s s')"
proof -
  obtain fd s1 where op: "stf_jnl_open env s = Ret fd s1" and o: "opened s fd s1"
    using assms(1,2) by (rule journal_openE)
  obtain n where vm: "vfile_mmap env s1 = (JV i, s1\<lparr>p_tick := n, p_jv := JV i\<rparr>)"
    using assms(1) o assms(3) by (rule vars_mappedE)
  let ?s2 = "s1\<lparr>p_tick := n, p_jv := JV i\<rparr>"
  have v2: "vars_at i ?s2 = Some v" using v openedD(6) [OF o] by (simp add: vars_at_def)
  let ?id = "id_text id_name None" and ?tot = "concat (map (one_total cts) [0..<11])"
  have bid: "build_id id_name None ?s2 = Ret ?id ?s2"
    using assms(5) by (auto simp: build_id_def id_text_def MAXCHAR_def intro!: strcpy_ok)
  have tl: "totals_loop (nat STF_MAX_RESULTS) cts [] ?s2 = Ret ?tot ?s2"
    using totals_loop_ok [of 11 "[]" cts ?s2] by (simp add: STF_MAX_RESULTS_def MAXCHAR_def)
  let ?t = "totals_line pid (jasrt v @ ?id) cts @ [NL]"
  have "format ''%s| %d %s%s |%s\<newline>'' [AStr JNL_TOTALS, AInt pid, AStr (jasrt v), AStr ?id, AStr ?tot] = Some ?t"
    by (simp add: fmt totals_line_def JNL_TOTALS_def del: upt_rec_numeral)
  note sp = sprint_cut [OF this]
  have eq: "stf_jnl_totals_pid env pid id_name cts s =
      seq (print_entry env (cut ?t) fd ?s2) (\<lambda>_ s. Ret () (snd (stf_jnl_close fd s)))"
    by (simp only: stf_jnl_totals_pid_def op seq.simps Let_def vm prod.case jvptr.case vars_read_ok [OF v2] bid tl sp)
  show ?thesis unfolding eq
  proof (rule returns_mono [OF finish_call [OF assms(1) o still_tick(3)]])
    fix r s'
    assume A: "logged (cut ?t) s s' \<and> (\<forall>i. vars_at i s' = vars_at i ?s2) \<and> p_jv s' = p_jv ?s2"
    then have "vars_set i v s s'" using v openedD(6) [OF o] by (auto simp: vars_set_def vars_at_def)
    with A show "logged (cut ?t) s s' \<and> vars_set i v s s'" by blast
  qed
qed

end
