(* ===== verification/Stf_Run.thy ===== *)
theory Stf_Run
  imports Stf_Calls
begin

text \<open>
  The start and the end of a run: \<^verbatim>\<open>stf_jnl_start_pid\<close> creates the variable file and writes two lines,
  \<^verbatim>\<open>stf_jnl_end_pid\<close> writes a line and removes the file.
\<close>

section \<open>Start\<close>

text \<open>The name of the variable file: that of the environment, or one made from the process id.\<close>

definition var_name :: "process \<Rightarrow> string" where
  "var_name s = (case getenv VARFILE s of Some vfile \<Rightarrow> vfile | None \<Rightarrow> VARFNAME @ dec (p_pid s))"

definition date_text :: "io_env \<Rightarrow> nat \<Rightarrow> string" where
  "date_text env t =
     (case io_time env t of
        None \<Rightarrow> []
      | Some tp \<Rightarrow>
          (case snprintf 20 ''%04d%02d%02d'' [AInt (tm_year tp + 1900), AInt (tm_mon tp + 1), AInt (tm_mday tp)] of
             None \<Rightarrow> [] | Some (r, b) \<Rightarrow> b))"

lemma get_dt_ok:
  assumes "io_calm env"
  shows "get_dt env s = Ret (date_text env (p_tick s)) (ptick s)"
  using io_calmD(5) [OF assms, of "p_tick s"]
  by (auto simp: get_dt_def date_text_def sprint_def snprintf_def fmt)

definition start_line1 :: "io_env \<Rightarrow> string \<Rightarrow> string \<Rightarrow> string" where
  "start_line1 env date time =
     ''Start| '' @ date @ '' '' @ user_name env @ '' ('' @ dec (uint (io_uid env)) @ '') | tpi 1.4 | '' @ time @ '' 0 |''"

definition start_line2 :: "io_env \<Rightarrow> int \<Rightarrow> string" where
  "start_line2 env pid =
     (case io_uname env of
        None \<Rightarrow> []
      | Some u \<Rightarrow> ''Start| '' @ dec pid @ '' '' @ sysname u @ '' '' @ release u @ '' '' @ version u @ '' '' @ machine u @
                  '' '' @ nodename u @ '' |'')"

lemma start_varfile_ok:
  assumes "0 \<le> p_pid s" "p_pid s \<le> INT_MAX"
  shows "start_varfile s = Ret (var_name s) (s\<lparr>p_env := (p_env s)(VARFILE \<mapsto> var_name s)\<rparr>)"
proof (cases "getenv VARFILE s")
  case None
  have "length (dec (p_pid s)) \<le> 11" using assms by (intro length_dec_int) (simp_all add: INT_MIN_def)
  then have len: "length (var_name s) \<le> 28" by (simp add: var_name_def VARFNAME_def None)
  have "format ''%s%ld'' [AStr VARFNAME, AInt (p_pid s)] = Some (var_name s)"
    "format ''VARFILE=%s'' [AStr (var_name s)] = Some (''VARFILE='' @ var_name s)"
    by (simp_all add: fmt var_name_def None)
  then have "sprint 40 ''%s%ld'' [AStr VARFNAME, AInt (p_pid s)] s = Ret (var_name s) s"
    "sprint 40 ''VARFILE=%s'' [AStr (var_name s)] s = Ret (''VARFILE='' @ var_name s) s"
    using len by (simp_all add: sprint_ok)
  then show ?thesis using None by (simp add: start_varfile_def putenv_def VARFILE_def)
next
  case (Some v)
  then show ?thesis by (simp add: start_varfile_def var_name_def getenv_def fun_upd_idem)
qed

lemma start_vars_ok:
  assumes "io_calm env" "p_dir s name = None"
  shows "\<exists>n. start_vars env fd name s = Ret (JV (p_next s))
    (s\<lparr>p_tick := n, p_dir := (p_dir s)(name \<mapsto> p_next s), p_inodes := (p_inodes s)(p_next s \<mapsto> Vars vf_init), p_next := Suc (p_next s)\<rparr>)"
proof -
  note calm = io_calmD [OF assms(1)]
  have "fresh_fd (s\<lparr>p_umask := 0\<rparr>) = fresh_fd s" by (simp add: fresh_fd_def)
  then have "start_vars env fd name s = Ret (JV (p_next s))
    (s\<lparr>p_tick := Suc (Suc (Suc (Suc (p_tick s)))), p_dir := (p_dir s)(name \<mapsto> p_next s),
       p_inodes := (p_inodes s)(p_next s \<mapsto> Vars vf_init), p_next := Suc (p_next s)\<rparr>)"
    using calm assms(2) filter_fresh [of s]
    by (simp add: start_vars_def umask_def open_file_def write_vars_def mmap_fd_def close_fd_def Let_def)
  then show ?thesis ..
qed

text \<open>
  What the start leaves: two more lines, a variable file that is ready, its name in the environment,
  and the journal open on a descriptor that was free before, if the journal is a file.
\<close>

definition started :: "io_env \<Rightarrow> int \<Rightarrow> process \<Rightarrow> process \<Rightarrow> bool" where
  "started env pid s s' \<longleftrightarrow>
     (\<exists>t u. journal s' = journal s @ cut (start_line1 env (date_text env t) (time_text env u) @ [NL]) @
                          cut (start_line2 env pid @ [NL])) \<and>
     proc_wf s' \<and> p_pid s' = p_pid s \<and> getenv VARFILE s' = Some (var_name s) \<and> getenv JNLNAME s' = getenv JNLNAME s \<and>
     (\<exists>i. p_dir s' (var_name s) = Some i \<and> vars_at i s' = Some vf_init) \<and> p_jv s' = p_jv s \<and>
     (case getenv JNLNAME s of
        None \<Rightarrow> p_fds s' = p_fds s
      | Some p \<Rightarrow> \<exists>fd i. fd \<notin> fst ` set (p_fds s) \<and> p_dir s' p = Some i \<and> map_of (p_fds s') fd = Some (Inode i))"

lemma stf_jnl_start_pid_ok:
  assumes "io_calm env" "proc_wf s" and vf: "0 \<le> p_pid s" "p_pid s \<le> INT_MAX"
    and new: "p_dir s (var_name s) = None" "getenv JNLNAME s \<noteq> Some (var_name s)"
  shows "returns (stf_jnl_start_pid env pid s) (\<lambda>_. started env pid s)"
proof -
  obtain fd s1 where op: "stf_jnl_open env s = Ret fd s1" and o: "opened s fd s1"
    using assms(1,2) by (rule journal_openE)
  note O = openedD [OF o]
  let ?v = "var_name s"
  have vn: "var_name s1 = ?v" using O(3,5) by (simp add: var_name_def getenv_def split: option.splits)
  let ?s2 = "s1\<lparr>p_env := (p_env s1)(VARFILE \<mapsto> ?v)\<rparr>"
  have vf1: "start_varfile s1 = Ret ?v ?s2"
    using start_varfile_ok [of s1] vf O vn by (simp add: getenv_def)
  have d2: "p_dir ?s2 ?v = None" using o new by (auto simp: opened_def)
  obtain n s3 where s3: "s3 = ?s2\<lparr>p_tick := n, p_dir := (p_dir s1)(?v \<mapsto> p_next s1),
      p_inodes := (p_inodes s1)(p_next s1 \<mapsto> Vars vf_init), p_next := Suc (p_next s1)\<rparr>"
    and sv: "start_vars env fd ?v ?s2 = Ret (JV (p_next s1)) s3"
    using start_vars_ok [OF assms(1) d2, of fd] by auto
  have je: "p_env s3 JNLNAME = p_env s JNLNAME" using O by (simp add: s3 JNLNAME_def VARFILE_def)
  have fresh: "p_inodes s1 (p_next s1) = None" using O(2) by (simp add: proc_wf_def)
  have jn: "getenv JNLNAME s1 \<noteq> Some ?v" using new O(5) by (simp add: getenv_def)
  have on3: "jnl_on fd s3" using O(1,2) fresh jn je O(5)
    by (auto simp: s3 jnl_on_def getenv_def split: option.splits) (metis option.distinct(1))
  have wf3: "proc_wf s3" using O(2) fresh jn je O(5) by (auto simp: s3 proc_wf_def getenv_def)
  have j3: "journal s3 = journal s"
  proof -
    have "journal s3 = journal s1" using fresh jn je O(5) O(2)
      by (auto simp: s3 journal_def getenv_def proc_wf_def split: option.splits)
    then show ?thesis using o by (simp add: opened_def)
  qed
  obtain u where u: "io_uname env = Some u" using io_calmD(7) [OF assms(1)] by auto
  let ?s5 = "ptick (ptick s3)"
  let ?t1 = "start_line1 env (date_text env (p_tick s3)) (time_text env (p_tick (ptick s3))) @ [NL]" and ?t2 = "start_line2 env pid @ [NL]"
  have v5: "vars_at (p_next s1) ?s5 = Some vf_init" by (simp add: s3 vars_at_def)
  have "format ''%s| %s %s (%ld) | tpi %1.1f | %s %d |\<newline>''
     [AStr JNL_START, AStr (date_text env (p_tick s3)), AStr (user_name env), AInt (uint (io_uid env)), ATenths 14,
      AStr (time_text env (p_tick (ptick s3))), AInt (uint (jact vf_init))] = Some ?t1"
    by (simp add: fmt start_line1_def JNL_START_def vf_init_def dec_def numeral_in.simps padded_def)
  note sp1 = sprint_cut [OF this]
  have "format ''%s| %d %s %s %s %s %s |\<newline>''
     [AStr JNL_START, AInt pid, AStr (sysname u), AStr (release u), AStr (version u), AStr (machine u), AStr (nodename u)] = Some ?t2"
    by (simp add: fmt start_line2_def JNL_START_def u)
  note sp2 = sprint_cut [OF this]
  have on5: "jnl_on fd ?s5" "proc_wf ?s5"
    using still_jnl_on [OF still_tick(1) on3] still_wf [OF still_tick(1) wf3] by simp_all
  obtain s6 where s6: "\<exists>r. write_fd env fd (cut ?t1) ?s5 = Ret r s6" "jnl_on fd s6" "proc_wf s6"
    "journal s6 = journal ?s5 @ cut ?t1" "p_env s6 = p_env ?s5" "p_pid s6 = p_pid ?s5" "p_dir s6 = p_dir ?s5"
    "p_jv s6 = p_jv ?s5" "p_fds s6 = p_fds ?s5" "\<And>i. vars_at i s6 = vars_at i ?s5"
    using write_fd_journal [OF assms(1) on5, of "cut ?t1"] by (auto simp: returns_def)
  obtain s7 where s7: "\<exists>r. write_fd env fd (cut ?t2) s6 = Ret r s7" "jnl_on fd s7" "proc_wf s7"
    "journal s7 = journal s6 @ cut ?t2" "p_env s7 = p_env s6" "p_pid s7 = p_pid s6" "p_dir s7 = p_dir s6"
    "p_jv s7 = p_jv s6" "p_fds s7 = p_fds s6" "\<And>i. vars_at i s7 = vars_at i s6"
    using write_fd_journal [OF assms(1) s6(2,3), of "cut ?t2"] by (auto simp: returns_def)
  from s6(1) s7(1) obtain r r' where w: "write_fd env fd (cut ?t1) ?s5 = Ret r s6" "write_fd env fd (cut ?t2) s6 = Ret r' s7" by blast
  have eq: "stf_jnl_start_pid env pid s = Ret () s7"
    by (simp only: stf_jnl_start_pid_def op seq.simps vf1 sv u option.case get_dt_ok [OF assms(1)] get_time_ok [OF assms(1)]
        jvptr.case vars_read_ok [OF v5] sp1 sp2 w)
  have jrn: "journal s7 = journal s @ cut ?t1 @ cut ?t2" using s6(4) s7(4) j3 by simp
  have fds: "case getenv JNLNAME s of
        None \<Rightarrow> p_fds s7 = p_fds s
      | Some p \<Rightarrow> \<exists>fd i. fd \<notin> fst ` set (p_fds s) \<and> p_dir s7 p = Some i \<and> map_of (p_fds s7) fd = Some (Inode i)"
  proof (cases "getenv JNLNAME s")
    case None
    then show ?thesis using s6(9) s7(9) o by (auto simp: s3 opened_def jnl_on_def fds_without_def getenv_def)
  next
    case (Some p)
    then have "getenv JNLNAME s7 = Some p" using s6(5) s7(5) je by (simp add: getenv_def)
    then obtain i where i: "fd \<noteq> 1" "p_dir s7 p = Some i" "map_of (p_fds s7) (nat fd) = Some (Inode i)"
      using s7(2) by (auto simp: jnl_on_def)
    have "p_fds s = filter (\<lambda>x. fst x \<noteq> nat fd) (p_fds s1)" using o i(1) by (simp add: opened_def fds_without_def)
    then have "nat fd \<notin> fst ` set (p_fds s)" by auto
    then show ?thesis using Some i by auto
  qed
  show ?thesis unfolding eq returns_Ret started_def
    using jrn fds s7 s6 O je v5 by (auto simp: s3 getenv_def)
qed

section \<open>End\<close>

definition end_line :: "int \<Rightarrow> string \<Rightarrow> string" where
  "end_line pid time = ''End| '' @ dec pid @ '' '' @ time @ '' |''"

lemma stf_jnl_end_pid_ok:
  assumes "io_calm env" "proc_wf s" and vf: "getenv VARFILE s = Some p" "p_dir s p = Some i" "getenv JNLNAME s \<noteq> Some p"
  shows "returns (stf_jnl_end_pid env pid s) (\<lambda>_ s'.
    (\<exists>t. journal s' = journal s @ cut (end_line pid (time_text env t) @ [NL])) \<and>
    p_dir s' p = None \<and> p_fds s' = p_fds s \<and> proc_wf s' \<and> p_env s' = p_env s \<and> p_errs s' = p_errs s \<and>
    (\<forall>i. vars_at i s' = vars_at i s))"
proof -
  obtain fd s1 where op: "stf_jnl_open env s = Ret fd s1" and o: "opened s fd s1"
    using assms(1,2) by (rule journal_openE)
  note O = openedD [OF o]
  let ?t = "end_line pid (time_text env (p_tick s1)) @ [NL]"
  have "format ''%s| %d %s |\<newline>'' [AStr JNL_END, AInt pid, AStr (time_text env (p_tick s1))] = Some ?t"
    by (simp add: fmt end_line_def JNL_END_def)
  note sp = sprint_cut [OF this]
  have on: "jnl_on fd (ptick s1)" "proc_wf (ptick s1)"
    using still_jnl_on [OF still_tick(1) O(1)] still_wf [OF still_tick(1) O(2)] by auto
  obtain r s2 where s2: "write_fd env fd (cut ?t) (ptick s1) = Ret r s2" "jnl_on fd s2" "proc_wf s2"
    "journal s2 = journal s1 @ cut ?t" "p_env s2 = p_env s1" "p_dir s2 = p_dir s1" "p_fds s2 = p_fds s1"
    "p_errs s2 = p_errs s1" "\<And>i. vars_at i s2 = vars_at i s1"
    using write_fd_journal [OF assms(1) on, of "cut ?t"] by (auto simp: returns_def vars_at_def)
  let ?s3 = "(ptick s2)\<lparr>p_dir := (p_dir s2)(p := None)\<rparr>"
  have d: "p_dir s2 p \<noteq> None" using s2(6) o vf by (auto simp: opened_def)
  have je: "getenv JNLNAME s2 = getenv JNLNAME s" "getenv VARFILE s2 = getenv VARFILE s" using s2(5) O by (simp_all add: getenv_def)
  have ul: "unlink env p s2 = (0, ?s3)" using d io_calmD(4) [OF assms(1)] by (simp add: unlink_def)
  have on3: "jnl_on fd ?s3" using s2(2) vf(3) je by (auto simp: jnl_on_def getenv_def split: option.splits)
  have wf3: "proc_wf ?s3" using s2(3) vf(3) je by (auto simp: proc_wf_def getenv_def)
  have j3: "journal ?s3 = journal s2" using vf(3) je by (auto simp: journal_def getenv_def split: option.splits)
  obtain ds where ds: "snd (stf_jnl_close fd ?s3) = ?s3\<lparr>p_fds := ds\<rparr>" using close_journal(4) [OF on3 wf3] by blast
  have eq: "stf_jnl_end_pid env pid s = Ret () (snd (stf_jnl_close fd ?s3))"
    by (simp only: stf_jnl_end_pid_def op seq.simps get_time_ok [OF assms(1)] sp s2(1) Let_def je vf(1) option.case ul
        prod.case simp_thms if_False)
  have "fds_without fd ?s3 = fds_without fd s1" by (simp add: fds_without_def s2(7))
  then have fds: "fds_without fd ?s3 = p_fds s" using o by (simp add: opened_def)
  show ?thesis unfolding eq returns_Ret
    using close_journal(1-3) [OF on3 wf3] j3 s2(4,5,8,9) o fds by (auto simp: ds opened_def vars_at_def)
qed

end
