(* ===== verification/Stf_Spec.thy ===== *)
theory Stf_Spec
  imports Stf_Cases Stf_Run
begin

text \<open>
  The properties of the journal library \<^verbatim>\<open>libstf.c\<close>: what can be read back from the journal, how test
  cases and assertions are bracketed, and where the library falls short.
\<close>

section \<open>A concrete process\<close>

text \<open>A system without failures, whose wait statuses are those of Solaris.\<close>

definition calm_io :: io_env where
  "calm_io = \<lparr>io_open = (\<lambda>_. True), io_write = (\<lambda>_ n. int n), io_mutex = (\<lambda>_. 0), io_mmap = (\<lambda>_. True),
     io_unlink = (\<lambda>_. True),
     io_time = (\<lambda>_. Some \<lparr>tm_year = 112, tm_mon = 4, tm_mday = 23, tm_hour = 7, tm_min = 8, tm_sec = 9\<rparr>),
     io_hrtime = (\<lambda>_. 5),
     io_uname = Some \<lparr>sysname = ''SunOS'', nodename = ''host'', release = ''5.11'', version = ''zfs'', machine = ''i86pc''\<rparr>,
     io_uid = 0, io_login = Some ''root'', io_pwname = None, io_cwd = Some ''/'',
     io_signaled = (\<lambda>st. st AND 0xFF \<noteq> 0 \<and> st AND 0xFF00 = 0)\<rparr>"

text \<open>A process with a journal file and nothing else.\<close>

definition sh_proc :: process where
  "sh_proc = \<lparr>p_tick = 0, p_pid = 42, p_env = [JNLNAME \<mapsto> ''/j''], p_dir = Map.empty, p_inodes = Map.empty, p_next = 0,
     p_fds = [(0, Stdout), (1, Stdout), (2, Stdout)], p_stdout = [], p_errs = [], p_jv = JV_NULL, p_umask = 0\<rparr>"

text \<open>A process of a run that has begun: the environment names a variable file.\<close>

definition tc_proc :: process where
  "tc_proc = sh_proc\<lparr>p_env := [JNLNAME \<mapsto> ''/j'', VARFILE \<mapsto> ''/v''], p_dir := [''/v'' \<mapsto> 3],
     p_inodes := [3 \<mapsto> Vars vf_init], p_next := 4\<rparr>"

lemma calm_io [simp]: "io_calm calm_io"
  by (simp add: io_calm_def calm_io_def)

lemma sh_proc [simp]: "proc_wf sh_proc" "jnl_good calm_io sh_proc" "journal sh_proc = []"
  by (simp_all add: proc_wf_def sh_proc_def getenv_def jnl_good_def journal_def INT_MAX_def)

lemma tc_proc [simp]: "proc_wf tc_proc" "vars_ready 3 tc_proc" "vars_at 3 tc_proc = Some vf_init" "journal tc_proc = []"
  "getenv JNLNAME tc_proc = Some ''/j''"
  by (auto simp: proc_wf_def tc_proc_def sh_proc_def getenv_def vars_ready_def vars_at_def vf_init_def journal_def
      JNLNAME_def VARFILE_def split: if_splits)

section \<open>Messages\<close>

text \<open>
  C11. Messages without newlines and of at most \<^verbatim>\<open>MAXCHAR\<close> characters with their heading can be read
  back: after any number of \<^verbatim>\<open>stf_jnl_msg\<close> calls the lines of the journal are those it had and one
  \<^verbatim>\<open>Msg\<close> line for each message, in order, and the process keeps its descriptors.
\<close>

theorem stf_messages_read_back:
  assumes "jnl_good env s" "whole (journal s)"
    and "\<And>m. m \<in> set ms \<Longrightarrow> NL \<notin> set m \<and> length (msg_line (p_pid s) m) \<le> MAXCHAR"
  shows "returns (put_all (stf_jnl_msg env) ms s) (\<lambda>_ s'.
    jlines (journal s') = jlines (journal s) @ map (msg_line (p_pid s)) ms \<and> whole (journal s') \<and> p_fds s' = p_fds s)"
proof -
  have "msg_entry s m = msg_line (p_pid s) m @ [NL] \<and> NL \<notin> set (msg_line (p_pid s) m)" if "m \<in> set ms" for m
    using assms(3) [OF that] by (simp add: msg_entry_short msg_line_no_newline)
  from stf.put_all_lines [OF assms(1,2) this] show ?thesis
    by (rule returns_mono) (auto simp: jnl_same_def)
qed

theorem stf_messages_read_back_witness:
  "jnl_good calm_io sh_proc \<and>
   returns (put_all (stf_jnl_msg calm_io) [''one'', []] sh_proc) (\<lambda>_ s'. jlines (journal s') = [''Msg| 42 | one'', ''Msg| 42 | ?''])"
proof -
  have d: "dec 42 = ''42''" by (simp add: dec_def numeral_in.simps)
  have pid: "p_pid sh_proc = 42" by (simp add: sh_proc_def)
  have "returns (put_all (stf_jnl_msg calm_io) [''one'', []] sh_proc) (\<lambda>_ s'.
    jlines (journal s') = jlines (journal sh_proc) @ map (msg_line (p_pid sh_proc)) [''one'', []] \<and> whole (journal s') \<and>
    p_fds s' = p_fds sh_proc)"
    by (rule stf_messages_read_back) (auto simp: msg_line_def d pid MAXCHAR_def)
  then show ?thesis by (auto simp: msg_line_def d pid intro: returns_mono)
qed

text \<open>
  A message whose entry does not fit the buffer loses its newline: the entry that follows it lands
  on the same line of the journal, and the two messages are read back as one line.
\<close>

theorem stf_long_message_runs_on:
  assumes "jnl_good env s" "whole (journal s)" "NL \<notin> set m" "NL \<notin> set m'"
    and long: "length (msg_line (p_pid s) m) > MAXCHAR" and short: "length (msg_line (p_pid s) m') \<le> MAXCHAR"
  shows "returns (put_all (stf_jnl_msg env) [m, m'] s) (\<lambda>_ s'.
    jlines (journal s') = jlines (journal s) @ [take (MAXCHAR + 1) (msg_line (p_pid s) m) @ msg_line (p_pid s) m'])"
proof (rule returns_mono [OF stf.put_all_ok [OF assms(1), of "[m, m']"]])
  fix r s'
  let ?l = "take (MAXCHAR + 1) (msg_line (p_pid s) m)" and ?l' = "msg_line (p_pid s) m'"
  assume "journal s' = journal s @ concat (map (msg_entry s) [m, m']) \<and> jnl_good env s' \<and> jnl_same s s'"
  then have "journal s' = journal s @ (?l @ ?l') @ NL # []"
    using long msg_entry_short [OF short] by (simp add: msg_entry_def)
  moreover have "NL \<notin> set (?l @ ?l')"
    using msg_line_no_newline [OF assms(3)] msg_line_no_newline [OF assms(4)] by (auto dest: in_set_takeD)
  ultimately show "jlines (journal s') = jlines (journal s) @ [?l @ ?l']"
    using jlines_append [OF assms(2), of "(?l @ ?l') @ NL # []"] jlines_line [of "?l @ ?l'" "[]"] by simp
qed

theorem stf_long_message_runs_on_witness:
  "length (msg_line 42 (replicate 9000 CHR ''x'')) > MAXCHAR \<and>
   returns (put_all (stf_jnl_msg calm_io) [replicate 9000 CHR ''x'', ''end''] sh_proc) (\<lambda>_ s'. length (jlines (journal s')) = 1)"
proof -
  have d: "dec 42 = ''42''" by (simp add: dec_def numeral_in.simps)
  have pid: "p_pid sh_proc = 42" by (simp add: sh_proc_def)
  let ?m = "replicate 9000 CHR ''x''"
  have len: "length (msg_line 42 ?m) > MAXCHAR" by (simp add: msg_line_def d MAXCHAR_def)
  have nl: "NL \<notin> set ?m" by (simp)
  have "returns (put_all (stf_jnl_msg calm_io) [?m, ''end''] sh_proc) (\<lambda>_ s'.
    jlines (journal s') = jlines (journal sh_proc) @ [take (MAXCHAR + 1) (msg_line (p_pid sh_proc) ?m) @ msg_line (p_pid sh_proc) ''end''])"
    by (rule stf_long_message_runs_on) (use len nl in \<open>simp_all add: pid MAXCHAR_def\<close>,
        simp add: msg_line_def d)
  then have "returns (put_all (stf_jnl_msg calm_io) [?m, ''end''] sh_proc) (\<lambda>_ s'. length (jlines (journal s')) = 1)"
    by (rule returns_mono) simp
  with len show ?thesis by blast
qed

section \<open>Test cases and assertions\<close>

lemma vars_set_ready: "vars_set i w s s' \<Longrightarrow> jvar_mlock w = MX_Free \<Longrightarrow> vars_ready i s' \<and> vars_at i s' = Some w"
  by (simp add: vars_set_def vars_ready_def)

lemma loggedD:
  assumes "logged t s s'"
  shows "journal s' = journal s @ t" "p_fds s' = p_fds s" "proc_wf s'" "p_env s' = p_env s"
    "getenv JNLNAME s' = getenv JNLNAME s" "getenv JNLNAME s \<noteq> None \<Longrightarrow> p_stdout s' = p_stdout s"
  using assms by (auto simp: logged_def getenv_def)

lemma journal_stdout: "getenv JNLNAME s \<noteq> None \<Longrightarrow> journal (s\<lparr>p_stdout := t\<rparr>) = journal s"
  by (auto simp: journal_def getenv_def split: option.splits)

text \<open>
  C12. A test case that starts and ends leaves two entries, the name of its program in the variable
  file and its lock free, and advances the sequence number by two modulo 2 to the 16; the descriptors
  stay as they were.
\<close>

theorem stf_testcase_pair:
  assumes "io_calm env" "proc_wf s" "vars_ready i s" "vars_at i s = Some v" "getenv JNLNAME s \<noteq> None"
    and "CHR '' '' \<in> set line" "length line < MAXCHAR" "length (name_of line) < 256"
  shows "returns (seq (stf_jnl_testcase_start_pid env pid line s) (\<lambda>_. stf_jnl_testcase_end env name child status)) (\<lambda>_ s'.
    (\<exists>t u w.
      journal s' = journal s @ take (MAXCHAR + 1) (tc_start_line pid line (time_text env t) (sint (jact v)) @ [NL]) @
        take (MAXCHAR + 1) (tc_end_line child name (result_text env status) (time_text env u) (uint (jact v)) @ [NL]) \<and>
      vars_at i s' = Some w \<and> jasrt w = name_of line \<and> jvar_mlock w = MX_Free \<and>
      unat (jseq w) = (unat (jseq v) + 2) mod 2 ^ 16) \<and>
    p_fds s' = p_fds s \<and> p_stdout s' = p_stdout s @ get_status_name (WEXITSTATUS status) @ [NL])"
  unfolding returns_seq
proof (rule returns_mono [OF stf_jnl_testcase_start_pid_ok [OF assms(1-4,6-8), of pid]])
  fix r s1
  let ?w = "v\<lparr>jasrt := name_of line, jseq := jseq v + 1\<rparr>"
  assume A: "(\<exists>t. logged (cut (tc_start_line pid line (time_text env t) (sint (jact v)) @ [NL])) s s1) \<and> vars_set i ?w s s1"
  then obtain t where t: "logged (cut (tc_start_line pid line (time_text env t) (sint (jact v)) @ [NL])) s s1" by blast
  note T = loggedD [OF t]
  have lk: "jvar_mlock ?w = MX_Free" using assms(3,4) by (simp add: vars_ready_def)
  have rd: "vars_ready i s1" "vars_at i s1 = Some ?w" using vars_set_ready [of i ?w s s1] A lk by auto
  show "returns (stf_jnl_testcase_end env name child status s1) (\<lambda>_ s'.
    (\<exists>t u w.
      journal s' = journal s @ cut (tc_start_line pid line (time_text env t) (sint (jact v)) @ [NL]) @
        cut (tc_end_line child name (result_text env status) (time_text env u) (uint (jact v)) @ [NL]) \<and>
      vars_at i s' = Some w \<and> jasrt w = name_of line \<and> jvar_mlock w = MX_Free \<and>
      unat (jseq w) = (unat (jseq v) + 2) mod 2 ^ 16) \<and>
    p_fds s' = p_fds s \<and> p_stdout s' = p_stdout s @ get_status_name (WEXITSTATUS status) @ [NL])"
  proof (rule returns_mono [OF stf_jnl_testcase_end_ok [OF assms(1) T(3) rd, of name child status]])
    fix r' s'
    let ?w' = "?w\<lparr>jseq := jseq ?w + 1\<rparr>"
    assume B: "(\<exists>t s''. logged (cut (tc_end_line child name (result_text env status) (time_text env t) (uint (jact ?w)) @ [NL])) s1 s'' \<and>
         s' = s''\<lparr>p_stdout := p_stdout s'' @ get_status_name (WEXITSTATUS status) @ [NL]\<rparr>) \<and> vars_set i ?w' s1 s'"
    then obtain u s'' where u: "logged (cut (tc_end_line child name (result_text env status) (time_text env u) (uint (jact v)) @ [NL])) s1 s''"
      and s': "s' = s''\<lparr>p_stdout := p_stdout s'' @ get_status_name (WEXITSTATUS status) @ [NL]\<rparr>" by auto
    note U = loggedD [OF u]
    have j: "getenv JNLNAME s'' \<noteq> None" "getenv JNLNAME s1 \<noteq> None" using T(5) U(5) assms(5) by simp_all
    have "jseq ?w' = jseq v + 2" by simp
    then have "unat (jseq ?w') = (unat (jseq v) + 2) mod 2 ^ 16" by (simp add: unat_word_ariths)
    moreover have "vars_at i s' = Some ?w'" using B by (simp add: vars_set_def)
    ultimately show "(\<exists>t u w.
        journal s' = journal s @ cut (tc_start_line pid line (time_text env t) (sint (jact v)) @ [NL]) @
          cut (tc_end_line child name (result_text env status) (time_text env u) (uint (jact v)) @ [NL]) \<and>
        vars_at i s' = Some w \<and> jasrt w = name_of line \<and> jvar_mlock w = MX_Free \<and>
        unat (jseq w) = (unat (jseq v) + 2) mod 2 ^ 16) \<and>
      p_fds s' = p_fds s \<and> p_stdout s' = p_stdout s @ get_status_name (WEXITSTATUS status) @ [NL]"
      using T U j lk assms(5)
      by (intro conjI exI [of _ t] exI [of _ u] exI [of _ ?w']) (simp_all add: s' journal_stdout)
  qed
qed

theorem stf_testcase_pair_witness:
  "vars_ready 3 tc_proc \<and>
   returns (seq (stf_jnl_testcase_start_pid calm_io 42 ''./t 1'' tc_proc) (\<lambda>_. stf_jnl_testcase_end calm_io ''t'' 43 0))
     (\<lambda>_ s'. p_stdout s' = ''PASS\<newline>'' \<and> (\<exists>w. vars_at 3 s' = Some w \<and> jasrt w = ''./t'' \<and> unat (jseq w) = 2))"
proof -
  have "returns (seq (stf_jnl_testcase_start_pid calm_io 42 ''./t 1'' tc_proc) (\<lambda>_. stf_jnl_testcase_end calm_io ''t'' 43 0)) (\<lambda>_ s'.
    (\<exists>t u w.
      journal s' = journal tc_proc @ take (MAXCHAR + 1) (tc_start_line 42 ''./t 1'' (time_text calm_io t) (sint (jact vf_init)) @ [NL]) @
        take (MAXCHAR + 1) (tc_end_line 43 ''t'' (result_text calm_io 0) (time_text calm_io u) (uint (jact vf_init)) @ [NL]) \<and>
      vars_at 3 s' = Some w \<and> jasrt w = name_of ''./t 1'' \<and> jvar_mlock w = MX_Free \<and>
      unat (jseq w) = (unat (jseq vf_init) + 2) mod 2 ^ 16) \<and>
    p_fds s' = p_fds tc_proc \<and> p_stdout s' = p_stdout tc_proc @ get_status_name (WEXITSTATUS 0) @ [NL])"
    by (rule stf_testcase_pair) (simp_all add: MAXCHAR_def name_of_def)
  then have "returns (seq (stf_jnl_testcase_start_pid calm_io 42 ''./t 1'' tc_proc) (\<lambda>_. stf_jnl_testcase_end calm_io ''t'' 43 0))
     (\<lambda>_ s'. p_stdout s' = ''PASS\<newline>'' \<and> (\<exists>w. vars_at 3 s' = Some w \<and> jasrt w = ''./t'' \<and> unat (jseq w) = 2))"
    by (rule returns_mono) (auto simp: name_of_def vf_init_def tc_proc_def sh_proc_def get_status_name_def WEXITSTATUS_def
        stf_codes result_tbl_def)
  then show ?thesis by simp
qed

text \<open>
  C13. The two records of a test case that a signal ended with exit status 0 disagree: its entry in the
  journal has the result \<^verbatim>\<open>NORESULT\<close> and the number of the signal, but the result printed on
  standard output is \<^verbatim>\<open>PASS\<close>.
\<close>

theorem stf_testcase_end_signalled:
  assumes "io_calm env" "proc_wf s" "vars_ready i s" "vars_at i s = Some v" "getenv JNLNAME s \<noteq> None"
    and "io_signaled env status" "WEXITSTATUS status = 0"
  shows "returns (stf_jnl_testcase_end env name child status s) (\<lambda>_ s'.
    p_stdout s' = p_stdout s @ ''PASS\<newline>'' \<and>
    (\<exists>t. journal s' = journal s @ take (MAXCHAR + 1) (tc_end_line child name (''NORESULT '' @ dec (WTERMSIG status))
       (time_text env t) (uint (jact v)) @ [NL])))"
proof (rule returns_mono [OF stf_jnl_testcase_end_ok [OF assms(1-4), of name child status]])
  fix r s'
  have res: "result_text env status = ''NORESULT '' @ dec (WTERMSIG status)" "get_status_name (WEXITSTATUS status) = ''PASS''"
    using assms(6,7) by (simp_all add: result_text_def get_status_name_def stf_codes result_tbl_def)
  assume "(\<exists>t s''. logged (cut (tc_end_line child name (result_text env status) (time_text env t) (uint (jact v)) @ [NL])) s s'' \<and>
       s' = s''\<lparr>p_stdout := p_stdout s'' @ get_status_name (WEXITSTATUS status) @ [NL]\<rparr>) \<and> vars_set i (v\<lparr>jseq := jseq v + 1\<rparr>) s s'"
  then obtain t s'' where t: "logged (cut (tc_end_line child name (''NORESULT '' @ dec (WTERMSIG status)) (time_text env t) (uint (jact v)) @ [NL])) s s''"
    and s': "s' = s''\<lparr>p_stdout := p_stdout s'' @ ''PASS'' @ [NL]\<rparr>" unfolding res by blast
  show "p_stdout s' = p_stdout s @ ''PASS\<newline>'' \<and>
    (\<exists>t. journal s' = journal s @ cut (tc_end_line child name (''NORESULT '' @ dec (WTERMSIG status)) (time_text env t) (uint (jact v)) @ [NL]))"
    using loggedD [OF t] assms(5) by (auto simp: s' journal_stdout)
qed

theorem stf_testcase_end_signalled_witness:
  "io_signaled calm_io 11 \<and> WEXITSTATUS 11 = 0 \<and>
   returns (stf_jnl_testcase_end calm_io ''t'' 43 11 tc_proc) (\<lambda>_ s'. p_stdout s' = ''PASS\<newline>'')"
proof -
  have h: "io_signaled calm_io 11" "WEXITSTATUS 11 = 0" by (simp_all add: calm_io_def WEXITSTATUS_def)
  have "returns (stf_jnl_testcase_end calm_io ''t'' 43 11 tc_proc) (\<lambda>_ s'.
    p_stdout s' = p_stdout tc_proc @ ''PASS\<newline>'' \<and>
    (\<exists>t. journal s' = journal tc_proc @ take (MAXCHAR + 1) (tc_end_line 43 ''t'' (''NORESULT '' @ dec (WTERMSIG 11))
       (time_text calm_io t) (uint (jact vf_init)) @ [NL])))"
    by (rule stf_testcase_end_signalled [where i = 3]) (simp_all add: h)
  then show ?thesis using h by (auto simp: tc_proc_def sh_proc_def intro: returns_mono)
qed

text \<open>
  C14. The entries that start and end an assertion name it the same way: the test case, the name given
  at the start and the argument; the start resets the sequence and block numbers, the end changes
  no variable.
\<close>

theorem stf_assert_pair:
  assumes "io_calm env" "proc_wf s" "vars_ready i s" "vars_at i s = Some v"
    and "length subid < 256" "length (jargid v) < 256"
  shows "returns (seq (stf_jnl_assert_start_pid env pid subid s) (\<lambda>_. stf_jnl_assert_end_pid env pid result)) (\<lambda>_ s'.
    (\<exists>t u. let ident = jasrt v @ id_text subid (Some (jargid v)) in
      journal s' = journal s @ take (MAXCHAR + 1) (assert_start_line pid ident (time_text env t) (sint (jact v)) @ [NL]) @
        take (MAXCHAR + 1) (assert_end_line pid ident (get_status_name result) (time_text env u) (sint (jact v)) @ [NL])) \<and>
    vars_at i s' = Some (v\<lparr>jsubid := subid, jblk := 0, jseq := 0\<rparr>) \<and> p_fds s' = p_fds s)"
  unfolding returns_seq
proof (rule returns_mono [OF stf_jnl_assert_start_pid_ok [OF assms, of pid]])
  fix r s1
  let ?w = "v\<lparr>jsubid := subid, jblk := 0, jseq := 0\<rparr>" and ?id = "jasrt v @ id_text subid (Some (jargid v))"
  assume A: "(\<exists>t. logged (cut (assert_start_line pid ?id (time_text env t) (sint (jact v)) @ [NL])) s s1) \<and> vars_set i ?w s s1"
  then obtain t where t: "logged (cut (assert_start_line pid ?id (time_text env t) (sint (jact v)) @ [NL])) s s1" by blast
  note T = loggedD [OF t]
  have rd: "vars_ready i s1" "vars_at i s1 = Some ?w"
    using vars_set_ready [of i ?w s s1] A assms(3,4) by (auto simp: vars_ready_def)
  have len: "length (jsubid ?w) < 256" "length (jargid ?w) < 256" using assms(5,6) by simp_all
  show "returns (stf_jnl_assert_end_pid env pid result s1) (\<lambda>_ s'.
    (\<exists>t u. let ident = ?id in
      journal s' = journal s @ cut (assert_start_line pid ident (time_text env t) (sint (jact v)) @ [NL]) @
        cut (assert_end_line pid ident (get_status_name result) (time_text env u) (sint (jact v)) @ [NL])) \<and>
    vars_at i s' = Some ?w \<and> p_fds s' = p_fds s)"
  proof (rule returns_mono [OF stf_jnl_assert_end_pid_ok [OF assms(1) T(3) rd len, of pid result]])
    fix r' s'
    assume "(\<exists>t. logged (cut (assert_end_line pid (jasrt ?w @ id_text (jsubid ?w) (Some (jargid ?w))) (get_status_name result)
             (time_text env t) (sint (jact ?w)) @ [NL])) s1 s') \<and> vars_set i ?w s1 s'"
    then obtain u where u: "logged (cut (assert_end_line pid ?id (get_status_name result) (time_text env u) (sint (jact v)) @ [NL])) s1 s'"
      and vs: "vars_set i ?w s1 s'" by auto
    have "journal s' = journal s @ cut (assert_start_line pid ?id (time_text env t) (sint (jact v)) @ [NL]) @
        cut (assert_end_line pid ?id (get_status_name result) (time_text env u) (sint (jact v)) @ [NL])"
      using T(1) loggedD(1) [OF u] by simp
    then show "(\<exists>t u. let ident = ?id in
      journal s' = journal s @ cut (assert_start_line pid ident (time_text env t) (sint (jact v)) @ [NL]) @
        cut (assert_end_line pid ident (get_status_name result) (time_text env u) (sint (jact v)) @ [NL])) \<and>
      vars_at i s' = Some ?w \<and> p_fds s' = p_fds s"
      using T(2) loggedD(2) [OF u] vs unfolding Let_def vars_set_def by auto
  qed
qed

theorem stf_assert_pair_witness:
  "vars_ready 3 tc_proc \<and>
   returns (seq (stf_jnl_assert_start_pid calm_io 42 ''a1'' tc_proc) (\<lambda>_. stf_jnl_assert_end_pid calm_io 42 1))
     (\<lambda>_ s'. vars_at 3 s' = Some (vf_init\<lparr>jsubid := ''a1'', jblk := 0, jseq := 0\<rparr>))"
  by (auto simp: vf_init_def intro: returns_mono [OF stf_assert_pair [of calm_io tc_proc 3 vf_init "''a1''" 42 1]])

text \<open>
  The name of a test case is the first word of its line; for a line without a blank the search for
  the end of the word runs past the string, so the behaviour is undefined.
\<close>

theorem stf_testcase_start_no_blank:
  assumes "io_calm env" "proc_wf s" "CHR '' '' \<notin> set line"
  shows "stf_jnl_testcase_start_pid env pid line s = Stuck"
proof -
  obtain fd s1 where "stf_jnl_open env s = Ret fd s1" using assms(1,2) by (rule journal_openE)
  then show ?thesis using assms(3) by (cases "length line < MAXCHAR") (simp_all add: stf_jnl_testcase_start_pid_def strcpy_def)
qed

theorem stf_testcase_start_no_blank_witness:
  "proc_wf tc_proc \<and> stf_jnl_testcase_start_pid calm_io 42 ''mmapwrite'' tc_proc = Stuck"
  using stf_testcase_start_no_blank [of calm_io tc_proc "''mmapwrite''" 42] by simp

section \<open>Totals\<close>

lemma result_tbl_length: "i < 11 \<Longrightarrow> length (result_tbl ! i) \<le> 11"
proof -
  assume "i < 11"
  then have "result_tbl ! i \<in> set result_tbl" by (intro nth_mem) (simp add: result_tbl_def)
  then show ?thesis by (auto simp: result_tbl_def)
qed

text \<open>Counts of up to five digits fit the buffer for one result.\<close>

definition total_text :: "(nat \<Rightarrow> int) \<Rightarrow> nat \<Rightarrow> string" where
  "total_text cts i = (if cts i = 0 then [] else '' '' @ result_tbl ! i @ '':'' @ dec (cts i))"

lemma totals_line_small:
  assumes small: "\<forall>i < 11. \<bar>cts i\<bar> < 100000"
  shows "totals_line pid ident cts = ''Totals| '' @ dec pid @ '' '' @ ident @ '' |'' @ concat (map (total_text cts) [0..<11])"
proof -
  have "one_total cts k = total_text cts k" if "k < 11" for k
  proof -
    have "length (dec (cts k)) \<le> 6" using length_dec [of 5 "cts k"] small that by (auto split: if_splits)
    then have "length ('' '' @ result_tbl ! k @ '':'' @ dec (cts k)) \<le> 19" using result_tbl_length [OF that] by simp
    then show ?thesis unfolding one_total_def total_text_def by (simp only: take_all)
  qed
  then have "map (one_total cts) [0..<11] = map (total_text cts) [0..<11]" by (intro map_cong) (auto simp del: upt_rec_numeral)
  then show ?thesis by (simp only: totals_line_def append_assoc)
qed

text \<open>
  The entry of the totals lists the name and the count of every result that occurred, in the order
  of the result codes; counts of up to five digits are printed in full. The string of all results
  never outgrows its array.
\<close>

theorem stf_totals_entry:
  assumes "io_calm env" "proc_wf s" "vars_ready i s" "vars_at i s = Some v" "length id_name < 8000"
    and small: "\<forall>i < 11. \<bar>cts i\<bar> < 100000"
  shows "returns (stf_jnl_totals_pid env pid id_name cts s) (\<lambda>_ s'.
    journal s' = journal s @ take (MAXCHAR + 1) (''Totals| '' @ dec pid @ '' '' @ (jasrt v @ id_text id_name None) @ '' |'' @
      concat (map (total_text cts) [0..<11]) @ [NL]) \<and>
    vars_at i s' = Some v \<and> p_fds s' = p_fds s)"
proof (rule returns_mono [OF stf_jnl_totals_pid_ok [OF assms(1-5), of pid cts]])
  fix r s'
  assume A: "logged (cut (totals_line pid (jasrt v @ id_text id_name None) cts @ [NL])) s s' \<and> vars_set i v s s'"
  then have lg: "logged (cut (''Totals| '' @ dec pid @ '' '' @ (jasrt v @ id_text id_name None) @ '' |'' @
      concat (map (total_text cts) [0..<11]) @ [NL])) s s'" unfolding totals_line_small [OF small] append_assoc by blast
  show "journal s' = journal s @ cut (''Totals| '' @ dec pid @ '' '' @ (jasrt v @ id_text id_name None) @ '' |'' @
      concat (map (total_text cts) [0..<11]) @ [NL]) \<and> vars_at i s' = Some v \<and> p_fds s' = p_fds s"
  proof (intro conjI)
    show "vars_at i s' = Some v" using A by (simp add: vars_set_def)
  qed (fact loggedD(1,2) [OF lg])+
qed

theorem stf_totals_entry_witness:
  "vars_ready 3 tc_proc \<and>
   returns (stf_jnl_totals_pid calm_io 42 ''s'' (\<lambda>i. if i = 0 then 12 else 0) tc_proc)
     (\<lambda>_ s'. journal s' = ''Totals| 42 ?:s | PASS:12\<newline>'')"
proof -
  have d: "dec 42 = ''42''" "dec 12 = ''12''" by (simp_all add: dec_def numeral_in.simps)
  have u: "[0..<11] = [0, 1, 2, 3, 4, 5, 6, 7, 8, 9, 10::nat]" by (simp add: upt_rec)
  have "returns (stf_jnl_totals_pid calm_io 42 ''s'' (\<lambda>i. if i = 0 then 12 else 0) tc_proc) (\<lambda>_ s'.
    journal s' = journal tc_proc @ take (MAXCHAR + 1) (''Totals| '' @ dec 42 @ '' '' @ (jasrt vf_init @ id_text ''s'' None) @ '' |'' @
      concat (map (total_text (\<lambda>i. if i = 0 then 12 else 0)) [0..<11]) @ [NL]) \<and>
    vars_at 3 s' = Some vf_init \<and> p_fds s' = p_fds tc_proc)"
    by (rule stf_totals_entry) auto
  then have "returns (stf_jnl_totals_pid calm_io 42 ''s'' (\<lambda>i. if i = 0 then 12 else 0) tc_proc)
     (\<lambda>_ s'. journal s' = ''Totals| 42 ?:s | PASS:12\<newline>'')"
    by (rule returns_mono) (simp add: d u id_text_def vf_init_def result_tbl_def MAXCHAR_def total_text_def)
  then show ?thesis by simp
qed

section \<open>A run\<close>

text \<open>
  A run whose variable file does not exist yet gets one, under the name that the environment gives or one made from
  the process id, with its variables initialised, unlocked and
  found by the calls that follow; the journal gains the two start lines, and if it is a file it stays
  open on a descriptor that nothing closes.
\<close>

theorem stf_start_ready:
  assumes "io_calm env" "proc_wf s" "0 \<le> p_pid s" "p_pid s \<le> INT_MAX"
    and "p_dir s (var_name s) = None" "getenv JNLNAME s \<noteq> Some (var_name s)" "p_jv s = JV_NULL"
  shows "returns (stf_jnl_start_pid env pid s) (\<lambda>_ s'.
    (\<exists>i. vars_ready i s' \<and> vars_at i s' = Some vf_init) \<and>
    (\<exists>t u. journal s' = journal s @ take (MAXCHAR + 1) (start_line1 env (date_text env t) (time_text env u) @ [NL]) @
                        take (MAXCHAR + 1) (start_line2 env pid @ [NL])) \<and>
    (getenv JNLNAME s \<noteq> None \<longrightarrow> (\<exists>fd i. fd \<notin> fst ` set (p_fds s) \<and> map_of (p_fds s') fd = Some (Inode i))))"
proof (rule returns_mono [OF stf_jnl_start_pid_ok [OF assms(1-6), of pid]])
  fix r s'
  assume A: "started env pid s s'"
  then obtain i where i: "p_dir s' (var_name s) = Some i" "vars_at i s' = Some vf_init" "getenv VARFILE s' = Some (var_name s)"
    "p_jv s' = JV_NULL" using assms(7) by (auto simp: started_def)
  then have "vars_ready i s'" by (simp add: vars_ready_def vf_init_def)
  with i(2) have "\<exists>i. vars_ready i s' \<and> vars_at i s' = Some vf_init" by blast
  moreover have "getenv JNLNAME s \<noteq> None \<longrightarrow> (\<exists>fd i. fd \<notin> fst ` set (p_fds s) \<and> map_of (p_fds s') fd = Some (Inode i))"
    using A unfolding started_def by (cases "getenv JNLNAME s") auto
  ultimately show "(\<exists>i. vars_ready i s' \<and> vars_at i s' = Some vf_init) \<and>
    (\<exists>t u. journal s' = journal s @ cut (start_line1 env (date_text env t) (time_text env u) @ [NL]) @
                        cut (start_line2 env pid @ [NL])) \<and>
    (getenv JNLNAME s \<noteq> None \<longrightarrow> (\<exists>fd i. fd \<notin> fst ` set (p_fds s) \<and> map_of (p_fds s') fd = Some (Inode i)))"
    using A unfolding started_def by blast
qed

lemma sh_proc_start: "0 \<le> p_pid sh_proc" "p_pid sh_proc \<le> INT_MAX"
  "p_dir sh_proc (var_name sh_proc) = None" "getenv JNLNAME sh_proc \<noteq> Some (var_name sh_proc)" "p_jv sh_proc = JV_NULL"
  by (simp_all add: sh_proc_def getenv_def VARFILE_def JNLNAME_def INT_MAX_def var_name_def VARFNAME_def)

theorem stf_start_ready_witness:
  "proc_wf sh_proc \<and> returns (stf_jnl_start_pid calm_io 42 sh_proc) (\<lambda>_ s'. \<exists>i. vars_ready i s' \<and> vars_at i s' = Some vf_init)"
  using stf_start_ready [OF calm_io sh_proc(1) sh_proc_start, of 42] by (auto intro: returns_mono)

text \<open>
  A run that starts and ends leaves its start and end lines in the journal and no variable file
  in the directory.
\<close>

theorem stf_run_cleans_up:
  assumes "io_calm env" "proc_wf s" "0 \<le> p_pid s" "p_pid s \<le> INT_MAX"
    and "p_dir s (var_name s) = None" "getenv JNLNAME s \<noteq> Some (var_name s)"
  shows "returns (seq (stf_jnl_start_pid env pid s) (\<lambda>_. stf_jnl_end_pid env pid)) (\<lambda>_ s'.
    p_dir s' (var_name s) = None \<and> proc_wf s' \<and>
    (\<exists>t u w. journal s' = journal s @ take (MAXCHAR + 1) (start_line1 env (date_text env t) (time_text env u) @ [NL]) @
       take (MAXCHAR + 1) (start_line2 env pid @ [NL]) @ take (MAXCHAR + 1) (end_line pid (time_text env w) @ [NL])))"
  unfolding returns_seq
proof (rule returns_mono [OF stf_jnl_start_pid_ok [OF assms, of pid]])
  fix r s1
  assume A: "started env pid s s1"
  then obtain i where i: "p_dir s1 (var_name s) = Some i" and wf: "proc_wf s1" "getenv VARFILE s1 = Some (var_name s)"
    "getenv JNLNAME s1 \<noteq> Some (var_name s)" using assms(6) by (auto simp: started_def)
  obtain t u where t: "journal s1 = journal s @ cut (start_line1 env (date_text env t) (time_text env u) @ [NL]) @
       cut (start_line2 env pid @ [NL])" using A unfolding started_def by blast
  show "returns (stf_jnl_end_pid env pid s1) (\<lambda>_ s'.
    p_dir s' (var_name s) = None \<and> proc_wf s' \<and>
    (\<exists>t u w. journal s' = journal s @ cut (start_line1 env (date_text env t) (time_text env u) @ [NL]) @
       cut (start_line2 env pid @ [NL]) @ cut (end_line pid (time_text env w) @ [NL])))"
  proof (rule returns_mono [OF stf_jnl_end_pid_ok [OF assms(1) wf(1,2) i wf(3), of pid]])
    fix r' s'
    assume B: "(\<exists>t. journal s' = journal s1 @ cut (end_line pid (time_text env t) @ [NL])) \<and> p_dir s' (var_name s) = None \<and>
      p_fds s' = p_fds s1 \<and> proc_wf s' \<and> p_env s' = p_env s1 \<and> p_errs s' = p_errs s1 \<and> (\<forall>i. vars_at i s' = vars_at i s1)"
    then obtain w where "journal s' = journal s1 @ cut (end_line pid (time_text env w) @ [NL])" by blast
    with t have "journal s' = journal s @ cut (start_line1 env (date_text env t) (time_text env u) @ [NL]) @
       cut (start_line2 env pid @ [NL]) @ cut (end_line pid (time_text env w) @ [NL])" by simp
    with B show "p_dir s' (var_name s) = None \<and> proc_wf s' \<and>
      (\<exists>t u w. journal s' = journal s @ cut (start_line1 env (date_text env t) (time_text env u) @ [NL]) @
         cut (start_line2 env pid @ [NL]) @ cut (end_line pid (time_text env w) @ [NL]))" by blast
  qed
qed

theorem stf_run_cleans_up_witness:
  "proc_wf sh_proc \<and> returns (seq (stf_jnl_start_pid calm_io 42 sh_proc) (\<lambda>_. stf_jnl_end_pid calm_io 42))
     (\<lambda>_ s'. p_dir s' (var_name sh_proc) = None)"
  using stf_run_cleans_up [OF calm_io sh_proc(1) sh_proc_start(1-4), of 42] by (auto intro: returns_mono)

section \<open>Failures\<close>

text \<open>
  C15. When the journal cannot be opened, every call ends the process with status 1, before it has
  written anything or touched the variable file.
\<close>

theorem stf_open_failure:
  assumes "getenv JNLNAME s = Some p" "\<not> io_open env (p_tick s)" "p_pid s \<le> INT_MAX"
    and f: "f \<in> {stf_jnl_start env, stf_jnl_env env, stf_jnl_end env, stf_jnl_msg env m, harness_error env m,
      stf_jnl_testcase_start env line, stf_jnl_testcase_end env m child status, stf_jnl_assert_start env m,
      stf_jnl_assert_end env result, stf_jnl_totals env m cts}"
  shows "\<exists>s'. f s = Exit 1 s' \<and> journal s' = journal s \<and> p_inodes s' = p_inodes s \<and> p_dir s' = p_dir s \<and>
    p_stdout s' = p_stdout s \<and> p_fds s' = p_fds s"
proof -
  let ?s' = "perror ''stf_jnl_open: jnlfile open'' (ptick s)"
  have op: "stf_jnl_open env s = Exit 1 ?s'" using assms(1,2) by (simp add: stf_jnl_open_def open_file_def)
  have "f s = Exit 1 ?s'" using f assms(3) op
    by (auto simp: stf_jnl_start_def stf_jnl_end_def stf_jnl_msg_def stf_jnl_testcase_start_def stf_jnl_assert_start_def
        stf_jnl_assert_end_def stf_jnl_totals_def with_pid_small stf_jnl_start_pid_def stf_jnl_env_def stf_jnl_end_pid_def
        stf_jnl_msg_pid_def harness_error_def stf_jnl_testcase_start_pid_def stf_jnl_testcase_end_def
        stf_jnl_assert_start_pid_def stf_jnl_assert_end_pid_def stf_jnl_totals_pid_def)
  moreover have "journal ?s' = journal s" by (simp add: perror_def journal_def getenv_def split: option.splits)
  ultimately show ?thesis by (auto simp: perror_def)
qed

theorem stf_open_failure_witness:
  "\<not> io_open (calm_io\<lparr>io_open := \<lambda>_. False\<rparr>) (p_tick sh_proc) \<and>
   (\<exists>s'. stf_jnl_msg (calm_io\<lparr>io_open := \<lambda>_. False\<rparr>) ''x'' sh_proc = Exit 1 s' \<and> journal s' = [])"
  using stf_open_failure [of sh_proc "''/j''" "calm_io\<lparr>io_open := \<lambda>_. False\<rparr>" "stf_jnl_msg (calm_io\<lparr>io_open := \<lambda>_. False\<rparr>) ''x''" "''x''"]
    sh_proc(3) sh_proc_start(2) by (auto simp: sh_proc_def getenv_def calm_io_def)

end
