(* ===== verification/Jnl_Spec.thy ===== *)
theory Jnl_Spec
  imports Jnl_Buffer Stf_Spec
begin

text \<open>
  The properties of the message library \<^verbatim>\<open>libjnl.c\<close>: its detail levels, the lines a message leaves
  in the journal, the buffers of the threads, and where the library falls short.
\<close>

section \<open>Starting the library\<close>

text \<open>What the variable \<^verbatim>\<open>TJNL_DETAIL\<close> makes of the level \<open>old\<close>.\<close>

definition detail_setting :: "string \<Rightarrow> int \<Rightarrow> int" where
  "detail_setting w old =
     (if w \<noteq> [] \<and> is_digit (hd w) then int (number_of 0 (takeWhile is_digit w))
      else case find (\<lambda>d. strcasecmp w (dl_description d) = 0) jnlDL_Level_Descriptions of
             Some d \<Rightarrow> dl_level d
           | None \<Rightarrow> old)"

lemma tables_agree: "set jnlDL_Level_Descriptions = set jnlDL_Description_Levels"
  by (auto simp: jnlDL_Level_Descriptions_def jnlDL_Description_Levels_def)

lemma level_of_word:
  assumes "CHR 0x00 \<notin> set w"
  obtains d where "jnl_dl_level_fetch w = Some d"
    "(if strcasecmp (dl_description d) w = 0 then dl_level d else old) =
     (case find (\<lambda>d. strcasecmp w (dl_description d) = 0) jnlDL_Level_Descriptions of Some d \<Rightarrow> dl_level d | None \<Rightarrow> old)"
proof -
  obtain i where i: "i < 7" "jnl_dl_level_fetch w = Some (jnlDL_Description_Levels ! i)"
    "\<And>j. j < 7 \<Longrightarrow> strcasecmp w (word_at j) = 0 \<Longrightarrow> i = j"
    using jnl_dl_level_fetch_total [OF assms] by metis
  let ?d = "jnlDL_Description_Levels ! i"
  have only: "d = ?d" if "d \<in> set jnlDL_Level_Descriptions" "strcasecmp w (dl_description d) = 0" for d
    using that i(3) unfolding tables_agree by (auto simp: in_set_conv_nth word_at_def)
  have mem: "?d \<in> set jnlDL_Level_Descriptions" using i(1) unfolding tables_agree by simp
  have sym: "strcasecmp (dl_description ?d) w = 0 \<longleftrightarrow> strcasecmp w (dl_description ?d) = 0"
    using strcasecmp_minus [of "dl_description ?d" w] by simp
  show thesis
  proof (rule that [OF i(2)])
    show "(if strcasecmp (dl_description ?d) w = 0 then dl_level ?d else old) =
      (case find (\<lambda>d. strcasecmp w (dl_description d) = 0) jnlDL_Level_Descriptions of Some d \<Rightarrow> dl_level d | None \<Rightarrow> old)"
    proof (cases "find (\<lambda>d. strcasecmp w (dl_description d) = 0) jnlDL_Level_Descriptions")
      case None
      then have "strcasecmp w (dl_description ?d) \<noteq> 0" using mem unfolding find_None_iff by blast
      then show ?thesis using sym None by simp
    next
      case (Some d)
      then have "d \<in> set jnlDL_Level_Descriptions" "strcasecmp w (dl_description d) = 0"
        unfolding find_Some_iff by auto
      then show ?thesis using only sym Some by auto
    qed
  qed
qed

lemma init_detail_ok:
  assumes "je_atoi_errno env = 0" "getenv jnlDL_ENV_NAME (j_proc st) = Some w" "CHR 0x00 \<notin> set w"
    "int (number_of 0 (takeWhile is_digit w)) \<le> INT_MAX"
  shows "init_detail env st = Ret () (st\<lparr>j_dl := detail_setting w (j_dl st)\<rparr>)"
proof (cases "w \<noteq> [] \<and> is_digit (hd w)")
  case True
  then show ?thesis using assms by (simp add: init_detail_def detail_setting_def atoi_def Let_def)
next
  case False
  obtain d where d: "jnl_dl_level_fetch w = Some d"
    "(if strcasecmp (dl_description d) w = 0 then dl_level d else j_dl st) = detail_setting w (j_dl st)"
    using level_of_word [OF assms(3), of "j_dl st"] False unfolding detail_setting_def by metis
  show ?thesis using False assms(2) d unfolding init_detail_def by (auto split: if_splits)
qed

lemma init_detail_unset: "getenv jnlDL_ENV_NAME (j_proc st) = None \<Longrightarrow> init_detail env st = Ret () st"
  by (simp add: init_detail_def)

lemma empty_toc_ok:
  assumes inv: "ht_inv h s t T n C F SS" and p: "ht_pairs h s = []" and t: "ht_options t = 0" "ht_keysize t = ucast (4::u64)"
  shows "toc_ok h s bufs"
proof -
  have core: "ht_core h s t T n C F SS" using inv by (simp add: ht_inv_def)
  have "bucket (w_ents s) (T, i) = []" if "i < n" for i using p that unfolding ht_pairs_eq [OF core] by simp
  then have "ht_live h s = {}" unfolding ht_live_core [OF core] by (auto simp: live_kds_def)
  moreover have "ht_keysize_of h s = 4" using ht_coreD(1) [OF core] t(2) by (simp add: ht_keysize_of_def ht_keylen_def)
  ultimately show ?thesis using inv t(1) p by (simp add: toc_ok_def ht_inv_wf ht_unique_eq ht_map_def)
qed

lemma jnl_init_ok:
  assumes det: "init_detail env st = Ret () (st\<lparr>j_dl := n\<rparr>)"
    and env: "stack_ok env" and bufs: "j_bufs st = Map.empty"
    and heap: "0 < j_brk st" "j_brk st \<le> je_heap_end env" "je_heap_end env < 2 ^ 64"
  obtains toc st' where "jnl_init env st = Ret () st'" "jnl_inv env toc st'" "thread_buffers toc st' = Map.empty"
    "j_dl st' = n" "j_proc st' = j_proc st" "j_brk st' = j_brk st" "j_text st' = j_text st" "j_tick st' = j_tick st"
proof -
  let ?w = "j_ht st"
  have e: "env_ok (je_ht env)" using env by (simp add: stack_ok_def)
  have n: "(of_nat jnlBS_TOC :: u64) \<noteq> 0" "slab_fits (unat (of_nat jnlBS_TOC :: u64))"
    by (simp_all add: jnlBS_TOC_def slab_fits_def sizeof_slab_def sizeof_entry_def)
  obtain w t T where w: "ht_create (je_ht env) (of_nat jnlBS_TOC) 4 0 ?w = Some (Ptr (w_brk ?w), w)"
    "ht_inv (w_brk ?w) w t T (unat (of_nat jnlBS_TOC :: u64)) (\<lambda>_. []) [] [T]" "ht_pairs (w_brk ?w) w = []"
    "ht_options t = 0" "ht_keysize t = ucast (4::u64)"
    by (rule ht_create_spec [OF e n, of 4 0 ?w]) auto
  let ?st = "st\<lparr>j_dl := n, j_ht := w, j_toc := Ptr (w_brk ?w)\<rparr>"
  have "heap_ok (je_heap_end env) (j_brk st) (j_bufs st)" using heap by (simp add: heap_ok_def bufs)
  then have inv: "jnl_inv env (w_brk ?w) ?st" using env empty_toc_ok [OF w(2-5)] by (simp add: jnl_inv_def)
  have tb: "thread_buffers (w_brk ?w) ?st = Map.empty"
    by (rule ext) (simp add: thread_buffers_def ht_map_def w(3))
  have run: "jnl_init env st = Ret () ?st" using w(1) by (simp add: jnl_init_def det in_ht_def)
  show thesis by (rule that [OF run inv tb]) simp_all
qed

section \<open>A concrete library\<close>

definition calm_jenv :: jnl_env where
  "calm_jenv = \<lparr>je_io = calm_io, je_ht = calm_env, je_malloc = (\<lambda>_. True), je_heap_end = 100000, je_file = ''libjnl.c'',
     je_atoi_errno = 0, je_self = 1, je_sp = 200000, je_locals = (300000, 310000), je_strerror = (\<lambda>_. ''Error'')\<rparr>"

definition start_jnl :: jnl_state where
  "start_jnl = \<lparr>j_proc = sh_proc\<lparr>p_env := [JNLNAME \<mapsto> ''/j'', jnlDL_ENV_NAME \<mapsto> ''verbose'']\<rparr>, j_ht = first_world,
     j_toc = NULL, j_dl = 0, j_tick = 0, j_brk = 16, j_bufs = Map.empty, j_text = Map.empty\<rparr>"

lemma start_jnl:
  "stack_ok calm_jenv" "je_atoi_errno calm_jenv = 0" "j_bufs start_jnl = Map.empty"
  "0 < j_brk start_jnl" "j_brk start_jnl \<le> je_heap_end calm_jenv" "je_heap_end calm_jenv < 2 ^ 64"
  "getenv jnlDL_ENV_NAME (j_proc start_jnl) = Some ''verbose''" "detail_setting ''verbose'' 0 = jnlDL_VERBOSE"
  "jgood calm_jenv start_jnl" "journal (j_proc start_jnl) = []" "p_pid (j_proc start_jnl) = 42"
proof -
  show "detail_setting ''verbose'' 0 = jnlDL_VERBOSE"
    by (simp add: detail_setting_def is_digit_def jnlDL_Level_Descriptions_def lower_code_def Let_def)
  show "stack_ok calm_jenv" by (simp add: stack_ok_def calm_jenv_def)
  show "jgood calm_jenv start_jnl"
    by (simp add: jgood_def jnl_good_def start_jnl_def calm_jenv_def sh_proc_def proc_wf_def getenv_def INT_MAX_def)
qed (simp_all add: calm_jenv_def start_jnl_def getenv_def jnlDL_ENV_NAME_def JNLNAME_def journal_def sh_proc_def)

text \<open>The library after its start.\<close>

definition ready_jnl :: jnl_state where
  "ready_jnl = (case jnl_init calm_jenv start_jnl of Ret _ st \<Rightarrow> st | _ \<Rightarrow> start_jnl)"

lemma ready_jnl:
  obtains toc where "jnl_init calm_jenv start_jnl = Ret () ready_jnl" "jnl_inv calm_jenv toc ready_jnl"
    "thread_buffers toc ready_jnl = Map.empty" "j_dl ready_jnl = jnlDL_VERBOSE" "j_proc ready_jnl = j_proc start_jnl"
    "j_brk ready_jnl = 16" "j_text ready_jnl = Map.empty"
proof -
  have n: "number_of 0 (takeWhile is_digit ''verbose'') = 0" by (simp add: is_digit_def)
  have det: "init_detail calm_jenv start_jnl = Ret () (start_jnl\<lparr>j_dl := jnlDL_VERBOSE\<rparr>)"
    using init_detail_ok [OF start_jnl(2,7)] start_jnl(8) n by (simp add: INT_MAX_def start_jnl_def)
  from jnl_init_ok [OF det start_jnl(1,3-6)] obtain toc st' where "jnl_init calm_jenv start_jnl = Ret () st'"
    "jnl_inv calm_jenv toc st'" "thread_buffers toc st' = Map.empty" "j_dl st' = jnlDL_VERBOSE"
    "j_proc st' = j_proc start_jnl" "j_brk st' = j_brk start_jnl" "j_text st' = j_text start_jnl" by metis
  moreover from this have "ready_jnl = st'" by (simp add: ready_jnl_def)
  ultimately show thesis by (intro that [of toc]) (simp_all add: start_jnl_def)
qed

section \<open>Messages\<close>

lemma jnl_log_ok:
  assumes "jgood env st" "whole (journal (j_proc st))" "INT_MIN \<le> level" "level \<le> INT_MAX"
    and "log_text level file line fmt args = Some t" "int (length t) \<le> INT_MAX" "CHR 0x00 \<notin> set t"
  shows "returns (jnl_log env file line level fmt args st) (\<lambda>r st'. r = 0 \<and> jgood env st' \<and> jsame st st' \<and> whole (journal (j_proc st')) \<and>
    jlines (journal (j_proc st')) = jlines (journal (j_proc st)) @
      (if level \<le> j_dl st then map (msg_line (p_pid (j_proc st))) (message_lines (take 4095 t) @ ['' '']) else []))"
proof (cases "level \<le> j_dl st")
  case True
  then have "jnl_dl_check level st" by (simp add: jnl_dl_check_def jnl_dl_fetch_def)
  from jnl_vlog_ok [OF assms(1-4) this assms(5-7)] True show ?thesis
    unfolding jnl_log_def by (auto elim!: returns_mono)
next
  case False
  then show ?thesis using assms(1,2) jnl.same_refl by (simp add: jnl_log_def jnl_vlog_def jnl_dl_check_def jnl_dl_fetch_def)
qed

text \<open>A heading that fits the buffer and whose file name has no percent sign stays as it is.\<close>

lemma dec_plain [simp]: "CHR ''%'' \<notin> set (dec i)" "CHR 0x00 \<notin> set (dec i)"
  using dec_chars [of "CHR ''%''" i] dec_chars [of "CHR 0x00" i] by (auto simp: is_digit_def)

lemma log_header_parts:
  assumes "INT_MIN \<le> level" "level \<le> INT_MAX"
  obtains d where "d \<in> set jnlDL_Level_Descriptions" "log_header level file line =
    ''[ - '' @ (if dl_level d = level then [] else ''~'') @ dl_description d @ '' (file: '' @ file @ '', line: '' @ dec line @ '') - ]\<newline>''"
proof -
  obtain i where "i < 7" "jnl_dl_description_fetch level = Some (jnlDL_Level_Descriptions ! i)"
    using jnl_dl_description_fetch_bound [OF assms] by metis
  then show thesis by (intro that [of "jnlDL_Level_Descriptions ! i"]) (simp_all add: log_header_def)
qed

lemma level_words:
  assumes "d \<in> set jnlDL_Level_Descriptions"
  shows "CHR ''%'' \<notin> set (dl_description d)" "CHR 0x00 \<notin> set (dl_description d)" "length (dl_description d) \<le> 12"
  using assms by (auto simp: jnlDL_Level_Descriptions_def)

lemma log_header_plain:
  assumes "INT_MIN \<le> level" "level \<le> INT_MAX" "CHR ''%'' \<notin> set file" "CHR 0x00 \<notin> set file"
    "INT_MIN \<le> line" "line \<le> INT_MAX"
  shows "CHR ''%'' \<notin> set (log_header level file line)" "CHR 0x00 \<notin> set (log_header level file line)"
    "length (log_header level file line) \<le> length file + 60"
proof -
  obtain d where d: "d \<in> set jnlDL_Level_Descriptions" "log_header level file line =
    ''[ - '' @ (if dl_level d = level then [] else ''~'') @ dl_description d @ '' (file: '' @ file @ '', line: '' @ dec line @ '') - ]\<newline>''"
    by (rule log_header_parts [OF assms(1,2)]) (rule that)
  show "CHR ''%'' \<notin> set (log_header level file line)" "CHR 0x00 \<notin> set (log_header level file line)"
    using level_words(1,2) [OF d(1)] assms(3,4) unfolding d(2) by auto
  show "length (log_header level file line) \<le> length file + 60"
    using level_words(3) [OF d(1)] length_dec_int [OF assms(5,6)] unfolding d(2) by auto
qed

lemma log_text_plain:
  assumes "INT_MIN \<le> level" "level \<le> INT_MAX" "CHR ''%'' \<notin> set file" "CHR 0x00 \<notin> set file"
    "INT_MIN \<le> line" "line \<le> INT_MAX" "length file + length fmt \<le> 963" "format fmt args = Some u"
  shows "log_text level file line fmt args = Some (log_header level file line @ u)"
  using log_header_plain(1,3) [OF assms(1-6)] assms(7,8) by (simp add: log_text_def format_plain)

text \<open>
  C16. A message on a level that the detail level admits leaves its lines in the journal, one
  \<^verbatim>\<open>Msg\<close> line of \<^verbatim>\<open>libstf\<close> for each, and a blank one behind them: the heading with the name of the
  level and the place of the call, then the caller's text, an empty line of it as a blank. A message on
  a higher level leaves nothing. Nothing else of the library changes, and the call returns 0.
\<close>

theorem jnl_log_lines:
  assumes "jgood env st" "whole (journal (j_proc st))" "INT_MIN \<le> level" "level \<le> INT_MAX"
    and "log_text level file line fmt args = Some t" "int (length t) \<le> INT_MAX" "CHR 0x00 \<notin> set t"
  shows "returns (jnl_log env file line level fmt args st) (\<lambda>r st'. r = 0 \<and> jsame st st' \<and> whole (journal (j_proc st')) \<and>
    jlines (journal (j_proc st')) = jlines (journal (j_proc st)) @
      (if level \<le> j_dl st then map (msg_line (p_pid (j_proc st))) (message_lines (take 4095 t) @ ['' '']) else []))"
  by (rule returns_mono [OF jnl_log_ok [OF assms]]) blast

theorem jnl_log_lines_witness:
  "returns (jnl_log calm_jenv ''t.c'' 5 0 ''hi\<newline>\<newline>%d'' [AInt 3] ready_jnl) (\<lambda>r st'. jlines (journal (j_proc st')) =
     [''Msg| 42 | [ - Progress (file: t.c, line: 5) - ]'', ''Msg| 42 | hi'', ''Msg| 42 |  '', ''Msg| 42 | 3'', ''Msg| 42 |  ''])"
proof -
  obtain toc where R: "j_dl ready_jnl = jnlDL_VERBOSE" "j_proc ready_jnl = j_proc start_jnl" using ready_jnl by metis
  have good: "jgood calm_jenv ready_jnl" using start_jnl(9) by (simp add: jgood_def R(2))
  let ?t = "''[ - Progress (file: t.c, line: 5) - ]\<newline>hi\<newline>\<newline>3''"
  have D: "dec 3 = ''3''" "dec 5 = ''5''" "dec 42 = ''42''" by (simp_all add: dec_def numeral_in.simps)
  have "jnl_dl_description_fetch 0 = Some \<lparr>dl_level = jnlDL_PROGRESS, dl_description = ''Progress''\<rparr>"
    by (simp add: jnl_dl_description_fetch_def description_probe.simps Let_def keep_within_def jnlDL_Level_Descriptions_def jnlDL_defs)
  then have h: "log_header 0 ''t.c'' 5 = ''[ - Progress (file: t.c, line: 5) - ]\<newline>''" by (simp add: log_header_def jnlDL_PROGRESS_def D)
  have t: "log_text 0 ''t.c'' 5 ''hi\<newline>\<newline>%d'' [AInt 3] = Some ?t" unfolding log_text_def h by (simp add: fmt D)
  have "returns (jnl_log calm_jenv ''t.c'' 5 0 ''hi\<newline>\<newline>%d'' [AInt 3] ready_jnl) (\<lambda>r st'. r = 0 \<and> jsame ready_jnl st' \<and>
      whole (journal (j_proc st')) \<and> jlines (journal (j_proc st')) = jlines (journal (j_proc ready_jnl)) @
      (if 0 \<le> j_dl ready_jnl then map (msg_line (p_pid (j_proc ready_jnl))) (message_lines (take 4095 ?t) @ ['' '']) else []))"
    by (rule jnl_log_lines [OF good _ _ _ t]) (simp_all add: R(2) start_jnl(10) INT_MIN_def INT_MAX_def)
  moreover have "0 \<le> j_dl ready_jnl" by (simp add: R(1) jnlDL_defs)
  moreover have "message_lines (take 4095 ?t) = [''[ - Progress (file: t.c, line: 5) - ]'', ''hi'', '' '', ''3'']"
    by (simp add: message_lines_def jlines.simps)
  ultimately show ?thesis by (auto elim!: returns_mono simp: R(2) start_jnl(10,11) msg_line_def D)
qed

text \<open>
  C17. The loop that cuts the buffer of \<^verbatim>\<open>jnl_vlog_\<close> into messages sends exactly the lines of the
  text, in order: it misses none, sends none twice, and stays inside the buffer.
\<close>

theorem jnl_split_lines:
  assumes "CHR 0x00 \<notin> set buf"
  shows "split_loop put buf 0 0 st = put_all put (message_lines buf) st"
  using assms by (rule split_loop_lines)

theorem jnl_split_lines_witness:
  "split_loop (\<lambda>m st. Ret () (st @ [m])) ''a\<newline>\<newline>bc'' 0 0 [] = Ret () [''a'', '' '', ''bc'']"
proof -
  have "split_loop (\<lambda>m st. Ret () (st @ [m])) ''a\<newline>\<newline>bc'' 0 0 [] =
      put_all (\<lambda>m st. Ret () (st @ [m])) (message_lines ''a\<newline>\<newline>bc'') []"
    by (rule jnl_split_lines) simp
  also have "message_lines ''a\<newline>\<newline>bc'' = [''a'', '' '', ''bc'']"
    by (simp add: message_lines_def jlines.simps)
  finally show ?thesis by simp
qed

section \<open>Detail levels\<close>

text \<open>
  \<^verbatim>\<open>jnl_dl_description_fetch\<close> ends on every level an \<^verbatim>\<open>int\<close> can name and finds the lowest entry of
  the table that is not below it.
\<close>

theorem jnl_description_found:
  assumes "INT_MIN \<le> level" "level \<le> INT_MAX"
  shows "jnl_dl_description_fetch level = find (\<lambda>d. level \<le> dl_level d) jnlDL_Level_Descriptions \<and>
    jnl_dl_description_fetch level \<noteq> None"
proof -
  obtain i where "i < 7" "jnl_dl_description_fetch level = Some (jnlDL_Level_Descriptions ! i)"
    "level \<le> dl_level (jnlDL_Level_Descriptions ! i)" "\<And>j. j < i \<Longrightarrow> dl_level (jnlDL_Level_Descriptions ! j) < level"
    using jnl_dl_description_fetch_bound [OF assms] by metis
  then have "find (\<lambda>d. level \<le> dl_level d) jnlDL_Level_Descriptions = Some (jnlDL_Level_Descriptions ! i)"
    unfolding find_Some_iff by (intro exI [of _ i]) (auto simp: not_le)
  then show ?thesis using \<open>jnl_dl_description_fetch level = _\<close> by simp
qed

theorem jnl_description_found_witness:
  "jnl_dl_description_fetch 7 = Some \<lparr>dl_level = jnlDL_VERBOSE, dl_description = ''Verbose''\<rparr>"
  using jnl_description_found [of 7] by (simp add: jnlDL_Level_Descriptions_def jnlDL_defs)

text \<open>
  C18. Starting the library sets the detail level from \<^verbatim>\<open>TJNL_DETAIL\<close>: to the number the value begins
  with, or to the level whose name it is, in upper or lower case; any other word leaves the level as it
  was. The search for the word ends whatever the word is. The invariant of the buffers is established, and no thread has
  buffers then. The locks and allocations of the table succeed (part of \<open>stack_ok\<close>); nothing is assumed of what new memory
  holds.
\<close>

theorem jnl_init_sets_up:
  assumes "je_atoi_errno env = 0" "getenv jnlDL_ENV_NAME (j_proc st) = Some w" "CHR 0x00 \<notin> set w"
    and "int (number_of 0 (takeWhile is_digit w)) \<le> INT_MAX"
    and "stack_ok env" "j_bufs st = Map.empty"
    and "0 < j_brk st" "j_brk st \<le> je_heap_end env" "je_heap_end env < 2 ^ 64"
  shows "returns (jnl_init env st) (\<lambda>_ st'. j_dl st' = detail_setting w (j_dl st) \<and>
    (\<exists>toc. jnl_inv env toc st' \<and> thread_buffers toc st' = Map.empty))"
proof -
  from jnl_init_ok [OF init_detail_ok [OF assms(1-4)] assms(5-9)] obtain toc st' where "jnl_init env st = Ret () st'"
    "jnl_inv env toc st'" "thread_buffers toc st' = Map.empty" "j_dl st' = detail_setting w (j_dl st)" by metis
  then show ?thesis by auto
qed

theorem jnl_init_sets_up_witness:
  "returns (jnl_init calm_jenv start_jnl) (\<lambda>_ st'. j_dl st' = jnlDL_VERBOSE)"
proof -
  have n: "number_of 0 (takeWhile is_digit ''verbose'') = 0" by (simp add: is_digit_def)
  have "returns (jnl_init calm_jenv start_jnl) (\<lambda>_ st'. j_dl st' = detail_setting ''verbose'' (j_dl start_jnl) \<and>
    (\<exists>toc. jnl_inv calm_jenv toc st' \<and> thread_buffers toc st' = Map.empty))"
    by (rule jnl_init_sets_up [OF start_jnl(2,7) _ _ start_jnl(1,3-6)]) (simp_all add: n INT_MAX_def)
  then show ?thesis using start_jnl(8) by (auto simp: returns_def start_jnl_def)
qed

section \<open>The buffers of the threads\<close>

text \<open>
  C19. \<^verbatim>\<open>_jnl_buffer_fetch\<close> keeps the invariant of the library and returns a buffer of the thread that
  asks: the one it has, or, the first time, one of four new ones that are entered under the thread's
  number. Every other thread keeps its buffers, and every other buffer its text.
\<close>

theorem jnl_buffer_fetch_keeps:
  assumes "jnl_inv env toc st" "0 \<le> i" "i < jnlBI_MAX" "thread_buffers toc st tid \<noteq> None \<or> jnl_room env st"
  shows "returns (jnl_buffer_fetch env tid i st) (\<lambda>a st'. jnl_inv env toc st' \<and>
    (\<exists>bs. thread_buffers toc st' = (thread_buffers toc st)(tid \<mapsto> bs) \<and> a = bs ! nat i \<and> a \<noteq> 0 \<and>
      (\<forall>old. thread_buffers toc st tid = Some old \<longrightarrow> bs = old) \<and> (\<forall>b. b \<notin> set bs \<longrightarrow> j_text st' b = j_text st b)))"
proof (rule returns_mono [OF jnl_buffer_fetch_ok [OF assms(1,2) _ assms(4)]])
  show "i < 4" using assms(3) by (simp add: jnlBI_MAX_def)
next
  fix a st'
  assume "\<exists>bs. fetched env toc tid st st' bs \<and> a = bs ! nat i \<and>
    (thread_buffers toc st tid = None \<and> bs = new_texts (j_brk st) \<or> thread_buffers toc st tid = Some bs)"
  then obtain bs where f: "fetched env toc tid st st' bs" "a = bs ! nat i"
    "thread_buffers toc st tid = None \<or> thread_buffers toc st tid = Some bs" by blast
  then have inv: "jnl_inv env toc st'" and tb: "thread_buffers toc st' = (thread_buffers toc st)(tid \<mapsto> bs)"
    by (simp_all add: fetched_def)
  have "bs ! nat i \<noteq> 0" using thread_buffers_text(2) [OF inv, of tid bs "nat i"] tb assms(2,3) by (simp add: jnlBI_MAX_def nat_less_iff)
  then show "jnl_inv env toc st' \<and> (\<exists>bs. thread_buffers toc st' = (thread_buffers toc st)(tid \<mapsto> bs) \<and> a = bs ! nat i \<and> a \<noteq> 0 \<and>
      (\<forall>old. thread_buffers toc st tid = Some old \<longrightarrow> bs = old) \<and> (\<forall>b. b \<notin> set bs \<longrightarrow> j_text st' b = j_text st b))"
    using f inv tb by (intro conjI exI [of _ bs]) (auto simp: fetched_def)
qed

lemma ready_room: "jnl_room calm_jenv ready_jnl"
proof -
  obtain toc where "j_brk ready_jnl = 16" using ready_jnl by metis
  then show ?thesis by (simp add: jnl_room_def calm_jenv_def new_space_def)
qed

theorem jnl_buffer_fetch_keeps_witness:
  "returns (jnl_buffer_fetch calm_jenv 9 2 ready_jnl) (\<lambda>a st'. a \<noteq> 0 \<and> (\<exists>toc. jnl_inv calm_jenv toc st'))"
proof -
  obtain toc where "jnl_inv calm_jenv toc ready_jnl" using ready_jnl by metis
  from jnl_buffer_fetch_keeps [OF this, of 2 9] ready_room show ?thesis by (auto elim!: returns_mono simp: jnlBI_MAX_def)
qed

text \<open>
  C20. Two fetches return the same buffer only if the same thread asks for the same message, and
  then always: no two threads write into one buffer.
\<close>

theorem jnl_buffers_apart:
  assumes "jnl_inv env toc st" "\<And>k. je_malloc env k" "j_brk st + 2 * new_space \<le> je_heap_end env"
    and "0 \<le> i" "i < jnlBI_MAX" "0 \<le> j" "j < jnlBI_MAX"
  shows "returns (seq (jnl_buffer_fetch env tid i st) (\<lambda>a st. seq (jnl_buffer_fetch env tid' j st) (\<lambda>b st. Ret (a, b) st)))
    (\<lambda>(a, b) st'. a = b \<longleftrightarrow> tid = tid' \<and> i = j)"
  unfolding returns_seq
proof (rule returns_mono [OF jnl_buffer_fetch_ok [OF assms(1,4)]])
  show "i < 4" using assms(5) by (simp add: jnlBI_MAX_def)
  show "thread_buffers toc st tid \<noteq> None \<or> jnl_room env st" using assms(2,3) by (simp add: jnl_room_def)
next
  fix a st1
  assume "\<exists>bs. fetched env toc tid st st1 bs \<and> a = bs ! nat i \<and>
    (thread_buffers toc st tid = None \<and> bs = new_texts (j_brk st) \<or> thread_buffers toc st tid = Some bs)"
  then obtain bs where f: "fetched env toc tid st st1 bs" "a = bs ! nat i" by blast
  have inv1: "jnl_inv env toc st1" and room1: "jnl_room env st1" and tb1: "thread_buffers toc st1 tid = Some bs"
    using f(1) assms(2,3) by (simp_all add: fetched_def jnl_room_def)
  have ij: "nat i < 4" "nat j < 4" using assms(4-7) by (simp_all add: jnlBI_MAX_def nat_less_iff)
  show "returns (jnl_buffer_fetch env tid' j st1) (\<lambda>b st2. returns (Ret (a, b) st2) (\<lambda>(a, b) st'. a = b \<longleftrightarrow> tid = tid' \<and> i = j))"
  proof (rule returns_mono [OF jnl_buffer_fetch_ok [OF inv1 assms(6)]])
    show "j < 4" using assms(7) by (simp add: jnlBI_MAX_def)
    show "thread_buffers toc st1 tid' \<noteq> None \<or> jnl_room env st1" using room1 by simp
  next
    fix b st2
    assume "\<exists>bs. fetched env toc tid' st1 st2 bs \<and> b = bs ! nat j \<and>
      (thread_buffers toc st1 tid' = None \<and> bs = new_texts (j_brk st1) \<or> thread_buffers toc st1 tid' = Some bs)"
    then obtain bs' where g: "fetched env toc tid' st1 st2 bs'" "b = bs' ! nat j"
      "thread_buffers toc st1 tid' = None \<or> thread_buffers toc st1 tid' = Some bs'" by blast
    have inv2: "jnl_inv env toc st2" and tb2: "thread_buffers toc st2 tid' = Some bs'" "thread_buffers toc st2 tid = Some bs"
      using g tb1 by (auto simp: fetched_def)
    have "bs' = bs" if "tid = tid'" using that tb2 by simp
    then have "a = b \<longleftrightarrow> tid = tid' \<and> nat i = nat j"
      using thread_buffers_apart [OF inv2 tb2(2,1) _ ij] f(2) g(2) by metis
    then show "returns (Ret (a, b) st2) (\<lambda>(a, b) st'. a = b \<longleftrightarrow> tid = tid' \<and> i = j)"
      using assms(4,6) by (simp add: eq_nat_nat_iff)
  qed
qed

theorem jnl_buffers_apart_witness:
  "returns (seq (jnl_buffer_fetch calm_jenv 1 0 ready_jnl) (\<lambda>a st. seq (jnl_buffer_fetch calm_jenv 2 0 st) (\<lambda>b st. Ret (a, b) st)))
    (\<lambda>(a, b) st'. a \<noteq> b)"
proof -
  obtain toc where R: "jnl_inv calm_jenv toc ready_jnl" "j_brk ready_jnl = 16" using ready_jnl by metis
  have "returns (seq (jnl_buffer_fetch calm_jenv 1 0 ready_jnl) (\<lambda>a st. seq (jnl_buffer_fetch calm_jenv 2 0 st) (\<lambda>b st. Ret (a, b) st)))
    (\<lambda>(a, b) st'. a = b \<longleftrightarrow> (1::u32) = 2 \<and> (0::int) = 0)"
    by (rule jnl_buffers_apart [OF R(1)]) (simp_all add: calm_jenv_def R(2) new_space_def jnlBI_MAX_def)
  then show ?thesis by (rule returns_mono) auto
qed

section \<open>Messages in the buffers\<close>

lemma message_tables: "i < 4 \<Longrightarrow> jnl_message_buffer_size ! i = 1024" "length jnl_message_title = 4"
  "i < 4 \<Longrightarrow> length (jnl_message_title ! i) \<le> 9"
  by (auto simp: less_4 jnl_message_buffer_size_def jnlBS_defs jnl_message_title_def)

text \<open>The text a message leaves in its buffer.\<close>

definition message_text :: "int \<Rightarrow> string \<Rightarrow> arg list \<Rightarrow> string option" where
  "message_text i fmt args =
     map_option (take 1023) (format (take 1023 (jnl_message_title ! nat i @ '':\<newline>- '' @ fmt)) args)"

definition formatted :: "jnl_env \<Rightarrow> addr \<Rightarrow> jnl_state \<Rightarrow> jnl_state \<Rightarrow> u64 list \<Rightarrow> u64 \<Rightarrow> string \<Rightarrow> bool" where
  "formatted env toc st st' bs a t \<longleftrightarrow> jnl_inv env toc st' \<and> thread_buffers toc st' = (thread_buffers toc st)(je_self env \<mapsto> bs) \<and>
     j_proc st' = j_proc st \<and> j_dl st' = j_dl st \<and> a \<noteq> 0 \<and> j_text st' a = Some t \<and>
     (\<forall>b. b \<noteq> a \<longrightarrow> b \<notin> set bs \<or> thread_buffers toc st (je_self env) \<noteq> None \<longrightarrow> j_text st' b = j_text st b)"

lemma jnl_format_message_ok:
  assumes inv: "jnl_inv env toc st" and i: "0 \<le> i" "i < 4"
    and room: "thread_buffers toc st (je_self env) \<noteq> None \<or> jnl_room env st"
    and t: "format (take 1023 (jnl_message_title ! nat i @ '':\<newline>- '' @ fmt)) args = Some t"
      "int (length t) \<le> INT_MAX" "int (length fmt) + 13 \<le> INT_MAX"
  shows "returns (jnl_format_message env i fmt args st) (\<lambda>a st'. \<exists>bs. formatted env toc st st' bs a (take 1023 t) \<and>
    a = bs ! nat i \<and> (\<forall>old. thread_buffers toc st (je_self env) = Some old \<longrightarrow> bs = old))"
proof -
  obtain a st1 bs where run: "jnl_buffer_fetch env (je_self env) i st = Ret a st1"
    and f: "fetched env toc (je_self env) st st1 bs" "a = bs ! nat i"
    "thread_buffers toc st (je_self env) = None \<or> thread_buffers toc st (je_self env) = Some bs"
    using jnl_buffer_fetch_ok [OF inv i room] unfolding returns_def by blast
  have n: "nat i < 4" using i by (simp add: nat_less_iff)
  have inv1: "jnl_inv env toc st1" "thread_buffers toc st1 (je_self env) = Some bs" using f(1) by (simp_all add: fetched_def)
  have a: "a \<noteq> 0" using thread_buffers_text(2) [OF inv1 n] f(2) by simp
  have "format ''%s:\<newline>- %s'' [AStr (jnl_message_title ! nat i), AStr fmt] = Some (jnl_message_title ! nat i @ '':\<newline>- '' @ fmt)"
    by (simp add: fmt)
  moreover have "int (length (jnl_message_title ! nat i @ '':\<newline>- '' @ fmt)) \<le> INT_MAX" using t(3) message_tables(3) [OF n] by simp
  ultimately have s1: "\<exists>r\<ge>0. snprintf jnlBS_format ''%s:\<newline>- %s'' [AStr (jnl_message_title ! nat i), AStr fmt] =
      Some (r, take 1023 (jnl_message_title ! nat i @ '':\<newline>- '' @ fmt))" by (simp add: snprintf_def jnlBS_format_def)
  then obtain r where r: "r \<ge> 0" "snprintf jnlBS_format ''%s:\<newline>- %s'' [AStr (jnl_message_title ! nat i), AStr fmt] =
      Some (r, take 1023 (jnl_message_title ! nat i @ '':\<newline>- '' @ fmt))" by blast
  have s2: "snprintf 1024 (take 1023 (jnl_message_title ! nat i @ '':\<newline>- '' @ fmt)) args = Some (int (length t), take 1023 t)"
    using t(1,2) by (simp add: snprintf_def)
  let ?st = "st1\<lparr>j_text := (j_text st1)(a \<mapsto> take 1023 t)\<rparr>"
  have "thread_buffers toc ?st = thread_buffers toc st1" by (rule ext) (simp add: thread_buffers_def split: option.splits)
  then have "formatted env toc st ?st bs a (take 1023 t)" using f(1) a by (simp add: formatted_def fetched_def jnl_inv_def)
  then have Q: "\<exists>bs. formatted env toc st ?st bs a (take 1023 t) \<and> a = bs ! nat i \<and>
      (\<forall>old. thread_buffers toc st (je_self env) = Some old \<longrightarrow> bs = old)" using f(2,3) by auto
  have r': "\<not> r < 0" "\<not> int (length t) < 0" using r(1) by simp_all
  show ?thesis unfolding jnl_format_message_def jnl_vformat_message_def
    using Q by (simp only: run seq.simps a if_False r(2) s2 r' message_tables(1) [OF n] option.case prod.case Let_def returns_Ret)
qed

text \<open>
  \<^verbatim>\<open>jnl_format_message_\<close> leaves in the buffer it returns the title of the message and the text the
  caller's format makes, cut to what the buffer holds. The other three messages of the thread stay as
  they are once the thread has its buffers, and so do those of every other thread.
\<close>

theorem jnl_format_message_text:
  assumes "jnl_inv env toc st" "0 \<le> i" "i < jnlBI_MAX" "thread_buffers toc st (je_self env) \<noteq> None \<or> jnl_room env st"
    and "format (take 1023 (jnl_message_title ! nat i @ '':\<newline>- '' @ fmt)) args = Some t"
    and "int (length t) \<le> INT_MAX" "int (length fmt) + 13 \<le> INT_MAX"
  shows "returns (jnl_format_message env i fmt args st) (\<lambda>a st'. jnl_inv env toc st' \<and>
    (\<exists>bs. thread_buffers toc st' = (thread_buffers toc st)(je_self env \<mapsto> bs) \<and> a = bs ! nat i \<and>
      j_text st' a = Some (take 1023 t) \<and>
      (\<forall>b. b \<noteq> a \<longrightarrow> b \<notin> set bs \<or> thread_buffers toc st (je_self env) = Some bs \<longrightarrow> j_text st' b = j_text st b)))"
proof -
  have i: "i < 4" using assms(3) by (simp add: jnlBI_MAX_def)
  show ?thesis
    by (rule returns_mono [OF jnl_format_message_ok [OF assms(1,2) i assms(4-7)]]) (auto simp: formatted_def)
qed

theorem jnl_format_message_text_witness:
  "returns (jnl_format_message calm_jenv jnlBI_ERROR ''got %d'' [AInt 5] ready_jnl) (\<lambda>a st'. j_text st' a = Some ''Error:\<newline>- got 5'')"
proof -
  obtain toc where inv: "jnl_inv calm_jenv toc ready_jnl" using ready_jnl by metis
  have D: "dec 5 = ''5''" by (simp add: dec_def numeral_in.simps)
  have f: "format (take 1023 (jnl_message_title ! nat jnlBI_ERROR @ '':\<newline>- '' @ ''got %d'')) [AInt 5] = Some ''Error:\<newline>- got 5''"
    by (simp add: jnl_message_title_def jnlBI_ERROR_def fmt D)
  have "returns (jnl_format_message calm_jenv jnlBI_ERROR ''got %d'' [AInt 5] ready_jnl) (\<lambda>a st'. jnl_inv calm_jenv toc st' \<and>
    (\<exists>bs. thread_buffers toc st' = (thread_buffers toc ready_jnl)(je_self calm_jenv \<mapsto> bs) \<and> a = bs ! nat jnlBI_ERROR \<and>
      j_text st' a = Some (take 1023 ''Error:\<newline>- got 5'') \<and>
      (\<forall>b. b \<noteq> a \<longrightarrow> b \<notin> set bs \<or> thread_buffers toc ready_jnl (je_self calm_jenv) = Some bs \<longrightarrow> j_text st' b = j_text ready_jnl b)))"
    by (rule jnl_format_message_text [OF inv _ _ _ f])
      (simp_all add: ready_room INT_MAX_def jnlBI_ERROR_def jnlBI_MAX_def)
  then show ?thesis by (auto elim!: returns_mono)
qed

section \<open>Results\<close>

definition place_ok :: "string \<Rightarrow> int \<Rightarrow> bool" where
  "place_ok file line \<longleftrightarrow> CHR ''%'' \<notin> set file \<and> CHR 0x00 \<notin> set file \<and> length file \<le> 900 \<and> INT_MIN \<le> line \<and> line \<le> INT_MAX"

lemma whole_header:
  assumes "INT_MIN \<le> level" "level \<le> INT_MAX"
  shows "whole (log_header level file line)"
proof -
  obtain d where "d \<in> set jnlDL_Level_Descriptions" "log_header level file line =
    ''[ - '' @ (if dl_level d = level then [] else ''~'') @ dl_description d @ '' (file: '' @ file @ '', line: '' @ dec line @ '') - ]\<newline>''"
    by (rule log_header_parts [OF assms]) (rule that)
  then show ?thesis by (simp add: whole_def)
qed

text \<open>A message with a short text: the lines of the heading, those of the text, and a blank.\<close>

definition entry_lines :: "int \<Rightarrow> string \<Rightarrow> int \<Rightarrow> string \<Rightarrow> string list" where
  "entry_lines level file line u = message_lines (log_header level file line) @ message_lines u @ ['' '']"

lemma jnl_log_short:
  assumes "jgood env st" "whole (journal (j_proc st))" and lv: "INT_MIN \<le> level" "level \<le> INT_MAX" and p: "place_ok file line"
    and f: "format fs args = Some u" "length fs \<le> 63" "length u \<le> 3000" "CHR 0x00 \<notin> set u"
  shows "returns (jnl_log env file line level fs args st) (\<lambda>r st'. r = 0 \<and> jgood env st' \<and> jsame st st' \<and> whole (journal (j_proc st')) \<and>
    jlines (journal (j_proc st')) = jlines (journal (j_proc st)) @
      (if level \<le> j_dl st then map (msg_line (p_pid (j_proc st))) (entry_lines level file line u) else []))"
proof -
  let ?h = "log_header level file line"
  have pl: "CHR ''%'' \<notin> set file" "CHR 0x00 \<notin> set file" "INT_MIN \<le> line" "line \<le> INT_MAX" "length file \<le> 900"
    using p by (simp_all add: place_ok_def)
  note H = log_header_plain [OF lv pl(1-4)]
  have t: "log_text level file line fs args = Some (?h @ u)" using f(2) pl(5) by (intro log_text_plain [OF lv pl(1-4) _ f(1)]) simp
  have len: "take 4095 (?h @ u) = ?h @ u" "int (length (?h @ u)) \<le> INT_MAX" using H(3) f(3) pl(5) by (simp_all add: INT_MAX_def)
  have lines: "message_lines (?h @ u) = message_lines ?h @ message_lines u"
    unfolding message_lines_def jlines_append [OF whole_header [OF lv]] by simp
  have nul: "CHR 0x00 \<notin> set (?h @ u)" using H(2) f(4) by simp
  show ?thesis using jnl_log_ok [OF assms(1,2) lv t len(2) nul] by (simp only: len(1) lines entry_lines_def append_assoc)
qed

lemma result_words: "i < 11 \<Longrightarrow> result_tbl ! i \<noteq> [] \<and> NL \<notin> set (result_tbl ! i) \<and> CHR 0x00 \<notin> set (result_tbl ! i) \<and> length (result_tbl ! i) \<le> 11"
proof -
  assume "i < 11"
  moreover have "length result_tbl = 11" by (simp add: result_tbl_def)
  ultimately have "result_tbl ! i \<in> set result_tbl" by (intro nth_mem) simp
  then show ?thesis by (auto simp: result_tbl_def)
qed

lemma result_named_ok:
  assumes "jgood env st" "whole (journal (j_proc st))" "place_ok file line" "0 \<le> c" "c < STF_MAX_RESULTS"
  shows "returns (result_named env file line c st) (\<lambda>r st'. r = 0 \<and> jgood env st' \<and> jsame st st' \<and> whole (journal (j_proc st')) \<and>
    jlines (journal (j_proc st')) = jlines (journal (j_proc st)) @ (if jnlDL_RESULT \<le> j_dl st
      then map (msg_line (p_pid (j_proc st))) (entry_lines jnlDL_RESULT file line (''RESULT: '' @ get_status_name c)) else []))"
proof -
  have n: "nat c < 11" "get_status_name c = result_tbl ! nat c"
    using assms(4,5) by (simp_all add: stf_codes get_status_name_def)
  show ?thesis unfolding result_named_def n(2)
    by (rule jnl_log_short [OF assms(1,2) _ _ assms(3)]) (use result_words [OF n(1)] in \<open>auto simp: fmt jnlDL_defs\<close>)
qed

text \<open>
  \<^verbatim>\<open>jnl_RESULT\<close> with a code that is not negative writes the word that \<^verbatim>\<open>libstf\<close> has for the code,
  \<^verbatim>\<open>OTHER\<close> for every code above the table, and returns 0.
\<close>

theorem jnl_result_names:
  assumes "jgood env st" "whole (journal (j_proc st))" "place_ok file line" "0 \<le> c"
  shows "returns (jnl_result env file line c st) (\<lambda>r st'. r = 0 \<and> jsame st st' \<and>
    jlines (journal (j_proc st')) = jlines (journal (j_proc st)) @ (if jnlDL_RESULT \<le> j_dl st
      then map (msg_line (p_pid (j_proc st))) (entry_lines jnlDL_RESULT file line (''RESULT: '' @ get_status_name c)) else []))"
proof -
  define d where "d = (if c \<ge> STF_MAX_RESULTS then STF_OTHER else c)"
  have d: "0 \<le> d" "d < STF_MAX_RESULTS" "\<not> d < STF_PASS" "get_status_name d = get_status_name c"
    using assms(4) by (auto simp: d_def stf_codes get_status_name_def)
  have "jnl_result env file line c st = result_named env file line d st"
    unfolding jnl_result_def Let_def d_def [symmetric] using d(3) by simp
  then show ?thesis using result_named_ok [OF assms(1-3) d(1,2)] unfolding d(4) by (auto elim!: returns_mono)
qed

theorem jnl_result_names_witness:
  "returns (jnl_result calm_jenv ''t.c'' 5 99 ready_jnl) (\<lambda>r st'. r = 0 \<and>
     jlines (journal (j_proc st')) = [''Msg| 42 | [ - Result (file: t.c, line: 5) - ]'', ''Msg| 42 | RESULT: OTHER'', ''Msg| 42 |  ''])"
proof -
  obtain toc where R: "j_dl ready_jnl = jnlDL_VERBOSE" "j_proc ready_jnl = j_proc start_jnl" using ready_jnl by metis
  have good: "jgood calm_jenv ready_jnl" using start_jnl(9) by (simp add: jgood_def R(2))
  have D: "dec 5 = ''5''" "dec 42 = ''42''" by (simp_all add: dec_def numeral_in.simps)
  have "jnl_dl_description_fetch jnlDL_RESULT = Some \<lparr>dl_level = jnlDL_RESULT, dl_description = ''Result''\<rparr>"
    by (simp add: jnl_dl_description_fetch_def description_probe.simps Let_def keep_within_def jnlDL_Level_Descriptions_def jnlDL_defs)
  then have h: "log_header jnlDL_RESULT ''t.c'' 5 = ''[ - Result (file: t.c, line: 5) - ]\<newline>''" by (simp add: log_header_def D)
  have e: "entry_lines jnlDL_RESULT ''t.c'' 5 (''RESULT: '' @ get_status_name 99) =
      [''[ - Result (file: t.c, line: 5) - ]'', ''RESULT: OTHER'', '' '']"
    unfolding entry_lines_def h by (simp add: message_lines_def jlines.simps get_status_name_def stf_codes result_tbl_def)
  have "returns (jnl_result calm_jenv ''t.c'' 5 99 ready_jnl) (\<lambda>r st'. r = 0 \<and> jsame ready_jnl st' \<and>
    jlines (journal (j_proc st')) = jlines (journal (j_proc ready_jnl)) @ (if jnlDL_RESULT \<le> j_dl ready_jnl
      then map (msg_line (p_pid (j_proc ready_jnl))) (entry_lines jnlDL_RESULT ''t.c'' 5 (''RESULT: '' @ get_status_name 99)) else []))"
    by (rule jnl_result_names [OF good]) (simp_all add: R(2) start_jnl(10) place_ok_def INT_MIN_def INT_MAX_def)
  moreover have "jnlDL_RESULT \<le> j_dl ready_jnl" by (simp add: R(1) jnlDL_defs)
  ultimately show ?thesis unfolding e by (auto elim!: returns_mono simp: R(2) start_jnl(10,11) msg_line_def D)
qed

text \<open>A message of a thread that has its buffers.\<close>

lemma jnl_format_message_next:
  assumes "jnl_inv env toc st" "thread_buffers toc st (je_self env) = Some bs" "0 \<le> i" "i < 4"
    and "format (take 1023 (jnl_message_title ! nat i @ '':\<newline>- '' @ fmt)) args = Some t"
      "int (length t) \<le> INT_MAX" "int (length fmt) + 13 \<le> INT_MAX"
  obtains st' where "jnl_format_message env i fmt args st = Ret (bs ! nat i) st'" "jnl_inv env toc st'"
    "thread_buffers toc st' (je_self env) = Some bs" "j_proc st' = j_proc st" "j_dl st' = j_dl st"
    "j_text st' = (j_text st)(bs ! nat i \<mapsto> take 1023 t)"
proof -
  have "thread_buffers toc st (je_self env) \<noteq> None \<or> jnl_room env st" using assms(2) by simp
  from jnl_format_message_ok [OF assms(1,3,4) this assms(5-7)] assms(2) obtain a st' where
    run: "jnl_format_message env i fmt args st = Ret a st'" and f: "formatted env toc st st' bs a (take 1023 t)" "a = bs ! nat i"
    unfolding returns_def by blast
  have "j_text st' = (j_text st)(bs ! nat i \<mapsto> take 1023 t)" using f assms(2) by (intro ext) (auto simp: formatted_def)
  then show thesis using run f by (intro that [of st']) (simp_all add: formatted_def)
qed

lemma jnl_DIAGNOSTIC_texts:
  assumes "j_text st a = Some t0" "j_text st b = Some t1" "j_text st c = Some t2" "j_text st d = Some t3" "jnlDL_DIAGNOSTIC \<le> j_dl st"
  shows "jnl_DIAGNOSTIC env file line a b c d st =
    jnl_log env file line jnlDL_DIAGNOSTIC ''%s\<newline>%s\<newline>%s\<newline>%s'' [AStr t0, AStr t1, AStr t2, AStr t3] st"
  using assms by (simp add: jnl_DIAGNOSTIC_def text_arg_def jnl_dl_check_def jnl_dl_fetch_def)

definition range_report :: "int \<Rightarrow> string" where
  "range_report c = ''Operation:\<newline>- jnl_RESULT('' @ dec c @ '')\<newline>Expected:\<newline>- 0 <= result code <= 10.\<newline>'' @
     ''Error:\<newline>- Result code out of range.\<newline>Action:\<newline>- Report result of NORESULT.''"

lemma range_texts:
  "format (take 1023 (jnl_message_title ! nat jnlBI_OPERATION @ '':\<newline>- '' @ ''jnl_RESULT(%d)'')) [AInt c] =
     Some (''Operation:\<newline>- jnl_RESULT('' @ dec c @ '')'')"
  "format (take 1023 (jnl_message_title ! nat jnlBI_EXPECTED @ '':\<newline>- '' @ ''%d <= result code <= %d.'')) [AInt STF_PASS, AInt STF_OTHER] =
     Some ''Expected:\<newline>- 0 <= result code <= 10.''"
  "format (take 1023 (jnl_message_title ! nat jnlBI_ERROR @ '':\<newline>- '' @ ''Result code out of range.'')) [] =
     Some ''Error:\<newline>- Result code out of range.''"
  "format (take 1023 (jnl_message_title ! nat jnlBI_ACTION @ '':\<newline>- '' @ ''Report result of NORESULT.'')) [] =
     Some ''Action:\<newline>- Report result of NORESULT.''"
proof -
  have D: "dec 0 = ''0''" "dec 10 = ''10''" by (simp_all add: dec_def numeral_in.simps)
  show "format (take 1023 (jnl_message_title ! nat jnlBI_OPERATION @ '':\<newline>- '' @ ''jnl_RESULT(%d)'')) [AInt c] =
     Some (''Operation:\<newline>- jnl_RESULT('' @ dec c @ '')'')"
    by (simp add: jnl_message_title_def jnlBI_defs fmt)
  show "format (take 1023 (jnl_message_title ! nat jnlBI_EXPECTED @ '':\<newline>- '' @ ''%d <= result code <= %d.'')) [AInt STF_PASS, AInt STF_OTHER] =
     Some ''Expected:\<newline>- 0 <= result code <= 10.''"
    by (simp add: jnl_message_title_def jnlBI_defs fmt stf_codes D)
qed (simp_all add: jnl_message_title_def jnlBI_defs fmt)

text \<open>The four messages of the report, formatted one after the other.\<close>

lemma range_messages:
  assumes inv: "jnl_inv env toc st" and room: "thread_buffers toc st (je_self env) \<noteq> None \<or> jnl_room env st"
    and c: "INT_MIN \<le> c" "c \<le> INT_MAX"
  obtains bs st0 st1 st2 st3 where
    "jnl_format_message env jnlBI_OPERATION ''jnl_RESULT(%d)'' [AInt c] st = Ret (bs ! 0) st0"
    "jnl_format_message env jnlBI_EXPECTED ''%d <= result code <= %d.'' [AInt STF_PASS, AInt STF_OTHER] st0 = Ret (bs ! 1) st1"
    "jnl_format_message env jnlBI_ERROR ''Result code out of range.'' [] st1 = Ret (bs ! 2) st2"
    "jnl_format_message env jnlBI_ACTION ''Report result of NORESULT.'' [] st2 = Ret (bs ! 3) st3"
    "j_proc st3 = j_proc st" "j_dl st3 = j_dl st" "j_text st3 (bs ! 0) = Some (''Operation:\<newline>- jnl_RESULT('' @ dec c @ '')'')"
    "j_text st3 (bs ! 1) = Some ''Expected:\<newline>- 0 <= result code <= 10.''"
    "j_text st3 (bs ! 2) = Some ''Error:\<newline>- Result code out of range.''"
    "j_text st3 (bs ! 3) = Some ''Action:\<newline>- Report result of NORESULT.''"
proof -
  note B = jnlBI_defs INT_MAX_def
  have cut: "take 1023 (''Operation:\<newline>- jnl_RESULT('' @ dec c @ '')'') = ''Operation:\<newline>- jnl_RESULT('' @ dec c @ '')''"
    "int (length (''Operation:\<newline>- jnl_RESULT('' @ dec c @ '')'')) \<le> INT_MAX"
    using length_dec_int [OF c] by (simp_all add: INT_MAX_def)
  have "returns (jnl_format_message env jnlBI_OPERATION ''jnl_RESULT(%d)'' [AInt c] st) (\<lambda>a st'. \<exists>bs.
      formatted env toc st st' bs a (take 1023 (''Operation:\<newline>- jnl_RESULT('' @ dec c @ '')'')) \<and> a = bs ! nat jnlBI_OPERATION \<and>
      (\<forall>old. thread_buffers toc st (je_self env) = Some old \<longrightarrow> bs = old))"
    by (rule jnl_format_message_ok [OF inv _ _ room range_texts(1) cut(2)]) (simp_all add: B)
  then obtain a st0 bs where r0: "jnl_format_message env jnlBI_OPERATION ''jnl_RESULT(%d)'' [AInt c] st = Ret a st0"
    and f0: "formatted env toc st st0 bs a (take 1023 (''Operation:\<newline>- jnl_RESULT('' @ dec c @ '')''))" "a = bs ! nat jnlBI_OPERATION"
    unfolding returns_def by blast
  have i0: "jnl_inv env toc st0" "thread_buffers toc st0 (je_self env) = Some bs" using f0(1) by (simp_all add: formatted_def)
  have E2: "0 \<le> jnlBI_EXPECTED" "jnlBI_EXPECTED < 4" "int (length ''Expected:\<newline>- 0 <= result code <= 10.'') \<le> INT_MAX"
    "int (length ''%d <= result code <= %d.'') + 13 \<le> INT_MAX" by (simp_all add: B)
  obtain st1 where s1: "jnl_format_message env jnlBI_EXPECTED ''%d <= result code <= %d.'' [AInt STF_PASS, AInt STF_OTHER] st0 =
      Ret (bs ! nat jnlBI_EXPECTED) st1" "jnl_inv env toc st1" "thread_buffers toc st1 (je_self env) = Some bs"
    "j_proc st1 = j_proc st0" "j_dl st1 = j_dl st0"
    "j_text st1 = (j_text st0)(bs ! nat jnlBI_EXPECTED \<mapsto> take 1023 ''Expected:\<newline>- 0 <= result code <= 10.'')"
    by (rule jnl_format_message_next [OF i0 E2(1,2) range_texts(2) E2(3,4)]) (rule that)
  have E3: "0 \<le> jnlBI_ERROR" "jnlBI_ERROR < 4" "int (length ''Error:\<newline>- Result code out of range.'') \<le> INT_MAX"
    "int (length ''Result code out of range.'') + 13 \<le> INT_MAX" by (simp_all add: B)
  obtain st2 where s2: "jnl_format_message env jnlBI_ERROR ''Result code out of range.'' [] st1 =
      Ret (bs ! nat jnlBI_ERROR) st2" "jnl_inv env toc st2" "thread_buffers toc st2 (je_self env) = Some bs"
    "j_proc st2 = j_proc st1" "j_dl st2 = j_dl st1"
    "j_text st2 = (j_text st1)(bs ! nat jnlBI_ERROR \<mapsto> take 1023 ''Error:\<newline>- Result code out of range.'')"
    by (rule jnl_format_message_next [OF s1(2,3) E3(1,2) range_texts(3) E3(3,4)]) (rule that)
  have E4: "0 \<le> jnlBI_ACTION" "jnlBI_ACTION < 4" "int (length ''Action:\<newline>- Report result of NORESULT.'') \<le> INT_MAX"
    "int (length ''Report result of NORESULT.'') + 13 \<le> INT_MAX" by (simp_all add: B)
  obtain st3 where s3: "jnl_format_message env jnlBI_ACTION ''Report result of NORESULT.'' [] st2 =
      Ret (bs ! nat jnlBI_ACTION) st3" "jnl_inv env toc st3" "thread_buffers toc st3 (je_self env) = Some bs"
    "j_proc st3 = j_proc st2" "j_dl st3 = j_dl st2"
    "j_text st3 = (j_text st2)(bs ! nat jnlBI_ACTION \<mapsto> take 1023 ''Action:\<newline>- Report result of NORESULT.'')"
    by (rule jnl_format_message_next [OF s2(2,3) E4(1,2) range_texts(4) E4(3,4)]) (rule that)
  have ne: "bs ! k \<noteq> bs ! l" if "k < 4" "l < 4" "k \<noteq> l" for k l using thread_buffers_apart [OF i0(1,2,2)] that by blast
  note ne' = ne [of 0 1] ne [of 0 2] ne [of 0 3] ne [of 1 2] ne [of 1 3] ne [of 2 3]
  have n: "nat jnlBI_OPERATION = 0" "nat jnlBI_EXPECTED = 1" "nat jnlBI_ERROR = 2" "nat jnlBI_ACTION = 3" by (simp_all add: jnlBI_defs)
  show thesis
  proof (rule that [of bs st0 st1 st2 st3])
    show "j_text st3 (bs ! 0) = Some (''Operation:\<newline>- jnl_RESULT('' @ dec c @ '')'')"
      using f0 ne' unfolding s3(6) s2(6) s1(6) n cut(1) by (simp add: formatted_def)
    show "j_text st3 (bs ! 1) = Some ''Expected:\<newline>- 0 <= result code <= 10.''"
      "j_text st3 (bs ! 2) = Some ''Error:\<newline>- Result code out of range.''"
      "j_text st3 (bs ! 3) = Some ''Action:\<newline>- Report result of NORESULT.''"
      using ne' unfolding s3(6) s2(6) s1(6) n by simp_all
    show "j_proc st3 = j_proc st" "j_dl st3 = j_dl st" using f0 s1(4,5) s2(4,5) s3(4,5) by (simp_all add: formatted_def)
  qed (use r0 f0(2) s1(1) s2(1) s3(1) n in simp_all)
qed

text \<open>
  \<^verbatim>\<open>jnl_RESULT\<close> with a negative code returns -1 and leaves a diagnostic with the four messages
  the library formats in the buffers of the calling thread, followed by the result \<^verbatim>\<open>NORESULT\<close>.
\<close>

theorem jnl_result_out_of_range:
  assumes "jgood env st" "whole (journal (j_proc st))" and inv: "jnl_inv env toc st"
    and room: "thread_buffers toc st (je_self env) \<noteq> None \<or> jnl_room env st"
    and place: "place_ok file line" "place_ok (je_file env) 1004" and c: "INT_MIN \<le> c" "c < 0" and dl: "jnlDL_DIAGNOSTIC \<le> j_dl st"
  shows "returns (jnl_result env file line c st) (\<lambda>r st'. r = -1 \<and>
    jlines (journal (j_proc st')) = jlines (journal (j_proc st)) @ map (msg_line (p_pid (j_proc st)))
      (entry_lines jnlDL_DIAGNOSTIC (je_file env) 1004 (range_report c) @ entry_lines jnlDL_RESULT file line ''RESULT: NORESULT''))"
proof -
  have c': "c \<le> INT_MAX" "c < STF_PASS" "\<not> c \<ge> STF_MAX_RESULTS" using c(2) by (simp_all add: INT_MAX_def stf_codes)
  obtain bs st0 st1 st2 st3 where m:
    "jnl_format_message env jnlBI_OPERATION ''jnl_RESULT(%d)'' [AInt c] st = Ret (bs ! 0) st0"
    "jnl_format_message env jnlBI_EXPECTED ''%d <= result code <= %d.'' [AInt STF_PASS, AInt STF_OTHER] st0 = Ret (bs ! 1) st1"
    "jnl_format_message env jnlBI_ERROR ''Result code out of range.'' [] st1 = Ret (bs ! 2) st2"
    "jnl_format_message env jnlBI_ACTION ''Report result of NORESULT.'' [] st2 = Ret (bs ! 3) st3"
    and same: "j_proc st3 = j_proc st" "j_dl st3 = j_dl st"
    and tx: "j_text st3 (bs ! 0) = Some (''Operation:\<newline>- jnl_RESULT('' @ dec c @ '')'')"
    "j_text st3 (bs ! 1) = Some ''Expected:\<newline>- 0 <= result code <= 10.''"
    "j_text st3 (bs ! 2) = Some ''Error:\<newline>- Result code out of range.''"
    "j_text st3 (bs ! 3) = Some ''Action:\<newline>- Report result of NORESULT.''"
    by (rule range_messages [OF inv room c(1) c'(1)]) (rule that)
  have dl3: "jnlDL_DIAGNOSTIC \<le> j_dl st3" "jnlDL_RESULT \<le> j_dl st3" using dl by (simp_all add: same(2) jnlDL_defs)
  let ?args = "[AStr (''Operation:\<newline>- jnl_RESULT('' @ dec c @ '')''), AStr ''Expected:\<newline>- 0 <= result code <= 10.'',
    AStr ''Error:\<newline>- Result code out of range.'', AStr ''Action:\<newline>- Report result of NORESULT.'']"
  have u: "format ''%s\<newline>%s\<newline>%s\<newline>%s'' ?args = Some (range_report c)" by (simp add: fmt range_report_def)
  have len: "length (range_report c) \<le> 3000" "CHR 0x00 \<notin> set (range_report c)"
    using length_dec_int [OF c(1) c'(1)] by (simp_all add: range_report_def)
  have good3: "jgood env st3" "whole (journal (j_proc st3))" using assms(1,2) by (simp_all add: jgood_def same(1))
  have "returns (jnl_log env (je_file env) 1004 jnlDL_DIAGNOSTIC ''%s\<newline>%s\<newline>%s\<newline>%s'' ?args st3) (\<lambda>r st'. r = 0 \<and> jgood env st' \<and>
      jsame st3 st' \<and> whole (journal (j_proc st')) \<and> jlines (journal (j_proc st')) = jlines (journal (j_proc st3)) @
      (if jnlDL_DIAGNOSTIC \<le> j_dl st3 then map (msg_line (p_pid (j_proc st3))) (entry_lines jnlDL_DIAGNOSTIC (je_file env) 1004 (range_report c)) else []))"
    by (rule jnl_log_short [OF good3 _ _ place(2) u _ len]) (simp_all add: jnlDL_defs)
  then obtain st4 where r4: "jnl_DIAGNOSTIC env (je_file env) 1004 (bs ! 0) (bs ! 1) (bs ! 2) (bs ! 3) st3 = Ret 0 st4"
    and s4: "jgood env st4" "jsame st3 st4" "whole (journal (j_proc st4))"
      "jlines (journal (j_proc st4)) = jlines (journal (j_proc st)) @ map (msg_line (p_pid (j_proc st))) (entry_lines jnlDL_DIAGNOSTIC (je_file env) 1004 (range_report c))"
    unfolding jnl_DIAGNOSTIC_texts [OF tx dl3(1)] using dl3(1) same(1) by (auto simp: returns_def)
  have st4: "jnlDL_RESULT \<le> j_dl st4" "p_pid (j_proc st4) = p_pid (j_proc st)"
  proof -
    have "st4 = st3\<lparr>j_proc := j_proc st4\<rparr>" "jnl_same (j_proc st3) (j_proc st4)" using s4(2) by (simp_all add: jsame_def)
    then show "p_pid (j_proc st4) = p_pid (j_proc st)" by (simp add: jnl_same_def same(1))
    from \<open>st4 = st3\<lparr>j_proc := j_proc st4\<rparr>\<close> have "j_dl st4 = j_dl st3" by (metis jnl_state.select_convs(4) jnl_state.surjective jnl_state.update_convs(1))
    then show "jnlDL_RESULT \<le> j_dl st4" using dl3(2) by simp
  qed
  have nr: "0 \<le> STF_NORESULT" "STF_NORESULT < STF_MAX_RESULTS" "get_status_name STF_NORESULT = ''NORESULT''"
    by (simp_all add: stf_codes get_status_name_def result_tbl_def)
  obtain st5 where r5: "result_named env file line STF_NORESULT st4 = Ret 0 st5"
    and s5: "jlines (journal (j_proc st5)) = jlines (journal (j_proc st4)) @ map (msg_line (p_pid (j_proc st))) (entry_lines jnlDL_RESULT file line ''RESULT: NORESULT'')"
    using result_named_ok [OF s4(1,3) place(1) nr(1,2)] st4 nr(3) by (auto simp: returns_def)
  have "jnl_result env file line c st = Ret (-1) st5"
    by (simp only: jnl_result_def Let_def c' if_False if_True m seq.simps r4 r5 simp_thms)
  then show ?thesis using s5 s4(4) by simp
qed

theorem jnl_result_out_of_range_witness:
  "returns (jnl_result calm_jenv ''t.c'' 5 (-3) ready_jnl) (\<lambda>r st'. r = -1 \<and> ''Msg| 42 | - jnl_RESULT(-3)'' \<in> set (jlines (journal (j_proc st'))))"
proof -
  obtain toc where R: "jnl_inv calm_jenv toc ready_jnl" "j_dl ready_jnl = jnlDL_VERBOSE" "j_proc ready_jnl = j_proc start_jnl"
    using ready_jnl by metis
  have good: "jgood calm_jenv ready_jnl" using start_jnl(9) by (simp add: jgood_def R(3))
  have D: "dec 42 = ''42''" "dec (-3) = ''-3''" by (simp_all add: dec_def numeral_in.simps)
  have "returns (jnl_result calm_jenv ''t.c'' 5 (-3) ready_jnl) (\<lambda>r st'. r = -1 \<and>
    jlines (journal (j_proc st')) = jlines (journal (j_proc ready_jnl)) @ map (msg_line (p_pid (j_proc ready_jnl)))
      (entry_lines jnlDL_DIAGNOSTIC (je_file calm_jenv) 1004 (range_report (-3)) @ entry_lines jnlDL_RESULT ''t.c'' 5 ''RESULT: NORESULT''))"
    by (rule jnl_result_out_of_range [OF good _ R(1) disjI2 [OF ready_room]])
      (simp_all add: R(2,3) start_jnl(10) place_ok_def calm_jenv_def jnlDL_defs)
  moreover have "''- jnl_RESULT(-3)'' \<in> set (message_lines (range_report (-3)))"
    by (simp add: range_report_def D message_lines_def jlines.simps)
  then have "''- jnl_RESULT(-3)'' \<in> set (entry_lines jnlDL_DIAGNOSTIC (je_file calm_jenv) 1004 (range_report (-3)))"
    by (simp add: entry_lines_def)
  then have "msg_line 42 ''- jnl_RESULT(-3)'' \<in> msg_line 42 ` set (entry_lines jnlDL_DIAGNOSTIC (je_file calm_jenv) 1004 (range_report (-3)))"
    by (rule imageI)
  then have "''Msg| 42 | - jnl_RESULT(-3)'' \<in> msg_line 42 ` set (entry_lines jnlDL_DIAGNOSTIC (je_file calm_jenv) 1004 (range_report (-3)))"
    by (simp add: msg_line_def D)
  ultimately show ?thesis by (elim returns_mono) (simp add: R(3) start_jnl(10,11))
qed

section \<open>Errors\<close>

definition error_text :: "jnl_env \<Rightarrow> int \<Rightarrow> string \<Rightarrow> string" where
  "error_text env line u = ''**** Error: (File '' @ je_file env @ '', Line '' @ dec line @ '')\<newline>'' @ u"

text \<open>The format of an error: the place is filled in first, and becomes part of the second format.\<close>

lemma error_format:
  assumes "place_ok (je_file env) line" "length fs \<le> 85"
  shows "\<exists>r\<ge>0. snprintf jnlBS_ERROR ''**** Error: (File %s, Line %d)\<newline>%s'' [AStr (je_file env), AInt line, AStr fs] =
      Some (r, error_text env line fs)"
    "format (error_text env line fs) args = map_option (error_text env line) (format fs args)"
proof -
  have len: "length (error_text env line fs) \<le> 1023"
    using assms length_dec_int [of line] by (simp add: place_ok_def error_text_def)
  have "format ''**** Error: (File %s, Line %d)\<newline>%s'' [AStr (je_file env), AInt line, AStr fs] = Some (error_text env line fs)"
    by (simp add: fmt error_text_def)
  then show "\<exists>r\<ge>0. snprintf jnlBS_ERROR ''**** Error: (File %s, Line %d)\<newline>%s'' [AStr (je_file env), AInt line, AStr fs] =
      Some (r, error_text env line fs)" using len by (auto simp: snprintf_def jnlBS_ERROR_def INT_MAX_def)
  let ?h = "''**** Error: (File '' @ je_file env @ '', Line '' @ dec line @ '')\<newline>''"
  have "CHR ''%'' \<notin> set ?h" using assms(1) by (simp add: place_ok_def)
  then have "format (?h @ fs) args = map_option ((@) ?h) (format fs args)" by (rule format_plain)
  then show "format (error_text env line fs) args = map_option (error_text env line) (format fs args)"
    by (cases "format fs args") (simp_all add: error_text_def)
qed

lemma jnl_internal_error_ok:
  assumes good: "jgood env st" and p: "place_ok (je_file env) line" "length fs \<le> 85" and u: "format fs parms = Some u" "length u \<le> 5000"
  shows "returns (jnl_internal_error env line fs parms st) (\<lambda>_ st'. jgood env st' \<and> jsame st st' \<and>
    journal (j_proc st') = journal (j_proc st) @ msg_entry (j_proc st) (take 1023 (error_text env line u)))"
proof -
  obtain r where r: "\<not> r < 0" "snprintf jnlBS_ERROR ''**** Error: (File %s, Line %d)\<newline>%s'' [AStr (je_file env), AInt line, AStr fs] =
      Some (r, error_text env line fs)" using error_format(1) [OF p] by force
  have "length (error_text env line u) \<le> 6000" using u(2) p(1) length_dec_int [of line] by (simp add: place_ok_def error_text_def)
  then have s2: "snprintf jnlBS_ERROR (error_text env line fs) parms = Some (int (length (error_text env line u)), take 1023 (error_text env line u))"
    using error_format(2) [OF p, of parms] u(1) by (simp add: snprintf_def jnlBS_ERROR_def INT_MAX_def)
  have "jnl_internal_error env line fs parms st = jmsg env (take 1023 (error_text env line u)) st"
    unfolding jnl_internal_error_def by (simp only: r s2 option.case prod.case if_False) simp
  then show ?thesis using jnl.put_ok [OF good, of "take 1023 (error_text env line u)"] by (auto elim!: returns_mono)
qed

lemma jnl_internal_error_missing:
  assumes p: "place_ok (je_file env) line" "length fs \<le> 85" and u: "format fs parms = None"
  shows "jnl_internal_error env line fs parms st = Stuck"
proof -
  obtain r where r: "\<not> r < 0" "snprintf jnlBS_ERROR ''**** Error: (File %s, Line %d)\<newline>%s'' [AStr (je_file env), AInt line, AStr fs] =
      Some (r, error_text env line fs)" using error_format(1) [OF p] by force
  have s2: "snprintf jnlBS_ERROR (error_text env line fs) parms = None"
    using error_format(2) [OF p, of parms] u by (simp add: snprintf_def)
  show ?thesis unfolding jnl_internal_error_def by (simp only: r s2 option.case prod.case if_False)
qed

text \<open>
  An index that names no message: \<^verbatim>\<open>_jnl_buffer_fetch\<close> reports it in the journal, changes nothing
  else and returns a null pointer, but \<^verbatim>\<open>jnl_format_message_\<close> then looks up the title of the message
  outside its table to report the failure, which is undefined.
\<close>

theorem jnl_invalid_index:
  assumes "jgood env st" "place_ok (je_file env) 272" "i < jnlBI_MIN \<or> jnlBI_MAX \<le> i" "INT_MIN \<le> i" "i \<le> INT_MAX"
  shows "returns (jnl_buffer_fetch env tid i st) (\<lambda>a st'. a = 0 \<and> jsame st st' \<and>
      journal (j_proc st') = journal (j_proc st) @ msg_entry (j_proc st) (take 1023 (error_text env 272
        (''_jnl_buffer_fetch('' @ dec (uint tid) @ '', '' @ dec i @ '')\<newline>Invalid buffer index passed.'')))) \<and>
    jnl_format_message env i fs args st = Stuck"
proof -
  have f: "format (''_jnl_buffer_fetch(%d, %d)\<newline>'' @ ''Invalid buffer index passed.'') [AInt (uint t), AInt i] =
      Some (''_jnl_buffer_fetch('' @ dec (uint t) @ '', '' @ dec i @ '')\<newline>Invalid buffer index passed.'')" for t :: u32
    by (simp add: fmt)
  have l: "length (''_jnl_buffer_fetch('' @ dec (uint t) @ '', '' @ dec i @ '')\<newline>Invalid buffer index passed.'') \<le> 5000" for t :: u32
  proof -
    have "uint t < 2 ^ 32" using uint_lt2p [of t] by simp
    then have "\<bar>uint t\<bar> < 10 ^ 10" by (simp add: uint_ge_0)
    then have "length (dec (uint t)) \<le> 10" using length_dec [of 10 "uint t"] by (simp add: not_less uint_ge_0)
    then show ?thesis using length_dec_int [OF assms(4,5)] by simp
  qed
  have run: "returns (jnl_buffer_fetch env t i st) (\<lambda>a st'. a = 0 \<and> jsame st st' \<and>
      journal (j_proc st') = journal (j_proc st) @ msg_entry (j_proc st) (take 1023 (error_text env 272
        (''_jnl_buffer_fetch('' @ dec (uint t) @ '', '' @ dec i @ '')\<newline>Invalid buffer index passed.''))))" for t
  proof -
    have "returns (jnl_internal_error env 272 (''_jnl_buffer_fetch(%d, %d)\<newline>'' @ ''Invalid buffer index passed.'') [AInt (uint t), AInt i] st)
      (\<lambda>_ st'. jgood env st' \<and> jsame st st' \<and> journal (j_proc st') = journal (j_proc st) @ msg_entry (j_proc st) (take 1023 (error_text env 272
        (''_jnl_buffer_fetch('' @ dec (uint t) @ '', '' @ dec i @ '')\<newline>Invalid buffer index passed.''))))"
      by (rule jnl_internal_error_ok [OF assms(1,2) _ f l]) simp
    then show ?thesis using assms(3) unfolding jnl_buffer_fetch_def returns_seq by (simp add: returns_seq) (auto elim!: returns_mono)
  qed
  obtain st' where "jnl_buffer_fetch env (je_self env) i st = Ret 0 st'" using run [of "je_self env"] by (auto simp: returns_def)
  moreover have "\<not> (0 \<le> i \<and> nat i < length jnl_message_title)"
    using assms(3) by (auto simp: jnlBI_MIN_def jnlBI_MAX_def message_tables(2) nat_less_iff)
  ultimately have "jnl_format_message env i fs args st = Stuck"
    unfolding jnl_format_message_def jnl_vformat_message_def by (simp only: seq.simps simp_thms if_True if_False)
  with run show ?thesis by blast
qed

theorem jnl_invalid_index_witness: "jnl_format_message calm_jenv 4 ''x'' [] ready_jnl = Stuck"
proof -
  obtain toc where R: "j_proc ready_jnl = j_proc start_jnl" using ready_jnl by metis
  have good: "jgood calm_jenv ready_jnl" using start_jnl(9) by (simp add: jgood_def R)
  show ?thesis using jnl_invalid_index [OF good, of 4 1 "''x''" "[]"]
    by (simp add: place_ok_def calm_jenv_def jnlBI_MIN_def jnlBI_MAX_def INT_MIN_def INT_MAX_def)
qed

text \<open>
  When the table of contents cannot be created the library means to report the error and exit, but
  the message has four directives and three arguments: the call is undefined instead.
\<close>

theorem jnl_init_failure_undefined:
  assumes "init_detail env st = Ret () st'" "ht_create (je_ht env) (of_nat jnlBS_TOC) 4 0 (j_ht st') = Some (NULL, w)"
    and "place_ok (je_file env) 224"
  shows "jnl_init env st = Stuck"
proof -
  have d: "read_directive ''d'' = Some (\<lparr>dr_flags = [], dr_width = 0, dr_prec = None, dr_conv = CHR ''d''\<rparr>, [])"
    by (simp add: fmt)
  have "format ''%d'' [] = None" by (subst format.simps(2)) (simp add: d)
  then have "format (''_jnl_DL_init_():\<newline>'' @ '' - ht_create(%d, %d, %d) failed with error %d'') [AInt (int jnlBS_TOC), AInt 4, AInt 0] = None"
    by (simp add: fmt)
  then have "jnl_internal_error env 224 (''_jnl_DL_init_():\<newline>'' @ '' - ht_create(%d, %d, %d) failed with error %d'')
      [AInt (int jnlBS_TOC), AInt 4, AInt 0] s = Stuck" for s
    using jnl_internal_error_missing [OF assms(3)] by simp
  then show ?thesis using assms(1,2) by (simp add: jnl_init_def in_ht_def)
qed

theorem jnl_init_failure_undefined_witness:
  "jnl_init (calm_jenv\<lparr>je_ht := calm_env\<lparr>malloc_ok := \<lambda>_. False\<rparr>\<rparr>) (start_jnl\<lparr>j_proc := sh_proc\<rparr>) = Stuck"
proof (rule jnl_init_failure_undefined)
  show "init_detail (calm_jenv\<lparr>je_ht := calm_env\<lparr>malloc_ok := \<lambda>_. False\<rparr>\<rparr>) (start_jnl\<lparr>j_proc := sh_proc\<rparr>) =
      Ret () (start_jnl\<lparr>j_proc := sh_proc\<rparr>)"
    by (simp add: init_detail_unset sh_proc_def getenv_def jnlDL_ENV_NAME_def JNLNAME_def)
  show "ht_create (je_ht (calm_jenv\<lparr>je_ht := calm_env\<lparr>malloc_ok := \<lambda>_. False\<rparr>\<rparr>)) (of_nat jnlBS_TOC) 4 0
      (j_ht (start_jnl\<lparr>j_proc := sh_proc\<rparr>)) = Some (NULL, snd (malloc_table (calm_env\<lparr>malloc_ok := \<lambda>_. False\<rparr>) first_world))"
    by (simp add: ht_create_def malloc_table_def jnlBS_TOC_def start_jnl_def)
  show "place_ok (je_file (calm_jenv\<lparr>je_ht := calm_env\<lparr>malloc_ok := \<lambda>_. False\<rparr>\<rparr>)) 224"
    by (simp add: place_ok_def calm_jenv_def INT_MIN_def INT_MAX_def)
qed

end
