(* ===== verification/Args.thy ===== *)
theory Args
  imports Stf_Calls
begin

text \<open>
  What the programs use to read their arguments: \<^verbatim>\<open>strtol\<close>, \<^verbatim>\<open>atoi\<close>, \<^verbatim>\<open>atoll\<close> and \<^verbatim>\<open>getopt\<close> of the
  C library.
\<close>

section \<open>Numbers\<close>

definition is_space :: "char \<Rightarrow> bool" where
  "is_space c \<longleftrightarrow> c = CHR '' '' \<or> (9::nat) \<le> of_char c \<and> of_char c \<le> (13::nat)"

text \<open>
  \<^verbatim>\<open>strtol\<close> in base 10: the value, whether it was out of range, and the rest of the string, which is all of
  it when there is no number.
\<close>

definition strtol :: "int \<Rightarrow> string \<Rightarrow> int \<times> bool \<times> string" where
  "strtol lmax s =
     (let t = dropWhile is_space s;
          neg = (t \<noteq> [] \<and> hd t = CHR ''-'');
          u = (if t \<noteq> [] \<and> (hd t = CHR ''-'' \<or> hd t = CHR ''+'') then tl t else t);
          ds = takeWhile is_digit u;
          v = (if neg then - int (number_of 0 ds) else int (number_of 0 ds))
      in if ds = [] then (0, False, s)
         else if v > lmax then (lmax, True, dropWhile is_digit u)
         else if v < - lmax - 1 then (- lmax - 1, True, dropWhile is_digit u)
         else (v, False, dropWhile is_digit u))"

text \<open>\<^verbatim>\<open>atoi\<close> and \<^verbatim>\<open>atoll\<close> of a number that the type cannot hold are undefined.\<close>

definition LLONG_MAX :: int where "LLONG_MAX = 2 ^ 63 - 1"

definition atoi :: "string \<Rightarrow> int option" where
  "atoi s = (case strtol INT_MAX s of (v, erange, rest) \<Rightarrow> if erange then None else Some v)"

definition atoll :: "string \<Rightarrow> int option" where
  "atoll s = (case strtol LLONG_MAX s of (v, erange, rest) \<Rightarrow> if erange then None else Some v)"

lemma number_of_append: "number_of acc (xs @ ys) = number_of (number_of acc xs) ys"
  by (induction xs arbitrary: acc) simp_all

lemma number_of_numeral: "number_of 0 (numeral_in 10 n) = n"
proof (induction n rule: less_induct)
  case (less n)
  have d: "number_of acc [digit k] = 10 * acc + k" if "k < 10" for acc k
    using that by (simp add: digit_def)
  show ?case
  proof (cases "n < 10")
    case True
    then show ?thesis using d [of n 0] by (subst numeral_in.simps) simp
  next
    case False
    then have "number_of 0 (numeral_in 10 (n div 10)) = n div 10" by (intro less.IH) simp
    then show ?thesis using False d [of "n mod 10" "n div 10"] by (subst numeral_in.simps) (simp add: number_of_append)
  qed
qed

lemma numeral_in_nonempty: "numeral_in b n \<noteq> []"
  by (subst numeral_in.simps) simp

lemma digit_kinds: "is_digit c \<Longrightarrow> \<not> is_space c \<and> c \<noteq> CHR ''-'' \<and> c \<noteq> CHR ''+''"
  by (auto simp: is_digit_def is_space_def)

lemma strtol_number:
  assumes "int n \<le> lmax" "r = [] \<or> \<not> is_digit (hd r)"
  shows "strtol lmax (numeral_in 10 n @ r) = (int n, False, r)"
proof -
  obtain x xs where x: "numeral_in 10 n = x # xs" using numeral_in_nonempty by (cases "numeral_in 10 n") auto
  then have "is_digit x" using numeral_in_digits [of x n] by simp
  then have "dropWhile is_space (numeral_in 10 n @ r) = numeral_in 10 n @ r" "hd (numeral_in 10 n @ r) = x"
    using digit_kinds [of x] by (simp_all add: x)
  moreover have "takeWhile is_digit (numeral_in 10 n @ r) = numeral_in 10 n" "dropWhile is_digit (numeral_in 10 n @ r) = r"
    using assms(2) numeral_in_digits [of _ n] by (cases r; simp add: takeWhile_append dropWhile_append)+
  ultimately show ?thesis using assms(1) digit_kinds [OF \<open>is_digit x\<close>] numeral_in_nonempty [of 10 n]
    by (simp add: strtol_def Let_def number_of_numeral)
qed

lemma strtol_negative:
  assumes "int n \<le> lmax + 1" "0 \<le> lmax"
  shows "strtol lmax (CHR ''-'' # numeral_in 10 n) = (- int n, False, [])"
proof -
  have tw: "takeWhile is_digit (numeral_in 10 n) = numeral_in 10 n" "dropWhile is_digit (numeral_in 10 n) = []"
    using numeral_in_digits [of _ n] by simp_all
  have "\<not> is_space (CHR ''-'')" by (simp add: is_space_def)
  then show ?thesis using assms by (simp add: strtol_def Let_def number_of_numeral tw numeral_in_nonempty)
qed

lemma strtol_dec:
  assumes "- lmax - 1 \<le> i" "i \<le> lmax" "0 \<le> lmax"
  shows "strtol lmax (dec i) = (i, False, [])"
  using assms strtol_number [of "nat i" lmax "[]"] strtol_negative [of "nat (- i)" lmax] by (auto simp: dec_def)

lemma atoi_dec [simp]: "INT_MIN \<le> i \<Longrightarrow> i \<le> INT_MAX \<Longrightarrow> atoi (dec i) = Some i"
  by (simp add: atoi_def strtol_dec INT_MIN_def INT_MAX_def)

lemma atoll_dec [simp]: "- LLONG_MAX - 1 \<le> i \<Longrightarrow> i \<le> LLONG_MAX \<Longrightarrow> atoll (dec i) = Some i"
  by (simp add: atoll_def strtol_dec LLONG_MAX_def)

lemma strtol_range: "0 \<le> lmax \<Longrightarrow> strtol lmax s = (v, False, r) \<Longrightarrow> - lmax - 1 \<le> v \<and> v \<le> lmax"
  by (auto simp: strtol_def Let_def split: if_splits)

lemma atoi_range: "atoi s = Some i \<Longrightarrow> INT_MIN \<le> i \<and> i \<le> INT_MAX"
  using strtol_range [of INT_MAX s] by (auto simp: atoi_def INT_MAX_def INT_MIN_def split: prod.splits if_splits)

section \<open>Options\<close>

text \<open>
  One answer of \<^verbatim>\<open>getopt\<close>: an option with its argument, or a question mark with the character that is unknown or
  has no argument.
\<close>

datatype opt = Opt char "string option" | Bad char

text \<open>Whether a character is an option, and whether it takes an argument.\<close>

fun takes_arg :: "string \<Rightarrow> char \<Rightarrow> bool option" where
  "takes_arg [] c = None"
| "takes_arg (o1 # os) c =
     (if o1 = c \<and> c \<noteq> CHR '':'' then Some (os \<noteq> [] \<and> hd os = CHR '':'') else takes_arg os c)"

text \<open>
  All answers of the calls of \<^verbatim>\<open>getopt\<close> in a row, and the arguments from \<^verbatim>\<open>optind\<close> on. The second argument is
  what is left of a word of options such as \<^verbatim>\<open>-rv\<close>.
\<close>

function (sequential) getopt :: "string \<Rightarrow> string \<Rightarrow> string list \<Rightarrow> opt list \<times> string list" where
  "getopt opts [] [] = ([], [])"
| "getopt opts [] (a # args) =
     (if a = ''--'' then ([], args)
      else if a = [] \<or> hd a \<noteq> CHR ''-'' \<or> a = ''-'' then ([], a # args)
      else getopt opts (tl a) args)"
| "getopt opts (c # cs) args =
     (case takes_arg opts c of
        None \<Rightarrow> (case getopt opts cs args of (os, rest) \<Rightarrow> (Bad c # os, rest))
      | Some False \<Rightarrow> (case getopt opts cs args of (os, rest) \<Rightarrow> (Opt c None # os, rest))
      | Some True \<Rightarrow>
          if cs \<noteq> [] then (case getopt opts [] args of (os, rest) \<Rightarrow> (Opt c (Some cs) # os, rest))
          else (case args of
                  [] \<Rightarrow> ([Bad c], [])
                | a # as \<Rightarrow> (case getopt opts [] as of (os, rest) \<Rightarrow> (Opt c (Some a) # os, rest))))"
  by pat_completeness auto
termination
  by (relation "measure (\<lambda>(opts, cs, args). length cs + sum_list (map (\<lambda>a. Suc (length a)) args))") auto

text \<open>The arguments left are the last of those given.\<close>

lemma getopt_rest: "getopt opts cs args = (os, rest) \<Longrightarrow> \<exists>used. args = used @ rest"
proof (induction opts cs args arbitrary: os rest rule: getopt.induct)
  case (2 opts a args)
  then show ?case by (fastforce split: if_splits intro: exI [of _ "[a]"] exI [of _ "a # used" for used])
next
  case (3 opts c cs args)
  then show ?case by (auto split: option.splits bool.splits if_splits list.splits prod.splits) (metis append_Cons)+
qed simp

end
