(* ===== verification/Stf_Timeout.thy ===== *)
theory Stf_Timeout
  imports Args
begin

text \<open>
  The program \<^verbatim>\<open>stf_timeout.c\<close>, which runs a command and ends it when a time limit is over. Modelled are
  the reading of the limit, the loop that waits for the command, the way the command is killed and the
  status that is reported. What the system answers (the clock, \<^verbatim>\<open>poll\<close>, \<^verbatim>\<open>waitpid\<close>) is an argument;
  what the program does to the system is a list of actions. The largest \<^verbatim>\<open>long\<close> is an argument as well:
  the program is compiled for both data models.
\<close>

section \<open>Reading the limit\<close>

datatype units = hours | minutes | seconds | none

text \<open>
  \<^verbatim>\<open>parse_value\<close>: the value, the string behind it, and the units, which stay as they were (\<open>None\<close>: never
  set) when the character behind the number is none of the three; and what is printed.
\<close>

definition parse_value :: "int \<Rightarrow> string \<Rightarrow> units option \<Rightarrow> int \<times> string \<times> units option \<times> string list" where
  "parse_value lmax stringp value_units =
     (let (value, erange, new_stringp) = strtol lmax stringp;
          msgs = (if (value = INT_MAX \<or> value = INT_MIN) \<and> erange
                  then [''limit <'' @ stringp @ ''> exceeds maximum allowed value '' @ dec INT_MAX @ ''\<newline>''] else [])
      in case new_stringp of
           [] \<Rightarrow> (value, [], Some none, msgs)
         | c # cs \<Rightarrow>
             if c = CHR ''h'' then (value, cs, Some hours, msgs)
             else if c = CHR ''m'' then (value, cs, Some minutes, msgs)
             else if c = CHR ''s'' then (value, cs, Some seconds, msgs)
             else (value, new_stringp, value_units,
                   msgs @ [''bad limit value <'' @ stringp @ ''>, unrecognized character '' @ [c] @ ''\<newline>'']))"

text \<open>A product or sum that does not fit a \<^verbatim>\<open>long\<close> is undefined.\<close>

definition fits :: "int \<Rightarrow> int \<Rightarrow> int option" where
  "fits lmax x = (if - lmax - 1 \<le> x \<and> x \<le> lmax then Some x else None)"

text \<open>
  One of the three stages of \<^verbatim>\<open>parse_timeout\<close>: if the units read are those of the stage, the value counts
  and the next one is read. Units that were never set make the comparison undefined.
\<close>

definition limit_stage ::
  "int \<Rightarrow> units \<Rightarrow> int \<Rightarrow> int \<times> int \<times> string \<times> units option \<times> string list \<Rightarrow> (int \<times> int \<times> string \<times> units option \<times> string list) option" where
  "limit_stage lmax unit_kind factor st =
     (case st of (duration, value, rest, value_units, msgs) \<Rightarrow>
        (case value_units of
           None \<Rightarrow> None
         | Some u \<Rightarrow>
             if u = unit_kind
             then (case fits lmax (factor * value) of
                     None \<Rightarrow> None
                   | Some x \<Rightarrow>
                       (case fits lmax (duration + x) of
                          None \<Rightarrow> None
                        | Some d \<Rightarrow>
                            (case parse_value lmax rest value_units of (v, r, u', ms) \<Rightarrow> Some (d, v, r, u', msgs @ ms))))
             else Some st))"

definition parse_timeout :: "int \<Rightarrow> string \<Rightarrow> (int \<times> string list) option" where
  "parse_timeout lmax limit_string =
     (case parse_value lmax limit_string None of (value, rest, value_units, msgs) \<Rightarrow>
      case limit_stage lmax hours (60 * 60) (0, value, rest, value_units, msgs) of
        None \<Rightarrow> None
      | Some st \<Rightarrow>
      case limit_stage lmax minutes 60 st of
        None \<Rightarrow> None
      | Some st \<Rightarrow>
      case limit_stage lmax seconds 1 st of
        None \<Rightarrow> None
      | Some (duration, value, rest, value_units, msgs) \<Rightarrow>
          if value_units = Some none
          then (case fits lmax (duration + value) of
                  None \<Rightarrow> None
                | Some d \<Rightarrow> Some (d, msgs @ (if d = 0 then [''duration <'' @ limit_string @ ''> is 0\<newline>''] else [])))
          else Some (duration, msgs @ [''time limit <'' @ limit_string @ ''> is bad\<newline>'']))"

section \<open>Waiting for the command\<close>

text \<open>What the program does to the system: signals to the process group of the command, pauses, messages,
  and the entry in the journal, whose name may be a null pointer.\<close>

datatype action = Hangup | Kill | Sleep nat | Say string | TestcaseEnd "string option" int u32

record tstate =
  ts_timed_out :: bool
  ts_reaped :: bool
  ts_acts :: "action list"

definition act :: "action \<Rightarrow> tstate \<Rightarrow> tstate" where
  "act a s = s\<lparr>ts_acts := ts_acts s @ [a]\<rparr>"

text \<open>At most ten looks whether the command has ended; the one that finds it takes its status away.\<close>

fun reap_loop :: "(nat \<Rightarrow> bool) \<Rightarrow> nat \<Rightarrow> nat \<Rightarrow> tstate \<Rightarrow> tstate" where
  "reap_loop ended i 0 s = s"
| "reap_loop ended i (Suc k) s =
     (if ended i then s\<lparr>ts_reaped := True\<rparr> else reap_loop ended (Suc i) k (act (Sleep 1) s))"

definition clean_kill :: "(nat \<Rightarrow> bool) \<Rightarrow> tstate \<Rightarrow> tstate" where
  "clean_kill ended s = act (Sleep 3) (act Kill (reap_loop ended 0 10 (act Hangup s)))"

definition wake_up :: "int \<Rightarrow> (nat \<Rightarrow> bool) \<Rightarrow> tstate \<Rightarrow> tstate" where
  "wake_up pid ended s =
     clean_kill ended (act (Say (''\<newline>process '' @ dec pid @ '' - timed out\<newline>'')) (s\<lparr>ts_timed_out := True\<rparr>))"

definition NANOSEC :: int where "NANOSEC = 1000000000"

text \<open>Division of C, which rounds towards zero.\<close>

definition cdiv :: "int \<Rightarrow> int \<Rightarrow> int" where
  "cdiv a b = (if (a < 0) = (b < 0) then \<bar>a\<bar> div \<bar>b\<bar> else - (\<bar>a\<bar> div \<bar>b\<bar>))"

text \<open>The events that end the loop, each alone; anything else goes on.\<close>

datatype event = POLLPRI | POLLERR | POLLHUP | POLLNVAL | OTHER

text \<open>
  A round: the clock before the call, what \<^verbatim>\<open>poll\<close> returns, its error number and event, and the clock
  after a timeout.
\<close>

record tround =
  tr_now :: int
  tr_poll :: int
  tr_errno :: "int \<times> string"
  tr_event :: event
  tr_later :: int

text \<open>
  The timeout handed to \<^verbatim>\<open>poll\<close> is an \<^verbatim>\<open>int\<close> of milliseconds; one that does not fit is undefined. A loop
  that has used up its rounds goes on waiting.
\<close>

fun poll_process :: "int \<Rightarrow> (nat \<Rightarrow> bool) \<Rightarrow> int \<Rightarrow> bool \<Rightarrow> tround list \<Rightarrow> tstate \<Rightarrow> (unit, tstate) run" where
  "poll_process pid ended timeout_end suspendflag [] s = Stuck"
| "poll_process pid ended timeout_end suspendflag (rd # rds) s =
     (let polltimeout = cdiv (timeout_end - tr_now rd) NANOSEC in
      if polltimeout < INT_MIN \<or> polltimeout * 1000 > INT_MAX then Stuck
      else
        let pollval = (if polltimeout < 0 then 0 else tr_poll rd) in
        if pollval = -1
        then Exit 1 (act (Say (''poll failed, errno='' @ dec (fst (tr_errno rd)) @ '' ('' @ snd (tr_errno rd) @ '')\<newline>'')) s)
        else if pollval = 0
        then if timeout_end - tr_later rd > 0 then poll_process pid ended timeout_end suspendflag rds s
             else Ret () (if \<not> suspendflag then wake_up pid ended s
                          else act (Say (''\<newline>process '' @ dec pid @ '' - timed out, suspend flag set, not killed\<newline>'')) s)
        else case tr_event rd of
               POLLPRI \<Rightarrow> Ret () (act (Say ''pollpri error\<newline>'') s)
             | POLLERR \<Rightarrow> Ret () (act (Say ''poll error:'') s)
             | POLLHUP \<Rightarrow> Ret () (act Kill s)
             | POLLNVAL \<Rightarrow> Ret () (act (Say ''poll fd val:'') s)
             | OTHER \<Rightarrow> poll_process pid ended timeout_end suspendflag rds s)"

section \<open>The end of main\<close>

definition TIMED_OUT_INDEX :: u32 where "TIMED_OUT_INDEX = 9"

definition end_status :: "bool \<Rightarrow> u32 \<Rightarrow> u32" where
  "end_status timed_out child_status =
     (if timed_out then (child_status AND 0xFFFF00FF) OR push_bit 8 TIMED_OUT_INDEX else child_status)"

text \<open>
  The parent after the fork: wait, take the status and report it. If \<^verbatim>\<open>clean_kill\<close> has already taken the
  status, \<^verbatim>\<open>waitpid\<close> fails and the variable keeps what it held, \<open>junk\<close>. Otherwise \<^verbatim>\<open>waitpid\<close> waits until the command
  ends; \<open>status\<close> is what it ends with, and nothing for a command that never ends, for which the program waits for ever. The name is that of the option
  \<^verbatim>\<open>-n\<close>, a null pointer without it.
\<close>

definition timeout_parent ::
  "int \<Rightarrow> (nat \<Rightarrow> bool) \<Rightarrow> int \<Rightarrow> bool \<Rightarrow> bool \<Rightarrow> string option \<Rightarrow> tround list \<Rightarrow> u32 option \<Rightarrow> u32 \<Rightarrow> tstate \<Rightarrow> (int, tstate) run" where
  "timeout_parent pid ended end_time suspend quiet name rds status junk s =
     seq (poll_process pid ended end_time suspend rds s) (\<lambda>_ s.
     case (if ts_reaped s then Some (-1, junk) else map_option (Pair pid) status) of
       None \<Rightarrow> Stuck
     | Some (child_pid, child_status) \<Rightarrow>
         let child_status = end_status (ts_timed_out s) child_status;
             s = (if \<not> quiet then act (TestcaseEnd name child_pid child_status) s else s)
         in Ret (WEXITSTATUS child_status) s)"

end
