(* ===== verification/Jnl_Context.thy ===== *)
theory Jnl_Context
  imports Stf_Journal
begin

text \<open>
  The program \<^verbatim>\<open>stf_jnl_context.c\<close>, which runs a command and copies what it writes to standard output
  and standard error into the journal. Pipe 0 carries standard output and the journal entries of the
  command, which begin with a null character; pipe 1 carries standard error. Lines of standard output
  are collected and written as a whole behind a tag, everything else is written as it comes.

  The model has the static variables of the program and the sequence of its \<^verbatim>\<open>write\<close> calls on the
  journal, whose results it never looks at. What the calls \<^verbatim>\<open>poll\<close> and \<^verbatim>\<open>read\<close> deliver is an argument.
\<close>

section \<open>State\<close>

text \<open>
  \<open>cx_out\<close> is the buffer up to its first null character, \<open>cx_pos\<close> the distance of \<^verbatim>\<open>p_out\<close> from the
  start of the buffer.
\<close>

record ctx =
  cx_out :: string
  cx_pos :: nat
  cx_outcount :: nat
  cx_jnl_entry :: bool
  cx_out_tagged :: bool
  cx_err_tagged :: bool
  cx_cr_needed :: bool
  cx_jnl :: "string list"
  cx_errs :: "string list"
  cx_says :: "string list"

definition ctx_start :: ctx where
  "ctx_start = \<lparr>cx_out = [], cx_pos = 0, cx_outcount = 0, cx_jnl_entry = False, cx_out_tagged = False,
     cx_err_tagged = False, cx_cr_needed = False, cx_jnl = [], cx_errs = [], cx_says = []\<rparr>"

definition OUTSIZE :: nat where "OUTSIZE = MAXCHAR + 12"

definition stdout_tag :: string where "stdout_tag = ''stdout| ''"
definition stderr_tag :: string where "stderr_tag = ''stderr| ''"

definition jwrite :: "string \<Rightarrow> ctx \<Rightarrow> ctx" where
  "jwrite t cx = cx\<lparr>cx_jnl := cx_jnl cx @ [t]\<rparr>"

text \<open>
  Printing at \<^verbatim>\<open>p_out\<close> into what is left of the buffer. When nothing is left the text is not stored but
  the pointer moves on; a pointer behind the buffer makes the size negative, which is undefined.
\<close>

definition out_print :: "string \<Rightarrow> ctx \<Rightarrow> (unit, ctx) run" where
  "out_print t cx =
     (if cx_pos cx > OUTSIZE then Stuck
      else
        let n = OUTSIZE - cx_pos cx in
        Ret () (cx\<lparr>cx_out := (if n = 0 \<or> length (cx_out cx) < cx_pos cx then cx_out cx
                             else take (cx_pos cx) (cx_out cx) @ take (n - 1) t),
                  cx_pos := cx_pos cx + length t\<rparr>))"

definition out_tag :: "ctx \<Rightarrow> (unit, ctx) run" where
  "out_tag cx =
     (if \<not> cx_out_tagged cx then seq (out_print stdout_tag cx) (\<lambda>_ cx. Ret () (cx\<lparr>cx_out_tagged := True\<rparr>))
      else Ret () cx)"

definition err_tag :: "ctx \<Rightarrow> ctx" where
  "err_tag cx = (if \<not> cx_err_tagged cx then (jwrite stderr_tag cx)\<lparr>cx_err_tagged := True\<rparr> else cx)"

section \<open>write_pipe\<close>

definition overflow_warning :: "string option" where
  "overflow_warning = map_option snd (snprintf MAXCHAR (''\<newline>%s: Warning: buffer overflow,'' @ '' lines limited to %d bytes\<newline>'')
     [AStr stderr_tag, AInt (int MAXCHAR)])"

definition write_byte :: "nat \<Rightarrow> char \<Rightarrow> ctx \<Rightarrow> (unit, ctx) run" where
  "write_byte pipenum c cx =
     (if c = CHR 0x00
      then if pipenum = 0
           then let cx = cx\<lparr>cx_jnl_entry := True\<rparr> in
                Ret () (if cx_cr_needed cx then (jwrite ''\<newline>'' cx)\<lparr>cx_cr_needed := False\<rparr> else cx)
           else Ret () ((jwrite [c] cx)\<lparr>cx_cr_needed := True\<rparr>)
      else if c = NL
      then let cx = cx\<lparr>cx_cr_needed := False\<rparr> in
           if cx_jnl_entry cx then Ret () ((jwrite [c] cx)\<lparr>cx_jnl_entry := False\<rparr>)
           else if pipenum = 1 then Ret () ((jwrite [c] (err_tag cx))\<lparr>cx_err_tagged := False\<rparr>)
           else seq (out_tag cx) (\<lambda>_ cx.
                seq (out_print [c] cx) (\<lambda>_ cx.
                Ret () ((jwrite (cx_out cx) cx)\<lparr>cx_pos := 0, cx_outcount := 0, cx_out_tagged := False\<rparr>)))
      else
        if cx_jnl_entry cx then Ret () (jwrite [c] cx)
        else if pipenum = 1 then Ret () ((jwrite [c] (err_tag cx))\<lparr>cx_cr_needed := True\<rparr>)
        else seq (out_tag cx) (\<lambda>_ cx.
             seq (out_print [c] cx) (\<lambda>_ cx.
             let cx = cx\<lparr>cx_outcount := Suc (cx_outcount cx) mod 2 ^ 32\<rparr> in
             if cx_outcount cx > MAXCHAR - 1
             then (case overflow_warning of
                     None \<Rightarrow> Stuck
                   | Some errmsg \<Rightarrow>
                       Ret () ((jwrite errmsg (jwrite (cx_out cx) cx))
                                 \<lparr>cx_pos := 0, cx_out_tagged := False, cx_outcount := 0, cx_cr_needed := False\<rparr>))
             else Ret () cx)))"

fun write_pipe :: "nat \<Rightarrow> string \<Rightarrow> ctx \<Rightarrow> (unit, ctx) run" where
  "write_pipe pipenum [] cx = Ret () cx"
| "write_pipe pipenum (c # buf) cx = seq (write_byte pipenum c cx) (\<lambda>_ cx. write_pipe pipenum buf cx)"

section \<open>read_pipe and the end of main\<close>

text \<open>The events of a descriptor that the program looks at.\<close>

record revents =
  rv_err :: bool
  rv_in :: bool
  rv_hup :: bool

definition no_events :: revents where
  "no_events = \<lparr>rv_err = False, rv_in = False, rv_hup = False\<rparr>"

text \<open>
  One round of the loop: what \<^verbatim>\<open>poll\<close> on the pipes and on the process returns, the events they report,
  what \<^verbatim>\<open>read\<close> gives for each pipe, nothing if it fails or is at the end, and the number of an error, as it is
  printed on standard output.
\<close>

record round =
  rd_poll :: int
  rd_poll_proc :: int
  rd_pipe :: "nat \<Rightarrow> revents"
  rd_proc :: revents
  rd_data :: "nat \<Rightarrow> string"
  rd_errno :: int

text \<open>Looking at one pipe: whether the loop is left.\<close>

definition check_pipe :: "round \<Rightarrow> nat \<Rightarrow> ctx \<Rightarrow> (bool, ctx) run" where
  "check_pipe rd j cx =
     (let ev = (if rd_poll rd = 0 then no_events else rd_pipe rd j) in
      if rv_err ev then Ret True (cx\<lparr>cx_errs := cx_errs cx @ [''poll error:'']\<rparr>)
      else
        seq (if rv_in ev \<and> rd_data rd j \<noteq> [] then write_pipe j (rd_data rd j) cx else Ret () cx) (\<lambda>_ cx.
        Ret (rv_hup ev) cx))"

definition poll_failed :: "round \<Rightarrow> ctx \<Rightarrow> ctx" where
  "poll_failed rd cx = cx\<lparr>cx_errs := cx_errs cx @ [''poll failed''], cx_says := cx_says cx @ [''errno='' @ dec (rd_errno rd) @ ''\<newline>'']\<rparr>"

text \<open>
  The events of the process stay in their variable when only the pipes are polled. A loop that has used
  up its rounds goes on waiting.
\<close>

fun read_pipe :: "round list \<Rightarrow> revents \<Rightarrow> ctx \<Rightarrow> (unit, ctx) run" where
  "read_pipe [] proc cx = Stuck"
| "read_pipe (rd # rds) proc cx =
     (if rd_poll rd < 0 then Ret () (poll_failed rd cx)
      else if rd_poll rd = 0 \<and> rd_poll_proc rd < 0 then Ret () (poll_failed rd cx)
      else
        let proc = (if rd_poll rd = 0 then rd_proc rd else proc) in
        if rd_poll rd = 0 \<and> rd_poll_proc rd = 0 then read_pipe rds no_events cx
        else
          seq (check_pipe rd 0 cx) (\<lambda>out cx.
          if out then Ret () cx
          else
            seq (check_pipe rd 1 cx) (\<lambda>out cx.
            if out then Ret () cx
            else if rv_err proc then Ret () (cx\<lparr>cx_errs := cx_errs cx @ [''poll error:'']\<rparr>)
            else if rv_hup proc then Ret () cx
            else read_pipe rds proc cx)))"

text \<open>
  The final reads of a pipe and what each of them gives: nothing if it fails or is at the end, which ends the loop. These
  reads block. When the list is used up the next one waits for ever, as it does while some process holds the other end of
  the pipe open and writes nothing.
\<close>

fun drain :: "nat \<Rightarrow> string list \<Rightarrow> ctx \<Rightarrow> (unit, ctx) run" where
  "drain i [] cx = Stuck"
| "drain i (b # bs) cx = (if b = [] then Ret () cx else seq (write_pipe i b cx) (\<lambda>_ cx. drain i bs cx))"

text \<open>
  The wait for the command: what the calls of \<^verbatim>\<open>waitpid\<close> return, with the status. It goes on until one of them returns the
  process number of the command; when they are used up the next one waits for ever.
\<close>

fun wait_for :: "int \<Rightarrow> (int \<times> u32) list \<Rightarrow> u32 option" where
  "wait_for test_pid [] = None"
| "wait_for test_pid ((p, status) # ws) = (if p \<noteq> test_pid then wait_for test_pid ws else Some status)"

definition flush_end :: "ctx \<Rightarrow> ctx" where
  "flush_end cx =
     (let cx = (if cx_pos cx \<noteq> 0
                then (jwrite ''\<newline>'' (jwrite (cx_out cx) (if cx_cr_needed cx then jwrite ''\<newline>'' cx else cx)))\<lparr>cx_cr_needed := False\<rparr>
                else cx)
      in if cx_cr_needed cx then jwrite ''\<newline>'' cx else cx)"

definition WIFEXITED :: "u32 \<Rightarrow> bool" where
  "WIFEXITED status \<longleftrightarrow> status AND 0xFF = 0"

text \<open>The program from the start of the loop to its return value.\<close>

definition context_main :: "int \<Rightarrow> round list \<Rightarrow> string list \<Rightarrow> string list \<Rightarrow> (int \<times> u32) list \<Rightarrow> ctx \<Rightarrow> (int, ctx) run" where
  "context_main test_pid rds rest0 rest1 waits cx =
     seq (read_pipe rds no_events cx) (\<lambda>_ cx.
     seq (drain 0 rest0 cx) (\<lambda>_ cx.
     seq (drain 1 rest1 cx) (\<lambda>_ cx.
     let cx = flush_end cx in
     case wait_for test_pid waits of
       None \<Rightarrow> Stuck
     | Some status \<Rightarrow> Ret (if WIFEXITED status then WEXITSTATUS status else sint status) cx)))"

section \<open>The buffer is never overrun\<close>

text \<open>
  The buffer holds the tag and the characters of the line so far, or \<^verbatim>\<open>p_out\<close> is at its start; the
  count is that of the characters and stays below the limit.
\<close>

definition ctx_ok :: "ctx \<Rightarrow> bool" where
  "ctx_ok cx \<longleftrightarrow> cx_outcount cx < MAXCHAR \<and>
     (if cx_out_tagged cx
      then take 8 (cx_out cx) = stdout_tag \<and> length (cx_out cx) = 8 + cx_outcount cx \<and> cx_pos cx = length (cx_out cx) \<and>
           0 < cx_outcount cx
      else cx_pos cx = 0 \<and> cx_outcount cx = 0)"

lemma ctx_start_ok [simp]: "ctx_ok ctx_start"
  by (simp add: ctx_ok_def ctx_start_def MAXCHAR_def)

lemma tag_length [simp]: "length stdout_tag = 8"
  by (simp add: stdout_tag_def)

text \<open>The line that is being collected, without its tag.\<close>

definition pending :: "ctx \<Rightarrow> string" where
  "pending cx = (if cx_out_tagged cx then drop 8 (cx_out cx) else [])"

lemma ctx_ok_pending:
  assumes "ctx_ok cx"
  shows "length (pending cx) = cx_outcount cx" "cx_out_tagged cx \<Longrightarrow> cx_out cx = stdout_tag @ pending cx"
    "cx_pos cx = (if cx_out_tagged cx then 8 + length (pending cx) else 0)" "length (pending cx) < MAXCHAR"
  using assms by (auto simp: ctx_ok_def pending_def) (metis append_take_drop_id)

lemma ctx_ok_idle: "ctx_ok cx \<Longrightarrow> pending cx = [] \<Longrightarrow> cx_pos cx = 0"
  using ctx_ok_pending(1,3) [of cx] by (cases "cx_out_tagged cx") (simp_all add: ctx_ok_def)

text \<open>A character that goes to the buffer: afterwards the buffer holds the tag and one character more.\<close>

definition collect :: "char \<Rightarrow> ctx \<Rightarrow> ctx" where
  "collect c cx = cx\<lparr>cx_out := stdout_tag @ pending cx @ [c], cx_pos := 9 + length (pending cx), cx_out_tagged := True\<rparr>"

lemma collect_run:
  assumes "ctx_ok cx"
  shows "seq (out_tag cx) (\<lambda>_ cx. seq (out_print [c] cx) f) = f () (collect c cx)"
proof (cases "cx_out_tagged cx")
  case True
  then have "cx_out cx = stdout_tag @ pending cx" "cx_pos cx = 8 + length (pending cx)" "length (pending cx) < MAXCHAR"
    using ctx_ok_pending [OF assms] by auto
  then have "out_tag cx = Ret () cx" "out_print [c] cx = Ret () (cx\<lparr>cx_out := stdout_tag @ pending cx @ [c], cx_pos := 9 + length (pending cx)\<rparr>)"
    using True by (simp_all add: out_tag_def out_print_def OUTSIZE_def MAXCHAR_def Let_def)
  moreover have "collect c cx = cx\<lparr>cx_out := stdout_tag @ pending cx @ [c], cx_pos := 9 + length (pending cx)\<rparr>"
    using True unfolding collect_def by (cases cx) simp
  ultimately show ?thesis by simp
next
  case False
  then have "cx_pos cx = 0" "pending cx = []" using ctx_ok_pending [OF assms] by (auto simp: pending_def)
  then have run: "seq (out_tag cx) (\<lambda>_ cx. seq (out_print [c] cx) f) =
      f () (cx\<lparr>cx_out_tagged := True, cx_out := stdout_tag @ [c], cx_pos := 9\<rparr>)"
    using False by (simp add: out_tag_def out_print_def OUTSIZE_def MAXCHAR_def Let_def)
  have "cx\<lparr>cx_out_tagged := True, cx_out := stdout_tag @ [c], cx_pos := 9\<rparr> = collect c cx"
    using \<open>pending cx = []\<close> by (simp add: collect_def)
  then show ?thesis unfolding run by simp
qed

lemma overflow_warning_text: "overflow_warning = Some (''\<newline>stderr| : Warning: buffer overflow, lines limited to '' @ dec (int MAXCHAR) @ '' bytes\<newline>'')"
  by (simp add: overflow_warning_def snprintf_def fmt stderr_tag_def MAXCHAR_def dec_def numeral_in.simps)

text \<open>What a byte does, case by case.\<close>

definition end_line :: "ctx \<Rightarrow> ctx" where
  "end_line cx = (jwrite (stdout_tag @ pending cx @ ''\<newline>'') cx)\<lparr>cx_out := stdout_tag @ pending cx @ ''\<newline>'', cx_pos := 0,
     cx_outcount := 0, cx_out_tagged := False, cx_cr_needed := False\<rparr>"

lemma pending_upd [simp]:
  "pending (cx\<lparr>cx_cr_needed := b\<rparr>) = pending cx" "pending (cx\<lparr>cx_jnl := w\<rparr>) = pending cx" "pending (cx\<lparr>cx_err_tagged := b\<rparr>) = pending cx"
  "ctx_ok (cx\<lparr>cx_cr_needed := b\<rparr>) = ctx_ok cx" "ctx_ok (cx\<lparr>cx_jnl := w\<rparr>) = ctx_ok cx" "ctx_ok (cx\<lparr>cx_err_tagged := b\<rparr>) = ctx_ok cx"
  "ctx_ok (cx\<lparr>cx_jnl_entry := b\<rparr>) = ctx_ok cx" "ctx_ok (cx\<lparr>cx_errs := e\<rparr>) = ctx_ok cx" "ctx_ok (cx\<lparr>cx_says := e\<rparr>) = ctx_ok cx" "pending (cx\<lparr>cx_jnl_entry := b\<rparr>) = pending cx"
  by (simp_all add: pending_def ctx_ok_def)

lemma write_newline:
  assumes "ctx_ok cx" "\<not> cx_jnl_entry cx"
  shows "write_byte 0 NL cx = Ret () (end_line cx)"
proof -
  have ok: "ctx_ok (cx\<lparr>cx_cr_needed := False\<rparr>)" using assms(1) by simp
  show ?thesis using assms(2) unfolding write_byte_def
    by (simp add: collect_run [OF ok] Let_def) (simp add: collect_def jwrite_def end_line_def)
qed

lemma write_char:
  assumes "ctx_ok cx" "\<not> cx_jnl_entry cx" "c \<noteq> NL" "c \<noteq> CHR 0x00"
  shows "write_byte 0 c cx =
    (if Suc (length (pending cx)) < MAXCHAR then Ret () ((collect c cx)\<lparr>cx_outcount := Suc (length (pending cx))\<rparr>)
     else Ret () ((jwrite (the overflow_warning) (jwrite (stdout_tag @ pending cx @ [c]) (collect c cx)))
                    \<lparr>cx_pos := 0, cx_out_tagged := False, cx_outcount := 0, cx_cr_needed := False\<rparr>))"
proof -
  have "length (pending cx) = cx_outcount cx" "cx_outcount cx < MAXCHAR" using ctx_ok_pending [OF assms(1)] by auto
  moreover from this have "Suc (cx_outcount cx) mod 2 ^ 32 = Suc (cx_outcount cx)" by (simp add: MAXCHAR_def)
  moreover have "cx_outcount (collect c cx) = cx_outcount cx" "cx_out (collect c cx) = stdout_tag @ pending cx @ [c]" by (simp_all add: collect_def)
  moreover have "MAXCHAR - 1 < Suc n \<longleftrightarrow> \<not> Suc n < MAXCHAR" for n by (auto simp: MAXCHAR_def)
  ultimately show ?thesis using assms(2-4) unfolding write_byte_def
    by (simp add: collect_run [OF assms(1)] Let_def overflow_warning_text) (simp add: jwrite_def)
qed

text \<open>A byte of standard output and one of standard error as functions of what they depend on.\<close>

definition out_step :: "string \<Rightarrow> char \<Rightarrow> string \<times> string list" where
  "out_step pd c =
     (if c = NL then ([], [stdout_tag @ pd @ ''\<newline>''])
      else if Suc (length pd) < MAXCHAR then (pd @ [c], [])
      else ([], [stdout_tag @ pd @ [c], the overflow_warning]))"

definition err_step :: "bool \<Rightarrow> char \<Rightarrow> bool \<times> string list" where
  "err_step tagged c = (c \<noteq> NL, (if tagged then [] else [stderr_tag]) @ [[c]])"

lemma write_out:
  assumes "ctx_ok cx" "\<not> cx_jnl_entry cx" "c \<noteq> CHR 0x00"
  obtains cx' where "write_byte 0 c cx = Ret () cx'" "ctx_ok cx'" "\<not> cx_jnl_entry cx'" "cx_err_tagged cx' = cx_err_tagged cx"
    "pending cx' = fst (out_step (pending cx) c)" "cx_jnl cx' = cx_jnl cx @ snd (out_step (pending cx) c)"
proof (cases "c = NL")
  case True
  have "ctx_ok (end_line cx)" "\<not> cx_jnl_entry (end_line cx)" "cx_err_tagged (end_line cx) = cx_err_tagged cx" "pending (end_line cx) = []"
    "cx_jnl (end_line cx) = cx_jnl cx @ [stdout_tag @ pending cx @ ''\<newline>'']"
    using assms(2) by (simp_all add: end_line_def jwrite_def ctx_ok_def pending_def MAXCHAR_def)
  then show thesis using True write_newline [OF assms(1,2)] by (intro that [of "end_line cx"]) (simp_all add: out_step_def)
next
  case False
  let ?full = "(jwrite (the overflow_warning) (jwrite (stdout_tag @ pending cx @ [c]) (collect c cx)))
      \<lparr>cx_pos := 0, cx_out_tagged := False, cx_outcount := 0, cx_cr_needed := False\<rparr>"
  let ?more = "(collect c cx)\<lparr>cx_outcount := Suc (length (pending cx))\<rparr>"
  show thesis
  proof (cases "Suc (length (pending cx)) < MAXCHAR")
    case True
    then have "ctx_ok ?more" "\<not> cx_jnl_entry ?more" "cx_err_tagged ?more = cx_err_tagged cx" "pending ?more = pending cx @ [c]" "cx_jnl ?more = cx_jnl cx"
      using assms(2) by (simp_all add: ctx_ok_def collect_def pending_def)
    then show thesis using True False write_char [OF assms(1,2) False assms(3)] by (intro that [of ?more]) (simp_all add: out_step_def)
  next
    case full: False
    have "ctx_ok ?full" "\<not> cx_jnl_entry ?full" "cx_err_tagged ?full = cx_err_tagged cx" "pending ?full = []"
      "cx_jnl ?full = cx_jnl cx @ [stdout_tag @ pending cx @ [c], the overflow_warning]"
      using assms(2) by (simp_all add: ctx_ok_def collect_def pending_def jwrite_def MAXCHAR_def)
    then show thesis using full False write_char [OF assms(1,2) False assms(3)] by (intro that [of ?full]) (simp_all add: out_step_def)
  qed
qed

lemma write_err:
  assumes "ctx_ok cx" "\<not> cx_jnl_entry cx" "c \<noteq> CHR 0x00"
  obtains cx' where "write_byte 1 c cx = Ret () cx'" "ctx_ok cx'" "\<not> cx_jnl_entry cx'" "pending cx' = pending cx"
    "cx_err_tagged cx' = fst (err_step (cx_err_tagged cx) c)" "cx_jnl cx' = cx_jnl cx @ snd (err_step (cx_err_tagged cx) c)"
proof (cases "c = NL")
  case True
  let ?cx = "(jwrite [c] (err_tag (cx\<lparr>cx_cr_needed := False\<rparr>)))\<lparr>cx_err_tagged := False\<rparr>"
  have "write_byte 1 c cx = Ret () ?cx" using True assms(2) by (simp add: write_byte_def)
  then show thesis using True assms(1,2) by (intro that [of ?cx]) (simp_all add: err_tag_def jwrite_def err_step_def)
next
  case False
  let ?cx = "(jwrite [c] (err_tag cx))\<lparr>cx_cr_needed := True\<rparr>"
  have "write_byte 1 c cx = Ret () ?cx" using False assms(2,3) by (simp add: write_byte_def)
  then show thesis using False assms(1,2) by (intro that [of ?cx]) (simp_all add: err_tag_def jwrite_def err_step_def)
qed

lemma write_byte_ok:
  assumes "ctx_ok cx" "pipenum < 2"
  shows "returns (write_byte pipenum c cx) (\<lambda>_ cx'. ctx_ok cx')"
proof (cases "cx_jnl_entry cx \<or> c = CHR 0x00")
  case True
  then show ?thesis using assms(1) by (auto simp: write_byte_def jwrite_def Let_def)
next
  case False
  then have c: "\<not> cx_jnl_entry cx" "c \<noteq> CHR 0x00" by simp_all
  show ?thesis
  proof (cases "pipenum = 0")
    case True
    then show ?thesis using write_out [OF assms(1) c] unfolding returns_def by metis
  next
    case False
    then have "pipenum = 1" using assms(2) by simp
    then show ?thesis using write_err [OF assms(1) c] unfolding returns_def by metis
  qed
qed

lemma write_pipe_ok:
  assumes "ctx_ok cx" "pipenum < 2"
  shows "returns (write_pipe pipenum buf cx) (\<lambda>_ cx'. ctx_ok cx')"
  using assms(1)
proof (induction buf arbitrary: cx)
  case (Cons c buf)
  show ?case unfolding write_pipe.simps returns_seq
    by (rule returns_mono [OF write_byte_ok [OF Cons.prems assms(2)]]) (rule Cons.IH)
qed simp

lemma ctx_ok_room: "ctx_ok cx \<Longrightarrow> cx_pos cx < OUTSIZE"
  by (auto simp: ctx_ok_def OUTSIZE_def MAXCHAR_def split: if_splits)

section \<open>Two streams in one journal\<close>

text \<open>The chunks that are read from the two pipes, in the order they are read.\<close>

fun feed :: "(nat \<times> string) list \<Rightarrow> ctx \<Rightarrow> (unit, ctx) run" where
  "feed [] cx = Ret () cx"
| "feed ((p, buf) # evs) cx = seq (write_pipe p buf cx) (\<lambda>_ cx. feed evs cx)"

definition stream :: "nat \<Rightarrow> (nat \<times> string) list \<Rightarrow> string" where
  "stream p evs = concat (map snd (filter (\<lambda>e. fst e = p) evs))"

lemma stream_simps [simp]: "stream p [] = []" "stream p ((q, buf) # evs) = (if q = p then buf @ stream p evs else stream p evs)"
  by (simp_all add: stream_def)

text \<open>The writes for a stream, and what is pending at its end.\<close>

fun out_run :: "string \<Rightarrow> string \<Rightarrow> string \<times> string list" where
  "out_run pd [] = (pd, [])"
| "out_run pd (c # cs) = (let (pd, w) = out_step pd c; (pd, w') = out_run pd cs in (pd, w @ w'))"

fun err_run :: "bool \<Rightarrow> string \<Rightarrow> bool \<times> string list" where
  "err_run tg [] = (tg, [])"
| "err_run tg (c # cs) = (let (tg, w) = err_step tg c; (tg, w') = err_run tg cs in (tg, w @ w'))"

lemma run_Cons:
  "fst (out_run pd (c # cs)) = fst (out_run (fst (out_step pd c)) cs)"
  "snd (out_run pd (c # cs)) = snd (out_step pd c) @ snd (out_run (fst (out_step pd c)) cs)"
  "fst (err_run tg (c # cs)) = fst (err_run (fst (err_step tg c)) cs)"
  "snd (err_run tg (c # cs)) = snd (err_step tg c) @ snd (err_run (fst (err_step tg c)) cs)"
  by (simp_all add: Let_def split: prod.splits)

lemma out_run_append: "out_run pd (s @ t) = (let (pd, w) = out_run pd s; (pd, w') = out_run pd t in (pd, w @ w'))"
  by (induction s arbitrary: pd) (auto simp: Let_def split: prod.splits)

lemma err_run_append: "err_run tg (s @ t) = (let (tg, w) = err_run tg s; (tg, w') = err_run tg t in (tg, w @ w'))"
  by (induction s arbitrary: tg) (auto simp: Let_def split: prod.splits)

lemma write_pipe_out:
  assumes "ctx_ok cx" "\<not> cx_jnl_entry cx" "CHR 0x00 \<notin> set buf"
  shows "returns (write_pipe 0 buf cx) (\<lambda>_ cx'. ctx_ok cx' \<and> \<not> cx_jnl_entry cx' \<and> cx_err_tagged cx' = cx_err_tagged cx \<and>
    pending cx' = fst (out_run (pending cx) buf) \<and> cx_jnl cx' = cx_jnl cx @ snd (out_run (pending cx) buf))"
  using assms
proof (induction buf arbitrary: cx)
  case (Cons c buf)
  have "c \<noteq> CHR 0x00" "CHR 0x00 \<notin> set buf" using Cons.prems(3) by auto
  then obtain cx' where w: "write_byte 0 c cx = Ret () cx'" "ctx_ok cx'" "\<not> cx_jnl_entry cx'" "cx_err_tagged cx' = cx_err_tagged cx"
    "pending cx' = fst (out_step (pending cx) c)" "cx_jnl cx' = cx_jnl cx @ snd (out_step (pending cx) c)"
    using write_out [OF Cons.prems(1,2)] by metis
  show ?case unfolding write_pipe.simps w(1) seq.simps
    by (rule returns_mono [OF Cons.IH [OF w(2,3) \<open>CHR 0x00 \<notin> set buf\<close>]]) (auto simp: w(4-6) Let_def split: prod.splits)
qed simp

lemma write_pipe_err:
  assumes "ctx_ok cx" "\<not> cx_jnl_entry cx" "CHR 0x00 \<notin> set buf"
  shows "returns (write_pipe 1 buf cx) (\<lambda>_ cx'. ctx_ok cx' \<and> \<not> cx_jnl_entry cx' \<and> pending cx' = pending cx \<and>
    cx_err_tagged cx' = fst (err_run (cx_err_tagged cx) buf) \<and> cx_jnl cx' = cx_jnl cx @ snd (err_run (cx_err_tagged cx) buf))"
  using assms
proof (induction buf arbitrary: cx)
  case (Cons c buf)
  have "c \<noteq> CHR 0x00" "CHR 0x00 \<notin> set buf" using Cons.prems(3) by auto
  then obtain cx' where w: "write_byte 1 c cx = Ret () cx'" "ctx_ok cx'" "\<not> cx_jnl_entry cx'" "pending cx' = pending cx"
    "cx_err_tagged cx' = fst (err_step (cx_err_tagged cx) c)" "cx_jnl cx' = cx_jnl cx @ snd (err_step (cx_err_tagged cx) c)"
    using write_err [OF Cons.prems(1,2)] by metis
  show ?case unfolding write_pipe.simps w(1) seq.simps
    by (rule returns_mono [OF Cons.IH [OF w(2,3) \<open>CHR 0x00 \<notin> set buf\<close>]]) (auto simp: w(4-6) Let_def split: prod.splits)
qed simp

lemma shuffles_append_left: "zs \<in> shuffles xs ys \<Longrightarrow> ws @ zs \<in> shuffles (ws @ xs) ys"
  by (induction ws) (auto intro: Cons_in_shuffles_leftI)

lemma shuffles_append_right: "zs \<in> shuffles xs ys \<Longrightarrow> ws @ zs \<in> shuffles xs (ws @ ys)"
  by (induction ws) (auto intro: Cons_in_shuffles_rightI)

text \<open>The journal of two streams is a shuffle of the journals of each.\<close>

definition shuffled :: "(nat \<times> string) list \<Rightarrow> ctx \<Rightarrow> ctx \<Rightarrow> bool" where
  "shuffled evs cx cx' \<longleftrightarrow> ctx_ok cx' \<and> \<not> cx_jnl_entry cx' \<and> pending cx' = fst (out_run (pending cx) (stream 0 evs)) \<and>
     cx_err_tagged cx' = fst (err_run (cx_err_tagged cx) (stream 1 evs)) \<and>
     (\<exists>w\<in>shuffles (snd (out_run (pending cx) (stream 0 evs))) (snd (err_run (cx_err_tagged cx) (stream 1 evs))).
        cx_jnl cx' = cx_jnl cx @ w)"

lemma shuffled_out:
  assumes "shuffled evs cx1 cx'" "cx_err_tagged cx1 = cx_err_tagged cx" "pending cx1 = fst (out_run (pending cx) buf)"
    "cx_jnl cx1 = cx_jnl cx @ snd (out_run (pending cx) buf)"
  shows "shuffled ((0, buf) # evs) cx cx'"
  using assms by (auto simp: shuffled_def out_run_append Let_def split: prod.splits intro: shuffles_append_left)

lemma shuffled_err:
  assumes "shuffled evs cx1 cx'" "pending cx1 = pending cx" "cx_err_tagged cx1 = fst (err_run (cx_err_tagged cx) buf)"
    "cx_jnl cx1 = cx_jnl cx @ snd (err_run (cx_err_tagged cx) buf)"
  shows "shuffled ((1, buf) # evs) cx cx'"
  using assms by (auto simp: shuffled_def err_run_append Let_def split: prod.splits intro: shuffles_append_right)

lemma feed_shuffled:
  assumes "ctx_ok cx" "\<not> cx_jnl_entry cx" "\<And>p buf. (p, buf) \<in> set evs \<Longrightarrow> p < 2 \<and> CHR 0x00 \<notin> set buf"
  shows "returns (feed evs cx) (\<lambda>_ cx'. shuffled evs cx cx')"
  using assms
proof (induction evs arbitrary: cx)
  case Nil
  then show ?case by (simp add: shuffled_def)
next
  case (Cons e evs)
  obtain p buf where e: "e = (p, buf)" by (cases e)
  have pb: "p < 2" "CHR 0x00 \<notin> set buf" using Cons.prems(3) e by auto
  have IH: "returns (feed evs cx1) (\<lambda>_ cx'. shuffled evs cx1 cx')" if "ctx_ok cx1" "\<not> cx_jnl_entry cx1" for cx1
    using that Cons.prems(3) by (intro Cons.IH) auto
  consider "p = 0" | "p = 1" using pb(1) by linarith
  then show ?case
  proof cases
    case 1
    show ?thesis unfolding e 1 feed.simps returns_seq
    proof (rule returns_mono [OF write_pipe_out [OF Cons.prems(1,2) pb(2)]])
      fix r cx1
      assume A: "ctx_ok cx1 \<and> \<not> cx_jnl_entry cx1 \<and> cx_err_tagged cx1 = cx_err_tagged cx \<and>
        pending cx1 = fst (out_run (pending cx) buf) \<and> cx_jnl cx1 = cx_jnl cx @ snd (out_run (pending cx) buf)"
      show "returns (feed evs cx1) (\<lambda>_ cx'. shuffled ((0, buf) # evs) cx cx')"
        by (rule returns_mono [OF IH]) (use A shuffled_out in blast)+
    qed
  next
    case 2
    show ?thesis unfolding e 2 feed.simps returns_seq
    proof (rule returns_mono [OF write_pipe_err [OF Cons.prems(1,2) pb(2)]])
      fix r cx1
      assume A: "ctx_ok cx1 \<and> \<not> cx_jnl_entry cx1 \<and> pending cx1 = pending cx \<and>
        cx_err_tagged cx1 = fst (err_run (cx_err_tagged cx) buf) \<and> cx_jnl cx1 = cx_jnl cx @ snd (err_run (cx_err_tagged cx) buf)"
      show "returns (feed evs cx1) (\<lambda>_ cx'. shuffled ((1, buf) # evs) cx cx')"
        by (rule returns_mono [OF IH]) (use A shuffled_err in blast)+
    qed
  qed
qed

section \<open>Journal entries\<close>

text \<open>Between a null character and the end of the line every byte is written as it is.\<close>

lemma write_entry:
  assumes "cx_jnl_entry cx" "CHR 0x00 \<notin> set e" "NL \<notin> set e"
  shows "write_pipe p e cx = Ret () (cx\<lparr>cx_jnl := cx_jnl cx @ map (\<lambda>c. [c]) e\<rparr>)"
  using assms
proof (induction e arbitrary: cx)
  case Nil
  then show ?case by simp
next
  case (Cons c e)
  have "write_byte p c cx = Ret () (jwrite [c] cx)" using Cons.prems by (auto simp: write_byte_def)
  moreover have "cx_jnl_entry (jwrite [c] cx)" using Cons.prems(1) by (simp add: jwrite_def)
  ultimately show ?case using Cons.IH [of "jwrite [c] cx"] Cons.prems(2,3) by (simp add: jwrite_def)
qed

lemma write_pipe_append: "write_pipe p (s @ t) cx = seq (write_pipe p s cx) (\<lambda>_ cx. write_pipe p t cx)"
proof (induction s arbitrary: cx)
  case (Cons c s)
  then show ?case by (cases "write_byte p c cx") simp_all
qed simp

lemma entry_begin:
  "write_byte 0 (CHR 0x00) cx = Ret () (cx\<lparr>cx_jnl_entry := True, cx_cr_needed := False,
     cx_jnl := cx_jnl cx @ (if cx_cr_needed cx then [''\<newline>''] else [])\<rparr>)"
  by (cases cx) (simp add: write_byte_def jwrite_def)

lemma entry_end:
  "cx_jnl_entry cx \<Longrightarrow> write_byte p NL cx = Ret () (cx\<lparr>cx_cr_needed := False, cx_jnl := cx_jnl cx @ [''\<newline>''], cx_jnl_entry := False\<rparr>)"
  by (simp add: write_byte_def jwrite_def)

lemma concat_singletons: "concat (map (\<lambda>c. [c]) e) = e"
  by (induction e) simp_all

section \<open>The whole program\<close>

lemma check_pipe_ok:
  assumes "ctx_ok cx" "j < 2"
  shows "returns (check_pipe rd j cx) (\<lambda>out cx'. ctx_ok cx' \<and> (0 < rd_poll rd \<and> rv_hup (rd_pipe rd j) \<longrightarrow> out))"
  using assms by (auto simp: check_pipe_def Let_def returns_seq no_events_def intro: returns_mono [OF write_pipe_ok])

text \<open>The final reads of a pipe end with the first that gives nothing; without one they never end.\<close>

lemma drain_ok: "ctx_ok cx \<Longrightarrow> i < 2 \<Longrightarrow> [] \<in> set bs \<Longrightarrow> returns (drain i bs cx) (\<lambda>_ cx'. ctx_ok cx')"
proof (induction bs arbitrary: cx)
  case (Cons b bs)
  show ?case
  proof (cases "b = []")
    case False
    then have "[] \<in> set bs" using Cons.prems(3) by auto
    then show ?thesis using False Cons.prems(1,2) Cons.IH
      by (auto simp: returns_seq intro: returns_mono [OF write_pipe_ok])
  qed (use Cons.prems(1) in simp)
qed simp

lemma drain_blocks: "ctx_ok cx \<Longrightarrow> i < 2 \<Longrightarrow> [] \<notin> set bs \<Longrightarrow> drain i bs cx = Stuck"
proof (induction bs arbitrary: cx)
  case (Cons b bs)
  obtain cx' where "write_pipe i b cx = Ret () cx'" "ctx_ok cx'" using write_pipe_ok [OF Cons.prems(1,2), of b] by (auto simp: returns_def)
  then show ?case using Cons.prems(2,3) Cons.IH by auto
qed simp

text \<open>The loop ends when \<^verbatim>\<open>poll\<close> reports that the other end of a pipe was closed.\<close>

definition hangs_up :: "round \<Rightarrow> bool" where
  "hangs_up rd \<longleftrightarrow> 0 < rd_poll rd \<and> (rv_hup (rd_pipe rd 0) \<or> rv_hup (rd_pipe rd 1))"

lemma read_pipe_ok:
  assumes "ctx_ok cx" "\<exists>rd\<in>set rds. hangs_up rd"
  shows "returns (read_pipe rds proc cx) (\<lambda>_ cx'. ctx_ok cx')"
  using assms
proof (induction rds arbitrary: proc cx)
  case Nil
  then show ?case by simp
next
  case (Cons rd rds)
  let ?proc = "if rd_poll rd = 0 then rd_proc rd else proc"
  consider "rd_poll rd < 0" | "rd_poll rd = 0" "rd_poll_proc rd < 0" | "rd_poll rd = 0" "rd_poll_proc rd = 0"
    | "0 < rd_poll rd \<or> rd_poll rd = 0 \<and> 0 < rd_poll_proc rd" by linarith
  then show ?case
  proof cases
    case 3
    then have "\<exists>rd\<in>set rds. hangs_up rd" using Cons.prems(2) by (auto simp: hangs_up_def)
    then show ?thesis using 3 Cons.IH [OF Cons.prems(1)] by simp
  next
    case 4
    have step: "read_pipe (rd # rds) proc cx =
        seq (check_pipe rd 0 cx) (\<lambda>out cx.
          if out then Ret () cx
          else seq (check_pipe rd 1 cx) (\<lambda>out cx.
            if out then Ret () cx
            else if rv_err ?proc then Ret () (cx\<lparr>cx_errs := cx_errs cx @ [''poll error:'']\<rparr>)
            else if rv_hup ?proc then Ret () cx
            else read_pipe rds ?proc cx))"
      using 4 by (auto simp: Let_def)
    have tail: "returns (if out then Ret () cx2
        else if rv_err ?proc then Ret () (cx2\<lparr>cx_errs := cx_errs cx2 @ [''poll error:'']\<rparr>)
        else if rv_hup ?proc then Ret () cx2 else read_pipe rds ?proc cx2) (\<lambda>_ cx'. ctx_ok cx')"
      if "ctx_ok cx2" "hangs_up rd \<longrightarrow> out" for out cx2
    proof (cases out)
      case True
      then show ?thesis using that(1) by simp
    next
      case False
      then have "\<exists>rd\<in>set rds. hangs_up rd" using that(2) Cons.prems(2) by auto
      from Cons.IH [OF that(1) this] that(1) False show ?thesis by simp
    qed
    have mid: "returns (if out then Ret () cx1
        else seq (check_pipe rd 1 cx1) (\<lambda>out cx.
          if out then Ret () cx
          else if rv_err ?proc then Ret () (cx\<lparr>cx_errs := cx_errs cx @ [''poll error:'']\<rparr>)
          else if rv_hup ?proc then Ret () cx else read_pipe rds ?proc cx)) (\<lambda>_ cx'. ctx_ok cx')"
      if "ctx_ok cx1" "0 < rd_poll rd \<and> rv_hup (rd_pipe rd 0) \<longrightarrow> out" for out cx1
    proof (cases out)
      case True
      then show ?thesis using that(1) by simp
    next
      case False
      show ?thesis unfolding if_not_P [OF False] returns_seq
        by (rule returns_mono [OF check_pipe_ok [OF that(1)]]) (simp, rule tail, use that(2) False in \<open>auto simp: hangs_up_def\<close>)
    qed
    show ?thesis unfolding step returns_seq
      by (rule returns_mono [OF check_pipe_ok [OF Cons.prems(1)]]) (simp, rule mid, auto)
  qed (use Cons.prems(1) in \<open>simp_all add: poll_failed_def\<close>)
qed

lemma flush_end_ok: "ctx_ok cx \<Longrightarrow> ctx_ok (flush_end cx)"
  by (simp add: flush_end_def jwrite_def Let_def)

end
