(* ===== verification/Programs.thy ===== *)
theory Programs
  imports Stf_Timeout Jnl_Context
begin

text \<open>
  The main functions of \<^verbatim>\<open>stf_timeout.c\<close> and \<^verbatim>\<open>stf_jnl_context.c\<close>, from their arguments to the end of the parent
  process, and their children up to the command they become. What the system answers is a record. The name of
  the file below \<^verbatim>\<open>/proc\<close> is made with \<^verbatim>\<open>sprintf\<close> from and into the same array; its text does not matter to the model,
  only whether the file can be opened.
\<close>

section \<open>stf_timeout\<close>

record timeout_sys =
  sy_lmax :: int
  sy_suspend :: bool
  sy_now :: int
  sy_fork :: int
  sy_proc :: bool
  sy_ended :: "nat \<Rightarrow> bool"
  sy_rounds :: "tround list"
  sy_status :: "u32 option"
  sy_junk :: u32

definition timeout_usage :: string where
  "timeout_usage = ''Usage: timeout [options] limit command.\<newline>\<newline>options:\<newline>'' @ [CHR 0x09] @ ''-n name'' @ [CHR 0x09] @
     '' - name of testcase to use in journal\<newline>'' @ [CHR 0x09] @ ''-q'' @ [CHR 0x09] @
     ''- quite mode, some journaling suppressed\<newline>'' @ [CHR 0x09] @ ''-s'' @ [CHR 0x09] @
     ''- suspend hung process instead of killing it\<newline>\<newline>'' @ [CHR 0x09] @ ''limit'' @ [CHR 0x09] @
     ''- integer time limit in seconds or of the form 3h23m45s\<newline>'' @ [CHR 0x09] @ ''command'' @ [CHR 0x09] @ ''- command line\<newline>''"

text \<open>The handler of the signals that end the program, with the process number of the command.\<close>

definition goodbye :: "int \<Rightarrow> (nat \<Rightarrow> bool) \<Rightarrow> tstate \<Rightarrow> (unit, tstate) run" where
  "goodbye test_pid ended s = Exit 1 (if test_pid > 0 then clean_kill ended s else s)"

record timeout_opts =
  to_suspend :: bool
  to_quiet :: bool
  to_name :: "string option"

text \<open>Unknown options and a missing name change nothing.\<close>

fun to_option :: "opt \<Rightarrow> timeout_opts \<Rightarrow> timeout_opts" where
  "to_option (Opt c a) op =
     (if c = CHR ''s'' then op\<lparr>to_suspend := True\<rparr>
      else if c = CHR ''q'' then op\<lparr>to_quiet := True\<rparr>
      else if c = CHR ''n'' then op\<lparr>to_name := a\<rparr> else op)"
| "to_option (Bad c) op = op"

text \<open>
  The arguments: the options, the time at which the limit is over, and the command. Without an operand the limit is a
  null pointer, which is undefined.
\<close>

definition timeout_args :: "timeout_sys \<Rightarrow> string list \<Rightarrow> tstate \<Rightarrow> (timeout_opts \<times> int \<times> string list, tstate) run" where
  "timeout_args sy argv s =
     (if length argv < 2 then Exit 1 (act (Say timeout_usage) s)
      else case getopt ''sqn:'' [] (tl argv) of (os, rest) \<Rightarrow>
        let op = fold to_option os \<lparr>to_suspend = sy_suspend sy, to_quiet = False, to_name = None\<rparr> in
        case rest of
          [] \<Rightarrow> Stuck
        | timeoutarg # prgargs \<Rightarrow>
            (case parse_timeout (sy_lmax sy) timeoutarg of
               None \<Rightarrow> Stuck
             | Some (duration, msgs) \<Rightarrow>
                 let s = fold (\<lambda>m. act (Say m)) msgs s; end_time = sy_now sy + duration * NANOSEC in
                 if prgargs = [] then Exit 1 (act (Say ([CHR 0x09] @ ''missing command name\<newline>'')) (act (Say timeout_usage) s))
                 else if fits LLONG_MAX (duration * NANOSEC) = None \<or> fits LLONG_MAX end_time = None then Stuck
                 else Ret (op, end_time, prgargs) s))"

definition timeout_main :: "timeout_sys \<Rightarrow> string list \<Rightarrow> tstate \<Rightarrow> (int, tstate) run" where
  "timeout_main sy argv s =
     seq (timeout_args sy argv s) (\<lambda>(op, end_time, prgargs) s.
     if sy_fork sy = -1 then Exit 1 (act (Say ''Fork failed'') s)
     else if \<not> sy_proc sy then Exit 1 (act (Say ''timeout: proc file open'') s)
     else timeout_parent (sy_fork sy) (sy_ended sy) end_time (to_suspend op) (to_quiet op) (to_name op) (sy_rounds sy) (sy_status sy) (sy_junk sy) s)"

text \<open>The child: the entry in the journal, under the given name or that of the command, and the command it becomes.\<close>

definition timeout_child :: "io_env \<Rightarrow> bool \<Rightarrow> timeout_opts \<Rightarrow> string list \<Rightarrow> process \<Rightarrow> (string list, process) run" where
  "timeout_child env exec_ok op prgargs s =
     seq (if \<not> to_quiet op then stf_jnl_testcase_start env (case to_name op of None \<Rightarrow> hd prgargs | Some n \<Rightarrow> n) s else Ret () s) (\<lambda>_ s.
     if exec_ok then Ret prgargs s
     else Exit 1 (perror (''exec file is: '' @ hd prgargs @ ''\<newline>'') (perror ''timeout: exec failed'' s)))"

section \<open>stf_jnl_context\<close>

record context_sys =
  cs_pipe :: "nat \<Rightarrow> bool"
  cs_fork :: int
  cs_proc :: bool
  cs_rounds :: "round list"
  cs_rest :: "nat \<Rightarrow> string list"
  cs_waits :: "(int \<times> u32) list"

text \<open>The writes to the journal, whose results are ignored.\<close>

fun jnl_writes :: "io_env \<Rightarrow> int \<Rightarrow> string list \<Rightarrow> process \<Rightarrow> (unit, process) run" where
  "jnl_writes env fd [] s = Ret () s"
| "jnl_writes env fd (t # ts) s = seq (write_fd env fd t s) (\<lambda>_ s. jnl_writes env fd ts s)"

text \<open>What the program prints on standard output is written when it ends.\<close>

definition context_said :: "ctx \<Rightarrow> process \<Rightarrow> process" where
  "context_said cx s = s\<lparr>p_stdout := p_stdout s @ concat (cx_says cx), p_errs := p_errs s @ cx_errs cx\<rparr>"

definition context_program :: "io_env \<Rightarrow> context_sys \<Rightarrow> string list \<Rightarrow> process \<Rightarrow> (int, process) run" where
  "context_program env sy argv s =
     (if length argv < 1 then Ret 1 (perror ''Usage: jnl_context command\<newline>'' s)
      else if \<not> cs_pipe sy 0 \<or> \<not> cs_pipe sy 1 then Ret 1 (perror ''jnl_context: pipe'' s)
      else
        seq (stf_jnl_open env s) (\<lambda>jnl_con_fd s.
        if cs_fork sy = -1 then Ret 1 (perror ''jnl_context: fork failed.\<newline>'' (perror ''Fork failed'' s))
        else if \<not> cs_proc sy then Ret 1 (perror ''proc file open'' s)
        else case context_main (cs_fork sy) (cs_rounds sy) (cs_rest sy 0) (cs_rest sy 1) (cs_waits sy) ctx_start of
            Ret r cx \<Rightarrow> seq (jnl_writes env jnl_con_fd (cx_jnl cx) s) (\<lambda>_ s. Ret r (context_said cx s))
          | Exit c cx \<Rightarrow> seq (jnl_writes env jnl_con_fd (cx_jnl cx) s) (\<lambda>_ s. Exit c (context_said cx s))
          | Stuck \<Rightarrow> Stuck))"

text \<open>
  The child up to the command it becomes: a process group of its own, standard output and standard error on the two
  pipes, no other descriptor above standard error. When the command cannot be run, the message goes to the error pipe.
\<close>

datatype child_fd = Inherited fdesc | Pipe_out | Pipe_err

record ctx_child =
  ch_leader :: bool
  ch_fds :: "(nat \<times> child_fd) list"
  ch_err :: string

definition dup2 :: "child_fd \<Rightarrow> nat \<Rightarrow> ctx_child \<Rightarrow> ctx_child" where
  "dup2 x d c = c\<lparr>ch_fds := (d, x) # filter (\<lambda>y. fst y \<noteq> d) (ch_fds c)\<rparr>"

definition closefrom :: "nat \<Rightarrow> ctx_child \<Rightarrow> ctx_child" where
  "closefrom low c = c\<lparr>ch_fds := filter (\<lambda>y. fst y < low) (ch_fds c)\<rparr>"

definition context_child :: "(string list \<Rightarrow> string option) \<Rightarrow> string list \<Rightarrow> process \<Rightarrow> (string list, ctx_child) run" where
  "context_child execvp argv s =
     (let c = \<lparr>ch_leader = True, ch_fds = map (\<lambda>(d, x). (d, Inherited x)) (p_fds s), ch_err = []\<rparr>;
          c = closefrom 3 (dup2 Pipe_err 2 (dup2 Pipe_out 1 c))
      in case execvp (tl argv) of
           None \<Rightarrow> Ret (tl argv) c
         | Some e \<Rightarrow> Exit 1 (c\<lparr>ch_err := ''jnl_context: exec failed: '' @ e @ ''\<newline>''\<rparr>))"

text \<open>
  The handler of the four signals, with the signals sent so far: the command's group is told to hang up and the
  program goes on; before there is a command it ends. At its end the program kills the group.
\<close>

definition SIGHUP :: int where "SIGHUP = 1"
definition SIGKILL :: int where "SIGKILL = 9"

definition context_goodbye :: "int \<Rightarrow> (int \<times> int) list \<Rightarrow> (unit, (int \<times> int) list) run" where
  "context_goodbye test_pid kills = (if test_pid > 0 then Ret () (kills @ [(- test_pid, SIGHUP)]) else Exit 1 kills)"

definition context_finish :: "int \<Rightarrow> u32 \<Rightarrow> (int \<times> int) list \<Rightarrow> int \<times> (int \<times> int) list" where
  "context_finish test_pid status kills =
     (if WIFEXITED status then WEXITSTATUS status else sint status, kills @ [(- test_pid, SIGKILL)])"

text \<open>What the command inherits: its output reaches the pipes only, and the journal is not open in it.\<close>

lemma context_child_fds:
  assumes "context_child execvp argv s = Ret cmd c"
  shows "map_of (ch_fds c) 1 = Some Pipe_out" "map_of (ch_fds c) 2 = Some Pipe_err" "fst ` set (ch_fds c) \<subseteq> {0, 1, 2}"
    "(0, Inherited x) \<in> set (ch_fds c) \<Longrightarrow> (0, x) \<in> set (p_fds s)"
  using assms by (auto simp: context_child_def dup2_def closefrom_def Let_def split: option.splits)

end
