(* ===== verification/Timeout_Spec.thy ===== *)
theory Timeout_Spec
  imports Stf_Timeout
begin

text \<open>
  The properties of \<^verbatim>\<open>stf_timeout.c\<close>: limits are read as they are written, the command is ended when the
  limit is over and not before, and the exit status says which of the two happened.
\<close>

section \<open>Limits\<close>

lemma parse_value_unit:
  assumes "int n \<le> lmax"
  shows "parse_value lmax (numeral_in 10 n @ CHR ''h'' # r) u = (int n, r, Some hours, [])"
    "parse_value lmax (numeral_in 10 n @ CHR ''m'' # r) u = (int n, r, Some minutes, [])"
    "parse_value lmax (numeral_in 10 n @ CHR ''s'' # r) u = (int n, r, Some seconds, [])"
    "parse_value lmax (numeral_in 10 n) u = (int n, [], Some none, [])"
  using strtol_number [OF assms, of "CHR ''h'' # r"] strtol_number [OF assms, of "CHR ''m'' # r"]
    strtol_number [OF assms, of "CHR ''s'' # r"] strtol_number [OF assms, of "[]"]
  by (simp_all add: parse_value_def is_digit_def)

lemma parse_value_end: "parse_value lmax [] u = (0, [], Some none, [])"
  by (simp add: parse_value_def strtol_def)

text \<open>The ways to write a limit: hours, minutes and seconds in this order, each of them optional.\<close>

fun limit_part :: "char \<Rightarrow> nat option \<Rightarrow> string" where
  "limit_part c None = []"
| "limit_part c (Some n) = numeral_in 10 n @ [c]"

fun amount :: "nat option \<Rightarrow> nat" where
  "amount None = 0"
| "amount (Some n) = n"

definition limit_text :: "nat option \<Rightarrow> nat option \<Rightarrow> nat option \<Rightarrow> string" where
  "limit_text h m s = limit_part (CHR ''h'') h @ limit_part (CHR ''m'') m @ limit_part (CHR ''s'') s"

definition limit_value :: "nat option \<Rightarrow> nat option \<Rightarrow> nat option \<Rightarrow> nat" where
  "limit_value h m s = 3600 * amount h + 60 * amount m + amount s"

text \<open>
  Every limit of the form 3h23m45s, with parts left out or not, is read as the number of seconds it
  stands for, as long as that number is a \<^verbatim>\<open>long\<close>; the only message is that for a limit of 0.
\<close>

theorem timeout_limit_read:
  assumes "int (limit_value h m s) \<le> lmax"
  shows "parse_timeout lmax (limit_text h m s) = Some (int (limit_value h m s),
    if limit_value h m s = 0 then [''duration <'' @ limit_text h m s @ ''> is 0\<newline>''] else [])"
proof -
  have f: "fits lmax x = Some x" if "0 \<le> x" "x \<le> int (limit_value h m s)" for x
    using that assms by (simp add: fits_def)
  have n: "int (amount h) \<le> lmax" "int (amount m) \<le> lmax" "int (amount s) \<le> lmax" using assms by (auto simp: limit_value_def)
  note P = parse_value_unit parse_value_end
  show ?thesis
  proof (cases h; cases m; cases s)
  qed (use n f in \<open>simp_all add: parse_timeout_def limit_stage_def limit_text_def P limit_value_def\<close>)
qed

theorem timeout_limit_read_witness:
  "parse_timeout 2147483647 ''3h23m45s'' = Some (12225, []) \<and> parse_timeout 2147483647 ''90m'' = Some (5400, [])"
proof -
  have N: "numeral_in 10 3 = ''3''" "numeral_in 10 23 = ''23''" "numeral_in 10 45 = ''45''" "numeral_in 10 90 = ''90''"
    by (simp_all add: numeral_in.simps)
  have t: "limit_text (Some 3) (Some 23) (Some 45) = ''3h23m45s''" "limit_text None (Some 90) None = ''90m''"
    by (simp_all add: limit_text_def N)
  have v: "limit_value (Some 3) (Some 23) (Some 45) = 12225" "limit_value None (Some 90) None = 5400"
    by (simp_all add: limit_value_def)
  show ?thesis using timeout_limit_read [of "Some 3" "Some 23" "Some 45" 2147483647] timeout_limit_read [of None "Some 90" None 2147483647]
    unfolding t v by simp
qed

section \<open>Waiting\<close>

lemma cdiv_negative: "a \<le> - NANOSEC \<Longrightarrow> cdiv a NANOSEC < 0"
proof -
  assume a: "a \<le> - NANOSEC"
  then have "1 \<le> \<bar>a\<bar> div NANOSEC" using zdiv_mono1 [of NANOSEC "\<bar>a\<bar>" NANOSEC] by (simp add: NANOSEC_def)
  then show ?thesis using a by (simp add: cdiv_def NANOSEC_def)
qed

lemma cdiv_range:
  assumes "INT_MIN * NANOSEC \<le> a" "a \<le> 2147483 * NANOSEC"
  shows "INT_MIN \<le> cdiv a NANOSEC" "cdiv a NANOSEC * 1000 \<le> INT_MAX"
proof -
  have "a div NANOSEC \<le> 2147483" "(- a) div NANOSEC \<le> - INT_MIN"
    using assms by (simp_all add: NANOSEC_def INT_MIN_def)
  then show "INT_MIN \<le> cdiv a NANOSEC" "cdiv a NANOSEC * 1000 \<le> INT_MAX"
    by (auto simp: cdiv_def NANOSEC_def INT_MIN_def INT_MAX_def)
qed

definition past :: "int \<Rightarrow> tround \<Rightarrow> bool" where
  "past timeout_end rd \<longleftrightarrow> timeout_end + NANOSEC \<le> tr_now rd \<and> tr_now rd \<le> tr_later rd"

definition quiet_round :: "int \<Rightarrow> tround \<Rightarrow> bool" where
  "quiet_round timeout_end rd \<longleftrightarrow> tr_poll rd \<noteq> -1 \<and> INT_MIN * NANOSEC \<le> timeout_end - tr_now rd \<and>
     timeout_end - tr_now rd \<le> 2147483 * NANOSEC"

lemma wake_up_timed_out: "ts_timed_out (wake_up pid ended s)"
proof -
  have "ts_timed_out (reap_loop ended i k s) = ts_timed_out s" for i k s
    by (induction k arbitrary: i s) (simp_all add: act_def)
  then show ?thesis by (simp add: wake_up_def clean_kill_def act_def)
qed

text \<open>
  The wait ends: when the clock has passed the limit by a second at the latest, if \<^verbatim>\<open>poll\<close> does not
  fail and the limit is below 2147484 seconds. The command counts as timed out only if the limit was over
  and it is not to be suspended.
\<close>

theorem timeout_wait_ends:
  assumes "\<exists>rd\<in>set rds. past timeout_end rd" "\<And>rd. rd \<in> set rds \<Longrightarrow> quiet_round timeout_end rd" "\<not> ts_timed_out s"
  shows "returns (poll_process pid ended timeout_end suspendflag rds s) (\<lambda>_ s'.
    ts_timed_out s' \<longrightarrow> \<not> suspendflag \<and> (\<exists>rd\<in>set rds. timeout_end \<le> tr_later rd))"
  using assms
proof (induction rds)
  case Nil
  then show ?case by simp
next
  case (Cons rd rds)
  let ?t = "cdiv (timeout_end - tr_now rd) NANOSEC"
  have q: "quiet_round timeout_end rd" using Cons.prems(2) by simp
  have r: "\<not> (?t < INT_MIN \<or> ?t * 1000 > INT_MAX)"
    using cdiv_range [of "timeout_end - tr_now rd"] q by (auto simp: quiet_round_def)
  have poll: "tr_poll rd \<noteq> -1" using q by (simp add: quiet_round_def)
  define Q where "Q = (\<lambda>(_::unit) (s'::tstate). ts_timed_out s' \<longrightarrow> \<not> suspendflag \<and> (\<exists>rd\<in>set (rd # rds). timeout_end \<le> tr_later rd))"
  have Q: "Q () s'" if "\<not> ts_timed_out s'" for s' using that by (simp add: Q_def)
  have W: "Q () s'" if "\<not> suspendflag" "timeout_end \<le> tr_later rd" for s' using that by (simp add: Q_def)
  have act: "ts_timed_out (act a s) = ts_timed_out s" for a by (simp add: act_def)
  have "returns (poll_process pid ended timeout_end suspendflag (rd # rds) s) Q"
  proof (cases "past timeout_end rd")
    case True
    then have "?t < 0" by (intro cdiv_negative) (simp add: past_def)
    moreover have "\<not> timeout_end - tr_later rd > 0" using True by (simp add: past_def NANOSEC_def)
    ultimately show ?thesis using r Cons.prems(3) by (auto simp: Let_def act intro: Q W)
  next
    case False
    have rest: "returns (poll_process pid ended timeout_end suspendflag rds s) Q"
      by (rule returns_mono [OF Cons.IH]) (use Cons.prems False in \<open>auto simp: Q_def\<close>)
    show ?thesis using r poll rest Cons.prems(3) unfolding poll_process.simps Let_def
      by (auto simp: act split: event.split intro: Q W)
  qed
  then show ?case unfolding Q_def .
qed

theorem timeout_wait_ends_witness:
  "returns (poll_process 7 (\<lambda>_. True) 0 False [\<lparr>tr_now = 1000000000, tr_poll = 0, tr_errno = (0, []), tr_event = OTHER, tr_later = 1000000001\<rparr>]
     \<lparr>ts_timed_out = False, ts_reaped = False, ts_acts = []\<rparr>) (\<lambda>_ s'. True)"
  by (rule returns_mono [OF timeout_wait_ends]) (simp_all add: past_def quiet_round_def NANOSEC_def INT_MIN_def)

section \<open>The status\<close>

lemma reap_loop_reaped: "ts_reaped (reap_loop ended i k s) \<longleftrightarrow> ts_reaped s \<or> (\<exists>j<k. ended (i + j))"
proof (induction k arbitrary: i s)
  case (Suc k)
  have "(\<exists>j<Suc k. ended (i + j)) \<longleftrightarrow> ended i \<or> (\<exists>j<k. ended (Suc i + j))"
    using Ex_less_Suc2 [of k "\<lambda>j. ended (i + j)"] by simp
  then show ?case using Suc [of "Suc i" "act (Sleep 1) s"] by (simp add: act_def)
qed simp

lemma wake_up_reaped: "ts_reaped (wake_up pid ended s) \<longleftrightarrow> ts_reaped s \<or> (\<exists>i<10. ended i)"
  by (simp add: wake_up_def clean_kill_def act_def reap_loop_reaped)

lemma poll_process_effect:
  assumes "poll_process pid ended timeout_end suspendflag rds s = Ret () s'" "\<not> ts_timed_out s"
  shows "if ts_timed_out s' then s' = wake_up pid ended s else ts_reaped s' = ts_reaped s"
  using assms
proof (induction rds)
  case (Cons rd rds)
  then show ?case using wake_up_timed_out [of pid ended s]
    by (auto simp: Let_def act_def split: if_splits event.splits)
qed simp

lemma end_status_bits:
  "WEXITSTATUS (end_status True st) = 9" "end_status True st AND 0xFF = st AND 0xFF"
proof -
  have e: "end_status True st = (st AND 0xFFFF00FF) OR 0x900" by (simp add: end_status_def TIMED_OUT_INDEX_def)
  have hi: "drop_bit 8 x AND 0xFF = drop_bit 8 (x AND 0xFF00)" for x :: u32 by (simp add: drop_bit_and)
  have "end_status True st AND 0xFF00 = 0x900"
    unfolding e by (simp add: bit.conj_disj_distrib2 and.assoc)
  then show "WEXITSTATUS (end_status True st) = 9" by (simp add: WEXITSTATUS_def hi)
  show "end_status True st AND 0xFF = st AND 0xFF"
    unfolding e by (simp add: bit.conj_disj_distrib2 and.assoc)
qed

text \<open>No round behind one that begins a second after the limit is looked at.\<close>

lemma poll_process_stops:
  assumes "past timeout_end rd"
  shows "poll_process pid ended timeout_end suspendflag (xs @ rd # ys) s = poll_process pid ended timeout_end suspendflag (xs @ [rd]) s"
proof (induction xs)
  case Nil
  have "cdiv (timeout_end - tr_now rd) NANOSEC < 0" by (rule cdiv_negative) (use assms in \<open>simp add: past_def\<close>)
  moreover have "\<not> timeout_end - tr_later rd > 0" using assms by (simp add: past_def NANOSEC_def)
  ultimately show ?case by (simp add: Let_def)
next
  case (Cons x xs)
  then show ?case by (simp add: Let_def split: event.split)
qed

text \<open>The seconds that were slept, from what was done.\<close>

fun slept :: "action list \<Rightarrow> nat" where
  "slept [] = 0"
| "slept (Sleep n # as) = n + slept as"
| "slept (_ # as) = slept as"

lemma slept_append [simp]: "slept (as @ bs) = slept as + slept bs"
  by (induction as rule: slept.induct) simp_all

lemma reap_loop_slept:
  "slept (ts_acts s) \<le> slept (ts_acts (reap_loop ended i k s)) \<and> slept (ts_acts (reap_loop ended i k s)) \<le> slept (ts_acts s) + k"
proof (induction k arbitrary: i s)
  case (Suc k)
  show ?case using Suc [of "act (Sleep 1) s" "Suc i"] by (auto simp: act_def)
qed simp

lemma wake_up_slept:
  "slept (ts_acts s) + 3 \<le> slept (ts_acts (wake_up pid ended s))" "slept (ts_acts (wake_up pid ended s)) \<le> slept (ts_acts s) + 13"
  using reap_loop_slept [of "act Hangup (act (Say (''\<newline>process '' @ dec pid @ '' - timed out\<newline>'')) (s\<lparr>ts_timed_out := True\<rparr>))" ended 0 10]
  by (simp_all add: wake_up_def clean_kill_def act_def)

lemma poll_process_slept:
  assumes "poll_process pid ended timeout_end suspendflag rds s = Ret () s'" "\<not> ts_timed_out s" "\<not> ts_timed_out s'"
  shows "slept (ts_acts s') = slept (ts_acts s)"
  using assms
proof (induction rds)
  case (Cons rd rds)
  then show ?case using wake_up_timed_out [of pid ended s]
    by (auto simp: Let_def act_def split: if_splits event.splits)
qed simp

text \<open>
  The exit status is 9, \<^verbatim>\<open>TIMED_OUT\<close>, for a command that was timed out and that of the command
  otherwise; the entry in the journal keeps the signal of the status. But a command that ends within ten
  seconds of the hangup signal has its status taken away by the first wait: the entry then has the process
  number -1 and the signal that happened to be in the variable. If its status was not taken away and it never ends, the
  program never returns.
\<close>

theorem timeout_status_reported:
  assumes "poll_process pid ended timeout_end suspend rds s = Ret () s'" "\<not> ts_timed_out s" "\<not> ts_reaped s"
  shows "if status = None \<and> \<not> (ts_timed_out s' \<and> (\<exists>i<10. ended i))
   then timeout_parent pid ended timeout_end suspend False name rds status junk s = Stuck
   else returns (timeout_parent pid ended timeout_end suspend False name rds status junk s) (\<lambda>r s''.
    slept (ts_acts s'') = slept (ts_acts s') \<and>
    (if ts_timed_out s'
     then r = 9 \<and> (\<exists>st. last (ts_acts s'') = TestcaseEnd name (if \<exists>i<10. ended i then -1 else pid) st \<and>
                      st AND 0xFF = (if \<exists>i<10. ended i then junk else the status) AND 0xFF)
     else r = WEXITSTATUS (the status) \<and> last (ts_acts s'') = TestcaseEnd name pid (the status)))"
proof -
  have eff: "if ts_timed_out s' then s' = wake_up pid ended s else ts_reaped s' = ts_reaped s"
    by (rule poll_process_effect [OF assms(1,2)])
  show ?thesis
  proof (cases "ts_timed_out s'")
    case True
    then have "ts_reaped s' \<longleftrightarrow> (\<exists>i<10. ended i)" using eff assms(3) wake_up_reaped [of pid ended s] by simp
    then show ?thesis using True end_status_bits by (cases status) (auto simp: timeout_parent_def assms(1) act_def Let_def)
  next
    case False
    then show ?thesis using eff assms(3) by (cases status) (simp_all add: timeout_parent_def assms(1) act_def end_status_def)
  qed
qed

theorem timeout_status_reported_witness:
  "returns (timeout_parent 7 (\<lambda>i. i = 1) 0 False False None
      [\<lparr>tr_now = 5, tr_poll = 0, tr_errno = (0, []), tr_event = OTHER, tr_later = 6\<rparr>] None 11
      \<lparr>ts_timed_out = False, ts_reaped = False, ts_acts = []\<rparr>)
    (\<lambda>r s''. r = 9 \<and> (\<exists>st. last (ts_acts s'') = TestcaseEnd None (-1) st \<and> st AND 0xFF = 11))"
  (is "returns (timeout_parent 7 ?e 0 False False None ?rds None 11 ?s) _")
proof -
  have run: "poll_process 7 ?e 0 False ?rds ?s = Ret () (wake_up 7 ?e ?s)"
    by (simp add: cdiv_def NANOSEC_def INT_MIN_def INT_MAX_def Let_def)
  have ended: "\<exists>i<10. ?e i" by (intro exI [of _ 1]) simp
  have taken: "\<not> ((None :: u32 option) = None \<and> \<not> (ts_timed_out (wake_up 7 ?e ?s) \<and> (\<exists>i<10. ?e i)))"
    using wake_up_timed_out [of 7 ?e ?s] ended by blast
  have "\<not> ts_timed_out ?s" "\<not> ts_reaped ?s" by simp_all
  from timeout_status_reported [OF run this, of None None 11, unfolded if_not_P [OF taken]] show ?thesis
    using wake_up_timed_out [of 7 ?e ?s] ended by (auto elim!: returns_mono)
qed

end
