(* ===== verification/Ctx_Spec.thy ===== *)
theory Ctx_Spec
  imports Jnl_Context Lines
begin

text \<open>
  The properties of \<^verbatim>\<open>stf_jnl_context.c\<close>: the buffer is never overrun, the lines of standard output and
  of standard error arrive whole and tagged, and journal entries pass through.
\<close>

section \<open>Lines of the two streams\<close>

definition out_line :: "string \<Rightarrow> string" where "out_line l = stdout_tag @ l @ ''\<newline>''"
definition err_line :: "string \<Rightarrow> string" where "err_line l = stderr_tag @ l @ ''\<newline>''"

lemma out_run_line:
  assumes "NL \<notin> set l" "length pd + length l < MAXCHAR"
  shows "out_run pd (l @ NL # t) = (fst (out_run [] t), out_line (pd @ l) # snd (out_run [] t))"
  using assms by (induction l arbitrary: pd) (auto simp: prod_eq_iff run_Cons out_step_def out_line_def simp del: out_run.simps(2))

lemma err_run_line:
  assumes "NL \<notin> set l"
  shows "fst (err_run tg (l @ NL # t)) = fst (err_run False t)"
    "concat (snd (err_run tg (l @ NL # t))) = (if tg then [] else stderr_tag) @ l @ NL # concat (snd (err_run False t))"
  using assms by (induction l arbitrary: tg) (auto simp: run_Cons err_step_def simp del: err_run.simps(2))

lemma whole_lines_induct [consumes 1, case_names Nil line]:
  assumes "whole t" "P []" "\<And>l t. NL \<notin> set l \<Longrightarrow> whole t \<Longrightarrow> P t \<Longrightarrow> P (l @ NL # t)"
  shows "P t"
  using assms(1)
proof (induction t rule: length_induct)
  case (1 t)
  show ?case
  proof (cases "t = []")
    case False
    then have "NL \<in> set t" using 1(2) by (metis last_in_set whole_def)
    let ?l = "takeWhile (\<lambda>c. c \<noteq> NL) t" and ?r = "tl (dropWhile (\<lambda>c. c \<noteq> NL) t)"
    have t: "t = ?l @ NL # ?r" using \<open>NL \<in> set t\<close> by (rule split_newline)
    have "length ?r < length t" using arg_cong [OF t, of length] by simp
    moreover have "whole ?r"
    proof (cases "?r = []")
      case False
      then have "last t = last ?r" using arg_cong [OF t, of last] by simp
      then show ?thesis using 1(2) \<open>t \<noteq> []\<close> by (simp add: whole_def)
    qed (simp only: whole_Nil)
    ultimately have "P ?r" using 1(1) by blast
    then have "P (?l @ NL # ?r)" using \<open>whole ?r\<close> by (intro assms(3)) (auto dest: set_takeWhileD)
    then show ?thesis unfolding t [symmetric] .
  qed (use assms(2) in simp)
qed

lemma out_run_lines:
  assumes "whole t" "\<And>l. l \<in> set (jlines t) \<Longrightarrow> length l < MAXCHAR"
  shows "out_run [] t = ([], map out_line (jlines t))"
  using assms by (induction t rule: whole_lines_induct) (simp_all add: out_run_line)

lemma err_run_lines:
  assumes "whole t"
  shows "fst (err_run False t) = False" "concat (snd (err_run False t)) = concat (map err_line (jlines t))"
  using assms by (induction t rule: whole_lines_induct) (simp_all add: err_run_line err_line_def)

section \<open>Properties\<close>

text \<open>
  C21. However the output of a command is cut into reads, standard output that consists of whole lines
  shorter than the buffer reaches the journal line by line, each line behind its tag in a single write,
  and standard error as tagged lines as well; the writes for the two streams are interleaved, but those
  of each stream stay in order and nothing is lost or repeated.
\<close>

theorem context_two_streams:
  assumes "\<And>p buf. (p, buf) \<in> set evs \<Longrightarrow> p < 2 \<and> CHR 0x00 \<notin> set buf"
    and "whole (stream 0 evs)" "whole (stream 1 evs)" "\<And>l. l \<in> set (jlines (stream 0 evs)) \<Longrightarrow> length l < MAXCHAR"
  shows "returns (feed evs ctx_start) (\<lambda>_ cx. cx_pos cx = 0 \<and>
    (\<exists>es. cx_jnl cx \<in> shuffles (map out_line (jlines (stream 0 evs))) es \<and> concat es = concat (map err_line (jlines (stream 1 evs)))))"
proof -
  have st: "pending ctx_start = []" "\<not> cx_jnl_entry ctx_start" "cx_err_tagged ctx_start = False" "cx_jnl ctx_start = []"
    by (simp_all add: ctx_start_def pending_def)
  show ?thesis
  proof (rule returns_mono [OF feed_shuffled [OF ctx_start_ok st(2) assms(1)]])
    fix r cx
    assume A: "shuffled evs ctx_start cx"
    have "pending cx = []" "ctx_ok cx" using A out_run_lines [OF assms(2,4)] by (simp_all add: shuffled_def st)
    moreover have "cx_jnl cx \<in> shuffles (map out_line (jlines (stream 0 evs))) (snd (err_run False (stream 1 evs)))"
      using A out_run_lines [OF assms(2,4)] by (auto simp: shuffled_def st)
    ultimately show "cx_pos cx = 0 \<and> (\<exists>es. cx_jnl cx \<in> shuffles (map out_line (jlines (stream 0 evs))) es \<and>
        concat es = concat (map err_line (jlines (stream 1 evs))))"
      using err_run_lines(2) [OF assms(3)] ctx_ok_idle [of cx] by auto
  qed
qed

theorem context_two_streams_witness:
  "returns (feed [(0, ''a''), (1, ''x\<newline>''), (0, ''b\<newline>'')] ctx_start) (\<lambda>_ cx.
     \<exists>es. cx_jnl cx \<in> shuffles [''stdout| ab\<newline>''] es \<and> concat es = ''stderr| x\<newline>'')"
proof -
  let ?evs = "[(0, ''a''), (1, ''x\<newline>''), (0, ''b\<newline>'')] :: (nat \<times> string) list"
  have s: "stream 0 ?evs = ''ab\<newline>''" "stream 1 ?evs = ''x\<newline>''" by simp_all
  have l: "jlines ''ab\<newline>'' = [''ab'']" "jlines ''x\<newline>'' = [''x'']" by (simp_all add: jlines.simps)
  have "returns (feed ?evs ctx_start) (\<lambda>_ cx. cx_pos cx = 0 \<and>
    (\<exists>es. cx_jnl cx \<in> shuffles (map out_line (jlines (stream 0 ?evs))) es \<and> concat es = concat (map err_line (jlines (stream 1 ?evs)))))"
    by (rule context_two_streams) (auto simp: whole_def l MAXCHAR_def)
  then show ?thesis unfolding s l by (rule returns_mono) (auto simp: out_line_def err_line_def stdout_tag_def stderr_tag_def)
qed

text \<open>
  Once a pipe is closed, whatever the command has written and however it was cut into reads, the program leaves its loop.
  If the final reads of both pipes come to an end and the command ends, it returns the exit status of the command, and the
  pointer into the line buffer has stayed inside of it. If one of them does not, it waits for ever.
\<close>

theorem context_returns:
  assumes "\<exists>rd\<in>set rds. hangs_up rd" "[] \<in> set rest0" "[] \<in> set rest1" "wait_for test_pid waits = Some status"
  shows "returns (context_main test_pid rds rest0 rest1 waits ctx_start) (\<lambda>r cx. cx_pos cx < OUTSIZE \<and>
    r = (if WIFEXITED status then WEXITSTATUS status else sint status))"
  unfolding context_main_def returns_seq
proof (rule returns_mono [OF read_pipe_ok [OF ctx_start_ok assms(1)]], rule returns_mono [OF drain_ok [OF _ _ assms(2)]], assumption, simp,
    rule returns_mono [OF drain_ok [OF _ _ assms(3)]], assumption, simp)
  fix cx
  assume "ctx_ok cx"
  then show "returns (let cx = flush_end cx in case wait_for test_pid waits of None \<Rightarrow> Stuck
       | Some status \<Rightarrow> Ret (if WIFEXITED status then WEXITSTATUS status else sint status) cx)
     (\<lambda>r cx. cx_pos cx < OUTSIZE \<and> r = (if WIFEXITED status then WEXITSTATUS status else sint status))"
    by (simp add: ctx_ok_room flush_end_ok assms(4))
qed

lemma context_waits:
  assumes "\<exists>rd\<in>set rds. hangs_up rd" "[] \<notin> set rest0 \<or> [] \<notin> set rest1 \<or> wait_for test_pid waits = None"
  shows "context_main test_pid rds rest0 rest1 waits ctx_start = Stuck"
proof -
  obtain c0 where c0: "read_pipe rds no_events ctx_start = Ret () c0" "ctx_ok c0"
    using read_pipe_ok [OF ctx_start_ok assms(1), of no_events] by (auto simp: returns_def)
  show ?thesis
  proof (cases "[] \<in> set rest0")
    case True
    then obtain c1 where c1: "drain 0 rest0 c0 = Ret () c1" "ctx_ok c1" using drain_ok [OF c0(2), of 0 rest0] by (auto simp: returns_def)
    show ?thesis
    proof (cases "[] \<in> set rest1")
      case True
      then obtain c2 where "drain 1 rest1 c1 = Ret () c2" using drain_ok [OF c1(2), of 1 rest1] by (auto simp: returns_def)
      then show ?thesis using assms(2) \<open>[] \<in> set rest0\<close> True c0 c1 by (simp add: context_main_def)
    next
      case False
      then show ?thesis using drain_blocks [OF c1(2), of 1 rest1] c0 c1 by (simp add: context_main_def)
    qed
  next
    case False
    then show ?thesis using drain_blocks [OF c0(2), of 0 rest0] c0 by (simp add: context_main_def)
  qed
qed

theorem context_returns_witness:
  "returns (context_main 7 [\<lparr>rd_poll = 1, rd_poll_proc = 0, rd_pipe = (\<lambda>_. \<lparr>rv_err = False, rv_in = True, rv_hup = True\<rparr>), rd_proc = no_events,
       rd_data = (\<lambda>_. ''out''), rd_errno = 0\<rparr>] [[]] [''err'', []] [(7, 0x300)] ctx_start) (\<lambda>r cx. r = 3)"
  (is "returns (context_main 7 [?rd] _ _ _ _) _")
proof -
  have "hangs_up ?rd" by (simp add: hangs_up_def)
  then have "\<exists>rd\<in>set [?rd]. hangs_up rd" by simp
  from context_returns [OF this, of "[[]]" "[''err'', []]" 7 "[(7, 0x300)]" "0x300"] show ?thesis
    by (auto simp: WIFEXITED_def WEXITSTATUS_def elim!: returns_mono)
qed

text \<open>
  A journal entry of the command, marked by a null character, reaches the journal as it is, on a
  line of its own; a line of standard output that is not finished yet waits.
\<close>

theorem context_entry_passes:
  assumes "\<not> cx_jnl_entry cx" "CHR 0x00 \<notin> set e" "NL \<notin> set e"
  shows "returns (write_pipe 0 (CHR 0x00 # e @ ''\<newline>'') cx) (\<lambda>_ cx'.
    concat (cx_jnl cx') = concat (cx_jnl cx) @ (if cx_cr_needed cx then ''\<newline>'' else []) @ e @ ''\<newline>'' \<and>
    pending cx' = pending cx \<and> \<not> cx_jnl_entry cx' \<and> \<not> cx_cr_needed cx')"
  using assms by (simp add: entry_begin write_pipe_append write_entry entry_end concat_singletons pending_def)

theorem context_entry_passes_witness:
  "returns (write_pipe 0 (CHR 0x00 # ''Msg| 1 | hi'' @ ''\<newline>'') ctx_start) (\<lambda>_ cx'. concat (cx_jnl cx') = ''Msg| 1 | hi\<newline>'')"
  by (rule returns_mono [OF context_entry_passes]) (simp_all add: ctx_start_def)

text \<open>
  C23. The mark of a journal entry belongs to both pipes: standard error that is read before the end of an
  entry is written into the entry without its tag, its newline ends the entry, and the rest of the entry
  comes out as a line of standard output.
\<close>

theorem context_entry_torn:
  assumes "ctx_ok cx" "pending cx = []" "\<not> cx_cr_needed cx" "\<And>x. x \<in> {a, b, c} \<Longrightarrow> CHR 0x00 \<notin> set x \<and> NL \<notin> set x" "length c < MAXCHAR"
  shows "returns (feed [(0, CHR 0x00 # a), (1, b @ ''\<newline>''), (0, c @ ''\<newline>'')] cx) (\<lambda>_ cx'.
    concat (cx_jnl cx') = concat (cx_jnl cx) @ a @ b @ ''\<newline>'' @ out_line c)"
proof -
  have abc: "CHR 0x00 \<notin> set a" "NL \<notin> set a" "CHR 0x00 \<notin> set b" "NL \<notin> set b" "CHR 0x00 \<notin> set c" "NL \<notin> set c"
    using assms(4) by auto
  let ?cx = "cx\<lparr>cx_jnl_entry := False, cx_cr_needed := False, cx_jnl := cx_jnl cx @ map (\<lambda>c. [c]) (a @ b) @ [''\<newline>'']\<rparr>"
  have r1: "write_pipe 0 (CHR 0x00 # a) cx = Ret () (cx\<lparr>cx_jnl_entry := True, cx_cr_needed := False, cx_jnl := cx_jnl cx @ map (\<lambda>c. [c]) a\<rparr>)"
    (is "_ = Ret () ?cx1") using abc assms(3) by (simp add: entry_begin write_entry)
  have "write_pipe 1 (b @ ''\<newline>'') ?cx1 = Ret () (?cx1\<lparr>cx_cr_needed := False, cx_jnl := cx_jnl cx @ map (\<lambda>c. [c]) (a @ b) @ [''\<newline>''], cx_jnl_entry := False\<rparr>)"
    using abc by (simp add: write_pipe_append write_entry entry_end)
  then have r2: "write_pipe 1 (b @ ''\<newline>'') ?cx1 = Ret () ?cx" by (cases cx) simp
  have st: "feed [(0, CHR 0x00 # a), (1, b @ ''\<newline>''), (0, c @ ''\<newline>'')] cx = seq (write_pipe 0 (c @ ''\<newline>'') ?cx) (\<lambda>_ cx. feed [] cx)"
    by (simp only: feed.simps(2) r1 r2 seq.simps)
  have ok: "ctx_ok ?cx" "pending ?cx = []" using assms(1,2) by simp_all
  have "out_run [] (c @ NL # []) = ([], [out_line c])" using out_run_line [OF abc(6), of "[]" "[]"] assms(5) by simp
  then have "returns (write_pipe 0 (c @ ''\<newline>'') ?cx) (\<lambda>_ cx'. cx_jnl cx' = cx_jnl ?cx @ [out_line c])"
    using write_pipe_out [OF ok(1), of "c @ ''\<newline>''"] abc(5) by (auto simp: assms(2) elim!: returns_mono)
  then show ?thesis unfolding st returns_seq by (rule returns_mono) (simp add: concat_singletons)
qed

theorem context_entry_torn_witness:
  "returns (feed [(0, CHR 0x00 # ''Msg| 1 | a''), (1, ''oops'' @ ''\<newline>''), (0, ''b'' @ ''\<newline>'')] ctx_start) (\<lambda>_ cx'.
    concat (cx_jnl cx') = ''Msg| 1 | aoops\<newline>stdout| b\<newline>'')"
  by (rule returns_mono [OF context_entry_torn])
    (auto simp: ctx_start_def pending_def ctx_ok_def MAXCHAR_def out_line_def stdout_tag_def)

end
