(* ===== verification/Programs_Spec.thy ===== *)
theory Programs_Spec
  imports Programs Timeout_Spec Ctx_Spec Stf_Spec
begin

text \<open>
  The two programs from their command line to their exit status: \<^verbatim>\<open>stf_timeout\<close> reads its limit, waits and reports;
  \<^verbatim>\<open>stf_jnl_context\<close> leaves in the journal what its machine wrote.
\<close>

section \<open>stf_timeout\<close>

lemma limit_part_operand: "limit_part c v = [] \<or> is_digit (hd (limit_part c v))"
  using numeral_in_digits [of "hd (numeral_in 10 n)" n for n] numeral_in_nonempty
  by (cases v) (auto simp: hd_append)

lemma limit_text_operand: "limit_text h m s = [] \<or> is_digit (hd (limit_text h m s))"
  using limit_part_operand [of "CHR ''h''" h] limit_part_operand [of "CHR ''m''" m] limit_part_operand [of "CHR ''s''" s]
  by (auto simp: limit_text_def hd_append)

lemma getopt_operand: "a = [] \<or> is_digit (hd a) \<Longrightarrow> getopt opts [] (a # args) = ([], a # args)"
  by (cases a) (auto simp: is_digit_def)

text \<open>The command line with a limit, for a process with or without the two options.\<close>

definition timeout_line :: "string \<Rightarrow> bool \<Rightarrow> string option \<Rightarrow> string \<Rightarrow> string list \<Rightarrow> string list" where
  "timeout_line prog susp name limit cmd =
     [prog] @ (if susp then [''-s''] else []) @ (case name of None \<Rightarrow> [] | Some n \<Rightarrow> [''-n'', n]) @ [limit] @ cmd"

lemma timeout_line_options:
  assumes "limit = [] \<or> is_digit (hd limit)"
  shows "getopt ''sqn:'' [] (tl (timeout_line prog susp name limit cmd)) =
    ((if susp then [Opt CHR ''s'' None] else []) @ (case name of None \<Rightarrow> [] | Some n \<Rightarrow> [Opt CHR ''n'' (Some n)]), limit # cmd)"
  using getopt_operand [OF assms] by (auto simp: timeout_line_def split: option.splits)

lemma say_all_flags:
  "ts_timed_out (fold (\<lambda>m. act (Say m)) msgs s) = ts_timed_out s" "ts_reaped (fold (\<lambda>m. act (Say m)) msgs s) = ts_reaped s"
  "slept (ts_acts (fold (\<lambda>m. act (Say m)) msgs s)) = slept (ts_acts s)"
  by (induction msgs arbitrary: s) (simp_all add: act_def)

lemma timeout_args_line:
  assumes "int (limit_value h m sec) \<le> 2147483" "INT_MAX \<le> sy_lmax sy" "0 \<le> sy_now sy" "sy_now sy \<le> 2 ^ 62" "cmd \<noteq> []"
  shows "returns (timeout_args sy (timeout_line prog susp name (limit_text h m sec) cmd) s) (\<lambda>r s'.
    r = (\<lparr>to_suspend = susp \<or> sy_suspend sy, to_quiet = False, to_name = name\<rparr>, sy_now sy + int (limit_value h m sec) * NANOSEC, cmd) \<and>
    ts_timed_out s' = ts_timed_out s \<and> ts_reaped s' = ts_reaped s \<and> slept (ts_acts s') = slept (ts_acts s))"
proof -
  let ?v = "int (limit_value h m sec)"
  have "?v \<le> sy_lmax sy" using assms(1,2) by (simp add: INT_MAX_def)
  then obtain msgs where limit: "parse_timeout (sy_lmax sy) (limit_text h m sec) = Some (?v, msgs)"
    using timeout_limit_read [of h m sec "sy_lmax sy"] by blast
  have fit: "fits LLONG_MAX (?v * NANOSEC) \<noteq> None" "fits LLONG_MAX (sy_now sy + ?v * NANOSEC) \<noteq> None"
    using assms(1,3,4) by (auto simp: fits_def LLONG_MAX_def NANOSEC_def)
  define os where "os = (if susp then [Opt CHR ''s'' None] else []) @ (case name of None \<Rightarrow> [] | Some n \<Rightarrow> [Opt CHR ''n'' (Some n)])"
  note line = timeout_line_options [OF limit_text_operand, of prog susp name h m sec cmd, folded os_def]
  have op: "fold to_option os \<lparr>to_suspend = sy_suspend sy, to_quiet = False, to_name = None\<rparr> = \<lparr>to_suspend = susp \<or> sy_suspend sy, to_quiet = False, to_name = name\<rparr>"
    by (cases name) (auto simp: os_def)
  have "\<not> length (timeout_line prog susp name (limit_text h m sec) cmd) < 2" using assms(5) by (simp add: timeout_line_def)
  then show ?thesis using assms(5) fit
    by (auto simp: timeout_args_def line limit op say_all_flags Let_def)
qed

text \<open>
  C24. A command line of options, a limit of up to 2147483 seconds, however it is written, and a command; \<^verbatim>\<open>poll\<close> does not fail. The
  loop that waits for the command ends with the first round that begins a second after the limit, at the latest: no later
  round is looked at. It times the command out only if the limit was over and suspending was not asked for, and then
  sleeps 3 to 13 seconds more while it kills the command; otherwise it sleeps not at all. Behind the loop the program waits without
  limit until the command has ended, in particular a command that is only suspended: if it never ends, and its status was not
  taken while it was killed, the program never returns. Else the status is 9, \<^verbatim>\<open>TIMED_OUT\<close>, if the command was timed out, and
  that of the command otherwise; the entry in the journal has the name given. But a command that ends within ten seconds of
  the hangup signal has its status taken away: the entry then has the process number -1 and the signal that happened to be
  in the variable.
\<close>

theorem timeout_runs_command:
  assumes "int (limit_value h m sec) \<le> 2147483" "INT_MAX \<le> sy_lmax sy" "0 \<le> sy_now sy" "sy_now sy \<le> 2 ^ 62" "cmd \<noteq> []"
    and "sy_fork sy > 0" "sy_proc sy" "\<not> ts_timed_out s" "\<not> ts_reaped s"
    and "over = sy_now sy + int (limit_value h m sec) * NANOSEC"
    and "sy_rounds sy = xs @ rd # ys" "past over rd" "\<And>rd. rd \<in> set (sy_rounds sy) \<Longrightarrow> quiet_round over rd"
    and "line = timeout_line prog susp name (limit_text h m sec) cmd"
  shows "timeout_main sy line s = timeout_main (sy\<lparr>sy_rounds := xs @ [rd]\<rparr>) line s \<and>
   (\<exists>timed. (timed \<longrightarrow> \<not> susp \<and> \<not> sy_suspend sy \<and> (\<exists>rd \<in> set (sy_rounds sy). over \<le> tr_later rd)) \<and>
    (if sy_status sy = None \<and> \<not> (timed \<and> (\<exists>i<10. sy_ended sy i)) then timeout_main sy line s = Stuck
     else returns (timeout_main sy line s) (\<lambda>r s'.
      (if timed
       then r = 9 \<and> slept (ts_acts s') \<in> {slept (ts_acts s) + 3 .. slept (ts_acts s) + 13} \<and>
            (\<exists>st. last (ts_acts s') = TestcaseEnd name (if \<exists>i<10. sy_ended sy i then -1 else sy_fork sy) st \<and>
                 st AND 0xFF = (if \<exists>i<10. sy_ended sy i then sy_junk sy else the (sy_status sy)) AND 0xFF)
       else r = WEXITSTATUS (the (sy_status sy)) \<and> slept (ts_acts s') = slept (ts_acts s) \<and>
            last (ts_acts s') = TestcaseEnd name (sy_fork sy) (the (sy_status sy))))))"
proof -
  have late: "\<exists>rd \<in> set (sy_rounds sy). past over rd" using assms(11,12) by auto
  obtain s1 where args: "timeout_args sy line s = Ret (\<lparr>to_suspend = susp \<or> sy_suspend sy, to_quiet = False, to_name = name\<rparr>, over, cmd) s1"
    and n: "\<not> ts_timed_out s1" "\<not> ts_reaped s1" and sl: "slept (ts_acts s1) = slept (ts_acts s)"
    using timeout_args_line [OF assms(1-5), of prog susp name s] assms(8-10,14) by (auto simp: returns_def)
  have args': "timeout_args (sy\<lparr>sy_rounds := xs @ [rd]\<rparr>) line s = timeout_args sy line s"
    by (cases "getopt ''sqn:'' [] (tl line)") (simp add: timeout_args_def Let_def split: option.split list.split)
  have "timeout_main sy line s = timeout_main (sy\<lparr>sy_rounds := xs @ [rd]\<rparr>) line s"
    using poll_process_stops [OF assms(12), where xs = xs and ys = ys] by (simp add: timeout_main_def args args' assms(11) timeout_parent_def)
  moreover obtain u where u: "poll_process (sy_fork sy) (sy_ended sy) over (susp \<or> sy_suspend sy) (sy_rounds sy) s1 = Ret () u"
      "ts_timed_out u \<longrightarrow> \<not> (susp \<or> sy_suspend sy) \<and> (\<exists>rd \<in> set (sy_rounds sy). over \<le> tr_later rd)"
    using timeout_wait_ends [OF late assms(13) n(1), of "sy_fork sy" "sy_ended sy" "susp \<or> sy_suspend sy"] by (auto simp: returns_def)
  have run: "timeout_main sy line s = timeout_parent (sy_fork sy) (sy_ended sy) over (susp \<or> sy_suspend sy) False name (sy_rounds sy) (sy_status sy) (sy_junk sy) s1"
    using assms(6,7) by (simp add: timeout_main_def args)
  have "slept (ts_acts u) \<in> (if ts_timed_out u then {slept (ts_acts s) + 3 .. slept (ts_acts s) + 13} else {slept (ts_acts s)})"
    using poll_process_effect [OF u(1) n(1)] poll_process_slept [OF u(1) n(1)] wake_up_slept [where s = s1 and pid = "sy_fork sy" and ended = "sy_ended sy"] sl by auto
  moreover note timeout_status_reported [OF u(1) n, where name = name and status = "sy_status sy" and junk = "sy_junk sy", folded run]
  ultimately show ?thesis using u(2) by (intro conjI exI [of _ "ts_timed_out u"]) (auto split: if_splits elim!: returns_mono)
qed

theorem timeout_runs_command_witness:
  "\<exists>r s'. timeout_main \<lparr>sy_lmax = INT_MAX, sy_suspend = False, sy_now = 0, sy_fork = 7, sy_proc = True, sy_ended = \<lambda>_. False,
      sy_rounds = [\<lparr>tr_now = 62000000000, tr_poll = 0, tr_errno = (0, []), tr_event = OTHER, tr_later = 62000000001\<rparr>],
      sy_status = Some 0x0100, sy_junk = 0\<rparr> (timeout_line ''stf_timeout'' True (Some ''t'') (limit_text None (Some 1) None) [''cmd''])
      \<lparr>ts_timed_out = False, ts_reaped = False, ts_acts = []\<rparr> = Ret r s' \<and> r = 1"
  (is "\<exists>r s'. timeout_main ?sy ?line ?s = _ \<and> _")
proof -
  let ?rd = "\<lparr>tr_now = 62000000000, tr_poll = 0, tr_errno = (0, []), tr_event = OTHER, tr_later = 62000000001\<rparr>"
  have p: "past 60000000000 ?rd" "\<And>rd. rd \<in> set (sy_rounds ?sy) \<Longrightarrow> quiet_round 60000000000 rd"
    by (simp_all add: INT_MIN_def NANOSEC_def past_def quiet_round_def)
  have "int (limit_value None (Some 1) None) \<le> 2147483" "60000000000 = sy_now ?sy + int (limit_value None (Some 1) None) * NANOSEC"
    "sy_rounds ?sy = [] @ ?rd # []" by (simp_all add: limit_value_def NANOSEC_def)
  from timeout_runs_command [OF this(1) _ _ _ _ _ _ _ _ this(2,3) p refl, where cmd = "[''cmd'']" and s = ?s and prog = "''stf_timeout''" and susp = True and name = "Some ''t''"]
  show ?thesis by (auto simp: returns_def WEXITSTATUS_def)
qed

section \<open>stf_jnl_context\<close>

lemma context_said_journal:
  "journal (context_said cx s) = journal s @ (if getenv JNLNAME s = None then concat (cx_says cx) else [])"
  "p_stdout (context_said cx s) = p_stdout s @ concat (cx_says cx)" "p_errs (context_said cx s) = p_errs s @ cx_errs cx"
  by (simp_all add: journal_def getenv_def context_said_def split: option.splits)

lemma jnl_writes_journal:
  assumes "io_calm env"
  shows "jnl_on fd s \<Longrightarrow> proc_wf s \<Longrightarrow>
    returns (jnl_writes env fd ts s) (\<lambda>_ s'. journal s' = journal s @ concat ts \<and> p_errs s' = p_errs s \<and> p_env s' = p_env s \<and>
      (getenv JNLNAME s \<noteq> None \<longrightarrow> p_stdout s' = p_stdout s))"
proof (induction ts arbitrary: s)
  case (Cons t ts)
  show ?case unfolding jnl_writes.simps returns_seq
    by (rule returns_mono [OF write_fd_journal [OF assms Cons.prems, of t]], rule returns_mono [OF Cons.IH]) (auto simp: getenv_def)
qed simp

text \<open>
  C22. The program \<^verbatim>\<open>stf_jnl_context\<close> leaves its loop once a pipe is closed, whatever the command has written and however it
  was cut into reads. If then the final reads come to the end of both pipes and a wait for the command succeeds, it ends with the
  exit status of the command; behind what the journal held before, the journal holds exactly what the machine of the program
  wrote, in that order, and the program's own messages are on standard error and standard output (which is the journal when
  none is set). If one of the pipes is never at its end, because some process keeps it open, or the command does not end,
  the program never returns.
\<close>

theorem context_program_journals:
  assumes "io_calm env" "proc_wf s" "argv \<noteq> []" "cs_pipe sy 0" "cs_pipe sy 1" "cs_fork sy \<noteq> -1" "cs_proc sy"
    and "\<exists>rd \<in> set (cs_rounds sy). hangs_up rd"
  shows "([] \<in> set (cs_rest sy 0) \<and> [] \<in> set (cs_rest sy 1) \<and> wait_for (cs_fork sy) (cs_waits sy) = Some status \<longrightarrow>
    (\<exists>cx. context_main (cs_fork sy) (cs_rounds sy) (cs_rest sy 0) (cs_rest sy 1) (cs_waits sy) ctx_start =
      Ret (if WIFEXITED status then WEXITSTATUS status else sint status) cx \<and> cx_pos cx < OUTSIZE \<and>
    returns (context_program env sy argv s) (\<lambda>r s'.
      r = (if WIFEXITED status then WEXITSTATUS status else sint status) \<and>
      journal s' = journal s @ concat (cx_jnl cx) @ (if getenv JNLNAME s = None then concat (cx_says cx) else []) \<and>
      (getenv JNLNAME s \<noteq> None \<longrightarrow> p_stdout s' = p_stdout s @ concat (cx_says cx)) \<and> p_errs s' = p_errs s @ cx_errs cx))) \<and>
   ([] \<notin> set (cs_rest sy 0) \<or> [] \<notin> set (cs_rest sy 1) \<or> wait_for (cs_fork sy) (cs_waits sy) = None \<longrightarrow>
    context_program env sy argv s = Stuck)"
proof -
  define st where "st = (if WIFEXITED status then WEXITSTATUS status else sint status)"
  have opens: "returns (stf_jnl_open env s) (opened s)" by (rule stf_jnl_open_ok [OF assms(1,2)])
  show ?thesis
  proof (rule conjI; rule impI)
    assume ends: "[] \<in> set (cs_rest sy 0) \<and> [] \<in> set (cs_rest sy 1) \<and> wait_for (cs_fork sy) (cs_waits sy) = Some status"
    obtain cx where cx: "context_main (cs_fork sy) (cs_rounds sy) (cs_rest sy 0) (cs_rest sy 1) (cs_waits sy) ctx_start = Ret st cx" "cx_pos cx < OUTSIZE"
      using context_returns [OF assms(8), of "cs_rest sy 0" "cs_rest sy 1" "cs_fork sy" "cs_waits sy" status] ends by (auto simp: returns_def st_def)
    let ?Q = "\<lambda>s'. journal s' = journal s @ concat (cx_jnl cx) @ (if getenv JNLNAME s = None then concat (cx_says cx) else []) \<and>
      (getenv JNLNAME s \<noteq> None \<longrightarrow> p_stdout s' = p_stdout s @ concat (cx_says cx)) \<and> p_errs s' = p_errs s @ cx_errs cx"
    have "returns (stf_jnl_open env s) (\<lambda>fd s1. returns (jnl_writes env fd (cx_jnl cx) s1) (\<lambda>_ s'. ?Q (context_said cx s')))"
    proof (rule returns_mono [OF opens])
      fix fd and s1 :: process
      assume o: "opened s fd s1"
      show "returns (jnl_writes env fd (cx_jnl cx) s1) (\<lambda>_ s'. ?Q (context_said cx s'))"
        using o by (intro returns_mono [OF jnl_writes_journal [OF assms(1)]]) (auto simp: opened_def context_said_journal getenv_def)
    qed
    then have "returns (context_program env sy argv s) (\<lambda>r s'. r = st \<and> ?Q s')"
      using assms(3-7) by (auto simp: context_program_def returns_seq cx(1) Suc_le_eq simp del: One_nat_def elim!: returns_mono)
    then show "\<exists>cx. context_main (cs_fork sy) (cs_rounds sy) (cs_rest sy 0) (cs_rest sy 1) (cs_waits sy) ctx_start =
      Ret (if WIFEXITED status then WEXITSTATUS status else sint status) cx \<and> cx_pos cx < OUTSIZE \<and>
     returns (context_program env sy argv s) (\<lambda>r s'. r = (if WIFEXITED status then WEXITSTATUS status else sint status) \<and>
      journal s' = journal s @ concat (cx_jnl cx) @ (if getenv JNLNAME s = None then concat (cx_says cx) else []) \<and>
      (getenv JNLNAME s \<noteq> None \<longrightarrow> p_stdout s' = p_stdout s @ concat (cx_says cx)) \<and> p_errs s' = p_errs s @ cx_errs cx)"
      using cx unfolding st_def by blast
  next
    assume waits: "[] \<notin> set (cs_rest sy 0) \<or> [] \<notin> set (cs_rest sy 1) \<or> wait_for (cs_fork sy) (cs_waits sy) = None"
    show "context_program env sy argv s = Stuck" using opens assms(3-7) context_waits [OF assms(8) waits]
      by (auto simp: context_program_def returns_def Suc_le_eq simp del: One_nat_def)
  qed
qed

text \<open>A command that writes three characters and ends with status 3.\<close>

definition short_command :: context_sys where
  "short_command = \<lparr>cs_pipe = \<lambda>_. True, cs_fork = 7, cs_proc = True,
      cs_rounds = [\<lparr>rd_poll = 1, rd_poll_proc = 0, rd_pipe = (\<lambda>_. \<lparr>rv_err = False, rv_in = True, rv_hup = True\<rparr>), rd_proc = no_events,
        rd_data = (\<lambda>_. ''out''), rd_errno = 0\<rparr>], cs_rest = \<lambda>_. [[]], cs_waits = [(7, 0x300)]\<rparr>"

theorem context_program_journals_witness:
  "returns (context_program calm_io short_command [''jnl_context'', ''cmd''] sh_proc) (\<lambda>r s'. r = 3)"
proof -
  have h: "\<exists>rd \<in> set (cs_rounds short_command). hangs_up rd" by (simp add: hangs_up_def short_command_def)
  have ok: "[''jnl_context'', ''cmd''] \<noteq> []" "cs_pipe short_command 0" "cs_pipe short_command 1" "cs_fork short_command \<noteq> -1" "cs_proc short_command"
    by (simp_all add: short_command_def)
  have w: "[] \<in> set (cs_rest short_command 0) \<and> [] \<in> set (cs_rest short_command 1) \<and>
      wait_for (cs_fork short_command) (cs_waits short_command) = Some 0x300" by (simp add: short_command_def)
  from context_program_journals [OF calm_io sh_proc(1) ok h, of "0x300", THEN conjunct1, THEN mp, OF w] show ?thesis
    by (elim exE conjE) (erule returns_mono, simp add: WIFEXITED_def WEXITSTATUS_def)
qed

end
