(* ===== verification/Log_Api.thy ===== *)
theory Log_Api
  imports Stf_Journal
begin

text \<open>
  The log library \<^verbatim>\<open>liblogapi.c\<close>, with which a test program reports what it does: lines with the time
  of day and a label on standard output, and an end of the process with one of the result codes of
  \<^verbatim>\<open>stf.h\<close>, before which a registered cleanup function is called.

  The cleanup functions belong to the test program and are arguments of the model, as what the calls of
  function pointer \<open>k\<close> do. They may call the library again.
\<close>

section \<open>The remaining result codes of stf.h\<close>

definition STF_FAIL :: int where "STF_FAIL = 1"
definition STF_UNRESOLVED :: int where "STF_UNRESOLVED = 2"
definition STF_NOTINUSE :: int where "STF_NOTINUSE = 3"
definition STF_UNSUPPORTED :: int where "STF_UNSUPPORTED = 4"
definition STF_UNTESTED :: int where "STF_UNTESTED = 5"
definition STF_UNINITIATED :: int where "STF_UNINITIATED = 6"
definition STF_WARNING :: int where "STF_WARNING = 8"

lemmas stf_results = stf_codes STF_FAIL_def STF_UNRESOLVED_def STF_NOTINUSE_def STF_UNSUPPORTED_def
  STF_UNTESTED_def STF_UNINITIATED_def STF_WARNING_def

section \<open>Printing\<close>

definition MAX_MSGSIZE :: nat where "MAX_MSGSIZE = 256"

datatype label = LBL_ASSERTION | LBL_NOTE | LBL_ERROR | LBL_SUCCESS

fun msglabel :: "label \<Rightarrow> string" where
  "msglabel LBL_ASSERTION = ''ASSERTION: ''"
| "msglabel LBL_NOTE = ''NOTE: ''"
| "msglabel LBL_ERROR = ''ERROR: ''"
| "msglabel LBL_SUCCESS = ''SUCCESS: ''"

text \<open>
  The process of a test program: what it has printed, its static pointer to a cleanup function, and how
  often it has read the clock.
\<close>

record log_state =
  lg_tick :: nat
  lg_stdout :: string
  cleanup_function :: "nat option"

type_synonym clock = "nat \<Rightarrow> tm option"
type_synonym 'x log_run = "(unit, 'x log_state_scheme) run"
type_synonym 'x cleanups = "nat \<Rightarrow> 'x log_state_scheme \<Rightarrow> 'x log_run"

text \<open>\<^verbatim>\<open>strlcat\<close> appends as much as leaves room for the terminating null character.\<close>

definition strlcat :: "nat \<Rightarrow> string \<Rightarrow> string \<Rightarrow> string" where
  "strlcat n dst src = (if length dst < n then dst @ take (n - length dst - 1) src else dst)"

text \<open>A time that cannot be broken down is a null pointer that \<^verbatim>\<open>strftime\<close> reads.\<close>

definition printline :: "clock \<Rightarrow> string \<Rightarrow> 'x log_state_scheme \<Rightarrow> 'x log_run" where
  "printline clock msg s =
     (case clock (lg_tick s) of
        None \<Rightarrow> Stuck
      | Some tp \<Rightarrow>
          (case snprintf 32 ''%02d:%02d:%02d'' [AInt (tm_hour tp), AInt (tm_min tp), AInt (tm_sec tp)] of
             None \<Rightarrow> Stuck
           | Some (r, buf) \<Rightarrow>
               Ret () (s\<lparr>lg_tick := Suc (lg_tick s), lg_stdout := lg_stdout s @ buf @ '' '' @ msg @ [NL]\<rparr>)))"

definition printmsg :: "clock \<Rightarrow> label \<Rightarrow> string \<Rightarrow> 'x log_state_scheme \<Rightarrow> 'x log_run" where
  "printmsg clock label msg s =
     (let buf = strlcat MAX_MSGSIZE [] (msglabel label);
          buf = strlcat MAX_MSGSIZE buf msg
      in printline clock buf s)"

section \<open>The calls\<close>

definition log_onexit :: "nat option \<Rightarrow> 'x log_state_scheme \<Rightarrow> 'x log_state_scheme" where
  "log_onexit cleanup s = s\<lparr>cleanup_function := cleanup\<rparr>"

definition log_assert :: "clock \<Rightarrow> string \<Rightarrow> 'x log_state_scheme \<Rightarrow> 'x log_run" where
  "log_assert clock msg = printmsg clock LBL_ASSERTION msg"

definition log_note :: "clock \<Rightarrow> string \<Rightarrow> 'x log_state_scheme \<Rightarrow> 'x log_run" where
  "log_note clock msg = printmsg clock LBL_NOTE msg"

definition log_pos :: "clock \<Rightarrow> int \<Rightarrow> string \<Rightarrow> 'x log_state_scheme \<Rightarrow> 'x log_run" where
  "log_pos clock status msg = (if status = 0 then printmsg clock LBL_SUCCESS msg else printmsg clock LBL_ERROR msg)"

definition log_neg :: "clock \<Rightarrow> int \<Rightarrow> string \<Rightarrow> 'x log_state_scheme \<Rightarrow> 'x log_run" where
  "log_neg clock status msg = (if status \<noteq> 0 then printmsg clock LBL_SUCCESS msg else printmsg clock LBL_ERROR msg)"

text \<open>The end of the process: cleanup, a last message, the status.\<close>

definition endlog :: "clock \<Rightarrow> 'x cleanups \<Rightarrow> int \<Rightarrow> string option \<Rightarrow> 'x log_state_scheme \<Rightarrow> 'x log_run" where
  "endlog clock fns rcode msg s =
     seq (case cleanup_function s of
            None \<Rightarrow> Ret () s
          | Some cleanup \<Rightarrow>
              let s = log_onexit None s in
              seq (log_note clock ''Performing local cleanup'' s) (\<lambda>_ s. fns cleanup s)) (\<lambda>_ s.
     seq (case msg of None \<Rightarrow> Ret () s | Some m \<Rightarrow> printline clock m s) (\<lambda>_ s. Exit rcode s))"

definition log_pass :: "clock \<Rightarrow> 'x cleanups \<Rightarrow> string option \<Rightarrow> 'x log_state_scheme \<Rightarrow> 'x log_run" where
  "log_pass clock fns msg = endlog clock fns STF_PASS msg"

definition log_fail :: "clock \<Rightarrow> 'x cleanups \<Rightarrow> string option \<Rightarrow> 'x log_state_scheme \<Rightarrow> 'x log_run" where
  "log_fail clock fns msg = endlog clock fns STF_FAIL msg"

definition log_unresolved :: "clock \<Rightarrow> 'x cleanups \<Rightarrow> string option \<Rightarrow> 'x log_state_scheme \<Rightarrow> 'x log_run" where
  "log_unresolved clock fns msg = endlog clock fns STF_UNRESOLVED msg"

definition log_notinuse :: "clock \<Rightarrow> 'x cleanups \<Rightarrow> string option \<Rightarrow> 'x log_state_scheme \<Rightarrow> 'x log_run" where
  "log_notinuse clock fns msg = endlog clock fns STF_NOTINUSE msg"

definition log_unsupported :: "clock \<Rightarrow> 'x cleanups \<Rightarrow> string option \<Rightarrow> 'x log_state_scheme \<Rightarrow> 'x log_run" where
  "log_unsupported clock fns msg = endlog clock fns STF_UNSUPPORTED msg"

definition log_untested :: "clock \<Rightarrow> 'x cleanups \<Rightarrow> string option \<Rightarrow> 'x log_state_scheme \<Rightarrow> 'x log_run" where
  "log_untested clock fns msg = endlog clock fns STF_UNTESTED msg"

definition log_uninitiated :: "clock \<Rightarrow> 'x cleanups \<Rightarrow> string option \<Rightarrow> 'x log_state_scheme \<Rightarrow> 'x log_run" where
  "log_uninitiated clock fns msg = endlog clock fns STF_UNINITIATED msg"

definition log_noresult :: "clock \<Rightarrow> 'x cleanups \<Rightarrow> string option \<Rightarrow> 'x log_state_scheme \<Rightarrow> 'x log_run" where
  "log_noresult clock fns msg = endlog clock fns STF_NORESULT msg"

definition log_warning :: "clock \<Rightarrow> 'x cleanups \<Rightarrow> string option \<Rightarrow> 'x log_state_scheme \<Rightarrow> 'x log_run" where
  "log_warning clock fns msg = endlog clock fns STF_WARNING msg"

definition log_timed_out :: "clock \<Rightarrow> 'x cleanups \<Rightarrow> string option \<Rightarrow> 'x log_state_scheme \<Rightarrow> 'x log_run" where
  "log_timed_out clock fns msg = endlog clock fns STF_TIMED_OUT msg"

definition log_other :: "clock \<Rightarrow> 'x cleanups \<Rightarrow> string option \<Rightarrow> 'x log_state_scheme \<Rightarrow> 'x log_run" where
  "log_other clock fns msg = endlog clock fns STF_OTHER msg"

definition log_must :: "clock \<Rightarrow> 'x cleanups \<Rightarrow> int \<Rightarrow> string \<Rightarrow> 'x log_state_scheme \<Rightarrow> 'x log_run" where
  "log_must clock fns status msg s =
     seq (log_pos clock status msg s) (\<lambda>_ s. if status \<noteq> 0 then log_fail clock fns None s else Ret () s)"

definition log_mustnot :: "clock \<Rightarrow> 'x cleanups \<Rightarrow> int \<Rightarrow> string \<Rightarrow> 'x log_state_scheme \<Rightarrow> 'x log_run" where
  "log_mustnot clock fns status msg s =
     seq (log_neg clock status msg s) (\<lambda>_ s. if status = 0 then log_fail clock fns None s else Ret () s)"

section \<open>Test programs\<close>

text \<open>
  A test program, as far as the library sees it, is the sequence of its calls; so is each of its cleanup
  functions.
\<close>

datatype verdict = Pass | Fail | Unresolved | Notinuse | Unsupported | Untested | Uninitiated | Noresult
  | Warning | Timed_out | Other

fun log_end :: "verdict \<Rightarrow> clock \<Rightarrow> 'x cleanups \<Rightarrow> string option \<Rightarrow> 'x log_state_scheme \<Rightarrow> 'x log_run" where
  "log_end Pass = log_pass"
| "log_end Fail = log_fail"
| "log_end Unresolved = log_unresolved"
| "log_end Notinuse = log_notinuse"
| "log_end Unsupported = log_unsupported"
| "log_end Untested = log_untested"
| "log_end Uninitiated = log_uninitiated"
| "log_end Noresult = log_noresult"
| "log_end Warning = log_warning"
| "log_end Timed_out = log_timed_out"
| "log_end Other = log_other"

datatype log_call = Assert string | Note string | Pos int string | Neg int string | Must int string
  | Mustnot int string | Onexit "nat option" | End verdict "string option"

fun perform :: "clock \<Rightarrow> 'x cleanups \<Rightarrow> log_call \<Rightarrow> 'x log_state_scheme \<Rightarrow> 'x log_run" where
  "perform clock fns (Assert t) s = log_assert clock t s"
| "perform clock fns (Note t) s = log_note clock t s"
| "perform clock fns (Pos st t) s = log_pos clock st t s"
| "perform clock fns (Neg st t) s = log_neg clock st t s"
| "perform clock fns (Must st t) s = log_must clock fns st t s"
| "perform clock fns (Mustnot st t) s = log_mustnot clock fns st t s"
| "perform clock fns (Onexit f) s = Ret () (log_onexit f s)"
| "perform clock fns (End v m) s = log_end v clock fns m s"

fun perform_all :: "clock \<Rightarrow> 'x cleanups \<Rightarrow> log_call list \<Rightarrow> 'x log_state_scheme \<Rightarrow> 'x log_run" where
  "perform_all clock fns [] s = Ret () s"
| "perform_all clock fns (c # cs) s = seq (perform clock fns c s) (\<lambda>_ s. perform_all clock fns cs s)"

text \<open>
  The program whose cleanup functions are \<open>prog\<close>. The first argument bounds how deep a cleanup function
  is called from within another; a program that goes deeper is stuck.
\<close>

fun client :: "nat \<Rightarrow> clock \<Rightarrow> (nat \<Rightarrow> log_call list) \<Rightarrow> log_call list \<Rightarrow> 'x log_state_scheme \<Rightarrow> 'x log_run" where
  "client 0 clock prog cs s = Stuck"
| "client (Suc n) clock prog cs s = perform_all clock (\<lambda>k. client n clock prog (prog k)) cs s"

section \<open>What a program reports\<close>

text \<open>The line a call prints, without its time; the status and last message with which it ends the process.\<close>

definition labelled :: "label \<Rightarrow> string \<Rightarrow> string" where
  "labelled l t = take 255 (msglabel l @ t)"

fun says :: "log_call \<Rightarrow> string list" where
  "says (Assert t) = [labelled LBL_ASSERTION t]"
| "says (Note t) = [labelled LBL_NOTE t]"
| "says (Pos st t) = [labelled (if st = 0 then LBL_SUCCESS else LBL_ERROR) t]"
| "says (Neg st t) = [labelled (if st = 0 then LBL_ERROR else LBL_SUCCESS) t]"
| "says (Must st t) = [labelled (if st = 0 then LBL_SUCCESS else LBL_ERROR) t]"
| "says (Mustnot st t) = [labelled (if st = 0 then LBL_ERROR else LBL_SUCCESS) t]"
| "says (Onexit f) = []"
| "says (End v m) = []"

fun code :: "verdict \<Rightarrow> int" where
  "code Pass = 0"
| "code Fail = 1"
| "code Unresolved = 2"
| "code Notinuse = 3"
| "code Unsupported = 4"
| "code Untested = 5"
| "code Uninitiated = 6"
| "code Noresult = 7"
| "code Warning = 8"
| "code Timed_out = 9"
| "code Other = 10"

fun decides :: "log_call \<Rightarrow> (verdict \<times> string option) option" where
  "decides (Must st t) = (if st = 0 then None else Some (Fail, None))"
| "decides (Mustnot st t) = (if st = 0 then Some (Fail, None) else None)"
| "decides (End v m) = Some (v, m)"
| "decides c = None"

fun registers :: "log_call \<Rightarrow> nat option \<Rightarrow> nat option" where
  "registers (Onexit f) cf = f"
| "registers c cf = cf"

text \<open>Lines, registered cleanup function, and how the sequence ends: by itself or by an exit call.\<close>

fun report :: "nat option \<Rightarrow> log_call list \<Rightarrow> string list \<times> nat option \<times> (verdict \<times> string option) option" where
  "report cf [] = ([], cf, None)"
| "report cf (c # cs) =
     (case decides c of
        Some d \<Rightarrow> (says c, cf, Some d)
      | None \<Rightarrow> (case report (registers c cf) cs of (ls, r) \<Rightarrow> (says c @ ls, r)))"

definition message :: "string option \<Rightarrow> string list" where
  "message m = (case m of None \<Rightarrow> [] | Some t \<Rightarrow> [t])"

text \<open>
  The contract: the first call that ends the process decides, unless the cleanup function decides
  otherwise. A cleanup function runs once, after the note that announces it.
\<close>

definition log_spec ::
  "(nat \<Rightarrow> log_call list) \<Rightarrow> nat option \<Rightarrow> log_call list \<Rightarrow> string list \<times> nat option \<times> verdict option" where
  "log_spec prog cf cs =
     (case report cf cs of
        (ls, cf', None) \<Rightarrow> (ls, cf', None)
      | (ls, None, Some (v, m)) \<Rightarrow> (ls @ message m, None, Some v)
      | (ls, Some k, Some (v, m)) \<Rightarrow>
          (case report None (prog k) of
             (ls', cf', None) \<Rightarrow> (ls @ ''NOTE: Performing local cleanup'' # ls' @ message m, cf', Some v)
           | (ls', cf', Some (v', m')) \<Rightarrow> (ls @ ''NOTE: Performing local cleanup'' # ls' @ message m', cf', Some v')))"

end
