(* ===== verification/Log_Spec.thy ===== *)
theory Log_Spec
  imports Log_Api
begin

text \<open>
  What the log library promises a test program: the lines on standard output and the status of the
  process are those of the contract \<^const>\<open>log_spec\<close>, and a cleanup function runs once.
\<close>

section \<open>The effect of printing\<close>

definition clock_ok :: "clock \<Rightarrow> bool" where
  "clock_ok clock \<longleftrightarrow> (\<forall>t. clock t \<noteq> None)"

definition stamp :: "tm option \<Rightarrow> string" where
  "stamp tp = (case tp of None \<Rightarrow> [] | Some t \<Rightarrow>
     take 31 (the (format ''%02d:%02d:%02d'' [AInt (tm_hour t), AInt (tm_min t), AInt (tm_sec t)])))"

fun stamped :: "clock \<Rightarrow> nat \<Rightarrow> string list \<Rightarrow> string" where
  "stamped clock t [] = []"
| "stamped clock t (l # ls) = stamp (clock t) @ '' '' @ l @ [NL] @ stamped clock (Suc t) ls"

definition emit :: "clock \<Rightarrow> string list \<Rightarrow> 'x log_state_scheme \<Rightarrow> 'x log_state_scheme" where
  "emit clock ls s = s\<lparr>lg_tick := lg_tick s + length ls, lg_stdout := lg_stdout s @ stamped clock (lg_tick s) ls\<rparr>"

lemma stamped_append: "stamped clock t (ls @ ls') = stamped clock t ls @ stamped clock (t + length ls) ls'"
  by (induction ls arbitrary: t) simp_all

lemma emit_Nil [simp]: "emit clock [] s = s"
  by (simp add: emit_def)

lemma emit_emit [simp]: "emit clock ls' (emit clock ls s) = emit clock (ls @ ls') s"
  by (simp add: emit_def stamped_append add.assoc)

lemma emit_cleanup [simp]:
  "cleanup_function (emit clock ls s) = cleanup_function s"
  "emit clock ls (s\<lparr>cleanup_function := f\<rparr>) = (emit clock ls s)\<lparr>cleanup_function := f\<rparr>"
  by (simp_all add: emit_def)

lemma emit_same [simp]: "(emit clock ls s)\<lparr>cleanup_function := cleanup_function s\<rparr> = emit clock ls s"
  by (simp add: emit_def)

lemma time_format: "\<exists>t. format ''%02d:%02d:%02d'' [AInt h, AInt m, AInt s] = Some t"
  by (simp add: fmt)

lemma printline_emit:
  assumes "clock_ok clock"
  shows "printline clock msg s = Ret () (emit clock [msg] s)"
proof -
  obtain tp where tp: "clock (lg_tick s) = Some tp" using assms by (auto simp: clock_ok_def)
  obtain t where "format ''%02d:%02d:%02d'' [AInt (tm_hour tp), AInt (tm_min tp), AInt (tm_sec tp)] = Some t"
    using time_format by blast
  then show ?thesis using tp by (simp add: printline_def snprintf_Some emit_def stamp_def)
qed

lemma printmsg_emit:
  assumes "clock_ok clock"
  shows "printmsg clock l msg s = Ret () (emit clock [labelled l msg] s)"
proof -
  have "length (msglabel l) < 255" by (cases l) simp_all
  then have "strlcat MAX_MSGSIZE (strlcat MAX_MSGSIZE [] (msglabel l)) msg = labelled l msg"
    by (simp add: strlcat_def labelled_def MAX_MSGSIZE_def)
  then show ?thesis using assms by (simp add: printmsg_def printline_emit)
qed

lemma cleanup_note: "labelled LBL_NOTE ''Performing local cleanup'' = ''NOTE: Performing local cleanup''"
  by (simp add: labelled_def)

section \<open>One call\<close>

lemma log_end_code: "log_end v clock fns = endlog clock fns (code v)"
  by (cases v) (auto simp: fun_eq_iff log_pass_def log_fail_def log_unresolved_def log_notinuse_def log_unsupported_def
    log_untested_def log_uninitiated_def log_noresult_def log_warning_def log_timed_out_def log_other_def stf_results)

lemmas call_defs = log_assert_def log_note_def log_pos_def log_neg_def log_must_def log_mustnot_def log_onexit_def

lemma perform_goes_on:
  assumes "clock_ok clock" "decides c = None"
  shows "perform clock fns c s = Ret () ((emit clock (says c) s)\<lparr>cleanup_function := registers c (cleanup_function s)\<rparr>)"
  using assms by (cases c) (auto simp: call_defs printmsg_emit split: if_splits)

lemma perform_ends:
  assumes "clock_ok clock" "decides c = Some (v, m)"
  shows "perform clock fns c s = endlog clock fns (code v) m (emit clock (says c) s)"
proof -
  have f: "log_fail clock fns = endlog clock fns (code Fail)" using log_end_code [of Fail] by simp
  show ?thesis using assms by (cases c) (auto simp: call_defs printmsg_emit f log_end_code split: if_splits)
qed

lemma perform_all_report:
  assumes ck: "clock_ok clock"
  shows "perform_all clock fns cs s =
    (case report (cleanup_function s) cs of
       (ls, cf, None) \<Rightarrow> Ret () ((emit clock ls s)\<lparr>cleanup_function := cf\<rparr>)
     | (ls, cf, Some (v, m)) \<Rightarrow> endlog clock fns (code v) m ((emit clock ls s)\<lparr>cleanup_function := cf\<rparr>))"
proof (induction cs arbitrary: s)
  case (Cons c cs)
  show ?case
  proof (cases "decides c")
    case None
    then show ?thesis
      by (simp add: perform_goes_on [OF ck] Cons.IH split: prod.splits option.splits)
  next
    case (Some d)
    obtain v m where d: "d = (v, m)" by (cases d)
    have "seq (endlog clock fns (code v) m t) f = endlog clock fns (code v) m t" for t f
      by (simp add: endlog_def seq_assoc)
    then show ?thesis using Some by (simp add: d perform_ends [OF ck])
  qed
qed simp

lemma endlog_no_cleanup:
  "clock_ok clock \<Longrightarrow> cleanup_function s = None \<Longrightarrow> endlog clock fns rc m s = Exit rc (emit clock (message m) s)"
  by (cases m) (simp_all add: endlog_def message_def printline_emit)

lemma endlog_cleanup:
  assumes "clock_ok clock" "cleanup_function s = Some k"
  shows "endlog clock fns rc m s =
    seq (fns k (emit clock [''NOTE: Performing local cleanup''] s\<lparr>cleanup_function := None\<rparr>))
      (\<lambda>_ s. Exit rc (emit clock (message m) s))"
  using assms
  by (cases m) (simp_all add: endlog_def message_def printline_emit printmsg_emit call_defs cleanup_note seq_assoc)

section \<open>Whole programs\<close>

lemma report_quiet:
  "\<forall>j. Onexit (Some j) \<notin> set cs \<Longrightarrow> report None cs = (ls, cf, d) \<Longrightarrow> cf = None"
proof (induction cs arbitrary: ls)
  case (Cons c cs)
  have "registers c None = None"
  proof (cases c)
    case (Onexit f)
    then show ?thesis using Cons.prems(1) by (cases f) auto
  qed simp_all
  then show ?case using Cons by (auto split: option.splits prod.splits)
qed simp

lemma report_registered:
  "report cf cs = (ls, Some k, d) \<Longrightarrow> cf = Some k \<or> Onexit (Some k) \<in> set cs"
proof (induction cs arbitrary: cf ls)
  case (Cons c cs)
  have "registers c cf = Some k \<Longrightarrow> cf = Some k \<or> c = Onexit (Some k)" by (cases c) auto
  then show ?case using Cons by (fastforce split: option.splits prod.splits)
qed simp

lemma report_ends: "report cf cs = (ls, cf', None) \<Longrightarrow> \<forall>c \<in> set cs. decides c = None"
  by (induction cs arbitrary: cf ls) (auto split: option.splits prod.splits)

text \<open>
  C25. A test program whose cleanup functions register no further one prints exactly the lines of the
  contract, each with the time of day, and ends with the status the contract gives: that of the first call
  that ends the process, or of the first such call in the cleanup function. The cleanup function is called
  once and two levels of calls are enough.
\<close>

theorem log_program_meets_spec:
  assumes ck: "clock_ok clock"
    and quiet: "\<forall>k j. Onexit (Some j) \<notin> set (prog k)"
  shows "client (Suc (Suc n)) clock prog cs s =
    (case log_spec prog (cleanup_function s) cs of
       (ls, cf, None) \<Rightarrow> Ret () ((emit clock ls s)\<lparr>cleanup_function := cf\<rparr>)
     | (ls, cf, Some v) \<Rightarrow> Exit (code v) ((emit clock ls s)\<lparr>cleanup_function := cf\<rparr>))"
proof -
  obtain ls cf d where r: "report (cleanup_function s) cs = (ls, cf, d)" by (cases "report (cleanup_function s) cs")
  consider "d = None" | v m where "cf = None" "d = Some (v, m)" | k v m where "cf = Some k" "d = Some (v, m)"
    by (cases cf; cases d) auto
  then show ?thesis
  proof cases
    case 1
    then show ?thesis using r by (cases cf) (simp_all add: perform_all_report [OF ck] log_spec_def)
  next
    case 2
    then show ?thesis using r
      by (simp add: perform_all_report [OF ck] log_spec_def endlog_no_cleanup [OF ck])
  next
    case (3 k v m)
    let ?t = "emit clock (ls @ [''NOTE: Performing local cleanup'']) s\<lparr>cleanup_function := None\<rparr>"
    obtain ls' cf' d' where r': "report None (prog k) = (ls', cf', d')" by (cases "report None (prog k)")
    have cf': "cf' = None" using report_quiet [OF _ r'] quiet by blast
    have "client (Suc (Suc n)) clock prog cs s =
        seq (client (Suc n) clock prog (prog k) ?t) (\<lambda>_ s. Exit (code v) (emit clock (message m) s))"
      using r 3 r' by (cases d') (auto simp: perform_all_report [OF ck] endlog_cleanup [OF ck])
    then show ?thesis using r 3 r' cf'
      by (cases d') (auto simp: perform_all_report [OF ck] log_spec_def endlog_no_cleanup [OF ck])
  qed
qed

text \<open>A program that passes, whose cleanup fails: the status is that of the cleanup.\<close>

definition noon :: tm where
  "noon = \<lparr>tm_year = 107, tm_mon = 5, tm_mday = 1, tm_hour = 12, tm_min = 0, tm_sec = 7\<rparr>"

definition unmounting :: "nat \<Rightarrow> log_call list" where
  "unmounting k = (if k = 0 then [Must 16 ''umount /pool'', Note ''not reached''] else [])"

definition fresh_log :: log_state where
  "fresh_log = \<lparr>lg_tick = 0, lg_stdout = [], cleanup_function = None\<rparr>"

theorem log_program_meets_spec_witness:
  "clock_ok (\<lambda>_. Some noon) \<and> (\<forall>k j. Onexit (Some j) \<notin> set (unmounting k)) \<and>
   client 2 (\<lambda>_. Some noon) unmounting [Onexit (Some 0), Must 0 ''mount /pool'', End Pass (Some ''done'')] fresh_log =
     Exit 1 (emit (\<lambda>_. Some noon) [''SUCCESS: mount /pool'', ''NOTE: Performing local cleanup'', ''ERROR: umount /pool''] fresh_log)"
proof -
  have 1: "clock_ok (\<lambda>_. Some noon)" by (simp add: clock_ok_def)
  have 2: "\<forall>k j. Onexit (Some j) \<notin> set (unmounting k)" by (simp add: unmounting_def)
  let ?cs = "[Onexit (Some 0), Must 0 ''mount /pool'', End Pass (Some ''done'')]"
  have spec: "log_spec unmounting (cleanup_function fresh_log) ?cs =
      ([''SUCCESS: mount /pool'', ''NOTE: Performing local cleanup'', ''ERROR: umount /pool''], None, Some Fail)"
    by (simp add: log_spec_def labelled_def message_def unmounting_def)
  have "(emit clock ls fresh_log)\<lparr>cleanup_function := None\<rparr> = emit clock ls fresh_log" for clock ls
    by (simp add: fresh_log_def emit_def)
  then show ?thesis
    using log_program_meets_spec [OF 1 2, of 0 ?cs fresh_log] 1 2
    by (simp only: spec numeral_2_eq_2 prod.case option.case code.simps) simp
qed

section \<open>Termination\<close>

lemma self_registered_stuck:
  assumes ck: "clock_ok clock"
  shows "client n clock (\<lambda>_. [Onexit (Some k), End v m]) [Onexit (Some k), End v m] s = Stuck"
proof (induction n arbitrary: s)
  case (Suc n)
  then show ?case by (simp add: log_onexit_def log_end_code endlog_cleanup [OF ck])
qed simp

lemma ranked_ends:
  fixes s :: "'x log_state_scheme"
  assumes ck: "clock_ok clock"
    and rank: "\<forall>k j. Onexit (Some j) \<in> set (prog k) \<longrightarrow> rank j < rank k"
    and top: "\<forall>j. cleanup_function s = Some j \<or> Onexit (Some j) \<in> set cs \<longrightarrow> rank j < (n :: nat)"
  shows "client (Suc n) clock prog cs s \<noteq> Stuck"
  using top
proof (induction n arbitrary: cs s)
  case 0
  obtain ls cf d where r: "report (cleanup_function s) cs = (ls, cf, d)" by (cases "report (cleanup_function s) cs")
  have "cf = None" using report_registered r 0 by (cases cf) blast+
  then show ?case using r
    by (auto simp: perform_all_report [OF ck] endlog_no_cleanup [OF ck] split: option.splits prod.splits)
next
  case (Suc n)
  obtain ls cf d where r: "report (cleanup_function s) cs = (ls, cf, d)" by (cases "report (cleanup_function s) cs")
  have ih: "client (Suc n) clock prog (prog k) t \<noteq> Stuck" if "cf = Some k" "cleanup_function t = None" for k and t :: "'x log_state_scheme"
  proof (rule Suc.IH)
    have "rank k \<le> n" using report_registered [of "cleanup_function s"] r that(1) Suc.prems by (metis less_Suc_eq_le)
    then show "\<forall>j. cleanup_function t = Some j \<or> Onexit (Some j) \<in> set (prog k) \<longrightarrow> rank j < n"
      using rank that(2) by fastforce
  qed
  have seq: "seq m f \<noteq> Stuck" if "m \<noteq> Stuck" "\<And>r s. f r s \<noteq> Stuck" for m :: "(unit, 'y) run" and f :: "unit \<Rightarrow> 'y \<Rightarrow> (unit, 'y) run"
    using that by (cases m) simp_all
  show ?case
  proof (cases d)
    case None
    then show ?thesis using r by (simp add: perform_all_report [OF ck])
  next
    case (Some e)
    obtain v m where e: "e = (v, m)" by (cases e)
    then show ?thesis
      using r Some ih by (cases cf) (simp_all add: perform_all_report [OF ck] endlog_no_cleanup [OF ck] endlog_cleanup [OF ck] seq
        del: client.simps(2) add: client.simps(2) [of "Suc n" for n])
  qed
qed

text \<open>
  C26. A program ends whenever its cleanup functions can be ranked so that each registers only functions of
  a lower rank; the depth of the nested calls is bounded by the rank. Conversely a cleanup function that
  registers itself again before it ends the process is called for ever: no depth is enough.
\<close>

theorem log_program_ends:
  assumes "clock_ok clock"
    and "\<forall>k j. Onexit (Some j) \<in> set (prog k) \<longrightarrow> rank j < rank k"
    and "\<forall>j. cleanup_function s = Some j \<or> Onexit (Some j) \<in> set cs \<longrightarrow> rank j < (n :: nat)"
  shows "client (Suc n) clock prog cs s \<noteq> Stuck \<and>
    (\<forall>d k v m. client d clock (\<lambda>_. [Onexit (Some k), End v m]) [Onexit (Some k), End v m] s = Stuck)"
  using ranked_ends [OF assms] self_registered_stuck [OF assms(1)] by blast

theorem log_program_ends_witness:
  "client 2 (\<lambda>_. Some noon) unmounting [Onexit (Some 0), End Pass None] fresh_log \<noteq> Stuck"
  using log_program_ends [of "\<lambda>_. Some noon" unmounting "\<lambda>k. k" fresh_log "[Onexit (Some 0), End Pass None]" 1]
  by (simp add: clock_ok_def unmounting_def fresh_log_def numeral_2_eq_2 del: client.simps)

section \<open>The status of the process\<close>

lemma print_no_exit: "printline clock x s \<noteq> Exit c t" "printmsg clock l x s \<noteq> Exit c t"
  by (simp_all add: printmsg_def printline_def Let_def split: option.splits prod.splits)

lemma endlog_no_return: "endlog clock fns rc m s \<noteq> Ret u t"
  by (simp add: endlog_def seq_eq)

lemma endlog_exit:
  "endlog clock fns rc m s = Exit c t \<Longrightarrow> c = rc \<or> (\<exists>k u. fns k u = Exit c t)"
  by (auto simp: endlog_def seq_eq print_no_exit log_note_def Let_def split: option.splits)

lemma fail_code: "log_fail clock fns = endlog clock fns (code Fail)"
  using log_end_code [of Fail] by simp

lemma perform_returns: "perform clock fns c s = Ret u t \<Longrightarrow> decides c = None"
  by (cases c) (auto simp: call_defs seq_eq fail_code log_end_code endlog_no_return split: if_splits)

lemma perform_exits:
  "perform clock fns c s = Exit e t \<Longrightarrow> (\<exists>v. e = code v) \<or> (\<exists>k u. fns k u = Exit e t)"
  by (cases c) (auto simp: call_defs seq_eq fail_code log_end_code print_no_exit simp del: code.simps dest!: endlog_exit split: if_splits)

lemma perform_all_returns: "perform_all clock fns cs s = Ret u t \<Longrightarrow> \<forall>c \<in> set cs. decides c = None"
  by (induction cs arbitrary: s) (auto simp: seq_eq dest: perform_returns)

lemma perform_all_exits:
  "perform_all clock fns cs s = Exit e t \<Longrightarrow> (\<exists>v. e = code v) \<or> (\<exists>k u. fns k u = Exit e t)"
  by (induction cs arbitrary: s) (auto simp: seq_eq dest!: perform_exits)

lemma client_exits: "client n clock prog cs s = Exit e t \<Longrightarrow> \<exists>v. e = code v"
  by (induction n arbitrary: cs s t) (auto dest!: perform_all_exits)

lemma client_returns: "client n clock prog cs s = Ret u t \<Longrightarrow> \<forall>c \<in> set cs. decides c = None"
  by (cases n) (auto dest: perform_all_returns)

lemma code_range: "0 \<le> code v \<and> code v < STF_MAX_RESULTS"
  by (cases v) (simp_all add: stf_codes)

text \<open>
  C27. Whatever a program and its cleanup functions do, and whatever the clock says: the process ends with one of
  the codes that have a name in the table of results, and a program that comes back from its last call has made no
  call that ends it.
\<close>

theorem log_status_has_name:
  "case client n clock prog cs s of
     Ret u t \<Rightarrow> \<forall>c \<in> set cs. decides c = None
   | Exit e t \<Rightarrow> (\<exists>v. e = code v) \<and> get_status_name e = result_tbl ! nat e \<and> nat e < length result_tbl
   | Stuck \<Rightarrow> True"
proof (cases "client n clock prog cs s")
  case (Exit e t)
  then obtain v where "e = code v" using client_exits by blast
  then show ?thesis using Exit code_range [of v]
    by (auto simp: get_status_name_def stf_codes result_tbl_def)
qed (simp_all add: client_returns)

theorem log_status_has_name_witness:
  "client 1 (\<lambda>_. Some noon) unmounting [End Timed_out None] fresh_log = Exit 9 fresh_log \<and>
   get_status_name 9 = result_tbl ! 9 \<and> nat 9 < length result_tbl"
proof -
  have "client 1 (\<lambda>_. Some noon) unmounting [End Timed_out None] fresh_log = Exit 9 fresh_log"
    by (simp add: log_timed_out_def endlog_def fresh_log_def stf_codes)
  then show ?thesis
    using log_status_has_name [where n = 1 and clock = "\<lambda>_. Some noon" and prog = unmounting and cs = "[End Timed_out None]" and s = fresh_log]
    by simp
qed

end
