(* ===== verification/Jnl_Cmds.thy ===== *)
theory Jnl_Cmds
  imports Args Log_Api
begin

text \<open>
  The commands with which shell scripts write the journal: the main functions of the programs
  \<^verbatim>\<open>stf_jnl_*.c\<close>, which check their arguments and call \<^verbatim>\<open>libstf\<close> with the process id of their parent, and
  \<^verbatim>\<open>stf_gosu.c\<close>. Each command is a process of its own: it has the environment, the files and the standard
  output of the shell, and what it puts into its own environment is lost when it ends. The list of
  arguments holds at least the name of the program.
\<close>

section \<open>The main functions\<close>

text \<open>A message on standard error and the status 1.\<close>

definition usage_exit :: "string \<Rightarrow> process \<Rightarrow> (int, process) run" where
  "usage_exit msg s = Exit 1 (perror msg s)"

definition main_start :: "io_env \<Rightarrow> int \<Rightarrow> string list \<Rightarrow> process \<Rightarrow> (int, process) run" where
  "main_start env ppid argv s = seq (stf_jnl_start_pid env ppid s) (\<lambda>_ s. Ret 0 s)"

definition main_end :: "io_env \<Rightarrow> int \<Rightarrow> string list \<Rightarrow> process \<Rightarrow> (int, process) run" where
  "main_end env ppid argv s = seq (stf_jnl_end env s) (\<lambda>_ s. Ret 0 s)"

definition main_env :: "io_env \<Rightarrow> int \<Rightarrow> string list \<Rightarrow> process \<Rightarrow> (int, process) run" where
  "main_env env ppid argv s = seq (stf_jnl_env env s) (\<lambda>_ s. Ret 0 s)"

definition main_msg :: "io_env \<Rightarrow> int \<Rightarrow> string list \<Rightarrow> process \<Rightarrow> (int, process) run" where
  "main_msg env ppid argv s =
     (if length argv \<noteq> 2 then usage_exit (''usage: '' @ hd argv @ '' message\<newline>'') s
      else seq (stf_jnl_msg_pid env ppid (argv ! 1) s) (\<lambda>_ s. Ret 0 s))"

definition main_testcase_start :: "io_env \<Rightarrow> int \<Rightarrow> string list \<Rightarrow> process \<Rightarrow> (int, process) run" where
  "main_testcase_start env ppid argv s =
     (if length argv \<noteq> 2 then usage_exit (''usage: '' @ hd argv @ '' assertion\<newline>'') s
      else seq (stf_jnl_testcase_start_pid env ppid (argv ! 1) s) (\<lambda>_ s. Ret 0 s))"

text \<open>
  The status of the shell: up to 127 it is the exit status of the test, which \<^verbatim>\<open>wait\<close> reports in the second
  byte.
\<close>

definition shell_status :: "u32 \<Rightarrow> u32" where
  "shell_status status = (if status \<le> 127 then push_bit 8 status else status)"

definition main_testcase_end :: "io_env \<Rightarrow> int \<Rightarrow> string list \<Rightarrow> process \<Rightarrow> (int, process) run" where
  "main_testcase_end env ppid argv s =
     (if length argv \<noteq> 3 then usage_exit (''usage: '' @ hd argv @ '' assertion status\<newline>'') s
      else case atoi (argv ! 2) of
          None \<Rightarrow> Stuck
        | Some i \<Rightarrow>
            seq (stf_jnl_testcase_end env (argv ! 1) ppid (shell_status (word_of_int i)) s) (\<lambda>_ s. Ret 0 s))"

definition main_assert_start :: "io_env \<Rightarrow> int \<Rightarrow> string list \<Rightarrow> process \<Rightarrow> (int, process) run" where
  "main_assert_start env ppid argv s =
     (if length argv \<noteq> 2 then usage_exit (''usage: '' @ hd argv @ '' subid\<newline>'') s
      else seq (stf_jnl_assert_start_pid env ppid (argv ! 1) s) (\<lambda>_ s. Ret 0 s))"

definition main_assert_end :: "io_env \<Rightarrow> int \<Rightarrow> string list \<Rightarrow> process \<Rightarrow> (int, process) run" where
  "main_assert_end env ppid argv s =
     (if length argv \<noteq> 2 then usage_exit (''usage: '' @ hd argv @ '' result\<newline>'') s
      else case atoi (argv ! 1) of
          None \<Rightarrow> Stuck
        | Some result \<Rightarrow> seq (stf_jnl_assert_end_pid env ppid result s) (\<lambda>_ s. Ret 0 s))"

text \<open>The loop over the table of results for one name on the command line.\<close>

definition set_result :: "string \<Rightarrow> int \<Rightarrow> (nat \<Rightarrow> int) \<Rightarrow> nat \<Rightarrow> int" where
  "set_result result_string result_count result_array =
     (\<lambda>i. if i < nat STF_MAX_RESULTS \<and> result_tbl ! i = result_string then result_count else result_array i)"

fun totals_args :: "string \<Rightarrow> string list \<Rightarrow> (nat \<Rightarrow> int) \<Rightarrow> process \<Rightarrow> (nat \<Rightarrow> int, process) run" where
  "totals_args progname [] result_array s = Ret result_array s"
| "totals_args progname [result_string] result_array s = Stuck"
| "totals_args progname (result_string # count # rest) result_array s =
     (case atoi count of
        None \<Rightarrow> Stuck
      | Some result_count \<Rightarrow>
          if result_string \<notin> set result_tbl
          then Exit 1 (perror (progname @ '': '' @ result_string @ '' is not a valid result name\<newline>'') s)
          else totals_args progname rest (set_result result_string result_count result_array) s)"

definition main_totals :: "io_env \<Rightarrow> int \<Rightarrow> string list \<Rightarrow> process \<Rightarrow> (int, process) run" where
  "main_totals env ppid argv s =
     (if length argv mod 2 \<noteq> 0 \<or> length argv < 3
      then usage_exit (''usage: '' @ hd argv @ '' subid {result_name count ...}\<newline>'' @
             ''example: '' @ hd argv @ '' sub1 PASS 10 FAIL 3\<newline>'') s
      else
        seq (totals_args (hd argv) (drop 2 argv) (\<lambda>i. 0) s) (\<lambda>result_array s.
        seq (stf_jnl_totals_pid env ppid (argv ! 1) result_array s) (\<lambda>_ s. Ret 0 s)))"

text \<open>
  \<^verbatim>\<open>stf_gosu\<close>: the command that takes the place of the process, or the status of one that stays. What
  \<^verbatim>\<open>setuid\<close> and \<^verbatim>\<open>execvp\<close> answer is an argument.
\<close>

datatype gosu = Runs "string list" | Status int "string list"

definition main_gosu :: "bool \<Rightarrow> (string list \<Rightarrow> bool) \<Rightarrow> string list \<Rightarrow> gosu" where
  "main_gosu setuid_fails execvp_works argv =
     (if length argv \<le> 1 then Status STF_UNRESOLVED []
      else if setuid_fails then Status STF_UNRESOLVED [''**** Error: Failed to become a privileged user.!\<newline>'']
      else if execvp_works (tl argv) then Runs (tl argv) else Status STF_UNRESOLVED [])"

section \<open>Scripts\<close>

record shell =
  sh_tick :: nat
  sh_env :: "string \<rightharpoonup> string"
  sh_dir :: "string \<rightharpoonup> nat"
  sh_inodes :: "nat \<rightharpoonup> inode"
  sh_next :: nat
  sh_stdout :: string
  sh_errs :: "string list"

definition spawn :: "int \<Rightarrow> shell \<Rightarrow> process" where
  "spawn pid sh = \<lparr>p_tick = sh_tick sh, p_pid = pid, p_env = sh_env sh, p_dir = sh_dir sh, p_inodes = sh_inodes sh,
     p_next = sh_next sh, p_fds = [(0, Stdout), (1, Stdout), (2, Stdout)], p_stdout = sh_stdout sh, p_errs = sh_errs sh,
     p_jv = JV_NULL, p_umask = 0x12\<rparr>"

definition absorb :: "process \<Rightarrow> shell \<Rightarrow> shell" where
  "absorb s sh = sh\<lparr>sh_tick := p_tick s, sh_dir := p_dir s, sh_inodes := p_inodes s, sh_next := p_next s,
     sh_stdout := p_stdout s, sh_errs := p_errs s\<rparr>"

datatype program = Start | End_run | Env | Message | Testcase_start | Testcase_end | Assert_start | Assert_end | Totals

fun main_of :: "program \<Rightarrow> io_env \<Rightarrow> int \<Rightarrow> string list \<Rightarrow> process \<Rightarrow> (int, process) run" where
  "main_of Start = main_start"
| "main_of End_run = main_end"
| "main_of Env = main_env"
| "main_of Message = main_msg"
| "main_of Testcase_start = main_testcase_start"
| "main_of Testcase_end = main_testcase_end"
| "main_of Assert_start = main_assert_start"
| "main_of Assert_end = main_assert_end"
| "main_of Totals = main_totals"

text \<open>A command with its process id; its status is what the shell sees.\<close>

definition run_command :: "io_env \<Rightarrow> int \<Rightarrow> int \<times> program \<times> string list \<Rightarrow> shell \<Rightarrow> (int, shell) run" where
  "run_command env ppid cmd sh =
     (case cmd of (pid, prog, argv) \<Rightarrow>
        (case main_of prog env ppid argv (spawn pid sh) of
           Ret st s \<Rightarrow> Ret st (absorb s sh)
         | Exit st s \<Rightarrow> Ret st (absorb s sh)
         | Stuck \<Rightarrow> Stuck))"

fun run_script :: "io_env \<Rightarrow> int \<Rightarrow> (int \<times> program \<times> string list) list \<Rightarrow> shell \<Rightarrow> (int list, shell) run" where
  "run_script env ppid [] sh = Ret [] sh"
| "run_script env ppid (c # cs) sh =
     seq (run_command env ppid c sh) (\<lambda>st sh. seq (run_script env ppid cs sh) (\<lambda>sts sh. Ret (st # sts) sh))"

end
