(* ===== verification/Cmds_Spec.thy ===== *)
theory Cmds_Spec
  imports Jnl_Cmds Stf_Spec
begin

text \<open>
  The properties of the journal commands: a script of commands, each a process of its own, leaves one
  start and one end entry per test in the journal, and the command for totals counts what its arguments say.
\<close>

section \<open>From one process to the next\<close>

definition shell_journal :: "shell \<Rightarrow> string" where
  "shell_journal sh = journal (spawn 0 sh)"

definition shell_vars :: "nat \<Rightarrow> shell \<Rightarrow> jvars option" where
  "shell_vars i sh = vars_at i (spawn 0 sh)"

definition shell_wf :: "shell \<Rightarrow> bool" where
  "shell_wf sh \<longleftrightarrow> proc_wf (spawn 0 sh)"

lemma spawn_pid:
  "journal (spawn pid sh) = shell_journal sh" "vars_at i (spawn pid sh) = shell_vars i sh" "proc_wf (spawn pid sh) = shell_wf sh"
  by (simp_all add: shell_journal_def journal_def spawn_def getenv_def shell_vars_def vars_at_def shell_wf_def proc_wf_def
    split: option.splits)

lemma spawn_simps [simp]:
  "p_env (spawn pid sh) = sh_env sh" "p_dir (spawn pid sh) = sh_dir sh" "p_jv (spawn pid sh) = JV_NULL" "p_pid (spawn pid sh) = pid"
  "getenv x (spawn pid sh) = sh_env sh x" "p_stdout (spawn pid sh) = sh_stdout sh"
  by (simp_all add: spawn_def getenv_def)

lemma absorb_simps [simp]:
  "sh_env (absorb s sh) = sh_env sh" "sh_dir (absorb s sh) = p_dir s" "sh_stdout (absorb s sh) = p_stdout s"
  "shell_vars i (absorb s sh) = vars_at i s"
  by (simp_all add: absorb_def shell_vars_def vars_at_def spawn_def)

lemma absorb_journal: "getenv JNLNAME s = sh_env sh JNLNAME \<Longrightarrow> shell_journal (absorb s sh) = journal s"
  by (simp add: shell_journal_def journal_def absorb_def spawn_def getenv_def split: option.splits)

lemma absorb_wf: "getenv JNLNAME s = sh_env sh JNLNAME \<Longrightarrow> proc_wf s \<Longrightarrow> shell_wf (absorb s sh)"
  by (simp add: shell_wf_def proc_wf_def absorb_def spawn_def getenv_def)

lemma run_command_returns:
  "returns (main_of prog env ppid argv (spawn pid sh)) (\<lambda>st s. Q st (absorb s sh)) \<Longrightarrow>
   returns (run_command env ppid (pid, prog, argv) sh) Q"
  by (auto simp: returns_def run_command_def)

text \<open>A run is under way: the variable file exists, is unlocked, and is not the journal.\<close>

definition under_way :: "string \<Rightarrow> nat \<Rightarrow> jvars \<Rightarrow> shell \<Rightarrow> bool" where
  "under_way p i v sh \<longleftrightarrow>
     shell_wf sh \<and> sh_env sh VARFILE = Some p \<and> sh_dir sh p = Some i \<and> shell_vars i sh = Some v \<and> jvar_mlock v = MX_Free \<and>
     (\<exists>j. sh_env sh JNLNAME = Some j \<and> j \<noteq> p)"

lemma under_way_spawn:
  assumes "under_way p i v sh"
  shows "proc_wf (spawn pid sh)" "vars_ready i (spawn pid sh)" "vars_at i (spawn pid sh) = Some v"
  using assms by (auto simp: under_way_def vars_ready_def spawn_pid)

lemma under_way_logged:
  assumes u: "under_way p i v sh" and l: "logged t (spawn pid sh) s" and w: "vars_set i w (spawn pid sh) s" "jvar_mlock w = MX_Free"
  shows "under_way p i w (absorb s sh)" "shell_journal (absorb s sh) = shell_journal sh @ t"
proof -
  have j: "getenv JNLNAME s = sh_env sh JNLNAME" using l by (simp add: logged_def getenv_def)
  show "shell_journal (absorb s sh) = shell_journal sh @ t"
    using absorb_journal [OF j] l by (simp add: logged_def spawn_pid)
  have "p_dir s p = Some i" using u l by (auto simp: under_way_def logged_def)
  then show "under_way p i w (absorb s sh)"
    using u w l absorb_wf [OF j] by (auto simp: under_way_def vars_set_def logged_def)
qed

section \<open>One test\<close>

lemma exit_status_word:
  assumes "n < 128"
  shows "WEXITSTATUS (shell_status (word_of_int (int n))) = int n" "shell_status (word_of_int (int n)) = push_bit 8 (word_of_nat n)"
proof -
  have u: "unat (word_of_nat n :: u32) = n" using assms by (simp add: unat_of_nat)
  then have le: "(word_of_nat n :: u32) \<le> 127" using assms by (simp add: word_le_nat_alt)
  then show s: "shell_status (word_of_int (int n)) = push_bit 8 (word_of_nat n)" by (simp add: shell_status_def)
  have "push_bit 8 (word_of_nat n :: u32) = word_of_nat (n * 256)" by (simp add: push_bit_eq_mult)
  moreover have "unat (word_of_nat (n * 256) :: u32) = n * 256" using assms by (simp add: unat_of_nat del: of_nat_mult)
  ultimately have p: "uint (push_bit 8 (word_of_nat n :: u32)) = int n * 256" by (simp only: uint_nat of_nat_mult of_nat_numeral)
  have "(0xFF :: u32) = mask 8" by (simp add: mask_eq_exp_minus_1)
  then have "WEXITSTATUS (push_bit 8 (word_of_nat n)) = uint (take_bit 8 (drop_bit 8 (push_bit 8 (word_of_nat n :: u32))))"
    by (simp add: WEXITSTATUS_def take_bit_eq_mask)
  also have "\<dots> = take_bit 8 (drop_bit 8 (int n * 256))"
    by (simp only: unsigned_take_bit_eq unsigned_drop_bit_eq p) (simp add: take_bit_drop_bit)
  also have "\<dots> = int n" using assms by (simp add: take_bit_eq_mod drop_bit_eq_div)
  finally show "WEXITSTATUS (shell_status (word_of_int (int n))) = int n" using s by simp
qed

text \<open>The process ids of the two commands, the line of the test, its name and its exit status.\<close>

type_synonym tcase = "int \<times> int \<times> string \<times> string \<times> nat"

definition tcase_ok :: "tcase \<Rightarrow> bool" where
  "tcase_ok c = (case c of (p1, p2, line, name, n) \<Rightarrow>
     CHR '' '' \<in> set line \<and> length line < MAXCHAR \<and> length (name_of line) < 256 \<and> n < 128)"

definition tcase_script :: "tcase \<Rightarrow> (int \<times> program \<times> string list) list" where
  "tcase_script c = (case c of (p1, p2, line, name, n) \<Rightarrow>
     [(p1, Testcase_start, [''stf_jnl_testcase_start'', line]),
      (p2, Testcase_end, [''stf_jnl_testcase_end'', name, dec (int n)])])"

text \<open>The result in the journal: the name of the status, with the number from 10 on.\<close>

definition status_text :: "nat \<Rightarrow> string" where
  "status_text n = (if n < 10 then result_tbl ! n else ''OTHER_'' @ dec (int n))"

definition tcase_text :: "io_env \<Rightarrow> int \<Rightarrow> tcase \<Rightarrow> string \<Rightarrow> bool" where
  "tcase_text env ppid c en = (case c of (p1, p2, line, name, n) \<Rightarrow>
     \<exists>t u. en = take (MAXCHAR + 1) (tc_start_line ppid line (time_text env t) 0 @ [NL]) @
       take (MAXCHAR + 1) (tc_end_line ppid name (status_text n) (time_text env u) 0 @ [NL]))"

text \<open>\<^verbatim>\<open>WIFSIGNALED\<close> is false for the statuses of processes that exit.\<close>

definition exits_plain :: "io_env \<Rightarrow> bool" where
  "exits_plain env \<longleftrightarrow> (\<forall>n < 128. \<not> io_signaled env (push_bit 8 (word_of_nat n)))"

lemma result_text_exit:
  assumes "exits_plain env" "n < 128"
  shows "result_text env (shell_status (word_of_int (int n))) = status_text n"
  using assms exit_status_word [OF assms(2)]
  by (auto simp: result_text_def Let_def exits_plain_def status_text_def get_status_name_def stf_codes result_tbl_def)

lemma command_testcase_start:
  assumes "io_calm env" "under_way p i v sh" "jact v = 0"
    and "CHR '' '' \<in> set line" "length line < MAXCHAR" "length (name_of line) < 256"
  shows "returns (run_command env ppid (pid, Testcase_start, [nm, line]) sh) (\<lambda>st sh'. st = 0 \<and> (\<exists>w. under_way p i w sh' \<and> jact w = 0) \<and>
    (\<exists>t. shell_journal sh' = shell_journal sh @ take (MAXCHAR + 1) (tc_start_line ppid line (time_text env t) 0 @ [NL])))"
proof (rule run_command_returns)
  let ?w = "v\<lparr>jasrt := name_of line, jseq := jseq v + 1\<rparr>"
  have lk: "jvar_mlock ?w = MX_Free" using assms(2) by (simp add: under_way_def)
  note sp = under_way_spawn [OF assms(2), of pid]
  have "returns (stf_jnl_testcase_start_pid env ppid line (spawn pid sh)) (\<lambda>_ s.
      (\<exists>w. under_way p i w (absorb s sh) \<and> jact w = 0) \<and>
      (\<exists>t. shell_journal (absorb s sh) = shell_journal sh @ cut (tc_start_line ppid line (time_text env t) 0 @ [NL])))"
  proof (rule returns_mono [OF stf_jnl_testcase_start_pid_ok [OF assms(1) sp assms(4-6), of ppid]])
    fix r s
    assume A: "(\<exists>t. logged (cut (tc_start_line ppid line (time_text env t) (sint (jact v)) @ [NL])) (spawn pid sh) s) \<and> vars_set i ?w (spawn pid sh) s"
    then obtain t where l: "logged (cut (tc_start_line ppid line (time_text env t) 0 @ [NL])) (spawn pid sh) s"
      using assms(3) by auto
    note U = under_way_logged [OF assms(2) l _ lk]
    have "jact ?w = 0" using assms(3) by simp
    then show "(\<exists>w. under_way p i w (absorb s sh) \<and> jact w = 0) \<and>
      (\<exists>t. shell_journal (absorb s sh) = shell_journal sh @ cut (tc_start_line ppid line (time_text env t) 0 @ [NL]))"
      using U A by blast
  qed
  then show "returns (main_of Testcase_start env ppid [nm, line] (spawn pid sh)) (\<lambda>st s. st = 0 \<and> (\<exists>w. under_way p i w (absorb s sh) \<and> jact w = 0) \<and>
      (\<exists>t. shell_journal (absorb s sh) = shell_journal sh @ cut (tc_start_line ppid line (time_text env t) 0 @ [NL])))"
    by (simp add: main_testcase_start_def returns_seq)
qed

lemma command_testcase_end:
  assumes "io_calm env" "exits_plain env" "under_way p i v sh" "jact v = 0" "n < 128"
  shows "returns (run_command env ppid (pid, Testcase_end, [nm, name, dec (int n)]) sh) (\<lambda>st sh'. st = 0 \<and> (\<exists>w. under_way p i w sh' \<and> jact w = 0) \<and>
    (\<exists>t. shell_journal sh' = shell_journal sh @ take (MAXCHAR + 1) (tc_end_line ppid name (status_text n) (time_text env t) 0 @ [NL])))"
proof (rule run_command_returns)
  let ?w = "v\<lparr>jseq := jseq v + 1\<rparr>" and ?st = "shell_status (word_of_int (int n))"
  have lk: "jvar_mlock ?w = MX_Free" using assms(3) by (simp add: under_way_def)
  note sp = under_way_spawn [OF assms(3), of pid]
  have "returns (stf_jnl_testcase_end env name ppid ?st (spawn pid sh)) (\<lambda>_ s.
      (\<exists>w. under_way p i w (absorb s sh) \<and> jact w = 0) \<and>
      (\<exists>t. shell_journal (absorb s sh) = shell_journal sh @ cut (tc_end_line ppid name (status_text n) (time_text env t) 0 @ [NL])))"
  proof (rule returns_mono [OF stf_jnl_testcase_end_ok [OF assms(1) sp, of name ppid ?st]])
    fix r s
    assume A: "(\<exists>t s''. logged (cut (tc_end_line ppid name (result_text env ?st) (time_text env t) (uint (jact v)) @ [NL])) (spawn pid sh) s'' \<and>
       s = s''\<lparr>p_stdout := p_stdout s'' @ get_status_name (WEXITSTATUS ?st) @ [NL]\<rparr>) \<and> vars_set i ?w (spawn pid sh) s"
    then obtain t s'' where l: "logged (cut (tc_end_line ppid name (status_text n) (time_text env t) 0 @ [NL])) (spawn pid sh) s''"
      and s: "s = s''\<lparr>p_stdout := p_stdout s'' @ get_status_name (WEXITSTATUS ?st) @ [NL]\<rparr>"
      using assms(4) result_text_exit [OF assms(2,5)] by auto
    have vs: "vars_set i ?w (spawn pid sh) s''" using A by (simp add: s vars_set_def)
    note U = under_way_logged [OF assms(3) l vs lk]
    obtain j where j: "sh_env sh JNLNAME = Some j" using assms(3) by (auto simp: under_way_def)
    have je: "getenv JNLNAME s'' = sh_env sh JNLNAME" using l by (simp add: logged_def getenv_def)
    have eq: "absorb s sh = (absorb s'' sh)\<lparr>sh_stdout := p_stdout s\<rparr>" by (simp add: s absorb_def)
    have "journal s = journal s''" using j je by (simp add: s journal_stdout)
    moreover have "getenv JNLNAME s = sh_env sh JNLNAME" using je by (simp add: s getenv_def)
    ultimately have "shell_journal (absorb s sh) = shell_journal (absorb s'' sh)"
      using absorb_journal [OF je] absorb_journal [of s sh] by simp
    moreover have "under_way p i ?w (absorb s sh)" using U(1)
      by (simp add: eq under_way_def shell_wf_def proc_wf_def spawn_def getenv_def shell_vars_def vars_at_def)
    moreover have "jact ?w = 0" using assms(4) by simp
    ultimately show "(\<exists>w. under_way p i w (absorb s sh) \<and> jact w = 0) \<and>
      (\<exists>t. shell_journal (absorb s sh) = shell_journal sh @ cut (tc_end_line ppid name (status_text n) (time_text env t) 0 @ [NL]))"
      using U(2) by metis
  qed
  moreover have "atoi (dec (int n)) = Some (int n)" using assms(5) by (intro atoi_dec) (simp_all add: INT_MIN_def INT_MAX_def)
  ultimately show "returns (main_of Testcase_end env ppid [nm, name, dec (int n)] (spawn pid sh)) (\<lambda>st s. st = 0 \<and> (\<exists>w. under_way p i w (absorb s sh) \<and> jact w = 0) \<and>
      (\<exists>t. shell_journal (absorb s sh) = shell_journal sh @ cut (tc_end_line ppid name (status_text n) (time_text env t) 0 @ [NL])))"
    by (simp add: main_testcase_end_def returns_seq)
qed

section \<open>A run of tests\<close>

lemma run_script_append:
  "returns (run_script env ppid (cs @ cs') sh) Q \<longleftrightarrow>
   returns (run_script env ppid cs sh) (\<lambda>sts sh. returns (run_script env ppid cs' sh) (\<lambda>sts'. Q (sts @ sts')))"
  by (induction cs arbitrary: sh Q) (simp_all add: returns_seq)

lemma run_script_bracket:
  "returns (run_script env ppid ([a] @ cs @ [b]) sh) Q \<longleftrightarrow>
   returns (run_command env ppid a sh) (\<lambda>st sh1. returns (run_script env ppid cs sh1) (\<lambda>sts sh2.
     returns (run_command env ppid b sh2) (\<lambda>st' sh3. Q ([st] @ sts @ [st']) sh3)))"
  by (simp add: run_script_append returns_seq)

lemma session_case:
  assumes "io_calm env" "exits_plain env" "under_way p i v sh" "jact v = 0" "tcase_ok c"
  shows "returns (run_script env ppid (tcase_script c) sh) (\<lambda>sts sh'. set sts \<subseteq> {0} \<and> (\<exists>w. under_way p i w sh' \<and> jact w = 0) \<and>
    (\<exists>en. tcase_text env ppid c en \<and> shell_journal sh' = shell_journal sh @ en))"
proof -
  obtain p1 p2 line name n where c: "c = (p1, p2, line, name, n)" by (cases c)
  have ok: "CHR '' '' \<in> set line" "length line < MAXCHAR" "length (name_of line) < 256" "n < 128"
    using assms(5) by (simp_all add: tcase_ok_def c)
  define C1 where "C1 = (p1, Testcase_start, [''stf_jnl_testcase_start'', line])"
  define C2 where "C2 = (p2, Testcase_end, [''stf_jnl_testcase_end'', name, dec (int n)])"
  have "returns (run_command env ppid C1 sh) (\<lambda>st sh'. returns (run_command env ppid C2 sh') (\<lambda>st' sh''.
      set [st, st'] \<subseteq> {0} \<and> (\<exists>w. under_way p i w sh'' \<and> jact w = 0) \<and>
      (\<exists>en. tcase_text env ppid c en \<and> shell_journal sh'' = shell_journal sh @ en)))"
  proof (rule returns_mono [OF command_testcase_start [OF assms(1,3,4) ok(1-3), of ppid p1 "''stf_jnl_testcase_start''", folded C1_def]])
    fix st :: int and sh'
    assume A: "st = 0 \<and> (\<exists>w. under_way p i w sh' \<and> jact w = 0) \<and>
      (\<exists>t. shell_journal sh' = shell_journal sh @ cut (tc_start_line ppid line (time_text env t) 0 @ [NL]))"
    then obtain w t where w: "under_way p i w sh'" "jact w = 0"
      and t: "shell_journal sh' = shell_journal sh @ cut (tc_start_line ppid line (time_text env t) 0 @ [NL])" by blast
    show "returns (run_command env ppid C2 sh') (\<lambda>st' sh''.
      set [st, st'] \<subseteq> {0} \<and> (\<exists>w. under_way p i w sh'' \<and> jact w = 0) \<and>
      (\<exists>en. tcase_text env ppid c en \<and> shell_journal sh'' = shell_journal sh @ en))"
    proof (rule returns_mono [OF command_testcase_end [OF assms(1,2) w ok(4), of ppid p2 "''stf_jnl_testcase_end''" name, folded C2_def]])
      fix st' :: int and sh''
      assume B: "st' = 0 \<and> (\<exists>w. under_way p i w sh'' \<and> jact w = 0) \<and>
        (\<exists>t. shell_journal sh'' = shell_journal sh' @ cut (tc_end_line ppid name (status_text n) (time_text env t) 0 @ [NL]))"
      then obtain u where "shell_journal sh'' = shell_journal sh' @ cut (tc_end_line ppid name (status_text n) (time_text env u) 0 @ [NL])"
        by blast
      then have "shell_journal sh'' = shell_journal sh @ cut (tc_start_line ppid line (time_text env t) 0 @ [NL]) @
          cut (tc_end_line ppid name (status_text n) (time_text env u) 0 @ [NL])" using t by simp
      then have "\<exists>en. tcase_text env ppid c en \<and> shell_journal sh'' = shell_journal sh @ en"
        unfolding tcase_text_def c prod.case by blast
      then show "set [st, st'] \<subseteq> {0} \<and> (\<exists>w. under_way p i w sh'' \<and> jact w = 0) \<and>
        (\<exists>en. tcase_text env ppid c en \<and> shell_journal sh'' = shell_journal sh @ en)" using A B by simp
    qed
  qed
  then show ?thesis by (simp add: tcase_script_def c returns_seq C1_def C2_def)
qed

lemma session_cases:
  assumes "io_calm env" "exits_plain env" "under_way p i v sh" "jact v = 0" "\<forall>c \<in> set cs. tcase_ok c"
  shows "returns (run_script env ppid (concat (map tcase_script cs)) sh) (\<lambda>sts sh'. set sts \<subseteq> {0} \<and> (\<exists>w. under_way p i w sh' \<and> jact w = 0) \<and>
    (\<exists>txts. list_all2 (tcase_text env ppid) cs txts \<and> shell_journal sh' = shell_journal sh @ concat txts))"
  using assms(3-5)
proof (induction cs arbitrary: sh v)
  case Nil
  then show ?case by auto
next
  case (Cons c cs)
  have ok: "tcase_ok c" using Cons.prems by simp
  have "returns (run_script env ppid (tcase_script c) sh) (\<lambda>sts sh'. returns (run_script env ppid (concat (map tcase_script cs)) sh') (\<lambda>sts' sh''.
      set (sts @ sts') \<subseteq> {0} \<and> (\<exists>w. under_way p i w sh'' \<and> jact w = 0) \<and>
      (\<exists>txts. list_all2 (tcase_text env ppid) (c # cs) txts \<and> shell_journal sh'' = shell_journal sh @ concat txts)))"
  proof (rule returns_mono [OF session_case [OF assms(1,2) Cons.prems(1,2) ok]])
    fix sts :: "int list" and sh'
    assume A: "set sts \<subseteq> {0} \<and> (\<exists>w. under_way p i w sh' \<and> jact w = 0) \<and>
      (\<exists>en. tcase_text env ppid c en \<and> shell_journal sh' = shell_journal sh @ en)"
    then obtain w en where w: "under_way p i w sh'" "jact w = 0"
      and t: "tcase_text env ppid c en" "shell_journal sh' = shell_journal sh @ en" by blast
    have oks: "\<forall>c \<in> set cs. tcase_ok c" using Cons.prems by simp
    show "returns (run_script env ppid (concat (map tcase_script cs)) sh') (\<lambda>sts' sh''.
      set (sts @ sts') \<subseteq> {0} \<and> (\<exists>w. under_way p i w sh'' \<and> jact w = 0) \<and>
      (\<exists>txts. list_all2 (tcase_text env ppid) (c # cs) txts \<and> shell_journal sh'' = shell_journal sh @ concat txts))"
    proof (rule returns_mono [OF Cons.IH [OF w oks]])
      fix sts' :: "int list" and sh''
      assume B: "set sts' \<subseteq> {0} \<and> (\<exists>w. under_way p i w sh'' \<and> jact w = 0) \<and>
        (\<exists>txts. list_all2 (tcase_text env ppid) cs txts \<and> shell_journal sh'' = shell_journal sh' @ concat txts)"
      then obtain txts where "list_all2 (tcase_text env ppid) cs txts" "shell_journal sh'' = shell_journal sh' @ concat txts" by blast
      then have "list_all2 (tcase_text env ppid) (c # cs) (en # txts)" "shell_journal sh'' = shell_journal sh @ concat (en # txts)"
        using t by simp_all
      then show "set (sts @ sts') \<subseteq> {0} \<and> (\<exists>w. under_way p i w sh'' \<and> jact w = 0) \<and>
        (\<exists>txts. list_all2 (tcase_text env ppid) (c # cs) txts \<and> shell_journal sh'' = shell_journal sh @ concat txts)"
        using A B by auto
    qed
  qed
  then show ?case by (simp add: run_script_append)
qed

lemma command_start:
  assumes "io_calm env" "shell_wf sh" "sh_env sh VARFILE = Some p" "sh_dir sh p = None" "sh_env sh JNLNAME = Some j" "j \<noteq> p"
    and "0 \<le> pid" "pid \<le> INT_MAX"
  shows "returns (run_command env ppid (pid, Start, argv) sh) (\<lambda>st sh'. st = 0 \<and> (\<exists>i. under_way p i vf_init sh') \<and>
    (\<exists>t u. shell_journal sh' = shell_journal sh @ take (MAXCHAR + 1) (start_line1 env (date_text env t) (time_text env u) @ [NL]) @
      take (MAXCHAR + 1) (start_line2 env ppid @ [NL])))"
proof (rule run_command_returns)
  have vn: "var_name (spawn pid sh) = p" by (simp add: var_name_def assms(3))
  have pre: "proc_wf (spawn pid sh)" "0 \<le> p_pid (spawn pid sh)" "p_pid (spawn pid sh) \<le> INT_MAX"
    "p_dir (spawn pid sh) (var_name (spawn pid sh)) = None" "getenv JNLNAME (spawn pid sh) \<noteq> Some (var_name (spawn pid sh))"
    using assms by (simp_all add: spawn_pid vn)
  define Q where "Q = (\<lambda>sh'. (\<exists>i. under_way p i vf_init sh') \<and>
    (\<exists>t u. shell_journal sh' = shell_journal sh @ cut (start_line1 env (date_text env t) (time_text env u) @ [NL]) @
      cut (start_line2 env ppid @ [NL])))"
  have "returns (stf_jnl_start_pid env ppid (spawn pid sh)) (\<lambda>_ s. Q (absorb s sh))"
  proof (rule returns_mono [OF stf_jnl_start_pid_ok [OF assms(1) pre, of ppid]])
    fix r s
    assume A: "started env ppid (spawn pid sh) s"
    then have j: "getenv JNLNAME s = sh_env sh JNLNAME" by (simp add: started_def)
    obtain i where "p_dir s p = Some i" "vars_at i s = Some vf_init" using A by (auto simp: started_def vn)
    then have "under_way p i vf_init (absorb s sh)"
      using A assms(3,5,6) absorb_wf [OF j] by (auto simp: under_way_def started_def vf_init_def)
    moreover obtain t u where "journal s = shell_journal sh @ cut (start_line1 env (date_text env t) (time_text env u) @ [NL]) @
        cut (start_line2 env ppid @ [NL])" using A unfolding started_def spawn_pid by blast
    ultimately show "Q (absorb s sh)" unfolding Q_def absorb_journal [OF j] by blast
  qed
  then show "returns (main_of Start env ppid argv (spawn pid sh)) (\<lambda>st s. st = 0 \<and> (\<exists>i. under_way p i vf_init (absorb s sh)) \<and>
    (\<exists>t u. shell_journal (absorb s sh) = shell_journal sh @ cut (start_line1 env (date_text env t) (time_text env u) @ [NL]) @
      cut (start_line2 env ppid @ [NL])))"
    by (simp add: main_start_def returns_seq Q_def)
qed

lemma command_end:
  assumes "io_calm env" "under_way p i v sh" "pid \<le> INT_MAX"
  shows "returns (run_command env ppid (pid, End_run, argv) sh) (\<lambda>st sh'. st = 0 \<and> sh_dir sh' p = None \<and>
    (\<exists>t. shell_journal sh' = shell_journal sh @ take (MAXCHAR + 1) (end_line pid (time_text env t) @ [NL])))"
proof (rule run_command_returns)
  obtain j where u: "sh_env sh VARFILE = Some p" "sh_dir sh p = Some i" "sh_env sh JNLNAME = Some j" "j \<noteq> p"
    using assms(2) by (auto simp: under_way_def)
  have pre: "getenv VARFILE (spawn pid sh) = Some p" "p_dir (spawn pid sh) p = Some i" "getenv JNLNAME (spawn pid sh) \<noteq> Some p"
    using u by simp_all
  define Q where "Q = (\<lambda>sh'. sh_dir sh' p = None \<and>
    (\<exists>t. shell_journal sh' = shell_journal sh @ cut (end_line pid (time_text env t) @ [NL])))"
  have "returns (stf_jnl_end_pid env pid (spawn pid sh)) (\<lambda>_ s. Q (absorb s sh))"
  proof (rule returns_mono [OF stf_jnl_end_pid_ok [OF assms(1) under_way_spawn(1) [OF assms(2)] pre, of pid]])
    fix r s
    assume A: "(\<exists>t. journal s = journal (spawn pid sh) @ cut (end_line pid (time_text env t) @ [NL])) \<and> p_dir s p = None \<and>
      p_fds s = p_fds (spawn pid sh) \<and> proc_wf s \<and> p_env s = p_env (spawn pid sh) \<and> p_errs s = p_errs (spawn pid sh) \<and>
      (\<forall>i. vars_at i s = vars_at i (spawn pid sh))"
    then have j: "getenv JNLNAME s = sh_env sh JNLNAME" by (simp add: getenv_def)
    show "Q (absorb s sh)" using A unfolding Q_def absorb_journal [OF j] spawn_pid by simp
  qed
  then show "returns (main_of End_run env ppid argv (spawn pid sh)) (\<lambda>st s. st = 0 \<and> sh_dir (absorb s sh) p = None \<and>
    (\<exists>t. shell_journal (absorb s sh) = shell_journal sh @ cut (end_line pid (time_text env t) @ [NL])))"
    using assms(3) by (simp add: main_end_def returns_seq Q_def stf_jnl_end_def with_pid_small)
qed

text \<open>The script of a run: start, the tests, end.\<close>

definition session :: "int \<Rightarrow> int \<Rightarrow> tcase list \<Rightarrow> (int \<times> program \<times> string list) list" where
  "session p1 p2 cs = [(p1, Start, [''stf_jnl_start''])] @ concat (map tcase_script cs) @ [(p2, End_run, [''stf_jnl_end''])]"

text \<open>
  C28. A script that exports the name of a variable file that does not exist yet, starts a run, brackets any number of
  tests with the commands for their start and end, and ends the run: every command is a process of its own and ends
  with status 0, the journal has the two start lines, for each test in order its start entry and its end entry with the
  name of its exit status, and the end line; the variable file is gone.
\<close>

theorem journal_of_a_session:
  assumes "io_calm env" "exits_plain env" "shell_wf sh" "sh_env sh VARFILE = Some p" "sh_dir sh p = None"
    and "sh_env sh JNLNAME = Some j" "j \<noteq> p" "0 \<le> p1" "p1 \<le> INT_MAX" "p2 \<le> INT_MAX" "\<forall>c \<in> set cs. tcase_ok c"
  shows "returns (run_script env ppid (session p1 p2 cs) sh) (\<lambda>sts sh'. set sts = {0} \<and> sh_dir sh' p = None \<and>
    (\<exists>t u w ens. list_all2 (tcase_text env ppid) cs ens \<and>
      shell_journal sh' = shell_journal sh @ take (MAXCHAR + 1) (start_line1 env (date_text env t) (time_text env u) @ [NL]) @
        take (MAXCHAR + 1) (start_line2 env ppid @ [NL]) @ concat ens @ take (MAXCHAR + 1) (end_line p2 (time_text env w) @ [NL])))"
    (is "returns _ (\<lambda>sts sh'. ?Q sts sh')")
proof -
  have "returns (run_command env ppid (p1, Start, [''stf_jnl_start'']) sh) (\<lambda>st sh1.
    returns (run_script env ppid (concat (map tcase_script cs)) sh1) (\<lambda>sts sh2.
    returns (run_command env ppid (p2, End_run, [''stf_jnl_end'']) sh2) (\<lambda>st' sh3. ?Q ([st] @ sts @ [st']) sh3)))"
  proof (rule returns_mono [OF command_start [OF assms(1,3-9), of ppid "[''stf_jnl_start'']"]])
    fix st :: int and sh1
    assume A: "st = 0 \<and> (\<exists>i. under_way p i vf_init sh1) \<and>
      (\<exists>t u. shell_journal sh1 = shell_journal sh @ cut (start_line1 env (date_text env t) (time_text env u) @ [NL]) @
        cut (start_line2 env ppid @ [NL]))"
    then obtain i t u where i: "under_way p i vf_init sh1"
      and j1: "shell_journal sh1 = shell_journal sh @ cut (start_line1 env (date_text env t) (time_text env u) @ [NL]) @
        cut (start_line2 env ppid @ [NL])" by blast
    have z: "jact vf_init = 0" by (simp add: vf_init_def)
    show "returns (run_script env ppid (concat (map tcase_script cs)) sh1) (\<lambda>sts sh2.
      returns (run_command env ppid (p2, End_run, [''stf_jnl_end'']) sh2) (\<lambda>st' sh3. ?Q ([st] @ sts @ [st']) sh3))"
    proof (rule returns_mono [OF session_cases [OF assms(1,2) i z assms(11)]])
      fix sts :: "int list" and sh2
      assume B: "set sts \<subseteq> {0} \<and> (\<exists>w. under_way p i w sh2 \<and> jact w = 0) \<and>
        (\<exists>ens. list_all2 (tcase_text env ppid) cs ens \<and> shell_journal sh2 = shell_journal sh1 @ concat ens)"
      then obtain v ens where v: "under_way p i v sh2"
        and j2: "list_all2 (tcase_text env ppid) cs ens" "shell_journal sh2 = shell_journal sh1 @ concat ens" by blast
      show "returns (run_command env ppid (p2, End_run, [''stf_jnl_end'']) sh2) (\<lambda>st' sh3. ?Q ([st] @ sts @ [st']) sh3)"
      proof (rule returns_mono [OF command_end [OF assms(1) v assms(10)]])
        fix st' :: int and sh3
        assume C: "st' = 0 \<and> sh_dir sh3 p = None \<and>
          (\<exists>t. shell_journal sh3 = shell_journal sh2 @ cut (end_line p2 (time_text env t) @ [NL]))"
        then obtain w where "shell_journal sh3 = shell_journal sh2 @ cut (end_line p2 (time_text env w) @ [NL])" by blast
        then have "shell_journal sh3 = shell_journal sh @ cut (start_line1 env (date_text env t) (time_text env u) @ [NL]) @
            cut (start_line2 env ppid @ [NL]) @ concat ens @ cut (end_line p2 (time_text env w) @ [NL])"
          using j1 j2(2) by simp
        then show "?Q ([st] @ sts @ [st']) sh3" using A B C j2(1) by auto
      qed
    qed
  qed
  then show ?thesis unfolding session_def run_script_bracket .
qed

text \<open>A script with one test, which exits with status 3.\<close>

definition bare_shell :: shell where
  "bare_shell = \<lparr>sh_tick = 0, sh_env = [JNLNAME \<mapsto> ''/j'', VARFILE \<mapsto> ''/v''], sh_dir = Map.empty, sh_inodes = Map.empty,
     sh_next = 0, sh_stdout = [], sh_errs = []\<rparr>"

lemma bare_shell [simp]: "shell_wf bare_shell" "shell_journal bare_shell = []"
  by (simp_all add: shell_wf_def proc_wf_def spawn_def getenv_def bare_shell_def shell_journal_def journal_def JNLNAME_def VARFILE_def)

lemma calm_exits_plain: "exits_plain calm_io"
proof -
  have "push_bit 8 (word_of_nat n :: u32) AND 0xFF = 0" for n
  proof -
    have "(0xFF :: u32) = mask 8" by (simp add: mask_eq_exp_minus_1)
    then have "push_bit 8 (word_of_nat n :: u32) AND 0xFF = take_bit 8 (push_bit 8 (word_of_nat n))" by (simp add: take_bit_eq_mask)
    then show ?thesis by (simp add: take_bit_push_bit)
  qed
  then show ?thesis by (simp add: exits_plain_def calm_io_def)
qed

theorem journal_of_a_session_witness:
  "returns (run_script calm_io 7 (session 8 11 [(9, 10, ''./t 1'', ''t'', 3)]) bare_shell) (\<lambda>sts sh'. set sts = {0} \<and> sh_dir sh' ''/v'' = None)"
proof (rule returns_mono)
  show "returns (run_script calm_io 7 (session 8 11 [(9, 10, ''./t 1'', ''t'', 3)]) bare_shell) (\<lambda>sts sh'. set sts = {0} \<and> sh_dir sh' ''/v'' = None \<and>
    (\<exists>t u w ens. list_all2 (tcase_text calm_io 7) [(9, 10, ''./t 1'', ''t'', 3)] ens \<and>
      shell_journal sh' = shell_journal bare_shell @ take (MAXCHAR + 1) (start_line1 calm_io (date_text calm_io t) (time_text calm_io u) @ [NL]) @
        take (MAXCHAR + 1) (start_line2 calm_io 7 @ [NL]) @ concat ens @ take (MAXCHAR + 1) (end_line 11 (time_text calm_io w) @ [NL])))"
    by (rule journal_of_a_session [where j = "''/j''"])
      (simp_all add: calm_exits_plain bare_shell_def [THEN arg_cong, of sh_env] bare_shell_def [THEN arg_cong, of sh_dir] JNLNAME_def VARFILE_def INT_MAX_def tcase_ok_def MAXCHAR_def name_of_def)
qed auto

section \<open>Totals\<close>

text \<open>The count of a result is the last one given for its name.\<close>

definition counted :: "(string \<times> int) list \<Rightarrow> nat \<Rightarrow> int" where
  "counted ps i = (if i < 11 then (case map_of (rev ps) (result_tbl ! i) of None \<Rightarrow> 0 | Some c \<Rightarrow> c) else 0)"

definition totals_argv :: "string \<Rightarrow> string \<Rightarrow> (string \<times> int) list \<Rightarrow> string list" where
  "totals_argv nm subid ps = nm # subid # concat (map (\<lambda>(r, c). [r, dec c]) ps)"

lemma totals_args_counted:
  assumes "\<forall>(r, c) \<in> set ps. INT_MIN \<le> c \<and> c \<le> INT_MAX"
  shows "totals_args nm (concat (map (\<lambda>(r, c). [r, dec c]) ps)) arr s =
    (if fst ` set ps \<subseteq> set result_tbl
     then Ret (\<lambda>i. case (if i < 11 then map_of (rev ps) (result_tbl ! i) else None) of None \<Rightarrow> arr i | Some c \<Rightarrow> c) s
     else Exit 1 (perror (nm @ '': '' @ fst (hd (filter (\<lambda>(r, c). r \<notin> set result_tbl) ps)) @ '' is not a valid result name\<newline>'') s))"
  using assms
proof (induction ps arbitrary: arr)
  case (Cons x ps)
  obtain r c where x: "x = (r, c)" by (cases x)
  have "atoi (dec c) = Some c" using Cons.prems x by simp
  then show ?case using Cons x
    by (auto simp: set_result_def STF_MAX_RESULTS_def map_add_def fun_eq_iff split: option.splits)
qed (simp add: fun_eq_iff)

text \<open>
  C29. The command for totals, for a name shorter than 8000 characters and counts of at most five digits: with valid result
  names it writes one entry, in which each result has the last count given for it and results without a count are left
  out, and no message; with an unknown result name it ends with status 1, whatever stands beside it, exactly one message
  on standard error, which names the program and the first unknown name, and the journal stays as it was.
\<close>

theorem totals_command_counts:
  assumes "io_calm env" "under_way p i v sh" "length subid < 8000" "ps \<noteq> []" "\<forall>(r, c) \<in> set ps. \<bar>c\<bar> < 100000"
  shows "returns (run_command env ppid (pid, Totals, totals_argv nm subid ps) sh) (\<lambda>st sh'.
    if fst ` set ps \<subseteq> set result_tbl
    then st = 0 \<and> sh_errs sh' = sh_errs sh \<and> shell_journal sh' = shell_journal sh @ take (MAXCHAR + 1) (''Totals| '' @ dec ppid @ '' '' @
           (jasrt v @ id_text subid None) @ '' |'' @ concat (map (total_text (counted ps)) [0..<11]) @ [NL])
    else st = 1 \<and> shell_journal sh' = shell_journal sh \<and>
      sh_errs sh' = sh_errs sh @ [nm @ '': '' @ fst (hd (filter (\<lambda>(r, c). r \<notin> set result_tbl) ps)) @ '' is not a valid result name\<newline>''])"
proof -
  define Q where "Q = (\<lambda>sh'. sh_errs sh' = sh_errs sh \<and> shell_journal sh' = shell_journal sh @ cut (''Totals| '' @ dec ppid @ '' '' @
           (jasrt v @ id_text subid None) @ '' |'' @ concat (map (total_text (counted ps)) [0..<11]) @ [NL]))"
  have bounds: "\<forall>(r, c) \<in> set ps. INT_MIN \<le> c \<and> c \<le> INT_MAX" using assms(5) by (auto simp: INT_MIN_def INT_MAX_def)
  have len: "length (totals_argv nm subid ps) = 2 + 2 * length ps"
    by (induction ps) (auto simp: totals_argv_def)
  note args = totals_args_counted [OF bounds, of nm "\<lambda>i. 0" "spawn pid sh"]
  have cnt: "(\<lambda>i. case (if i < 11 then map_of (rev ps) (result_tbl ! i) else None) of None \<Rightarrow> 0 | Some c \<Rightarrow> c) = counted ps"
    by (auto simp: counted_def fun_eq_iff)
  have small: "\<forall>i < 11. \<bar>counted ps i\<bar> < 100000"
    using assms(5) by (auto simp: counted_def split: option.splits dest!: map_of_SomeD)
  have total: "returns (stf_jnl_totals_pid env ppid subid (counted ps) (spawn pid sh)) (\<lambda>_ s. Q (absorb s sh))"
  proof (rule returns_mono [OF stf_jnl_totals_pid_ok [OF assms(1) under_way_spawn [OF assms(2)] assms(3), of ppid "counted ps"]])
    fix r s
    assume A: "logged (cut (totals_line ppid (jasrt v @ id_text subid None) (counted ps) @ [NL])) (spawn pid sh) s \<and> vars_set i v (spawn pid sh) s"
    have "jvar_mlock v = MX_Free" using assms(2) by (simp add: under_way_def)
    moreover have "sh_errs (absorb s sh) = sh_errs sh" using A by (simp add: logged_def absorb_def spawn_def)
    ultimately show "Q (absorb s sh)" unfolding Q_def
      using A under_way_logged(2) [OF assms(2)] by (auto simp only: totals_line_small [OF small] append_assoc)
  qed
  have same: "shell_journal (absorb (perror m (spawn pid sh)) sh) = shell_journal sh" for m
    using absorb_journal [of "perror m (spawn pid sh)" sh]
    by (simp add: perror_def getenv_def) (simp add: journal_def getenv_def shell_journal_def spawn_def split: option.splits)
  have "returns (run_command env ppid (pid, Totals, totals_argv nm subid ps) sh) (\<lambda>st sh'.
    if fst ` set ps \<subseteq> set result_tbl then st = 0 \<and> Q sh' else st = 1 \<and> shell_journal sh' = shell_journal sh \<and>
      sh_errs sh' = sh_errs sh @ [nm @ '': '' @ fst (hd (filter (\<lambda>(r, c). r \<notin> set result_tbl) ps)) @ '' is not a valid result name\<newline>''])"
  proof (cases "fst ` set ps \<subseteq> set result_tbl")
    case True
    have "main_totals env ppid (totals_argv nm subid ps) (spawn pid sh) =
        seq (stf_jnl_totals_pid env ppid subid (counted ps) (spawn pid sh)) (\<lambda>_ s. Ret 0 s)"
      using args cnt assms(4) len True by (simp add: main_totals_def) (simp add: totals_argv_def)
    then show ?thesis using total True by (intro run_command_returns) (simp add: returns_seq)
  next
    case False
    let ?m = "nm @ '': '' @ fst (hd (filter (\<lambda>(r, c). r \<notin> set result_tbl) ps)) @ '' is not a valid result name\<newline>''"
    have "main_totals env ppid (totals_argv nm subid ps) (spawn pid sh) = Exit 1 (perror ?m (spawn pid sh))"
      using args assms(4) len False by (simp add: main_totals_def) (simp add: totals_argv_def)
    moreover have "sh_errs (absorb (perror ?m (spawn pid sh)) sh) = sh_errs sh @ [?m]" by (simp add: absorb_def perror_def spawn_def)
    ultimately show ?thesis using same False by (simp add: run_command_def)
  qed
  then show ?thesis unfolding Q_def by (simp add: conj_ac)
qed

theorem totals_command_counts_witness:
  "returns (run_command calm_io 7 (8, Totals, totals_argv ''t'' ''s'' [(''PASS'', 1), (''FIAL'', 2)])
     (absorb tc_proc bare_shell)) (\<lambda>st sh'. st = 1 \<and> last (sh_errs sh') = ''t: FIAL is not a valid result name\<newline>'')"
proof -
  have u: "under_way ''/v'' 3 vf_init (absorb tc_proc bare_shell)"
    by (auto simp: under_way_def shell_wf_def proc_wf_def absorb_def bare_shell_def spawn_def tc_proc_def sh_proc_def getenv_def
      shell_vars_def vars_at_def vf_init_def JNLNAME_def VARFILE_def split: if_splits)
  have "''FIAL'' \<notin> set result_tbl" by (simp add: result_tbl_def)
  then show ?thesis
    using totals_command_counts [OF calm_io u, of "''s''" "[(''PASS'', 1), (''FIAL'', 2)]" 7 8 "''t''"]
    by (auto simp: result_tbl_def elim!: returns_mono)
qed

end
