(* ===== verification/Files.thy ===== *)
theory Files
  imports Args
begin

text \<open>
  A file system as the file utilities of the ZFS suite see it: names with the bytes of the files. A descriptor is a
  name with a position; what a call may answer beyond the contents of the file (an error, a short transfer, no memory,
  a random number) is decided by an environment, at each call anew.
\<close>

type_synonym byte = u8

record fsys =
  fs_tick :: nat
  fs_files :: "string \<rightharpoonup> byte list"
  fs_out :: "string list"

text \<open>
  Errors are numbers above 0. \<open>fe_write t n\<close> and \<open>fe_read t n\<close> are the part of \<open>n\<close> bytes that is transferred, or
  the negative of an error number.
\<close>

record fs_env =
  fe_open :: "nat \<Rightarrow> int"
  fe_write :: "nat \<Rightarrow> nat \<Rightarrow> int"
  fe_read :: "nat \<Rightarrow> nat \<Rightarrow> int"
  fe_trunc :: "nat \<Rightarrow> int"
  fe_alloc :: "nat \<Rightarrow> bool"
  fe_random :: "nat \<Rightarrow> nat"
  fe_strerror :: "int \<Rightarrow> string"

record fd =
  fd_name :: string
  fd_pos :: nat
  fd_append :: bool

abbreviation ftick :: "fsys \<Rightarrow> fsys" where
  "ftick fs \<equiv> fs\<lparr>fs_tick := Suc (fs_tick fs)\<rparr>"

definition say :: "string \<Rightarrow> fsys \<Rightarrow> fsys" where
  "say msg fs = fs\<lparr>fs_out := fs_out fs @ [msg]\<rparr>"

section \<open>Calls\<close>

definition sys_open :: "fs_env \<Rightarrow> string \<Rightarrow> bool \<Rightarrow> bool \<Rightarrow> bool \<Rightarrow> fsys \<Rightarrow> (int + fd) \<times> fsys" where
  "sys_open env name creat trunc app fs =
     (let d = \<lparr>fd_name = name, fd_pos = 0, fd_append = app\<rparr> in
      if fe_open env (fs_tick fs) \<noteq> 0 then (Inl (fe_open env (fs_tick fs)), ftick fs)
      else case fs_files fs name of
          None \<Rightarrow> if creat then (Inr d, (ftick fs)\<lparr>fs_files := (fs_files fs)(name \<mapsto> [])\<rparr>) else (Inl ENOENT, ftick fs)
        | Some b \<Rightarrow> (Inr d, (ftick fs)\<lparr>fs_files := (fs_files fs)(name \<mapsto> (if trunc then [] else b))\<rparr>))"

text \<open>\<^verbatim>\<open>lseek\<close> from the beginning: a negative offset is an error, and the position stays.\<close>

definition sys_seek :: "int \<Rightarrow> fd \<Rightarrow> int \<times> fd" where
  "sys_seek off d = (if off < 0 then (-1, d) else (off, d\<lparr>fd_pos := nat off\<rparr>))"

text \<open>Bytes laid over a file at a position; a gap before them is filled with zeros.\<close>

definition lay :: "byte list \<Rightarrow> nat \<Rightarrow> byte list \<Rightarrow> byte list" where
  "lay b pos xs = (if xs = [] then b else take pos (b @ replicate (pos - length b) 0) @ xs @ drop (pos + length xs) b)"

definition contents :: "fd \<Rightarrow> fsys \<Rightarrow> byte list" where
  "contents d fs = (case fs_files fs (fd_name d) of None \<Rightarrow> [] | Some b \<Rightarrow> b)"

definition sys_write :: "fs_env \<Rightarrow> fd \<Rightarrow> byte list \<Rightarrow> fsys \<Rightarrow> int \<times> fd \<times> fsys" where
  "sys_write env d xs fs =
     (let r = fe_write env (fs_tick fs) (length xs);
          done = take (nat r) xs;
          pos = (if fd_append d then length (contents d fs) else fd_pos d)
      in if r < 0 then (r, d, ftick fs)
         else (int (length done), d\<lparr>fd_pos := pos + length done\<rparr>,
               (ftick fs)\<lparr>fs_files := (fs_files fs)(fd_name d \<mapsto> lay (contents d fs) pos done)\<rparr>))"

definition sys_read :: "fs_env \<Rightarrow> fd \<Rightarrow> nat \<Rightarrow> fsys \<Rightarrow> (int + byte list) \<times> fd \<times> fsys" where
  "sys_read env d n fs =
     (let xs = take n (drop (fd_pos d) (contents d fs));
          r = fe_read env (fs_tick fs) (length xs);
          got = take (nat r) xs
      in if r < 0 then (Inl r, d, ftick fs) else (Inr got, d\<lparr>fd_pos := fd_pos d + length got\<rparr>, ftick fs))"

text \<open>\<^verbatim>\<open>ftruncate\<close> cuts a file or extends it with zeros.\<close>

definition sys_ftruncate :: "fs_env \<Rightarrow> fd \<Rightarrow> int \<Rightarrow> fsys \<Rightarrow> int \<times> fsys" where
  "sys_ftruncate env d len fs =
     (let b = contents d fs; n = nat len in
      if len < 0 \<or> fe_trunc env (fs_tick fs) \<noteq> 0 then (-1, ftick fs)
      else (0, (ftick fs)\<lparr>fs_files := (fs_files fs)(fd_name d \<mapsto> take n b @ replicate (n - length b) 0)\<rparr>))"

text \<open>Whether the first \<open>n\<close> characters of two strings agree, their terminating null characters included.\<close>

definition strncmp_eq :: "nat \<Rightarrow> string \<Rightarrow> string \<Rightarrow> bool" where
  "strncmp_eq n a b \<longleftrightarrow> take n (a @ [CHR 0x00]) = take n (b @ [CHR 0x00])"

section \<open>What the calls do when nothing fails\<close>

definition fs_calm :: "fs_env \<Rightarrow> bool" where
  "fs_calm env \<longleftrightarrow> (\<forall>t. fe_open env t = 0 \<and> fe_trunc env t = 0 \<and> fe_alloc env t) \<and> (\<forall>t n. fe_write env t n = int n \<and> fe_read env t n = int n)"

lemma fs_calmD:
  assumes "fs_calm env"
  shows "fe_open env t = 0" "fe_write env t n = int n" "fe_read env t n = int n" "fe_trunc env t = 0" "fe_alloc env t"
  using assms by (simp_all add: fs_calm_def)

lemma lay_end: "lay b (length b) xs = b @ xs"
  by (simp add: lay_def)

lemma length_lay: "length (lay b pos xs) = (if xs = [] then length b else max (length b) (pos + length xs))"
  by (auto simp: lay_def max_def)

text \<open>What was laid is found there, and nothing else has changed.\<close>

lemma lay_inside: "pos \<le> i \<Longrightarrow> i < pos + length xs \<Longrightarrow> lay b pos xs ! i = xs ! (i - pos)"
  by (auto simp: lay_def nth_append min_def)

lemma lay_outside:
  assumes "i < pos \<or> pos + length xs \<le> i" "i < length (lay b pos xs)"
  shows "lay b pos xs ! i = (if i < length b then b ! i else 0)"
proof (cases "xs = []")
  case True
  then show ?thesis using assms by (simp add: lay_def)
next
  case False
  have "length xs + (pos + (i - (pos + length xs))) = i" if "pos + length xs \<le> i" using that by simp
  then show ?thesis using assms False by (auto simp: lay_def nth_append add.assoc)
qed

lemma strncmp_whole: "CHR 0x00 \<notin> set b \<Longrightarrow> strncmp_eq (length a + 1) a b \<longleftrightarrow> a = b"
proof
  assume b: "CHR 0x00 \<notin> set b" and "strncmp_eq (length a + 1) a b"
  then have e: "a @ [CHR 0x00] = take (length a + 1) (b @ [CHR 0x00])" by (simp add: strncmp_eq_def)
  then have "length (a @ [CHR 0x00]) = length (take (length a + 1) (b @ [CHR 0x00]))" by (rule arg_cong)
  then have le: "length a \<le> length b" by simp
  show "a = b"
  proof (cases "length a = length b")
    case False
    then have "take (length a + 1) (b @ [CHR 0x00]) = take (length a + 1) b" using le by simp
    with e have "CHR 0x00 \<in> set (take (length a + 1) b)" by (metis in_set_conv_decomp)
    then have "CHR 0x00 \<in> set b" by (rule in_set_takeD)
    with b show ?thesis by blast
  qed (use e in simp)
qed (simp add: strncmp_eq_def)

end
