(* ===== verification/File_Tools.thy ===== *)
theory File_Tools
  imports Files
begin

text \<open>
  The file utilities \<^verbatim>\<open>file_write.c\<close>, \<^verbatim>\<open>file_check.c\<close> and \<^verbatim>\<open>file_trunc.c\<close> of the ZFS suite, from the
  arguments to the exit status.
\<close>

section \<open>file_common.h\<close>

definition BLOCKSZ :: int where "BLOCKSZ = 8192"
definition DATA :: byte where "DATA = 0xa5"
definition DATA_RANGE :: int where "DATA_RANGE = 120"
definition BIGBUFFERSIZE :: int where "BIGBUFFERSIZE = 0x800000"
definition BIGFILESIZE :: int where "BIGFILESIZE = 20"

section \<open>file_write\<close>

record fw_opts =
  fw_write_count :: int
  fw_fillchar :: byte
  fw_block_size :: int
  fw_filename :: "string option"
  fw_operation :: "string option"
  fw_offset :: int
  fw_verbose :: bool
  fw_wsync :: bool
  fw_rsync :: bool

definition fw_defaults :: fw_opts where
  "fw_defaults = \<lparr>fw_write_count = BIGFILESIZE, fw_fillchar = DATA, fw_block_size = BLOCKSZ, fw_filename = None,
     fw_operation = None, fw_offset = 0, fw_verbose = False, fw_wsync = False, fw_rsync = False\<rparr>"

text \<open>\<^verbatim>\<open>usage\<close> prints and exits; \<open>base\<close> is the name of the program.\<close>

definition fw_usage :: "string \<Rightarrow> fsys \<Rightarrow> ('r, fsys) run" where
  "fw_usage base fs = Exit 1 (say (''Usage: '' @ base @ '' [-v] -o {create,overwrite,append} -f file_name [-b block_size]\<newline>'' @
     [CHR 0x09] @ ''[-s offset] [-c write_count] [-d data]\<newline>'' @ [CHR 0x09] @ ''where [data] equal to zero causes chars 0->'' @
     dec DATA_RANGE @ '' to be repeated throughout\<newline>'') fs)"

text \<open>One round of the loop over the options. A number that does not fit is undefined.\<close>

definition fw_option :: "string \<Rightarrow> opt \<Rightarrow> fw_opts \<Rightarrow> fsys \<Rightarrow> (fw_opts, fsys) run" where
  "fw_option base o1 op fs =
     (let number = (\<lambda>r f. case r of None \<Rightarrow> Stuck | Some n \<Rightarrow> Ret (f n) fs) in
      case o1 of
        Bad c \<Rightarrow> fw_usage base (say (''unknown arg '' @ [c] @ ''\<newline>'') fs)
      | Opt c None \<Rightarrow>
          if c = CHR ''v'' then Ret (op\<lparr>fw_verbose := True\<rparr>) fs
          else if c = CHR ''w'' then Ret (op\<lparr>fw_wsync := True\<rparr>) fs
          else if c = CHR ''r'' then Ret (op\<lparr>fw_rsync := True\<rparr>) fs else Ret op fs
      | Opt c (Some optarg) \<Rightarrow>
          if c = CHR ''b'' then number (atoi optarg) (\<lambda>n. op\<lparr>fw_block_size := n\<rparr>)
          else if c = CHR ''c'' then number (atoi optarg) (\<lambda>n. op\<lparr>fw_write_count := n\<rparr>)
          else if c = CHR ''d'' then number (atoi optarg) (\<lambda>n. op\<lparr>fw_fillchar := word_of_int n\<rparr>)
          else if c = CHR ''s'' then number (atoll optarg) (\<lambda>n. op\<lparr>fw_offset := n\<rparr>)
          else if c = CHR ''f'' then Ret (op\<lparr>fw_filename := Some optarg\<rparr>) fs
          else if c = CHR ''o'' then Ret (op\<lparr>fw_operation := Some optarg\<rparr>) fs else Ret op fs)"

fun fw_options :: "string \<Rightarrow> opt list \<Rightarrow> fw_opts \<Rightarrow> fsys \<Rightarrow> (fw_opts, fsys) run" where
  "fw_options base [] op fs = Ret op fs"
| "fw_options base (o1 # os) op fs = seq (fw_option base o1 op fs) (\<lambda>op fs. fw_options base os op fs)"

text \<open>The buffer: one character, or with \<^verbatim>\<open>fillchar\<close> 0 the characters of a range over and over.\<close>

fun fill_buffer :: "nat \<Rightarrow> byte \<Rightarrow> byte \<Rightarrow> int \<Rightarrow> byte list" where
  "fill_buffer 0 fillchar nxtfillchar k = []"
| "fill_buffer (Suc n) fillchar nxtfillchar k =
     nxtfillchar #
       (if fillchar = 0
        then let k = (if k mod DATA_RANGE = 0 then 0 else k) in fill_buffer n fillchar (word_of_int k) (k + 1)
        else fill_buffer n fillchar nxtfillchar k)"

text \<open>Whether the file is created and whether it is appended to.\<close>

definition fw_oflag :: "string \<Rightarrow> (bool \<times> bool) option" where
  "fw_oflag operation =
     (if strncmp_eq (length operation + 1) operation ''create'' \<or> strncmp_eq (length operation + 1) operation ''overwrite''
      then Some (True, False)
      else if strncmp_eq (length operation + 1) operation ''append'' then Some (False, True) else None)"

text \<open>The writes; a call that wrote less than the block counts as good.\<close>

fun fw_loop :: "fs_env \<Rightarrow> byte list \<Rightarrow> nat \<Rightarrow> int \<Rightarrow> fd \<Rightarrow> fsys \<Rightarrow> (int, fsys) run" where
  "fw_loop env buf 0 good_writes d fs = Ret good_writes fs"
| "fw_loop env buf (Suc i) good_writes d fs =
     (let (n, d, fs) = sys_write env d buf fs in
      if n < 0
      then Exit (- n) (say (''write failed (-1), good_writes = '' @ dec good_writes @ '', error: '' @ fe_strerror env (- n) @
             ''['' @ dec (- n) @ '']\<newline>'') fs)
      else fw_loop env buf i (good_writes + 1) d fs)"

definition fw_validate :: "string \<Rightarrow> fw_opts \<Rightarrow> fsys \<Rightarrow> (string \<times> string, fsys) run" where
  "fw_validate base op fs =
     (let fs = (if fw_filename op = None then say ''Filename not specified (-f <file>)\<newline>'' fs else fs);
          fs = (if fw_operation op = None then say ''Operation not specified (-o <operation>).\<newline>'' fs else fs);
          fs = (if fw_block_size op > BIGBUFFERSIZE then say (''block_size is too large max=='' @ dec BIGBUFFERSIZE @ ''.\<newline>'') fs else fs)
      in case (fw_filename op, fw_operation op) of
           (Some filename, Some operation) \<Rightarrow>
             if fw_block_size op > BIGBUFFERSIZE then fw_usage base fs else Ret (filename, operation) fs
         | _ \<Rightarrow> fw_usage base fs)"

text \<open>
  A negative block size becomes a huge number of bytes for \<^verbatim>\<open>write\<close>, far behind the end of the buffer.
\<close>

definition fw_write :: "fs_env \<Rightarrow> string \<Rightarrow> fw_opts \<Rightarrow> string \<Rightarrow> string \<Rightarrow> fsys \<Rightarrow> (int, fsys) run" where
  "fw_write env base op filename operation fs =
     (let bigbuffer = fill_buffer (nat (fw_block_size op)) (fw_fillchar op) (fw_fillchar op) 0 in
      case fw_oflag operation of
        None \<Rightarrow> fw_usage base (say (''valid operations are <create|append> not '' @ [CHR 0x27] @ operation @ [CHR 0x27, NL]) fs)
      | Some (creat, app) \<Rightarrow>
          (case sys_open env filename creat False app fs of
             (Inl e, fs) \<Rightarrow> Exit e (say (''open '' @ filename @ '': failed ['' @ fe_strerror env e @ '']'' @ dec e @ ''. Aborting!\<newline>'') fs)
           | (Inr bigfd, fs) \<Rightarrow>
               (case sys_seek (fw_offset op) bigfd of (noffset, bigfd) \<Rightarrow>
                  if noffset \<noteq> fw_offset op
                  then Exit EINVAL (say (''llseek '' @ filename @ '' ('' @ dec (fw_offset op) @ ''/'' @ dec noffset @ '') failed ['' @
                         fe_strerror env EINVAL @ '']'' @ dec EINVAL @ ''.Aborting!\<newline>'') fs)
                  else if fw_block_size op < 0 \<and> fw_write_count op > 0 then Stuck
                  else
                    let fs = (if fw_verbose op
                              then say (filename @ '': block_size = '' @ dec (fw_block_size op) @ '', write_count = '' @ dec (fw_write_count op) @
                                     '', offset = '' @ dec (fw_offset op) @ '', data = '' @
                                     (if fw_fillchar op = 0 then ''0->'' @ dec DATA_RANGE else dec (uint (fw_fillchar op))) @ ''\<newline>'') fs
                              else fs)
                    in seq (fw_loop env bigbuffer (nat (fw_write_count op)) 0 bigfd fs) (\<lambda>good_writes fs.
                       Ret 0 (if fw_verbose op
                              then say (''Success: good_writes = '' @ dec good_writes @ '' ('' @ dec (good_writes * fw_block_size op) @ '')\<newline>'') fs
                              else fs)))))"

definition fw_main :: "fs_env \<Rightarrow> string \<Rightarrow> string list \<Rightarrow> fsys \<Rightarrow> (int, fsys) run" where
  "fw_main env base args fs =
     (case getopt ''b:c:d:s:f:o:vwr'' [] args of (os, rest) \<Rightarrow>
        seq (fw_options base os fw_defaults fs) (\<lambda>op fs.
        seq (fw_validate base op fs) (\<lambda>(filename, operation) fs.
        fw_write env base op filename operation fs)))"

section \<open>file_check\<close>

lemma sys_read_got:
  assumes "sys_read env d n fs = (Inr xs, d', fs')"
  shows "length xs \<le> length (contents d fs) - fd_pos d" "d' = d\<lparr>fd_pos := fd_pos d + length xs\<rparr>" "fs' = ftick fs"
proof -
  define r where "r = fe_read env (fs_tick fs) (length (take n (drop (fd_pos d) (contents d fs))))"
  have "\<not> r < 0" using assms unfolding sys_read_def Let_def r_def [symmetric] by (cases "r < 0") simp_all
  then have xs: "xs = take (nat r) (take n (drop (fd_pos d) (contents d fs)))" and "d' = d\<lparr>fd_pos := fd_pos d + length xs\<rparr>" "fs' = ftick fs"
    using assms unfolding sys_read_def Let_def r_def [symmetric] by (auto simp only: if_False prod.inject sum.inject simp_thms)
  moreover have "length xs \<le> length (drop (fd_pos d) (contents d fs))" unfolding xs by (simp only: length_take min.cobounded1 min.coboundedI1 min_le_iff_disj order_refl simp_thms)
  ultimately show "length xs \<le> length (contents d fs) - fd_pos d" "d' = d\<lparr>fd_pos := fd_pos d + length xs\<rparr>" "fs' = ftick fs" by simp_all
qed

lemma read_full_advances:
  assumes "sys_read env d n fs = (Inr xs, d', fs')" "length xs = n" "0 < n"
  shows "length (contents d' fs') - fd_pos d' < length (contents d fs) - fd_pos d"
proof -
  have "contents d' fs' = contents d fs" using sys_read_got(2,3) [OF assms(1)] by (simp add: contents_def)
  then show ?thesis using sys_read_got(1,2) [OF assms(1)] assms(2,3) by simp
qed

lemma bigbuffer_pos: "0 < nat BIGBUFFERSIZE"
  by (simp add: BIGBUFFERSIZE_def)

text \<open>The loop that reads the file: the bytes up to one that differs, or all.\<close>

function fc_loop :: "fs_env \<Rightarrow> string \<Rightarrow> byte \<Rightarrow> fd \<Rightarrow> fsys \<Rightarrow> (int, fsys) run" where
  "fc_loop env name fillchar d fs =
     (case sys_read env d (nat BIGBUFFERSIZE) fs of
        (Inl r, d, fs) \<Rightarrow> Exit (- r) (say (''read failed (-1), '' @ dec (- r) @ ''\<newline>'') fs)
      | (Inr xs, d, fs) \<Rightarrow>
          (case dropWhile (\<lambda>x. x = fillchar) xs of
             x # _ \<Rightarrow> Exit 1 (say (''error '' @ name @ '': 0x'' @ numeral_in 16 (unat x) @ '' != 0x'' @ numeral_in 16 (unat fillchar) @ '')\<newline>'') fs)
           | [] \<Rightarrow> if length xs = nat BIGBUFFERSIZE then fc_loop env name fillchar d fs else Ret 0 fs))"
  by pat_completeness auto
termination
  by (relation "measure (\<lambda>(env, name, fillchar, d, fs). length (contents d fs) - fd_pos d)")
    (auto dest!: sym [of _ "sys_read _ _ _ _"] intro: read_full_advances bigbuffer_pos)

declare fc_loop.simps [simp del]

definition fc_main :: "fs_env \<Rightarrow> string list \<Rightarrow> fsys \<Rightarrow> (int, fsys) run" where
  "fc_main env argv fs =
     (if length argv < 2 then Exit 1 (say (''Usage: '' @ hd argv @ '' filename [pattern]\<newline>'') fs)
      else case (if length argv > 2 then map_option word_of_int (atoi (argv ! 2)) else Some DATA) of
          None \<Rightarrow> Stuck
        | Some fillchar \<Rightarrow>
            (case sys_open env (argv ! 1) False False False fs of
               (Inl e, fs) \<Rightarrow> Exit 1 (say (''open '' @ argv ! 1 @ '' failed '' @ dec e @ ''\<newline>'') fs)
             | (Inr bigfd, fs) \<Rightarrow> fc_loop env (argv ! 1) fillchar bigfd fs))"

section \<open>file_trunc\<close>

record ft_opts =
  ft_fsize :: int
  ft_bsize :: u64
  ft_count :: int
  ft_rflag :: int
  ft_seed :: int
  ft_vflag :: int
  ft_offset :: int

definition ft_defaults :: "int \<Rightarrow> ft_opts" where
  "ft_defaults now = \<lparr>ft_fsize = 256 * 1024 * 1024, ft_bsize = 512, ft_count = 256 * 1024 * 1024 div 512, ft_rflag = 0,
     ft_seed = now, ft_vflag = 0, ft_offset = 0\<rparr>"

definition ft_usage :: "string \<Rightarrow> fsys \<Rightarrow> ('r, fsys) run" where
  "ft_usage execname fs = Exit 1 (say (''usage: '' @ execname @ '' [-b blocksize] [-c count] [-f filesize]'' @
     '' [-o offset] [-s seed] [-r] [-v] filename\<newline>'') fs)"

text \<open>
  One round of the loop over the options. The case of a colon is never taken: the option string does not begin with
  one, so that a missing argument is reported as a question mark too.
\<close>

definition ft_option :: "string \<Rightarrow> opt \<Rightarrow> ft_opts \<Rightarrow> fsys \<Rightarrow> (ft_opts, fsys) run" where
  "ft_option execname o1 op fs =
     (let number = (\<lambda>r f. case r of None \<Rightarrow> Stuck | Some n \<Rightarrow> Ret (f n) fs) in
      case o1 of
        Bad c \<Rightarrow> ft_usage execname (say (''Unrecognized option: -'' @ [c] @ ''\<newline>'') fs)
      | Opt c None \<Rightarrow>
          if c = CHR ''r'' then Ret (op\<lparr>ft_rflag := ft_rflag op + 1\<rparr>) fs
          else if c = CHR ''v'' then Ret (op\<lparr>ft_vflag := ft_vflag op + 1\<rparr>) fs else Ret op fs
      | Opt c (Some optarg) \<Rightarrow>
          if c = CHR ''b'' then number (atoi optarg) (\<lambda>n. op\<lparr>ft_bsize := word_of_int n\<rparr>)
          else if c = CHR ''c'' then number (atoi optarg) (\<lambda>n. op\<lparr>ft_count := n\<rparr>)
          else if c = CHR ''f'' then number (atoi optarg) (\<lambda>n. op\<lparr>ft_fsize := n\<rparr>)
          else if c = CHR ''o'' then number (atoi optarg) (\<lambda>n. op\<lparr>ft_offset := n\<rparr>)
          else if c = CHR ''s'' then number (atoi optarg) (\<lambda>n. op\<lparr>ft_seed := n\<rparr>) else Ret op fs)"

fun ft_options :: "string \<Rightarrow> opt list \<Rightarrow> ft_opts \<Rightarrow> fsys \<Rightarrow> (ft_opts, fsys) run" where
  "ft_options execname [] op fs = Ret op fs"
| "ft_options execname (o1 # os) op fs = seq (ft_option execname o1 op fs) (\<lambda>op fs. ft_options execname os op fs)"

definition ft_parse_options :: "int \<Rightarrow> string \<Rightarrow> string list \<Rightarrow> fsys \<Rightarrow> (ft_opts \<times> string, fsys) run" where
  "ft_parse_options now execname args fs =
     (case getopt ''b:c:f:o:rs:v'' [] args of (os, rest) \<Rightarrow>
        seq (ft_options execname os (ft_defaults now) fs) (\<lambda>op fs.
        case rest of
          [] \<Rightarrow> ft_usage execname (say ''No filename specified\<newline>'' fs)
        | filename # _ \<Rightarrow> Ret (op, filename) (if ft_vflag op \<noteq> 0 then say (''Seed = '' @ dec (ft_seed op) @ ''\<newline>'') fs else fs)))"

text \<open>The value of a transfer as the comparison with a \<^verbatim>\<open>size_t\<close> sees it: -1 is the largest value.\<close>

definition transferred :: "int \<Rightarrow> u64" where
  "transferred r = (if r < 0 then -1 else word_of_int r)"

text \<open>The string that is written, with its terminating null character.\<close>

definition ft_text :: "byte list" where
  "ft_text = map (\<lambda>c. of_char c) ''ZFS Test Suite Truncation Test'' @ [0]"

text \<open>
  \<^verbatim>\<open>random() % fsize\<close>: undefined for size 0. The random number is not negative, so the remainder is one of the
  absolute value.
\<close>

definition ft_random :: "fs_env \<Rightarrow> ft_opts \<Rightarrow> fsys \<Rightarrow> (int, fsys) run" where
  "ft_random env op fs =
     (if ft_fsize op = 0 then Stuck else Ret (int (fe_random env (fs_tick fs)) mod \<bar>ft_fsize op\<bar>) (ftick fs))"

text \<open>
  One write. The pointer to the allocated block is replaced by that of a string of 31 bytes: a longer block is read
  behind the end of the string, and the string is given to \<^verbatim>\<open>free\<close> at the end, which is undefined.
\<close>

definition do_write :: "fs_env \<Rightarrow> ft_opts \<Rightarrow> fd \<Rightarrow> fsys \<Rightarrow> (fd, fsys) run" where
  "do_write env op d fs =
     (if \<not> fe_alloc env (fs_tick fs) \<or> \<not> fe_alloc env (Suc (fs_tick fs)) then Exit 4 (say ''malloc'' fs)
      else
        seq (ft_random env op (ftick (ftick fs))) (\<lambda>roffset fs.
        case sys_seek (ft_offset op + roffset) d of (r, d) \<Rightarrow>
        if r < 0 then Exit 5 (say ''lseek'' fs)
        else if unat (ft_bsize op) > length ft_text then Stuck
        else
          let buf = take (unat (ft_bsize op)) ft_text; (n, d, fs) = sys_write env d buf fs in
          if transferred n < ft_bsize op then Exit 6 (say ''write'' fs)
          else
            seq (if ft_rflag op = 0 then Ret d fs
                 else
                   case sys_seek (ft_offset op + roffset) d of (r, d) \<Rightarrow>
                   if r < 0 then Exit 7 (say ''lseek'' fs)
                   else (case sys_read env d (unat (ft_bsize op)) fs of
                           (Inl e, d, fs) \<Rightarrow>
                             if transferred e < ft_bsize op then Exit 8 (say ''read'' fs)
                             else if buf \<noteq> replicate (length buf) 0 then Exit 9 (say ''memcmp'' fs) else Ret d fs
                         | (Inr rbuf, d, fs) \<Rightarrow>
                             if word_of_nat (length rbuf) < ft_bsize op then Exit 8 (say ''read'' fs)
                             else if rbuf \<noteq> buf then Exit 9 (say ''memcmp'' fs) else Ret d fs)) (\<lambda>d fs.
            Stuck)))"

text \<open>The truncation of the second half of a round.\<close>

definition do_trunc :: "fs_env \<Rightarrow> ft_opts \<Rightarrow> fd \<Rightarrow> fsys \<Rightarrow> (unit, fsys) run" where
  "do_trunc env op d fs =
     seq (ft_random env op fs) (\<lambda>roffset fs.
     case sys_ftruncate env d (ft_offset op + roffset) fs of (r, fs) \<Rightarrow>
     if r < 0 then Exit 7 (say ''truncate'' fs)
     else Ret () (if ft_vflag op \<noteq> 0 then say (''Truncated at offset '' @ dec (ft_offset op + roffset) @ ''\<newline>'') fs else fs))"

fun ft_loop :: "fs_env \<Rightarrow> ft_opts \<Rightarrow> nat \<Rightarrow> fd \<Rightarrow> fsys \<Rightarrow> (unit, fsys) run" where
  "ft_loop env op 0 d fs = Ret () fs"
| "ft_loop env op (Suc i) d fs =
     seq (do_write env op d fs) (\<lambda>d fs. seq (do_trunc env op d fs) (\<lambda>_ fs. ft_loop env op i d fs))"

definition ft_main :: "fs_env \<Rightarrow> int \<Rightarrow> string \<Rightarrow> string list \<Rightarrow> fsys \<Rightarrow> (int, fsys) run" where
  "ft_main env now execname args fs =
     seq (ft_parse_options now execname args fs) (\<lambda>(op, filename) fs.
     case sys_open env filename True True False fs of
       (Inl e, fs) \<Rightarrow> Exit 3 (say ''open'' fs)
     | (Inr d, fs) \<Rightarrow> seq (ft_loop env op (nat (ft_count op)) d fs) (\<lambda>_ fs. Ret 0 fs))"

end
