(* ===== verification/Files_Spec.thy ===== *)
theory Files_Spec
  imports File_Tools
begin

text \<open>
  The properties of the file utilities: what \<^verbatim>\<open>file_write\<close> leaves in a file, that \<^verbatim>\<open>file_check\<close> accepts exactly the
  files of one byte, that the two fit together, and that \<^verbatim>\<open>file_trunc\<close> cannot end well.
\<close>

section \<open>Reading\<close>

lemma sys_read_calm:
  assumes "fs_calm env"
  shows "sys_read env d n fs = (let xs = take n (drop (fd_pos d) (contents d fs)) in
    (Inr xs, d\<lparr>fd_pos := fd_pos d + length xs\<rparr>, ftick fs))"
  by (simp add: sys_read_def Let_def fs_calmD [OF assms])

lemma contents_tick [simp]: "contents (d\<lparr>fd_pos := k\<rparr>) (ftick fs) = contents d fs"
  by (simp add: contents_def)

text \<open>The loop accepts exactly the rest of a file that has one value.\<close>

lemma fc_loop_checks:
  assumes calm: "fs_calm env" and "fd_pos d \<le> length (contents d fs)"
  shows "if \<forall>x \<in> set (drop (fd_pos d) (contents d fs)). x = fillchar
    then \<exists>t. fc_loop env name fillchar d fs = Ret 0 (fs\<lparr>fs_tick := t\<rparr>)
    else \<exists>t m. fc_loop env name fillchar d fs = Exit 1 (say m (fs\<lparr>fs_tick := t\<rparr>))"
  using assms(2)
proof (induction "length (contents d fs) - fd_pos d" arbitrary: d fs rule: less_induct)
  case less
  define n where "n = nat BIGBUFFERSIZE"
  define xs where "xs = take n (drop (fd_pos d) (contents d fs))"
  let ?d = "d\<lparr>fd_pos := fd_pos d + length xs\<rparr>"
  have n: "0 < n" using bigbuffer_pos by (simp add: n_def)
  have rd: "sys_read env d n fs = (Inr xs, ?d, ftick fs)" by (simp add: sys_read_calm [OF calm] xs_def Let_def)
  have eq: "fc_loop env name fillchar d fs =
      (case dropWhile (\<lambda>x. x = fillchar) xs of
         x # _ \<Rightarrow> Exit 1 (say (''error '' @ name @ '': 0x'' @ numeral_in 16 (unat x) @ '' != 0x'' @ numeral_in 16 (unat fillchar) @ '')\<newline>'') (ftick fs))
       | [] \<Rightarrow> if length xs = n then fc_loop env name fillchar ?d (ftick fs) else Ret 0 (ftick fs))"
    by (subst fc_loop.simps) (simp only: rd [unfolded n_def] n_def prod.case sum.case)
  have split: "drop (fd_pos d) (contents d fs) = xs @ drop (fd_pos ?d) (contents d fs)"
    by (simp add: xs_def) (metis append_take_drop_id drop_drop add.commute length_drop min_def le_add_diff_inverse2 nat_le_linear drop_all)
  show ?case
  proof (cases "\<forall>x \<in> set xs. x = fillchar")
    case False
    then obtain y ys where "dropWhile (\<lambda>x. x = fillchar) xs = y # ys"
      by (cases "dropWhile (\<lambda>x. x = fillchar) xs") auto
    moreover have "\<not> (\<forall>x \<in> set (drop (fd_pos d) (contents d fs)). x = fillchar)" using False split by auto
    ultimately show ?thesis by (auto simp: eq)
  next
    case True
    then have dw: "dropWhile (\<lambda>x. x = fillchar) xs = []" by simp
    note eq' = eq [unfolded dw list.case]
    show ?thesis
    proof (cases "length xs = n")
      case full: True
      have "length (contents ?d (ftick fs)) - fd_pos ?d < length (contents d fs) - fd_pos d"
        by (rule read_full_advances [OF rd full n])
      moreover have "fd_pos ?d \<le> length (contents ?d (ftick fs))" using less.prems by (simp add: xs_def)
      ultimately have ih: "if \<forall>x \<in> set (drop (fd_pos ?d) (contents d fs)). x = fillchar
        then \<exists>t. fc_loop env name fillchar ?d (ftick fs) = Ret 0 ((ftick fs)\<lparr>fs_tick := t\<rparr>)
        else \<exists>t m. fc_loop env name fillchar ?d (ftick fs) = Exit 1 (say m ((ftick fs)\<lparr>fs_tick := t\<rparr>))"
        using less.hyps [of ?d "ftick fs"] by simp
      have all: "(\<forall>x \<in> set (drop (fd_pos d) (contents d fs)). x = fillchar) \<longleftrightarrow> (\<forall>x \<in> set (drop (fd_pos ?d) (contents d fs)). x = fillchar)"
        using True split by (metis Un_iff set_append)
      have rec: "fc_loop env name fillchar d fs = fc_loop env name fillchar ?d (ftick fs)" using full eq' by simp
      have tk: "(ftick fs)\<lparr>fs_tick := t\<rparr> = fs\<lparr>fs_tick := t\<rparr>" for t by simp
      show ?thesis unfolding rec all using ih [unfolded tk] .
    next
      case short: False
      then have "length (drop (fd_pos d) (contents d fs)) < n" by (simp add: xs_def min_def split: if_splits)
      then have "drop (fd_pos d) (contents d fs) = xs" by (simp add: xs_def)
      then show ?thesis using True short by (auto simp: eq')
    qed
  qed
qed

lemma check_decides:
  assumes "fs_calm env" "fs_files fs name = Some b" "INT_MIN \<le> pat" "pat \<le> INT_MAX"
  shows "if \<forall>x \<in> set b. x = word_of_int pat
    then \<exists>fs'. fc_main env [prog, name, dec pat] fs = Ret 0 fs' \<and> fs_files fs' = fs_files fs
    else \<exists>fs'. fc_main env [prog, name, dec pat] fs = Exit 1 fs' \<and> fs_files fs' = fs_files fs"
proof -
  let ?d = "\<lparr>fd_name = name, fd_pos = 0, fd_append = False\<rparr>" and ?fs = "(ftick fs)\<lparr>fs_files := (fs_files fs)(name \<mapsto> b)\<rparr>"
  have "sys_open env name False False False fs = (Inr ?d, ?fs)"
    using assms(2) by (simp add: sys_open_def Let_def fs_calmD [OF assms(1)])
  then have eq: "fc_main env [prog, name, dec pat] fs = fc_loop env name (word_of_int pat) ?d ?fs"
    using assms(3,4) by (simp add: fc_main_def)
  have files: "fs_files ?fs = fs_files fs" using assms(2) by (simp add: fun_upd_idem)
  have "drop (fd_pos ?d) (contents ?d ?fs) = b" "fd_pos ?d \<le> length (contents ?d ?fs)" by (simp_all add: contents_def)
  then show ?thesis unfolding eq using fc_loop_checks [OF assms(1), of ?d ?fs "word_of_int pat" name] files
    by (auto simp: say_def split: if_splits)
qed

text \<open>
  C31. On a system that transfers what it is asked for, \<^verbatim>\<open>file_check\<close> returns 0 exactly for the files all of whose
  bytes are the pattern, and ends with status 1 for the others, whatever the length of the file; it changes nothing.
\<close>

theorem file_check_decides:
  assumes "fs_calm env" "fs_files fs name = Some b" "INT_MIN \<le> pat" "pat \<le> INT_MAX"
  shows "if \<forall>x \<in> set b. x = word_of_int pat
    then \<exists>fs'. fc_main env [prog, name, dec pat] fs = Ret 0 fs' \<and> fs_files fs' = fs_files fs
    else \<exists>fs'. fc_main env [prog, name, dec pat] fs = Exit 1 fs' \<and> fs_files fs' = fs_files fs"
  by (rule check_decides [OF assms])

section \<open>Writing\<close>

lemma lay_lay: "lay (lay b p xs) (p + length xs) ys = lay b p (xs @ ys)"
proof (cases "xs = [] \<or> ys = []")
  case True
  then show ?thesis by (auto simp: lay_def)
next
  case False
  show ?thesis
  proof (rule nth_equalityI)
    show len: "length (lay (lay b p xs) (p + length xs) ys) = length (lay b p (xs @ ys))"
      using False by (simp add: length_lay)
    fix i
    assume i: "i < length (lay (lay b p xs) (p + length xs) ys)"
    consider "p + length xs \<le> i" "i < p + length xs + length ys" | "p \<le> i" "i < p + length xs" | "i < p \<or> p + length (xs @ ys) \<le> i"
      by (cases "i < p"; cases "i < p + length xs"; cases "i < p + length xs + length ys") auto
    then show "lay (lay b p xs) (p + length xs) ys ! i = lay b p (xs @ ys) ! i"
    proof cases
      case 1
      then have "\<not> i - p < length xs" by arith
      then show ?thesis using 1 by (simp add: lay_inside nth_append)
    next
      case 2
      then have "lay (lay b p xs) (p + length xs) ys ! i = lay b p xs ! i"
        using i False by (subst lay_outside) (auto simp: length_lay)
      moreover have "i - p < length xs" using 2 by arith
      ultimately show ?thesis using 2 by (simp add: lay_inside nth_append)
    next
      case 3
      then have "lay (lay b p xs) (p + length xs) ys ! i = (if i < length (lay b p xs) then lay b p xs ! i else 0)"
        using i by (intro lay_outside) auto
      also have "\<dots> = (if i < length b then b ! i else 0)"
        using 3 False by (auto simp: lay_outside length_lay)
      also have "\<dots> = lay b p (xs @ ys) ! i" using 3 i len by (intro lay_outside [symmetric]) auto
      finally show ?thesis .
    qed
  qed
qed

text \<open>Where a descriptor writes.\<close>

definition write_pos :: "fd \<Rightarrow> byte list \<Rightarrow> nat" where
  "write_pos d b = (if fd_append d then length b else fd_pos d)"

lemma fw_loop_calm:
  assumes calm: "fs_calm env" and "fs_files fs (fd_name d) = Some b"
  shows "fw_loop env buf n g d fs =
    Ret (g + int n) (fs\<lparr>fs_tick := fs_tick fs + n, fs_files := (fs_files fs)(fd_name d \<mapsto> lay b (write_pos d b) (concat (replicate n buf)))\<rparr>)"
  using assms(2)
proof (induction n arbitrary: g d fs b)
  case 0
  then show ?case by (simp add: lay_def fun_upd_idem)
next
  case (Suc n)
  let ?p = "write_pos d b"
  let ?b = "lay b ?p buf" and ?d = "d\<lparr>fd_pos := ?p + length buf\<rparr>"
  let ?fs = "(ftick fs)\<lparr>fs_files := (fs_files fs)(fd_name d \<mapsto> ?b)\<rparr>"
  have w: "sys_write env d buf fs = (int (length buf), ?d, ?fs)"
    using Suc.prems by (simp add: sys_write_def Let_def fs_calmD [OF calm] contents_def write_pos_def)
  have pos: "write_pos ?d ?b = ?p + length buf"
    by (auto simp: write_pos_def lay_end)
  have "fs_files ?fs (fd_name ?d) = Some ?b" by simp
  moreover have "?fs\<lparr>fs_tick := fs_tick ?fs + n, fs_files := (fs_files ?fs)(fd_name ?d \<mapsto> x)\<rparr> =
      fs\<lparr>fs_tick := fs_tick fs + Suc n, fs_files := (fs_files fs)(fd_name d \<mapsto> x)\<rparr>" for x
    by (cases fs) (simp add: fun_eq_iff)
  ultimately
  have "fw_loop env buf n (g + 1) ?d ?fs = Ret (g + 1 + int n)
      (fs\<lparr>fs_tick := fs_tick fs + Suc n, fs_files := (fs_files fs)(fd_name d \<mapsto> lay b ?p (buf @ concat (replicate n buf)))\<rparr>)"
    using Suc.IH [of ?fs ?d ?b "g + 1"] unfolding pos lay_lay by (simp only:)
  then show ?case by (simp add: w fun_upd_def)
qed

section \<open>The buffer\<close>

lemma length_fill_buffer [simp]: "length (fill_buffer n f x k) = n"
  by (induction n f x k rule: fill_buffer.induct) (simp_all add: Let_def)

lemma fill_buffer_constant: "f \<noteq> 0 \<Longrightarrow> fill_buffer n f x k = replicate n x"
  by (induction n) simp_all

lemma fill_buffer_cycle:
  assumes "i < n" "0 \<le> k" "k \<le> DATA_RANGE"
  shows "fill_buffer n 0 x k ! i = (if i = 0 then x else word_of_int ((k + int i - 1) mod DATA_RANGE))"
  using assms
proof (induction n arbitrary: i x k)
  case (Suc n)
  let ?k = "if k mod DATA_RANGE = 0 then 0 else k"
  show ?case
  proof (cases i)
    case (Suc j)
    have k: "?k = k mod DATA_RANGE" "?k + 1 \<le> DATA_RANGE" "0 \<le> ?k"
      using Suc.prems(2,3) by (cases "k = DATA_RANGE"; simp add: DATA_RANGE_def)+
    have "(?k + 1 + int j - 1) mod DATA_RANGE = (k + int j) mod DATA_RANGE"
      unfolding k(1) by (simp add: mod_add_left_eq)
    then show ?thesis using Suc Suc.IH [of j "?k + 1" "word_of_int ?k"] Suc.prems k
      by (auto simp: Let_def)
  qed (simp add: Let_def)
qed simp

text \<open>
  With a fill character the whole block has that value. With the fill character 0 the block is not zero: it begins
  with an extra 0, and from its second byte on it repeats the 120 values from 0 to 119.
\<close>

theorem file_write_block:
  assumes "i < n"
  shows "fill_buffer n f f 0 ! i = (if f \<noteq> 0 then f else if i = 0 then 0 else word_of_nat ((i - 1) mod 120))"
proof (cases "f = 0")
  case True
  show ?thesis
  proof (cases "i = 0")
    case False
    have "(0 + int i - 1) mod DATA_RANGE = int ((i - 1) mod 120)" using False by (simp add: DATA_RANGE_def zmod_int of_nat_diff)
    then show ?thesis using fill_buffer_cycle [of i n 0 0] True False assms by (simp add: DATA_RANGE_def)
  qed (use True fill_buffer_cycle [of i n 0 0] assms in \<open>simp add: DATA_RANGE_def\<close>)
next
  case False
  then show ?thesis using assms by (simp add: fill_buffer_constant)
qed

theorem file_write_block_witness: "fill_buffer 3 0 0 0 ! 2 = (1 :: byte)"
  using file_write_block [of 2 3 0] by simp

section \<open>What is written\<close>

lemma oflag_exact:
  "fw_oflag operation =
     (if operation = ''create'' \<or> operation = ''overwrite'' then Some (True, False)
      else if operation = ''append'' then Some (False, True) else None)"
  using strncmp_whole [of "''create''" operation] strncmp_whole [of "''overwrite''" operation] strncmp_whole [of "''append''" operation]
  by (simp add: fw_oflag_def)

lemma say_simps [simp]: "fs_files (say m fs) = fs_files fs" "fs_tick (say m fs) = fs_tick fs"
  by (simp_all add: say_def)

text \<open>The bytes of a file, none if there is no file; the block; all blocks of a run.\<close>

definition bytes_of :: "string \<Rightarrow> fsys \<Rightarrow> byte list" where
  "bytes_of name fs = (case fs_files fs name of None \<Rightarrow> [] | Some b \<Rightarrow> b)"

definition fw_blocks :: "fw_opts \<Rightarrow> byte list" where
  "fw_blocks op = concat (replicate (nat (fw_write_count op)) (fill_buffer (nat (fw_block_size op)) (fw_fillchar op) (fw_fillchar op) 0))"

text \<open>Once the file is open, all that is left is the loop; the messages around it change no file.\<close>

lemma fw_write_loop:
  assumes "fw_oflag operation = Some (creat, app)" "sys_open env name creat False app fs = (Inr d, fs0)"
    and "0 \<le> fw_block_size op" "0 \<le> fw_offset op"
  shows "\<exists>fs1 f. fs_files fs1 = fs_files fs0 \<and> (\<forall>g s. fs_files (f g s) = fs_files s) \<and>
    fw_write env base op name operation fs =
      seq (fw_loop env (fill_buffer (nat (fw_block_size op)) (fw_fillchar op) (fw_fillchar op) 0) (nat (fw_write_count op)) 0
             (d\<lparr>fd_pos := nat (fw_offset op)\<rparr>) fs1) (\<lambda>g s. Ret 0 (f g s))"
proof -
  define start where "start = (if fw_verbose op
      then say (name @ '': block_size = '' @ dec (fw_block_size op) @ '', write_count = '' @ dec (fw_write_count op) @
             '', offset = '' @ dec (fw_offset op) @ '', data = '' @
             (if fw_fillchar op = 0 then ''0->'' @ dec DATA_RANGE else dec (uint (fw_fillchar op))) @ ''\<newline>'') fs0
      else fs0)"
  define finish where "finish = (\<lambda>good_writes s. if fw_verbose op
      then say (''Success: good_writes = '' @ dec good_writes @ '' ('' @ dec (good_writes * fw_block_size op) @ '')\<newline>'') s
      else s)"
  have neg: "\<not> (fw_block_size op < 0 \<and> fw_write_count op > 0)" using assms(3) by simp
  have sk: "sys_seek (fw_offset op) d = (fw_offset op, d\<lparr>fd_pos := nat (fw_offset op)\<rparr>)" using assms(4) by (simp add: sys_seek_def)
  have "fs_files start = fs_files fs0" "\<forall>g s. fs_files (finish g s) = fs_files s" by (simp_all add: start_def finish_def)
  moreover have "fw_write env base op name operation fs =
      seq (fw_loop env (fill_buffer (nat (fw_block_size op)) (fw_fillchar op) (fw_fillchar op) 0) (nat (fw_write_count op)) 0
             (d\<lparr>fd_pos := nat (fw_offset op)\<rparr>) start) (\<lambda>g s. Ret 0 (finish g s))"
    unfolding fw_write_def Let_def assms(1,2) option.case prod.case sum.case sk start_def finish_def
    by (simp only: neg if_False simp_thms)
  ultimately show ?thesis by blast
qed

lemma fw_write_calm:
  assumes calm: "fs_calm env" and size: "0 \<le> fw_block_size op" and off: "0 \<le> fw_offset op"
    and fl: "fw_oflag operation = Some (creat, app)" and ex: "creat \<or> fs_files fs name \<noteq> None"
  defines "old \<equiv> bytes_of name fs"
  shows "\<exists>fs'. fw_write env base op name operation fs = Ret 0 fs' \<and>
      fs_files fs' = (fs_files fs)(name \<mapsto> lay old (if app then length old else nat (fw_offset op)) (fw_blocks op))"
proof -
  let ?d = "\<lparr>fd_name = name, fd_pos = 0, fd_append = app\<rparr>" and ?fs = "(ftick fs)\<lparr>fs_files := (fs_files fs)(name \<mapsto> old)\<rparr>"
  let ?e = "?d\<lparr>fd_pos := nat (fw_offset op)\<rparr>"
  have op: "sys_open env name creat False app fs = (Inr ?d, ?fs)"
    using ex by (cases "fs_files fs name") (auto simp: sys_open_def Let_def fs_calmD [OF calm] old_def bytes_of_def)
  obtain fs1 f where fs1: "fs_files fs1 = fs_files ?fs" "\<forall>g s. fs_files (f g s) = fs_files s"
    and eq: "fw_write env base op name operation fs =
      seq (fw_loop env (fill_buffer (nat (fw_block_size op)) (fw_fillchar op) (fw_fillchar op) 0) (nat (fw_write_count op)) 0 ?e fs1)
        (\<lambda>g s. Ret 0 (f g s))"
    using fw_write_loop [OF fl op size off, of base] by blast
  have "fs_files fs1 (fd_name ?e) = Some old" using fs1(1) by simp
  note fw_loop_calm [OF calm this]
  moreover have "(fs_files fs1)(fd_name ?e \<mapsto> x) = (fs_files fs)(name \<mapsto> x)" for x using fs1(1) by (simp add: fun_eq_iff)
  moreover have "write_pos ?e old = (if app then length old else nat (fw_offset op))" by (simp add: write_pos_def)
  ultimately show ?thesis using fs1(2) by (simp add: eq fw_blocks_def)
qed

text \<open>
  On a system without failures a run of \<^verbatim>\<open>file_write\<close> lays its block the given number of times over the file:
  from the offset on for \<^verbatim>\<open>create\<close> and \<^verbatim>\<open>overwrite\<close>, which do not shorten a file that exists, and from the end on for
  \<^verbatim>\<open>append\<close>, whatever the offset. Only these three words are operations, and \<^verbatim>\<open>append\<close> needs a file. The exit status is 0
  and no other file changes.
\<close>

theorem file_write_lays_blocks:
  assumes "fs_calm env" "0 \<le> fw_block_size op" "0 \<le> fw_offset op"
  shows "if operation = ''create'' \<or> operation = ''overwrite''
    then \<exists>fs'. fw_write env base op name operation fs = Ret 0 fs' \<and>
      fs_files fs' = (fs_files fs)(name \<mapsto> lay (bytes_of name fs) (nat (fw_offset op)) (fw_blocks op))
    else if operation = ''append'' \<and> fs_files fs name \<noteq> None
    then \<exists>fs'. fw_write env base op name operation fs = Ret 0 fs' \<and> fs_files fs' = (fs_files fs)(name \<mapsto> bytes_of name fs @ fw_blocks op)
    else \<exists>c fs'. fw_write env base op name operation fs = Exit c fs' \<and> c \<noteq> 0 \<and> fs_files fs' = fs_files fs"
proof -
  note run = fw_write_calm [OF assms]
  have refuse: "\<exists>c fs'. fw_write env base op name operation fs = Exit c fs' \<and> c \<noteq> 0 \<and> fs_files fs' = fs_files fs"
    if "fw_oflag operation = None \<or> fw_oflag operation = Some (False, True) \<and> fs_files fs name = None"
    using that by (auto simp: fw_write_def Let_def fw_usage_def sys_open_def fs_calmD [OF assms(1)])
  show ?thesis
    using run [of operation True False fs name base] run [of operation False True fs name base] refuse
    by (auto simp: oflag_exact lay_end)
qed

text \<open>A system without failures and one file.\<close>

definition good_fs :: fs_env where
  "good_fs = \<lparr>fe_open = \<lambda>_. 0, fe_write = \<lambda>_ n. int n, fe_read = \<lambda>_ n. int n, fe_trunc = \<lambda>_. 0, fe_alloc = \<lambda>_. True,
     fe_random = \<lambda>t. 17 * t, fe_strerror = \<lambda>_. ''error''\<rparr>"

definition one_file :: fsys where
  "one_file = \<lparr>fs_tick = 0, fs_files = [''f'' \<mapsto> [9, 9]], fs_out = []\<rparr>"

lemma good_fs [simp]: "fs_calm good_fs"
  by (simp add: fs_calm_def good_fs_def)

theorem file_check_decides_witness:
  "fs_files one_file ''f'' = Some [9, 9] \<and> (\<exists>fs'. fc_main good_fs [''file_check'', ''f'', dec 9] one_file = Ret 0 fs') \<and>
   (\<exists>fs'. fc_main good_fs [''file_check'', ''f'', dec 8] one_file = Exit 1 fs')"
  using file_check_decides [OF good_fs, of one_file "''f''" "[9, 9]" 9 "''file_check''"]
    file_check_decides [OF good_fs, of one_file "''f''" "[9, 9]" 8 "''file_check''"]
  by (auto simp: one_file_def INT_MIN_def INT_MAX_def)

theorem file_write_lays_blocks_witness:
  "\<exists>fs'. fw_write good_fs ''file_write'' (fw_defaults\<lparr>fw_block_size := 1, fw_write_count := 3, fw_fillchar := 7, fw_offset := 1\<rparr>)
       ''f'' ''create'' one_file = Ret 0 fs' \<and> fs_files fs' ''f'' = Some [9, 7, 7, 7]"
proof -
  let ?op = "fw_defaults\<lparr>fw_block_size := 1, fw_write_count := 3, fw_fillchar := 7, fw_offset := 1\<rparr>"
  have "lay (bytes_of ''f'' one_file) (nat (fw_offset ?op)) (fw_blocks ?op) = [9, 7, 7, 7]"
    by (simp add: bytes_of_def one_file_def fw_blocks_def lay_def numeral_3_eq_3)
  then show ?thesis using file_write_lays_blocks [of good_fs ?op "''create''" "''file_write''" "''f''" one_file] by auto
qed

section \<open>Writing and checking\<close>

definition fw_args :: "string \<Rightarrow> int \<Rightarrow> int \<Rightarrow> int \<Rightarrow> string list" where
  "fw_args name bs count data = [''-o'', ''create'', ''-f'', name, ''-b'', dec bs, ''-c'', dec count, ''-d'', dec data]"

lemma fw_args_options:
  "getopt ''b:c:d:s:f:o:vwr'' [] (fw_args name bs count data) =
   ([Opt CHR ''o'' (Some ''create''), Opt CHR ''f'' (Some name), Opt CHR ''b'' (Some (dec bs)), Opt CHR ''c'' (Some (dec count)),
     Opt CHR ''d'' (Some (dec data))], [])"
  by (simp add: fw_args_def)

lemma fw_main_args:
  assumes "INT_MIN \<le> bs" "bs \<le> BIGBUFFERSIZE" "INT_MIN \<le> count" "count \<le> INT_MAX" "INT_MIN \<le> data" "data \<le> INT_MAX"
  shows "fw_main env base (fw_args name bs count data) fs =
    fw_write env base (fw_defaults\<lparr>fw_operation := Some ''create'', fw_filename := Some name, fw_block_size := bs,
      fw_write_count := count, fw_fillchar := word_of_int data\<rparr>) name ''create'' fs"
proof -
  have "bs \<le> INT_MAX" using assms(2) by (simp add: BIGBUFFERSIZE_def INT_MAX_def)
  then show ?thesis using assms
    by (simp add: fw_main_def fw_args_options fw_option_def Let_def fw_validate_def)
qed

text \<open>
  C30. What \<^verbatim>\<open>file_write\<close> creates, \<^verbatim>\<open>file_check\<close> accepts: for every block size that the buffer can hold, every number
  of blocks and every pattern whose byte is not 0, the file made by the command line has exactly so many bytes of the
  pattern, and the check of the same pattern returns 0.
\<close>

theorem file_write_then_check:
  assumes "fs_calm env" "fs_files fs name = None" "0 \<le> bs" "bs \<le> BIGBUFFERSIZE" "0 \<le> count" "count \<le> INT_MAX"
    and "INT_MIN \<le> data" "data \<le> INT_MAX" "data mod 256 \<noteq> 0"
  shows "\<exists>fs1 fs2. fw_main env base (fw_args name bs count data) fs = Ret 0 fs1 \<and>
    fs_files fs1 = (fs_files fs)(name \<mapsto> replicate (nat count * nat bs) (word_of_int data)) \<and>
    fc_main env [prog, name, dec data] fs1 = Ret 0 fs2 \<and> fs_files fs2 = fs_files fs1"
proof -
  let ?op = "fw_defaults\<lparr>fw_operation := Some ''create'', fw_filename := Some name, fw_block_size := bs,
      fw_write_count := count, fw_fillchar := word_of_int data\<rparr>"
  let ?b = "replicate (nat count * nat bs) (word_of_int data :: byte)"
  have nz: "(word_of_int data :: byte) \<noteq> 0" using assms(9) by (simp add: word_of_int_eq_0_iff dvd_eq_mod_eq_0)
  have rep: "concat (replicate m (replicate k x)) = replicate (m * k) x" for m k and x :: byte
    by (induction m) (simp_all add: replicate_add)
  have "fw_blocks ?op = ?b" using nz by (simp add: fw_blocks_def fill_buffer_constant rep)
  then have "lay (bytes_of name fs) (nat (fw_offset ?op)) (fw_blocks ?op) = ?b"
    using assms(2) by (simp add: bytes_of_def fw_defaults_def lay_def)
  then obtain fs1 where fs1: "fw_write env base ?op name ''create'' fs = Ret 0 fs1" "fs_files fs1 = (fs_files fs)(name \<mapsto> ?b)"
    using fw_write_calm [of env ?op "''create''" True False fs name base] assms(1,3)
    by (auto simp: oflag_exact fw_defaults_def)
  have "fw_main env base (fw_args name bs count data) fs = Ret 0 fs1"
    using fs1(1) fw_main_args [of bs count data] assms(3-8) by (simp add: INT_MIN_def)
  moreover obtain fs2 where "fc_main env [prog, name, dec data] fs1 = Ret 0 fs2" "fs_files fs2 = fs_files fs1"
    using check_decides [OF assms(1), of fs1 name ?b data prog] fs1(2) assms(7,8) by (auto split: if_splits)
  ultimately show ?thesis using fs1(2) by blast
qed

theorem file_write_then_check_witness:
  "\<exists>fs1 fs2. fw_main good_fs ''file_write'' (fw_args ''g'' 4096 3 165) one_file = Ret 0 fs1 \<and>
     fs_files fs1 ''g'' = Some (replicate 12288 0xa5) \<and> fc_main good_fs [''file_check'', ''g'', dec 165] fs1 = Ret 0 fs2"
  using file_write_then_check [of good_fs one_file "''g''" 4096 3 165 "''file_write''" "''file_check''"]
  by (auto simp: one_file_def BIGBUFFERSIZE_def INT_MIN_def INT_MAX_def)

lemma fw_loop_short:
  assumes "\<forall>t n. 0 \<le> fe_write env t n"
  shows "\<exists>fs'. fw_loop env buf n g d fs = Ret (g + int n) fs'"
proof (induction n arbitrary: g d fs)
  case (Suc n)
  have r: "\<not> fe_write env t k < 0" for t k using assms by (simp add: not_less)
  obtain d' fs' k where w: "sys_write env d buf fs = (int k, d', fs')" by (auto simp: sys_write_def Let_def r)
  then show ?case using Suc.IH [of "g + 1" d' fs'] by (auto simp: add.assoc)
qed simp

lemma fw_loop_nothing:
  assumes "\<forall>t n. fe_write env t n = 0" "fs_files fs (fd_name d) = Some b"
  shows "fw_loop env buf n g d fs = Ret (g + int n) (fs\<lparr>fs_tick := fs_tick fs + n\<rparr>)"
  using assms(2)
proof (induction n arbitrary: g d fs)
  case (Suc n)
  have "sys_write env d buf fs = (0, d\<lparr>fd_pos := write_pos d b\<rparr>, ftick fs)"
    using Suc.prems by (simp add: sys_write_def Let_def assms(1) contents_def lay_def write_pos_def fun_upd_idem)
  then show ?case using Suc.IH [of "ftick fs" "d\<lparr>fd_pos := write_pos d b\<rparr>" "g + 1"] Suc.prems by simp
qed simp

text \<open>
  The exit status of \<^verbatim>\<open>file_write\<close> does not say that the data was written: as long as no write fails, every call
  counts as good however few bytes it transferred, and the program reports the full number and returns 0.
\<close>

theorem file_write_short_unnoticed:
  assumes "\<forall>t. fe_open env t = 0" "\<forall>t n. 0 \<le> fe_write env t n" "0 \<le> fw_block_size op" "0 \<le> fw_offset op"
  shows "\<exists>fs'. fw_write env base op name ''create'' fs = Ret 0 fs' \<and>
    ((\<forall>t n. fe_write env t n = 0) \<longrightarrow> fs_files fs' = (fs_files fs)(name \<mapsto> bytes_of name fs))"
proof -
  let ?d = "\<lparr>fd_name = name, fd_pos = 0, fd_append = False\<rparr>" and ?fs = "(ftick fs)\<lparr>fs_files := (fs_files fs)(name \<mapsto> bytes_of name fs)\<rparr>"
  let ?e = "?d\<lparr>fd_pos := nat (fw_offset op)\<rparr>"
  have fl: "fw_oflag ''create'' = Some (True, False)" by (simp add: oflag_exact)
  have op: "sys_open env name True False False fs = (Inr ?d, ?fs)"
    using assms(1) by (cases "fs_files fs name") (simp_all add: sys_open_def Let_def bytes_of_def)
  obtain fs1 f where fs1: "fs_files fs1 = fs_files ?fs" "\<forall>g s. fs_files (f g s) = fs_files s"
    and eq: "fw_write env base op name ''create'' fs =
      seq (fw_loop env (fill_buffer (nat (fw_block_size op)) (fw_fillchar op) (fw_fillchar op) 0) (nat (fw_write_count op)) 0 ?e fs1)
        (\<lambda>g s. Ret 0 (f g s))"
    using fw_write_loop [OF fl op assms(3,4), of base] by blast
  show ?thesis
  proof (cases "\<forall>t n. fe_write env t n = 0")
    case True
    have "fs_files fs1 (fd_name ?e) = Some (bytes_of name fs)" using fs1(1) by simp
    then show ?thesis using fw_loop_nothing [OF True] fs1 by (simp add: eq)
  next
    case False
    obtain fs2 where "fw_loop env (fill_buffer (nat (fw_block_size op)) (fw_fillchar op) (fw_fillchar op) 0) (nat (fw_write_count op)) 0 ?e fs1 =
        Ret (0 + int (nat (fw_write_count op))) fs2" using fw_loop_short [OF assms(2)] by blast
    then show ?thesis using False unfolding eq by (simp only: seq.simps) blast
  qed
qed

theorem file_write_short_unnoticed_witness:
  "\<exists>fs'. fw_write (good_fs\<lparr>fe_write := \<lambda>_ _. 0\<rparr>) ''file_write'' fw_defaults ''g'' ''create'' one_file = Ret 0 fs' \<and> fs_files fs' ''g'' = Some []"
  using file_write_short_unnoticed [of "good_fs\<lparr>fe_write := \<lambda>_ _. 0\<rparr>" fw_defaults "''file_write''" "''g''" one_file]
  by (auto simp: good_fs_def fw_defaults_def BLOCKSZ_def bytes_of_def one_file_def)

section \<open>Truncation\<close>

lemma do_write_no_return: "do_write env op d fs \<noteq> Ret r fs'"
  by (auto simp: do_write_def Let_def seq_eq split: prod.splits)

lemma do_write_failed:
  assumes "\<forall>t n. fe_write env t n < 0"
  shows "do_write env op d fs \<noteq> Exit 6 s"
proof -
  have w: "sys_write env d xs fs = (fe_write env (fs_tick fs) (length xs), d, ftick fs)" for d xs fs
    using assms by (simp add: sys_write_def Let_def)
  have "\<not> transferred (fe_write env t n) < m" for t n m using assms by (simp add: transferred_def)
  then show ?thesis
    by (auto simp: do_write_def Let_def seq_eq w ft_random_def split: prod.splits sum.splits if_splits)
qed

lemma take_drop_lay: "take (length xs) (drop pos (lay b pos xs)) = xs"
  by (simp add: lay_def)

lemma do_write_calm:
  assumes calm: "fs_calm env" and "ft_fsize op \<noteq> 0" "0 \<le> ft_offset op" "\<not> fd_append d"
  shows "do_write env op d fs = Stuck"
proof (cases "unat (ft_bsize op) > length ft_text")
  case True
  have "\<not> ft_offset op + int (fe_random env t) mod \<bar>ft_fsize op\<bar> < 0" for t
    using assms(2,3) by (simp add: not_less add_nonneg_nonneg)
  then show ?thesis using True assms(2)
    by (simp add: do_write_def ft_random_def sys_seek_def fs_calmD [OF calm])
next
  case False
  define ro where "ro = int (fe_random env (fs_tick (ftick (ftick fs)))) mod \<bar>ft_fsize op\<bar>"
  define buf where "buf = take (unat (ft_bsize op)) ft_text"
  let ?p = "ft_offset op + ro"
  have pos: "0 \<le> ?p" using assms(2,3) by (simp add: ro_def)
  then have sk: "sys_seek ?p d = (?p, d\<lparr>fd_pos := nat ?p\<rparr>)" for d by (simp add: sys_seek_def)
  have len: "length buf = unat (ft_bsize op)" using False by (simp add: buf_def)
  let ?fs = "ftick (ftick (ftick fs))" and ?d = "d\<lparr>fd_pos := nat ?p\<rparr>"
  let ?fs' = "(ftick ?fs)\<lparr>fs_files := (fs_files fs)(fd_name d \<mapsto> lay (contents d fs) (nat ?p) buf)\<rparr>"
  have w: "sys_write env ?d buf ?fs = (int (length buf), ?d\<lparr>fd_pos := nat ?p + length buf\<rparr>, ?fs')"
    using assms(4) by (simp add: sys_write_def Let_def fs_calmD [OF calm] contents_def)
  have tr: "\<not> transferred (int (length buf)) < ft_bsize op" by (simp add: transferred_def len)
  have "take (unat (ft_bsize op)) (drop (nat ?p) (contents (?d\<lparr>fd_pos := nat ?p\<rparr>) ?fs')) = buf"
    using take_drop_lay [of buf "nat ?p" "contents d fs"] by (simp add: contents_def len)
  then have r: "sys_read env (?d\<lparr>fd_pos := nat ?p\<rparr>) (unat (ft_bsize op)) ?fs' = (Inr buf, ?d\<lparr>fd_pos := nat ?p + length buf\<rparr>, ftick ?fs')"
    by (simp add: sys_read_def Let_def fs_calmD [OF calm])
  have rnd: "ft_random env op (ftick (ftick fs)) = Ret ro ?fs" using assms(2) by (simp add: ft_random_def ro_def)
  have nn: "\<not> ?p < 0" using pos by simp
  have upd: "sys_seek ?p (?d\<lparr>fd_pos := nat ?p + length buf\<rparr>) = (?p, ?d\<lparr>fd_pos := nat ?p\<rparr>)" using sk by simp
  have nl: "\<not> word_of_nat (length buf) < ft_bsize op" by (simp add: len)
  show ?thesis
    unfolding do_write_def
    by (simp only: fs_calmD [OF calm] simp_thms if_False rnd seq.simps sk prod.case nn False buf_def [symmetric] Let_def w tr upd sum.case)
      (simp add: r [simplified] nl)
qed

lemma ft_loop_returns: "ft_loop env op n d fs = Ret r fs' \<Longrightarrow> n = 0"
  by (cases n) (auto simp: seq_eq do_write_no_return)

text \<open>
  No round of \<^verbatim>\<open>file_trunc\<close> ever succeeds: on a system without failures its first write has undefined behaviour,
  since it reads a string of 31 bytes as a block and frees it; and a write that fails is never reported, since -1 is
  compared as a \<^verbatim>\<open>size_t\<close>. So the program returns only when it was told to do nothing.
\<close>

theorem file_trunc_never_succeeds:
  "(fs_calm env \<and> ft_fsize op \<noteq> 0 \<and> 0 \<le> ft_offset op \<and> \<not> fd_append d \<longrightarrow> do_write env op d fs = Stuck) \<and>
   ((\<forall>t n. fe_write env t n < 0) \<longrightarrow> do_write env op d fs \<noteq> Exit 6 s) \<and>
   (\<forall>c fs'. ft_main env now execname args fs = Ret c fs' \<longrightarrow>
      (\<exists>op name s. ft_parse_options now execname args fs = Ret (op, name) s \<and> ft_count op \<le> 0))"
proof (intro conjI impI allI)
  assume A: "fs_calm env \<and> ft_fsize op \<noteq> 0 \<and> 0 \<le> ft_offset op \<and> \<not> fd_append d"
  show "do_write env op d fs = Stuck" by (rule do_write_calm) (use A in auto)
next
  assume "\<forall>t n. fe_write env t n < 0"
  then show "do_write env op d fs \<noteq> Exit 6 s" by (rule do_write_failed)
next
  fix c fs'
  assume "ft_main env now execname args fs = Ret c fs'"
  then obtain op name t where p: "ft_parse_options now execname args fs = Ret (op, name) t"
    and m: "(case sys_open env name True True False t of (Inl e, fs) \<Rightarrow> Exit 3 (say ''open'' fs)
      | (Inr d, fs) \<Rightarrow> seq (ft_loop env op (nat (ft_count op)) d fs) (\<lambda>_ fs. Ret 0 fs)) = Ret c fs'"
    by (auto simp: ft_main_def seq_eq)
  obtain r t' where o: "sys_open env name True True False t = (r, t')" by (cases "sys_open env name True True False t")
  have "nat (ft_count op) = 0" using m by (cases r) (auto simp: o seq_eq dest: ft_loop_returns)
  with p show "\<exists>op name s. ft_parse_options now execname args fs = Ret (op, name) s \<and> ft_count op \<le> 0" by auto
qed

theorem file_trunc_never_succeeds_witness:
  "do_write good_fs (ft_defaults 0) \<lparr>fd_name = ''f'', fd_pos = 0, fd_append = False\<rparr> one_file = Stuck"
  using file_trunc_never_succeeds [of good_fs "ft_defaults 0" "\<lparr>fd_name = ''f'', fd_pos = 0, fd_append = False\<rparr>" one_file]
  by (simp add: ft_defaults_def)

end
