(* ===== verification/Mktree.thy ===== *)
theory Mktree
  imports Args
begin

text \<open>
  The program \<^verbatim>\<open>mktree.c\<close> of the ZFS suite: it makes a tree of directories of a given depth and breadth, with files that
  have an extended attribute. Names are cut to the size of their buffer; the last bytes of the block that is written
  are never initialised.
\<close>

definition MAXPATHLEN :: nat where "MAXPATHLEN = 1024"
definition TYPE_D :: char where "TYPE_D = CHR ''D''"
definition TYPE_F :: char where "TYPE_F = CHR ''F''"

text \<open>A byte of memory or of a file, \<open>None\<close> for an indeterminate one.\<close>

type_synonym cell = "u8 option"

record tree =
  mt_tick :: nat
  mt_dirs :: "string set"
  mt_files :: "string \<rightharpoonup> cell list"
  mt_xattrs :: "string \<rightharpoonup> cell list"
  mt_errs :: "string list"

text \<open>
  What the system decides: errors of the calls that create, the bytes a write accepts (the negative of an error number
  for none), whether there is memory, and the error number that an earlier call left.
\<close>

record tree_env =
  te_mkdir :: "nat \<Rightarrow> int"
  te_open :: "nat \<Rightarrow> int"
  te_openat :: "nat \<Rightarrow> int"
  te_write :: "nat \<Rightarrow> nat \<Rightarrow> int"
  te_valloc :: "nat \<Rightarrow> bool"
  te_errno :: "nat \<Rightarrow> int"
  te_strerror :: "int \<Rightarrow> string"

record tree_opts =
  nlevel :: int
  ndir :: int
  nfile :: int

abbreviation mtick :: "tree \<Rightarrow> tree" where
  "mtick s \<equiv> s\<lparr>mt_tick := Suc (mt_tick s)\<rparr>"

definition complain :: "string \<Rightarrow> tree \<Rightarrow> tree" where
  "complain msg s = s\<lparr>mt_errs := mt_errs s @ [msg]\<rparr>"

text \<open>The directory in which a name lies: what is before its last slash.\<close>

definition parent_of :: "string \<Rightarrow> string" where
  "parent_of x = rev (tl (dropWhile (\<lambda>c. c \<noteq> CHR ''/'') (rev x)))"

section \<open>Names\<close>

definition getfdname :: "string \<Rightarrow> char \<Rightarrow> int \<Rightarrow> int \<Rightarrow> int \<Rightarrow> tree \<Rightarrow> (string, tree) run" where
  "getfdname pdir type level dir file s =
     (case snprintf MAXPATHLEN ''%s/%c-l%dd%df%d'' [AStr pdir, AInt (of_char type), AInt level, AInt dir, AInt file] of
        None \<Rightarrow> Stuck
      | Some (r, fdname) \<Rightarrow> Ret fdname s)"

section \<open>Files\<close>

definition crt_context :: "u8 list" where
  "crt_context = map of_char ''0123456789ABCDF''"

text \<open>The loop that copies the text into a block of 1024 bytes, a null character behind each copy.\<close>

fun crt_fill :: "nat \<Rightarrow> nat \<Rightarrow> cell list \<Rightarrow> cell list" where
  "crt_fill i 0 pbuf = pbuf"
| "crt_fill i (Suc k) pbuf =
     (let offset = i * length crt_context;
          t = take (1024 - offset - 1) crt_context @ [0]
      in crt_fill (Suc i) k (take offset pbuf @ map Some t @ drop (offset + length t) pbuf))"

definition crt_block :: "cell list" where
  "crt_block = crt_fill 0 (1024 div length crt_context) (replicate 1024 None)"

text \<open>The first \<open>n\<close> cells of a file replaced.\<close>

definition overlay :: "cell list \<Rightarrow> cell list \<Rightarrow> cell list" where
  "overlay xs old = xs @ drop (length xs) old"

definition stored :: "string \<Rightarrow> (string \<rightharpoonup> cell list) \<Rightarrow> cell list" where
  "stored name files = (case files name of None \<Rightarrow> [] | Some b \<Rightarrow> b)"

definition crt_failed :: "tree_env \<Rightarrow> string \<Rightarrow> int \<Rightarrow> tree \<Rightarrow> (unit, tree) run" where
  "crt_failed env what e s = Exit e (complain (what @ '' failed.\<newline>['' @ dec e @ '']: '' @ te_strerror env e @ ''.\<newline>'') s)"

text \<open>A short write exits with the error number that some earlier call left.\<close>

definition crtfile :: "tree_env \<Rightarrow> string \<Rightarrow> tree \<Rightarrow> (unit, tree) run" where
  "crtfile env pname s =
     (if \<not> te_valloc env (mt_tick s) then Stuck
      else if pname \<in> mt_dirs s then crt_failed env (''open('' @ pname @ '', O_CREAT|O_RDWR, 0777)'') 21 (mtick s)
      else if parent_of pname \<notin> mt_dirs s then crt_failed env (''open('' @ pname @ '', O_CREAT|O_RDWR, 0777)'') ENOENT (mtick s)
      else if te_open env (mt_tick s) \<noteq> 0
      then crt_failed env (''open('' @ pname @ '', O_CREAT|O_RDWR, 0777)'') (te_open env (mt_tick s)) (mtick s)
      else
        let r = te_write env (mt_tick s) 1024;
            s = (mtick s)\<lparr>mt_files := (mt_files s)(pname \<mapsto> overlay (take (nat r) crt_block) (stored pname (mt_files s)))\<rparr>
        in if r < 1024 then crt_failed env ''write(fd, pbuf, 1024)'' (if r < 0 then - r else te_errno env (mt_tick s)) s
        else if te_openat env (mt_tick s) \<noteq> 0 then crt_failed env ''openat'' (te_openat env (mt_tick s)) s
        else
          let r = te_write env (mt_tick s) 1024;
              s = (mtick s)\<lparr>mt_xattrs := (mt_xattrs s)(pname \<mapsto> overlay (take (nat r) crt_block) (stored pname (mt_xattrs s)))\<rparr>
          in if r < 1024 then crt_failed env ''write(afd, pbuf, 1024)'' (if r < 0 then - r else te_errno env (mt_tick s)) s
          else Ret () s)"

text \<open>The loops over the files of a directory.\<close>

fun mk_files :: "tree_env \<Rightarrow> string \<Rightarrow> int \<Rightarrow> int \<Rightarrow> int \<Rightarrow> nat \<Rightarrow> tree \<Rightarrow> (unit, tree) run" where
  "mk_files env pdir level d f 0 s = Ret () s"
| "mk_files env pdir level d f (Suc k) s =
     seq (getfdname pdir TYPE_F level d f s) (\<lambda>fname s.
     seq (crtfile env fname s) (\<lambda>_ s. mk_files env pdir level d (f + 1) k s))"

section \<open>The tree\<close>

definition sys_mkdir :: "tree_env \<Rightarrow> string \<Rightarrow> tree \<Rightarrow> int \<times> tree" where
  "sys_mkdir env dname s =
     (if dname \<in> mt_dirs s \<or> mt_files s dname \<noteq> None then (EEXIST, mtick s)
      else if parent_of dname \<notin> mt_dirs s then (ENOENT, mtick s)
      else if te_mkdir env (mt_tick s) \<noteq> 0 then (te_mkdir env (mt_tick s), mtick s)
      else (0, (mtick s)\<lparr>mt_dirs := insert dname (mt_dirs s)\<rparr>))"

function mktree :: "tree_env \<Rightarrow> tree_opts \<Rightarrow> string \<Rightarrow> int \<Rightarrow> tree \<Rightarrow> (int, tree) run"
  and mk_dirs :: "tree_env \<Rightarrow> tree_opts \<Rightarrow> string \<Rightarrow> int \<Rightarrow> int \<Rightarrow> tree \<Rightarrow> (int, tree) run" where
  "mktree env op pdir level s =
     (if level > nlevel op then Ret 1 s
      else
        seq (mk_dirs env op pdir level 0 s) (\<lambda>d s.
        seq (mk_files env pdir level d 0 (nat (nfile op)) s) (\<lambda>_ s. Ret 0 s)))"
| "mk_dirs env op pdir level d s =
     (if d < ndir op
      then
        seq (getfdname pdir TYPE_D level d 0 s) (\<lambda>dname s.
        case sys_mkdir env dname s of (e, s) \<Rightarrow>
        if e \<noteq> 0
        then Exit e (complain (''mkdir('' @ dname @ '') failed.\<newline>['' @ dec e @ '']: '' @ te_strerror env e @ ''.\<newline>'') s)
        else
          seq (mktree env op dname (level + 1) s) (\<lambda>r s.
          seq (if r \<noteq> 0 then mk_files env dname (level + 1) d 0 (nat (nfile op)) s else Ret () s) (\<lambda>_ s.
          mk_dirs env op pdir level (d + 1) s)))
      else Ret d s)"
  by pat_completeness auto
termination
  by (relation "measures
    [\<lambda>x. case x of Inl (env, op, pdir, level, s) \<Rightarrow> 2 * nat (nlevel op + 1 - level)
                 | Inr (env, op, pdir, level, d, s) \<Rightarrow> 2 * nat (nlevel op + 1 - level) - 1,
     \<lambda>x. case x of Inl _ \<Rightarrow> 0 | Inr (env, op, pdir, level, d, s) \<Rightarrow> Suc (nat (ndir op - d))]")
    auto

declare mktree.simps [simp del] mk_dirs.simps [simp del]

section \<open>main\<close>

definition mt_usage :: "string \<Rightarrow> tree \<Rightarrow> ('r, tree) run" where
  "mt_usage this s = Exit 1 (complain ([CHR 0x09] @ ''Usage: '' @ this @ '' -b <base_dir> -l [nlevel] -d [ndir] -f [nfile]\<newline>'') s)"

definition mt_option :: "string \<Rightarrow> opt \<Rightarrow> string option \<times> tree_opts \<Rightarrow> tree \<Rightarrow> (string option \<times> tree_opts, tree) run" where
  "mt_option this o1 st s =
     (case st of (pbasedir, op) \<Rightarrow>
      let number = (\<lambda>r f. case r of None \<Rightarrow> Stuck | Some n \<Rightarrow> Ret (pbasedir, f n) s) in
      case o1 of
        Bad c \<Rightarrow> mt_usage this s
      | Opt c None \<Rightarrow> Ret st s
      | Opt c (Some optarg) \<Rightarrow>
          if c = CHR ''b'' then Ret (Some optarg, op) s
          else if c = CHR ''l'' then number (atoi optarg) (\<lambda>n. op\<lparr>nlevel := n\<rparr>)
          else if c = CHR ''d'' then number (atoi optarg) (\<lambda>n. op\<lparr>ndir := n\<rparr>)
          else if c = CHR ''f'' then number (atoi optarg) (\<lambda>n. op\<lparr>nfile := n\<rparr>) else Ret st s)"

fun mt_options :: "string \<Rightarrow> opt list \<Rightarrow> string option \<times> tree_opts \<Rightarrow> tree \<Rightarrow> (string option \<times> tree_opts, tree) run" where
  "mt_options this [] st s = Ret st s"
| "mt_options this (o1 # os) st s = seq (mt_option this o1 st s) (\<lambda>st s. mt_options this os st s)"

definition mt_main :: "tree_env \<Rightarrow> string \<Rightarrow> string list \<Rightarrow> tree \<Rightarrow> (int, tree) run" where
  "mt_main env this args s =
     (case getopt ''b:l:d:f:'' [] args of (os, rest) \<Rightarrow>
        seq (mt_options this os (None, \<lparr>nlevel = 2, ndir = 2, nfile = 2\<rparr>) s) (\<lambda>(pbasedir, op) s.
        case pbasedir of
          None \<Rightarrow> mt_usage this s
        | Some pdir \<Rightarrow>
            if nlevel op < 0 \<or> ndir op < 0 \<or> nfile op < 0 then mt_usage this s else mktree env op pdir 1 s))"

end
