(* ===== verification/Mktree_Spec.thy ===== *)
theory Mktree_Spec
  imports Mktree
begin

text \<open>
  The tree that \<^verbatim>\<open>mktree\<close> makes is the one a recursive description of its names gives, and every file of it holds
  the same block.
\<close>

section \<open>Names\<close>

definition component :: "char \<Rightarrow> int \<Rightarrow> int \<Rightarrow> int \<Rightarrow> string" where
  "component type level dir file = type # ''-l'' @ dec level @ ''d'' @ dec dir @ ''f'' @ dec file"

definition name :: "string \<Rightarrow> char \<Rightarrow> int \<Rightarrow> int \<Rightarrow> int \<Rightarrow> string" where
  "name pdir type level dir file = pdir @ ''/'' @ component type level dir file"

lemma read_directive_char [fmt]:
  "read_directive (CHR ''c'' # fs) = Some (\<lparr>dr_flags = [], dr_width = 0, dr_prec = None, dr_conv = CHR ''c''\<rparr>, fs)"
  by (simp add: read_directive_def is_digit_def)

lemma getfdname_name:
  assumes "length (name pdir type level dir k) < MAXPATHLEN" "type \<in> {TYPE_D, TYPE_F}"
  shows "getfdname pdir type level dir k s = Ret (name pdir type level dir k) s"
proof -
  have "format ''%s/%c-l%dd%df%d'' [AStr pdir, AInt (of_char type), AInt level, AInt dir, AInt k] = Some (name pdir type level dir k)"
    using assms(2) by (auto simp: fmt name_def component_def TYPE_D_def TYPE_F_def char_of_def bit_0)
  then show ?thesis using assms(1) by (simp add: getfdname_def snprintf_def MAXPATHLEN_def)
qed

lemma component_no_slash: "type \<noteq> CHR ''/'' \<Longrightarrow> CHR ''/'' \<notin> set (component type level dir file)"
  using dec_chars [of "CHR ''/''"] by (auto simp: component_def is_digit_def)

lemma parent_of_name: "t \<noteq> CHR ''/'' \<Longrightarrow> parent_of (name pdir t level d f) = pdir"
proof -
  assume "t \<noteq> CHR ''/''"
  then have "CHR ''/'' \<notin> set (rev (component t level d f))" using component_no_slash by simp
  then have "dropWhile (\<lambda>c. c \<noteq> CHR ''/'') (rev (component t level d f) @ CHR ''/'' # rev pdir) = CHR ''/'' # rev pdir"
    by (subst dropWhile_append2) auto
  then show ?thesis by (simp add: parent_of_def name_def)
qed

lemma number_of_dec: "0 \<le> i \<Longrightarrow> number_of 0 (dec i) = nat i"
  by (simp add: dec_def number_of_numeral)

lemma dec_inject: "0 \<le> i \<Longrightarrow> 0 \<le> j \<Longrightarrow> dec i = dec j \<Longrightarrow> i = j"
  using number_of_dec [of i] number_of_dec [of j] by simp

lemma component_dir_inject:
  assumes "component TYPE_D level i f = component TYPE_D level j f" "0 \<le> i" "0 \<le> j"
  shows "i = j"
proof -
  have tw: "takeWhile (\<lambda>c. c \<noteq> CHR ''f'') (dec k @ CHR ''f'' # r) = dec k" for k r
    using dec_chars [of "CHR ''f''" k] by (subst takeWhile_append2) (auto simp: is_digit_def dest: dec_chars)
  have "dec i @ ''f'' @ dec f = dec j @ ''f'' @ dec f" using assms(1) by (simp add: component_def)
  then have "takeWhile (\<lambda>c. c \<noteq> CHR ''f'') (dec i @ ''f'' @ dec f) = takeWhile (\<lambda>c. c \<noteq> CHR ''f'') (dec j @ ''f'' @ dec f)" by (rule arg_cong)
  then have "dec i = dec j" using tw by simp
  then show ?thesis using assms(2,3) by (rule dec_inject [rotated 2])
qed

lemma length_component:
  assumes "0 \<le> level" "level \<le> INT_MAX" "0 \<le> dir" "dir \<le> INT_MAX" "0 \<le> k" "k \<le> INT_MAX"
  shows "length (component type level dir k) \<le> 38"
  using length_dec_int [of level] length_dec_int [of dir] length_dec_int [of k] assms
  by (simp add: component_def INT_MIN_def)

text \<open>What lies under a directory. Two directories with different last components have nothing in common.\<close>

definition beneath :: "string \<Rightarrow> string set" where
  "beneath p = {x. \<exists>r. x = p @ CHR ''/'' # r}"

lemma under_name: "name pdir t l d f \<in> beneath pdir"
  by (simp add: beneath_def name_def)

lemma under_trans: "x \<in> beneath (pdir @ ''/'' @ c) \<Longrightarrow> x \<in> beneath pdir"
  by (auto simp: beneath_def)

lemma takeWhile_component:
  assumes "CHR ''/'' \<notin> set c" "r = [] \<or> hd r = CHR ''/''"
  shows "takeWhile (\<lambda>x. x \<noteq> CHR ''/'') (c @ r) = c"
proof -
  have "takeWhile (\<lambda>x. x \<noteq> CHR ''/'') r = []" using assms(2) by (cases r) auto
  moreover have "\<And>x. x \<in> set c \<Longrightarrow> x \<noteq> CHR ''/''" using assms(1) by blast
  ultimately show ?thesis by (simp add: takeWhile_append2)
qed

lemma first_component:
  assumes "c @ r = c' @ r'" "CHR ''/'' \<notin> set c" "CHR ''/'' \<notin> set c'" "r = [] \<or> hd r = CHR ''/''" "r' = [] \<or> hd r' = CHR ''/''"
  shows "c = c'"
  using takeWhile_component [OF assms(2,4)] takeWhile_component [OF assms(3,5)] assms(1) by simp

lemma siblings_apart:
  assumes "c \<noteq> c'" "CHR ''/'' \<notin> set c" "CHR ''/'' \<notin> set c'"
  shows "pdir @ ''/'' @ c \<noteq> pdir @ ''/'' @ c'" "pdir @ ''/'' @ c \<notin> beneath (pdir @ ''/'' @ c')"
    "beneath (pdir @ ''/'' @ c) \<inter> beneath (pdir @ ''/'' @ c') = {}"
  using assms first_component [of c "[]" c' "CHR ''/'' # r" for r] first_component [of c "CHR ''/'' # r" c' "CHR ''/'' # r'" for r r']
  by (auto simp: beneath_def)

lemma not_under_self: "pdir @ ''/'' @ c \<notin> beneath (pdir @ ''/'' @ c)"
  by (simp add: beneath_def)

section \<open>The block\<close>

lemma length_context: "length crt_context = 15"
  by (simp add: crt_context_def)

text \<open>The block after \<open>i\<close> copies.\<close>

definition copies :: "nat \<Rightarrow> cell list" where
  "copies i = map Some (concat (replicate i crt_context)) @ Some 0 # replicate (1023 - 15 * i) None"

lemma length_copies: "length (concat (replicate i crt_context)) = 15 * i"
  by (induction i) (simp_all add: length_context)

lemma concat_replicate_snoc: "concat (replicate i xs) @ xs = concat (replicate (Suc i) xs)"
  by (induction i) simp_all

lemma crt_step:
  assumes "i < 68" "take (15 * i) b = map Some (concat (replicate i crt_context))" "drop (15 * i + 1) b = replicate (1023 - 15 * i) None"
  shows "crt_fill i (Suc k) b = crt_fill (Suc i) k (copies (Suc i))"
proof -
  have t: "take (1023 - 15 * i) crt_context = crt_context" "min 15 (1023 - 15 * i) = 15"
    using assms(1) length_context by (auto intro: take_all)
  have "drop (15 * i + 16) b = drop 15 (drop (15 * i + 1) b)" by (simp add: drop_drop add.commute add.left_commute)
  also have "\<dots> = replicate (1023 - 15 * Suc i) None" unfolding assms(3) drop_replicate by simp
  finally have d: "drop (15 * i + 16) b = replicate (1023 - 15 * Suc i) None" .
  have "crt_fill i (Suc k) b = crt_fill (Suc i) k (take (15 * i) b @ map Some (crt_context @ [0]) @ drop (15 * i + 16) b)"
    by (simp add: Let_def length_context t mult.commute [of i 15] del: take_all) (simp add: add.commute)
  moreover have "take (15 * i) b @ map Some (crt_context @ [0]) @ drop (15 * i + 16) b = copies (Suc i)"
    unfolding copies_def concat_replicate_snoc [symmetric] assms(2) d by simp
  ultimately show ?thesis by simp
qed

lemma crt_fill_copies: "i + k \<le> 68 \<Longrightarrow> crt_fill i k (copies i) = copies (i + k)"
proof (induction k arbitrary: i)
  case (Suc k)
  have "take (15 * i) (copies i) = map Some (concat (replicate i crt_context))"
    "drop (15 * i + 1) (copies i) = replicate (1023 - 15 * i) None"
    by (simp_all add: copies_def length_copies)
  then show ?case using crt_step [of i "copies i" k] Suc by simp
qed simp

text \<open>68 copies, a null character, and three bytes that nothing has set.\<close>

lemma crt_block_value: "crt_block = map Some (concat (replicate 68 crt_context) @ [0]) @ replicate 3 None"
proof -
  have "crt_block = crt_fill 0 (Suc 67) (replicate 1024 None)" by (simp add: crt_block_def length_context)
  also have "\<dots> = crt_fill (Suc 0) 67 (copies (Suc 0))" by (rule crt_step) simp_all
  also have "\<dots> = copies 68" using crt_fill_copies [of "Suc 0" 67] by simp
  finally show ?thesis by (simp add: copies_def)
qed

lemma length_block: "length crt_block = 1024"
  by (simp add: crt_block_value length_concat sum_list_replicate length_context)

section \<open>What grows\<close>

text \<open>A state with more directories and more files, all files new ones holding the block.\<close>

definition grown :: "string set \<Rightarrow> string set \<Rightarrow> tree \<Rightarrow> tree \<Rightarrow> bool" where
  "grown D F s s' \<longleftrightarrow>
     mt_dirs s' = mt_dirs s \<union> D \<and> mt_errs s' = mt_errs s \<and>
     mt_files s' = (\<lambda>x. if x \<in> F then Some crt_block else mt_files s x) \<and>
     mt_xattrs s' = (\<lambda>x. if x \<in> F then Some crt_block else mt_xattrs s x)"

lemma grown_trans: "grown D F s s' \<Longrightarrow> grown D' F' s' s'' \<Longrightarrow> grown (D \<union> D') (F \<union> F') s s''"
  by (auto simp: grown_def fun_eq_iff)

text \<open>Nothing is there yet.\<close>

definition vacant :: "string set \<Rightarrow> tree \<Rightarrow> bool" where
  "vacant X s \<longleftrightarrow> (\<forall>x \<in> X. x \<notin> mt_dirs s \<and> mt_files s x = None \<and> mt_xattrs s x = None)"

lemma vacant_grown: "vacant X s \<Longrightarrow> grown D F s s' \<Longrightarrow> X \<inter> (D \<union> F) = {} \<Longrightarrow> vacant X s'"
  by (auto simp: vacant_def grown_def)

lemma vacant_subset: "vacant X s \<Longrightarrow> Y \<subseteq> X \<Longrightarrow> vacant Y s"
  by (auto simp: vacant_def)

definition tree_calm :: "tree_env \<Rightarrow> bool" where
  "tree_calm env \<longleftrightarrow> (\<forall>t. te_mkdir env t = 0 \<and> te_open env t = 0 \<and> te_openat env t = 0 \<and> te_valloc env t) \<and>
     (\<forall>t n. te_write env t n = int n)"

lemma tree_calmD:
  assumes "tree_calm env"
  shows "te_mkdir env t = 0" "te_open env t = 0" "te_openat env t = 0" "te_valloc env t" "te_write env t n = int n"
  using assms by (simp_all add: tree_calm_def)

text \<open>A file that is new, or was made before, in a directory that exists.\<close>

definition fillable :: "string \<Rightarrow> tree \<Rightarrow> bool" where
  "fillable x s \<longleftrightarrow> x \<notin> mt_dirs s \<and> parent_of x \<in> mt_dirs s \<and> mt_files s x \<in> {None, Some crt_block} \<and> mt_xattrs s x \<in> {None, Some crt_block}"

lemma vacant_fillable: "vacant X s \<Longrightarrow> x \<in> X \<Longrightarrow> parent_of x \<in> mt_dirs s \<Longrightarrow> fillable x s"
  by (auto simp: vacant_def fillable_def)

lemma crtfile_calm:
  assumes "tree_calm env" "fillable x s"
  shows "returns (crtfile env x s) (\<lambda>_ s'. grown {} {x} s s')"
proof -
  have "overlay crt_block [] = crt_block" "overlay crt_block crt_block = crt_block" by (simp_all add: overlay_def length_block)
  then have o: "overlay crt_block (stored x (mt_files s)) = crt_block" "overlay crt_block (stored x (mt_xattrs s)) = crt_block"
    using assms(2) by (auto simp: stored_def fillable_def)
  have t: "take 1024 crt_block = crt_block" by (simp add: length_block)
  show ?thesis using assms(2)
    by (simp add: crtfile_def tree_calmD [OF assms(1)] Let_def t o fillable_def grown_def fun_eq_iff)
qed

lemma mk_files_calm:
  assumes calm: "tree_calm env" and "\<And>j. j < k \<Longrightarrow> length (name pdir TYPE_F level d (f + int j)) < MAXPATHLEN"
    and "\<And>j. j < k \<Longrightarrow> fillable (name pdir TYPE_F level d (f + int j)) s"
  shows "returns (mk_files env pdir level d f k s) (\<lambda>_ s'. grown {} ((\<lambda>j. name pdir TYPE_F level d (f + int j)) ` {..<k}) s s')"
  using assms(2,3)
proof (induction k arbitrary: f s)
  case 0
  then show ?case by (simp add: grown_def)
next
  case (Suc k)
  let ?x = "name pdir TYPE_F level d f"
  have x: "length ?x < MAXPATHLEN" "fillable ?x s" using Suc.prems(1,2) [of 0] by simp_all
  have img: "(\<lambda>j. name pdir TYPE_F level d (f + int j)) ` {..<Suc k} = {?x} \<union> (\<lambda>j. name pdir TYPE_F level d (f + 1 + int j)) ` {..<k}"
    by (auto simp: lessThan_Suc_eq_insert_0 image_image add.assoc)
  have "returns (crtfile env ?x s) (\<lambda>_ s1. returns (mk_files env pdir level d (f + 1) k s1)
      (\<lambda>_ s'. grown {} ((\<lambda>j. name pdir TYPE_F level d (f + int j)) ` {..<Suc k}) s s'))"
  proof (rule returns_mono [OF crtfile_calm [OF calm x(2)]])
    fix r s1
    assume g: "grown {} {?x} s s1"
    have l: "length (name pdir TYPE_F level d (f + 1 + int j)) < MAXPATHLEN" if "j < k" for j
      using Suc.prems(1) [of "Suc j"] that by (simp add: add.assoc)
    have fl: "fillable (name pdir TYPE_F level d (f + 1 + int j)) s1" if "j < k" for j
      using Suc.prems(2) [of "Suc j"] that g by (auto simp: fillable_def grown_def add.assoc)
    show "returns (mk_files env pdir level d (f + 1) k s1)
      (\<lambda>_ s'. grown {} ((\<lambda>j. name pdir TYPE_F level d (f + int j)) ` {..<Suc k}) s s')"
      using Suc.IH [of "f + 1" s1, OF l fl] grown_trans [OF g] unfolding img by (auto intro: returns_mono)
  qed
  then show ?case using getfdname_name [OF x(1)] by (simp add: returns_seq)
qed

section \<open>The tree\<close>

text \<open>
  The directories and files that \<open>k\<close> levels below a directory have: in each directory as many subdirectories and as many
  files as asked for; the files of the lowest directories are named by their parent's loop.
\<close>

fun tree_dirs :: "tree_opts \<Rightarrow> nat \<Rightarrow> string \<Rightarrow> int \<Rightarrow> string set" where
  "tree_dirs op 0 pdir level = {}"
| "tree_dirs op (Suc k) pdir level =
     (\<Union>d<nat (ndir op). insert (name pdir TYPE_D level (int d) 0) (tree_dirs op k (name pdir TYPE_D level (int d) 0) (level + 1)))"

definition files_in :: "tree_opts \<Rightarrow> string \<Rightarrow> int \<Rightarrow> int \<Rightarrow> string set" where
  "files_in op pdir level d = (\<lambda>f. name pdir TYPE_F level d (0 + int f)) ` {..<nat (nfile op)}"

fun tree_files :: "tree_opts \<Rightarrow> nat \<Rightarrow> string \<Rightarrow> int \<Rightarrow> string set" where
  "tree_files op 0 pdir level = {}"
| "tree_files op (Suc k) pdir level =
     (\<Union>d<nat (ndir op). let dname = name pdir TYPE_D level (int d) 0 in
        if k = 0 then files_in op dname (level + 1) (int d) else tree_files op k dname (level + 1)) \<union>
     files_in op pdir level (ndir op)"

lemma under_name_trans: "beneath (name pdir t l d f) \<subseteq> beneath pdir"
  using under_trans [of _ pdir] by (auto simp: name_def)

lemma files_in_under: "files_in op pdir level d \<subseteq> beneath pdir"
  by (auto simp: files_in_def under_name)

lemma tree_under: "tree_dirs op k pdir level \<subseteq> beneath pdir" "tree_files op k pdir level \<subseteq> beneath pdir"
proof (induction k arbitrary: pdir level)
  case (Suc k)
  { case 1
    show ?case using Suc.IH(1) under_name under_name_trans by (fastforce simp del: UN_simps) }
  { case 2
    show ?case using Suc.IH(2) files_in_under under_name_trans by (fastforce simp: Let_def simp del: UN_simps split: if_splits) }
qed simp_all

definition opts_ok :: "tree_opts \<Rightarrow> bool" where
  "opts_ok op \<longleftrightarrow> 0 \<le> ndir op \<and> ndir op \<le> INT_MAX \<and> 0 \<le> nfile op \<and> nfile op \<le> INT_MAX \<and> nlevel op < INT_MAX"

lemma length_name:
  assumes "0 \<le> level" "level \<le> INT_MAX" "0 \<le> d" "d \<le> INT_MAX" "0 \<le> f" "f \<le> INT_MAX"
  shows "length (name pdir t level d f) \<le> length pdir + 39"
  using length_component [OF assms] by (simp add: name_def)

lemma mk_files_in:
  assumes "tree_calm env" "opts_ok op" "0 \<le> level" "level \<le> INT_MAX" "0 \<le> d" "d \<le> INT_MAX" "length pdir + 39 < MAXPATHLEN"
    and "vacant (files_in op pdir level d) s" "pdir \<in> mt_dirs s"
  shows "returns (mk_files env pdir level d 0 (nat (nfile op)) s) (\<lambda>_ s'. grown {} (files_in op pdir level d) s s')"
  unfolding files_in_def
proof (rule mk_files_calm [OF assms(1)])
  fix j
  assume j: "j < nat (nfile op)"
  then have "0 + int j \<le> INT_MAX" using assms(2) by (auto simp: opts_ok_def)
  then show "length (name pdir TYPE_F level d (0 + int j)) < MAXPATHLEN"
    using length_name [OF assms(3-6), of "0 + int j" pdir TYPE_F] assms(7) by simp
  show "fillable (name pdir TYPE_F level d (0 + int j)) s"
    using assms(8,9) j by (intro vacant_fillable [OF assms(8)]) (auto simp: files_in_def parent_of_name TYPE_F_def)
qed

text \<open>The room of a subdirectory: its name and what lies under it.\<close>

definition room :: "string \<Rightarrow> int \<Rightarrow> nat \<Rightarrow> string set" where
  "room pdir level d = insert (name pdir TYPE_D level (int d) 0) (beneath (name pdir TYPE_D level (int d) 0))"

lemma components_apart:
  assumes "c \<noteq> c'" "CHR ''/'' \<notin> set c" "CHR ''/'' \<notin> set c'"
  shows "insert (pdir @ ''/'' @ c) (beneath (pdir @ ''/'' @ c)) \<inter> insert (pdir @ ''/'' @ c') (beneath (pdir @ ''/'' @ c')) = {}"
  using siblings_apart [OF assms] siblings_apart [OF assms(1) [symmetric] assms(3,2)] by blast

lemma rooms_apart:
  assumes "i \<noteq> j"
  shows "room pdir level i \<inter> room pdir level j = {}"
proof -
  have "component TYPE_D level (int i) 0 \<noteq> component TYPE_D level (int j) 0"
    using component_dir_inject [of level "int i" 0 "int j"] assms by auto
  then show ?thesis unfolding room_def name_def
    by (rule components_apart) (simp_all add: component_no_slash TYPE_D_def)
qed

lemma files_not_in_room: "files_in op pdir level d \<inter> room pdir level j = {}"
proof -
  have "name pdir TYPE_F level d f \<notin> room pdir level j" for f
  proof -
    have "component TYPE_F level d f \<noteq> component TYPE_D level (int j) 0" by (simp add: component_def TYPE_D_def TYPE_F_def)
    then have "insert (name pdir TYPE_F level d f) (beneath (name pdir TYPE_F level d f)) \<inter> room pdir level j = {}"
      unfolding room_def name_def by (rule components_apart) (simp_all add: component_no_slash TYPE_D_def TYPE_F_def)
    then show ?thesis by blast
  qed
  then show ?thesis by (auto simp: files_in_def)
qed

lemma room_under: "room pdir level d \<subseteq> beneath pdir"
  using under_name under_name_trans by (fastforce simp: room_def)

text \<open>What one round of the loop over the subdirectories makes.\<close>

definition sub_dirs :: "tree_opts \<Rightarrow> nat \<Rightarrow> string \<Rightarrow> int \<Rightarrow> nat \<Rightarrow> string set" where
  "sub_dirs op k pdir level d = insert (name pdir TYPE_D level (int d) 0) (tree_dirs op k (name pdir TYPE_D level (int d) 0) (level + 1))"

definition sub_files :: "tree_opts \<Rightarrow> nat \<Rightarrow> string \<Rightarrow> int \<Rightarrow> nat \<Rightarrow> string set" where
  "sub_files op k pdir level d =
     (let dname = name pdir TYPE_D level (int d) 0 in
      if k = 0 then files_in op dname (level + 1) (int d) else tree_files op k dname (level + 1))"

lemma sub_in_room: "sub_dirs op k pdir level d \<union> sub_files op k pdir level d \<subseteq> room pdir level d"
proof -
  let ?dn = "name pdir TYPE_D level (int d) 0"
  have "tree_dirs op k ?dn (level + 1) \<subseteq> beneath ?dn" "tree_files op k ?dn (level + 1) \<subseteq> beneath ?dn"
    "files_in op ?dn (level + 1) (int d) \<subseteq> beneath ?dn" by (rule tree_under files_in_under)+
  then show ?thesis unfolding sub_dirs_def sub_files_def room_def Let_def by (cases "k = 0") auto
qed

text \<open>The hypothesis of the induction over the levels.\<close>

definition makes :: "tree_env \<Rightarrow> tree_opts \<Rightarrow> nat \<Rightarrow> int \<Rightarrow> bool" where
  "makes env op k level \<longleftrightarrow> (\<forall>pdir s. length pdir + 39 * Suc k < MAXPATHLEN \<longrightarrow> vacant (beneath pdir) s \<longrightarrow> pdir \<in> mt_dirs s \<longrightarrow>
     returns (mktree env op pdir level s) (\<lambda>r s'. r = 0 \<and> grown (tree_dirs op k pdir level) (tree_files op k pdir level) s s'))"

lemma sub_round:
  assumes calm: "tree_calm env" and op: "opts_ok op" and lv: "1 \<le> level" "level + int k = nlevel op"
    and ih: "k \<noteq> 0 \<Longrightarrow> makes env op k (level + 1)" and d: "d < nat (ndir op)"
    and len: "length pdir + 39 * Suc (Suc k) < MAXPATHLEN" and v: "vacant (room pdir level d) s" "pdir \<in> mt_dirs s"
  defines "dn \<equiv> name pdir TYPE_D level (int d) 0"
  shows "\<exists>s1. sys_mkdir env dn s = (0, s1) \<and>
    returns (seq (mktree env op dn (level + 1) s1) (\<lambda>r s. if r \<noteq> 0 then mk_files env dn (level + 1) (int d) 0 (nat (nfile op)) s else Ret () s))
      (\<lambda>_ s'. grown (sub_dirs op k pdir level d) (sub_files op k pdir level d) s s')"
proof -
  let ?s = "(mtick s)\<lparr>mt_dirs := insert dn (mt_dirs s)\<rparr>"
  have mk: "sys_mkdir env dn s = (0, ?s)"
    using v by (simp add: sys_mkdir_def tree_calmD [OF calm] vacant_def room_def dn_def parent_of_name TYPE_D_def)
  have g: "grown {dn} {} s ?s" by (auto simp: grown_def)
  have "dn \<notin> beneath dn" using not_under_self by (simp add: dn_def name_def)
  then have vu: "vacant (beneath dn) ?s"
    using v(1) by (intro vacant_grown [OF _ g]) (auto simp: room_def dn_def intro: vacant_subset)
  have ints: "0 \<le> int d" "int d \<le> INT_MAX" "0 \<le> level" "level \<le> INT_MAX" "level + 1 \<le> INT_MAX"
    using d op lv by (auto simp: opts_ok_def)
  have ldn: "length dn \<le> length pdir + 39" unfolding dn_def using ints by (intro length_name) (simp_all add: INT_MAX_def)
  have "returns (seq (mktree env op dn (level + 1) ?s) (\<lambda>r s. if r \<noteq> 0 then mk_files env dn (level + 1) (int d) 0 (nat (nfile op)) s else Ret () s))
      (\<lambda>_ s'. grown (tree_dirs op k dn (level + 1)) (sub_files op k pdir level d) ?s s')"
  proof (cases "k = 0")
    case True
    then have "mktree env op dn (level + 1) ?s = Ret 1 ?s" using lv by (simp add: mktree.simps)
    moreover have "returns (mk_files env dn (level + 1) (int d) 0 (nat (nfile op)) ?s) (\<lambda>_ s'. grown {} (files_in op dn (level + 1) (int d)) ?s s')"
      using calm op ints ldn len vacant_subset [OF vu files_in_under] by (intro mk_files_in) auto
    ultimately show ?thesis using True by (simp add: sub_files_def Let_def dn_def)
  next
    case False
    have m: "returns (mktree env op dn (level + 1) ?s) (\<lambda>r s'. r = 0 \<and> grown (tree_dirs op k dn (level + 1)) (tree_files op k dn (level + 1)) ?s s')"
      using ih [OF False] ldn len vu by (simp add: makes_def)
    show ?thesis unfolding returns_seq by (rule returns_mono [OF m]) (use False in \<open>auto simp: sub_files_def Let_def dn_def\<close>)
  qed
  then have "returns (seq (mktree env op dn (level + 1) ?s) (\<lambda>r s. if r \<noteq> 0 then mk_files env dn (level + 1) (int d) 0 (nat (nfile op)) s else Ret () s))
      (\<lambda>_ s'. grown (sub_dirs op k pdir level d) (sub_files op k pdir level d) s s')"
  proof (rule returns_mono)
    fix r s'
    assume "grown (tree_dirs op k dn (level + 1)) (sub_files op k pdir level d) ?s s'"
    from grown_trans [OF g this] show "grown (sub_dirs op k pdir level d) (sub_files op k pdir level d) s s'"
      by (simp add: sub_dirs_def dn_def)
  qed
  with mk show ?thesis by blast
qed

text \<open>The loop over the subdirectories, by induction on the rounds left.\<close>

lemma sub_loop:
  assumes calm: "tree_calm env" and op: "opts_ok op" and lv: "1 \<le> level" "level + int k = nlevel op"
    and ih: "k \<noteq> 0 \<Longrightarrow> makes env op k (level + 1)" and len: "length pdir + 39 * Suc (Suc k) < MAXPATHLEN"
    and "d + n = nat (ndir op)" and "vacant (\<Union>j\<in>{d..<d + n}. room pdir level j) s" "pdir \<in> mt_dirs s"
  shows "returns (mk_dirs env op pdir level (int d) s) (\<lambda>r s'. r = ndir op \<and>
    grown (\<Union>j\<in>{d..<d + n}. sub_dirs op k pdir level j) (\<Union>j\<in>{d..<d + n}. sub_files op k pdir level j) s s')"
  using assms(7-9)
proof (induction n arbitrary: d s)
  case 0
  then show ?case using op by (simp add: mk_dirs.simps grown_def opts_ok_def)
next
  case (Suc n)
  let ?dn = "name pdir TYPE_D level (int d) 0"
  let ?D = "\<lambda>i j. \<Union>j\<in>{i..<j}. sub_dirs op k pdir level j" and ?F = "\<lambda>i j. \<Union>j\<in>{i..<j}. sub_files op k pdir level j"
  have d: "d < nat (ndir op)" "int d < ndir op" using Suc.prems(1) by linarith+
  have split: "{d..<d + Suc n} = insert d {Suc d..<Suc d + n}" by auto
  have v: "vacant (room pdir level d) s" "vacant (\<Union>j\<in>{Suc d..<Suc d + n}. room pdir level j) s"
    by (rule vacant_subset [OF Suc.prems(2)]; force)+
  obtain s1 where mk: "sys_mkdir env ?dn s = (0, s1)"
    and r: "returns (seq (mktree env op ?dn (level + 1) s1) (\<lambda>r s. if r \<noteq> 0 then mk_files env ?dn (level + 1) (int d) 0 (nat (nfile op)) s else Ret () s))
      (\<lambda>_ s'. grown (sub_dirs op k pdir level d) (sub_files op k pdir level d) s s')"
    using sub_round [OF calm op lv ih d(1) len v(1) Suc.prems(3)] by blast
  have "length ?dn \<le> length pdir + 39" using d op lv by (intro length_name) (auto simp: opts_ok_def INT_MAX_def)
  then have fd: "getfdname pdir TYPE_D level (int d) 0 s = Ret ?dn s" using len by (intro getfdname_name) auto
  have rest: "returns (mk_dirs env op pdir level (int d + 1) s2) (\<lambda>r s'. r = ndir op \<and> grown (?D d (d + Suc n)) (?F d (d + Suc n)) s s')"
    if g: "grown (sub_dirs op k pdir level d) (sub_files op k pdir level d) s s2" for s2
  proof -
    have "room pdir level j \<inter> room pdir level d = {}" if "j \<in> {Suc d..<Suc d + n}" for j
      using that by (intro rooms_apart) auto
    then have "(\<Union>j\<in>{Suc d..<Suc d + n}. room pdir level j) \<inter> (sub_dirs op k pdir level d \<union> sub_files op k pdir level d) = {}"
      using sub_in_room [of op k pdir level d] by blast
    then have "returns (mk_dirs env op pdir level (int (Suc d)) s2) (\<lambda>r s'. r = ndir op \<and> grown (?D (Suc d) (Suc d + n)) (?F (Suc d) (Suc d + n)) s2 s')"
      using Suc.prems(1,3) g by (intro Suc.IH vacant_grown [OF v(2) g]) (auto simp: grown_def)
    then have a: "returns (mk_dirs env op pdir level (int d + 1) s2) (\<lambda>r s'. r = ndir op \<and> grown (?D (Suc d) (Suc d + n)) (?F (Suc d) (Suc d + n)) s2 s')"
      by (simp add: add.commute)
    have "?D d (d + Suc n) = sub_dirs op k pdir level d \<union> ?D (Suc d) (Suc d + n)" "?F d (d + Suc n) = sub_files op k pdir level d \<union> ?F (Suc d) (Suc d + n)"
      unfolding split by simp_all
    then show ?thesis using grown_trans [OF g] by (intro returns_mono [OF a]) metis
  qed
  have "mk_dirs env op pdir level (int d) s =
    seq (seq (mktree env op ?dn (level + 1) s1) (\<lambda>r s. if r \<noteq> 0 then mk_files env ?dn (level + 1) (int d) 0 (nat (nfile op)) s else Ret () s))
      (\<lambda>_ s. mk_dirs env op pdir level (int d + 1) s)"
    using d(2) by (subst mk_dirs.simps) (simp add: fd mk seq_assoc)
  then show ?case by (simp only: returns_seq) (rule returns_mono [OF r [unfolded returns_seq]], rule returns_mono, assumption, erule rest)
qed

lemma mktree_makes:
  assumes "tree_calm env" "opts_ok op" "1 \<le> level" "level + int k = nlevel op + 1" "k \<noteq> 0"
  shows "makes env op k level"
  using assms(3-5)
proof (induction k arbitrary: level)
  case (Suc k)
  note calm = assms(1) and op = assms(2)
  show ?case unfolding makes_def
  proof (intro allI impI)
    fix pdir and s :: tree
    assume len: "length pdir + 39 * Suc (Suc k) < MAXPATHLEN" and v: "vacant (beneath pdir) s" and p: "pdir \<in> mt_dirs s"
    let ?n = "nat (ndir op)"
    let ?D = "\<Union>j\<in>{0..<0 + ?n}. sub_dirs op k pdir level j" and ?F = "\<Union>j\<in>{0..<0 + ?n}. sub_files op k pdir level j"
    have lv: "level + int k = nlevel op" using Suc.prems by simp
    have ih: "makes env op k (level + 1)" if "k \<noteq> 0" using Suc.IH [of "level + 1"] Suc.prems that by simp
    have "vacant (\<Union>j\<in>{0..<0 + ?n}. room pdir level j) s" using room_under by (intro vacant_subset [OF v]) blast
    then have dirs: "returns (mk_dirs env op pdir level 0 s) (\<lambda>r s'. r = ndir op \<and> grown ?D ?F s s')"
      using sub_loop [OF calm op Suc.prems(1) lv ih len, of 0 ?n s] p by simp
    have rest: "returns (mk_files env pdir level (ndir op) 0 (nat (nfile op)) s1)
        (\<lambda>_ s'. grown (tree_dirs op (Suc k) pdir level) (tree_files op (Suc k) pdir level) s s')" if g: "grown ?D ?F s s1" for s1
    proof -
      have "files_in op pdir level (ndir op) \<inter> (?D \<union> ?F) = {}"
        using files_not_in_room [of op pdir level "ndir op"] sub_in_room [of op k pdir level] by blast
      then have "vacant (files_in op pdir level (ndir op)) s1"
        by (intro vacant_grown [OF vacant_subset [OF v files_in_under] g])
      then have fs: "returns (mk_files env pdir level (ndir op) 0 (nat (nfile op)) s1) (\<lambda>_ s'. grown {} (files_in op pdir level (ndir op)) s1 s')"
        using op Suc.prems len p g by (intro mk_files_in calm op) (auto simp: opts_ok_def grown_def)
      have "tree_dirs op (Suc k) pdir level = ?D \<union> {}" "tree_files op (Suc k) pdir level = ?F \<union> files_in op pdir level (ndir op)"
        by (auto simp: sub_dirs_def sub_files_def atLeast0LessThan)
      then show ?thesis using grown_trans [OF g] by (intro returns_mono [OF fs]) metis
    qed
    have "\<not> nlevel op < level" using lv by simp
    then show "returns (mktree env op pdir level s)
        (\<lambda>r s'. r = 0 \<and> grown (tree_dirs op (Suc k) pdir level) (tree_files op (Suc k) pdir level) s s')"
      using returns_mono [OF dirs] rest by (subst mktree.simps) (simp add: returns_seq)
  qed
qed simp

definition mt_args :: "string \<Rightarrow> tree_opts \<Rightarrow> string list" where
  "mt_args base op = [''-b'', base, ''-l'', dec (nlevel op), ''-d'', dec (ndir op), ''-f'', dec (nfile op)]"

lemma mt_main_args:
  assumes "opts_ok op" "0 \<le> nlevel op"
  shows "mt_main env this (mt_args base op) s = mktree env op base 1 s"
proof -
  have "getopt ''b:l:d:f:'' [] (mt_args base op) =
    ([Opt CHR ''b'' (Some base), Opt CHR ''l'' (Some (dec (nlevel op))), Opt CHR ''d'' (Some (dec (ndir op))), Opt CHR ''f'' (Some (dec (nfile op)))], [])"
    by (simp add: mt_args_def)
  then show ?thesis using assms by (cases op) (simp add: mt_main_def mt_option_def opts_ok_def INT_MIN_def)
qed

text \<open>
  C32. In a system without failures, for at least one level, for a base directory that exists and under which there is
  nothing, and for names that fit their buffer, \<^verbatim>\<open>mktree\<close> returns 0 and the directories and the files that it added, with their extended attributes, are
  exactly those of the recursive description of the tree; every file and attribute holds 68 copies of the text, a null
  character and three bytes that the program never initialised.
\<close>

theorem mktree_makes_tree:
  assumes "tree_calm env" "opts_ok op" "1 \<le> nlevel op" "int (length base) + 39 * (nlevel op + 1) < int MAXPATHLEN"
    and "vacant (beneath base) s" "base \<in> mt_dirs s"
  shows "\<exists>s'. mt_main env this (mt_args base op) s = Ret 0 s' \<and>
    mt_dirs s' = mt_dirs s \<union> tree_dirs op (nat (nlevel op)) base 1 \<and>
    (\<forall>x. mt_files s' x = (if x \<in> tree_files op (nat (nlevel op)) base 1 then Some crt_block else mt_files s x)) \<and>
    (\<forall>x. mt_xattrs s' x = (if x \<in> tree_files op (nat (nlevel op)) base 1 then Some crt_block else mt_xattrs s x)) \<and>
    crt_block = map Some (concat (replicate 68 crt_context) @ [0]) @ replicate 3 None"
proof -
  have "makes env op (nat (nlevel op)) 1" using assms(3) by (intro mktree_makes assms(1,2)) auto
  moreover have "length base + 39 * Suc (nat (nlevel op)) < MAXPATHLEN" using assms(3,4) by (simp add: MAXPATHLEN_def)
  ultimately have "returns (mktree env op base 1 s)
      (\<lambda>r s'. r = 0 \<and> grown (tree_dirs op (nat (nlevel op)) base 1) (tree_files op (nat (nlevel op)) base 1) s s')"
    using assms(5,6) by (simp add: makes_def)
  then show ?thesis using assms(2,3) by (auto simp: mt_main_args crt_block_value grown_def returns_def)
qed

definition good_tree_env :: tree_env where
  "good_tree_env = \<lparr>te_mkdir = \<lambda>_. 0, te_open = \<lambda>_. 0, te_openat = \<lambda>_. 0, te_write = \<lambda>_ n. int n, te_valloc = \<lambda>_. True,
     te_errno = \<lambda>_. 0, te_strerror = \<lambda>_. ''error''\<rparr>"

definition bare :: tree where
  "bare = \<lparr>mt_tick = 0, mt_dirs = {''/t''}, mt_files = Map.empty, mt_xattrs = Map.empty, mt_errs = []\<rparr>"

theorem mktree_makes_tree_witness:
  "\<exists>s'. mt_main good_tree_env ''mktree'' (mt_args ''/t'' \<lparr>nlevel = 1, ndir = 1, nfile = 1\<rparr>) bare = Ret 0 s' \<and>
    mt_dirs s' = {''/t'', ''/t/D-l1d0f0''} \<and> dom (mt_files s') = {''/t/F-l1d1f0'', ''/t/D-l1d0f0/F-l2d0f0''}"
proof -
  let ?op = "\<lparr>nlevel = 1, ndir = 1, nfile = 1\<rparr>"
  have dec: "dec 0 = ''0''" "dec 1 = ''1''" "dec 2 = ''2''" by (simp_all add: dec_def numeral_in.simps)
  have "tree_dirs ?op (Suc 0) ''/t'' 1 = {''/t/D-l1d0f0''}" "tree_files ?op (Suc 0) ''/t'' 1 = {''/t/F-l1d1f0'', ''/t/D-l1d0f0/F-l2d0f0''}"
    by (simp_all add: name_def component_def files_in_def TYPE_D_def TYPE_F_def lessThan_Suc dec)
  moreover have n: "nat (nlevel ?op) = Suc 0" by simp
  ultimately have t: "tree_dirs ?op (nat (nlevel ?op)) ''/t'' 1 = {''/t/D-l1d0f0''}"
    "tree_files ?op (nat (nlevel ?op)) ''/t'' 1 = {''/t/F-l1d1f0'', ''/t/D-l1d0f0/F-l2d0f0''}" by metis+
  have ok: "tree_calm good_tree_env" "opts_ok ?op" "1 \<le> nlevel ?op" "int (length ''/t'') + 39 * (nlevel ?op + 1) < int MAXPATHLEN"
    by (simp_all add: tree_calm_def good_tree_env_def opts_ok_def INT_MAX_def MAXPATHLEN_def)
  have v: "vacant (beneath ''/t'') bare" "''/t'' \<in> mt_dirs bare" by (auto simp: vacant_def bare_def beneath_def)
  obtain s' where m: "mt_main good_tree_env ''mktree'' (mt_args ''/t'' ?op) bare = Ret 0 s'"
    and d: "mt_dirs s' = mt_dirs bare \<union> {''/t/D-l1d0f0''}"
    and f: "\<forall>x. mt_files s' x = (if x \<in> {''/t/F-l1d1f0'', ''/t/D-l1d0f0/F-l2d0f0''} then Some crt_block else mt_files bare x)"
    using mktree_makes_tree [OF ok v, of "''mktree''", unfolded t] by blast
  have "dom (mt_files s') = {''/t/F-l1d1f0'', ''/t/D-l1d0f0/F-l2d0f0''}" using f by (simp add: dom_def bare_def set_eq_iff)
  moreover have "mt_dirs s' = {''/t'', ''/t/D-l1d0f0''}" using d by (simp add: bare_def insert_commute)
  ultimately show ?thesis using m by blast
qed

end
