(* ===== verification/Mstf.thy ===== *)
theory Mstf
  imports Log_Api
begin

text \<open>
  The library \<^verbatim>\<open>libmstf.c\<close> and its commands \<^verbatim>\<open>mstf_sync\<close>, \<^verbatim>\<open>mstf_setvar\<close> and \<^verbatim>\<open>mstf_getvar\<close>: the parts of a test that
  runs on several hosts ask a server to synchronise them and to keep variables. Every call opens a connection of its
  own, sends one line and, except for setting a variable, waits for one line.
\<close>

definition EBADF :: int where "EBADF = 9"
definition MSTF_SYNC_PORT :: string where "MSTF_SYNC_PORT = ''9100''"
definition MSTF_BUFLEN :: nat where "MSTF_BUFLEN = 128"
definition BUF_SIZE :: nat where "BUF_SIZE = 1024"

section \<open>Connections\<close>

text \<open>What a connection delivers until its end: bytes, and reads that fail with an error number.\<close>

datatype event = Chunk string | Failed int

text \<open>
  What the system decides: the environment variables, memory, the address of a host, the results of \<^verbatim>\<open>socket\<close> (an error
  number for a failure, as for the calls that follow), \<^verbatim>\<open>connect\<close>, \<^verbatim>\<open>fdopen\<close> and \<^verbatim>\<open>write\<close> at a tick, what the connection
  made at a tick delivers, and the size of the buffer of a stream.
\<close>

type_synonym sockaddr = "nat \<times> u8 list"

record mstf_env =
  me_getenv :: "string \<Rightarrow> string option"
  me_malloc :: "nat \<Rightarrow> bool"
  me_getaddrinfo :: "string \<Rightarrow> string \<Rightarrow> int + sockaddr"
  me_socket :: "nat \<Rightarrow> int"
  me_connect :: "nat \<Rightarrow> sockaddr \<Rightarrow> int"
  me_fdopen :: "nat \<Rightarrow> int"
  me_write :: "nat \<Rightarrow> int"
  me_input :: "nat \<Rightarrow> event list"
  me_bufsize :: nat
  me_strerror :: "int \<Rightarrow> string"
  me_gai_strerror :: "int \<Rightarrow> string"

text \<open>
  The process: the cached address of the server, the connections that are open (by the tick that made them), the text
  that each connection was sent, standard error and standard output.
\<close>

record mstf =
  ms_tick :: nat
  ms_addr :: "sockaddr option"
  ms_open :: "nat set"
  ms_sent :: "(nat \<times> string) list"
  ms_err :: string
  ms_out :: string

abbreviation stick :: "mstf \<Rightarrow> mstf" where
  "stick s \<equiv> s\<lparr>ms_tick := Suc (ms_tick s)\<rparr>"

definition eprint :: "string \<Rightarrow> mstf \<Rightarrow> mstf" where
  "eprint t s = s\<lparr>ms_err := ms_err s @ t\<rparr>"

definition net_perror :: "mstf_env \<Rightarrow> string \<Rightarrow> int \<Rightarrow> mstf \<Rightarrow> mstf" where
  "net_perror env t e = eprint (t @ '': '' @ me_strerror env e @ [NL])"

text \<open>A stream: its connection, the text that is buffered and what is still to be read.\<close>

record stream =
  st_conn :: nat
  st_pending :: string
  st_input :: "event list"

definition deliver :: "mstf_env \<Rightarrow> nat \<Rightarrow> string \<Rightarrow> mstf \<Rightarrow> int \<times> mstf" where
  "deliver env c t s =
     (if t = [] then (0, s)
      else if me_write env (ms_tick s) \<noteq> 0 then (me_write env (ms_tick s), stick s)
      else (0, (stick s)\<lparr>ms_sent := ms_sent s @ [(c, t)]\<rparr>))"

text \<open>Printing fills the buffer; a text that does not fit is written at once. The result is the new value of \<^verbatim>\<open>errno\<close>.\<close>

definition fprint :: "mstf_env \<Rightarrow> string \<Rightarrow> stream \<Rightarrow> mstf \<Rightarrow> int \<times> stream \<times> mstf" where
  "fprint env t f s =
     (if length t \<le> me_bufsize env then (0, f\<lparr>st_pending := t\<rparr>, s)
      else case deliver env (st_conn f) t s of (e, s) \<Rightarrow> (e, f, s))"

definition fflush :: "mstf_env \<Rightarrow> stream \<Rightarrow> mstf \<Rightarrow> int \<times> stream \<times> mstf" where
  "fflush env f s = (case deliver env (st_conn f) (st_pending f) s of (e, s) \<Rightarrow> (e, f\<lparr>st_pending := []\<rparr>, s))"

definition fclose :: "mstf_env \<Rightarrow> stream \<Rightarrow> mstf \<Rightarrow> mstf" where
  "fclose env f s = (case fflush env f s of (e, f, s) \<Rightarrow> s\<lparr>ms_open := ms_open s - {st_conn f}\<rparr>)"

text \<open>
  Reading a line into an array with room for so many characters: the text with its newline, the end before any
  character (the array stays as it was), or an error.
\<close>

datatype got = Got string | Eof | Err int

function (sequential) fgets :: "nat \<Rightarrow> string \<Rightarrow> event list \<Rightarrow> got \<times> event list" where
  "fgets 0 acc evs = (Got acc, evs)"
| "fgets n acc [] = (if acc = [] then Eof else Got acc, [])"
| "fgets n acc (Failed e # evs) = (Err e, evs)"
| "fgets n acc (Chunk [] # evs) = fgets n acc evs"
| "fgets (Suc n) acc (Chunk (c # cs) # evs) =
     (if c = NL then (Got (acc @ [c]), Chunk cs # evs) else fgets n (acc @ [c]) (Chunk cs # evs))"
  by pat_completeness auto
termination by (relation "measures [\<lambda>(n, acc, evs). n, \<lambda>(n, acc, evs). length evs]") auto

text \<open>
  The loop around \<^verbatim>\<open>fgets\<close>: it is repeated while \<^verbatim>\<open>errno\<close> is EINTR, and no call sets \<^verbatim>\<open>errno\<close> back. The array is \<open>None\<close>
  while its contents are indeterminate.
\<close>

partial_function (option) read_line :: "nat \<Rightarrow> int \<Rightarrow> string option \<Rightarrow> event list \<Rightarrow> (int \<times> string option \<times> event list) option" where
  "read_line n errno result evs =
     (case fgets (n - 1) [] evs of (g, evs) \<Rightarrow>
      let errno = (case g of Err e \<Rightarrow> e | _ \<Rightarrow> errno);
          result = (case g of Got t \<Rightarrow> Some t | Eof \<Rightarrow> result | Err e \<Rightarrow> None)
      in if errno = EINTR then read_line n errno result evs else Some (errno, result, evs))"

text \<open>The characters of an array up to the first null character.\<close>

definition cstring :: "string \<Rightarrow> string" where
  "cstring t = takeWhile (\<lambda>c. c \<noteq> CHR 0x00) t"

section \<open>libmstf.c\<close>

definition mstf_error :: "mstf_env \<Rightarrow> string \<Rightarrow> string \<Rightarrow> mstf \<Rightarrow> (unit, mstf) run" where
  "mstf_error env fcn_name msg s =
     (let s = eprint (''Error: '' @ fcn_name @ '':'' @ msg @ [NL]) s in
      if me_getenv env ''MSTF_EXIT_ON_ERROR'' = Some ''1'' then Exit STF_UNRESOLVED s else Ret () s)"

definition get_addr_from_string :: "mstf_env \<Rightarrow> string \<Rightarrow> string \<Rightarrow> mstf \<Rightarrow> (sockaddr, mstf) run" where
  "get_addr_from_string env addr port s =
     (case me_getaddrinfo env addr port of
        Inl rval \<Rightarrow> Exit STF_UNRESOLVED (eprint (''get_addr_from_string: getaddrinfo: '' @ me_gai_strerror env rval @ [NL]) s)
      | Inr a \<Rightarrow> Ret a s)"

text \<open>The part of \<^verbatim>\<open>mstf_find_server\<close> that looks up the address and keeps it.\<close>

definition find_addr :: "mstf_env \<Rightarrow> mstf \<Rightarrow> (sockaddr option, mstf) run" where
  "find_addr env s =
     (case ms_addr s of
        Some a \<Rightarrow> Ret (Some a) s
      | None \<Rightarrow>
          (case me_getenv env ''MSTF_SYNC_SERV'' of
             None \<Rightarrow> Ret None (eprint (''mstf_find_server: MSTF_SYNC_SERV must be set the environment'' @ [NL]) s)
           | Some addr \<Rightarrow>
               let port = (case me_getenv env ''MSTF_SYNC_PORT'' of None \<Rightarrow> MSTF_SYNC_PORT | Some p \<Rightarrow> p) in
               if \<not> me_malloc env (ms_tick s) then Ret None (eprint (''malloc: no space!'' @ [NL]) (stick s))
               else seq (get_addr_from_string env addr port (stick s)) (\<lambda>a s. Ret (Some a) (s\<lparr>ms_addr := Some a\<rparr>))))"

text \<open>After a failed \<^verbatim>\<open>socket\<close> the descriptor -1 is closed, which sets \<^verbatim>\<open>errno\<close> to EBADF before it is printed.\<close>

definition mstf_find_server :: "mstf_env \<Rightarrow> mstf \<Rightarrow> (stream option, mstf) run" where
  "mstf_find_server env s =
     seq (find_addr env s) (\<lambda>addr s.
     case addr of
       None \<Rightarrow> Ret None s
     | Some a \<Rightarrow>
         let c = ms_tick s; s = stick s in
         if me_socket env c \<noteq> 0 then Ret None (net_perror env ''mstf_find_server: socket()'' EBADF s)
         else if me_connect env c a \<noteq> 0
         then Ret None (net_perror env ''mstf_find_server: failed to connect to sync server'' (me_connect env c a) s)
         else if me_fdopen env c \<noteq> 0 then Ret None (net_perror env ''mstf_find_server: fdopen()'' (me_fdopen env c) s)
         else Ret (Some \<lparr>st_conn = c, st_pending = [], st_input = me_input env c\<rparr>) (s\<lparr>ms_open := insert c (ms_open s)\<rparr>))"

text \<open>A failure: the message and the result, or the end of the process.\<close>

definition mstf_fails :: "mstf_env \<Rightarrow> string \<Rightarrow> string \<Rightarrow> mstf \<Rightarrow> (int, mstf) run" where
  "mstf_fails env fcn_name msg s = seq (mstf_error env fcn_name msg s) (\<lambda>_ s. Ret STF_UNRESOLVED s)"

definition sync_reply :: "mstf_env \<Rightarrow> string \<Rightarrow> string option \<Rightarrow> mstf \<Rightarrow> (int, mstf) run" where
  "sync_reply env label result s =
     (case result of
        None \<Rightarrow> Stuck
      | Some t \<Rightarrow>
          let t = cstring t in
          if take 2 t = ''go'' then Ret STF_PASS s
          else if take 6 t = ''failed'' then mstf_fails env ''mstf_sync'' (''failed at label: '' @ label) s
          else mstf_fails env ''mstf_sync'' (''bad reply ['' @ t @ ''] to sync'') s)"

definition mstf_sync :: "mstf_env \<Rightarrow> string \<Rightarrow> mstf \<Rightarrow> (int, mstf) run" where
  "mstf_sync env label s =
     seq (mstf_find_server env s) (\<lambda>serv_file s.
     case serv_file of
       None \<Rightarrow> mstf_fails env ''mstf_sync'' ''failed to connect to sync server'' s
     | Some f \<Rightarrow>
         (case fprint env (''sync '' @ label @ [NL]) f s of (e1, f, s) \<Rightarrow>
          case fflush env f s of (e2, f, s) \<Rightarrow>
          let errno = (if e2 \<noteq> 0 then e2 else e1) in
          if errno \<noteq> 0 then mstf_fails env ''mstf_sync'' ''failed to write to sync server'' (fclose env f s)
          else case read_line MSTF_BUFLEN errno None (st_input f) of
              None \<Rightarrow> Stuck
            | Some (errno, result, evs) \<Rightarrow>
                if errno \<noteq> 0 then mstf_fails env ''mstf_sync'' ''failed to read from sync server'' s
                else sync_reply env label result (fclose env f s)))"

text \<open>The line is only buffered when \<^verbatim>\<open>errno\<close> is looked at; it is sent when the stream is closed.\<close>

definition mstf_setvar :: "mstf_env \<Rightarrow> string \<Rightarrow> string \<Rightarrow> mstf \<Rightarrow> (int, mstf) run" where
  "mstf_setvar env var_name val s =
     seq (mstf_find_server env s) (\<lambda>serv_file s.
     case serv_file of
       None \<Rightarrow> mstf_fails env ''mstf_setvar'' ''failed to connect to sync server'' s
     | Some f \<Rightarrow>
         (case fprint env (''setv '' @ var_name @ ''='' @ val @ [NL]) f s of (errno, f, s) \<Rightarrow>
          if errno \<noteq> 0 then mstf_fails env ''mstf_setvar'' ''failed to write to sync server'' (fclose env f s)
          else Ret STF_PASS (fclose env f s)))"

text \<open>
  The last two characters are cut off before the error is looked at: an array whose contents are indeterminate, or a
  text of fewer than two characters, is undefined behaviour.
\<close>

definition trim_crlf :: "string option \<Rightarrow> string option" where
  "trim_crlf result =
     (case result of None \<Rightarrow> None
      | Some t \<Rightarrow> let t = cstring t in if length t < 2 then None else Some (take (length t - 2) t))"

definition mstf_getvar :: "mstf_env \<Rightarrow> string \<Rightarrow> string option \<Rightarrow> nat \<Rightarrow> mstf \<Rightarrow> (int \<times> string option, mstf) run" where
  "mstf_getvar env var_name result result_len s =
     seq (mstf_find_server env s) (\<lambda>serv_file s.
     let fails = (\<lambda>msg result s. seq (mstf_fails env ''mstf_getvar'' msg s) (\<lambda>r s. Ret (r, result) s)) in
     case serv_file of
       None \<Rightarrow> fails ''failed to connect to sync server'' result s
     | Some f \<Rightarrow>
         (case fprint env (''getv '' @ var_name @ [NL]) f s of (e1, f, s) \<Rightarrow>
          case fflush env f s of (e2, f, s) \<Rightarrow>
          let errno = (if e2 \<noteq> 0 then e2 else e1) in
          if errno \<noteq> 0 then fails ''failed to write to sync server'' result (fclose env f s)
          else case read_line result_len errno result (st_input f) of
              None \<Rightarrow> Stuck
            | Some (errno, result, evs) \<Rightarrow>
                (case trim_crlf result of
                   None \<Rightarrow> Stuck
                 | Some t \<Rightarrow>
                     if errno \<noteq> 0 then fails ''failed to read from sync server'' (Some t) (fclose env f s)
                     else Ret (STF_PASS, Some t) (fclose env f s))))"

section \<open>The commands\<close>

definition oprint :: "string \<Rightarrow> mstf \<Rightarrow> mstf" where
  "oprint t s = s\<lparr>ms_out := ms_out s @ t\<rparr>"

definition main_sync :: "mstf_env \<Rightarrow> string list \<Rightarrow> mstf \<Rightarrow> (int, mstf) run" where
  "main_sync env argv s =
     (if length argv \<noteq> 2 then Ret STF_UNRESOLVED (oprint (''Usage: mstf_sync <label>'' @ [NL]) s)
      else mstf_sync env (argv ! 1) s)"

definition main_setvar :: "mstf_env \<Rightarrow> string list \<Rightarrow> mstf \<Rightarrow> (int, mstf) run" where
  "main_setvar env argv s =
     (if length argv \<noteq> 3 then Ret STF_UNRESOLVED (oprint (''Usage: mstf_setvar <variable> <value>'' @ [NL]) s)
      else mstf_setvar env (argv ! 1) (argv ! 2) s)"

text \<open>The value is used as a format.\<close>

definition main_getvar :: "mstf_env \<Rightarrow> string list \<Rightarrow> mstf \<Rightarrow> (int, mstf) run" where
  "main_getvar env argv s =
     (if length argv \<noteq> 2 then Ret STF_UNRESOLVED (oprint (''Usage: mstf_getvar <variable>'' @ [NL]) s)
      else
        seq (mstf_getvar env (argv ! 1) None BUF_SIZE s) (\<lambda>(r, result) s.
        if r = STF_PASS
        then case map_option (\<lambda>t. format t []) result of
            Some (Some t) \<Rightarrow> Ret STF_PASS (oprint t s)
          | _ \<Rightarrow> Stuck
        else Ret STF_UNRESOLVED s))"

end
