(* ===== verification/Mstf_Server.thy ===== *)
theory Mstf_Server
  imports Log_Api
begin

text \<open>
  The server of the multi-host library, the expect script \<^verbatim>\<open>mstf_syncserv.exp\<close>: for every connection it reads one line
  and keeps the variables, the channels that wait for a variable and those that wait at a synchronisation point. A line
  is a Tcl list; lines with characters that have a meaning in a list or in a name of the array (braces, quotes,
  backslashes, commas) are not followed and give \<open>None\<close>, as does a comparison of labels that may be numbers.
\<close>

section \<open>Lists of Tcl\<close>

definition plain :: "char \<Rightarrow> bool" where
  "plain c \<longleftrightarrow> (let n = of_char c :: nat in 97 \<le> n \<and> n \<le> 122 \<or> 65 \<le> n \<and> n \<le> 90) \<or> is_digit c \<or> c \<in> set ''_-./:+@=''"

text \<open>The words of a line and the string of a list of words.\<close>

function words :: "string \<Rightarrow> string list" where
  "words t =
     (let t = dropWhile (\<lambda>c. c = CHR '' '') t in
      if t = [] then [] else takeWhile (\<lambda>c. c \<noteq> CHR '' '') t # words (dropWhile (\<lambda>c. c \<noteq> CHR '' '') t))"
  by pat_completeness auto
termination
proof (relation "measure length")
  fix t x :: string
  assume x: "x = dropWhile (\<lambda>c. c = CHR '' '') t" "x \<noteq> []"
  then have "hd x \<noteq> CHR '' ''" using hd_dropWhile [of "\<lambda>c. c = CHR '' ''" t] by simp
  then have "length (dropWhile (\<lambda>c. c \<noteq> CHR '' '') x) < length x"
    using x(2) length_dropWhile_le [of _ "tl x"] by (cases x) (auto simp: le_imp_less_Suc)
  also have "length x \<le> length t" using x(1) by (simp add: length_dropWhile_le)
  finally show "(dropWhile (\<lambda>c. c \<noteq> CHR '' '') x, t) \<in> measure length" by simp
qed simp

declare words.simps [simp del]

fun unwords :: "string list \<Rightarrow> string" where
  "unwords [] = []"
| "unwords [w] = w"
| "unwords (w # v # ws) = w @ '' '' @ unwords (v # ws)"

definition lindex :: "string list \<Rightarrow> nat \<Rightarrow> string" where
  "lindex ws i = (if i < length ws then ws ! i else [])"

text \<open>The first two fields of a string cut at the equals signs.\<close>

definition assign_var :: "string \<Rightarrow> string" where
  "assign_var t = takeWhile (\<lambda>c. c \<noteq> CHR ''='') t"

definition assign_value :: "string \<Rightarrow> string" where
  "assign_value t = takeWhile (\<lambda>c. c \<noteq> CHR ''='') (tl (dropWhile (\<lambda>c. c \<noteq> CHR ''='') t))"

text \<open>The operator \<^verbatim>\<open>==\<close> compares strings unless both look like numbers.\<close>

definition no_number :: "string \<Rightarrow> bool" where
  "no_number t \<longleftrightarrow> t = [] \<or> plain (hd t) \<and> \<not> is_digit (hd t) \<and> hd t \<notin> set '' .+-iInN''"

definition tcl_eq :: "string \<Rightarrow> string \<Rightarrow> bool option" where
  "tcl_eq a b = (if no_number a \<or> no_number b then Some (a = b) else None)"

section \<open>The server\<close>

record server =
  shared_vars :: "string \<rightharpoonup> string"
  sv_waits :: "string \<rightharpoonup> nat list"
  open_list :: "nat list"
  target_label :: string
  num_parts :: int
  sv_rval :: "int option"
  sv_replies :: "(nat \<times> string) list"

definition CRLF :: string where "CRLF = [CHR 0x0D, CHR 0x0A]"

definition serv_start :: "int \<Rightarrow> server" where
  "serv_start n = \<lparr>shared_vars = Map.empty, sv_waits = Map.empty, open_list = [], target_label = [], num_parts = n, sv_rval = None,
     sv_replies = []\<rparr>"

text \<open>Writing a line to channels and closing them.\<close>

definition answer :: "nat list \<Rightarrow> string \<Rightarrow> server \<Rightarrow> server" where
  "answer cs t sv = sv\<lparr>sv_replies := sv_replies sv @ map (\<lambda>c. (c, t @ CRLF)) cs\<rparr>"

definition serv_getv :: "nat \<Rightarrow> string list \<Rightarrow> server \<Rightarrow> server" where
  "serv_getv chan line sv =
     (let var = lindex line 1 in
      case shared_vars sv var of
        Some v \<Rightarrow> answer [chan] v sv
      | None \<Rightarrow> sv\<lparr>sv_waits := (sv_waits sv)(var \<mapsto> (case sv_waits sv var of None \<Rightarrow> [chan] | Some cs \<Rightarrow> cs @ [chan]))\<rparr>)"

definition serv_setv :: "nat \<Rightarrow> string list \<Rightarrow> server \<Rightarrow> server" where
  "serv_setv chan line sv =
     (let assign = unwords (tl line); var = assign_var assign; val = assign_value assign;
          sv = sv\<lparr>shared_vars := (shared_vars sv)(var \<mapsto> val)\<rparr>
      in case sv_waits sv var of
           None \<Rightarrow> sv
         | Some cs \<Rightarrow> (answer cs val sv)\<lparr>sv_waits := (sv_waits sv)(var := None)\<rparr>)"

text \<open>All parts are there.\<close>

definition serv_go :: "server \<Rightarrow> server" where
  "serv_go sv =
     (if int (length (open_list sv)) = num_parts sv
      then (answer (open_list sv) ''go'' sv)\<lparr>target_label := [], open_list := []\<rparr> else sv)"

definition serv_sync :: "nat \<Rightarrow> string list \<Rightarrow> server \<Rightarrow> server option" where
  "serv_sync chan line sv =
     (let lab = unwords (tl line) in
      case tcl_eq lab (target_label sv) of
        None \<Rightarrow> None
      | Some same \<Rightarrow>
          Some (if same \<or> target_label sv = []
                then serv_go (sv\<lparr>target_label := lab, open_list := open_list sv @ [chan]\<rparr>)
                else (answer (open_list sv @ [chan]) ''failed'' sv)\<lparr>sv_rval := Some STF_UNRESOLVED\<rparr>))"

definition serv_sfin :: "server \<Rightarrow> server" where
  "serv_sfin sv = serv_go (sv\<lparr>num_parts := num_parts sv - 1\<rparr>)"

definition serv_stop :: "server \<Rightarrow> server" where
  "serv_stop sv = sv\<lparr>sv_rval := Some (if dom (sv_waits sv) \<noteq> {} \<or> open_list sv \<noteq> [] then STF_UNRESOLVED else STF_PASS)\<rparr>"

text \<open>A server that has set its result ends.\<close>

definition handle_connect :: "nat \<Rightarrow> string \<Rightarrow> server \<Rightarrow> server option" where
  "handle_connect chan t sv =
     (if sv_rval sv \<noteq> None \<or> \<not> list_all (\<lambda>c. plain c \<or> c = CHR '' '') t then None
      else
        let line = words t; command = lindex line 0 in
        if command = ''getv'' then Some (serv_getv chan line sv)
        else if command = ''setv'' then Some (serv_setv chan line sv)
        else if command = ''sync'' then serv_sync chan line sv
        else if command = ''sfin'' then Some (serv_sfin sv)
        else if command = ''stop'' then Some (serv_stop sv)
        else Some ((answer (open_list sv) ''failed'' sv)\<lparr>sv_rval := Some STF_UNRESOLVED\<rparr>))"

fun serve :: "(nat \<times> string) list \<Rightarrow> server \<Rightarrow> server option" where
  "serve [] sv = Some sv"
| "serve ((c, t) # rs) sv = (case handle_connect c t sv of None \<Rightarrow> None | Some sv \<Rightarrow> serve rs sv)"

text \<open>What a channel was sent.\<close>

definition heard :: "nat \<Rightarrow> server \<Rightarrow> string" where
  "heard c sv = concat (map snd (filter (\<lambda>r. fst r = c) (sv_replies sv)))"

end
