(* ===== verification/Mstf_Spec.thy ===== *)
theory Mstf_Spec
  imports Mstf Mstf_Server
begin

text \<open>
  The calls of the multi-host library on a network without failures, the protocol between its commands and the server,
  and what an interrupted read does.
\<close>

section \<open>Reading a line\<close>

text \<open>The connection delivers this text, in some pieces, and no failure.\<close>

fun sends :: "event list \<Rightarrow> string \<Rightarrow> bool" where
  "sends [] t \<longleftrightarrow> t = []"
| "sends (Failed e # evs) t \<longleftrightarrow> False"
| "sends (Chunk b # evs) t \<longleftrightarrow> take (length b) t = b \<and> sends evs (drop (length b) t)"

lemma fgets_line:
  assumes "sends evs (t @ [NL])" "NL \<notin> set t"
  shows "fst (fgets n acc evs) = Got (acc @ take n (t @ [NL]))"
  using assms
proof (induction n acc evs arbitrary: t rule: fgets.induct)
  case (5 n acc c cs evs)
  then show ?case by (cases t) auto
qed auto

lemma fgets_interrupted:
  assumes "NL \<notin> set (concat ps)" "length (concat ps) < n"
  shows "fgets n acc (map Chunk ps @ Failed e # evs) = (Err e, evs)"
  using assms
proof (induction ps arbitrary: n acc)
  case Nil
  then show ?case by (cases n) auto
next
  case (Cons p ps)
  have "fgets n acc (Chunk p # map Chunk ps @ Failed e # evs) = (Err e, evs)" using Cons.prems
  proof (induction p arbitrary: n acc)
    case Nil
    then show ?case using Cons.IH by (cases n) auto
  next
    case (Cons c p)
    then show ?case by (cases n) auto
  qed
  then show ?case by simp
qed

lemma read_line_ok:
  assumes "sends evs (t @ [NL])" "NL \<notin> set t"
  shows "\<exists>evs'. read_line n 0 result evs = Some (0, Some (take (n - 1) (t @ [NL])), evs')"
  using fgets_line [OF assms, of "n - 1" "[]"]
  by (subst read_line.simps) (auto split: prod.splits)

text \<open>Once \<^verbatim>\<open>errno\<close> is EINTR, only a read that fails with another error ends the loop.\<close>

lemma fgets_rest: "fgets n acc evs = (g, evs') \<Longrightarrow> (\<forall>e. Failed e \<in> set evs' \<longrightarrow> Failed e \<in> set evs) \<and> (\<forall>e. g = Err e \<longrightarrow> Failed e \<in> set evs)"
  by (induction n acc evs rule: fgets.induct) (auto split: if_splits)

lemma read_line_endless:
  assumes "\<forall>e. Failed e \<in> set evs \<longrightarrow> e = EINTR"
  shows "read_line n EINTR result evs = None"
proof -
  have "\<not> (\<forall>e. Failed e \<in> set evs \<longrightarrow> e = EINTR)" if "read_line n i result evs = Some y" "i = EINTR" for i y
    using that
  proof (induction n i result evs y rule: read_line.raw_induct [rotated, consumes 1])
    case (1 rl n i result evs y)
    obtain g evs' where g: "fgets (n - 1) [] evs = (g, evs')" by force
    show ?case
    proof
      assume a: "\<forall>e. Failed e \<in> set evs \<longrightarrow> e = EINTR"
      then have e: "(case g of Err e \<Rightarrow> e | _ \<Rightarrow> i) = EINTR" "\<forall>e. Failed e \<in> set evs' \<longrightarrow> e = EINTR"
        using fgets_rest [OF g] 1(3) by (auto split: got.splits)
      obtain r where "rl n EINTR r evs' = Some y" using 1(2) e(1) by (auto simp: g Let_def simp del: One_nat_def)
      then show False using 1(1) [OF _ refl] e(2) by (cases y) blast
    qed
  qed
  then show ?thesis using assms by (cases "read_line n EINTR result evs") auto
qed

lemma read_line_interrupted:
  assumes "NL \<notin> set (concat ps)" "length (concat ps) < n - 1" "\<forall>e. Failed e \<in> set evs \<longrightarrow> e = EINTR"
  shows "read_line n 0 result (map Chunk ps @ Failed EINTR # evs) = None"
  by (subst read_line.simps) (simp add: fgets_interrupted [OF assms(1,2)] read_line_endless [OF assms(3)] del: One_nat_def)

section \<open>A network without failures\<close>

definition net_up :: "mstf_env \<Rightarrow> bool" where
  "net_up env \<longleftrightarrow>
     (\<forall>t. me_malloc env t \<and> me_socket env t = 0 \<and> (\<forall>a. me_connect env t a = 0) \<and> me_fdopen env t = 0) \<and>
     (\<exists>h. me_getenv env ''MSTF_SYNC_SERV'' = Some h \<and> (\<forall>p. \<exists>a. me_getaddrinfo env h p = Inr a))"

definition net_calm :: "mstf_env \<Rightarrow> bool" where
  "net_calm env \<longleftrightarrow> net_up env \<and> (\<forall>t. me_write env t = 0)"

lemma net_calm_up [dest]: "net_calm env \<Longrightarrow> net_up env"
  by (simp add: net_calm_def)

text \<open>The next connection and the invariant of the connections.\<close>

definition next_conn :: "mstf \<Rightarrow> nat" where
  "next_conn s = (if ms_addr s = None then Suc (ms_tick s) else ms_tick s)"

definition conns_ok :: "mstf \<Rightarrow> bool" where
  "conns_ok s \<longleftrightarrow> (\<forall>c \<in> ms_open s. c < ms_tick s)"

lemma find_server_up:
  assumes "net_up env"
  shows "returns (mstf_find_server env s) (\<lambda>f s'. f = Some \<lparr>st_conn = next_conn s, st_pending = [], st_input = me_input env (next_conn s)\<rparr> \<and>
    ms_open s' = insert (next_conn s) (ms_open s) \<and> ms_sent s' = ms_sent s \<and> ms_err s' = ms_err s \<and> ms_out s' = ms_out s)"
proof -
  have "returns (find_addr env s) (\<lambda>a s'. (\<exists>b. a = Some b) \<and> ms_tick s' = next_conn s \<and> ms_open s' = ms_open s \<and> ms_sent s' = ms_sent s \<and>
      ms_err s' = ms_err s \<and> ms_out s' = ms_out s)"
  proof (cases "ms_addr s")
    case None
    obtain h where h: "me_getenv env ''MSTF_SYNC_SERV'' = Some h" "\<forall>p. \<exists>a. me_getaddrinfo env h p = Inr a"
      using assms by (auto simp: net_up_def)
    define p where "p = (case me_getenv env ''MSTF_SYNC_PORT'' of None \<Rightarrow> MSTF_SYNC_PORT | Some p \<Rightarrow> p)"
    obtain a where "me_getaddrinfo env h p = Inr a" using h(2) by blast
    then show ?thesis using None h(1) assms
      by (simp add: find_addr_def get_addr_from_string_def next_conn_def net_up_def Let_def flip: p_def)
  qed (simp add: find_addr_def next_conn_def)
  then show ?thesis unfolding mstf_find_server_def returns_seq
    by (rule returns_mono) (use assms in \<open>auto simp: net_up_def Let_def\<close>)
qed

lemma deliver_calm: "net_calm env \<Longrightarrow> t \<noteq> [] \<Longrightarrow> deliver env c t s = (0, (stick s)\<lparr>ms_sent := ms_sent s @ [(c, t)]\<rparr>)"
  by (simp add: deliver_def net_calm_def)

lemma deliver_Nil [simp]: "deliver env c [] s = (0, s)"
  by (simp add: deliver_def)

text \<open>A request: printed and flushed, or printed and flushed by closing the stream.\<close>

lemma request_calm:
  assumes "net_calm env" "t \<noteq> []" "st_pending f = []" "fprint env t f s = (e1, f1, s1)" "fflush env f1 s1 = (e2, f2, s2)"
  shows "e1 = 0 \<and> e2 = 0 \<and> f2 = f \<and> s2 = (stick s)\<lparr>ms_sent := ms_sent s @ [(st_conn f, t)]\<rparr>"
  using assms(3-5) deliver_calm [OF assms(1,2)]
  by (cases f) (auto simp: fprint_def fflush_def split: if_splits)

lemma fclose_idle: "st_pending f = [] \<Longrightarrow> fclose env f s = s\<lparr>ms_open := ms_open s - {st_conn f}\<rparr>"
  by (simp add: fclose_def fflush_def)

text \<open>After a call: one more request was sent, and the connection is closed.\<close>

definition asked :: "string \<Rightarrow> mstf \<Rightarrow> mstf \<Rightarrow> bool" where
  "asked t s s' \<longleftrightarrow> ms_sent s' = ms_sent s @ [(next_conn s, t)] \<and> ms_open s' = ms_open s \<and> ms_err s' = ms_err s \<and> ms_out s' = ms_out s"

lemma conns_okD: "conns_ok s \<Longrightarrow> next_conn s \<notin> ms_open s"
  by (auto simp: conns_ok_def next_conn_def)

text \<open>The stream of a new connection, and the exchange that sends a request over it.\<close>

definition new_stream :: "mstf_env \<Rightarrow> mstf \<Rightarrow> stream" where
  "new_stream env s = \<lparr>st_conn = next_conn s, st_pending = [], st_input = me_input env (next_conn s)\<rparr>"

lemma new_stream_simps [simp]:
  "st_conn (new_stream env s) = next_conn s" "st_pending (new_stream env s) = []" "st_input (new_stream env s) = me_input env (next_conn s)"
  by (simp_all add: new_stream_def)

lemma exchange:
  assumes "net_calm env" "conns_ok s" "t \<noteq> []"
  obtains s0 f1 u1 u2 where "mstf_find_server env s = Ret (Some (new_stream env s)) s0" "fprint env t (new_stream env s) s0 = (0, f1, u1)"
    "fflush env f1 u1 = (0, new_stream env s, u2)" "asked t s (fclose env (new_stream env s) u2)" "fclose env f1 u1 = fclose env (new_stream env s) u2"
proof -
  obtain s0 where s0: "mstf_find_server env s = Ret (Some (new_stream env s)) s0" "ms_open s0 = insert (next_conn s) (ms_open s)"
      "ms_sent s0 = ms_sent s" "ms_err s0 = ms_err s" "ms_out s0 = ms_out s"
    using find_server_up [OF net_calm_up [OF assms(1)], of s] by (auto simp: returns_def new_stream_def)
  obtain e1 f1 u1 e2 f2 u2 where fp: "fprint env t (new_stream env s) s0 = (e1, f1, u1)" "fflush env f1 u1 = (e2, f2, u2)"
    by (metis prod_cases3)
  have r: "e1 = 0 \<and> e2 = 0 \<and> f2 = new_stream env s \<and> u2 = (stick s0)\<lparr>ms_sent := ms_sent s0 @ [(next_conn s, t)]\<rparr>"
    using request_calm [OF assms(1,3) _ fp] by simp
  have "asked t s (fclose env (new_stream env s) u2)" using r s0 conns_okD [OF assms(2)] by (auto simp: fclose_idle asked_def)
  moreover have "fclose env f1 u1 = fclose env (new_stream env s) u2" using fp r by (simp add: fclose_def fflush_def)
  ultimately show ?thesis using that s0(1) fp r by blast
qed

lemma mstf_sync_reads:
  assumes "net_calm env" "conns_ok s"
  obtains s1 s2 where "asked (''sync '' @ lab @ [NL]) s s2"
    "mstf_sync env lab s =
      (case read_line MSTF_BUFLEN 0 None (me_input env (next_conn s)) of
         None \<Rightarrow> Stuck
       | Some (errno, result, evs) \<Rightarrow>
           if errno \<noteq> 0 then mstf_fails env ''mstf_sync'' ''failed to read from sync server'' s1 else sync_reply env lab result s2)"
proof -
  obtain s0 f1 u1 u2 where x: "mstf_find_server env s = Ret (Some (new_stream env s)) s0"
      "fprint env (''sync '' @ lab @ [NL]) (new_stream env s) s0 = (0, f1, u1)" "fflush env f1 u1 = (0, new_stream env s, u2)"
    and a: "asked (''sync '' @ lab @ [NL]) s (fclose env (new_stream env s) u2)"
    by (rule exchange [OF assms, of "''sync '' @ lab @ [NL]"]) simp
  show ?thesis by (rule that [OF a, of u2]) (use x in \<open>simp add: mstf_sync_def\<close>)
qed

lemma mstf_getvar_reads:
  assumes "net_calm env" "conns_ok s"
  obtains s2 where "asked (''getv '' @ var @ [NL]) s s2"
    "mstf_getvar env var result n s =
      (case read_line n 0 result (me_input env (next_conn s)) of
         None \<Rightarrow> Stuck
       | Some (errno, result, evs) \<Rightarrow>
           (case trim_crlf result of
              None \<Rightarrow> Stuck
            | Some t \<Rightarrow>
                if errno \<noteq> 0
                then seq (mstf_fails env ''mstf_getvar'' ''failed to read from sync server'' s2) (\<lambda>r s. Ret (r, Some t) s)
                else Ret (STF_PASS, Some t) s2))"
proof -
  obtain s0 f1 u1 u2 where x: "mstf_find_server env s = Ret (Some (new_stream env s)) s0"
      "fprint env (''getv '' @ var @ [NL]) (new_stream env s) s0 = (0, f1, u1)" "fflush env f1 u1 = (0, new_stream env s, u2)"
    and a: "asked (''getv '' @ var @ [NL]) s (fclose env (new_stream env s) u2)"
    by (rule exchange [OF assms, of "''getv '' @ var @ [NL]"]) simp
  show ?thesis by (rule that [OF a]) (use x in \<open>simp add: mstf_getvar_def\<close>)
qed

lemma mstf_setvar_sends:
  assumes "net_calm env" "conns_ok s"
  shows "returns (mstf_setvar env var val s) (\<lambda>r s'. r = STF_PASS \<and> asked (''setv '' @ var @ ''='' @ val @ [NL]) s s')"
proof -
  let ?t = "''setv '' @ var @ ''='' @ val @ [NL]"
  obtain s0 f1 u1 u2 where x: "mstf_find_server env s = Ret (Some (new_stream env s)) s0"
      "fprint env ?t (new_stream env s) s0 = (0, f1, u1)" "fclose env f1 u1 = fclose env (new_stream env s) u2"
    and a: "asked ?t s (fclose env (new_stream env s) u2)"
    by (rule exchange [OF assms, of ?t]) simp
  show ?thesis using x a by (simp add: mstf_setvar_def)
qed

text \<open>The value of a variable, however its line is cut into pieces: what does not fit the array is lost, with two more characters.\<close>

lemma mstf_getvar_value:
  assumes "net_calm env" "conns_ok s" "sends (me_input env (next_conn s)) (v @ CRLF)" "NL \<notin> set v" "CHR 0x00 \<notin> set v" "3 \<le> n"
  shows "returns (mstf_getvar env var result n s) (\<lambda>(r, t) s'. r = STF_PASS \<and> t = Some (take (n - 3) v) \<and> asked (''getv '' @ var @ [NL]) s s')"
proof -
  have crlf: "v @ CRLF = (v @ [CHR 0x0D]) @ [NL]" by (simp add: CRLF_def)
  have nl: "NL \<notin> set (v @ [CHR 0x0D])" using assms(4) by simp
  obtain evs where rl: "read_line n 0 result (me_input env (next_conn s)) = Some (0, Some (take (n - 1) (v @ CRLF)), evs)"
    using read_line_ok [OF assms(3) [unfolded crlf] nl, of n result] by (auto simp: crlf)
  define x where "x = take (n - 1) (v @ CRLF)"
  have "cstring x = x"
    using assms(5) unfolding cstring_def x_def by (intro takeWhile_eq_all_conv [THEN iffD2]) (auto simp: CRLF_def dest!: in_set_takeD)
  moreover have "take (length x - 2) x = take (n - 3) v" "\<not> length x < 2"
    using assms(6) by (auto simp: x_def CRLF_def min_def numeral_3_eq_3)
  ultimately have "trim_crlf (Some x) = Some (take (n - 3) v)" by (simp add: trim_crlf_def Let_def)
  then show ?thesis by (rule_tac mstf_getvar_reads [OF assms(1,2), of var result n]) (simp add: rl [folded x_def])
qed

lemma mstf_sync_answered:
  assumes "net_calm env" "conns_ok s" "sends (me_input env (next_conn s)) (t @ CRLF)" "NL \<notin> set t" "length t < 100"
  obtains s2 where "asked (''sync '' @ lab @ [NL]) s s2" "mstf_sync env lab s = sync_reply env lab (Some (t @ CRLF)) s2"
proof -
  have crlf: "t @ CRLF = (t @ [CHR 0x0D]) @ [NL]" by (simp add: CRLF_def)
  have nl: "NL \<notin> set (t @ [CHR 0x0D])" using assms(4) by simp
  obtain evs where rl: "read_line MSTF_BUFLEN 0 None (me_input env (next_conn s)) = Some (0, Some (t @ CRLF), evs)"
    using read_line_ok [OF assms(3) [unfolded crlf] nl, of MSTF_BUFLEN None] assms(5) by (auto simp: crlf MSTF_BUFLEN_def)
  show ?thesis by (rule mstf_sync_reads [OF assms(1,2), of lab], rule that) (simp_all add: rl)
qed

section \<open>The server\<close>

text \<open>A word: no blank and no character that the server does not take as it is.\<close>

definition word :: "string \<Rightarrow> bool" where
  "word w \<longleftrightarrow> w \<noteq> [] \<and> list_all plain w"

lemma word_chars: "word w \<Longrightarrow> c \<in> set w \<Longrightarrow> c \<noteq> CHR '' '' \<and> c \<noteq> NL \<and> c \<noteq> CHR 0x00 \<and> c \<noteq> CHR ''%''"
  by (auto simp: word_def list_all_iff plain_def Let_def is_digit_def)

lemma words_word:
  assumes "word a" "r = [] \<or> hd r = CHR '' ''"
  shows "words (a @ r) = a # words r"
proof -
  have "dropWhile (\<lambda>c. c = CHR '' '') (a @ r) = a @ r" using word_chars [OF assms(1)] assms(1) by (cases a) (auto simp: word_def)
  moreover have "takeWhile (\<lambda>c. c \<noteq> CHR '' '') r = []" "dropWhile (\<lambda>c. c \<noteq> CHR '' '') r = r" using assms(2) by (cases r; auto)+
  then have "takeWhile (\<lambda>c. c \<noteq> CHR '' '') (a @ r) = a" "dropWhile (\<lambda>c. c \<noteq> CHR '' '') (a @ r) = r"
    using word_chars [OF assms(1)] by (simp_all add: takeWhile_append2 dropWhile_append2)
  ultimately show ?thesis using assms(1) by (subst words.simps) (simp add: word_def)
qed

lemma words_Nil [simp]: "words [] = []"
  by (subst words.simps) simp

lemma words_blank: "words (CHR '' '' # t) = words t"
  by (subst words.simps, subst (2) words.simps) simp

lemma words_two: "word a \<Longrightarrow> word b \<Longrightarrow> words (a @ '' '' @ b) = [a, b]"
  using words_word [of a "'' '' @ b"] words_word [of b "[]"] by (simp add: words_blank)

lemma commands_word: "word ''sync''" "word ''getv''" "word ''setv''"
  by (simp_all add: word_def plain_def Let_def)

text \<open>The requests as the server reads them.\<close>

definition req_sync :: "string \<Rightarrow> string" where
  "req_sync lab = ''sync '' @ lab"

definition req_getv :: "string \<Rightarrow> string" where
  "req_getv var = ''getv '' @ var"

definition req_setv :: "string \<Rightarrow> string \<Rightarrow> string" where
  "req_setv var val = ''setv '' @ var @ ''='' @ val"

lemma handle_sync:
  assumes "word lab" "sv_rval sv = None"
  shows "handle_connect c (req_sync lab) sv = serv_sync c [''sync'', lab] sv"
proof -
  have "words (''sync '' @ lab) = [''sync'', lab]" using words_two [OF commands_word(1) assms(1)] by simp
  moreover have "list_all (\<lambda>c. plain c \<or> c = CHR '' '') (''sync '' @ lab)"
    using commands_word(1) assms(1) by (auto simp: word_def list_all_iff)
  ultimately show ?thesis using assms(2) by (simp add: handle_connect_def lindex_def req_sync_def)
qed

lemma handle_getv:
  assumes "word var" "sv_rval sv = None"
  shows "handle_connect c (req_getv var) sv = Some (serv_getv c [''getv'', var] sv)"
proof -
  have "words (''getv '' @ var) = [''getv'', var]" using words_two [OF commands_word(2) assms(1)] by simp
  moreover have "list_all (\<lambda>c. plain c \<or> c = CHR '' '') (''getv '' @ var)"
    using commands_word(2) assms(1) by (auto simp: word_def list_all_iff)
  ultimately show ?thesis using assms(2) by (simp add: handle_connect_def lindex_def req_getv_def)
qed

lemma handle_setv:
  assumes "word (var @ ''='' @ val)" "sv_rval sv = None"
  shows "handle_connect c (req_setv var val) sv = Some (serv_setv c [''setv'', var @ ''='' @ val] sv)"
proof -
  have "words (''setv '' @ var @ ''='' @ val) = [''setv'', var @ ''='' @ val]" using words_two [OF commands_word(3) assms(1)] by simp
  moreover have "list_all (\<lambda>c. plain c \<or> c = CHR '' '') (''setv '' @ var @ ''='' @ val)"
    using commands_word(3) assms(1) by (auto simp: word_def list_all_iff)
  ultimately show ?thesis using assms(2) by (simp add: handle_connect_def lindex_def req_setv_def)
qed

text \<open>What the server keeps of a value: the text before its first equals sign.\<close>

definition kept :: "string \<Rightarrow> string" where
  "kept val = takeWhile (\<lambda>c. c \<noteq> CHR ''='') val"

lemma kept_all: "CHR ''='' \<notin> set val \<Longrightarrow> kept val = val"
  by (auto simp: kept_def takeWhile_eq_all_conv)

lemma kept_chars: "set (kept val) \<subseteq> set val"
  by (auto simp: kept_def dest: set_takeWhileD)

lemma assign_parts:
  assumes "CHR ''='' \<notin> set var"
  shows "assign_var (var @ ''='' @ val) = var" "assign_value (var @ ''='' @ val) = kept val"
proof -
  have v: "c \<noteq> CHR ''=''" if "c \<in> set var" for c using that assms by auto
  show "assign_var (var @ ''='' @ val) = var" using v by (simp add: assign_var_def takeWhile_append2)
  show "assign_value (var @ ''='' @ val) = kept val" using v by (simp add: assign_value_def dropWhile_append2 kept_def)
qed

lemma serve_append: "serve (xs @ ys) sv = (case serve xs sv of None \<Rightarrow> None | Some sv \<Rightarrow> serve ys sv)"
  by (induction xs sv rule: serve.induct) (auto split: option.splits)

text \<open>Parts that arrive at a synchronisation point one after the other, before the last of them.\<close>

definition label_ok :: "string \<Rightarrow> bool" where
  "label_ok lab \<longleftrightarrow> word lab \<and> no_number lab"

lemma serve_syncs:
  assumes "label_ok lab" "int (length cs) < n"
  shows "serve (map (\<lambda>c. (c, req_sync lab)) cs) (serv_start n) =
    Some ((serv_start n)\<lparr>open_list := cs, target_label := if cs = [] then [] else lab\<rparr>)"
  using assms(2)
proof (induction cs rule: rev_induct)
  case Nil
  show ?case by (simp add: serv_start_def)
next
  case (snoc c cs)
  then show ?case using assms(1)
    by (auto simp: serve_append handle_sync label_ok_def serv_start_def serv_sync_def tcl_eq_def serv_go_def)
qed

lemma serve_meets:
  assumes "label_ok lab" "cs \<noteq> []"
  shows "serve (map (\<lambda>c. (c, req_sync lab)) cs) (serv_start (int (length cs))) =
    Some ((serv_start (int (length cs)))\<lparr>sv_replies := map (\<lambda>c. (c, ''go'' @ CRLF)) cs\<rparr>)"
proof -
  obtain ds d where cs: "cs = ds @ [d]" using assms(2) by (cases cs rule: rev_cases) auto
  have "serve (map (\<lambda>c. (c, req_sync lab)) ds) (serv_start (int (length cs))) =
      Some ((serv_start (int (length cs)))\<lparr>open_list := ds, target_label := if ds = [] then [] else lab\<rparr>)"
    using serve_syncs [OF assms(1), of ds "int (length cs)"] cs by simp
  then show ?thesis using assms(1)
    by (auto simp: cs serve_append handle_sync label_ok_def serv_start_def serv_sync_def tcl_eq_def serv_go_def answer_def)
qed

lemma serve_parted:
  assumes "label_ok lab" "label_ok lab'" "lab' \<noteq> lab" "cs \<noteq> []" "int (length cs) < n"
  shows "\<exists>sv. serve (map (\<lambda>c. (c, req_sync lab)) cs @ [(d, req_sync lab')]) (serv_start n) = Some sv \<and>
    sv_replies sv = map (\<lambda>c. (c, ''failed'' @ CRLF)) (cs @ [d]) \<and> sv_rval sv = Some STF_UNRESOLVED"
proof -
  have "serve (map (\<lambda>c. (c, req_sync lab)) cs @ [(d, req_sync lab')]) (serv_start n) =
      serve [(d, req_sync lab')] ((serv_start n)\<lparr>open_list := cs, target_label := lab\<rparr>)"
    using assms(4) by (simp add: serve_append serve_syncs [OF assms(1,5)])
  moreover have "lab \<noteq> []" "word lab'" "no_number lab'" using assms(1,2) by (auto simp: label_ok_def word_def)
  ultimately show ?thesis using assms(3)
    by (simp add: handle_sync serv_start_def serv_sync_def tcl_eq_def answer_def)
qed

lemma heard_all: "sv_replies sv = map (\<lambda>c. (c, t)) cs \<Longrightarrow> distinct cs \<Longrightarrow> c \<in> set cs \<Longrightarrow> heard c sv = t"
proof -
  assume a: "sv_replies sv = map (\<lambda>c. (c, t)) cs" "distinct cs" "c \<in> set cs"
  have "filter (\<lambda>r. fst r = c) (map (\<lambda>c. (c, t)) cs) = [(c, t)]" using a(2,3)
    by (induction cs) (auto simp: filter_empty_conv)
  then show ?thesis by (simp add: heard_def a(1))
qed

section \<open>The protocol\<close>

text \<open>
  A part whose connection delivers this text, in any pieces: its call returns PASS with the request sent and the
  connection closed, or its call ends with UNRESOLVED.
\<close>

definition part_passes :: "string \<Rightarrow> string \<Rightarrow> bool" where
  "part_passes lab t \<longleftrightarrow> (\<forall>env s. net_calm env \<longrightarrow> conns_ok s \<longrightarrow> sends (me_input env (next_conn s)) t \<longrightarrow>
     returns (mstf_sync env lab s) (\<lambda>r s'. r = STF_PASS \<and> asked (req_sync lab @ [NL]) s s'))"

definition part_fails :: "string \<Rightarrow> string \<Rightarrow> bool" where
  "part_fails lab t \<longleftrightarrow> (\<forall>env s. net_calm env \<longrightarrow> conns_ok s \<longrightarrow> sends (me_input env (next_conn s)) t \<longrightarrow>
     (\<exists>s'. mstf_sync env lab s \<in> {Ret STF_UNRESOLVED s', Exit STF_UNRESOLVED s'} \<and> ms_open s' = ms_open s))"

lemma part_go: "part_passes lab (''go'' @ CRLF)"
  unfolding part_passes_def
proof (intro allI impI)
  fix env s
  assume a: "net_calm env" "conns_ok s" "sends (me_input env (next_conn s)) (''go'' @ CRLF)"
  show "returns (mstf_sync env lab s) (\<lambda>r s'. r = STF_PASS \<and> asked (req_sync lab @ [NL]) s s')"
    by (rule mstf_sync_answered [OF a, of lab]) (simp_all add: sync_reply_def cstring_def CRLF_def req_sync_def)
qed

lemma part_failed: "part_fails lab (''failed'' @ CRLF)"
  unfolding part_fails_def
proof (intro allI impI)
  fix env s
  assume a: "net_calm env" "conns_ok s" "sends (me_input env (next_conn s)) (''failed'' @ CRLF)"
  show "\<exists>s'. mstf_sync env lab s \<in> {Ret STF_UNRESOLVED s', Exit STF_UNRESOLVED s'} \<and> ms_open s' = ms_open s"
    by (rule mstf_sync_answered [OF a, of lab])
      (auto simp: sync_reply_def cstring_def CRLF_def mstf_fails_def mstf_error_def eprint_def Let_def asked_def)
qed

text \<open>
  C38. Synchronisation: the parts of a test that ask for the same point get no answer before the last of them has asked,
  and then each call returns PASS, however its answer is cut into pieces, with its connection closed. When a part asks
  for another point, it and all parts that wait get an answer with which their calls return or end with UNRESOLVED, and
  the server ends with that result.
\<close>

theorem mstf_parts_meet:
  assumes "label_ok lab" "distinct cs" "cs \<noteq> []"
  shows "(\<forall>k < length cs. \<exists>sv. serve (map (\<lambda>c. (c, req_sync lab)) (take k cs)) (serv_start (int (length cs))) = Some sv \<and> sv_replies sv = []) \<and>
    (\<exists>sv. serve (map (\<lambda>c. (c, req_sync lab)) cs) (serv_start (int (length cs))) = Some sv \<and> (\<forall>c \<in> set cs. part_passes lab (heard c sv))) \<and>
    (\<forall>lab' d n. label_ok lab' \<and> lab' \<noteq> lab \<and> d \<notin> set cs \<and> int (length cs) < n \<longrightarrow>
      (\<exists>sv. serve (map (\<lambda>c. (c, req_sync lab)) cs @ [(d, req_sync lab')]) (serv_start n) = Some sv \<and> sv_rval sv = Some STF_UNRESOLVED \<and>
        (\<forall>c \<in> set cs. part_fails lab (heard c sv)) \<and> part_fails lab' (heard d sv)))"
proof (intro conjI allI impI)
  fix k
  assume "k < length cs"
  then show "\<exists>sv. serve (map (\<lambda>c. (c, req_sync lab)) (take k cs)) (serv_start (int (length cs))) = Some sv \<and> sv_replies sv = []"
    using serve_syncs [OF assms(1), of "take k cs" "int (length cs)"] by (simp add: serv_start_def)
next
  let ?sv = "(serv_start (int (length cs)))\<lparr>sv_replies := map (\<lambda>c. (c, ''go'' @ CRLF)) cs\<rparr>"
  have "\<forall>c \<in> set cs. heard c ?sv = ''go'' @ CRLF" using heard_all [OF _ assms(2), of ?sv "''go'' @ CRLF"] by simp
  then show "\<exists>sv. serve (map (\<lambda>c. (c, req_sync lab)) cs) (serv_start (int (length cs))) = Some sv \<and> (\<forall>c \<in> set cs. part_passes lab (heard c sv))"
    using serve_meets [OF assms(1,3)] part_go by (intro exI [of _ ?sv]) metis
next
  fix lab' d n
  assume d: "label_ok lab' \<and> lab' \<noteq> lab \<and> d \<notin> set cs \<and> int (length cs) < n"
  then obtain sv where sv: "serve (map (\<lambda>c. (c, req_sync lab)) cs @ [(d, req_sync lab')]) (serv_start n) = Some sv"
      "sv_replies sv = map (\<lambda>c. (c, ''failed'' @ CRLF)) (cs @ [d])" "sv_rval sv = Some STF_UNRESOLVED"
    using serve_parted [OF assms(1) _ _ assms(3), of lab' n d] by blast
  have "distinct (cs @ [d])" using assms(2) d by simp
  then have "heard c sv = ''failed'' @ CRLF" if "c \<in> set (cs @ [d])" for c using heard_all [OF sv(2)] that by blast
  then show "\<exists>sv. serve (map (\<lambda>c. (c, req_sync lab)) cs @ [(d, req_sync lab')]) (serv_start n) = Some sv \<and> sv_rval sv = Some STF_UNRESOLVED \<and>
      (\<forall>c \<in> set cs. part_fails lab (heard c sv)) \<and> part_fails lab' (heard d sv)"
    using sv(1,3) part_failed by (intro exI [of _ sv]) auto
qed

text \<open>A network that works, and two processes on it.\<close>

definition good_net :: "string \<Rightarrow> mstf_env" where
  "good_net reply = \<lparr>me_getenv = [''MSTF_SYNC_SERV'' \<mapsto> ''host''], me_malloc = \<lambda>_. True, me_getaddrinfo = \<lambda>_ _. Inr (2, [10, 0, 0, 1]),
     me_socket = \<lambda>_. 0, me_connect = \<lambda>_ _. 0, me_fdopen = \<lambda>_. 0, me_write = \<lambda>_. 0, me_input = \<lambda>_. map (\<lambda>c. Chunk [c]) reply,
     me_bufsize = 8192, me_strerror = \<lambda>_. ''error'', me_gai_strerror = \<lambda>_. ''error''\<rparr>"

definition idle :: mstf where
  "idle = \<lparr>ms_tick = 0, ms_addr = None, ms_open = {}, ms_sent = [], ms_err = [], ms_out = []\<rparr>"

lemma sends_pieces: "sends (map (\<lambda>c. Chunk [c]) t) t"
  by (induction t) auto

lemma good_net [simp]: "net_calm (good_net t)" "sends (me_input (good_net t) c) t" "conns_ok idle"
  by (auto simp: net_calm_def net_up_def good_net_def sends_pieces conns_ok_def idle_def)

theorem mstf_parts_meet_witness:
  "\<exists>sv. serve [(1, ''sync ready''), (2, ''sync ready'')] (serv_start 2) = Some sv \<and>
     returns (mstf_sync (good_net (heard 2 sv)) ''ready'' idle) (\<lambda>r s'. r = STF_PASS)"
proof -
  have "label_ok ''ready''" by (simp add: label_ok_def word_def plain_def no_number_def Let_def is_digit_def)
  then obtain sv where sv: "serve [(1, req_sync ''ready''), (2, req_sync ''ready'')] (serv_start 2) = Some sv" "part_passes ''ready'' (heard 2 sv)"
    using mstf_parts_meet [of "''ready''" "[1, 2]"] by auto
  have "returns (mstf_sync (good_net (heard 2 sv)) ''ready'' idle) (\<lambda>r s'. r = STF_PASS)"
    using sv(2) unfolding part_passes_def by (rule_tac returns_mono [where P = "\<lambda>r s'. r = STF_PASS \<and> asked (req_sync ''ready'' @ [NL]) idle s'"]) auto
  then show ?thesis using sv(1) by (auto simp: req_sync_def)
qed

section \<open>Variables\<close>

lemma heard_answer [simp]:
  "heard c (answer [d] t sv) = heard c sv @ (if c = d then t @ CRLF else [])"
  "heard c (sv\<lparr>shared_vars := m\<rparr>) = heard c sv" "heard c (sv\<lparr>sv_waits := w\<rparr>) = heard c sv"
  by (simp_all add: heard_def answer_def)

text \<open>The value is the same whether it is set before it is asked for or after.\<close>

lemma serve_variable:
  assumes "word var" "word (var @ ''='' @ val)" "CHR ''='' \<notin> set var"
    and "sv_rval sv = None" "sv_waits sv var = None" "shared_vars sv var = None" "heard c sv = []" "c \<noteq> d"
    and "rs \<in> {[(d, req_setv var val), (c, req_getv var)], [(c, req_getv var), (d, req_setv var val)]}"
  shows "\<exists>sv'. serve rs sv = Some sv' \<and> heard c sv' = kept val @ CRLF \<and> shared_vars sv' = (shared_vars sv)(var \<mapsto> kept val) \<and>
    sv_waits sv' = sv_waits sv"
proof -
  note step = handle_setv [OF assms(2)] handle_getv [OF assms(1)] assign_parts [OF assms(3)]
  have "shared_vars (answer cs t u) = shared_vars u" "sv_waits (answer cs t u) = sv_waits u" "sv_rval (answer cs t u) = sv_rval u" for cs t u
    by (simp_all add: answer_def)
  then show ?thesis using assms(4-9)
    by (auto simp: step serv_setv_def serv_getv_def lindex_def Let_def fun_upd_idem simp del: append_Cons append_Nil)
qed

lemma format_no_directive: "CHR ''%'' \<notin> set t \<Longrightarrow> format t [] = Some t"
  using format_plain [of t "[]" "[]"] by simp

text \<open>
  C39. For a name and a value of letters, digits and the characters \<^verbatim>\<open>_-./:+@=\<close> (no blank, no percent sign, and no equals
  sign in the name), of at most 1021 characters, on a network without failures: what one part sets with \<^verbatim>\<open>mstf_setvar\<close> reaches
  another part that asks for it once with \<^verbatim>\<open>mstf_getvar\<close>, whether it is asked for before or after it is set; both commands
  return PASS and send the requests that the server was given. A value without an equals sign is printed as it is. Of a value
  with one the server keeps, and the other part prints, only what is before it.
\<close>

theorem mstf_variable_reaches:
  assumes "word var" "word (var @ ''='' @ val)" "CHR ''='' \<notin> set var" "length val \<le> 1021"
    and "sv_rval sv = None" "sv_waits sv var = None" "shared_vars sv var = None" "heard c sv = []" "c \<noteq> d"
    and "rs \<in> {[(d, req_setv var val), (c, req_getv var)], [(c, req_getv var), (d, req_setv var val)]}"
  shows "(CHR ''='' \<notin> set val \<longrightarrow> kept val = val) \<and> (\<exists>sv'. serve rs sv = Some sv' \<and> shared_vars sv' = (shared_vars sv)(var \<mapsto> kept val) \<and>
    (\<forall>env s. net_calm env \<longrightarrow> conns_ok s \<longrightarrow>
      returns (main_setvar env [prog, var, val] s) (\<lambda>r s'. r = STF_PASS \<and> asked (req_setv var val @ [NL]) s s')) \<and>
    (\<forall>env s. net_calm env \<longrightarrow> conns_ok s \<longrightarrow> sends (me_input env (next_conn s)) (heard c sv') \<longrightarrow>
      returns (main_getvar env [prog, var] s) (\<lambda>r s'. r = STF_PASS \<and> ms_out s' = ms_out s @ kept val \<and>
        ms_sent s' = ms_sent s @ [(next_conn s, req_getv var @ [NL])] \<and> ms_open s' = ms_open s)))"
proof -
  obtain sv' where sv: "serve rs sv = Some sv'" "heard c sv' = kept val @ CRLF" "shared_vars sv' = (shared_vars sv)(var \<mapsto> kept val)"
    using serve_variable [OF assms(1-3,5-10)] by blast
  have set: "returns (main_setvar env [prog, var, val] s) (\<lambda>r s'. r = STF_PASS \<and> asked (req_setv var val @ [NL]) s s')"
    if "net_calm env" "conns_ok s" for env s
    using mstf_setvar_sends [OF that, of var val] by (simp add: main_setvar_def req_setv_def)
  have chars: "NL \<notin> set (kept val)" "CHR 0x00 \<notin> set (kept val)" "CHR ''%'' \<notin> set (kept val)"
    using kept_chars [of val] word_chars [OF assms(2), of NL] word_chars [OF assms(2), of "CHR 0x00"] word_chars [OF assms(2), of "CHR ''%''"] by auto
  have len: "length (kept val) \<le> 1021" using assms(4) length_takeWhile_le [of "\<lambda>c. c \<noteq> CHR ''=''" val] by (simp add: kept_def)
  have get: "returns (main_getvar env [prog, var] s) (\<lambda>r s'. r = STF_PASS \<and> ms_out s' = ms_out s @ kept val \<and>
        ms_sent s' = ms_sent s @ [(next_conn s, req_getv var @ [NL])] \<and> ms_open s' = ms_open s)"
    if "net_calm env" "conns_ok s" "sends (me_input env (next_conn s)) (kept val @ CRLF)" for env s
  proof -
    have "returns (mstf_getvar env var None BUF_SIZE s) (\<lambda>(r, t) s'. r = STF_PASS \<and> t = Some (kept val) \<and> asked (''getv '' @ var @ [NL]) s s')"
      using mstf_getvar_value [OF that chars(1,2), of BUF_SIZE var None] len by (simp add: BUF_SIZE_def)
    then show ?thesis
      by (auto simp: main_getvar_def returns_def format_no_directive [OF chars(3)] oprint_def asked_def req_getv_def)
  qed
  show ?thesis using sv set get kept_all by auto
qed

theorem mstf_variable_reaches_witness:
  "\<exists>sv. serve [(1, ''getv port''), (2, ''setv port=8080'')] (serv_start 2) = Some sv \<and>
     returns (main_getvar (good_net (heard 1 sv)) [''mstf_getvar'', ''port''] idle) (\<lambda>r s'. r = STF_PASS \<and> ms_out s' = ''8080'')"
proof -
  have w: "word ''port''" "word (''port'' @ ''='' @ ''8080'')" "CHR ''='' \<notin> set ''port''" "length ''8080'' \<le> 1021"
    by (simp_all add: word_def plain_def Let_def is_digit_def)
  have v: "sv_rval (serv_start 2) = None" "sv_waits (serv_start 2) ''port'' = None" "shared_vars (serv_start 2) ''port'' = None"
    "heard 1 (serv_start 2) = []" "1 \<noteq> (2 :: nat)" by (simp_all add: serv_start_def heard_def)
  obtain sv where sv1: "serve [(1, req_getv ''port''), (2, req_setv ''port'' ''8080'')] (serv_start 2) = Some sv"
    and get: "\<forall>env s. net_calm env \<longrightarrow> conns_ok s \<longrightarrow> sends (me_input env (next_conn s)) (heard 1 sv) \<longrightarrow>
      returns (main_getvar env [''mstf_getvar'', ''port''] s) (\<lambda>r s'. r = STF_PASS \<and> ms_out s' = ms_out s @ kept ''8080'' \<and>
        ms_sent s' = ms_sent s @ [(next_conn s, req_getv ''port'' @ [NL])] \<and> ms_open s' = ms_open s)"
    using mstf_variable_reaches [OF w v, of "[(1, req_getv ''port''), (2, req_setv ''port'' ''8080'')]" "''mstf_getvar''"] by blast
  have "returns (main_getvar (good_net (heard 1 sv)) [''mstf_getvar'', ''port''] idle) (\<lambda>r s'. r = STF_PASS \<and> ms_out s' = ''8080'')"
    by (rule returns_mono [OF get [rule_format, OF good_net(1,3,2)]]) (simp add: idle_def kept_def)
  then show ?thesis using sv1 by (auto simp: req_getv_def req_setv_def)
qed

section \<open>Failures that are not noticed\<close>

text \<open>
  C40. A read that a signal interrupts is repeated for ever: when the first read of the answer is interrupted, the loop around
  \<^verbatim>\<open>fgets\<close> never ends, whatever the server answers afterwards, unless a read fails with another error, and so neither
  \<^verbatim>\<open>mstf_sync\<close> nor \<^verbatim>\<open>mstf_getvar\<close> returns.
\<close>

theorem mstf_interrupted_never_returns:
  assumes "net_calm env" "conns_ok s" "me_input env (next_conn s) = map Chunk ps @ Failed EINTR # evs"
    and "NL \<notin> set (concat ps)" "\<forall>e. Failed e \<in> set evs \<longrightarrow> e = EINTR"
  shows "(length (concat ps) < MSTF_BUFLEN - 1 \<longrightarrow> mstf_sync env lab s = Stuck) \<and>
    (length (concat ps) < n - 1 \<longrightarrow> read_line n 0 result (me_input env (next_conn s)) = None \<and> mstf_getvar env var result n s = Stuck)"
proof (intro conjI impI)
  assume l: "length (concat ps) < MSTF_BUFLEN - 1"
  show "mstf_sync env lab s = Stuck"
    by (rule mstf_sync_reads [OF assms(1,2), of lab]) (simp add: assms(3) read_line_interrupted [OF assms(4) l assms(5)])
next
  assume l: "length (concat ps) < n - 1"
  show "read_line n 0 result (me_input env (next_conn s)) = None" unfolding assms(3) by (rule read_line_interrupted [OF assms(4) l assms(5)])
next
  assume l: "length (concat ps) < n - 1"
  show "mstf_getvar env var result n s = Stuck"
    by (rule mstf_getvar_reads [OF assms(1,2), of var result n]) (simp add: assms(3) read_line_interrupted [OF assms(4) l assms(5)])
qed

theorem mstf_interrupted_never_returns_witness:
  "mstf_sync ((good_net [])\<lparr>me_input := \<lambda>_. [Failed EINTR, Chunk (''go'' @ CRLF)]\<rparr>) ''ready'' idle = Stuck"
  using mstf_interrupted_never_returns [of "(good_net [])\<lparr>me_input := \<lambda>_. [Failed EINTR, Chunk (''go'' @ CRLF)]\<rparr>" idle "[]" "[Chunk (''go'' @ CRLF)]" "''ready''"]
  by (simp add: net_calm_def net_up_def good_net_def MSTF_BUFLEN_def good_net(3))

text \<open>
  \<^verbatim>\<open>mstf_setvar\<close> looks for an error while its line is still in the buffer of the stream: on a connection whose writes all fail
  it returns PASS without having sent anything.
\<close>

theorem mstf_setvar_unsent:
  assumes "net_up env" "\<forall>t. me_write env t \<noteq> 0" "length (req_setv var val @ [NL]) \<le> me_bufsize env"
  shows "returns (mstf_setvar env var val s) (\<lambda>r s'. r = STF_PASS \<and> ms_sent s' = ms_sent s \<and> ms_err s' = ms_err s)"
proof -
  have f: "returns (mstf_find_server env s) (\<lambda>f s'. (\<exists>g. f = Some g) \<and> ms_sent s' = ms_sent s \<and> ms_err s' = ms_err s)"
    by (rule returns_mono [OF find_server_up [OF assms(1), of s]]) blast
  show ?thesis unfolding mstf_setvar_def returns_seq
    by (rule returns_mono [OF f]) (use assms(2,3) in \<open>auto simp: fprint_def fclose_def fflush_def deliver_def req_setv_def\<close>)
qed

theorem mstf_setvar_unsent_witness:
  "returns (mstf_setvar ((good_net [])\<lparr>me_write := \<lambda>_. 32\<rparr>) ''port'' ''8080'' idle) (\<lambda>r s'. r = STF_PASS \<and> ms_sent s' = [])"
proof -
  have "net_up ((good_net [])\<lparr>me_write := \<lambda>_. 32\<rparr>)" by (simp add: net_up_def good_net_def)
  then show ?thesis
    using mstf_setvar_unsent [of "(good_net [])\<lparr>me_write := \<lambda>_. 32\<rparr>" "''port''" "''8080''" idle]
    by (auto simp: returns_def idle_def good_net_def req_setv_def)
qed

end
