(* ===== verification/Exec_Tools.thy ===== *)
theory Exec_Tools
  imports Args
begin

text \<open>
  Programs that start a command or stay in the background: \<^verbatim>\<open>chg_usr_exec.c\<close> and \<^verbatim>\<open>mkbusy.c\<close> of the ZFS suite, and
  \<^verbatim>\<open>daemonize.c\<close> of the framework. A process ends with a status, becomes another program, or waits for a signal. What the
  system answers is an argument; an error is its number, which is above 0.
\<close>

datatype fate = Ends int | Becomes string "string list" | Waits

datatype held = Reading string | Writing string | Listing string

record proc =
  pr_gid :: int
  pr_uid :: int
  pr_fds :: "int list"
  pr_leader :: bool
  pr_held :: "held option"
  pr_out :: "string list"

definition tell :: "string \<Rightarrow> proc \<Rightarrow> proc" where
  "tell msg p = p\<lparr>pr_out := pr_out p @ [msg]\<rparr>"

text \<open>\<^verbatim>\<open>setsid\<close> and the three calls of \<^verbatim>\<open>close\<close>.\<close>

definition detach :: "proc \<Rightarrow> proc" where
  "detach p = p\<lparr>pr_leader := True, pr_fds := filter (\<lambda>d. d \<notin> {0, 1, 2}) (pr_fds p)\<rparr>"

section \<open>chg_usr_exec\<close>

definition BUFSIZ :: nat where "BUFSIZ = 1024"

text \<open>Bytes stored into an array from an index on.\<close>

definition store :: "char list \<Rightarrow> nat \<Rightarrow> char list \<Rightarrow> char list" where
  "store buf i xs = take i buf @ xs @ drop (i + length xs) buf"

definition c_string :: "char list \<Rightarrow> string" where
  "c_string buf = takeWhile (\<lambda>c. c \<noteq> CHR 0x00) buf"

text \<open>
  The loop over the words of the command. \<open>len\<close> counts the characters of the words whether they were stored or not; when
  it is beyond the array, \<^verbatim>\<open>cmds+len\<close> is undefined and the size handed to \<^verbatim>\<open>snprintf\<close> wraps around. With the size 0
  nothing is stored.
\<close>

fun cue_words :: "string list \<Rightarrow> nat \<Rightarrow> char list \<Rightarrow> char list option" where
  "cue_words [] len cmds = Some cmds"
| "cue_words (a # as) len cmds =
     (if BUFSIZ < len then None
      else case snprintf (BUFSIZ - len) ''%s%s'' [AStr a, AStr '' ''] of
             None \<Rightarrow> None
           | Some (_, t) \<Rightarrow>
               cue_words as (len + length a + length '' '') (if len = BUFSIZ then cmds else store cmds len (t @ [CHR 0x00])))"

text \<open>\<^verbatim>\<open>getpwnam\<close> finds the group and the user of a login; when there is none, it leaves \<^verbatim>\<open>errno\<close> as it was, which is 0.\<close>

record cue_env =
  cu_getpwnam :: "string \<Rightarrow> int + (int \<times> int)"
  cu_setgid :: "int \<Rightarrow> int"
  cu_setuid :: "int \<Rightarrow> int"
  cu_execl :: "string \<Rightarrow> string list \<Rightarrow> int"
  cu_strerror :: "int \<Rightarrow> string"

definition cu_perror :: "cue_env \<Rightarrow> string \<Rightarrow> int \<Rightarrow> proc \<Rightarrow> proc" where
  "cu_perror env what e = tell (what @ '': '' @ cu_strerror env e @ ''\<newline>'')"

definition cue_main :: "cue_env \<Rightarrow> string list \<Rightarrow> proc \<Rightarrow> (fate, proc) run" where
  "cue_main env argv p =
     (if length argv < 3 \<or> length (argv ! 1) = 0
      then Ret (Ends 1) (tell (CHR 0x09 # ''Usage: '' @ argv ! 0 @ '' <login> <commands> ...\<newline>'') p)
      else
        let plogin = argv ! 1 in
        case cue_words (drop 2 argv) 0 (replicate BUFSIZ (CHR 0x00)) of
          None \<Rightarrow> Stuck
        | Some cmds \<Rightarrow>
            (case cu_getpwnam env plogin of
               Inl e \<Rightarrow> Ret (Ends e) (cu_perror env ''getpwnam'' e p)
             | Inr (pw_gid, pw_uid) \<Rightarrow>
                 if cu_setgid env pw_gid \<noteq> 0
                 then Ret (Ends (cu_setgid env pw_gid)) (cu_perror env ''setgid'' (cu_setgid env pw_gid) p)
                 else let p = p\<lparr>pr_gid := pw_gid\<rparr> in
                 if cu_setuid env pw_uid \<noteq> 0
                 then Ret (Ends (cu_setuid env pw_uid)) (cu_perror env ''setuid'' (cu_setuid env pw_uid) p)
                 else let p = p\<lparr>pr_uid := pw_uid\<rparr>; path = ''/usr/xpg4/bin/sh''; args = [''sh'', ''-c'', c_string cmds] in
                 if cu_execl env path args \<noteq> 0
                 then Ret (Ends (cu_execl env path args)) (cu_perror env ''execl'' (cu_execl env path args) p)
                 else Ret (Becomes path args) p))"

section \<open>daemonize\<close>

text \<open>The answers of \<^verbatim>\<open>stat\<close> (whether the path is there), \<^verbatim>\<open>fork\<close> (an error or the child) and \<^verbatim>\<open>execv\<close>.\<close>

record dm_env =
  dm_stat :: "string \<Rightarrow> bool"
  dm_fork :: "int + int"
  dm_execv :: "string \<Rightarrow> string list \<Rightarrow> int"

definition print_usage :: "proc \<Rightarrow> proc" where
  "print_usage = tell ''\<newline>Usage: daemonize <pathname> <args>\<newline>\<newline>''"

text \<open>The processes there are in the end: the one that was started and, after \<^verbatim>\<open>fork\<close>, its child.\<close>

definition dm_main :: "dm_env \<Rightarrow> string list \<Rightarrow> proc \<Rightarrow> (fate \<times> proc) list" where
  "dm_main env argv p =
     (if length argv < 2 then [(Ends 1, print_usage p)]
      else if \<not> dm_stat env (argv ! 1) then [(Ends 1, tell (''FATAL ERROR: pathname '' @ argv ! 1 @ '' is not valid\<newline>'') p)]
      else case dm_fork env of
          Inl e \<Rightarrow> [(Ends 1, tell (''FATAL ERROR: Unable to fork process: errno = '' @ dec e @ ''\<newline>'') p)]
        | Inr pid \<Rightarrow>
            [(Ends 0, tell (''Successfully daemonized '' @ argv ! 1 @ ''\<newline>'') p),
             (if dm_execv env (argv ! 1) (tl argv) = 0 then Becomes (argv ! 1) (tl argv) else Ends 0, detach p)])"

section \<open>mkbusy\<close>

text \<open>The type of a file in \<^verbatim>\<open>st_mode\<close>, with the numbers of Solaris.\<close>

definition S_IFMT :: u32 where "S_IFMT = 0xF000"
definition S_IFCHR :: u32 where "S_IFCHR = 0x2000"
definition S_IFDIR :: u32 where "S_IFDIR = 0x4000"
definition S_IFBLK :: u32 where "S_IFBLK = 0x6000"
definition S_IFREG :: u32 where "S_IFREG = 0x8000"
definition S_IFLNK :: u32 where "S_IFLNK = 0xA000"

record mb_env =
  mb_stat :: "string \<Rightarrow> u32 option"
  mb_alloc :: "nat \<Rightarrow> bool"
  mb_open :: "string \<Rightarrow> bool \<Rightarrow> int"
  mb_opendir :: "string \<Rightarrow> int"
  mb_fork :: "int + int"
  mb_strerror :: "int \<Rightarrow> string"
  mb_nomem :: int

definition mb_usage :: "string \<Rightarrow> proc \<Rightarrow> ('r, proc) run" where
  "mb_usage progname p = Exit 1 (tell (''Usage: '' @ progname @ '' <dirname|filename>\<newline>'') p)"

definition mb_fail :: "mb_env \<Rightarrow> string \<Rightarrow> int \<Rightarrow> int \<Rightarrow> proc \<Rightarrow> ('r, proc) run" where
  "mb_fail env err e rval p = Exit rval (tell (err @ '': '' @ mb_strerror env e @ ''\<newline>'') p)"

text \<open>\<^verbatim>\<open>strrchr\<close>: what is before the last occurrence of a character and what is behind it.\<close>

definition split_last :: "char \<Rightarrow> string \<Rightarrow> (string \<times> string) option" where
  "split_last c s =
     (case dropWhile (\<lambda>x. x \<noteq> c) (rev s) of
        [] \<Rightarrow> None
      | _ # r \<Rightarrow> Some (rev r, rev (takeWhile (\<lambda>x. x \<noteq> c) (rev s))))"

text \<open>The path of a file that is not there. For an empty argument the code looks at the byte before the string.\<close>

definition mb_new_path :: "mb_env \<Rightarrow> string \<Rightarrow> string \<Rightarrow> proc \<Rightarrow> (string, proc) run" where
  "mb_new_path env prog path p =
     (if \<not> mb_alloc env 0 then mb_fail env ''strdup'' (mb_nomem env) 1 p
      else if path = [] then Stuck
      else
        let arg = (if last path = CHR ''/'' then butlast path else path);
            (dname, fname) = (case split_last (CHR ''/'') arg of None \<Rightarrow> (''.'', arg) | Some df \<Rightarrow> df)
        in if \<not> mb_alloc env 1 \<or> \<not> mb_alloc env 2 then mb_fail env ''strdup'' (mb_nomem env) 1 p
           else case mb_stat env dname of
               None \<Rightarrow> mb_usage prog p
             | Some st_mode \<Rightarrow>
                 if st_mode AND S_IFDIR = 0 then mb_usage prog p
                 else if \<not> mb_alloc env 3 then mb_fail env ''malloc'' (mb_nomem env) 1 p
                 else Ret (dname @ ''/'' @ fname) p)"

text \<open>The path to hold, and whether it is a directory.\<close>

definition mb_path :: "mb_env \<Rightarrow> string \<Rightarrow> string \<Rightarrow> proc \<Rightarrow> (string \<times> bool, proc) run" where
  "mb_path env prog path p =
     (case mb_stat env path of
        None \<Rightarrow> seq (mb_new_path env prog path p) (\<lambda>fpath p. Ret (fpath, False) p)
      | Some st_mode \<Rightarrow>
          let kind = st_mode AND S_IFMT;
              copied = (\<lambda>isdir. if mb_alloc env 0 then Ret (path, isdir) p else mb_fail env ''strdup'' (mb_nomem env) 1 p)
          in if kind = S_IFREG \<or> kind = S_IFLNK \<or> kind = S_IFCHR \<or> kind = S_IFBLK then copied False
             else if kind = S_IFDIR then copied True else mb_usage prog p)"

definition mb_hold :: "mb_env \<Rightarrow> bool \<Rightarrow> string \<Rightarrow> bool \<Rightarrow> proc \<Rightarrow> (unit, proc) run" where
  "mb_hold env rflag fpath isdir p =
     (if isdir
      then if mb_opendir env fpath \<noteq> 0 then mb_fail env ''opendir'' (mb_opendir env fpath) 1 p
           else Ret () (p\<lparr>pr_held := Some (Listing fpath)\<rparr>)
      else if mb_open env fpath rflag \<noteq> 0 then mb_fail env ''open'' (mb_open env fpath rflag) 1 p
           else Ret () (p\<lparr>pr_held := Some (if rflag then Reading fpath else Writing fpath)\<rparr>))"

text \<open>\<^verbatim>\<open>daemonize\<close>: the parent ends, the child goes on; \<^verbatim>\<open>pause\<close> waits, since no signal has a handler.\<close>

definition mb_daemonize :: "mb_env \<Rightarrow> proc \<Rightarrow> (fate \<times> proc) list" where
  "mb_daemonize env p =
     (case mb_fork env of
        Inl e \<Rightarrow> [(Ends 1, tell (''fork: '' @ mb_strerror env e @ ''\<newline>'') p)]
      | Inr pid \<Rightarrow> [(Ends 0, tell (dec pid @ ''\<newline>'') p), (Waits, detach p)])"

fun mb_options :: "string \<Rightarrow> opt list \<Rightarrow> bool \<times> bool \<Rightarrow> proc \<Rightarrow> (bool \<times> bool, proc) run" where
  "mb_options prog [] flags p = Ret flags p"
| "mb_options prog (Opt c _ # os) (fflag, rflag) p =
     mb_options prog os (fflag \<or> c = CHR ''f'', rflag \<or> c = CHR ''r'') p"
| "mb_options prog (Bad c # os) flags p = mb_usage prog p"

definition mb_main :: "mb_env \<Rightarrow> string \<Rightarrow> string list \<Rightarrow> proc \<Rightarrow> ((fate \<times> proc) list, proc) run" where
  "mb_main env prog args p =
     (case getopt ''fr'' [] args of (os, rest) \<Rightarrow>
        seq (mb_options prog os (False, False) p) (\<lambda>(fflag, rflag) p.
        if length rest \<noteq> 1 then mb_usage prog p
        else seq (mb_path env prog (rest ! 0) p) (\<lambda>(fpath, isdir) p.
        seq (mb_hold env rflag fpath isdir p) (\<lambda>_ p.
        Ret (if fflag then [(Waits, p)] else mb_daemonize env p) p))))"

end
