(* ===== verification/Exec_Spec.thy ===== *)
theory Exec_Spec
  imports Exec_Tools
begin

text \<open>What \<^verbatim>\<open>chg_usr_exec\<close> runs, and what \<^verbatim>\<open>mkbusy\<close> holds open.\<close>

section \<open>chg_usr_exec\<close>

text \<open>The words of a command, each followed by a blank, and the array that holds the beginning of a text.\<close>

definition spaced :: "string list \<Rightarrow> string" where
  "spaced ws = concat (map (\<lambda>w. w @ '' '') ws)"

definition filled :: "string \<Rightarrow> char list" where
  "filled t = take (BUFSIZ - 1) t @ replicate (BUFSIZ - length (take (BUFSIZ - 1) t)) (CHR 0x00)"

lemma spaced_simps [simp]: "spaced [] = []" "spaced (w # ws) = w @ '' '' @ spaced ws"
  by (simp_all add: spaced_def)

lemma word_text: "snprintf n ''%s%s'' [AStr a, AStr '' ''] = Some (if int (length a) + 1 > INT_MAX then -1 else int (length a) + 1, take (n - 1) (a @ '' ''))"
  by (simp add: snprintf_def fmt)

lemma store_filled:
  assumes "length t \<le> BUFSIZ"
  shows "(if length t = BUFSIZ then filled t else store (filled t) (length t) (take (BUFSIZ - length t - 1) x @ [CHR 0x00])) = filled (t @ x)"
proof (cases "length t = BUFSIZ")
  case True
  then show ?thesis by (simp add: filled_def BUFSIZ_def)
next
  case False
  with assms have l: "length t \<le> BUFSIZ - 1" by simp
  then have f: "filled t = t @ replicate (BUFSIZ - length t) (CHR 0x00)" by (simp add: filled_def)
  have g: "filled (t @ x) = t @ take (BUFSIZ - length t - 1) x @ replicate (BUFSIZ - length t - min (BUFSIZ - length t - 1) (length x)) (CHR 0x00)"
    using l by (simp add: filled_def min_def)
  have "Suc (BUFSIZ - length t - 1) = BUFSIZ - length t" using l by (simp add: BUFSIZ_def)
  then show ?thesis using False l unfolding f g
    by (auto simp: store_def min_def replicate_append_same simp flip: replicate_Suc)
qed

lemma cue_words_eq:
  "cue_words ws (length t) (filled t) =
     (if ws \<noteq> [] \<and> BUFSIZ < length (t @ spaced (butlast ws)) then None else Some (filled (t @ spaced ws)))"
proof (induction ws arbitrary: t)
  case (Cons a as)
  show ?case
  proof (cases "BUFSIZ < length t")
    case False
    then have "cue_words (a # as) (length t) (filled t) = cue_words as (length (t @ a @ '' ''))
        (if length t = BUFSIZ then filled t else store (filled t) (length t) (take (BUFSIZ - length t - 1) (a @ '' '') @ [CHR 0x00]))"
      by (simp add: word_text)
    also have "\<dots> = cue_words as (length (t @ a @ '' '')) (filled (t @ a @ '' ''))"
      using False by (subst store_filled) simp_all
    also have "\<dots> = (if as \<noteq> [] \<and> BUFSIZ < length ((t @ a @ '' '') @ spaced (butlast as)) then None else Some (filled ((t @ a @ '' '') @ spaced as)))"
      by (rule Cons.IH)
    finally show ?thesis using False by (cases "as = []") simp_all
  qed simp
qed simp

lemma c_string_filled: "CHR 0x00 \<notin> set t \<Longrightarrow> c_string (filled t) = take (BUFSIZ - 1) t"
proof -
  assume "CHR 0x00 \<notin> set t"
  then have "\<forall>c \<in> set (take (BUFSIZ - 1) t). c \<noteq> CHR 0x00" by (metis in_set_takeD)
  then show ?thesis by (simp add: c_string_def filled_def takeWhile_append2 BUFSIZ_def)
qed

text \<open>
  C37. \<^verbatim>\<open>chg_usr_exec\<close> with a login that exists and may be taken on runs the words given, each followed by a blank, in a
  shell of that group and user, as long as they fit into the array. The last word may be cut off, and the command is run
  without its end. When the words before the last are longer than the array the program is undefined. A login that does
  not exist ends it with the status 0, as if the command had succeeded.
\<close>

theorem chg_usr_exec_command:
  assumes "login \<noteq> []" "words \<noteq> []" "CHR 0x00 \<notin> set (spaced words)"
  shows "(\<forall>gid uid. cu_getpwnam env login = Inr (gid, uid) \<and> cu_setgid env gid = 0 \<and> cu_setuid env uid = 0 \<and>
      (\<forall>path args. cu_execl env path args = 0) \<longrightarrow>
      cue_main env (prog # login # words) p =
        (if length (spaced (butlast words)) > BUFSIZ then Stuck
         else Ret (Becomes ''/usr/xpg4/bin/sh'' [''sh'', ''-c'', take (BUFSIZ - 1) (spaced words)]) (p\<lparr>pr_gid := gid, pr_uid := uid\<rparr>))) \<and>
    (cu_getpwnam env login = Inl 0 \<and> length (spaced (butlast words)) \<le> BUFSIZ \<longrightarrow>
      (\<exists>p'. cue_main env (prog # login # words) p = Ret (Ends 0) p'))"
proof -
  have "filled [] = replicate BUFSIZ (CHR 0x00)" by (simp add: filled_def)
  then have w: "cue_words words 0 (replicate BUFSIZ (CHR 0x00)) =
      (if BUFSIZ < length (spaced (butlast words)) then None else Some (filled (spaced words)))"
    using cue_words_eq [of words "[]"] assms(2) by simp
  have "length words \<noteq> 0" using assms(2) by simp
  then show ?thesis using assms(1,3) by (simp add: cue_main_def w c_string_filled Let_def not_less)
qed

definition cue_calm :: cue_env where
  "cue_calm = \<lparr>cu_getpwnam = (\<lambda>l. if l = ''zfs'' then Inr (14, 501) else Inl 0), cu_setgid = (\<lambda>_. 0), cu_setuid = (\<lambda>_. 0),
     cu_execl = (\<lambda>_ _. 0), cu_strerror = (\<lambda>_. ''Error'')\<rparr>"

definition first_proc :: proc where
  "first_proc = \<lparr>pr_gid = 0, pr_uid = 0, pr_fds = [0, 1, 2], pr_leader = False, pr_held = None, pr_out = []\<rparr>"

theorem chg_usr_exec_command_witness:
  "cue_main cue_calm [''chg'', ''zfs'', ''ls'', ''-l''] first_proc =
     Ret (Becomes ''/usr/xpg4/bin/sh'' [''sh'', ''-c'', ''ls -l '']) (first_proc\<lparr>pr_gid := 14, pr_uid := 501\<rparr>) \<and>
   (\<exists>p'. cue_main cue_calm [''chg'', ''nobody'', ''ls''] first_proc = Ret (Ends 0) p')"
proof
  show "cue_main cue_calm [''chg'', ''zfs'', ''ls'', ''-l''] first_proc =
     Ret (Becomes ''/usr/xpg4/bin/sh'' [''sh'', ''-c'', ''ls -l '']) (first_proc\<lparr>pr_gid := 14, pr_uid := 501\<rparr>)"
    using chg_usr_exec_command [of "''zfs''" "[''ls'', ''-l'']" cue_calm "''chg''" first_proc] by (simp add: cue_calm_def BUFSIZ_def)
  show "\<exists>p'. cue_main cue_calm [''chg'', ''nobody'', ''ls''] first_proc = Ret (Ends 0) p'"
    using chg_usr_exec_command [of "''nobody''" "[''ls'']" cue_calm "''chg''" first_proc] by (simp add: cue_calm_def)
qed

section \<open>mkbusy\<close>

lemma split_last_None: "c \<notin> set s \<Longrightarrow> split_last c s = None"
proof -
  assume "c \<notin> set s"
  then have "dropWhile (\<lambda>x. x \<noteq> c) (rev s) = []" by (auto simp: dropWhile_eq_Nil_conv)
  then show ?thesis by (simp only: split_last_def list.case)
qed

lemma split_last_Some: "c \<notin> set f \<Longrightarrow> split_last c (d @ c # f) = Some (d, f)"
proof -
  assume c: "c \<notin> set f"
  then have "\<forall>x \<in> set (rev f). x \<noteq> c" by auto
  then have "dropWhile (\<lambda>x. x \<noteq> c) (rev f @ c # rev d) = c # rev d" "takeWhile (\<lambda>x. x \<noteq> c) (rev f @ c # rev d) = rev f"
    by (subst dropWhile_append2 takeWhile_append2; simp)+
  then show ?thesis by (simp add: split_last_def)
qed

definition mb_calm :: "mb_env \<Rightarrow> bool" where
  "mb_calm env \<longleftrightarrow> (\<forall>i. mb_alloc env i) \<and> (\<forall>path r. mb_open env path r = 0) \<and> (\<forall>path. mb_opendir env path = 0)"

definition is_dir :: "mb_env \<Rightarrow> string \<Rightarrow> bool" where
  "is_dir env d \<longleftrightarrow> (case mb_stat env d of None \<Rightarrow> False | Some st_mode \<Rightarrow> st_mode AND S_IFDIR \<noteq> 0)"

text \<open>A parent that has ended and a child in the background that holds a file.\<close>

definition busy :: "int \<Rightarrow> held \<Rightarrow> proc \<Rightarrow> ((fate \<times> proc) list, proc) run" where
  "busy pid h p = (let q = p\<lparr>pr_held := Some h\<rparr> in Ret [(Ends 0, tell (dec pid @ ''\<newline>'') q), (Waits, detach q)] q)"

lemma mb_main_path:
  assumes "hd path \<noteq> CHR ''-''" "path \<noteq> []" "mb_stat env path = None"
  shows "mb_main env prog [path] p = seq (mb_new_path env prog path p) (\<lambda>fpath p. seq (mb_hold env False fpath False p) (\<lambda>_ p. Ret (mb_daemonize env p) p))"
proof -
  have "path \<noteq> ''-''" "path \<noteq> ''--''" using assms(1) by auto
  then show ?thesis using assms by (simp add: mb_main_def mb_path_def seq_assoc)
qed

lemma mb_new_path_cut:
  assumes "mb_calm env" "path \<noteq> []" "(if last path = CHR ''/'' then butlast path else path) = arg"
    and "(case split_last (CHR ''/'') arg of None \<Rightarrow> (''.'', arg) | Some df \<Rightarrow> df) = (dname, fname)"
  shows "mb_new_path env prog path p = (if is_dir env dname then Ret (dname @ ''/'' @ fname) p else mb_usage prog p)"
  using assms(1,2) unfolding mb_new_path_def assms(3) Let_def assms(4)
  by (simp add: mb_calm_def is_dir_def split: option.split)

lemma mb_new_path_eq:
  assumes "mb_calm env" "CHR ''/'' \<notin> set f" "f \<noteq> []" "slash \<in> {[], ''/''}"
  shows "mb_new_path env prog (d @ ''/'' @ f @ slash) p = (if is_dir env d then Ret (d @ ''/'' @ f) p else mb_usage prog p)"
    "mb_new_path env prog (f @ slash) p = (if is_dir env ''.'' then Ret (''./'' @ f) p else mb_usage prog p)"
proof -
  have cut: "(if last (x @ f @ slash) = CHR ''/'' then butlast (x @ f @ slash) else x @ f @ slash) = x @ f" for x
  proof (cases "slash = []")
    case True
    have "last f \<noteq> CHR ''/''" using assms(2,3) last_in_set by metis
    then show ?thesis using True assms(3) by simp
  qed (use assms(4) in \<open>simp add: butlast_append\<close>)
  have s: "split_last (CHR ''/'') ((d @ ''/'') @ f) = Some (d, f)" "split_last (CHR ''/'') f = None"
    using assms(2) split_last_Some split_last_None by simp_all
  show "mb_new_path env prog (d @ ''/'' @ f @ slash) p = (if is_dir env d then Ret (d @ ''/'' @ f) p else mb_usage prog p)"
    using mb_new_path_cut [OF assms(1) _ cut [of "d @ ''/''"]] s(1) by simp
  show "mb_new_path env prog (f @ slash) p = (if is_dir env ''.'' then Ret (''./'' @ f) p else mb_usage prog p)"
    using mb_new_path_cut [OF assms(1) _ cut [of "[]"]] s(2) assms(3) by simp
qed

text \<open>
  Given the path of a file that is not there, with or without a slash at its end, \<^verbatim>\<open>mkbusy\<close> leaves a process in the
  background that holds this file open for writing and prints its number, if the directory of the file is there; the
  current directory is taken for a name without a slash. But for a file directly under the root the name of the directory comes out
  empty, and the program ends with its usage message; with an empty argument it is undefined.
\<close>

theorem mkbusy_new_file:
  assumes "mb_calm env" "mb_fork env = Inr pid" "mb_stat env [] = None"
    and "f \<noteq> []" "CHR ''/'' \<notin> set f" "hd f \<noteq> CHR ''-''" "slash \<in> {[], ''/''}"
  shows "(mb_stat env (f @ slash) = None \<and> is_dir env ''.'' \<longrightarrow> mb_main env prog [f @ slash] p = busy pid (Writing (''./'' @ f)) p) \<and>
    (\<forall>d. d \<noteq> [] \<and> hd d \<noteq> CHR ''-'' \<and> mb_stat env (d @ ''/'' @ f @ slash) = None \<and> is_dir env d \<longrightarrow>
       mb_main env prog [d @ ''/'' @ f @ slash] p = busy pid (Writing (d @ ''/'' @ f)) p) \<and>
    (mb_stat env (''/'' @ f @ slash) = None \<longrightarrow> mb_main env prog [''/'' @ f @ slash] p = mb_usage prog p) \<and>
    mb_main env prog [[]] p = Stuck"
proof (intro conjI impI allI)
  note E = mb_new_path_eq [OF assms(1,5,4,7)]
  assume a: "mb_stat env (f @ slash) = None \<and> is_dir env ''.''"
  have "mb_main env prog [f @ slash] p = seq (mb_new_path env prog (f @ slash) p) (\<lambda>fpath p. seq (mb_hold env False fpath False p) (\<lambda>_ p. Ret (mb_daemonize env p) p))"
    using a assms(4,6) by (intro mb_main_path) (simp_all add: hd_append)
  then show "mb_main env prog [f @ slash] p = busy pid (Writing (''./'' @ f)) p"
    using a assms(1,2) by (simp add: E mb_hold_def mb_calm_def mb_daemonize_def busy_def Let_def)
next
  note E = mb_new_path_eq [OF assms(1,5,4,7)]
  fix d
  assume a: "d \<noteq> [] \<and> hd d \<noteq> CHR ''-'' \<and> mb_stat env (d @ ''/'' @ f @ slash) = None \<and> is_dir env d"
  then show "mb_main env prog [d @ ''/'' @ f @ slash] p = busy pid (Writing (d @ ''/'' @ f)) p"
    using assms(1,2) by (subst mb_main_path) (simp_all add: E(1) [simplified] mb_hold_def mb_calm_def mb_daemonize_def busy_def Let_def hd_append)
next
  assume "mb_stat env (''/'' @ f @ slash) = None"
  then show "mb_main env prog [''/'' @ f @ slash] p = mb_usage prog p"
    using mb_new_path_eq(1) [OF assms(1,5,4,7), of prog "[]" p] assms(3)
    by (subst mb_main_path) (simp_all add: is_dir_def mb_usage_def)
next
  show "mb_main env prog [[]] p = Stuck" using assms(1,3) by (simp add: mb_main_def mb_path_def mb_new_path_def mb_calm_def)
qed

definition one_dir :: mb_env where
  "one_dir = \<lparr>mb_stat = (\<lambda>path. if path \<in> {''.'', ''/tank''} then Some 0x41ED else None), mb_alloc = (\<lambda>_. True), mb_open = (\<lambda>_ _. 0),
     mb_opendir = (\<lambda>_. 0), mb_fork = Inr 4711, mb_strerror = (\<lambda>_. ''Error''), mb_nomem = 12\<rparr>"

theorem mkbusy_new_file_witness:
  "mb_main one_dir ''mkbusy'' [''/tank/x/''] first_proc = busy 4711 (Writing ''/tank/x'') first_proc \<and>
   mb_main one_dir ''mkbusy'' [''x/''] first_proc = busy 4711 (Writing ''./x'') first_proc \<and>
   mb_main one_dir ''mkbusy'' [''/x/''] first_proc = mb_usage ''mkbusy'' first_proc"
proof -
  have d: "is_dir one_dir ''.''" "is_dir one_dir ''/tank''" by (simp_all add: is_dir_def one_dir_def S_IFDIR_def)
  have c: "mb_calm one_dir" "mb_fork one_dir = Inr 4711" "mb_stat one_dir [] = None" by (simp_all add: mb_calm_def one_dir_def)
  have n: "mb_stat one_dir ''x/'' = None" "mb_stat one_dir ''/x/'' = None" "mb_stat one_dir ''/tank/x/'' = None"
    by (simp_all add: one_dir_def)
  note H = mkbusy_new_file [OF c, of "''x''" "''/''" "''mkbusy''" first_proc, simplified]
  show ?thesis using H d n by (auto dest: spec [of _ "''/tank''"])
qed

end
