(* ===== verification/Probe_Tools.thy ===== *)
theory Probe_Tools
  imports Files
begin

text \<open>
  Programs of the ZFS suite that try one feature of a file system: \<^verbatim>\<open>randfree_file.c\<close>, \<^verbatim>\<open>readmmap.c\<close>, \<^verbatim>\<open>largest_file.c\<close>
  and \<^verbatim>\<open>devname2devid.c\<close>.
\<close>

abbreviation (input) EFAULT :: int where "EFAULT \<equiv> 14"
abbreviation (input) EFBIG :: int where "EFBIG \<equiv> 27"

definition fs_perror :: "('x fs_env_scheme) \<Rightarrow> string \<Rightarrow> int \<Rightarrow> fsys \<Rightarrow> fsys" where
  "fs_perror env what e = say (what @ '': '' @ fe_strerror env e @ ''\<newline>'')"

section \<open>randfree_file\<close>

text \<open>The bytes that \<^verbatim>\<open>malloc\<close> hands out, and what \<^verbatim>\<open>fcntl\<close> with \<^verbatim>\<open>F_FREESP\<close> makes of a file: an error or its new bytes.\<close>

record rf_env = fs_env +
  rf_garbage :: "nat \<Rightarrow> byte"
  rf_freesp :: "byte list \<Rightarrow> int \<Rightarrow> int \<Rightarrow> int + byte list"

text \<open>The variables the options set; \<open>None\<close> is one that has no value yet.\<close>

record rf_opts =
  rf_filesize :: "u64 option"
  rf_start_off :: "int option"
  rf_off_len :: "int option"

definition rf_usage :: "string \<Rightarrow> fsys \<Rightarrow> ('r, fsys) run" where
  "rf_usage progname fs = Exit 1 (say (''usage: '' @ progname @ '' [-l filesize] [-s start-offset][-n section-len] filename\<newline>'') fs)"

fun rf_options :: "string \<Rightarrow> opt list \<Rightarrow> rf_opts \<Rightarrow> fsys \<Rightarrow> (rf_opts, fsys) run" where
  "rf_options prog [] op fs = Ret op fs"
| "rf_options prog (Opt ch (Some optarg) # os) op fs =
     (case atoll optarg of
        None \<Rightarrow> Stuck
      | Some n \<Rightarrow>
          rf_options prog os
            (if ch = CHR ''l'' then op\<lparr>rf_filesize := Some (word_of_int n)\<rparr>
             else if ch = CHR ''s'' then op\<lparr>rf_start_off := Some n\<rparr>
             else op\<lparr>rf_off_len := Some n\<rparr>) fs)"
| "rf_options prog (Opt ch None # os) op fs = rf_usage prog fs"
| "rf_options prog (Bad ch # os) op fs = rf_usage prog fs"

text \<open>
  \<^verbatim>\<open>write\<close> from the buffer, which is null when there was no memory. The result is compared with a \<^verbatim>\<open>size_t\<close>: as an unsigned
  number, -1 is not less than any size. After a short write \<^verbatim>\<open>errno\<close> is what it was before, 0.
\<close>

definition rf_write :: "rf_env \<Rightarrow> bool \<Rightarrow> u64 \<Rightarrow> fd \<Rightarrow> fsys \<Rightarrow> int \<times> fd \<times> fsys" where
  "rf_write env null filesize d fs =
     (if null \<and> filesize \<noteq> 0 then (- EFAULT, d, ftick fs)
      else sys_write (fs_env.truncate env) d (map (rf_garbage env) [0..<unat filesize]) fs)"

definition rf_main :: "rf_env \<Rightarrow> string \<Rightarrow> string list \<Rightarrow> fsys \<Rightarrow> (int, fsys) run" where
  "rf_main env prog args fs =
     (case getopt ''l:s:n:'' [] args of (os, rest) \<Rightarrow>
        seq (rf_options prog os \<lparr>rf_filesize = None, rf_start_off = None, rf_off_len = None\<rparr> fs) (\<lambda>op fs.
        if length rest \<noteq> 1 then rf_usage prog fs
        else case rf_filesize op of
            None \<Rightarrow> Stuck
          | Some filesize \<Rightarrow>
              let null = (\<not> fe_alloc env (fs_tick fs)) in
              (case sys_open (fs_env.truncate env) (rest ! 0) True True False (ftick fs) of
                 (Inl e, fs) \<Rightarrow> Ret 1 (fs_perror env ''open'' e fs)
               | (Inr d, fs) \<Rightarrow>
                   let (n, d, fs) = rf_write env null filesize d fs in
                   if (word_of_int (if n < 0 then -1 else n) :: u64) < filesize then Ret 1 (fs_perror env ''write'' 0 fs)
                   else case (rf_start_off op, rf_off_len op) of
                       (Some start, Some len) \<Rightarrow>
                         (case rf_freesp env (contents d fs) start len of
                            Inl e \<Rightarrow> Ret 1 (fs_perror env ''fcntl'' e fs)
                          | Inr b \<Rightarrow> Ret 0 (fs\<lparr>fs_files := (fs_files fs)(fd_name d \<mapsto> b)\<rparr>))
                     | _ \<Rightarrow> Stuck)))"

section \<open>readmmap\<close>

text \<open>
  The answers of \<^verbatim>\<open>remove\<close>, \<^verbatim>\<open>mmap\<close>, \<^verbatim>\<open>msync\<close> and \<^verbatim>\<open>munmap\<close>, 0 or an error. What \<^verbatim>\<open>msync\<close> makes of the file, given its
  bytes and those of the mapping, is what the program tries.
\<close>

record mm_env = fs_env +
  mm_remove :: int
  mm_map :: int
  mm_sync :: int
  mm_unmap :: int
  mm_flush :: "byte list \<Rightarrow> byte list \<Rightarrow> byte list"

definition mm_size :: nat where "mm_size = 4395"

text \<open>From the mapping on: a random byte is set to 1, written back and read again.\<close>

definition mm_check :: "mm_env \<Rightarrow> fd \<Rightarrow> fsys \<Rightarrow> (int, fsys) run" where
  "mm_check env d fs =
     (if mm_map env \<noteq> 0 then Ret 1 (fs_perror env ''mmap'' (mm_map env) fs)
      else
        let idx = fe_random env (fs_tick fs) mod mm_size;
            mapped = (contents d fs)[idx := 1]
        in if mm_sync env \<noteq> 0 then Ret 1 (fs_perror env ''msync'' (mm_sync env) fs)
           else let fs = (ftick fs)\<lparr>fs_files := (fs_files fs)(fd_name d \<mapsto> mm_flush env (contents d fs) mapped)\<rparr> in
           if mm_unmap env \<noteq> 0 then Ret 1 (fs_perror env ''munmap'' (mm_unmap env) fs)
           else case sys_read (fs_env.truncate env) (d\<lparr>fd_pos := 0\<rparr>) mm_size fs of
               (Inl e, _, fs) \<Rightarrow> Ret 1 (say (''short read: '' @ dec (-1) @ '' != '' @ dec (int mm_size) @ ''d\<newline>'') fs)
             | (Inr buf, _, fs) \<Rightarrow>
                 if length buf \<noteq> mm_size
                 then Ret 1 (say (''short read: '' @ dec (int (length buf)) @ '' != '' @ dec (int mm_size) @ ''d\<newline>'') fs)
                 else if buf ! idx \<noteq> 1
                 then Ret 1 (say (''bad data from read!  got buf['' @ dec (int idx) @ ''d]='' @ dec (sint (buf ! idx)) @ '', expected 1\<newline>'') fs)
                 else Ret 0 (say (''good data from read: buf['' @ dec (int idx) @ ''d]=1\<newline>'') fs))"

definition mm_main :: "mm_env \<Rightarrow> string list \<Rightarrow> fsys \<Rightarrow> (int, fsys) run" where
  "mm_main env argv fs =
     (if length argv < 2 then Exit 1 (say (''usage: '' @ argv ! 0 @ '' <file name>\<newline>'') fs)
      else if \<not> fe_alloc env (fs_tick fs) then Exit 1 (fs_perror env ''calloc'' ENOMEM (ftick fs))
      else
        let filename = argv ! 1;
            fs = (ftick fs)\<lparr>fs_files := (if mm_remove env = 0 then (fs_files fs)(filename := None) else fs_files fs)\<rparr>
        in case sys_open (fs_env.truncate env) filename True True False fs of
             (Inl e, fs) \<Rightarrow> Ret 1 (fs_perror env ''open to create'' e fs)
           | (Inr d, fs) \<Rightarrow>
               let (n, d, fs) = sys_write (fs_env.truncate env) d (replicate mm_size 0) fs in
               if n \<noteq> int mm_size
               then Ret 1 (say (''short write: '' @ dec (if n < 0 then -1 else n) @ '' != '' @ dec (int mm_size) @ ''d\<newline>'') fs)
               else mm_check env d fs)"

section \<open>largest_file\<close>

definition MAXOFFSET_T :: int where "MAXOFFSET_T = 2 ^ 63 - 1"

text \<open>
  The answers of \<^verbatim>\<open>open\<close> and \<^verbatim>\<open>llseek\<close> to an offset (0 or an error), of \<^verbatim>\<open>write\<close> of one byte at an offset (the number of bytes,
  or the negative of an error), and whether that write sends the signal \<^verbatim>\<open>SIGXFSZ\<close>.
\<close>

record lf_env =
  lf_dup :: bool
  lf_open :: int
  lf_seek :: "int \<Rightarrow> int"
  lf_write :: "int \<Rightarrow> int"
  lf_sigxfsz :: "int \<Rightarrow> bool"
  lf_strerror :: "int \<Rightarrow> string"

text \<open>The name of the file, whether it is there, its size and the position in it.\<close>

record lf =
  lf_there :: bool
  lf_size :: int
  lf_pos :: int
  lf_out :: "string list"

definition lf_say :: "string \<Rightarrow> lf \<Rightarrow> lf" where
  "lf_say msg s = s\<lparr>lf_out := lf_out s @ [msg]\<rparr>"

definition lf_perror :: "lf_env \<Rightarrow> string \<Rightarrow> int \<Rightarrow> lf \<Rightarrow> lf" where
  "lf_perror env what e = lf_say (what @ '': '' @ lf_strerror env e @ ''\<newline>'')"

definition sigxfsz :: "lf \<Rightarrow> lf" where
  "sigxfsz = lf_say ''\<newline>largest_file: sigxfsz() caught SIGXFSZ\<newline>''"

definition lf_put :: "lf_env \<Rightarrow> lf \<Rightarrow> int \<times> lf" where
  "lf_put env s =
     (let s' = (if lf_sigxfsz env (lf_pos s) then sigxfsz s else s);
          r = lf_write env (lf_pos s)
      in if r \<le> 0 then (r, s') else (r, s'\<lparr>lf_pos := lf_pos s + r, lf_size := max (lf_size s) (lf_pos s + r)\<rparr>))"

text \<open>The function up to the label \<^verbatim>\<open>out\<close>: the value of \<^verbatim>\<open>err\<close>.\<close>

definition lf_try :: "lf_env \<Rightarrow> lf \<Rightarrow> int \<times> lf" where
  "lf_try env s =
     (let e = (if lf_dup env then lf_open env else EFAULT); offset = MAXOFFSET_T - 1 in
      if e \<noteq> 0 then (e, lf_perror env ''Failed to create testfile'' e s)
      else let s = s\<lparr>lf_there := True, lf_size := (if lf_there s then lf_size s else 0), lf_pos := 0\<rparr> in
      if lf_seek env offset \<noteq> 0 then (lf_seek env offset, lf_perror env ''Failed to seek to end of testfile'' (lf_seek env offset) s)
      else case lf_put env (s\<lparr>lf_pos := offset\<rparr>) of (write_ret, s) \<Rightarrow>
        if write_ret < 0 then (- write_ret, lf_perror env ''Failed to write to end of file'' (- write_ret) s)
        else if lf_seek env (lf_pos s) \<noteq> 0
        then (lf_seek env (lf_pos s), lf_perror env ''Failed to seek to end of file'' (lf_seek env (lf_pos s)) s)
        else case lf_put env s of (write_ret, s) \<Rightarrow>
          if write_ret < 0
          then if - write_ret = EFBIG then (0, lf_say ''write errno=EFBIG: success\<newline>'' s)
               else (- write_ret, lf_perror env ''Did not receive EFBIG'' (- write_ret) s)
          else (1, lf_say ''write completed successfully, test failed\<newline>'' s))"

definition lf_usage :: "string \<Rightarrow> lf \<Rightarrow> int \<times> lf" where
  "lf_usage name s = (1, lf_say (name @ '' <testfile>\<newline>'') s)"

definition lf_main :: "lf_env \<Rightarrow> string list \<Rightarrow> lf \<Rightarrow> int \<times> lf" where
  "lf_main env argv s =
     (if length argv \<noteq> 2 then lf_usage (argv ! 0) s
      else case lf_try env s of (err, s) \<Rightarrow> (err, if lf_dup env then s\<lparr>lf_there := False\<rparr> else s))"

section \<open>devname2devid\<close>

text \<open>The calls of the device library \<^verbatim>\<open>libdevid\<close>: an error or what they find.\<close>

record dv_env =
  dv_open :: "string \<Rightarrow> int"
  dv_get :: "string \<Rightarrow> int + string"
  dv_get_minor_name :: "string \<Rightarrow> int + string"
  dv_str_encode :: "string \<Rightarrow> string \<Rightarrow> int + string"
  dv_strerror :: "int \<Rightarrow> string"

text \<open>The status and what is printed, as compiled without \<^verbatim>\<open>DEBUG\<close>.\<close>

definition dv_main :: "dv_env \<Rightarrow> string list \<Rightarrow> int \<times> string" where
  "dv_main env argv =
     (let failed = (\<lambda>what e. (1, what @ '': '' @ dv_strerror env e @ ''\<newline>'')); device = argv ! 1 in
      if length argv = 1 then (1, argv ! 0 @ '' <devicepath> [search path]\<newline>'')
      else if dv_open env device \<noteq> 0 then failed device (dv_open env device)
      else case dv_get env device of
          Inl e \<Rightarrow> failed ''devid_get'' e
        | Inr devid \<Rightarrow>
            (case dv_get_minor_name env device of
               Inl e \<Rightarrow> failed ''devid_get_minor_name'' e
             | Inr minor_name \<Rightarrow>
                 (case dv_str_encode env devid minor_name of
                    Inl e \<Rightarrow> failed ''devid_str_encode'' e
                  | Inr devidstr \<Rightarrow> (0, ''devid '' @ devidstr @ ''\<newline>''))))"

end
