(* ===== verification/Probe_Spec.thy ===== *)
theory Probe_Spec
  imports Probe_Tools
begin

text \<open>What the programs of \<open>Probe_Tools\<close> report of a file system.\<close>

section \<open>randfree_file\<close>

definition rf_args :: "nat \<Rightarrow> int \<Rightarrow> int \<Rightarrow> string \<Rightarrow> string list" where
  "rf_args filesize start len name = [''-l'', dec (int filesize), ''-s'', dec start, ''-n'', dec len, name]"

lemma rf_args_options:
  assumes "name \<noteq> []" "hd name \<noteq> CHR ''-''"
  shows "getopt ''l:s:n:'' [] (rf_args filesize start len name) =
    ([Opt (CHR ''l'') (Some (dec (int filesize))), Opt (CHR ''s'') (Some (dec start)), Opt (CHR ''n'') (Some (dec len))], [name])"
  using assms by (auto simp: rf_args_def)

text \<open>The bytes that reach the file when \<^verbatim>\<open>write\<close> answers \<open>r\<close>.\<close>

definition rf_written :: "rf_env \<Rightarrow> nat \<Rightarrow> int \<Rightarrow> byte list" where
  "rf_written env filesize r = take (nat r) (map (rf_garbage env) [0..<filesize])"

lemma open_truncated:
  "fe_open env (fs_tick fs) = 0 \<Longrightarrow>
   sys_open env name True True app fs = (Inr \<lparr>fd_name = name, fd_pos = 0, fd_append = app\<rparr>, (ftick fs)\<lparr>fs_files := (fs_files fs)(name \<mapsto> [])\<rparr>)"
  by (simp add: sys_open_def Let_def split: option.split)

lemma lay_first: "lay [] 0 xs = xs"
  by (simp add: lay_def)

lemma size_compare:
  assumes "int n \<le> LLONG_MAX" "int m \<le> LLONG_MAX"
  shows "(word_of_nat n :: u64) < word_of_nat m \<longleftrightarrow> n < m" "unat (word_of_nat m :: u64) = m"
proof -
  have u: "unat (word_of_nat i :: u64) = i" if "int i \<le> LLONG_MAX" for i
    using that by (simp add: unsigned_of_nat take_bit_nat_eq_self LLONG_MAX_def)
  show "(word_of_nat n :: u64) < word_of_nat m \<longleftrightarrow> n < m" using u assms by (simp add: word_less_nat_alt)
  show "unat (word_of_nat m :: u64) = m" using u assms by simp
qed

lemma rf_write_new:
  assumes "fe_write env (fs_tick fs) filesize = r" "fs_files fs name = Some []" "int filesize \<le> LLONG_MAX"
  shows "\<exists>d'. rf_write env False (word_of_nat filesize) \<lparr>fd_name = name, fd_pos = 0, fd_append = False\<rparr> fs =
    (if r < 0 then r else int (length (rf_written env filesize r)), d', (ftick fs)\<lparr>fs_files := (fs_files fs)(name \<mapsto> rf_written env filesize r)\<rparr>) \<and>
    fd_name d' = name"
proof -
  have n: "unat (word_of_nat filesize :: u64) = filesize" using size_compare(2) assms(3) by blast
  have "(fs_files fs)(name \<mapsto> []) = fs_files fs" using assms(2) by (simp add: fun_upd_idem)
  then show ?thesis using assms(1,2)
    by (simp add: rf_write_def sys_write_def contents_def n lay_first rf_written_def fs_env.truncate_def Let_def)
qed

text \<open>
  \<^verbatim>\<open>randfree_file\<close> writes a file of the given size and then frees the section: its status is 0 exactly if that succeeds,
  and the file is what \<^verbatim>\<open>F_FREESP\<close> makes of the bytes written. A write that is cut short ends it with status 1. But a write that
  fails altogether goes unnoticed: its result -1 is compared as an unsigned number, the section of an empty file is freed,
  and the status may be 0.
\<close>

theorem randfree_file_status:
  assumes "\<forall>t. fe_open env t = 0 \<and> fe_alloc env t \<and> fe_write env t filesize = r" "int filesize \<le> LLONG_MAX"
    and "- LLONG_MAX - 1 \<le> start" "start \<le> LLONG_MAX" "- LLONG_MAX - 1 \<le> len" "len \<le> LLONG_MAX" "name \<noteq> []" "hd name \<noteq> CHR ''-''"
  shows "\<exists>fs'. rf_main env prog (rf_args filesize start len name) fs =
      Ret (if 0 \<le> r \<and> r < int filesize \<or> isl (rf_freesp env (rf_written env filesize r) start len) then 1 else 0) fs' \<and>
    fs_files fs' = (fs_files fs)(name \<mapsto>
      (if 0 \<le> r \<and> r < int filesize then rf_written env filesize r
       else case rf_freesp env (rf_written env filesize r) start len of Inl _ \<Rightarrow> rf_written env filesize r | Inr b \<Rightarrow> b))"
proof -
  let ?w = "rf_written env filesize r" and ?fs = "(ftick (ftick fs))\<lparr>fs_files := (fs_files fs)(name \<mapsto> [])\<rparr>"
  let ?n = "if r < 0 then r else int (length ?w)"
  obtain d' where w: "rf_write env False (word_of_nat filesize) \<lparr>fd_name = name, fd_pos = 0, fd_append = False\<rparr> ?fs =
      (?n, d', (ftick ?fs)\<lparr>fs_files := (fs_files fs)(name \<mapsto> ?w)\<rparr>)" "fd_name d' = name"
    using rf_write_new [of env ?fs filesize r name] assms(1,2) by auto
  have o: "sys_open (fs_env.truncate env) name True True False (ftick fs) = (Inr \<lparr>fd_name = name, fd_pos = 0, fd_append = False\<rparr>, ?fs)"
    using assms(1) by (subst open_truncated) (simp_all add: fs_env.truncate_def)
  have len: "length ?w \<le> filesize" by (simp add: rf_written_def)
  have "(word_of_int (if ?n < 0 then -1 else ?n) :: u64) < word_of_nat filesize \<longleftrightarrow> 0 \<le> r \<and> r < int filesize"
  proof (cases "r < 0")
    case True
    then show ?thesis by (simp add: not_less)
  next
    case False
    then show ?thesis using size_compare(1) [of "length ?w" filesize] len assms(2) by (auto simp: rf_written_def)
  qed
  then show ?thesis using assms w o
    by (auto simp: rf_main_def rf_args_options fs_perror_def say_def contents_def Let_def split: sum.split)
qed

definition rf_system :: "int \<Rightarrow> rf_env" where
  "rf_system r = \<lparr>fe_open = \<lambda>_. 0, fe_write = \<lambda>_ _. r, fe_read = \<lambda>_ n. int n, fe_trunc = \<lambda>_. 0, fe_alloc = \<lambda>_. True,
     fe_random = \<lambda>t. t, fe_strerror = \<lambda>_. ''error'', rf_garbage = \<lambda>_. 7,
     rf_freesp = \<lambda>b start len. Inr (map (\<lambda>i. if nat start \<le> i \<and> i < nat start + nat len then 0 else b ! i) [0..<length b])\<rparr>"

theorem randfree_file_status_witness:
  "(\<exists>fs'. rf_main (rf_system 4) ''randfree'' (rf_args 4 1 2 ''f'') \<lparr>fs_tick = 0, fs_files = Map.empty, fs_out = []\<rparr> = Ret 0 fs' \<and>
     fs_files fs' = [''f'' \<mapsto> [7, 0, 0, 7]]) \<and>
   (\<exists>fs'. rf_main (rf_system (-28)) ''randfree'' (rf_args 4 1 2 ''f'') \<lparr>fs_tick = 0, fs_files = Map.empty, fs_out = []\<rparr> = Ret 0 fs' \<and>
     fs_files fs' = [''f'' \<mapsto> []])"
proof
  let ?fs = "\<lparr>fs_tick = 0, fs_files = Map.empty, fs_out = []\<rparr> :: fsys"
  show "\<exists>fs'. rf_main (rf_system 4) ''randfree'' (rf_args 4 1 2 ''f'') ?fs = Ret 0 fs' \<and> fs_files fs' = [''f'' \<mapsto> [7, 0, 0, 7]]"
    using randfree_file_status [of "rf_system 4" 4 4 1 2 "''f''" "''randfree''" ?fs]
    by (simp add: rf_system_def rf_written_def LLONG_MAX_def upt_rec)
  show "\<exists>fs'. rf_main (rf_system (-28)) ''randfree'' (rf_args 4 1 2 ''f'') ?fs = Ret 0 fs' \<and> fs_files fs' = [''f'' \<mapsto> []]"
    using randfree_file_status [of "rf_system (-28)" 4 "-28" 1 2 "''f''" "''randfree''" ?fs]
    by (simp add: rf_system_def rf_written_def LLONG_MAX_def)
qed

section \<open>readmmap\<close>

text \<open>
  \<^verbatim>\<open>readmmap\<close> on a system whose calls succeed ends with 0 exactly if the byte that was set in the mapping is read back from the
  file; if \<^verbatim>\<open>msync\<close> puts the mapping into the file, the file is left with one byte set.
\<close>

theorem readmmap_reads_back:
  assumes "fs_calm (fs_env.truncate env)" "mm_map env = 0" "mm_sync env = 0" "mm_unmap env = 0"
    and "\<forall>b m. length (mm_flush env b m) = length b"
  shows "\<exists>idx<mm_size. \<exists>fs'. let b = mm_flush env (replicate mm_size 0) ((replicate mm_size 0)[idx := 1]) in
    mm_main env [prog, name] fs = Ret (if b ! idx = 1 then 0 else 1) fs' \<and> fs_files fs' name = Some b"
proof -
  let ?z = "replicate mm_size (0 :: byte)" and ?d = "\<lparr>fd_name = name, fd_pos = 0, fd_append = False\<rparr>"
  have c: "fe_open env t = 0" "fe_write env t n = int n" "fe_read env t n = int n" "fe_alloc env t" for t n
    using assms(1) by (simp_all add: fs_calm_def fs_env.truncate_def)
  define fs1 where "fs1 = (ftick fs)\<lparr>fs_files := (if mm_remove env = 0 then (fs_files fs)(name := None) else fs_files fs)\<rparr>"
  define fs2 where "fs2 = (ftick (ftick fs1))\<lparr>fs_files := (fs_files fs1)(name \<mapsto> ?z)\<rparr>"
  define idx where "idx = fe_random env (fs_tick fs2) mod mm_size"
  have idx: "idx < mm_size" by (simp add: idx_def mm_size_def)
  have o: "sys_open (fs_env.truncate env) name True True False fs1 = (Inr ?d, (ftick fs1)\<lparr>fs_files := (fs_files fs1)(name \<mapsto> [])\<rparr>)"
    using c by (subst open_truncated) (simp_all add: fs_env.truncate_def)
  have w: "sys_write (fs_env.truncate env) ?d ?z ((ftick fs1)\<lparr>fs_files := (fs_files fs1)(name \<mapsto> [])\<rparr>) =
      (int mm_size, ?d\<lparr>fd_pos := mm_size\<rparr>, fs2)"
    using c by (simp add: sys_write_def contents_def lay_first fs2_def fs_env.truncate_def Let_def)
  have "mm_main env [prog, name] fs = mm_check env (?d\<lparr>fd_pos := mm_size\<rparr>) fs2"
    using o w c by (simp add: mm_main_def fs1_def Let_def)
  moreover have "contents (?d\<lparr>fd_pos := mm_size\<rparr>) fs2 = ?z" by (simp add: contents_def fs2_def)
  moreover have "length (mm_flush env ?z (?z[idx := 1])) = mm_size" using assms(5) by simp
  ultimately have "let b = mm_flush env ?z (?z[idx := 1]) in
      \<exists>fs'. mm_main env [prog, name] fs = Ret (if b ! idx = 1 then 0 else 1) fs' \<and> fs_files fs' name = Some b"
    using assms(2-4) c by (simp add: mm_check_def sys_read_def contents_def fs_env.truncate_def Let_def say_def flip: idx_def)
  then show ?thesis using idx by (auto simp: Let_def)
qed

section \<open>largest_file\<close>

text \<open>
  \<^verbatim>\<open>largest_file\<close> on a file system whose files may have up to \<open>limit\<close> bytes, and on which a write behind that fails with EFBIG,
  ends with 0 exactly if the limit is the largest offset; with a lower limit its status is EFBIG, with a higher one 1. The
  file is removed in every case.
\<close>

theorem largest_file_limit:
  assumes "lf_dup env" "lf_open env = 0" "\<forall>off. 0 \<le> off \<and> off \<le> MAXOFFSET_T \<longrightarrow> lf_seek env off = 0"
    and "\<forall>off. lf_write env off = (if off < limit then 1 else - EFBIG)"
  shows "\<exists>s'. lf_main env [prog, name] s = (if limit < MAXOFFSET_T then EFBIG else if limit = MAXOFFSET_T then 0 else 1, s') \<and> \<not> lf_there s'"
  using assms by (auto simp: lf_main_def lf_try_def lf_put_def MAXOFFSET_T_def Let_def sigxfsz_def lf_say_def lf_perror_def split: prod.split)

end
