(* ===== verification/Race_Tools.thy ===== *)
theory Race_Tools
  imports Exec_Tools
begin

text \<open>
  Programs of the ZFS suite that let threads or processes work on the same names: \<^verbatim>\<open>rm_lnkcnt_zero_file.c\<close>, \<^verbatim>\<open>rename_dir.c\<close>,
  \<^verbatim>\<open>dir_rd_update.c\<close> and \<^verbatim>\<open>mmapwrite.c\<close>. System calls are atomic; the order in which threads come to them is left open.
\<close>

section \<open>rm_lnkcnt_zero_file\<close>

text \<open>
  A directory with the inodes of its files, the number of links and the bytes of each inode, the descriptor that
  the writer shares with the main thread, what the writer does next, and the status once the program has ended.
\<close>

datatype writer_pc = At_close | At_open | At_write

record links =
  lk_dir :: "string \<rightharpoonup> nat"
  lk_nlink :: "nat \<Rightarrow> int"
  lk_bytes :: "nat \<Rightarrow> string"
  lk_next :: nat
  lk_fd :: "nat option"
  lk_writer :: writer_pc
  lk_exit :: "int option"
  lk_out :: "string list"

definition lk_say :: "string \<Rightarrow> links \<Rightarrow> links" where
  "lk_say msg s = s\<lparr>lk_out := lk_out s @ [msg]\<rparr>"

definition pickidx :: "nat \<Rightarrow> nat" where
  "pickidx random = random mod 1000"

text \<open>The name made with \<^verbatim>\<open>sprintf\<close> in an array of 256 bytes; \<open>None\<close> when it does not fit.\<close>

definition lk_name :: "string \<Rightarrow> nat \<Rightarrow> string option" where
  "lk_name filebase idx =
     (case format ''%s.%03d'' [AStr filebase, AInt (int idx)] of
        None \<Rightarrow> None
      | Some t \<Rightarrow> if length t < 256 then Some t else None)"

text \<open>A name is taken away: its inode has one link less.\<close>

definition lk_unlink :: "string \<Rightarrow> links \<Rightarrow> links" where
  "lk_unlink name s =
     (case lk_dir s name of
        None \<Rightarrow> s
      | Some i \<Rightarrow> s\<lparr>lk_dir := (lk_dir s)(name := None), lk_nlink := (lk_nlink s)(i := lk_nlink s i - 1)\<rparr>)"

text \<open>\<^verbatim>\<open>open\<close> with \<^verbatim>\<open>O_CREAT\<close>.\<close>

definition lk_open :: "string \<Rightarrow> links \<Rightarrow> links" where
  "lk_open name s =
     (case lk_dir s name of
        Some i \<Rightarrow> s\<lparr>lk_fd := Some i\<rparr>
      | None \<Rightarrow> s\<lparr>lk_dir := (lk_dir s)(name \<mapsto> lk_next s), lk_nlink := (lk_nlink s)(lk_next s := 1),
                 lk_bytes := (lk_bytes s)(lk_next s := []), lk_next := Suc (lk_next s), lk_fd := Some (lk_next s)\<rparr>)"

text \<open>The rounds of the threads; a rename or a removal of a name that is not there is no reason for a message.\<close>

definition mover :: "string \<Rightarrow> nat \<Rightarrow> links \<Rightarrow> links option" where
  "mover filebase random s =
     (case lk_name filebase (pickidx random) of
        None \<Rightarrow> None
      | Some buf \<Rightarrow>
          (case lk_dir s filebase of
             None \<Rightarrow> Some s
           | Some i \<Rightarrow> let s = lk_unlink buf s in Some (s\<lparr>lk_dir := (lk_dir s)(filebase := None, buf \<mapsto> i)\<rparr>)))"

definition cleaner :: "string \<Rightarrow> nat \<Rightarrow> links \<Rightarrow> links option" where
  "cleaner filebase random s = map_option (\<lambda>buf. lk_unlink buf s) (lk_name filebase (pickidx random))"

text \<open>One call of the writer; \<open>err\<close> is the message of an \<^verbatim>\<open>open\<close> that fails.\<close>

definition writer :: "string \<Rightarrow> string option \<Rightarrow> links \<Rightarrow> links" where
  "writer filebase err s =
     (case lk_writer s of
        At_close \<Rightarrow> s\<lparr>lk_fd := None, lk_writer := At_open\<rparr>
      | At_open \<Rightarrow>
          (case err of
             Some e \<Rightarrow> (lk_say (''refreshing file: '' @ e @ ''\<newline>'') s)\<lparr>lk_writer := At_write\<rparr>
           | None \<Rightarrow> (lk_open filebase s)\<lparr>lk_writer := At_write\<rparr>)
      | At_write \<Rightarrow>
          (case lk_fd s of
             None \<Rightarrow> s
           | Some i \<Rightarrow> s\<lparr>lk_bytes := (lk_bytes s)(i := lk_bytes s i @ ''test\<newline>'')\<rparr>)\<lparr>lk_writer := At_close\<rparr>)"

definition checker :: "string \<Rightarrow> links \<Rightarrow> links" where
  "checker filebase s =
     (case lk_dir s filebase of
        None \<Rightarrow> s
      | Some i \<Rightarrow>
          if lk_nlink s i > 2 \<or> lk_nlink s i < 1
          then (lk_say (''st.st_nlink = '' @ dec (lk_nlink s i) @ '', exiting\<newline>'') s)\<lparr>lk_exit := Some 0\<rparr> else s)"

text \<open>The main function up to the creation of the threads.\<close>

definition lk_main :: "string list \<Rightarrow> string option \<Rightarrow> links \<Rightarrow> links" where
  "lk_main argv err s =
     (if length argv = 1 then (lk_say (''Usage: '' @ argv ! 0 @ '' <filebase>\<newline>'') s)\<lparr>lk_exit := Some (-1)\<rparr>
      else case err of
          Some e \<Rightarrow> (lk_say (''creating test file: '' @ e @ ''\<newline>'') s)\<lparr>lk_exit := Some (-1)\<rparr>
        | None \<Rightarrow> lk_open (argv ! 1) s)"

text \<open>A step of any of the four threads while the program runs.\<close>

inductive lk_step :: "string \<Rightarrow> links \<Rightarrow> links \<Rightarrow> bool" for filebase where
  Move: "lk_exit s = None \<Longrightarrow> mover filebase random s = Some t \<Longrightarrow> lk_step filebase s t"
| Clean: "lk_exit s = None \<Longrightarrow> cleaner filebase random s = Some t \<Longrightarrow> lk_step filebase s t"
| Write: "lk_exit s = None \<Longrightarrow> lk_step filebase s (writer filebase err s)"
| Check: "lk_exit s = None \<Longrightarrow> lk_step filebase s (checker filebase s)"

section \<open>rename_dir\<close>

text \<open>\<^verbatim>\<open>strlcat\<close> onto the string in an array of \<open>n\<close> bytes; an array without a null character is left as it is.\<close>

definition array_strlcat :: "char list \<Rightarrow> string \<Rightarrow> nat \<Rightarrow> char list" where
  "array_strlcat buf src n =
     (let d = length (c_string (take n buf)) in
      if d = n then buf else store buf d (take (n - 1 - d) src @ [CHR 0x00]))"

definition rd_msg :: string where
  "rd_msg = ''rename() fails to handle race situation\<newline>''"

text \<open>
  What is printed after a round with a rename that succeeded. The array is the format; nothing resets it. Without a null
  character in it, or with more directives than arguments, printing is undefined.
\<close>

definition rd_report :: "string \<Rightarrow> int \<Rightarrow> char list \<Rightarrow> (string \<times> char list) option" where
  "rd_report label count buf =
     (let buf = array_strlcat (array_strlcat buf (label @ '': %d,'') 256) rd_msg 256 in
      if CHR 0x00 \<in> set buf then map_option (\<lambda>t. (t, buf)) (format (c_string buf) [AInt count]) else None)"

text \<open>
  Rounds of one of the two loops, which never end; the file system, with whatever the other process does to it, is an argument.
\<close>

fun rd_loop :: "(string \<Rightarrow> string \<Rightarrow> 'f \<Rightarrow> bool \<times> 'f) \<Rightarrow> string \<Rightarrow> string \<Rightarrow> string \<Rightarrow> nat \<Rightarrow> char list \<Rightarrow> string list \<Rightarrow> 'f \<Rightarrow>
    (string list \<times> 'f) option" where
  "rd_loop rename label here there 0 buf out f = Some (out, f)"
| "rd_loop rename label here there (Suc n) buf out f =
     (let (r1, f) = rename here there f;
          (r2, f) = rename there here f;
          count = of_bool r1 + of_bool r2
      in if count = (0 :: int) then rd_loop rename label here there n buf out f
         else case rd_report label count buf of
             None \<Rightarrow> None
           | Some (t, buf) \<Rightarrow> rd_loop rename label here there n buf (out @ [t]) f)"

definition rd_child :: "(string \<Rightarrow> string \<Rightarrow> 'f \<Rightarrow> bool \<times> 'f) \<Rightarrow> nat \<Rightarrow> char list \<Rightarrow> 'f \<Rightarrow> (string list \<times> 'f) option" where
  "rd_child rename n buf = rd_loop rename ''c_count'' ''a/b/c'' ''1/2/3/c'' n buf []"

definition rd_parent :: "(string \<Rightarrow> string \<Rightarrow> 'f \<Rightarrow> bool \<times> 'f) \<Rightarrow> nat \<Rightarrow> char list \<Rightarrow> 'f \<Rightarrow> (string list \<times> 'f) option" where
  "rd_parent rename n buf = rd_loop rename ''p_count'' ''1'' ''a/b/c/d/e/1'' n buf []"

text \<open>
  The main function in the process to which \<^verbatim>\<open>fork\<close> answers \<open>pid\<close>: the status if it has ended, its messages and the file
  system after \<open>n\<close> rounds.
\<close>

definition rd_main :: "(string \<Rightarrow> string \<Rightarrow> 'f \<Rightarrow> bool \<times> 'f) \<Rightarrow> int \<Rightarrow> string \<Rightarrow> nat \<Rightarrow> char list \<Rightarrow> 'f \<Rightarrow>
    (int option \<times> string list \<times> 'f) option" where
  "rd_main rename pid err n buf f =
     (if pid = -1 then Some (Some 1, [''fork: '' @ err @ ''\<newline>''], f)
      else map_option (Pair None) (if pid = 0 then rd_child rename n buf f else rd_parent rename n buf f))"

section \<open>dir_rd_update\<close>

text \<open>
  The answers of the system: \<^verbatim>\<open>mkdir\<close> and \<^verbatim>\<open>open\<close> give 0 or an error, \<^verbatim>\<open>fork\<close> fails or not, each \<^verbatim>\<open>read\<close> and \<^verbatim>\<open>fchown\<close> succeeds or not.
\<close>

record du_env =
  du_mkdir :: "string \<Rightarrow> int"
  du_open :: "string \<Rightarrow> int"
  du_fork :: bool
  du_read :: "nat \<Rightarrow> bool"
  du_fchown :: "nat \<Rightarrow> bool"

text \<open>The messages of five rounds.\<close>

definition du_rounds :: "(nat \<Rightarrow> bool) \<Rightarrow> string \<Rightarrow> string list" where
  "du_rounds works msg = map (\<lambda>_. msg) (filter (\<lambda>j. \<not> works j) [0..<5])"

text \<open>
  The path is put together in an array of 256 bytes: \<open>None\<close> when it does not fit. The name that is appended is the text
  \<^verbatim>\<open>TMP_DIR\<close>, not the macro of that name. The result has the status and the messages of each process.
\<close>

definition du_main :: "du_env \<Rightarrow> string list \<Rightarrow> (int \<times> string list) list option" where
  "du_main env argv =
     (if length argv = 1 then Some [(-1, [''Usage: '' @ argv ! 0 @ '' <mount point>\<newline>''])]
      else
        let dirpath = argv ! 1 @ ''TMP_DIR'' in
        if length dirpath \<ge> 256 then None
        else if du_mkdir env dirpath \<notin> {0, EEXIST}
        then Some [(-1, [argv ! 0 @ '': mkdir(<'' @ dirpath @ ''>, 0777) failed: errno (decimal)='' @ dec (du_mkdir env dirpath) @ ''\<newline>''])]
        else if du_open env dirpath \<noteq> 0
        then Some [(-1, [argv ! 0 @ '': open(<'' @ dirpath @ ''>, O_RDONLY|O_RSYNC|O_SYNC|O_DSYNC) failed: errno (decimal)='' @
                         dec (du_open env dirpath) @ ''\<newline>''])]
        else if \<not> du_fork env then Some [(0, [])]
        else Some [(0, du_rounds (du_read env) ''readdir failed''), (0, du_rounds (du_fchown env) ''chown failed'')])"

section \<open>mmapwrite\<close>

text \<open>The calls of the two threads in the order in which they happen: 0 or an error.\<close>

datatype mw_call = Map_call int | Write_call int

record mw_env =
  mw_open :: int
  mw_create :: int
  mw_strerror :: "int \<Rightarrow> string"

definition mw_fail :: "mw_env \<Rightarrow> string \<Rightarrow> int \<Rightarrow> int \<times> string" where
  "mw_fail env what e = (1, what @ '': '' @ mw_strerror env e @ ''\<newline>'')"

text \<open>The loops of both threads; \<open>None\<close>: the program still runs.\<close>

fun mw_loops :: "mw_env \<Rightarrow> mw_call list \<Rightarrow> (int \<times> string) option" where
  "mw_loops env [] = None"
| "mw_loops env (Map_call e # cs) = (if e \<noteq> 0 then Some (mw_fail env ''mmap'' e) else mw_loops env cs)"
| "mw_loops env (Write_call e # cs) = (if e \<noteq> 0 then Some (mw_fail env ''write'' e) else mw_loops env cs)"

definition mw_main :: "mw_env \<Rightarrow> string list \<Rightarrow> mw_call list \<Rightarrow> (int \<times> string) option" where
  "mw_main env argv cs =
     (if length argv \<noteq> 2 then Some (1, ''usage: '' @ argv ! 0 @ '' <file name>\<newline>'')
      else if mw_open env \<noteq> 0 then Some (mw_fail env ''open'' (mw_open env))
      else if mw_create env \<noteq> 0 then Some (mw_fail env ''pthread_create'' (mw_create env))
      else mw_loops env cs)"

end
