(* ===== verification/Race_Spec.thy ===== *)
theory Race_Spec
  imports Race_Tools
begin

text \<open>
  Two of the racing programs: the link counts that \<^verbatim>\<open>rm_lnkcnt_zero_file\<close> watches are right in every order of its threads, and
  what \<^verbatim>\<open>rename_dir\<close> prints.
\<close>

section \<open>rm_lnkcnt_zero_file\<close>

lemma lk_name_text:
  assumes "idx < 1000"
  shows "\<exists>t. length t = 3 \<and> lk_name filebase idx = (if length filebase < 252 then Some (filebase @ ''.'' @ t) else None)"
proof -
  let ?d = "\<lparr>dr_flags = ''0'', dr_width = 3, dr_prec = None, dr_conv = CHR ''d''\<rparr>"
  have r: "read_directive ''03d'' = Some (?d, [])" by (simp add: read_directive_def is_digit_def)
  have f: "format ''%s.%03d'' [AStr filebase, AInt (int idx)] = Some (filebase @ ''.'' @ padded ?d True (dec (int idx)))"
    by (simp add: fmt r)
  have "length (dec (int idx)) \<le> 3" using length_numeral_in [of 3 idx] assms by (simp add: dec_def)
  moreover obtain c cs where c: "numeral_in 10 idx = c # cs" using numeral_in_nonempty [of 10 idx] by (cases "numeral_in 10 idx") auto
  moreover have "c \<noteq> CHR ''-''" using numeral_in_digits [of c idx] digit_kinds [of c] c by simp
  moreover have "dec (int idx) = numeral_in 10 idx" by (simp add: dec_def)
  ultimately have "length (padded ?d True (dec (int idx))) = 3" by (simp add: padded_def Let_def)
  then show ?thesis using f by (intro exI [of _ "padded ?d True (dec (int idx))"]) (simp add: lk_name_def)
qed

lemma lk_name_other: "lk_name filebase (pickidx r) = Some buf \<Longrightarrow> buf \<noteq> filebase"
  using lk_name_text [of "pickidx r" filebase] by (auto simp: pickidx_def split: if_splits)

lemma lk_name_defined: "lk_name filebase (pickidx r) = None \<longleftrightarrow> 251 < length filebase"
  using lk_name_text [of "pickidx r" filebase] by (auto simp: pickidx_def split: if_splits)

text \<open>Every inode with a name has exactly one, and one link.\<close>

definition lk_inv :: "links \<Rightarrow> bool" where
  "lk_inv s \<longleftrightarrow> (\<forall>n i. lk_dir s n = Some i \<longrightarrow> lk_nlink s i = 1 \<and> i < lk_next s \<and> (\<forall>m. lk_dir s m = Some i \<longrightarrow> m = n))"

lemma lk_invD:
  assumes "lk_inv s" "lk_dir s n = Some i"
  shows "lk_nlink s i = 1" "i < lk_next s" "lk_dir s m = Some i \<Longrightarrow> m = n"
  using assms by (auto simp: lk_inv_def)

lemma lk_invI:
  assumes "\<And>n i. lk_dir s n = Some i \<Longrightarrow> lk_nlink s i = 1" "\<And>n i. lk_dir s n = Some i \<Longrightarrow> i < lk_next s"
    and "\<And>n m i. lk_dir s n = Some i \<Longrightarrow> lk_dir s m = Some i \<Longrightarrow> m = n"
  shows "lk_inv s"
  unfolding lk_inv_def using assms by blast

lemma lk_inv_unlink:
  assumes "lk_inv s"
  shows "lk_inv (lk_unlink name s)"
proof (rule lk_invI)
  show "lk_nlink (lk_unlink name s) i = 1" if "lk_dir (lk_unlink name s) n = Some i" for n i
    using that lk_invD(1) [OF assms, of n i] lk_invD(3) [OF assms, of n i name] by (auto simp: lk_unlink_def split: option.splits if_splits)
  show "i < lk_next (lk_unlink name s)" if "lk_dir (lk_unlink name s) n = Some i" for n i
    using that lk_invD(2) [OF assms, of n i] by (auto simp: lk_unlink_def split: option.splits if_splits)
  show "m = n" if "lk_dir (lk_unlink name s) n = Some i" "lk_dir (lk_unlink name s) m = Some i" for n m i
    using that lk_invD(3) [OF assms, of n i m] by (auto simp: lk_unlink_def split: option.splits if_splits)
qed

lemma lk_inv_open:
  assumes "lk_inv s"
  shows "lk_inv (lk_open name s)"
proof (cases "lk_dir s name")
  case None
  show ?thesis
  proof (rule lk_invI)
    show "lk_nlink (lk_open name s) i = 1" if "lk_dir (lk_open name s) n = Some i" for n i
      using that None lk_invD(1) [OF assms, of n i] by (auto simp: lk_open_def split: if_splits)
    show "i < lk_next (lk_open name s)" if "lk_dir (lk_open name s) n = Some i" for n i
      using that None lk_invD(2) [OF assms, of n i] by (auto simp: lk_open_def split: if_splits)
    show "m = n" if "lk_dir (lk_open name s) n = Some i" "lk_dir (lk_open name s) m = Some i" for n m i
      using that None lk_invD(3) [OF assms, of n i m] lk_invD(2) [OF assms, of n i] lk_invD(2) [OF assms, of m i]
      by (auto simp: lk_open_def split: if_splits)
  qed
qed (use assms in \<open>simp add: lk_open_def lk_inv_def\<close>)

lemma lk_inv_move:
  assumes "lk_inv s" "lk_dir s filebase = Some i"
  shows "lk_inv (s\<lparr>lk_dir := (lk_dir s)(filebase := None, buf \<mapsto> i)\<rparr>)"
proof (rule lk_invI, goal_cases)
  case (1 n j)
  then show ?case using lk_invD(1) [OF assms] lk_invD(1) [OF assms(1), of n j] by (simp split: if_splits)
next
  case (2 n j)
  then show ?case using lk_invD(2) [OF assms] lk_invD(2) [OF assms(1), of n j] by (simp split: if_splits)
next
  case (3 n m j)
  then show ?case using lk_invD(3) [OF assms, of m] lk_invD(3) [OF assms, of n] lk_invD(3) [OF assms(1), of n j m] by (simp split: if_splits)
qed

lemma lk_unlink_simps [simp]:
  "lk_exit (lk_unlink name s) = lk_exit s" "lk_dir (lk_unlink name s) = (lk_dir s)(name := None)" "lk_exit (lk_open name s) = lk_exit s"
  by (auto simp: lk_unlink_def lk_open_def split: option.split)

lemma lk_step_inv: "lk_step filebase s t \<Longrightarrow> lk_inv s \<Longrightarrow> lk_inv t \<and> lk_exit t = None"
proof (induction rule: lk_step.induct)
  case (Move s random t)
  then obtain buf where buf: "lk_name filebase (pickidx random) = Some buf" by (auto simp: mover_def split: option.splits)
  show ?case
  proof (cases "lk_dir s filebase")
    case (Some i)
    have "lk_inv ((lk_unlink buf s)\<lparr>lk_dir := (lk_dir (lk_unlink buf s))(filebase := None, buf \<mapsto> i)\<rparr>)"
      using lk_inv_unlink [OF Move(3)] lk_name_other [OF buf] Some by (intro lk_inv_move) simp_all
    then show ?thesis using Move buf Some by (auto simp: mover_def Let_def)
  qed (use Move buf in \<open>simp add: mover_def\<close>)
next
  case (Clean s random t)
  then show ?case by (auto simp: cleaner_def lk_inv_unlink)
next
  case (Write s err)
  then have "lk_inv (lk_open filebase s)" by (simp add: lk_inv_open)
  then show ?case using Write by (auto simp: writer_def lk_inv_def lk_say_def split: option.splits writer_pc.split)
next
  case (Check s)
  then show ?case by (auto simp: checker_def lk_inv_def split: option.splits)
qed

lemma lk_steps_inv: "(lk_step filebase)\<^sup>*\<^sup>* s t \<Longrightarrow> lk_inv s \<Longrightarrow> lk_exit s = None \<Longrightarrow> lk_inv t \<and> lk_exit t = None"
  by (induction rule: rtranclp_induct) (auto dest: lk_step_inv)

lemma threads_defined:
  "mover filebase random s = None \<longleftrightarrow> 251 < length filebase" "cleaner filebase random s = None \<longleftrightarrow> 251 < length filebase"
  using lk_name_defined [of filebase random] by (auto simp: mover_def cleaner_def Let_def split: option.splits)

text \<open>
  C33. On a file system whose renames and removals are atomic, \<^verbatim>\<open>rm_lnkcnt_zero_file\<close>, started in a directory without hard links,
  never ends, however its four threads take turns: the number of links it watches is always 1. The threads that rename and remove are defined
  in every state exactly if the name of the file has at most 251 characters; a longer one overruns their arrays.
\<close>

theorem link_count_stays_one:
  assumes "lk_inv s" "lk_exit s = None" "(lk_step filebase)\<^sup>*\<^sup>* (lk_main [prog, filebase] None s) t"
  shows "lk_exit t = None \<and> (\<forall>name i. lk_dir t name = Some i \<longrightarrow> lk_nlink t i = 1) \<and>
    (\<forall>random. (mover filebase random t = None \<longleftrightarrow> length filebase > 251) \<and> (cleaner filebase random t = None \<longleftrightarrow> length filebase > 251))"
proof -
  have "lk_inv (lk_main [prog, filebase] None s)" "lk_exit (lk_main [prog, filebase] None s) = None"
    using assms(1,2) by (simp_all add: lk_main_def lk_inv_open)
  then have "lk_inv t" "lk_exit t = None" using lk_steps_inv [OF assms(3)] by simp_all
  then show ?thesis by (simp add: lk_inv_def threads_defined)
qed

definition no_links :: links where
  "no_links = \<lparr>lk_dir = Map.empty, lk_nlink = \<lambda>_. 0, lk_bytes = \<lambda>_. [], lk_next = 0, lk_fd = None, lk_writer = At_close, lk_exit = None, lk_out = []\<rparr>"

theorem link_count_stays_one_witness:
  "\<exists>t. (lk_step ''f'')\<^sup>*\<^sup>* (lk_main [''rm'', ''f''] None no_links) t \<and> lk_dir t ''f.042'' = Some 0 \<and> lk_exit t = None \<and> lk_nlink t 0 = 1 \<and>
    mover ''f'' 7 t \<noteq> None"
proof -
  let ?s = "lk_main [''rm'', ''f''] None no_links"
  have s: "lk_exit ?s = None" "lk_dir ?s = [''f'' \<mapsto> 0]" by (simp_all add: lk_main_def lk_open_def no_links_def)
  have "lk_name ''f'' (pickidx 42) = Some ''f.042''" by (simp add: lk_name_def pickidx_def fmt read_directive_def is_digit_def padded_def dec_def numeral_in.simps)
  then obtain t where t: "mover ''f'' 42 ?s = Some t" "lk_dir t ''f.042'' = Some 0" using s by (simp add: mover_def Let_def)
  then have "(lk_step ''f'')\<^sup>*\<^sup>* ?s t" using lk_step.Move [OF s(1)] by blast
  moreover have "lk_inv no_links" "lk_exit no_links = None" by (simp_all add: lk_inv_def no_links_def)
  ultimately show ?thesis using link_count_stays_one [of no_links "''f''" "''rm''" t] t(2) by auto
qed

section \<open>rename_dir\<close>

lemma array_strlcat_string:
  assumes "length buf = n" "CHR 0x00 \<in> set buf" "CHR 0x00 \<notin> set src" "length (c_string buf) + length src < n"
  shows "c_string (array_strlcat buf src n) = c_string buf @ src" "CHR 0x00 \<in> set (array_strlcat buf src n)" "length (array_strlcat buf src n) = n"
proof -
  obtain p q where b: "buf = p @ CHR 0x00 # q" "CHR 0x00 \<notin> set p" using assms(2) by (meson split_list_first)
  have c: "c_string (p @ CHR 0x00 # r) = p" for r using b(2) by (auto simp: c_string_def takeWhile_append)
  have "CHR 0x00 \<notin> set (p @ src)" using b(2) assms(3) by simp
  then have cs: "c_string (p @ src @ CHR 0x00 # r) = p @ src" for r by (auto simp: c_string_def takeWhile_append)
  have l: "length p + length src < n" using assms(4) b(1) c by simp
  then have "array_strlcat buf src n = p @ src @ CHR 0x00 # drop (length p + length src + 1) buf"
    using assms(1) b(1) c by (simp add: array_strlcat_def store_def Let_def)
  then show "c_string (array_strlcat buf src n) = c_string buf @ src" "CHR 0x00 \<in> set (array_strlcat buf src n)" "length (array_strlcat buf src n) = n"
    using cs c b(1) l assms(1) by simp_all
qed

lemma format_no_arg: "read_directive fs = Some (d, rest) \<Longrightarrow> dr_conv d \<noteq> CHR ''%'' \<Longrightarrow> format (CHR ''%'' # fs) [] = None"
  by (simp add: format.simps(2))

text \<open>The array after one report: its text has one directive; after two, it has two.\<close>

lemma rd_msg_plain: "CHR ''%'' \<notin> set rd_msg" "CHR 0x00 \<notin> set rd_msg" "length rd_msg = 40"
  by (simp_all add: rd_msg_def)

definition rd_format :: "string \<Rightarrow> string" where
  "rd_format label = label @ '': %d,'' @ rd_msg"

lemma format_once: "CHR ''%'' \<notin> set label \<Longrightarrow> format (rd_format label) [AInt k] = Some (label @ '': '' @ dec k @ '','' @ rd_msg)"
  using format_plain [OF rd_msg_plain(1), of "[]"] by (simp add: rd_format_def format_plain fmt)

lemma format_twice: "CHR ''%'' \<notin> set label \<Longrightarrow> format (rd_format label @ rd_format label) [AInt k] = None"
  by (simp add: rd_format_def format_plain rd_msg_plain fmt format_no_arg)

text \<open>The rounds in which a rename succeeded, with the number of renames.\<close>

fun rd_counts :: "(string \<Rightarrow> string \<Rightarrow> 'f \<Rightarrow> bool \<times> 'f) \<Rightarrow> string \<Rightarrow> string \<Rightarrow> nat \<Rightarrow> 'f \<Rightarrow> int list" where
  "rd_counts rename here there 0 f = []"
| "rd_counts rename here there (Suc n) f =
     (let (r1, f) = rename here there f; (r2, f) = rename there here f; count = of_bool r1 + of_bool r2
      in (if count = 0 then [] else [count]) @ rd_counts rename here there n f)"

definition rd_buf :: "string \<Rightarrow> char list \<Rightarrow> bool" where
  "rd_buf t buf \<longleftrightarrow> length buf = 256 \<and> CHR 0x00 \<in> set buf \<and> c_string buf = t"

lemma rd_report_eq:
  assumes "rd_buf t buf" "CHR 0x00 \<notin> set label" "length t + length label + 45 < 256"
  shows "\<exists>buf'. rd_buf (t @ rd_format label) buf' \<and> rd_report label k buf = map_option (\<lambda>u. (u, buf')) (format (t @ rd_format label) [AInt k])"
proof -
  let ?src = "label @ '': %d,''" and ?b = "array_strlcat buf (label @ '': %d,'') 256"
  have s: "CHR 0x00 \<notin> set ?src" "length (c_string buf) + length ?src < 256" using assms by (simp_all add: rd_buf_def)
  have b: "c_string ?b = t @ ?src" "CHR 0x00 \<in> set ?b" "length ?b = 256"
    using array_strlcat_string [of buf 256 ?src] s assms(1) by (simp_all add: rd_buf_def)
  have "length (c_string ?b) + length rd_msg < 256" using assms(3) b(1) by (simp add: rd_msg_plain)
  then have "rd_buf (t @ rd_format label) (array_strlcat ?b rd_msg 256)"
    using array_strlcat_string [OF b(3,2) rd_msg_plain(2)] b(1) by (simp add: rd_buf_def rd_format_def)
  then show ?thesis by (auto simp: rd_report_def rd_buf_def Let_def)
qed

text \<open>The loop once the array holds a report.\<close>

lemma rd_loop_second:
  assumes "rd_buf (rd_format label) buf" "CHR ''%'' \<notin> set label" "CHR 0x00 \<notin> set label" "length label \<le> 50"
  shows "if rd_counts rename here there n f = [] then \<exists>f'. rd_loop rename label here there n buf out f = Some (out, f')
    else rd_loop rename label here there n buf out f = None"
proof (induction n arbitrary: f)
  case (Suc n)
  have "length (rd_format label) + length label + 45 < 256" using assms(4) by (simp add: rd_format_def rd_msg_plain)
  then have "rd_report label k buf = None" for k
    using rd_report_eq [OF assms(1,3)] format_twice [OF assms(2)] by auto
  then show ?case using Suc.IH by (auto simp: Let_def split: prod.split)
qed simp

lemma rd_loop_first:
  assumes "rd_buf [] buf" "CHR ''%'' \<notin> set label" "CHR 0x00 \<notin> set label" "length label \<le> 50"
  shows "case rd_counts rename here there n f of
      [] \<Rightarrow> \<exists>f'. rd_loop rename label here there n buf [] f = Some ([], f')
    | [k] \<Rightarrow> \<exists>f'. rd_loop rename label here there n buf [] f = Some ([label @ '': '' @ dec k @ '','' @ rd_msg], f')
    | _ \<Rightarrow> rd_loop rename label here there n buf [] f = None"
proof (induction n arbitrary: f)
  case (Suc n)
  obtain r1 f1 where 1: "rename here there f = (r1, f1)" by (cases "rename here there f")
  obtain r2 f2 where 2: "rename there here f1 = (r2, f2)" by (cases "rename there here f1")
  let ?k = "of_bool r1 + of_bool r2 :: int" and ?m = "\<lambda>k. label @ '': '' @ dec k @ '','' @ rd_msg"
  show ?case
  proof (cases "?k = 0")
    case True
    have c: "rd_counts rename here there (Suc n) f = rd_counts rename here there n f2" using True 1 2 by (simp add: Let_def)
    have l: "rd_loop rename label here there (Suc n) buf [] f = rd_loop rename label here there n buf [] f2" using True 1 2 by (simp add: Let_def)
    show ?thesis unfolding c l by (rule Suc.IH)
  next
    case False
    obtain buf' where b: "rd_buf (rd_format label) buf'" "rd_report label ?k buf = Some (?m ?k, buf')"
      using rd_report_eq [OF assms(1,3), of ?k] format_once [OF assms(2), of ?k] assms(4) by auto
    have c: "rd_counts rename here there (Suc n) f = ?k # rd_counts rename here there n f2" using False 1 2 by (simp add: Let_def)
    have l: "rd_loop rename label here there (Suc n) buf [] f = rd_loop rename label here there n buf' [?m ?k] f2"
      using False 1 2 b(2) by (simp add: Let_def)
    show ?thesis using rd_loop_second [OF b(1) assms(2-4), of rename here there n f2 "[?m ?k]"] unfolding c l
      by (cases "rd_counts rename here there n f2") simp_all
  qed
qed simp

text \<open>
  As long as none of the renames succeeds \<^verbatim>\<open>rename_dir\<close> prints nothing, and the first round with a success is reported with its number
  of renames. But the array with the text is never reset: at the second such round the format has two directives for one
  argument, and the program is undefined. This holds for the child and for the parent, for any behaviour of the file system.
\<close>

theorem rename_dir_reports_once:
  assumes "length buf = 256" "hd buf = CHR 0x00" "pid \<noteq> -1"
  shows "let (label, here, there) = (if pid = 0 then (''c_count'', ''a/b/c'', ''1/2/3/c'') else (''p_count'', ''1'', ''a/b/c/d/e/1'')) in
    case rd_counts rename here there n f of
      [] \<Rightarrow> \<exists>f'. rd_main rename pid err n buf f = Some (None, [], f')
    | [k] \<Rightarrow> \<exists>f'. rd_main rename pid err n buf f = Some (None, [label @ '': '' @ dec k @ '','' @ rd_msg], f')
    | _ \<Rightarrow> rd_main rename pid err n buf f = None"
proof -
  have "buf \<noteq> []" using assms(1) by auto
  then have b: "rd_buf [] buf" using assms(1,2) by (cases buf) (auto simp: rd_buf_def c_string_def)
  show ?thesis
    using rd_loop_first [OF b, of "''c_count''" rename "''a/b/c''" "''1/2/3/c''" n f] rd_loop_first [OF b, of "''p_count''" rename "''1''" "''a/b/c/d/e/1''" n f] assms(3)
    by (auto simp: rd_main_def rd_child_def rd_parent_def split: list.splits)
qed

theorem rename_dir_reports_once_witness:
  "rd_main (\<lambda>_ _ f. (True, f)) 0 [] 1 (replicate 256 (CHR 0x00)) () = Some (None, [''c_count: 2,'' @ rd_msg], ()) \<and>
   rd_main (\<lambda>_ _ f. (True, f)) 0 [] 2 (replicate 256 (CHR 0x00)) () = None"
proof
  have c: "rd_counts (\<lambda>_ _ f. (True, f)) ''a/b/c'' ''1/2/3/c'' 1 () = [2]" "rd_counts (\<lambda>_ _ f. (True, f)) ''a/b/c'' ''1/2/3/c'' 2 () = [2, 2]"
    by (simp_all add: numeral_2_eq_2)
  have d: "dec 2 = ''2''" by (simp add: dec_def numeral_in.simps)
  show "rd_main (\<lambda>_ _ f. (True, f)) 0 [] 1 (replicate 256 (CHR 0x00)) () = Some (None, [''c_count: 2,'' @ rd_msg], ())"
    using rename_dir_reports_once [where buf = "replicate 256 (CHR 0x00)" and pid = 0 and rename = "\<lambda>_ _ f. (True, f)" and n = 1 and f = "()" and err = "[]"] c(1) d by (simp add: Let_def)
  show "rd_main (\<lambda>_ _ f. (True, f)) 0 [] 2 (replicate 256 (CHR 0x00)) () = None"
    using rename_dir_reports_once [where buf = "replicate 256 (CHR 0x00)" and pid = 0 and rename = "\<lambda>_ _ f. (True, f)" and n = 2 and f = "()" and err = "[]"] c(2) by (simp add: Let_def)
qed

end
