(* ===== verification/Ctime.thy ===== *)
theory Ctime
  imports Log_Api Exec_Tools
begin

text \<open>
  The functional test \<^verbatim>\<open>ctime_001_pos.c\<close> of the ZFS suite: it works on a file and asks each time whether the time that the
  operation has to set has changed. It reports through the log library, whose model it calls.
\<close>

section \<open>The system the test runs on\<close>

datatype syscall = C_access | C_stat | C_open_new | C_open_rd | C_open_wr | C_creat | C_read | C_write | C_close | C_link
  | C_unlink | C_utime | C_chmod | C_chown

text \<open>The three times of a file, by the numbers the test gives them.\<close>

definition ST_ATIME :: int where "ST_ATIME = 0"
definition ST_CTIME :: int where "ST_CTIME = 1"
definition ST_MTIME :: int where "ST_MTIME = 2"

text \<open>
  What the test is about is an argument: \<open>ce_marks c k\<close> says whether the call \<open>c\<close> sets time \<open>k\<close> of the file it is made on.
  \<open>ce_ret c t\<close> is the answer to a call \<open>c\<close> made as the \<open>t\<close>-th call of the process, an error number below 0 or, from
  \<^verbatim>\<open>open\<close>, a descriptor; \<open>ce_lag\<close> and \<open>ce_nap\<close> are the seconds that pass in a call and in \<^verbatim>\<open>sleep(2)\<close>.
\<close>

record ct_env =
  ce_getenv :: "string \<rightharpoonup> string"
  ce_ret :: "syscall \<Rightarrow> nat \<Rightarrow> int"
  ce_marks :: "syscall \<Rightarrow> int \<Rightarrow> bool"
  ce_lag :: "nat \<Rightarrow> nat"
  ce_nap :: "nat \<Rightarrow> nat"
  ce_uid :: int
  ce_gid :: int

text \<open>
  The process: what the log library keeps, the static array \<^verbatim>\<open>tfile\<close>, and the file system with its names, the times of its
  files and the clock. The bytes of the files are left out: the test never looks at them.
\<close>

record ct_state = log_state +
  tfile :: string
  ct_dir :: "string \<rightharpoonup> nat"
  ct_times :: "nat \<Rightarrow> int \<Rightarrow> int"
  ct_next :: nat
  ct_now :: int
  ct_tick :: nat

definition ct_enter :: "ct_env \<Rightarrow> ct_state \<Rightarrow> ct_state" where
  "ct_enter env s = s\<lparr>ct_tick := Suc (ct_tick s), ct_now := ct_now s + int (ce_lag env (ct_tick s))\<rparr>"

definition ct_sleep :: "ct_env \<Rightarrow> ct_state \<Rightarrow> ct_state" where
  "ct_sleep env s = s\<lparr>ct_tick := Suc (ct_tick s), ct_now := ct_now s + int (ce_nap env (ct_tick s))\<rparr>"

definition ct_mark :: "ct_env \<Rightarrow> syscall \<Rightarrow> nat \<Rightarrow> ct_state \<Rightarrow> ct_state" where
  "ct_mark env c i s = s\<lparr>ct_times := (ct_times s)(i := \<lambda>k. if ce_marks env c k then ct_now s else ct_times s i k)\<rparr>"

text \<open>\<^verbatim>\<open>open\<close> and \<^verbatim>\<open>creat\<close>: an error, or a descriptor and the file it stands for.\<close>

definition ct_open :: "ct_env \<Rightarrow> syscall \<Rightarrow> bool \<Rightarrow> string \<Rightarrow> ct_state \<Rightarrow> (int + int \<times> nat) \<times> ct_state" where
  "ct_open env c creat name s =
     (let r = ce_ret env c (ct_tick s); s = ct_enter env s in
      if r < 0 then (Inl (- r), s)
      else case ct_dir s name of
          Some i \<Rightarrow> (Inr (r, i), ct_mark env c i s)
        | None \<Rightarrow>
            if creat
            then (Inr (r, ct_next s), s\<lparr>ct_dir := (ct_dir s)(name \<mapsto> ct_next s),
                                       ct_times := (ct_times s)(ct_next s := \<lambda>_. ct_now s), ct_next := Suc (ct_next s)\<rparr>)
            else (Inl ENOENT, s))"

text \<open>A call on a file that is open, and one on a name: 0 or an error.\<close>

definition ct_io :: "ct_env \<Rightarrow> syscall \<Rightarrow> nat \<Rightarrow> ct_state \<Rightarrow> int \<times> ct_state" where
  "ct_io env c i s =
     (let r = ce_ret env c (ct_tick s); s = ct_enter env s in if r < 0 then (- r, s) else (0, ct_mark env c i s))"

definition ct_named :: "ct_env \<Rightarrow> syscall \<Rightarrow> string \<Rightarrow> ct_state \<Rightarrow> int \<times> ct_state" where
  "ct_named env c name s =
     (let r = ce_ret env c (ct_tick s); s = ct_enter env s in
      if r < 0 then (- r, s) else case ct_dir s name of None \<Rightarrow> (ENOENT, s) | Some i \<Rightarrow> (0, ct_mark env c i s))"

definition ct_unlink :: "ct_env \<Rightarrow> string \<Rightarrow> ct_state \<Rightarrow> int \<times> ct_state" where
  "ct_unlink env name s =
     (case ct_named env C_unlink name s of (e, s) \<Rightarrow> (e, if e = 0 then s\<lparr>ct_dir := (ct_dir s)(name := None)\<rparr> else s))"

definition ct_link :: "ct_env \<Rightarrow> string \<Rightarrow> string \<Rightarrow> ct_state \<Rightarrow> int \<times> ct_state" where
  "ct_link env old new s =
     (let r = ce_ret env C_link (ct_tick s); s = ct_enter env s in
      if r < 0 then (- r, s)
      else case ct_dir s old of
          None \<Rightarrow> (ENOENT, s)
        | Some i \<Rightarrow> if ct_dir s new \<noteq> None then (EEXIST, s)
                   else (0, ct_mark env C_link i (s\<lparr>ct_dir := (ct_dir s)(new \<mapsto> i)\<rparr>)))"

definition ct_access :: "ct_env \<Rightarrow> string \<Rightarrow> ct_state \<Rightarrow> bool \<times> ct_state" where
  "ct_access env name s =
     (let r = ce_ret env C_access (ct_tick s); s = ct_enter env s in (0 \<le> r \<and> ct_dir s name \<noteq> None, s))"

section \<open>The operations of the test\<close>

text \<open>A message is put together in the static array \<^verbatim>\<open>msg\<close> and handed to \<^verbatim>\<open>log_must\<close>.\<close>

definition ct_must :: "clock \<Rightarrow> (nat \<Rightarrow> ct_state \<Rightarrow> (unit, ct_state) run) \<Rightarrow> int \<Rightarrow> string \<Rightarrow> arg list \<Rightarrow> ct_state \<Rightarrow> (unit, ct_state) run" where
  "ct_must clock fns ret fmt args s =
     (case snprintf BUFSIZ fmt args of None \<Rightarrow> Stuck | Some (_, msg) \<Rightarrow> log_must clock fns ret msg s)"

text \<open>A name is a null pointer or a string.\<close>

definition get_file_time :: "ct_env \<Rightarrow> string option \<Rightarrow> int \<Rightarrow> ct_state \<Rightarrow> int option \<times> ct_state" where
  "get_file_time env pfile what s =
     (case pfile of
        None \<Rightarrow> (None, s)
      | Some name \<Rightarrow>
          let r = ce_ret env C_stat (ct_tick s); s = ct_enter env s in
          if r < 0 then (None, s)
          else case ct_dir s name of
              None \<Rightarrow> (None, s)
            | Some i \<Rightarrow>
                (if what = ST_ATIME then Some (ct_times s i ST_ATIME)
                 else if what = ST_CTIME then Some (ct_times s i ST_CTIME)
                 else if what = ST_MTIME then Some (ct_times s i ST_MTIME)
                 else None, s))"

type_synonym ct_op = "ct_env \<Rightarrow> clock \<Rightarrow> (nat \<Rightarrow> ct_state \<Rightarrow> (unit, ct_state) run) \<Rightarrow> string option \<Rightarrow> ct_state \<Rightarrow> (int, ct_state) run"

definition do_read :: ct_op where
  "do_read env clock fns pfile s =
     (case pfile of
        None \<Rightarrow> Ret (-1) s
      | Some name \<Rightarrow>
          (case ct_open env C_open_rd False name s of
             (Inl e, s) \<Rightarrow> Ret (-1) s
           | (Inr (fd, i), s) \<Rightarrow>
               let (ret, s) = ct_io env C_read i s; (_, s) = ct_io env C_close i s in
               seq (ct_must clock fns ret ''read(%d, buf, %d)'' [AInt fd, AInt (int BUFSIZ)] s) (\<lambda>_ s. Ret ret s)))"

definition ct_write :: ct_op where
  "ct_write env clock fns pfile s =
     (case pfile of
        None \<Rightarrow> Ret (-1) s
      | Some name \<Rightarrow>
          (case ct_open env C_open_wr False name s of
             (Inl e, s) \<Rightarrow> Ret (-1) s
           | (Inr (fd, i), s) \<Rightarrow>
               let (ret, s) = ct_io env C_write i s; (_, s) = ct_io env C_close i s in
               seq (ct_must clock fns ret ''write(%d, buf, %d)'' [AInt fd, AInt (int (length ''call function do_write()''))] s) (\<lambda>_ s. Ret ret s)))"

text \<open>
  The name of the link: what follows the last slash is replaced, as far as the array has room. Without a slash the pointer
  the name is written to is not one into the array.
\<close>

definition link_name :: "string \<Rightarrow> string option" where
  "link_name pfile =
     (let link_file = take (BUFSIZ - 1) pfile;
          dir = rev (dropWhile (\<lambda>c. c \<noteq> CHR ''/'') (rev link_file))
      in if dir = [] then None else Some (dir @ take (BUFSIZ - length dir - 1) ''link_file''))"

definition do_link :: ct_op where
  "do_link env clock fns pfile s =
     (case pfile of
        None \<Rightarrow> Ret (-1) s
      | Some name \<Rightarrow>
          (case link_name name of
             None \<Rightarrow> Stuck
           | Some link_file \<Rightarrow>
               let (ret, s) = ct_link env name link_file s in
               seq (ct_must clock fns ret ''link(%s, %s)'' [AStr name, AStr link_file] s) (\<lambda>_ s.
               let (_, s) = ct_unlink env link_file s in Ret ret s)))"

definition do_creat :: ct_op where
  "do_creat env clock fns pfile s =
     (case pfile of
        None \<Rightarrow> Ret (-1) s
      | Some name \<Rightarrow>
          let (ret, s) = (case ct_open env C_creat True name s of
              (Inl e, s) \<Rightarrow> (e, s)
            | (Inr (fd, i), s) \<Rightarrow> (0, snd (ct_io env C_close i s)))
          in seq (ct_must clock fns ret ''creat(%s, ALL_MODE)'' [AStr name] s) (\<lambda>_ s. Ret ret s))"

definition do_utime :: ct_op where
  "do_utime env clock fns pfile s =
     (case pfile of
        None \<Rightarrow> Ret (-1) s
      | Some name \<Rightarrow>
          let (ret, s) = ct_named env C_utime name s in
          seq (ct_must clock fns ret ''utime(%s, NULL)'' [AStr name] s) (\<lambda>_ s. Ret ret s))"

definition do_chmod :: ct_op where
  "do_chmod env clock fns pfile s =
     (case pfile of
        None \<Rightarrow> Ret (-1) s
      | Some name \<Rightarrow>
          let (ret, s) = ct_named env C_chmod name s in
          seq (ct_must clock fns ret ''chmod(%s, ALL_MODE)'' [AStr name] s) (\<lambda>_ s. Ret ret s))"

definition do_chown :: ct_op where
  "do_chown env clock fns pfile s =
     (case pfile of
        None \<Rightarrow> Ret (-1) s
      | Some name \<Rightarrow>
          let (ret, s) = ct_named env C_chown name s in
          seq (ct_must clock fns ret ''chown(%s, %d, %d)'' [AStr name, AInt (ce_uid env), AInt (ce_gid env)] s) (\<lambda>_ s. Ret ret s))"

text \<open>The cleanup function hands what \<^verbatim>\<open>unlink\<close> returns to \<^verbatim>\<open>log_must\<close>, which is -1 and not the error.\<close>

definition ct_cleanup :: "ct_env \<Rightarrow> clock \<Rightarrow> (nat \<Rightarrow> ct_state \<Rightarrow> (unit, ct_state) run) \<Rightarrow> ct_state \<Rightarrow> (unit, ct_state) run" where
  "ct_cleanup env clock fns s =
     (if tfile s = [] then Ret () s
      else case ct_access env (tfile s) s of
          (False, s) \<Rightarrow> Ret () s
        | (True, s) \<Rightarrow>
            let (e, s) = ct_unlink env (tfile s) s in
            ct_must clock fns (if e = 0 then 0 else -1) ''unlink(%s)'' [AStr (tfile s)] s)"

text \<open>The function that is registered, when cleanup functions are called at most \<open>n\<close> deep from within another.\<close>

fun ct_fns :: "nat \<Rightarrow> ct_env \<Rightarrow> clock \<Rightarrow> nat \<Rightarrow> ct_state \<Rightarrow> (unit, ct_state) run" where
  "ct_fns 0 env clock k s = Stuck"
| "ct_fns (Suc n) env clock k s = ct_cleanup env clock (ct_fns n env clock) s"

section \<open>The test\<close>

datatype timetest_func = Do_read | Do_write | Do_link | Do_creat | Do_utime | Do_chmod | Do_chown

fun func :: "timetest_func \<Rightarrow> ct_op" where
  "func Do_read = do_read"
| "func Do_write = ct_write"
| "func Do_link = do_link"
| "func Do_creat = do_creat"
| "func Do_utime = do_utime"
| "func Do_chmod = do_chmod"
| "func Do_chown = do_chown"

definition timetest_table :: "(int \<times> string \<times> timetest_func) list" where
  "timetest_table =
     [(ST_ATIME, ''st_atime'', Do_read), (ST_ATIME, ''st_atime'', Do_utime),
      (ST_MTIME, ''st_mtime'', Do_creat), (ST_MTIME, ''st_mtime'', Do_write), (ST_MTIME, ''st_mtime'', Do_utime),
      (ST_CTIME, ''st_ctime'', Do_creat), (ST_CTIME, ''st_ctime'', Do_write), (ST_CTIME, ''st_ctime'', Do_chmod),
      (ST_CTIME, ''st_ctime'', Do_chown), (ST_CTIME, ''st_ctime'', Do_link), (ST_CTIME, ''st_ctime'', Do_utime)]"

text \<open>One time is asked for; a failure ends the test.\<close>

definition ct_time :: "ct_env \<Rightarrow> clock \<Rightarrow> (nat \<Rightarrow> ct_state \<Rightarrow> (unit, ct_state) run) \<Rightarrow> string \<Rightarrow> int \<Rightarrow> ct_state \<Rightarrow> (int, ct_state) run" where
  "ct_time env clock fns fmt what s =
     (case get_file_time env (Some (tfile s)) what s of
        (Some t, s) \<Rightarrow> Ret t s
      | (None, s) \<Rightarrow> seq (ct_must clock fns (-1) fmt [AStr (tfile s), AInt what] s) (\<lambda>_ _. Stuck))"

fun ct_rounds :: "ct_env \<Rightarrow> clock \<Rightarrow> (nat \<Rightarrow> ct_state \<Rightarrow> (unit, ct_state) run) \<Rightarrow> (int \<times> string \<times> timetest_func) list \<Rightarrow> ct_state \<Rightarrow> (unit, ct_state) run" where
  "ct_rounds env clock fns [] s = Ret () s"
| "ct_rounds env clock fns ((what, name, f) # tests) s =
     seq (ct_time env clock fns ''get_file_time(%s, %d, &t1)'' what s) (\<lambda>t1 s.
     seq (func f env clock fns (Some (tfile s)) (ct_sleep env s)) (\<lambda>_ s.
     seq (ct_time env clock fns ''get_file_time(%s, %d, &t2)'' what s) (\<lambda>t2 s.
     seq (if t1 = t2 then ct_must clock fns (-1) ''%s: t1(%ld) == t2(%ld)'' [AStr name, AInt t1, AInt t2] s
          else ct_must clock fns 0 ''%s: t1(%ld) != t2(%ld)'' [AStr name, AInt t1, AInt t2] s) (\<lambda>_ s.
     ct_rounds env clock fns tests s))))"

text \<open>The file is made anew before the rounds.\<close>

definition ct_prepare :: "ct_env \<Rightarrow> clock \<Rightarrow> (nat \<Rightarrow> ct_state \<Rightarrow> (unit, ct_state) run) \<Rightarrow> ct_state \<Rightarrow> (unit, ct_state) run" where
  "ct_prepare env clock fns s =
     (let (there, s) = ct_access env (tfile s) s;
          s = (if there then snd (ct_unlink env (tfile s) s) else s);
          (ret, s) = (case ct_open env C_open_new True (tfile s) s of
              (Inl e, s) \<Rightarrow> (e, s)
            | (Inr (fd, i), s) \<Rightarrow> (0, snd (ct_io env C_close i s)))
      in ct_must clock fns ret ''open(%s, O_WRONLY | O_CREAT | O_TRUNC, ALL_MODE)'' [AStr (tfile s)] s)"

definition ct_getenv :: "ct_env \<Rightarrow> clock \<Rightarrow> (nat \<Rightarrow> ct_state \<Rightarrow> (unit, ct_state) run) \<Rightarrow> string \<Rightarrow> ct_state \<Rightarrow> (string, ct_state) run" where
  "ct_getenv env clock fns name s =
     (case ce_getenv env name of
        Some v \<Rightarrow> Ret v s
      | None \<Rightarrow> seq (log_must clock fns (-1) ''getenv(penv[i])'' s) (\<lambda>_ _. Stuck))"

definition ct_main :: "nat \<Rightarrow> ct_env \<Rightarrow> clock \<Rightarrow> ct_state \<Rightarrow> (unit, ct_state) run" where
  "ct_main n env clock s =
     (let fns = ct_fns n env clock in
      seq (log_assert clock ''Verify access time will be changed when file datawas last accessed.'' s) (\<lambda>_ s.
      let s = log_onexit (Some 0) s in
      seq (ct_getenv env clock fns ''TESTDIR'' s) (\<lambda>dir s.
      seq (ct_getenv env clock fns ''TESTFILE'' s) (\<lambda>file s.
      case snprintf BUFSIZ ''%s/%s'' [AStr dir, AStr file] of
        None \<Rightarrow> Stuck
      | Some (_, t) \<Rightarrow>
          seq (ct_prepare env clock fns (s\<lparr>tfile := t\<rparr>)) (\<lambda>_ s.
          seq (ct_rounds env clock fns timetest_table s) (\<lambda>_ s.
          let (_, s) = ct_unlink env (tfile s) s in
          log_pass clock fns (Some ''Verify access time will be changed passed.'') s))))))"

end
