(* ===== verification/Ctime_Spec.thy ===== *)
theory Ctime_Spec
  imports Ctime Log_Spec
begin

text \<open>
  What the verdict of the test \<^verbatim>\<open>ctime_001_pos\<close> means: where no call fails, it passes exactly on a file system that sets every
  time it asks for, and it leaves no file behind.
\<close>

section \<open>Calls that succeed\<close>

definition ct_calm :: "ct_env \<Rightarrow> bool" where
  "ct_calm env \<longleftrightarrow> (\<forall>c t. 0 \<le> ce_ret env c t) \<and> (\<forall>t. 0 < ce_nap env t)"

definition marks :: "ct_env \<Rightarrow> syscall list \<Rightarrow> int \<Rightarrow> bool" where
  "marks env cs k \<longleftrightarrow> (\<exists>c \<in> set cs. ce_marks env c k)"

text \<open>Time goes on, and the calls \<open>cs\<close> have been made on file \<open>i\<close>.\<close>

definition moved :: "ct_env \<Rightarrow> nat \<Rightarrow> syscall list \<Rightarrow> ct_state \<Rightarrow> ct_state \<Rightarrow> bool" where
  "moved env i cs s s' \<longleftrightarrow> cleanup_function s' = cleanup_function s \<and> tfile s' = tfile s \<and> ct_now s \<le> ct_now s' \<and>
     (\<forall>k. if marks env cs k then ct_now s \<le> ct_times s' i k \<and> ct_times s' i k \<le> ct_now s' else ct_times s' i k = ct_times s i k)"

lemma moved_trans:
  assumes "moved env i cs s s'" "moved env i ds s' s''"
  shows "moved env i (cs @ ds) s s''"
proof -
  have m: "marks env (cs @ ds) k \<longleftrightarrow> marks env cs k \<or> marks env ds k" for k by (auto simp: marks_def)
  have "if marks env (cs @ ds) k then ct_now s \<le> ct_times s'' i k \<and> ct_times s'' i k \<le> ct_now s'' else ct_times s'' i k = ct_times s i k" for k
  proof -
    have "if marks env cs k then ct_now s \<le> ct_times s' i k \<and> ct_times s' i k \<le> ct_now s' else ct_times s' i k = ct_times s i k"
      "if marks env ds k then ct_now s' \<le> ct_times s'' i k \<and> ct_times s'' i k \<le> ct_now s'' else ct_times s'' i k = ct_times s' i k"
      "ct_now s \<le> ct_now s'" "ct_now s' \<le> ct_now s''" using assms by (simp_all add: moved_def)
    then show ?thesis using m [of k] by (auto split: if_splits)
  qed
  then show ?thesis using assms by (simp add: moved_def)
qed

lemma moved_emit: "moved env i [] s (emit clock ls s)"
  by (simp add: moved_def marks_def emit_def)

lemma emit_dir [simp]: "ct_dir (emit clock ls s) = ct_dir s" "tfile (emit clock ls s) = tfile s"
  by (simp_all add: emit_def)

lemma ct_io_ok:
  assumes "ct_calm env"
  obtains s' where "ct_io env c i s = (0, s')" "moved env i [c] s s'" "ct_dir s' = ct_dir s"
  using assms by (auto simp: ct_io_def Let_def ct_calm_def not_less moved_def marks_def ct_mark_def ct_enter_def)

lemma ct_open_ok:
  assumes "ct_calm env" "ct_dir s name = Some i"
  obtains r s' where "ct_open env c creat name s = (Inr (r, i), s')" "moved env i [c] s s'" "ct_dir s' = ct_dir s"
  using assms by (auto simp: ct_open_def Let_def ct_calm_def not_less moved_def marks_def ct_mark_def ct_enter_def)

lemma ct_named_ok:
  assumes "ct_calm env" "ct_dir s name = Some i"
  obtains s' where "ct_named env c name s = (0, s')" "moved env i [c] s s'" "ct_dir s' = ct_dir s"
  using assms by (auto simp: ct_named_def Let_def ct_calm_def not_less moved_def marks_def ct_mark_def ct_enter_def)

lemma ct_unlink_ok:
  assumes "ct_calm env" "ct_dir s name = Some i"
  obtains s' where "ct_unlink env name s = (0, s')" "moved env i [C_unlink] s s'" "ct_dir s' = (ct_dir s)(name := None)"
proof -
  obtain s' where s': "ct_named env C_unlink name s = (0, s')" "moved env i [C_unlink] s s'" "ct_dir s' = ct_dir s"
    by (rule ct_named_ok [OF assms])
  then have "moved env i [C_unlink] s (s'\<lparr>ct_dir := (ct_dir s)(name := None)\<rparr>)" by (simp add: moved_def)
  then show thesis using s' by (intro that [of "s'\<lparr>ct_dir := (ct_dir s)(name := None)\<rparr>"]) (simp_all add: ct_unlink_def)
qed

lemma ct_link_ok:
  assumes "ct_calm env" "ct_dir s old = Some i" "ct_dir s new = None"
  obtains s' where "ct_link env old new s = (0, s')" "moved env i [C_link] s s'" "ct_dir s' = (ct_dir s)(new \<mapsto> i)"
  using assms by (auto simp: ct_link_def Let_def ct_calm_def not_less moved_def marks_def ct_mark_def ct_enter_def)

lemma ct_access_ok:
  assumes "ct_calm env"
  obtains s' where "ct_access env name s = (ct_dir s name \<noteq> None, s')" "\<And>i. moved env i [] s s'" "ct_dir s' = ct_dir s" "ct_next s' = ct_next s"
proof (rule that)
  show "ct_access env name s = (ct_dir s name \<noteq> None, ct_enter env s)" using assms by (simp add: ct_access_def Let_def ct_calm_def ct_enter_def)
qed (simp_all add: ct_enter_def moved_def marks_def)

lemma ct_must_ok:
  assumes "clock_ok clock" "format fmt args \<noteq> None"
  obtains s' where "ct_must clock fns 0 fmt args s = Ret () s'" "moved env i [] s s'" "ct_dir s' = ct_dir s"
proof (rule that)
  let ?s = "emit clock [labelled LBL_SUCCESS (take (BUFSIZ - 1) (the (format fmt args)))] s"
  show "ct_must clock fns 0 fmt args s = Ret () ?s"
    using assms by (auto simp: ct_must_def snprintf_Some log_must_def log_pos_def printmsg_emit)
  show "moved env i [] s ?s" by (rule moved_emit)
qed simp

section \<open>One operation\<close>

fun calls_of :: "timetest_func \<Rightarrow> syscall list" where
  "calls_of Do_read = [C_open_rd, C_read, C_close]"
| "calls_of Do_write = [C_open_wr, C_write, C_close]"
| "calls_of Do_link = [C_link, C_unlink]"
| "calls_of Do_creat = [C_creat, C_close]"
| "calls_of Do_utime = [C_utime]"
| "calls_of Do_chmod = [C_chmod]"
| "calls_of Do_chown = [C_chown]"

lemmas ct_ops = do_read_def ct_write_def do_link_def do_creat_def do_utime_def do_chmod_def do_chown_def

text \<open>The operations on an open file, those on a name, and the link.\<close>

lemma fd_calls:
  assumes env: "ct_calm env" "clock_ok clock" and dir: "ct_dir s t = Some i" and f: "\<And>r. format fmt (g r) \<noteq> None"
  obtains r s1 s2 s3 s' where "ct_open env c b t s = (Inr (r, i), s1)" "ct_io env d i s1 = (0, s2)" "ct_io env C_close i s2 = (0, s3)"
    "ct_must clock fns 0 fmt (g r) s3 = Ret () s'" "moved env i [c, d, C_close] s s'" "ct_dir s' = ct_dir s"
proof -
  obtain r s1 where 1: "ct_open env c b t s = (Inr (r, i), s1)" "moved env i [c] s s1" "ct_dir s1 = ct_dir s" by (rule ct_open_ok [OF env(1) dir])
  obtain s2 where 2: "ct_io env d i s1 = (0, s2)" "moved env i [d] s1 s2" "ct_dir s2 = ct_dir s1" by (rule ct_io_ok [OF env(1)])
  obtain s3 where 3: "ct_io env C_close i s2 = (0, s3)" "moved env i [C_close] s2 s3" "ct_dir s3 = ct_dir s2" by (rule ct_io_ok [OF env(1)])
  obtain s' where 4: "ct_must clock fns 0 fmt (g r) s3 = Ret () s'" "moved env i [] s3 s'" "ct_dir s' = ct_dir s3" by (rule ct_must_ok [OF env(2) f])
  show thesis using that [OF 1(1) 2(1) 3(1) 4(1)] moved_trans [OF moved_trans [OF moved_trans [OF 1(2) 2(2)] 3(2)] 4(2)] 1(3) 2(3) 3(3) 4(3) by simp
qed

lemma creat_calls:
  assumes env: "ct_calm env" "clock_ok clock" and dir: "ct_dir s t = Some i"
  obtains s' where "do_creat env clock fns (Some t) s = Ret 0 s'" "moved env i [C_creat, C_close] s s'" "ct_dir s' = ct_dir s"
proof -
  obtain r s1 where 1: "ct_open env C_creat True t s = (Inr (r, i), s1)" "moved env i [C_creat] s s1" "ct_dir s1 = ct_dir s" by (rule ct_open_ok [OF env(1) dir])
  obtain s2 where 2: "ct_io env C_close i s1 = (0, s2)" "moved env i [C_close] s1 s2" "ct_dir s2 = ct_dir s1" by (rule ct_io_ok [OF env(1)])
  have f: "format ''creat(%s, ALL_MODE)'' [AStr t] \<noteq> None" by (simp add: fmt)
  obtain s' where 3: "ct_must clock fns 0 ''creat(%s, ALL_MODE)'' [AStr t] s2 = Ret () s'" "moved env i [] s2 s'" "ct_dir s' = ct_dir s2"
    by (rule ct_must_ok [OF env(2) f])
  show thesis using moved_trans [OF moved_trans [OF 1(2) 2(2)] 3(2)] 1(1,3) 2(1,3) 3(1,3) by (intro that [of s']) (simp_all add: do_creat_def)
qed

lemma name_calls:
  assumes env: "ct_calm env" "clock_ok clock" and dir: "ct_dir s t = Some i" and f: "format fmt args \<noteq> None"
  obtains s1 s' where "ct_named env c t s = (0, s1)" "ct_must clock fns 0 fmt args s1 = Ret () s'" "moved env i [c] s s'" "ct_dir s' = ct_dir s"
proof -
  obtain s1 where 1: "ct_named env c t s = (0, s1)" "moved env i [c] s s1" "ct_dir s1 = ct_dir s" by (rule ct_named_ok [OF env(1) dir])
  obtain s' where 2: "ct_must clock fns 0 fmt args s1 = Ret () s'" "moved env i [] s1 s'" "ct_dir s' = ct_dir s1" by (rule ct_must_ok [OF env(2) f])
  show thesis using that [OF 1(1) 2(1)] moved_trans [OF 1(2) 2(2)] 1(3) 2(3) by simp
qed

lemma link_calls:
  assumes env: "ct_calm env" "clock_ok clock" and dir: "ct_dir s t = Some i" and l: "link_name t = Some l" "ct_dir s l = None"
  obtains s' where "do_link env clock fns (Some t) s = Ret 0 s'" "moved env i [C_link, C_unlink] s s'" "ct_dir s' = ct_dir s"
proof -
  obtain s1 where 1: "ct_link env t l s = (0, s1)" "moved env i [C_link] s s1" "ct_dir s1 = (ct_dir s)(l \<mapsto> i)" by (rule ct_link_ok [OF env(1) dir l(2)])
  have f: "format ''link(%s, %s)'' [AStr t, AStr l] \<noteq> None" by (simp add: fmt)
  obtain s2 where 2: "ct_must clock fns 0 ''link(%s, %s)'' [AStr t, AStr l] s1 = Ret () s2" "moved env i [] s1 s2" "ct_dir s2 = ct_dir s1"
    by (rule ct_must_ok [OF env(2) f])
  have "ct_dir s2 l = Some i" using 1(3) 2(3) by simp
  then obtain s' where 3: "ct_unlink env l s2 = (0, s')" "moved env i [C_unlink] s2 s'" "ct_dir s' = (ct_dir s2)(l := None)" by (rule ct_unlink_ok [OF env(1)])
  have "ct_dir s' = ct_dir s" using 1(3) 2(3) 3(3) l(2) by auto
  then show thesis using moved_trans [OF moved_trans [OF 1(2) 2(2)] 3(2)] 1(1) 2(1) 3(1) by (intro that [of s']) (simp_all add: do_link_def l(1))
qed

lemma func_ok:
  assumes env: "ct_calm env" "clock_ok clock" and dir: "ct_dir s t = Some i" and l: "link_name t = Some l" "ct_dir s l = None"
  obtains s' where "func f env clock fns (Some t) s = Ret 0 s'" "moved env i (calls_of f) s s'" "ct_dir s' = ct_dir s"
proof (cases f)
  case Do_read
  have "format ''read(%d, buf, %d)'' [AInt r, AInt (int BUFSIZ)] \<noteq> None" for r by (simp add: fmt)
  then show thesis
    by (rule fd_calls [OF env dir, where g = "\<lambda>r. [AInt r, AInt (int BUFSIZ)]" and c = C_open_rd and b = False and d = C_read and fns = fns]) (auto intro: that simp: Do_read do_read_def)
next
  case Do_write
  have "format ''write(%d, buf, %d)'' [AInt r, AInt (int (length ''call function do_write()''))] \<noteq> None" for r by (simp add: fmt)
  then show thesis
    by (rule fd_calls [OF env dir, where g = "\<lambda>r. [AInt r, AInt (int (length ''call function do_write()''))]" and c = C_open_wr and b = False and d = C_write and fns = fns]) (auto intro: that simp: Do_write ct_write_def)
next
  case Do_link
  then show thesis using link_calls [OF env dir l] that by (metis calls_of.simps(3) func.simps(3))
next
  case Do_creat
  then show thesis using creat_calls [OF env dir] that by (metis calls_of.simps(4) func.simps(4))
next
  case Do_utime
  have "format ''utime(%s, NULL)'' [AStr t] \<noteq> None" by (simp add: fmt)
  then show thesis by (rule name_calls [OF env dir, where c = C_utime and fns = fns]) (auto intro: that simp: Do_utime do_utime_def)
next
  case Do_chmod
  have "format ''chmod(%s, ALL_MODE)'' [AStr t] \<noteq> None" by (simp add: fmt)
  then show thesis by (rule name_calls [OF env dir, where c = C_chmod and fns = fns]) (auto intro: that simp: Do_chmod do_chmod_def)
next
  case Do_chown
  have "format ''chown(%s, %d, %d)'' [AStr t, AInt (ce_uid env), AInt (ce_gid env)] \<noteq> None" by (simp add: fmt)
  then show thesis by (rule name_calls [OF env dir, where c = C_chown and fns = fns]) (auto intro: that simp: Do_chown do_chown_def)
qed

section \<open>The end of the test\<close>

text \<open>The cleanup function removes the file if it is there.\<close>

lemma ct_cleanup_ok:
  assumes env: "ct_calm env" "clock_ok clock" and t: "tfile s \<noteq> []"
  obtains s' where "ct_cleanup env clock fns s = Ret () s'" "ct_dir s' = (ct_dir s)(tfile s := None)"
proof -
  obtain s1 where 1: "ct_access env (tfile s) s = (ct_dir s (tfile s) \<noteq> None, s1)" "\<And>i. moved env i [] s s1" "ct_dir s1 = ct_dir s"
    using ct_access_ok [OF env(1)] by metis
  have t1: "tfile s1 = tfile s" using 1(2) by (simp add: moved_def)
  show thesis
  proof (cases "ct_dir s (tfile s)")
    case None
    then show thesis using 1 t by (intro that [of s1]) (auto simp: ct_cleanup_def)
  next
    case (Some i)
    obtain s2 where 2: "ct_unlink env (tfile s) s1 = (0, s2)" "moved env i [C_unlink] s1 s2" "ct_dir s2 = (ct_dir s1)(tfile s := None)"
      by (rule ct_unlink_ok [OF env(1), of s1 "tfile s" i]) (use Some 1(3) in simp)
    have f: "format ''unlink(%s)'' [AStr (tfile s)] \<noteq> None" by (simp add: fmt)
    obtain s' where 3: "ct_must clock fns 0 ''unlink(%s)'' [AStr (tfile s)] s2 = Ret () s'" "ct_dir s' = ct_dir s2"
      by (rule ct_must_ok [OF env(2) f])
    have "tfile s2 = tfile s" using 2(2) t1 by (simp add: moved_def)
    then show thesis using 1 2 3 t t1 Some by (intro that [of s']) (simp_all add: ct_cleanup_def)
  qed
qed

lemma ct_ends:
  assumes env: "ct_calm env" "clock_ok clock" and s: "cleanup_function s = Some k" "tfile s \<noteq> []"
  obtains s' where "endlog clock (ct_fns (Suc n) env clock) rc m s = Exit rc s'" "ct_dir s' = (ct_dir s)(tfile s := None)"
proof -
  let ?s = "emit clock [''NOTE: Performing local cleanup''] s\<lparr>cleanup_function := None\<rparr>"
  obtain s' where "ct_cleanup env clock (ct_fns n env clock) ?s = Ret () s'" "ct_dir s' = (ct_dir ?s)(tfile ?s := None)"
    by (rule ct_cleanup_ok [OF env, of ?s]) (use s(2) in simp)
  then show thesis using s by (intro that [of "emit clock (message m) s'"]) (simp_all add: endlog_cleanup [OF env(2)])
qed

lemma ct_must_fails:
  assumes env: "ct_calm env" "clock_ok clock" and f: "format fmt args \<noteq> None" and s: "cleanup_function s = Some k" "tfile s \<noteq> []"
  obtains s' where "ct_must clock (ct_fns (Suc n) env clock) (-1) fmt args s = Exit STF_FAIL s'" "ct_dir s' = (ct_dir s)(tfile s := None)"
proof -
  let ?s = "emit clock [labelled LBL_ERROR (take (BUFSIZ - 1) (the (format fmt args)))] s"
  obtain s' where "endlog clock (ct_fns (Suc n) env clock) STF_FAIL None ?s = Exit STF_FAIL s'" "ct_dir s' = (ct_dir ?s)(tfile ?s := None)"
    by (rule ct_ends [OF env, of ?s k]) (use s in simp_all)
  moreover have "ct_must clock (ct_fns (Suc n) env clock) (-1) fmt args s = endlog clock (ct_fns (Suc n) env clock) STF_FAIL None ?s"
    using f by (auto simp: ct_must_def snprintf_Some log_must_def log_pos_def log_fail_def printmsg_emit [OF env(2)])
  ultimately show thesis by (intro that [of s']) simp_all
qed

section \<open>The rounds\<close>

definition ct_ready :: "string \<Rightarrow> nat \<Rightarrow> ct_state \<Rightarrow> bool" where
  "ct_ready l i s \<longleftrightarrow> cleanup_function s = Some 0 \<and> tfile s \<noteq> [] \<and> ct_dir s (tfile s) = Some i \<and> link_name (tfile s) = Some l \<and>
     ct_dir s l = None \<and> (\<forall>k. ct_times s i k \<le> ct_now s)"

lemma ct_ready_moved:
  assumes "ct_ready l i s" "moved env i cs s s'" "ct_dir s' = ct_dir s"
  shows "ct_ready l i s'"
proof -
  have "ct_times s' i k \<le> ct_now s'" for k
  proof -
    have "ct_times s i k \<le> ct_now s" "ct_now s \<le> ct_now s'" using assms(1,2) by (simp_all add: ct_ready_def moved_def)
    moreover have "marks env cs k \<and> ct_times s' i k \<le> ct_now s' \<or> ct_times s' i k = ct_times s i k"
      using assms(2) by (auto simp: moved_def split: if_splits)
    ultimately show ?thesis by auto
  qed
  then show ?thesis using assms by (simp add: ct_ready_def moved_def)
qed

lemma ct_time_ok:
  assumes "ct_calm env" "ct_ready l i s" "what \<in> {ST_ATIME, ST_CTIME, ST_MTIME}"
  obtains s' where "ct_time env clock fns fmt what s = Ret (ct_times s i what) s'" "moved env i [] s s'" "ct_dir s' = ct_dir s"
proof (rule that)
  show "ct_time env clock fns fmt what s = Ret (ct_times s i what) (ct_enter env s)"
  proof -
    have "\<not> ce_ret env C_stat (ct_tick s) < 0" "ct_dir s (tfile s) = Some i" using assms(1,2) by (simp_all add: ct_calm_def ct_ready_def not_less)
    then show ?thesis using assms(3) by (elim insertE emptyE) (simp_all add: ct_time_def get_file_time_def ct_enter_def Let_def ST_ATIME_def ST_CTIME_def ST_MTIME_def)
  qed
qed (simp_all add: ct_enter_def moved_def marks_def)

text \<open>A time that was set before the nap differs from one that is set after it.\<close>

lemma ct_round_ok:
  assumes env: "ct_calm env" "clock_ok clock" and rd: "ct_ready l i s" and what: "what \<in> {ST_ATIME, ST_CTIME, ST_MTIME}"
  obtains s1 s2 s3 t1 t2 where "ct_time env clock fns x what s = Ret t1 s1" "func f env clock fns (Some (tfile s1)) (ct_sleep env s1) = Ret 0 s2"
    "ct_time env clock fns y what s2 = Ret t2 s3" "t1 = t2 \<longleftrightarrow> \<not> marks env (calls_of f) what" "ct_ready l i s3" "ct_dir s3 = ct_dir s" "tfile s3 = tfile s"
proof -
  obtain s1 where 1: "ct_time env clock fns x what s = Ret (ct_times s i what) s1" "moved env i [] s s1" "ct_dir s1 = ct_dir s"
    by (rule ct_time_ok [OF env(1) rd what])
  have rd1: "ct_ready l i s1" by (rule ct_ready_moved [OF rd 1(2,3)])
  let ?n = "ct_sleep env s1"
  have nap: "ct_now s1 < ct_now ?n" "ct_dir ?n = ct_dir s1" "tfile ?n = tfile s1" "cleanup_function ?n = cleanup_function s1" "ct_times ?n = ct_times s1"
    using env(1) by (simp_all add: ct_sleep_def ct_calm_def)
  then have rdn: "ct_ready l i ?n" using rd1 by (auto simp: ct_ready_def intro: order_trans less_imp_le)
  then have d: "ct_dir ?n (tfile s1) = Some i" "link_name (tfile s1) = Some l" "ct_dir ?n l = None" using nap(3) by (simp_all add: ct_ready_def)
  obtain s2 where 2: "func f env clock fns (Some (tfile s1)) ?n = Ret 0 s2" "moved env i (calls_of f) ?n s2" "ct_dir s2 = ct_dir ?n"
    by (rule func_ok [OF env d])
  have rd2: "ct_ready l i s2" by (rule ct_ready_moved [OF rdn 2(2,3)])
  obtain s3 where 3: "ct_time env clock fns y what s2 = Ret (ct_times s2 i what) s3" "moved env i [] s2 s3" "ct_dir s3 = ct_dir s2"
    by (rule ct_time_ok [OF env(1) rd2 what])
  have rd3: "ct_ready l i s3" by (rule ct_ready_moved [OF rd2 3(2,3)])
  have t1: "ct_times s i what = ct_times ?n i what" using 1(2) nap(5) by (simp add: moved_def marks_def)
  have "ct_times s1 i what \<le> ct_now s1" using rd1 by (simp add: ct_ready_def)
  then have lt: "ct_times ?n i what < ct_now ?n" using nap(1,5) by simp
  have "if marks env (calls_of f) what then ct_now ?n \<le> ct_times s2 i what else ct_times s2 i what = ct_times ?n i what"
    using 2(2) by (auto simp: moved_def split: if_splits)
  then have eq: "ct_times s i what = ct_times s2 i what \<longleftrightarrow> \<not> marks env (calls_of f) what" using lt t1 by (auto split: if_splits)
  have "tfile s3 = tfile s" using 1(2) 2(2) 3(2) nap(3) by (simp add: moved_def)
  then show thesis using that [OF 1(1) 2(1) 3(1) eq rd3] 1(3) 2(3) 3(3) nap(2) by simp
qed

text \<open>The file system sets the time each test of a table asks for.\<close>

fun sets_times :: "ct_env \<Rightarrow> (int \<times> string \<times> timetest_func) list \<Rightarrow> bool" where
  "sets_times env [] = True"
| "sets_times env ((what, name, f) # tests) = (marks env (calls_of f) what \<and> sets_times env tests)"

lemma ct_rounds_ok:
  assumes env: "ct_calm env" "clock_ok clock" and rd: "ct_ready l i s"
    and tests: "\<forall>(what, name, f) \<in> set tests. what \<in> {ST_ATIME, ST_CTIME, ST_MTIME}"
  shows "\<exists>s'. if sets_times env tests
    then ct_rounds env clock (ct_fns (Suc n) env clock) tests s = Ret () s' \<and> ct_ready l i s' \<and> ct_dir s' = ct_dir s \<and> tfile s' = tfile s
    else ct_rounds env clock (ct_fns (Suc n) env clock) tests s = Exit STF_FAIL s' \<and> ct_dir s' = (ct_dir s)(tfile s := None)"
  using rd tests
proof (induction tests arbitrary: s)
  case (Cons test tests)
  obtain what name f where test: "test = (what, name, f)" by (cases test)
  let ?fns = "ct_fns (Suc n) env clock"
  have what: "what \<in> {ST_ATIME, ST_CTIME, ST_MTIME}" using Cons.prems(2) test by simp
  obtain s1 s2 s3 t1 t2 where r: "ct_time env clock ?fns ''get_file_time(%s, %d, &t1)'' what s = Ret t1 s1"
      "func f env clock ?fns (Some (tfile s1)) (ct_sleep env s1) = Ret 0 s2" "ct_time env clock ?fns ''get_file_time(%s, %d, &t2)'' what s2 = Ret t2 s3"
    and eq: "t1 = t2 \<longleftrightarrow> \<not> marks env (calls_of f) what" and rd3: "ct_ready l i s3" and d3: "ct_dir s3 = ct_dir s" "tfile s3 = tfile s"
    by (rule ct_round_ok [OF env Cons.prems(1) what])
  show ?case
  proof (cases "marks env (calls_of f) what")
    case False
    have fm: "format ''%s: t1(%ld) == t2(%ld)'' [AStr name, AInt t1, AInt t2] \<noteq> None" by (simp add: fmt)
    obtain s' where "ct_must clock ?fns (-1) ''%s: t1(%ld) == t2(%ld)'' [AStr name, AInt t1, AInt t2] s3 = Exit STF_FAIL s'"
        "ct_dir s' = (ct_dir s3)(tfile s3 := None)"
      by (rule ct_must_fails [OF env fm, of s3 0]) (use rd3 in \<open>simp_all add: ct_ready_def\<close>)
    then show ?thesis using False r eq d3 by (auto simp: test)
  next
    case True
    have fm: "format ''%s: t1(%ld) != t2(%ld)'' [AStr name, AInt t1, AInt t2] \<noteq> None" by (simp add: fmt)
    obtain s4 where 4: "ct_must clock ?fns 0 ''%s: t1(%ld) != t2(%ld)'' [AStr name, AInt t1, AInt t2] s3 = Ret () s4" "moved env i [] s3 s4" "ct_dir s4 = ct_dir s3"
      by (rule ct_must_ok [OF env(2) fm])
    have "tfile s4 = tfile s" "ct_dir s4 = ct_dir s" using 4(2,3) d3 by (simp_all add: moved_def)
    moreover have "ct_rounds env clock ?fns (test # tests) s = ct_rounds env clock ?fns tests s4" using True r eq 4(1) by (simp add: test)
    ultimately show ?thesis using Cons.IH [OF ct_ready_moved [OF rd3 4(2,3)]] Cons.prems(2) True
      by (cases "sets_times env tests") (simp_all add: test del: ct_rounds.simps)
  qed
qed simp

section \<open>The whole test\<close>

lemma ct_prepare_ok:
  assumes env: "ct_calm env" "clock_ok clock" and s: "cleanup_function s = Some 0" "link_name (tfile s) = Some l" "l \<noteq> tfile s" "ct_dir s l = None" "tfile s \<noteq> []"
  obtains i s' where "ct_prepare env clock fns s = Ret () s'" "ct_ready l i s'" "ct_dir s' = (ct_dir s)(tfile s \<mapsto> i)" "tfile s' = tfile s"
proof -
  let ?t = "tfile s"
  obtain s1 where 1: "ct_access env ?t s = (ct_dir s ?t \<noteq> None, s1)" "\<And>i. moved env i [] s s1" "ct_dir s1 = ct_dir s"
    using ct_access_ok [OF env(1)] by metis
  define s2 where "s2 = (if ct_dir s ?t \<noteq> None then snd (ct_unlink env ?t s1) else s1)"
  have 2: "ct_dir s2 = (ct_dir s)(?t := None)" "tfile s2 = ?t" "cleanup_function s2 = Some 0"
  proof -
    have m: "tfile s1 = ?t" "cleanup_function s1 = Some 0" using 1(2) s(1) by (simp_all add: moved_def)
    have "ct_dir s2 = (ct_dir s)(?t := None) \<and> tfile s2 = ?t \<and> cleanup_function s2 = Some 0"
    proof (cases "ct_dir s ?t")
      case None
      then show ?thesis using 1(3) m by (auto simp: s2_def)
    next
      case (Some j)
      obtain s' where "ct_unlink env ?t s1 = (0, s')" "moved env j [C_unlink] s1 s'" "ct_dir s' = (ct_dir s1)(?t := None)"
        by (rule ct_unlink_ok [OF env(1), of s1 ?t j]) (use Some 1(3) in simp)
      then show ?thesis using Some 1(3) m by (simp add: s2_def moved_def)
    qed
    then show "ct_dir s2 = (ct_dir s)(?t := None)" "tfile s2 = ?t" "cleanup_function s2 = Some 0" by simp_all
  qed
  define i where "i = ct_next s2"
  define s3 where "s3 = (ct_enter env s2)\<lparr>ct_dir := (ct_dir s2)(?t \<mapsto> i), ct_times := (ct_times s2)(i := \<lambda>_. ct_now (ct_enter env s2)), ct_next := Suc i\<rparr>"
  have 3: "ct_open env C_open_new True ?t s2 = (Inr (ce_ret env C_open_new (ct_tick s2), i), s3)"
    using env(1) 2(1) by (simp add: ct_open_def Let_def ct_calm_def not_less s3_def i_def ct_enter_def)
  have rd3: "ct_ready l i s3" using 2 s by (simp add: ct_ready_def s3_def ct_enter_def)
  obtain s4 where 4: "ct_io env C_close i s3 = (0, s4)" "moved env i [C_close] s3 s4" "ct_dir s4 = ct_dir s3" by (rule ct_io_ok [OF env(1)])
  have f: "format ''open(%s, O_WRONLY | O_CREAT | O_TRUNC, ALL_MODE)'' [AStr ?t] \<noteq> None" by (simp add: fmt)
  obtain s5 where 5: "ct_must clock fns 0 ''open(%s, O_WRONLY | O_CREAT | O_TRUNC, ALL_MODE)'' [AStr ?t] s4 = Ret () s5" "moved env i [] s4 s5" "ct_dir s5 = ct_dir s4"
    by (rule ct_must_ok [OF env(2) f])
  have t4: "tfile s4 = ?t" "tfile s5 = ?t" "tfile s1 = ?t" using 1(2) 4(2) 5(2) 2(2) by (simp_all add: moved_def s3_def ct_enter_def)
  show thesis
  proof (rule that [of s5 i])
    show "ct_prepare env clock fns s = Ret () s5"
      unfolding ct_prepare_def 1(1) Let_def prod.case t4(3) s2_def [symmetric] 2(2) 3 sum.case 4(1) snd_conv t4(1) by (rule 5(1))
    show "ct_ready l i s5" by (rule ct_ready_moved [OF ct_ready_moved [OF rd3 4(2,3)] 5(2,3)])
    show "ct_dir s5 = (ct_dir s)(?t \<mapsto> i)" using 4(3) 5(3) 2(1) by (simp add: s3_def)
  qed (rule t4(2))
qed

lemma table_times: "\<forall>(what, name, f) \<in> set timetest_table. what \<in> {ST_ATIME, ST_CTIME, ST_MTIME}"
  by (simp add: timetest_table_def)

text \<open>
  C34. Where no call fails and the clock moves on while the test sleeps, \<^verbatim>\<open>ctime_001_pos\<close> ends: with PASS on a file system
  on which every operation of its table sets the time it is tested for, with FAIL on every other one. The test file, and
  the link it makes, are gone in both cases; no other name has changed.
\<close>

theorem ctime_decides:
  assumes "ct_calm env" "clock_ok clock" "ce_getenv env ''TESTDIR'' = Some d" "ce_getenv env ''TESTFILE'' = Some f"
    and "t = take (BUFSIZ - 1) (d @ ''/'' @ f)" "link_name t = Some l" "l \<noteq> t" "ct_dir s l = None"
  shows "\<exists>s'. ct_main (Suc n) env clock s =
      Exit (if sets_times env timetest_table then STF_PASS else STF_FAIL) s' \<and>
    ct_dir s' = (ct_dir s)(t := None)"
proof -
  let ?fns = "ct_fns (Suc n) env clock" and ?P = "sets_times env timetest_table"
  have t: "t \<noteq> []" using assms(6) by (auto simp: link_name_def)
  define s0 where "s0 = (emit clock [labelled LBL_ASSERTION ''Verify access time will be changed when file datawas last accessed.''] s)
    \<lparr>cleanup_function := Some 0, tfile := t\<rparr>"
  have 0: "cleanup_function s0 = Some 0" "tfile s0 = t" "ct_dir s0 = ct_dir s" by (simp_all add: s0_def)
  obtain i s1 where 1: "ct_prepare env clock ?fns s0 = Ret () s1" "ct_ready l i s1" "ct_dir s1 = (ct_dir s)(t \<mapsto> i)" "tfile s1 = t"
    by (rule ct_prepare_ok [OF assms(1,2), of s0 l]) (use 0 assms(6-8) t in simp_all)
  obtain s2 where 2: "if ?P then ct_rounds env clock ?fns timetest_table s1 = Ret () s2 \<and> ct_ready l i s2 \<and> ct_dir s2 = ct_dir s1 \<and> tfile s2 = tfile s1
      else ct_rounds env clock ?fns timetest_table s1 = Exit STF_FAIL s2 \<and> ct_dir s2 = (ct_dir s1)(tfile s1 := None)"
    using ct_rounds_ok [OF assms(1,2) 1(2) table_times] by blast
  have fm: "format ''%s/%s'' [AStr d, AStr f] = Some (d @ ''/'' @ f)" by (simp add: fmt)
  obtain r where sn: "snprintf BUFSIZ ''%s/%s'' [AStr d, AStr f] = Some (r, t)" using snprintf_Some [OF fm, of BUFSIZ] assms(5) by metis
  have run: "ct_main (Suc n) env clock s = seq (ct_rounds env clock ?fns timetest_table s1) (\<lambda>_ s.
      case ct_unlink env (tfile s) s of (_, s) \<Rightarrow> log_pass clock ?fns (Some ''Verify access time will be changed passed.'') s)"
    using 1(1) by (simp add: ct_main_def Let_def log_assert_def printmsg_emit [OF assms(2)] log_onexit_def ct_getenv_def assms(3,4)
      sn s0_def del: ct_fns.simps)
  show ?thesis
  proof (cases ?P)
    case True
    then have 3: "ct_rounds env clock ?fns timetest_table s1 = Ret () s2" "ct_ready l i s2" "ct_dir s2 = (ct_dir s)(t \<mapsto> i)" "tfile s2 = t"
      using 2 1(3,4) by simp_all
    obtain s3 where 4: "ct_unlink env t s2 = (0, s3)" "moved env i [C_unlink] s2 s3" "ct_dir s3 = (ct_dir s2)(t := None)"
      by (rule ct_unlink_ok [OF assms(1), of s2 t i]) (use 3 in simp)
    have "cleanup_function s3 = Some 0" "tfile s3 = t" using 3(2,4) 4(2) by (simp_all add: moved_def ct_ready_def)
    then obtain s' where "endlog clock ?fns STF_PASS (Some ''Verify access time will be changed passed.'') s3 = Exit STF_PASS s'"
        "ct_dir s' = (ct_dir s3)(t := None)"
      using ct_ends [OF assms(1,2), of s3 0] t by metis
    then show ?thesis using run 3 4 if_P [OF True] by (auto simp: log_pass_def simp del: ct_fns.simps)
  next
    case False
    then have "ct_rounds env clock ?fns timetest_table s1 = Exit STF_FAIL s2" "ct_dir s2 = (ct_dir s)(t := None)" using 2 1(3,4) by simp_all
    then show ?thesis using run if_not_P [OF False] by auto
  qed
qed

text \<open>A file system as POSIX wants it, and one that is mounted without access times.\<close>

definition posix_marks :: "syscall \<Rightarrow> int \<Rightarrow> bool" where
  "posix_marks c k \<longleftrightarrow>
     k = ST_ATIME \<and> c \<in> {C_read, C_utime} \<or> k = ST_MTIME \<and> c \<in> {C_creat, C_write, C_utime} \<or>
     k = ST_CTIME \<and> c \<in> {C_creat, C_write, C_chmod, C_chown, C_link, C_unlink, C_utime}"

definition posix_env :: "bool \<Rightarrow> ct_env" where
  "posix_env atime =
     \<lparr>ce_getenv = [''TESTDIR'' \<mapsto> ''/zfs'', ''TESTFILE'' \<mapsto> ''f''], ce_ret = \<lambda>_ _. 3,
      ce_marks = \<lambda>c k. posix_marks c k \<and> (atime \<or> c \<noteq> C_read), ce_lag = \<lambda>_. 0, ce_nap = \<lambda>_. 2, ce_uid = 0, ce_gid = 0\<rparr>"

definition empty_ct :: ct_state where
  "empty_ct = \<lparr>lg_tick = 0, lg_stdout = [], cleanup_function = None, tfile = [], ct_dir = Map.empty, ct_times = \<lambda>_ _. 0,
     ct_next = 0, ct_now = 100, ct_tick = 0\<rparr>"

theorem ctime_decides_witness:
  "(\<exists>s'. ct_main 1 (posix_env True) (\<lambda>_. Some noon) empty_ct = Exit 0 s' \<and> ct_dir s' = Map.empty) \<and>
   (\<exists>s'. ct_main 1 (posix_env False) (\<lambda>_. Some noon) empty_ct = Exit 1 s' \<and> ct_dir s' = Map.empty)"
proof -
  have H: "\<exists>s'. ct_main 1 (posix_env b) (\<lambda>_. Some noon) empty_ct =
      Exit (if sets_times (posix_env b) timetest_table then STF_PASS else STF_FAIL) s' \<and> ct_dir s' = Map.empty" for b
    using ctime_decides [of "posix_env b" "\<lambda>_. Some noon" "''/zfs''" "''f''" "''/zfs/f''" "''/zfs/link_file''" empty_ct 0]
    by (simp add: ct_calm_def clock_ok_def posix_env_def BUFSIZ_def link_name_def empty_ct_def)
  have "sets_times (posix_env b) timetest_table \<longleftrightarrow> b" for b
    by (simp add: timetest_table_def marks_def posix_env_def posix_marks_def ST_ATIME_def ST_CTIME_def ST_MTIME_def)
  then show ?thesis using H [of True] H [of False] by (simp add: stf_results)
qed

end
