(* ===== verification/Test_Tools.thy ===== *)
theory Test_Tools
  imports Exec_Tools
begin

text \<open>
  Small test programs: \<^verbatim>\<open>threadsappend.c\<close> and \<^verbatim>\<open>mmap_exec.c\<close> of the ZFS suite and \<^verbatim>\<open>generate.c\<close>, which makes the input of the
  tests of the hash table.
\<close>

abbreviation (input) TAB :: char where "TAB \<equiv> CHR 0x09"

section \<open>threadsappend\<close>

text \<open>
  Two threads append blocks of one byte to the same file. The byte is read, when a thread starts, from the loop variable of
  the main thread. A thread has been created, has a byte and a number of writes it has made, is in the middle of a write with
  the position at which it writes, or has returned.
\<close>

datatype ta_thread = Fresh | Appending int nat | Writing int nat nat | Returned int

datatype ta_pc = At_create | At_next | At_join

record ta_state =
  ta_i :: int
  ta_pc :: ta_pc
  ta_threads :: "ta_thread list"
  ta_file :: "u8 list"
  ta_exit :: "int option"
  ta_err :: "string list"

text \<open>
  \<^verbatim>\<open>main\<close> before the threads: the answers of \<^verbatim>\<open>sysconf\<close> and of \<^verbatim>\<open>open\<close> (0 or an error) are arguments. The message of a failed
  \<^verbatim>\<open>open\<close> has \<^verbatim>\<open>argv[optind]\<close> after \<^verbatim>\<open>optind\<close> was advanced, the null pointer at the end of the arguments: undefined.
\<close>

definition ta_begin :: "string list \<Rightarrow> int \<Rightarrow> int \<Rightarrow> int \<Rightarrow> (int, ta_state) run" where
  "ta_begin argv ncpus errno err =
     (let s = \<lparr>ta_i = 0, ta_pc = At_create, ta_threads = [], ta_file = [], ta_exit = None, ta_err = []\<rparr>;
          fail = (\<lambda>msg. Exit 1 (s\<lparr>ta_exit := Some 1, ta_err := [msg]\<rparr>))
      in if length argv \<noteq> 2 then fail ''usage: zfs_threadsappend <file name>\<newline>''
         else if ncpus < 0 then fail (''Invalid return from sysconf(_SC_NPROCESSORS_ONLN) : errno (decimal)='' @ dec errno @ ''\<newline>'')
         else if ncpus < 2 then fail ''Must execute this binary on a multi-processor system\<newline>''
         else if err \<noteq> 0 then Stuck
         else Ret 0 s)"

text \<open>The loop that creates the threads: one call of \<^verbatim>\<open>thr_create\<close>, which answers \<open>ret\<close>, and the step of the loop variable.\<close>

definition ta_create :: "int \<Rightarrow> ta_state \<Rightarrow> ta_state" where
  "ta_create ret s =
     (if ta_i s \<ge> 2 then s\<lparr>ta_pc := At_join\<rparr>
      else if ret \<noteq> 0
      then s\<lparr>ta_exit := Some 1,
             ta_err := ta_err s @ [''zfs_threadsappend: thr_create(#'' @ dec (ta_i s + 1) @ '') failed error='' @ dec ret @ ''\<newline>'']\<rparr>
      else s\<lparr>ta_threads := ta_threads s @ [Fresh], ta_pc := At_next\<rparr>)"

definition ta_next :: "ta_state \<Rightarrow> ta_state" where
  "ta_next s = s\<lparr>ta_i := ta_i s + 1, ta_pc := At_create\<rparr>"

text \<open>\<^verbatim>\<open>thr_join\<close> has waited for every thread there is.\<close>

definition ta_joined :: "ta_state \<Rightarrow> bool" where
  "ta_joined s \<longleftrightarrow> list_all (\<lambda>th. case th of Returned n \<Rightarrow> True | _ \<Rightarrow> False) (ta_threads s)"

definition ta_finish :: "ta_state \<Rightarrow> ta_state" where
  "ta_finish s = s\<lparr>ta_exit := Some 0\<rparr>"

text \<open>Bytes written at a position.\<close>

definition put_at :: "nat \<Rightarrow> u8 list \<Rightarrow> u8 list \<Rightarrow> u8 list" where
  "put_at pos b f = take pos f @ b @ drop (pos + length b) f"

text \<open>
  A step of \<^verbatim>\<open>go\<close> in thread \<open>k\<close>: the start, one of 80 writes of 8192 bytes at the end of the file, the return. \<open>ret\<close> is the
  result of \<^verbatim>\<open>write\<close>, the number of bytes or -1; nothing looks at it. Where the file system does not append atomically, as
  the comment at the top of the program says of zfs, a write is two steps: the end of the file is looked up, and the bytes
  are written there, wherever the end may be by then.
\<close>

definition go :: "bool \<Rightarrow> nat \<Rightarrow> int \<Rightarrow> ta_state \<Rightarrow> ta_state" where
  "go atomic k ret s =
     (case ta_threads s ! k of
        Fresh \<Rightarrow> s\<lparr>ta_threads := (ta_threads s)[k := Appending (ta_i s) 0]\<rparr>
      | Appending n w \<Rightarrow>
          if w < 80
          then if atomic
               then s\<lparr>ta_file := ta_file s @ take (nat ret) (replicate 8192 (word_of_int n)), ta_threads := (ta_threads s)[k := Appending n (Suc w)]\<rparr>
               else s\<lparr>ta_threads := (ta_threads s)[k := Writing n w (length (ta_file s))]\<rparr>
          else s\<lparr>ta_threads := (ta_threads s)[k := Returned n]\<rparr>
      | Writing n w pos \<Rightarrow>
          s\<lparr>ta_file := put_at pos (take (nat ret) (replicate 8192 (word_of_int n))) (ta_file s), ta_threads := (ta_threads s)[k := Appending n (Suc w)]\<rparr>
      | Returned n \<Rightarrow> s)"

text \<open>
  The interleavings of the three threads; \<open>atomic\<close> says whether a write to the descriptor, which is open for appending, is one
  step, and \<open>rets\<close> are the results of \<^verbatim>\<open>write\<close> that occur.
\<close>

inductive ta_step :: "bool \<Rightarrow> int set \<Rightarrow> ta_state \<Rightarrow> ta_state \<Rightarrow> bool" for atomic rets where
  Create: "ta_exit s = None \<Longrightarrow> ta_pc s = At_create \<Longrightarrow> ta_step atomic rets s (ta_create ret s)"
| Next: "ta_exit s = None \<Longrightarrow> ta_pc s = At_next \<Longrightarrow> ta_step atomic rets s (ta_next s)"
| Go: "ta_exit s = None \<Longrightarrow> k < length (ta_threads s) \<Longrightarrow> ret \<in> rets \<Longrightarrow> ta_step atomic rets s (go atomic k ret s)"
| Finish: "ta_exit s = None \<Longrightarrow> ta_pc s = At_join \<Longrightarrow> ta_joined s \<Longrightarrow> ta_step atomic rets s (ta_finish s)"

section \<open>mmap_exec\<close>

text \<open>
  The answers of \<^verbatim>\<open>open\<close>, \<^verbatim>\<open>fstat\<close> and \<^verbatim>\<open>mmap\<close> with \<^verbatim>\<open>PROT_EXEC\<close>, 0 or an error, which becomes the status. The messages are
  those on standard output and of \<^verbatim>\<open>perror\<close>.
\<close>

definition me_main :: "(int \<Rightarrow> string) \<Rightarrow> string list \<Rightarrow> int \<Rightarrow> int \<Rightarrow> int \<Rightarrow> int \<times> string list" where
  "me_main strerror argv eopen estat emap =
     (let perror = (\<lambda>what e. (e, [what @ '': '' @ strerror e @ ''\<newline>''])) in
      if length argv \<noteq> 2
      then (1, [''Error: missing binary name.\<newline>'', ''Usage:\<newline>'' @ [TAB] @ argv ! 0 @ '' <binary name>\<newline>''])
      else if eopen \<noteq> 0 then perror ''open'' eopen
      else if estat \<noteq> 0 then perror ''fstat'' estat
      else if emap \<noteq> 0 then perror ''mmap'' emap
      else (0, []))"

section \<open>generate\<close>

text \<open>
  The answers of the two calls of \<^verbatim>\<open>malloc\<close>, the random numbers by round, and the element behind the end of the array \<^verbatim>\<open>seed\<close>,
  which \<^verbatim>\<open>memmove\<close> reads.
\<close>

record gn_env =
  gn_alloc :: "nat \<Rightarrow> bool"
  gn_random :: "nat \<Rightarrow> nat"
  gn_beyond :: "nat \<Rightarrow> int"

definition gn_usage :: string where
  "gn_usage =
     ''\<newline>Usage:'' @ [TAB] @ ''generate <prefix> <count> <suffix>\<newline>\<newline>Where:\<newline>'' @
     [TAB] @ ''<prefix>'' @ [TAB] @ ''is a string to prefix on each line.\<newline>'' @
     [TAB] @ ''<count>'' @ [TAB, TAB] @ ''is a count of the number of data to generate.\<newline>'' @
     [TAB] @ ''<suffix>'' @ [TAB] @ ''is a string to append to each line.\<newline>\<newline>'' @
     ''Either <prefix> or <suffix> may contain a single %d construct to include\<newline>'' @
     ''the counter used while creating the data.\<newline>\<newline>Output:\<newline>'' @
     [TAB] @ ''<prefix><data><suffix>\<newline>\<newline>'' @
     [TAB] @ ''Note -'' @ [TAB] @ ''No space will be added between items and no new line\<newline>'' @
     [TAB, TAB] @ ''will be added after the suffix.\<newline>\<newline>''"

text \<open>
  The rounds of the loop that draws the values, \<open>i\<close> of them left. \<^verbatim>\<open>memmove\<close> moves one element more than there is behind the
  one that is taken out.
\<close>

primrec gn_shuffle :: "gn_env \<Rightarrow> nat \<Rightarrow> nat \<Rightarrow> int list \<Rightarrow> int list \<Rightarrow> int list" where
  "gn_shuffle env num 0 seed vals = vals"
| "gn_shuffle env num (Suc i) seed vals =
     (let j = gn_random env i mod Suc i;
          vals = vals[i := seed ! j];
          seed = (if j < num - 1 then take j seed @ take (num - j) (drop (Suc j) (seed @ [gn_beyond env i])) else seed)
      in gn_shuffle env num i seed vals)"

text \<open>The number of decimal digits; the division of C rounds towards 0.\<close>

function gn_width :: "int \<Rightarrow> nat" where
  "gn_width i = (if i = 0 then 0 else Suc (gn_width (if i < 0 then - (- i div 10) else i div 10)))"
  by auto
termination
proof (relation "measure (\<lambda>i. nat \<bar>i\<bar>)")
  fix i :: int
  assume "i \<noteq> 0"
  then show "(if i < 0 then - (- i div 10) else i div 10, i) \<in> measure (\<lambda>i. nat \<bar>i\<bar>)"
    by (cases "i < 0") (simp_all add: nat_less_iff pos_imp_zdiv_nonneg_iff)
qed simp

declare gn_width.simps [simp del]

fun gn_print :: "string \<Rightarrow> int list \<Rightarrow> string \<Rightarrow> (int, string) run" where
  "gn_print fmt [] out = Ret 0 out"
| "gn_print fmt (v # vs) out =
     (case format fmt [AInt v, AInt v, AInt v] of None \<Rightarrow> Stuck | Some t \<Rightarrow> gn_print fmt vs (out @ t))"

text \<open>
  \<^verbatim>\<open>main\<close>; the state is what has been printed. The usage text is the format of \<^verbatim>\<open>fprintf\<close>. What the array \<^verbatim>\<open>value\<close> holds before
  the loop is left to \<open>gn_beyond\<close> as well; the loop sets every element.
\<close>

definition gn_main :: "gn_env \<Rightarrow> string list \<Rightarrow> string \<Rightarrow> (int, string) run" where
  "gn_main env argv out =
     (if length argv < 4
      then (case format gn_usage [] of None \<Rightarrow> Stuck | Some t \<Rightarrow> Ret 1 (out @ t))
      else case atoi (argv ! 2) of
          None \<Rightarrow> Stuck
        | Some num \<Rightarrow>
            if \<not> gn_alloc env 0 \<or> \<not> gn_alloc env 1 then Ret 1 out
            else if num = INT_MIN then Stuck
            else
              let vals = gn_shuffle env (nat num) (nat num) (map int [0..<nat num]) (map (gn_beyond env) [0..<nat num]);
                  width = int (gn_width (num - 1))
              in case snprintf 100 ''%s%%%d.%dd%s '' [AStr (argv ! 1), AInt width, AInt width, AStr (argv ! 3)] of
                   None \<Rightarrow> Stuck
                 | Some (_, fmt) \<Rightarrow> gn_print fmt vals out)"

end
