(* ===== verification/Test_Spec.thy ===== *)
theory Test_Spec
  imports Test_Tools "HOL-Library.Multiset"
begin

text \<open>
  What the small test programs do: every interleaving of \<^verbatim>\<open>threadsappend\<close> leaves all blocks in the file if the writes are whole
  and atomic, and up to half of them are lost if they are not atomic; \<^verbatim>\<open>generate\<close> prints every number below the count once.
\<close>

section \<open>threadsappend\<close>

text \<open>The blocks a thread has written, and what is known of its byte and of the length of the file.\<close>

fun written :: "ta_thread \<Rightarrow> int multiset" where
  "written Fresh = {#}"
| "written (Appending n w) = replicate_mset w n"
| "written (Writing n w pos) = replicate_mset w n"
| "written (Returned n) = replicate_mset 80 n"

fun thread_ok :: "bool \<Rightarrow> int \<Rightarrow> int \<Rightarrow> nat \<Rightarrow> ta_thread \<Rightarrow> bool" where
  "thread_ok atomic k i len Fresh \<longleftrightarrow> True"
| "thread_ok atomic k i len (Appending n w) \<longleftrightarrow> k \<le> n \<and> n \<le> i \<and> w \<le> 80 \<and> 8192 * w \<le> len"
| "thread_ok atomic k i len (Writing n w pos) \<longleftrightarrow> \<not> atomic \<and> k \<le> n \<and> n \<le> i \<and> w < 80 \<and> 8192 * w \<le> pos \<and> pos \<le> len"
| "thread_ok atomic k i len (Returned n) \<longleftrightarrow> k \<le> n \<and> n \<le> i \<and> 8192 * 80 \<le> len"

definition blocks :: "int list \<Rightarrow> u8 list" where
  "blocks ns = concat (map (\<lambda>n. replicate 8192 (word_of_int n)) ns)"

definition written_all :: "ta_thread list \<Rightarrow> int multiset" where
  "written_all ths = (\<Sum>k<length ths. written (ths ! k))"

text \<open>The loop of the main thread: its variable counts the threads.\<close>

fun loop_ok :: "ta_pc \<Rightarrow> int \<Rightarrow> nat \<Rightarrow> bool" where
  "loop_ok At_create i len \<longleftrightarrow> i = int len \<and> i \<le> 2"
| "loop_ok At_next i len \<longleftrightarrow> i + 1 = int len \<and> i < 2"
| "loop_ok At_join i len \<longleftrightarrow> i = 2 \<and> len = 2"

text \<open>The file is not longer than what was written; where writes are atomic, it is what was written.\<close>

definition file_ok :: "bool \<Rightarrow> u8 list \<Rightarrow> int multiset \<Rightarrow> bool" where
  "file_ok atomic f M \<longleftrightarrow> length f \<le> 8192 * size M \<and> (atomic \<longrightarrow> (\<exists>ns. f = blocks ns \<and> mset ns = M))"

definition ta_inv :: "bool \<Rightarrow> ta_state \<Rightarrow> bool" where
  "ta_inv atomic s \<longleftrightarrow>
     loop_ok (ta_pc s) (ta_i s) (length (ta_threads s)) \<and>
     (\<forall>k<length (ta_threads s). thread_ok atomic (int k) (ta_i s) (length (ta_file s)) (ta_threads s ! k)) \<and>
     file_ok atomic (ta_file s) (written_all (ta_threads s)) \<and>
     (ta_exit s = Some 0 \<longrightarrow> ta_pc s = At_join \<and> ta_joined s)"

lemma written_all_update:
  assumes "k < length ths" "written th' = written (ths ! k) + d"
  shows "written_all (ths[k := th']) = written_all ths + d"
proof -
  have "written_all (ths[k := th']) = (\<Sum>j<length ths. written (ths ! j) + (if j = k then d else {#}))"
    unfolding written_all_def using assms by (intro sum.cong) (auto simp: nth_list_update)
  also have "\<dots> = written_all ths + d" using assms(1) by (simp add: written_all_def sum.distrib)
  finally show ?thesis .
qed

lemma written_all_append: "written_all (ths @ [th]) = written_all ths + written th"
proof -
  have "(\<Sum>k<length ths. written ((ths @ [th]) ! k)) = (\<Sum>k<length ths. written (ths ! k))" by (rule sum.cong) (simp_all add: nth_append)
  then show ?thesis by (simp add: written_all_def)
qed

lemma thread_ok_mono: "thread_ok atomic k i len th \<Longrightarrow> i \<le> i' \<Longrightarrow> len \<le> len' \<Longrightarrow> thread_ok atomic k i' len' th"
  by (cases th) auto

lemma length_put_at: "pos \<le> length f \<Longrightarrow> length (put_at pos b f) = max (length f) (pos + length b)"
  by (simp add: put_at_def)

lemma file_ok_append: "file_ok atomic f M \<Longrightarrow> file_ok atomic (f @ replicate 8192 (word_of_int n)) (M + {#n#})"
proof -
  assume f: "file_ok atomic f M"
  have "\<exists>ns'. blocks ns @ replicate 8192 (word_of_int n) = blocks ns' \<and> mset ns' = mset ns + {#n#}" for ns
    by (rule exI [of _ "ns @ [n]"]) (simp add: blocks_def)
  then show ?thesis using f by (auto simp: file_ok_def)
qed

text \<open>A thread that goes on, with what it adds to the file.\<close>

lemma ta_inv_thread:
  assumes inv: "ta_inv atomic s" and k: "k < length (ta_threads s)" and s: "ta_exit s = None"
    and th: "thread_ok atomic (int k) (ta_i s) (length f) th" "written th = written (ta_threads s ! k) + d"
    and f: "length (ta_file s) \<le> length f" "file_ok atomic f (written_all (ta_threads s) + d)"
  shows "ta_inv atomic (s\<lparr>ta_file := f, ta_threads := (ta_threads s)[k := th]\<rparr>)"
proof -
  have "thread_ok atomic (int j) (ta_i s) (length f) ((ta_threads s)[k := th] ! j)" if "j < length (ta_threads s)" for j
    using inv that th(1) f(1) by (cases "j = k") (auto simp: ta_inv_def intro: thread_ok_mono)
  then show ?thesis using inv s f(2) written_all_update [OF k th(2)] by (simp add: ta_inv_def)
qed

lemma go_inv:
  assumes inv: "ta_inv atomic s" and k: "k < length (ta_threads s)" and s: "ta_exit s = None"
  shows "ta_inv atomic (go atomic k 8192 s)"
proof -
  have ok: "thread_ok atomic (int k) (ta_i s) (length (ta_file s)) (ta_threads s ! k)" using inv k by (simp add: ta_inv_def)
  have ki: "int k \<le> ta_i s" using inv k by (cases "ta_pc s") (auto simp: ta_inv_def)
  have fok: "file_ok atomic (ta_file s) (written_all (ta_threads s))" using inv by (simp add: ta_inv_def)
  have keep: "ta_inv atomic (s\<lparr>ta_threads := (ta_threads s)[k := th]\<rparr>)"
    if "thread_ok atomic (int k) (ta_i s) (length (ta_file s)) th" "written th = written (ta_threads s ! k)" for th
    using ta_inv_thread [OF inv k s that(1), of "{#}"] that(2) fok by simp
  show ?thesis
  proof (cases "ta_threads s ! k")
    case Fresh
    then show ?thesis using keep [of "Appending (ta_i s) 0"] ki by (simp add: go_def)
  next
    case (Appending n w)
    consider "w < 80" atomic | "w < 80" "\<not> atomic" | "w = 80" using ok Appending by fastforce
    then show ?thesis
    proof cases
      case 1
      have "ta_inv atomic (s\<lparr>ta_file := ta_file s @ replicate 8192 (word_of_int n), ta_threads := (ta_threads s)[k := Appending n (Suc w)]\<rparr>)"
        by (rule ta_inv_thread [OF inv k s _ _ _ file_ok_append [OF fok]]) (use ok 1 Appending in simp_all)
      then show ?thesis using 1 Appending by (simp add: go_def)
    next
      case 2
      then show ?thesis using keep [of "Writing n w (length (ta_file s))"] ok Appending by (simp add: go_def)
    next
      case 3
      then show ?thesis using keep [of "Returned n"] ok Appending by (simp add: go_def)
    qed
  next
    case (Writing n w pos)
    let ?f = "put_at pos (replicate 8192 (word_of_int n)) (ta_file s)"
    have len: "length ?f = max (length (ta_file s)) (pos + 8192)" using ok Writing by (simp add: length_put_at)
    have "ta_inv atomic (s\<lparr>ta_file := ?f, ta_threads := (ta_threads s)[k := Appending n (Suc w)]\<rparr>)"
      by (rule ta_inv_thread [OF inv k s, of _ _ "{#n#}"]) (use ok Writing fok len in \<open>auto simp: file_ok_def\<close>)
    then show ?thesis using Writing by (simp add: go_def)
  next
    case (Returned n)
    then show ?thesis using inv by (simp add: go_def)
  qed
qed

lemma ta_step_inv:
  assumes "ta_step atomic {8192} s s'" "ta_inv atomic s"
  shows "ta_inv atomic s'"
  using assms
proof (induction rule: ta_step.induct)
  case (Create s ret)
  have new: "thread_ok atomic (int k) (ta_i s) (length (ta_file s)) ((ta_threads s @ [Fresh]) ! k)" if "k < Suc (length (ta_threads s))" for k
    using Create.prems that by (cases "k = length (ta_threads s)") (auto simp: ta_inv_def nth_append)
  show ?case
  proof (cases "2 \<le> ta_i s \<or> ret \<noteq> 0")
    case True
    then show ?thesis using Create by (cases "2 \<le> ta_i s") (auto simp: ta_inv_def ta_create_def)
  next
    case False
    then show ?thesis using Create new by (simp add: ta_inv_def ta_create_def written_all_append)
  qed
next
  case (Next s)
  have "thread_ok atomic (int k) (ta_i s + 1) (length (ta_file s)) (ta_threads s ! k)" if "k < length (ta_threads s)" for k
    by (rule thread_ok_mono [of atomic "int k" "ta_i s" "length (ta_file s)"]) (use Next.prems that in \<open>simp_all add: ta_inv_def\<close>)
  moreover have "loop_ok At_next (ta_i s) (length (ta_threads s))" using Next.prems Next.hyps(2) unfolding ta_inv_def by metis
  then have "loop_ok At_create (ta_i s + 1) (length (ta_threads s))" by simp
  ultimately show ?case using Next by (simp add: ta_inv_def ta_next_def del: loop_ok.simps)
next
  case (Go s k ret)
  then show ?case using go_inv by simp
next
  case (Finish s)
  then show ?case by (simp add: ta_inv_def ta_finish_def ta_joined_def del: loop_ok.simps)
qed

lemma length_blocks: "length (blocks ns) = 8192 * length ns"
  by (induction ns) (simp_all add: blocks_def)

text \<open>What the invariant says of a run that ends with 0.\<close>

lemma ta_inv_end:
  assumes inv: "ta_inv atomic s" and e: "ta_exit s = Some 0"
  obtains n m where "ta_threads s = [Returned n, Returned m]" "n \<in> {0, 1, 2}" "m \<in> {1, 2}"
    "written_all (ta_threads s) = replicate_mset 80 n + replicate_mset 80 m" "655360 \<le> length (ta_file s)"
proof -
  have 2: "length (ta_threads s) = 2" "ta_i s = 2" "ta_joined s" using assms by (auto simp: ta_inv_def)
  then obtain th th' where ths: "ta_threads s = [th, th']" by (auto simp: numeral_2_eq_2 length_Suc_conv)
  then obtain n m where nm: "th = Returned n" "th' = Returned m" using 2(3) by (auto simp: ta_joined_def split: ta_thread.splits)
  have "thread_ok atomic 0 2 (length (ta_file s)) th" "thread_ok atomic 1 2 (length (ta_file s)) th'"
    using inv ths 2(2) by (auto simp: ta_inv_def ths less_Suc_eq dest: spec [of _ 0] spec [of _ 1])
  then show thesis using nm by (intro that [of n m]) (auto simp: ths written_all_def numeral_2_eq_2 lessThan_Suc)
qed

lemma ta_go: "ta_exit s = None \<Longrightarrow> k < length (ta_threads s) \<Longrightarrow> s' = go atomic k 8192 s \<Longrightarrow> ta_step atomic {8192} s s'"
  by (auto intro: ta_step.Go)

text \<open>Where appending is not atomic, two threads that work in step write every block over that of the other.\<close>

lemma round_in_step:
  assumes "ta_exit s = None" "ta_threads s = [Appending n w, Appending m w]" "w < 80" "length (ta_file s) = 8192 * w"
  shows "\<exists>s'. (ta_step False {8192})\<^sup>*\<^sup>* s s' \<and> ta_exit s' = None \<and> ta_pc s' = ta_pc s \<and>
    ta_threads s' = [Appending n (Suc w), Appending m (Suc w)] \<and> length (ta_file s') = 8192 * Suc w"
proof -
  define s1 where "s1 = go False 0 8192 s"
  define s2 where "s2 = go False 1 8192 s1"
  define s3 where "s3 = go False 0 8192 s2"
  define s4 where "s4 = go False 1 8192 s3"
  have 1: "ta_exit s1 = None" "ta_pc s1 = ta_pc s" "ta_threads s1 = [Writing n w (8192 * w), Appending m w]" "length (ta_file s1) = 8192 * w"
    using assms by (simp_all add: s1_def go_def)
  have 2: "ta_exit s2 = None" "ta_pc s2 = ta_pc s" "ta_threads s2 = [Writing n w (8192 * w), Writing m w (8192 * w)]" "length (ta_file s2) = 8192 * w"
    using 1 assms(3) by (simp_all add: s2_def go_def)
  have 3: "ta_exit s3 = None" "ta_pc s3 = ta_pc s" "ta_threads s3 = [Appending n (Suc w), Writing m w (8192 * w)]" "length (ta_file s3) = 8192 * Suc w"
    using 2 by (simp_all add: s3_def go_def length_put_at)
  have 4: "ta_exit s4 = None" "ta_pc s4 = ta_pc s" "ta_threads s4 = [Appending n (Suc w), Appending m (Suc w)]" "length (ta_file s4) = 8192 * Suc w"
    using 3 by (simp_all add: s4_def go_def length_put_at)
  have "ta_step False {8192} s s1" "ta_step False {8192} s1 s2" "ta_step False {8192} s2 s3" "ta_step False {8192} s3 s4"
    by (rule ta_go [OF _ _ s1_def] ta_go [OF _ _ s2_def] ta_go [OF _ _ s3_def] ta_go [OF _ _ s4_def], use assms 1 2 3 in simp_all)+
  then have "(ta_step False {8192})\<^sup>*\<^sup>* s s4" by (meson converse_rtranclp_into_rtranclp r_into_rtranclp)
  then show ?thesis using 4 by blast
qed

lemma rounds_in_step:
  assumes "ta_exit s = None" "ta_threads s = [Appending n w, Appending m w]" "w \<le> 80" "length (ta_file s) = 8192 * w"
  shows "\<exists>s'. (ta_step False {8192})\<^sup>*\<^sup>* s s' \<and> ta_exit s' = None \<and> ta_pc s' = ta_pc s \<and>
    ta_threads s' = [Appending n 80, Appending m 80] \<and> length (ta_file s') = 655360"
  using assms
proof (induction "80 - w" arbitrary: s w)
  case 0
  then show ?case by (intro exI [of _ s]) simp
next
  case (Suc x)
  then have w: "w < 80" and x: "x = 80 - Suc w" by simp_all
  obtain s1 where s1: "(ta_step False {8192})\<^sup>*\<^sup>* s s1" "ta_exit s1 = None" "ta_pc s1 = ta_pc s"
      "ta_threads s1 = [Appending n (Suc w), Appending m (Suc w)]" "length (ta_file s1) = 8192 * Suc w"
    using round_in_step [OF Suc.prems(1,2) w Suc.prems(4)] by blast
  obtain s2 where "(ta_step False {8192})\<^sup>*\<^sup>* s1 s2" "ta_exit s2 = None" "ta_pc s2 = ta_pc s1"
      "ta_threads s2 = [Appending n 80, Appending m 80]" "length (ta_file s2) = 655360"
    using Suc.hyps(1) [OF x s1(2,4) _ s1(5)] w by auto
  then show ?case using s1(1,3) by (metis (no_types, lifting) rtranclp_trans)
qed

lemma threads_created:
  assumes "ta_begin argv ncpus errno err = Ret 0 s0"
  obtains s1 where "(ta_step atomic R)\<^sup>*\<^sup>* s0 s1" "ta_exit s1 = None" "ta_pc s1 = At_join" "ta_threads s1 = [Fresh, Fresh]" "ta_file s1 = []"
proof -
  have s0: "s0 = \<lparr>ta_i = 0, ta_pc = At_create, ta_threads = [], ta_file = [], ta_exit = None, ta_err = []\<rparr>"
    using assms by (auto simp: ta_begin_def Let_def split: if_splits)
  have st: "ta_step atomic R s0 (ta_create 0 s0)" "ta_step atomic R (ta_create 0 s0) (ta_next (ta_create 0 s0))"
    "ta_step atomic R (ta_next (ta_create 0 s0)) (ta_create 0 (ta_next (ta_create 0 s0)))"
    "ta_step atomic R (ta_create 0 (ta_next (ta_create 0 s0))) (ta_next (ta_create 0 (ta_next (ta_create 0 s0))))"
    "ta_step atomic R (ta_next (ta_create 0 (ta_next (ta_create 0 s0)))) (ta_create 0 (ta_next (ta_create 0 (ta_next (ta_create 0 s0)))))"
    by (rule ta_step.Create ta_step.Next; simp add: s0 ta_create_def ta_next_def)+
  note more = rtranclp.rtrancl_into_rtrancl [of "ta_step atomic R"]
  show thesis
    by (rule that [OF more [OF more [OF more [OF more [OF r_into_rtranclp [of "ta_step atomic R", OF st(1)] st(2)] st(3)] st(4)] st(5)]])
      (simp_all add: s0 ta_create_def ta_next_def)
qed

lemma short_run:
  assumes "ta_begin argv ncpus errno err = Ret 0 s0"
  shows "\<exists>s. (ta_step False {8192})\<^sup>*\<^sup>* s0 s \<and> ta_exit s = Some 0 \<and> length (ta_file s) = 655360"
proof -
  obtain s1 where s1: "(ta_step False {8192})\<^sup>*\<^sup>* s0 s1" "ta_exit s1 = None" "ta_pc s1 = At_join" "ta_threads s1 = [Fresh, Fresh]" "ta_file s1 = []"
    by (rule threads_created [OF assms])
  let ?i = "ta_i s1"
  define t1 where "t1 = go False 0 8192 s1"
  define s2 where "s2 = go False 1 8192 t1"
  have t1: "ta_exit t1 = None" "ta_pc t1 = At_join" "ta_threads t1 = [Appending ?i 0, Fresh]" "ta_file t1 = []" "ta_i t1 = ?i"
    using s1 by (simp_all add: t1_def go_def)
  have s2: "ta_exit s2 = None" "ta_pc s2 = At_join" "ta_threads s2 = [Appending ?i 0, Appending ?i 0]" "length (ta_file s2) = 8192 * 0"
    using t1 by (simp_all add: s2_def go_def)
  have "ta_step False {8192} s1 t1" "ta_step False {8192} t1 s2"
    by (rule ta_go [OF _ _ t1_def] ta_go [OF _ _ s2_def], use s1 t1 in simp_all)+
  then have 2: "(ta_step False {8192})\<^sup>*\<^sup>* s0 s2" using s1(1) by (meson rtranclp.rtrancl_into_rtrancl)
  obtain s3 where s3: "(ta_step False {8192})\<^sup>*\<^sup>* s2 s3" "ta_exit s3 = None" "ta_pc s3 = At_join"
      "ta_threads s3 = [Appending ?i 80, Appending ?i 80]" "length (ta_file s3) = 655360"
    using rounds_in_step [OF s2(1,3) _ s2(4)] s2(2) by auto
  define t3 where "t3 = go False 0 8192 s3"
  define s4 where "s4 = go False 1 8192 t3"
  have t3: "ta_exit t3 = None" "ta_pc t3 = At_join" "ta_threads t3 = [Returned ?i, Appending ?i 80]" "length (ta_file t3) = 655360"
    using s3 by (simp_all add: t3_def go_def)
  have s4: "ta_exit s4 = None" "ta_pc s4 = At_join" "ta_threads s4 = [Returned ?i, Returned ?i]" "length (ta_file s4) = 655360"
    using t3 by (simp_all add: s4_def go_def)
  have "ta_step False {8192} s3 t3" "ta_step False {8192} t3 s4"
    by (rule ta_go [OF _ _ t3_def] ta_go [OF _ _ s4_def], use s3 t3 in simp_all)+
  moreover have "ta_step False {8192} s4 (ta_finish s4)" by (rule ta_step.Finish) (simp_all add: s4 ta_joined_def)
  ultimately have "(ta_step False {8192})\<^sup>*\<^sup>* s0 (ta_finish s4)" using 2 s3(1) by (meson rtranclp.rtrancl_into_rtrancl rtranclp_trans)
  then show ?thesis using s4 by (intro exI [of _ "ta_finish s4"]) (simp add: ta_finish_def)
qed

text \<open>
  C35. Every write of \<^verbatim>\<open>threadsappend\<close> is whole. If the file system appends atomically, then in whatever order the threads run,
  the file has 1310720 bytes when the program ends with 0: 160 blocks of 8192 equal bytes, 80 of each thread. The bytes are
  not fixed: the first thread writes 0, 1 or 2 and the second 1 or 2, because both read the loop variable of the main
  thread. If looking up the end of the file and writing there are two steps, as the comment in the program reports of zfs, the
  program ends with 0 all the same and the file has between 655360 and 1310720 bytes; a file of 655360 bytes does occur.
\<close>

theorem threads_append_all:
  assumes "ta_begin argv ncpus errno err = Ret 0 s0" "(ta_step atomic {8192})\<^sup>*\<^sup>* s0 s" "ta_exit s = Some 0"
  shows "(atomic \<longrightarrow> length (ta_file s) = 1310720 \<and>
     (\<exists>ns n m. ta_file s = blocks ns \<and> mset ns = replicate_mset 80 n + replicate_mset 80 m \<and> n \<in> {0, 1, 2} \<and> m \<in> {1, 2})) \<and>
    655360 \<le> length (ta_file s) \<and> length (ta_file s) \<le> 1310720 \<and>
    (\<exists>s'. (ta_step False {8192})\<^sup>*\<^sup>* s0 s' \<and> ta_exit s' = Some 0 \<and> length (ta_file s') = 655360)"
proof -
  have "ta_inv atomic s0" using assms(1) by (auto simp: ta_begin_def Let_def ta_inv_def file_ok_def blocks_def written_all_def split: if_splits)
  with assms(2) have inv: "ta_inv atomic s" by (induction rule: rtranclp_induct) (auto intro: ta_step_inv)
  obtain n m where nm: "n \<in> {0, 1, 2}" "m \<in> {1, 2}" "written_all (ta_threads s) = replicate_mset 80 n + replicate_mset 80 m"
    "655360 \<le> length (ta_file s)" by (rule ta_inv_end [OF inv assms(3)])
  have fok: "file_ok atomic (ta_file s) (replicate_mset 80 n + replicate_mset 80 m)" using inv nm(3) by (simp add: ta_inv_def)
  have "length (ta_file s) = 1310720 \<and> (\<exists>ns. ta_file s = blocks ns \<and> mset ns = replicate_mset 80 n + replicate_mset 80 m)" if atomic
  proof -
    obtain ns where ns: "ta_file s = blocks ns" "mset ns = replicate_mset 80 n + replicate_mset 80 m" using fok \<open>atomic\<close> by (auto simp: file_ok_def)
    have "length ns = 160" using arg_cong [OF ns(2), of size] by simp
    then show ?thesis using ns by (auto simp: length_blocks)
  qed
  moreover have "length (ta_file s) \<le> 1310720" using fok by (simp add: file_ok_def)
  ultimately show ?thesis using nm(1,2,4) short_run [OF assms(1)] by blast
qed

text \<open>A run in which the threads work one after the other.\<close>

lemma thread_runs:
  assumes "ta_exit s = None" "k < length (ta_threads s)" "ta_threads s ! k = Appending n w" "w \<le> 80"
  shows "\<exists>s'. (ta_step True {8192})\<^sup>*\<^sup>* s s' \<and> ta_exit s' = None \<and> ta_pc s' = ta_pc s \<and> ta_i s' = ta_i s \<and> ta_threads s' = (ta_threads s)[k := Returned n]"
  using assms
proof (induction "80 - w" arbitrary: s w)
  case 0
  have st: "ta_step True {8192} s (go True k 8192 s)" by (rule ta_step.Go [OF 0(2,3)]) simp
  show ?case by (rule exI [of _ "go True k 8192 s"]) (use 0 st in \<open>simp add: go_def r_into_rtranclp\<close>)
next
  case (Suc x)
  let ?s = "go True k 8192 s"
  have w: "w < 80" using Suc.hyps(2) by simp
  have "ta_step True {8192} s ?s" by (rule ta_step.Go [OF Suc.prems(1,2)]) simp
  moreover have "\<exists>s'. (ta_step True {8192})\<^sup>*\<^sup>* ?s s' \<and> ta_exit s' = None \<and> ta_pc s' = ta_pc ?s \<and> ta_i s' = ta_i ?s \<and> ta_threads s' = (ta_threads ?s)[k := Returned n]"
    by (rule Suc.hyps(1) [of "Suc w"]) (use Suc.prems Suc.hyps(2) w in \<open>simp_all add: go_def\<close>)
  ultimately show ?case using Suc.prems w by (auto simp: go_def intro: converse_rtranclp_into_rtranclp)
qed

lemma fresh_thread_runs:
  assumes "ta_exit s = None" "k < length (ta_threads s)" "ta_threads s ! k = Fresh"
  shows "\<exists>s'. (ta_step True {8192})\<^sup>*\<^sup>* s s' \<and> ta_exit s' = None \<and> ta_pc s' = ta_pc s \<and> ta_threads s' = (ta_threads s)[k := Returned (ta_i s)] \<and> ta_i s' = ta_i s"
proof -
  let ?s = "go True k 8192 s"
  have "ta_step True {8192} s ?s" by (rule ta_step.Go [OF assms(1,2)]) simp
  moreover have "\<exists>s'. (ta_step True {8192})\<^sup>*\<^sup>* ?s s' \<and> ta_exit s' = None \<and> ta_pc s' = ta_pc ?s \<and> ta_i s' = ta_i ?s \<and> ta_threads s' = (ta_threads ?s)[k := Returned (ta_i s)]"
    by (rule thread_runs [of _ _ _ 0]) (use assms in \<open>simp_all add: go_def\<close>)
  ultimately show ?thesis using assms by (auto simp: go_def intro: converse_rtranclp_into_rtranclp)
qed

lemma run_to_end:
  assumes "ta_begin argv ncpus errno err = Ret 0 s0"
  obtains s where "(ta_step True {8192})\<^sup>*\<^sup>* s0 s" "ta_exit s = Some 0"
proof -
  obtain s1 where s1: "(ta_step True {8192})\<^sup>*\<^sup>* s0 s1" "ta_exit s1 = None" "ta_pc s1 = At_join" "ta_threads s1 = [Fresh, Fresh]"
    by (rule threads_created [OF assms])
  obtain s2 where 2: "(ta_step True {8192})\<^sup>*\<^sup>* s1 s2" "ta_exit s2 = None" "ta_pc s2 = At_join" "ta_threads s2 = [Returned (ta_i s1), Fresh]" "ta_i s2 = ta_i s1"
    using fresh_thread_runs [of s1 0] s1 by auto
  obtain s3 where 3: "(ta_step True {8192})\<^sup>*\<^sup>* s2 s3" "ta_exit s3 = None" "ta_pc s3 = At_join" "ta_threads s3 = [Returned (ta_i s1), Returned (ta_i s2)]"
    using fresh_thread_runs [of s2 1] 2 by auto
  have "ta_step True {8192} s3 (ta_finish s3)" by (rule ta_step.Finish [OF 3(2,3)]) (simp add: ta_joined_def 3(4))
  then have "(ta_step True {8192})\<^sup>*\<^sup>* s0 (ta_finish s3)" using s1(1) 2(1) 3(1) by (meson rtranclp.rtrancl_into_rtrancl rtranclp_trans)
  then show thesis by (rule that) (simp add: ta_finish_def)
qed

theorem threads_append_all_witness:
  "\<exists>s0 s. ta_begin [''threadsappend'', ''/zfs/f''] 2 0 0 = Ret 0 s0 \<and> (ta_step True {8192})\<^sup>*\<^sup>* s0 s \<and> ta_exit s = Some 0 \<and> length (ta_file s) = 1310720"
proof -
  obtain s0 where s0: "ta_begin [''threadsappend'', ''/zfs/f''] 2 0 0 = Ret 0 s0" by (simp add: ta_begin_def)
  obtain s where s: "(ta_step True {8192})\<^sup>*\<^sup>* s0 s" "ta_exit s = Some 0" by (rule run_to_end [OF s0])
  show ?thesis using s0 s threads_append_all [OF s0 s] by blast
qed

section \<open>generate\<close>

text \<open>Whatever is behind the end of the array, it is never drawn.\<close>

lemma gn_shuffle_mset:
  assumes "length seed = num" "length vals = num" "i \<le> num"
  shows "mset (gn_shuffle env num i seed vals) = mset (take i seed) + mset (drop i vals)"
  using assms
proof (induction i arbitrary: seed vals)
  case (Suc i)
  define j where "j = gn_random env i mod Suc i"
  define seed' where "seed' = (if j < num - 1 then take j seed @ take (num - j) (drop (Suc j) (seed @ [gn_beyond env i])) else seed)"
  have ji: "j \<le> i" using mod_less_divisor [of "Suc i" "gn_random env i"] by (simp add: j_def less_Suc_eq_le)
  then have j: "j \<le> i" "j < num" using Suc.prems(3) by simp_all
  have len: "length seed' = num" using Suc.prems(1) j by (auto simp: seed'_def)
  have "mset (take (Suc i) seed) = add_mset (seed ! j) (mset (take i seed'))"
  proof (cases "j < num - 1")
    case True
    have "take (Suc i) seed = take j seed @ seed ! j # take (i - j) (drop (Suc j) seed)"
      using j Suc.prems(1) id_take_nth_drop [of j "take (Suc i) seed"] Suc.prems(3) by (simp add: take_drop min_absorb1)
    moreover have "take i seed' = take j seed @ take (i - j) (drop (Suc j) seed)"
      using True j Suc.prems(1,3) by (simp add: seed'_def)
    ultimately show ?thesis by simp
  next
    case False
    then have "j = i" using j Suc.prems(3) by simp
    moreover have "take (Suc i) seed = take i seed @ [seed ! i]" using Suc.prems(1,3) by (simp only: take_Suc_conv_app_nth)
    ultimately show ?thesis using False by (simp add: seed'_def)
  qed
  moreover have "mset (drop i (vals[i := seed ! j])) = add_mset (seed ! j) (mset (drop (Suc i) vals))"
    using Suc.prems(2,3) by (simp add: Cons_nth_drop_Suc [symmetric])
  moreover have "gn_shuffle env num (Suc i) seed vals = gn_shuffle env num i seed' (vals[i := seed ! j])"
    unfolding gn_shuffle.simps Let_def j_def seed'_def by (rule refl)
  ultimately show ?case using Suc.IH [of seed' "vals[i := seed ! j]"] Suc.prems len by simp
qed simp

lemma gn_width_numeral: "0 < n \<Longrightarrow> gn_width (int n) = length (numeral_in 10 n)"
proof (induction n rule: less_induct)
  case (less n)
  have d: "int n div 10 = int (n div 10)" by (simp add: zdiv_int)
  show ?case
  proof (cases "n < 10")
    case True
    then show ?thesis using less.prems d by (subst gn_width.simps, subst gn_width.simps) (simp add: numeral_in.simps)
  next
    case False
    then show ?thesis using less d by (subst gn_width.simps, subst numeral_in.simps) simp
  qed
qed

lemma numeral_in_bound: "n < 10 ^ length (numeral_in 10 n)"
proof (induction n rule: less_induct)
  case (less n)
  show ?case
  proof (cases "n < 10")
    case True
    then show ?thesis by (subst numeral_in.simps) simp
  next
    case False
    then have "n div 10 < 10 ^ length (numeral_in 10 (n div 10))" by (intro less) simp
    then have "n < 10 * 10 ^ length (numeral_in 10 (n div 10))" by (simp add: less_mult_imp_div_less div_less_iff_less_mult mult.commute)
    then show ?thesis using False by (subst numeral_in.simps) simp
  qed
qed

text \<open>The digits of a number that is printed.\<close>

lemma number_of_zeros: "number_of 0 (replicate k CHR ''0'' @ ds) = number_of 0 ds"
  by (induction k) simp_all

lemma gn_digits:
  assumes "v < n" "w = gn_width (int n - 1)"
  shows "length (digits_of (Some w) (int v)) = w" "number_of 0 (digits_of (Some w) (int v)) = v"
proof -
  have w: "w = (if n = 1 then 0 else length (numeral_in 10 (n - 1)))"
    using assms gn_width_numeral [of "n - 1"] by (auto simp: of_nat_diff gn_width.simps)
  have "length (numeral_in 10 v) \<le> w" if "n \<noteq> 1"
    using that assms(1) w numeral_in_bound [of "n - 1"] by (intro length_numeral_in) (simp_all add: numeral_in_nonempty)
  then show "length (digits_of (Some w) (int v)) = w" using assms(1) w by (auto simp: digits_of_def Let_def)
  show "number_of 0 (digits_of (Some w) (int v)) = v" by (simp add: digits_of_def Let_def number_of_zeros number_of_numeral)
qed

text \<open>The format the program puts together has one directive between prefix and suffix.\<close>

lemma gn_directive:
  assumes "w \<le> 10"
  shows "\<exists>fl. CHR ''-'' \<notin> set fl \<and> read_directive (dec (int w) @ CHR ''.'' # dec (int w) @ CHR ''d'' # r) =
    Some (\<lparr>dr_flags = fl, dr_width = w, dr_prec = Some w, dr_conv = CHR ''d''\<rparr>, r)"
proof -
  have "w = 0 \<or> w = 1 \<or> w = 2 \<or> w = 3 \<or> w = 4 \<or> w = 5 \<or> w = 6 \<or> w = 7 \<or> w = 8 \<or> w = 9 \<or> w = 10" using assms by arith
  then show ?thesis by (elim disjE) (simp_all add: read_directive_def is_digit_def dec_def numeral_in.simps)
qed

lemma gn_format:
  assumes "CHR ''%'' \<notin> set p" "CHR ''%'' \<notin> set q" "w \<le> 10" "w \<le> length (digits_of (Some w) v)"
  shows "format (p @ ''%'' @ dec (int w) @ ''.'' @ dec (int w) @ ''d'' @ q @ '' '') (AInt v # as) = Some (p @ digits_of (Some w) v @ q @ '' '')"
proof -
  obtain fl where fl: "CHR ''-'' \<notin> set fl" "read_directive (dec (int w) @ CHR ''.'' # dec (int w) @ CHR ''d'' # q @ '' '') =
      Some (\<lparr>dr_flags = fl, dr_width = w, dr_prec = Some w, dr_conv = CHR ''d''\<rparr>, q @ '' '')" using gn_directive [OF assms(3)] by blast
  have "format (q @ '' '') as = Some (q @ '' '')" using assms(2) by (simp add: format_plain fmt)
  moreover have "padded \<lparr>dr_flags = fl, dr_width = w, dr_prec = Some w, dr_conv = CHR ''d''\<rparr> False (digits_of (Some w) v) = digits_of (Some w) v"
    using fl(1) assms(4) by (simp add: padded_def)
  ultimately show ?thesis using fl(2) assms(1) by (simp add: format_plain format_directive)
qed

lemma gn_print_all:
  assumes "\<And>v. v \<in> set vs \<Longrightarrow> format fm [AInt v, AInt v, AInt v] = Some (f v)"
  shows "gn_print fm vs out = Ret 0 (out @ concat (map f vs))"
  using assms by (induction vs arbitrary: out) simp_all

lemma gn_fmt:
  assumes "length p + length q \<le> 91" "w \<le> 10"
  shows "\<exists>r. snprintf 100 ''%s%%%d.%dd%s '' [AStr p, AInt (int w), AInt (int w), AStr q] =
    Some (r, p @ ''%'' @ dec (int w) @ ''.'' @ dec (int w) @ ''d'' @ q @ '' '')"
proof -
  have pc: "format (CHR ''%'' # CHR ''%'' # fs) as = map_option ((#) CHR ''%'') (format fs as)" for fs as
    by (simp add: format.simps(2) read_directive_def is_digit_def)
  have "format ''%s%%%d.%dd%s '' [AStr p, AInt (int w), AInt (int w), AStr q] = Some (p @ ''%'' @ dec (int w) @ ''.'' @ dec (int w) @ ''d'' @ q @ '' '')"
    by (simp add: fmt pc)
  moreover have "length (dec (int w)) \<le> 2" using length_dec [of 2 "int w"] assms(2) by simp
  ultimately show ?thesis using assms(1) by (simp add: snprintf_Some)
qed

text \<open>
  C36. With a prefix and a suffix without percent signs that fit into its array, and provided that the read of one element behind its
  array gives any value, \<^verbatim>\<open>generate\<close> prints every number below a count of at least 2 exactly once, whatever random numbers it is
  given, each between prefix and suffix, with the same number of decimal digits, those of the largest number, and with
  a blank behind the suffix, although the usage text of the program says that no space is added between items. Where the count
  is 1 it prints the prefix, the suffix and the blank, and no digit.
\<close>

theorem generate_permutes:
  assumes "gn_alloc env 0" "gn_alloc env 1" "0 < n" "int n \<le> INT_MAX"
    and "CHR ''%'' \<notin> set p" "CHR ''%'' \<notin> set q" "length p + length q \<le> 91"
  shows "(n = 1 \<longrightarrow> gn_main env [prog, p, dec (int n), q] out = Ret 0 (out @ p @ q @ '' '')) \<and>
   (2 \<le> n \<longrightarrow> (\<exists>ts. gn_main env [prog, p, dec (int n), q] out = Ret 0 (out @ concat (map (\<lambda>t. p @ t @ q @ '' '') ts)) \<and>
    mset (map (number_of 0) ts) = mset [0..<n] \<and>
    (\<forall>t \<in> set ts. t \<noteq> [] \<and> list_all is_digit t \<and> length t = length (numeral_in 10 (n - 1)))))"
proof -
  define w where "w = gn_width (int n - 1)"
  define vs where "vs = gn_shuffle env n n (map int [0..<n]) (map (gn_beyond env) [0..<n])"
  have vs: "mset vs = mset (map int [0..<n])" by (simp add: vs_def gn_shuffle_mset)
  then have v: "\<exists>k<n. v = int k" if "v \<in> set vs" for v using that mset_eq_setD [OF vs] by auto
  have digits: "length (digits_of (Some w) v) = w \<and> number_of 0 (digits_of (Some w) v) = nat v" if "v \<in> set vs" for v
    using v [OF that] gn_digits [OF _ w_def] by auto
  have w10: "w \<le> 10"
  proof (cases "n = 1")
    case False
    then have "w = length (numeral_in 10 (n - 1))" using assms(3) gn_width_numeral [of "n - 1"] by (simp add: w_def of_nat_diff)
    then show ?thesis using assms(4) length_numeral_in [of 10 "n - 1"] by (simp add: INT_MAX_def)
  qed (simp add: w_def gn_width.simps)
  obtain r where fm: "snprintf 100 ''%s%%%d.%dd%s '' [AStr p, AInt (int w), AInt (int w), AStr q] =
      Some (r, p @ ''%'' @ dec (int w) @ ''.'' @ dec (int w) @ ''d'' @ q @ '' '')" using gn_fmt [OF assms(7) w10] by blast
  have "gn_main env [prog, p, dec (int n), q] out = gn_print (p @ ''%'' @ dec (int w) @ ''.'' @ dec (int w) @ ''d'' @ q @ '' '') vs out"
    using assms(1,2,4) fm by (simp add: gn_main_def INT_MIN_def Let_def vs_def w_def)
  also have "\<dots> = Ret 0 (out @ concat (map (\<lambda>v. p @ digits_of (Some w) v @ q @ '' '') vs))"
    by (rule gn_print_all, rule gn_format [OF assms(5,6) w10]) (simp add: digits)
  finally have "gn_main env [prog, p, dec (int n), q] out = Ret 0 (out @ concat (map (\<lambda>t. p @ t @ q @ '' '') (map (digits_of (Some w)) vs)))"
    by (simp add: comp_def)
  moreover have "mset (map (number_of 0) (map (digits_of (Some w)) vs)) = mset [0..<n]"
  proof -
    have "map (number_of 0) (map (digits_of (Some w)) vs) = map nat vs" using digits by simp
    then have "mset (map (number_of 0) (map (digits_of (Some w)) vs)) = image_mset nat (mset vs)" by (simp only: mset_map)
    also have "\<dots> = mset [0..<n]" by (simp add: vs image_mset.compositionality comp_def)
    finally show ?thesis .
  qed
  moreover have "list_all is_digit (digits_of (Some w) v)" if "v \<in> set vs" for v
    using v [OF that] numeral_in_digits by (auto simp: digits_of_def Let_def list_all_iff is_digit_def)
  ultimately have "\<exists>ts. gn_main env [prog, p, dec (int n), q] out = Ret 0 (out @ concat (map (\<lambda>t. p @ t @ q @ '' '') ts)) \<and>
      mset (map (number_of 0) ts) = mset [0..<n] \<and> (\<forall>t \<in> set ts. list_all is_digit t \<and> length t = w)"
    using digits by (intro exI [of _ "map (digits_of (Some w)) vs"]) auto
  then obtain ts where ts: "gn_main env [prog, p, dec (int n), q] out = Ret 0 (out @ concat (map (\<lambda>t. p @ t @ q @ '' '') ts))"
    "mset (map (number_of 0) ts) = mset [0..<n]" "\<forall>t \<in> set ts. list_all is_digit t \<and> length t = w" by blast
  show ?thesis
  proof (rule conjI; rule impI)
    assume n: "n = 1"
    then have w: "w = 0" by (simp add: w_def gn_width.simps)
    have "length ts = 1" using arg_cong [OF ts(2), of size] n by simp
    then obtain t where t: "ts = [t]" by (auto simp: length_Suc_conv)
    then show "gn_main env [prog, p, dec (int n), q] out = Ret 0 (out @ p @ q @ '' '')" using ts(1,3) w by simp
  next
    assume "2 \<le> n"
    then have "w = length (numeral_in 10 (n - 1))" using gn_width_numeral [of "n - 1"] by (simp add: w_def of_nat_diff)
    then show "\<exists>ts. gn_main env [prog, p, dec (int n), q] out = Ret 0 (out @ concat (map (\<lambda>t. p @ t @ q @ '' '') ts)) \<and>
      mset (map (number_of 0) ts) = mset [0..<n] \<and>
      (\<forall>t \<in> set ts. t \<noteq> [] \<and> list_all is_digit t \<and> length t = length (numeral_in 10 (n - 1)))"
      using ts numeral_in_nonempty [of 10 "n - 1"] by (intro exI [of _ ts]) auto
  qed
qed

theorem generate_permutes_witness:
  "\<exists>ts. gn_main \<lparr>gn_alloc = \<lambda>_. True, gn_random = \<lambda>i. 7 * i, gn_beyond = \<lambda>_. 99\<rparr> [''generate'', ''key'', dec 12, '',''] [] =
     Ret 0 (concat (map (\<lambda>t. ''key'' @ t @ '','' @ '' '') ts)) \<and> mset (map (number_of 0) ts) = mset [0..<12]"
  using generate_permutes [of "\<lparr>gn_alloc = \<lambda>_. True, gn_random = \<lambda>i. 7 * i, gn_beyond = \<lambda>_. 99\<rparr>" 12 "''key''" "'',''" "''generate''" "[]"]
  by (auto simp: INT_MAX_def)

text \<open>Called with too few arguments the program prints its usage as a format that has a directive and no argument.\<close>

lemma generate_usage_undefined:
  assumes "length argv < 4"
  shows "gn_main env argv out = Stuck"
proof -
  have "format (CHR ''%'' # CHR ''d'' # fs) [] = None" for fs
    by (simp add: format.simps(2) read_directive_def is_digit_def)
  then have "format gn_usage [] = None" by (simp add: gn_usage_def fmt)
  then show ?thesis using assms by (simp add: gn_main_def)
qed

end
