(* ===== verification/Spec2Isabelle.thy ===== *)
theory Spec2Isabelle
  imports HT_Live HT_Resize Jnl_Spec Programs_Spec Log_Spec Cmds_Spec Files_Spec Mktree_Spec Mstf_Spec Exec_Spec Probe_Spec Race_Spec Ctime_Spec Test_Spec
begin

text \<open>
  \<^bold>\<open>The C code of the Solaris test framework STF and its libraries\<close>

  The repository holds the test framework STF (\<^verbatim>\<open>src/usr/src/tools/stf\<close>) and the ZFS test suite that
  runs under it. The framework's core is written in C: a journal library through which tests report
  (\<^verbatim>\<open>lib/libstf.c\<close>), a message library on top of it (\<^verbatim>\<open>contrib/jnl/lib/libjnl.c\<close>), a hash table for
  threaded programs that the message library uses (\<^verbatim>\<open>contrib/hashtable/lib/libhashtable.c\<close>), the program
  that collects the output of a test into the journal (\<^verbatim>\<open>bin/stf_jnl_context.c\<close>), the one that limits
  its time (\<^verbatim>\<open>bin/stf_timeout.c\<close>), the commands for scripts (\<^verbatim>\<open>bin/stf_jnl_*.c\<close>, \<^verbatim>\<open>bin/stf_gosu.c\<close>), a log
  library (\<^verbatim>\<open>contrib/logapi/lib/liblogapi.c\<close>) and the library for tests on several hosts
  (\<^verbatim>\<open>lib/libmstf.c\<close>, with its commands and its server \<^verbatim>\<open>bin/mstf_syncserv.exp\<close>). The ZFS suite brings small programs
  in C (\<^verbatim>\<open>src/usr/src/suites/fs/zfs/bin\<close>) and some tests in C (\<^verbatim>\<open>tests/functional\<close> beside it). This development models these libraries, commands and
  programs, function by function.

  \<^bold>\<open>How the parts interact.\<close> \<^verbatim>\<open>stf_jnl_context\<close> owns the journal file and copies into it what the
  command under test writes; \<^verbatim>\<open>stf_timeout\<close> runs each test case and reports start and end through
  \<^verbatim>\<open>libstf\<close>; tests call \<^verbatim>\<open>libstf\<close> directly or through \<^verbatim>\<open>libjnl\<close>, which cuts its messages into
  lines for \<^verbatim>\<open>stf_jnl_msg\<close> and finds the text buffers of the calling thread with a table of
  \<^verbatim>\<open>libhashtable\<close>. Scripts call the commands, each of them a process that shares the journal and the variable
  file with the others. Parts of a test on other hosts meet through \<^verbatim>\<open>libmstf\<close> at the server. \<open>Jnl_Model\<close> is built on the models of the two other libraries and calls their
  functions, not specifications of them.

  \<^bold>\<open>Shared theories.\<close>
  \<^item> \<open>Prelude\<close>: outcomes of calls that may block or be undefined (\<open>outcome\<close>, \<open>runs\<close>), error numbers,
    pointers, machine words, lemmas on lists and maps.
  \<^item> \<open>CLib\<close>: what the code uses of the C library: \<^verbatim>\<open>printf\<close> formats with their arguments
    (\<open>format\<close>, \<open>snprintf\<close>; a directive without an argument is undefined), decimal numbers.
  \<^item> \<open>Sync\<close>: memory, read-write locks and mutexes, allocation; \<open>Stf_Sys\<close>: a process with
    environment, descriptors, files with inodes and the mapped variable file.
  \<^item> \<open>Args\<close>: numbers read from text (\<open>strtol\<close>, \<open>atoi\<close>, \<open>atoll\<close>) and the options of a command line (\<open>getopt\<close>);
    \<open>Files\<close>: a file system with descriptors whose calls may fail or transfer less than asked for.
  \<^item> \<open>Lines\<close>: the lines of a text; \<open>Sink\<close>: the locale of a function that appends messages to a text,
    with the lemmas on sequences of messages; \<open>Dictionary\<close>: the locale of a table with lookup, insert
    and delete.

  \<^bold>\<open>The hash table.\<close> \<open>HT_Ops\<close> and \<open>HT_Table\<close> are the functions of \<^verbatim>\<open>libhashtable.c\<close> over a store
  (\<open>world\<close>) of table heads, slabs and entries, with every failure of a lock or an allocation as a branch;
  loops over chains are \<open>partial_function (option)\<close>, so that a chain that never ends or a lock that is
  never released is the result \<open>None\<close>. \<open>HT_Inv\<close> states the well-formedness of a table (slots, chains, free
  chain, slabs, hash values, locks) and the map it stands for. Memory is as \<^verbatim>\<open>malloc\<close> returns it: the pointer to an old table
  and the one behind the first slab are never set, so that well-formedness leaves the end of the chain of slabs open;
  \<open>ht_ended\<close> adds that it is a null pointer, which only \<^verbatim>\<open>ht_destroy\<close> needs, and each operation keeps it where it holds.
  The size of the block of a slab is a \<^verbatim>\<open>size_t\<close> and wraps around; \<open>slab_fits\<close> says that it does not, and the entries that do not
  lie in the block do not exist. \<open>HT_Shape\<close> to \<open>HT_Frame\<close> are the lemmas
  on chains, locks and counters; \<open>HT_Slab\<close>, \<open>HT_Create\<close>, \<open>HT_Locate\<close>, \<open>HT_Bucket\<close>, \<open>HT_Insert\<close>,
  \<open>HT_Delete\<close> treat the operations. \<open>HT_Spec\<close> has the properties C1 to C7: create, locate, insert and
  delete refine operations on a finite map, and the exact effect of two defects of \<^verbatim>\<open>ht_delete_key\<close>. The
  library is interpreted as a \<open>Dictionary\<close> there. \<open>HT_Live\<close>: a write to memory that holds no key of the
  table changes nothing. \<open>HT_Destroy\<close> follows the release of entries, slabs, locks and the head; \<open>HT_Life\<close> has C8 and C9: \<^verbatim>\<open>ht_destroy\<close> frees
  a table and nothing else, unless one of the two pointers that are never set happens to lead nowhere, and
  \<^verbatim>\<open>ht_sweep\<close> fails on every table with a chain. \<open>HT_Resize\<close> (C10): \<^verbatim>\<open>ht_resize\<close> keeps every
  pair; it copies the entries into a second table, exchanges what the two heads own, and the failure of the sweep makes it
  report an error and keep the old slabs although the table has its new size.

  \<^bold>\<open>The journal library.\<close> \<open>Stf_Journal\<close> is \<^verbatim>\<open>libstf.c\<close> over the process of \<open>Stf_Sys\<close>; a call returns,
  exits or is stuck (a mutex that is not released, or undefined behaviour such as an overrun of a fixed
  array). \<open>Stf_Frame\<close> says what an open journal, a write and a whole call change; \<open>Stf_Calls\<close>
  interprets \<open>Sink\<close> on \<^verbatim>\<open>stf_jnl_msg\<close>; \<open>Stf_Cases\<close> and \<open>Stf_Run\<close> run the calls for test cases,
  assertions, totals, start and end; \<open>Stf_Spec\<close> has the properties C11 to C15.

  \<^bold>\<open>The message library.\<close> \<open>Jnl_Detail\<close>: the tables of detail levels and the two searches over them,
  with their termination. \<open>Jnl_Model\<close>: all functions of \<^verbatim>\<open>libjnl.c\<close> as compiled with variadic macros.
  \<open>Jnl_Log\<close>: the loop that cuts messages into lines equals the lines of the text, and \<open>Sink\<close> is
  interpreted on the library. \<open>Jnl_Buffer\<close>: the invariant that ties the table of contents to the
  structures and buffers on the heap, and the fetch of a buffer. \<open>Jnl_Spec\<close>: the properties C16 to C20.

  \<^bold>\<open>The programs.\<close> \<open>Jnl_Context\<close> is the byte machine of \<^verbatim>\<open>write_pipe\<close> with the loop over the pipes and
  the end of the program; \<open>Ctx_Spec\<close>: the buffer is never overrun, the journal is an interleaving of the
  tagged lines of both streams (C21, C23). The final reads block until the end of a pipe, and both programs wait for the
  end of the command: a read or a wait behind the last answer of the system is stuck. \<open>Stf_Timeout\<close> reads the limit, waits, kills and reports, with lemmas in
  \<open>Timeout_Spec\<close>. \<open>Programs\<close> has the main functions of both from their arguments on, their children and their
  signal handlers; \<open>Programs_Spec\<close> follows them
  from the command line to the exit status (C22, C24).

  \<^bold>\<open>The log library.\<close> \<open>Log_Api\<close> is \<^verbatim>\<open>liblogapi.c\<close>; the cleanup functions of a test are an argument and may call the
  library again, which \<open>client\<close> follows to a given depth. \<open>Log_Spec\<close>: a program meets an abstract contract of
  lines and status (C25), it ends whenever its cleanup functions can be ranked (C26; the rank is the depth that is
  enough), and every status has a name (C27).

  \<^bold>\<open>The commands.\<close> \<open>Jnl_Cmds\<close> has the main functions of the journal commands and a shell that runs them as
  processes. \<open>Cmds_Spec\<close>: the journal of a whole session (C28) and the totals (C29), on the lemmas of \<open>Stf_Run\<close>.

  \<^bold>\<open>The programs of the ZFS suite.\<close> \<open>File_Tools\<close> is \<^verbatim>\<open>file_write.c\<close>, \<^verbatim>\<open>file_check.c\<close> and \<^verbatim>\<open>file_trunc.c\<close>; \<open>Files_Spec\<close>
  has C30 and C31. \<open>Mktree\<close> is \<^verbatim>\<open>mktree.c\<close>, with indeterminate bytes; \<open>Mktree_Spec\<close>: the tree is that of a recursive
  description (C32), by induction on the levels, where siblings share no name. \<open>Exec_Tools\<close>
  is \<^verbatim>\<open>chg_usr_exec.c\<close>, \<^verbatim>\<open>mkbusy.c\<close> and the framework's \<^verbatim>\<open>daemonize.c\<close>, each with the processes it leaves; \<open>Exec_Spec\<close>:
  the command that is run (C37), and the file that is held. \<open>Probe_Tools\<close> is \<^verbatim>\<open>randfree_file.c\<close>, \<^verbatim>\<open>readmmap.c\<close>,
  \<^verbatim>\<open>largest_file.c\<close> and \<^verbatim>\<open>devname2devid.c\<close>; \<open>Probe_Spec\<close>: what they report. \<open>Race_Tools\<close> is
  \<^verbatim>\<open>rm_lnkcnt_zero_file.c\<close>, as a step relation of its threads, \<^verbatim>\<open>rename_dir.c\<close>, \<^verbatim>\<open>dir_rd_update.c\<close> and \<^verbatim>\<open>mmapwrite.c\<close>;
  \<open>Race_Spec\<close>: an invariant of the link counts by rule induction (C33), and the reports of \<^verbatim>\<open>rename_dir\<close>.

  \<^bold>\<open>Tests in C.\<close> \<open>Ctime\<close> is the functional test \<^verbatim>\<open>ctime_001_pos.c\<close>, a program over \<open>Log_Api\<close>; which call sets which time of
  a file is an argument. \<open>Ctime_Spec\<close>: its verdict is that of the file system (C34), by an invariant of the times over its
  rounds. \<open>Test_Tools\<close> is \<^verbatim>\<open>threadsappend.c\<close>, as a step relation of its threads, \<^verbatim>\<open>mmap_exec.c\<close>, and the generator
  \<^verbatim>\<open>generate.c\<close> of test data for the hash table; \<open>Test_Spec\<close>: no block is lost where appending is atomic, and up to half of
  them where it is two steps (C35), every number is printed once (C36).

  \<^bold>\<open>Several hosts.\<close> \<open>Mstf\<close> is \<^verbatim>\<open>libmstf.c\<close> with its commands: streams over connections whose calls may fail and
  whose answers come in pieces. \<open>Mstf_Server\<close> is the server, for lines without characters that are special in Tcl.
  \<open>Mstf_Spec\<close>: the protocol of both (C38, C39) and two defects, one of them C40.

  \<^bold>\<open>Bounds and choices.\<close> Addresses of keys and data are 64-bit words, counters and sequence numbers have
  the widths of the C types and wrap. The order in which the system answers is an argument: environments
  give the result of the call made at a given tick, loops over \<^verbatim>\<open>poll\<close> take the list of what the system
  delivers, and are stuck when it is used up; the theorems that such a loop ends name the delivery that
  ends it. The functions \<^verbatim>\<open>malloc\<close>, \<^verbatim>\<open>poll\<close>, \<^verbatim>\<open>read\<close>, \<^verbatim>\<open>waitpid\<close>, the clock and the locks of the
  system are such arguments; the hypotheses on them are named (\<open>env_ok\<close>, \<open>io_calm\<close>, \<open>stack_ok\<close>,
  \<open>jnl_room\<close>, \<open>quiet_round\<close>, \<open>fs_calm\<close>, \<open>tree_calm\<close>, \<open>net_calm\<close>, \<open>mb_calm\<close>, \<open>ct_calm\<close>), and each property is applied at a concrete system. In the libraries one thread
  is followed at a time: a lock that another thread would have to release is never released.

  \<^bold>\<open>Not modelled.\<close> The second variants of the functions of \<^verbatim>\<open>libjnl.c\<close> for compilers without variadic macros, which are
  not compiled, and the debugging part of \<^verbatim>\<open>devname2devid.c\<close>; the driver \<^verbatim>\<open>basic.c\<close> of the hash
  table, which calls the functions that are modelled and prints what they return; file modes, how long a
  \<^verbatim>\<open>sleep\<close> lasts (an argument in \<open>Ctime\<close>) and the order of output of several
  processes; the scripts in Korn shell, Perl and expect other than the server.
  What happens when a lock or an allocation fails in the middle of \<^verbatim>\<open>ht_resize\<close> is modelled without a property.
\<close>

end
